(* ===== verification/Prelude.thy ===== *)
theory Prelude
  imports Main "HOL-Library.Word"
begin

text \<open>
  Shared vocabulary of the development: the exceptions of the source as a datatype, the
  exception monad as a sum type with its rewrite rules (collection \<open>err_simps\<close>), slices
  and in-place writes of byte buffers (collection \<open>buf_simps\<close>), and the generic list
  lemmas the components use.

  An exception is its Python class and the source's literal message; an f-string message
  is given by its template, because no caller inspects the interpolated part.
\<close>

named_theorems err_simps \<open>evaluation and inversion rules of the exception monad\<close>
named_theorems buf_simps \<open>reads and writes of byte buffers\<close>

type_synonym byte = "8 word"
type_synonym bytes = "byte list"

text \<open>A Python \<open>str\<close> whose characters matter is the list of its code points.\<close>

type_synonym ustr = "nat list"

datatype pyerr =
    ProtocolError string
  | RingError string
  | ValueError string
  | TypeError string
  | KeyError string
  | RuntimeError string
  | OverflowError string
  | MemoryError string
  | TimeoutError string
  | EOFError string
  | OSError string
  | IndexError
  | StructError
  | UnicodeEncodeError
  | UnicodeDecodeError
  | AttributeError
  | AssertionError
  | OperationFailure pyerr
  | OperationError ustr ustr
  | WorkerTransportError pyerr
  | OutsideModel

type_synonym 'a result = "pyerr + 'a"

section \<open>The exception monad\<close>

fun ebind :: "'e + 'a \<Rightarrow> ('a \<Rightarrow> 'e + 'b) \<Rightarrow> 'e + 'b" where
  "ebind (Inl e) f = Inl e"
| "ebind (Inr x) f = f x"

lemma ebind_cong [fundef_cong]:
  "m = m' \<Longrightarrow> (\<And>x. m' = Inr x \<Longrightarrow> f x = f' x) \<Longrightarrow> ebind m f = ebind m' f'"
  by (cases m') auto

lemma ebind_eq_Inr [err_simps]: "ebind m f = Inr y \<longleftrightarrow> (\<exists>x. m = Inr x \<and> f x = Inr y)"
  by (cases m) auto

lemma ebind_eq_Inl [err_simps]:
  "ebind m f = Inl e \<longleftrightarrow> m = Inl e \<or> (\<exists>x. m = Inr x \<and> f x = Inl e)"
  by (cases m) auto

lemma ebind_assoc: "ebind (ebind m f) g = ebind m (\<lambda>x. ebind (f x) g)"
  by (cases m) auto

text \<open>A check that raises: \<open>if c: raise e\<close>.\<close>

definition reject :: "bool \<Rightarrow> 'e \<Rightarrow> 'e + unit" where
  "reject c e = (if c then Inl e else Inr ())"

lemma reject_eq [err_simps]:
  "reject c e = Inr u \<longleftrightarrow> \<not> c"
  "reject c e = Inl e' \<longleftrightarrow> c \<and> e = e'"
  by (auto simp: reject_def)

lemma reject_simps [simp]: "reject True e = Inl e" "reject False e = Inr ()"
  by (simp_all add: reject_def)

text \<open>A dictionary or enum lookup that raises when the key is missing.\<close>

fun or_raise :: "'a option \<Rightarrow> 'e \<Rightarrow> 'e + 'a" where
  "or_raise None e = Inl e"
| "or_raise (Some x) e = Inr x"

lemma or_raise_eq [err_simps]:
  "or_raise m e = Inr x \<longleftrightarrow> m = Some x"
  "or_raise m e = Inl e' \<longleftrightarrow> m = None \<and> e = e'"
  by (cases m; auto)+

text \<open>A comprehension whose element expression may raise; it stops at the first exception.\<close>

fun emap :: "('a \<Rightarrow> 'e + 'b) \<Rightarrow> 'a list \<Rightarrow> 'e + 'b list" where
  "emap f [] = Inr []"
| "emap f (x # xs) = ebind (f x) (\<lambda>y. ebind (emap f xs) (\<lambda>ys. Inr (y # ys)))"

lemma emap_cong [fundef_cong]:
  "xs = ys \<Longrightarrow> (\<And>x. x \<in> set ys \<Longrightarrow> f x = g x) \<Longrightarrow> emap f xs = emap g ys"
  by (induction ys arbitrary: xs) auto

lemma emap_eq_Inr:
  "emap f xs = Inr ys \<longleftrightarrow> list_all2 (\<lambda>x y. f x = Inr y) xs ys"
  by (induction xs arbitrary: ys) (auto simp: list_all2_Cons1 err_simps)

lemma emap_length: "emap f xs = Inr ys \<Longrightarrow> length ys = length xs"
  by (auto simp: emap_eq_Inr dest: list_all2_lengthD)

lemma emap_Inr [simp]: "emap (\<lambda>x. Inr (f x)) xs = Inr (map f xs)"
  by (induction xs) auto

lemma emap_map: "emap f (map g xs) = emap (\<lambda>x. f (g x)) xs"
  by (induction xs) auto

lemma emap_total: "(\<And>x. x \<in> set xs \<Longrightarrow> \<exists>y. f x = Inr y) \<Longrightarrow> \<exists>ys. emap f xs = Inr ys"
  by (induction xs) (auto, fastforce)

text \<open>A loop of checks over a list; it stops at the first exception.\<close>

fun eall :: "('a \<Rightarrow> 'e + unit) \<Rightarrow> 'a list \<Rightarrow> 'e + unit" where
  "eall f [] = Inr ()"
| "eall f (x # xs) = ebind (f x) (\<lambda>_. eall f xs)"

lemma eall_cong [fundef_cong]:
  "xs = ys \<Longrightarrow> (\<And>x. x \<in> set ys \<Longrightarrow> f x = g x) \<Longrightarrow> eall f xs = eall g ys"
  by (induction ys arbitrary: xs) auto

lemma eall_eq_Inr [err_simps]: "eall f xs = Inr u \<longleftrightarrow> (\<forall>x \<in> set xs. f x = Inr ())"
  by (induction xs) (auto simp: err_simps)

text \<open>Success of an operation, as a predicate.\<close>

fun ok :: "'e + 'a \<Rightarrow> bool" where
  "ok (Inl e) \<longleftrightarrow> False"
| "ok (Inr x) \<longleftrightarrow> True"

lemma ok_def: "ok r \<longleftrightarrow> (\<exists>x. r = Inr x)"
  by (cases r) auto

lemma not_ok_iff: "\<not> ok r \<longleftrightarrow> (\<exists>e. r = Inl e)"
  by (cases r) auto

text \<open>The value part of a result, forgetting which exception was raised.\<close>

fun value_of :: "'e + 'a \<Rightarrow> 'a option" where
  "value_of (Inl e) = None"
| "value_of (Inr x) = Some x"

lemma value_of_eq_Some [err_simps]: "value_of r = Some x \<longleftrightarrow> r = Inr x"
  by (cases r) auto

lemma value_of_ebind [simp]:
  "value_of (ebind m f) = Option.bind (value_of m) (\<lambda>x. value_of (f x))"
  by (cases m) auto

section \<open>Byte buffers\<close>

text \<open>\<open>data[off : off + n]\<close> and \<open>data[off : off + len(bs)] = bs\<close> on a buffer that is
  long enough. Every use in the source is inside the buffer.\<close>

definition region :: "nat \<Rightarrow> nat \<Rightarrow> 'a list \<Rightarrow> 'a list" where
  "region off n xs = take n (drop off xs)"

definition overlay :: "nat \<Rightarrow> 'a list \<Rightarrow> 'a list \<Rightarrow> 'a list" where
  "overlay off bs xs = take off xs @ bs @ drop (off + length bs) xs"

lemma length_region [simp]: "length (region off n xs) = min n (length xs - off)"
  by (simp add: region_def min.commute)

lemma length_overlay [simp]:
  "off + length bs \<le> length xs \<Longrightarrow> length (overlay off bs xs) = length xs"
  by (simp add: overlay_def)

lemma region_append_left [buf_simps]: "off + n \<le> length xs \<Longrightarrow> region off n (xs @ ys) = region off n xs"
  by (simp add: region_def)

lemma region_append_right [buf_simps]:
  "length xs \<le> off \<Longrightarrow> region off n (xs @ ys) = region (off - length xs) n ys"
  by (simp add: region_def)

lemma region_0_length [buf_simps]: "region 0 (length xs) (xs @ ys) = xs" "region 0 (length xs) xs = xs"
  by (simp_all add: region_def)

lemma region_zero [simp]: "region off 0 xs = []"
  by (simp add: region_def)

lemma region_region [buf_simps]:
  "off' + m \<le> n \<Longrightarrow> region off' m (region off n xs) = region (off + off') m xs"
  by (simp add: region_def drop_take add.commute min_def)

lemma nth_region: "i < n \<Longrightarrow> off + i < length xs \<Longrightarrow> region off n xs ! i = xs ! (off + i)"
  by (simp add: region_def)

lemma region_split: "region off (m + n) xs = region off m xs @ region (off + m) n xs"
  by (simp add: region_def take_add add.commute)

lemma region_overlay_same [buf_simps]:
  "off + length bs \<le> length xs \<Longrightarrow> n = length bs \<Longrightarrow> region off n (overlay off bs xs) = bs"
  by (simp add: region_def overlay_def)

lemma region_overlay_before [buf_simps]:
  "off' + n \<le> off \<Longrightarrow> off + length bs \<le> length xs \<Longrightarrow>
   region off' n (overlay off bs xs) = region off' n xs"
  by (auto simp: region_def overlay_def drop_take min_def)

lemma region_overlay_after [buf_simps]:
  assumes "off + length bs \<le> off'" "off + length bs \<le> length xs"
  shows "region off' n (overlay off bs xs) = region off' n xs"
proof -
  have "drop off' (overlay off bs xs) = drop off' xs"
    using assms by (simp add: overlay_def)
  then show ?thesis by (simp add: region_def)
qed

lemma region_overlay_inside [buf_simps]:
  assumes "off \<le> off'" "off' + n \<le> off + length bs" "off + length bs \<le> length xs"
  shows "region off' n (overlay off bs xs) = region (off' - off) n bs"
proof -
  have "region off' n (overlay off bs xs)
      = region (off' - off) n (region off (length bs) (overlay off bs xs))"
    using assms by (simp add: region_region)
  then show ?thesis using assms by (simp add: region_overlay_same)
qed

lemma overlay_region_same:
  assumes "off + n \<le> length xs"
  shows "overlay off (region off n xs) xs = xs"
proof -
  have "length (region off n xs) = n"
    using assms by simp
  then have "overlay off (region off n xs) xs = take off xs @ region off n xs @ drop (off + n) xs"
    unfolding overlay_def by simp
  also have "region off n xs @ drop (off + n) xs = drop off xs"
    by (metis add.commute append_take_drop_id drop_drop region_def)
  finally show ?thesis by simp
qed

text \<open>Every byte of a region is zero: \<open>not any(data[a:b])\<close>.\<close>

definition all_zero :: "bytes \<Rightarrow> bool" where
  "all_zero bs \<longleftrightarrow> list_all (\<lambda>b. b = 0) bs"

lemma all_zero_replicate [simp]: "all_zero (replicate n 0)"
  by (simp add: all_zero_def list_all_iff)

lemma all_zero_append [simp]: "all_zero (xs @ ys) \<longleftrightarrow> all_zero xs \<and> all_zero ys"
  by (simp add: all_zero_def)

lemma all_zero_eq: "all_zero xs \<longleftrightarrow> xs = replicate (length xs) 0"
  by (induction xs) (auto simp: all_zero_def)

lemma all_zero_region_replicate [simp]: "all_zero (region a n (replicate m 0))"
  by (simp add: region_def)

section \<open>Lists\<close>

text \<open>\<open>len(xs) != len(set(xs))\<close> is the negation of \<open>distinct\<close>.\<close>

lemma distinct_iff_card: "length xs = card (set xs) \<longleftrightarrow> distinct xs"
  using card_distinct distinct_card by metis

text \<open>Python's \<open>xs[i]\<close> for a sequence: a negative index counts from the end.\<close>

definition py_index :: "'a list \<Rightarrow> int \<Rightarrow> 'a result" where
  "py_index xs i =
     (let j = (if i < 0 then int (length xs) + i else i)
      in if 0 \<le> j \<and> j < int (length xs) then Inr (xs ! nat j) else Inl IndexError)"

lemma py_index_nonneg:
  "0 \<le> i \<Longrightarrow> i < int (length xs) \<Longrightarrow> py_index xs i = Inr (xs ! nat i)"
  by (simp add: py_index_def)

end
