(* ===== verification/Struct_Format.thy ===== *)
theory Struct_Format
  imports Prelude
begin

text \<open>
  Python's \<open>struct\<close> module, as far as the source uses it: little-endian standard-size
  formats built from \<open>H\<close>, \<open>I\<close>, \<open>Q\<close> (unsigned 2, 4, 8 bytes), \<open>q\<close> (signed 8 bytes) and
  \<open>ns\<close> (a byte string). \<open>pack\<close> raises \<open>struct.error\<close> when a value does not fit or the
  number of values is wrong; \<open>unpack_from\<close> raises it when the buffer is too short. The
  two are inverse to each other: \<open>unpack_pack\<close> and \<open>pack_unpack\<close>.
\<close>

section \<open>Little-endian integers\<close>

fun le_encode :: "nat \<Rightarrow> int \<Rightarrow> bytes" where
  "le_encode 0 v = []"
| "le_encode (Suc n) v = of_int (v mod 256) # le_encode n (v div 256)"

fun le_decode :: "bytes \<Rightarrow> int" where
  "le_decode [] = 0"
| "le_decode (b # bs) = uint b + 256 * le_decode bs"

lemma length_le_encode [simp]: "length (le_encode n v) = n"
  by (induction n arbitrary: v) auto

lemma uint_byte_of_int: "uint (of_int (v mod 256) :: byte) = v mod 256"
  by (simp add: uint_word_of_int_eq take_bit_eq_mod)

lemma uint_byte_bound: "0 \<le> uint (b :: byte)" "uint b < 256"
  using uint_lt2p[of b] by auto

lemma le_decode_encode_mod: "le_decode (le_encode n v) = v mod 256 ^ n"
proof (induction n arbitrary: v)
  case 0
  then show ?case by simp
next
  case (Suc n)
  have "v mod 256 + 256 * (v div 256 mod 256 ^ n) = v mod (256 * 256 ^ n)"
    by (simp add: zmod_zmult2_eq)
  with Suc show ?case
    by (simp add: uint_byte_of_int)
qed

lemma le_decode_encode: "0 \<le> v \<Longrightarrow> v < 256 ^ n \<Longrightarrow> le_decode (le_encode n v) = v"
  by (simp add: le_decode_encode_mod)

lemma le_decode_bound: "0 \<le> le_decode bs" "le_decode bs < 256 ^ length bs"
proof (induction bs)
  case (Cons b bs)
  { case 1 show ?case using Cons(1) uint_byte_bound(1)[of b] by simp }
  { case 2
    have "uint b + 256 * le_decode bs < 256 + 256 * (256 ^ length bs - 1)"
      using Cons(2) uint_byte_bound(2)[of b] by auto
    then show ?case by simp }
qed auto

lemma le_encode_decode: "length bs = n \<Longrightarrow> le_encode n (le_decode bs) = bs"
proof (induction bs arbitrary: n)
  case (Cons b bs)
  have "(uint b + 256 * le_decode bs) mod 256 = uint b"
    and "(uint b + 256 * le_decode bs) div 256 = le_decode bs"
    using uint_byte_bound[of b] by auto
  with Cons show ?case by auto
qed auto

lemma le_encode_zero [simp]: "le_encode n 0 = replicate n 0"
  by (induction n) auto

lemma le_decode_replicate_zero [simp]: "le_decode (replicate n 0) = 0"
  by (induction n) auto

section \<open>Formats\<close>

datatype fmt = FH | FI | FQ | Fq | FS nat

datatype fval = VI (vint: int) | VB (vbytes: bytes)

fun fsize :: "fmt \<Rightarrow> nat" where
  "fsize FH = 2"
| "fsize FI = 4"
| "fsize FQ = 8"
| "fsize Fq = 8"
| "fsize (FS n) = n"

definition calcsize :: "fmt list \<Rightarrow> nat" where
  "calcsize fs = sum_list (map fsize fs)"

lemma calcsize_simps [simp]:
  "calcsize [] = 0" "calcsize (f # fs) = fsize f + calcsize fs"
  "calcsize (replicate n f) = n * fsize f"
  by (simp_all add: calcsize_def sum_list_replicate)

definition fits :: "nat \<Rightarrow> int \<Rightarrow> bool" where
  "fits n v \<longleftrightarrow> 0 \<le> v \<and> v < 256 ^ n"

definition sfits :: "nat \<Rightarrow> int \<Rightarrow> bool" where
  "sfits n v \<longleftrightarrow> - (256 ^ n div 2) \<le> v \<and> v < 256 ^ n div 2"

text \<open>Two's complement: reading eight bytes as a signed value.\<close>

definition signed64 :: "int \<Rightarrow> int" where
  "signed64 u = (if u < 256 ^ 8 div 2 then u else u - 256 ^ 8)"

fun pack1 :: "fmt \<Rightarrow> fval \<Rightarrow> bytes result" where
  "pack1 Fq (VI v) = (if sfits 8 v then Inr (le_encode 8 v) else Inl StructError)"
| "pack1 (FS n) (VB bs) = Inr (take n bs @ replicate (n - length bs) 0)"
| "pack1 (FS n) (VI v) = Inl StructError"
| "pack1 f (VI v) = (if fits (fsize f) v then Inr (le_encode (fsize f) v) else Inl StructError)"
| "pack1 f (VB bs) = Inl StructError"

fun unpack1 :: "fmt \<Rightarrow> bytes \<Rightarrow> fval" where
  "unpack1 Fq bs = VI (signed64 (le_decode bs))"
| "unpack1 (FS n) bs = VB bs"
| "unpack1 f bs = VI (le_decode bs)"

fun pack :: "fmt list \<Rightarrow> fval list \<Rightarrow> bytes result" where
  "pack [] [] = Inr []"
| "pack (f # fs) (v # vs) = ebind (pack1 f v) (\<lambda>a. ebind (pack fs vs) (\<lambda>b. Inr (a @ b)))"
| "pack _ _ = Inl StructError"

fun unpack :: "fmt list \<Rightarrow> bytes \<Rightarrow> fval list" where
  "unpack [] bs = []"
| "unpack (f # fs) bs = unpack1 f (take (fsize f) bs) # unpack fs (drop (fsize f) bs)"

definition unpack_from :: "fmt list \<Rightarrow> bytes \<Rightarrow> nat \<Rightarrow> fval list result" where
  "unpack_from fs data off =
     (if off + calcsize fs \<le> length data then Inr (unpack fs (drop off data)) else Inl StructError)"

text \<open>A value a format represents exactly: integers in range, byte strings of full length.\<close>

fun exact1 :: "fmt \<Rightarrow> fval \<Rightarrow> bool" where
  "exact1 Fq (VI v) = sfits 8 v"
| "exact1 (FS n) (VB bs) = (length bs = n)"
| "exact1 (FS n) (VI v) = False"
| "exact1 f (VI v) = fits (fsize f) v"
| "exact1 f (VB bs) = False"

definition exact :: "fmt list \<Rightarrow> fval list \<Rightarrow> bool" where
  "exact fs vs \<longleftrightarrow> list_all2 exact1 fs vs"

lemma exact_simps [simp]:
  "exact [] []" "exact (f # fs) (v # vs) \<longleftrightarrow> exact1 f v \<and> exact fs vs"
  "\<not> exact [] (v # vs)" "\<not> exact (f # fs) []"
  by (simp_all add: exact_def)

lemma le_encode_add_period: "le_encode n (v + 256 ^ n * k) = le_encode n v"
proof (induction n arbitrary: v k)
  case (Suc n)
  have "(v + 256 * 256 ^ n * k) div 256 = v div 256 + 256 ^ n * k"
    by (simp add: mult.assoc)
  moreover have "(v + 256 * 256 ^ n * k) mod 256 = v mod 256"
    by (simp add: mult.assoc)
  ultimately show ?case using Suc by simp
qed auto

lemma signed64_decode: "sfits 8 v \<Longrightarrow> signed64 (le_decode (le_encode 8 v)) = v"
proof (cases "0 \<le> v")
  case False
  assume v: "sfits 8 v"
  have "v mod 256 ^ 8 = (v + 256 ^ 8) mod 256 ^ 8"
    by simp
  also have "\<dots> = v + 256 ^ 8"
    using v False by (intro mod_pos_pos_trivial) (auto simp: sfits_def)
  finally show ?thesis
    using v False by (simp add: le_decode_encode_mod signed64_def sfits_def)
qed (auto simp: le_decode_encode_mod signed64_def sfits_def)

lemma signed64_encode: "length bs = 8 \<Longrightarrow> le_encode 8 (signed64 (le_decode bs)) = bs"
  using le_encode_add_period[of 8 "le_decode bs" "-1"] le_encode_decode[of bs 8]
  by (auto simp: signed64_def)

lemma sfits_signed64: "length bs = 8 \<Longrightarrow> sfits 8 (signed64 (le_decode bs))"
  using le_decode_bound[of bs] by (auto simp: signed64_def sfits_def)

lemma fits_le_decode: "length bs = n \<Longrightarrow> fits n (le_decode bs)"
  using le_decode_bound[of bs] by (auto simp: fits_def)

lemma pack1_exact:
  "exact1 f v \<Longrightarrow> \<exists>bs. pack1 f v = Inr bs \<and> length bs = fsize f \<and> unpack1 f bs = v"
  by (cases f; cases v) (auto simp: signed64_decode fits_def le_decode_encode)

lemma pack_exact:
  "exact fs vs \<Longrightarrow> \<exists>bs. pack fs vs = Inr bs \<and> length bs = calcsize fs
     \<and> (\<forall>rest. unpack fs (bs @ rest) = vs)"
proof (induction fs arbitrary: vs)
  case (Cons f fs)
  then obtain v vs' where vs: "vs = v # vs'" and "exact1 f v" "exact fs vs'"
    by (cases vs) auto
  with Cons.IH pack1_exact[of f v] show ?case by fastforce
qed (case_tac vs; auto)

lemma pack_length: "pack fs vs = Inr bs \<Longrightarrow> length bs = calcsize fs"
proof (induction fs vs arbitrary: bs rule: pack.induct)
  case (2 f fs v vs)
  have "pack1 f v = Inr a \<Longrightarrow> length a = fsize f" for a
    by (cases f; cases v) (auto split: if_splits)
  with 2 show ?case by (auto simp: err_simps)
qed auto

lemma unpack_pack: "exact fs vs \<Longrightarrow> pack fs vs = Inr bs \<Longrightarrow> unpack fs (bs @ rest) = vs"
  using pack_exact by fastforce

lemma pack1_unpack1: "length bs = fsize f \<Longrightarrow> pack1 f (unpack1 f bs) = Inr bs"
  using le_encode_decode[of bs "fsize f"] fits_le_decode[of bs "fsize f"]
  by (cases f) (auto simp: signed64_encode sfits_signed64)

lemma pack_unpack: "calcsize fs \<le> length bs \<Longrightarrow> pack fs (unpack fs bs) = Inr (take (calcsize fs) bs)"
proof (induction fs arbitrary: bs)
  case (Cons f fs)
  then have "pack fs (unpack fs (drop (fsize f) bs)) = Inr (take (calcsize fs) (drop (fsize f) bs))"
    and "pack1 f (unpack1 f (take (fsize f) bs)) = Inr (take (fsize f) bs)"
    by (auto intro: pack1_unpack1)
  then show ?case by (simp add: take_add)
qed auto

lemma exact_unpack: "calcsize fs \<le> length bs \<Longrightarrow> exact fs (unpack fs bs)"
proof (induction fs arbitrary: bs)
  case (Cons f fs)
  have "exact1 f (unpack1 f xs)" if "length xs = fsize f" for xs
    using that fits_le_decode[of xs "fsize f"] by (cases f) (auto simp: sfits_signed64)
  with Cons show ?case by simp
qed auto

text \<open>A successful \<open>pack\<close> of integers lost nothing; byte strings must have the full length.\<close>

fun full1 :: "fmt \<Rightarrow> fval \<Rightarrow> bool" where
  "full1 (FS n) (VB bs) = (length bs = n)"
| "full1 f v = True"

lemma pack_imp_exact: "pack fs vs = Inr bs \<Longrightarrow> list_all2 full1 fs vs \<Longrightarrow> exact fs vs"
proof (induction fs vs arbitrary: bs rule: pack.induct)
  case (2 f fs v vs)
  have "pack1 f v = Inr a \<Longrightarrow> full1 f v \<Longrightarrow> exact1 f v" for a
    by (cases f; cases v) (auto split: if_splits)
  with 2 show ?case by (auto simp: err_simps)
qed auto

lemma unpack_from_0_pack:
  "exact fs vs \<Longrightarrow> pack fs vs = Inr bs \<Longrightarrow> unpack_from fs (bs @ rest) 0 = Inr vs"
  using unpack_pack pack_length by (fastforce simp: unpack_from_def)

lemma unpack_from_region:
  assumes "off + calcsize fs \<le> length data"
  shows "unpack_from fs data off = Inr (unpack fs (region off (calcsize fs) data))"
proof -
  have "unpack fs xs = unpack fs (take (calcsize fs) xs)" for xs
  proof (induction fs arbitrary: xs)
    case (Cons f fs)
    have "unpack fs (drop (fsize f) xs) = unpack fs (take (calcsize fs) (drop (fsize f) xs))"
      by (rule Cons.IH)
    then show ?case by (simp add: take_drop add.commute min_def)
  qed auto
  with assms show ?thesis by (simp add: unpack_from_def region_def)
qed

lemma unpack_from_at:
  assumes "exact fs vs" "pack fs vs = Inr bs" "region off (calcsize fs) data = bs"
    "off + calcsize fs \<le> length data"
  shows "unpack_from fs data off = Inr vs"
  using assms unpack_pack[of fs vs bs "[]"] by (simp add: unpack_from_region)

lemma unpack_from_eq_Inr:
  "unpack_from fs data off = Inr vs \<longleftrightarrow>
     off + calcsize fs \<le> length data \<and> vs = unpack fs (drop off data)"
  by (auto simp: unpack_from_def)

section \<open>The contract of a wire codec\<close>

text \<open>
  Every message of the two protocols has an encoder and a decoder. \<open>wire_codec\<close> says what
  a receiver relies on: what was encoded decodes to the same message. \<open>strict_codec\<close> adds
  what the strict decoders promise: a packet they accept is the encoding of the message
  they return, so no two packets decode to one message.
\<close>

locale wire_codec =
  fixes enc :: "'m \<Rightarrow> 'e + 'w"
    and dec :: "'w \<Rightarrow> 'e + 'm"
  assumes dec_enc: "enc m = Inr w \<Longrightarrow> dec w = Inr m"
begin

lemma enc_inj: "enc m = Inr w \<Longrightarrow> enc m' = Inr w \<Longrightarrow> m = m'"
  using dec_enc[of m w] dec_enc[of m' w] by simp

lemma rejected_never_sent: "dec w = Inl e \<Longrightarrow> enc m \<noteq> Inr w"
  using dec_enc[of m w] by auto

end

locale strict_codec = wire_codec enc dec
  for enc :: "'m \<Rightarrow> 'e + 'w"
    and dec :: "'w \<Rightarrow> 'e + 'm" +
  assumes enc_dec: "dec w = Inr m \<Longrightarrow> enc m = Inr w"
begin

lemma dec_inj: "dec w = Inr m \<Longrightarrow> dec w' = Inr m \<Longrightarrow> w = w'"
  using enc_dec[of w m] enc_dec[of w' m] by simp

lemma dec_iff_enc: "dec w = Inr m \<longleftrightarrow> enc m = Inr w"
  using dec_enc enc_dec by blast

lemma accepted_iff_sendable: "ok (dec w) \<longleftrightarrow> (\<exists>m. enc m = Inr w)"
  by (auto simp: ok_def dec_iff_enc)

end

section \<open>Arrays of fixed-size slots\<close>

text \<open>
  A message with a counted array stores its elements in consecutive slots of \<open>w\<close> bytes.
  \<open>slot_codec\<close> is the contract of one slot; the lemmas lift it to the loop over all slots,
  \<open>for i in range(n): dec1(data, off + i * w)\<close>.
\<close>

locale slot_codec =
  fixes enc1 :: "'a \<Rightarrow> 'e + 'b list"
    and dec1 :: "'b list \<Rightarrow> nat \<Rightarrow> 'e + 'a"
    and w :: nat
  assumes enc1_length: "enc1 x = Inr bs \<Longrightarrow> length bs = w"
    and dec1_enc1: "enc1 x = Inr bs \<Longrightarrow> region off w data = bs \<Longrightarrow> off + w \<le> length data
      \<Longrightarrow> dec1 data off = Inr x"
begin

lemma slots_length: "emap enc1 xs = Inr bss \<Longrightarrow> length (concat bss) = length xs * w"
proof (induction xs arbitrary: bss)
  case (Cons x xs)
  then obtain a b where "enc1 x = Inr a" "emap enc1 xs = Inr b" "bss = a # b"
    by (auto simp: err_simps)
  with Cons.IH[of b] show ?case by (simp add: enc1_length)
qed auto

lemma slots_decode:
  "emap enc1 xs = Inr bss \<Longrightarrow> region off (length xs * w) data = concat bss \<Longrightarrow>
   off + length xs * w \<le> length data \<Longrightarrow>
   emap (\<lambda>i. dec1 data (off + i * w)) [0..<length xs] = Inr xs"
proof (induction xs arbitrary: bss off)
  case (Cons x xs)
  then obtain a b where ab: "enc1 x = Inr a" "emap enc1 xs = Inr b" "bss = a # b"
    by (auto simp: err_simps)
  have la: "length a = w"
    by (rule enc1_length[OF ab(1)])
  have "region off w data @ region (off + w) (length xs * w) data = a @ concat b"
    using Cons.prems(2) ab(3) region_split[of off w "length xs * w" data] by simp
  moreover have "length (region off w data) = length a"
    using Cons.prems(3) la by simp
  ultimately have r: "region off w data = a" "region (off + w) (length xs * w) data = concat b"
    by auto
  have rest: "emap (\<lambda>i. dec1 data (off + w + i * w)) [0..<length xs] = Inr xs"
    using Cons.IH[OF ab(2) r(2)] Cons.prems(3) by (simp add: add.commute add.left_commute)
  have "emap (\<lambda>i. dec1 data (off + i * w)) (map Suc [0..<length xs])
      = emap (\<lambda>i. dec1 data (off + w + i * w)) [0..<length xs]"
    by (simp add: emap_map add.assoc)
  moreover have "dec1 data off = Inr x"
    using ab(1) r(1) Cons.prems(3) by (intro dec1_enc1) auto
  moreover have "[0..<length (x # xs)] = 0 # map Suc [0..<length xs]"
    by (simp only: list.size(4) map_Suc_upt upt_conv_Cons zero_less_Suc add_Suc_right add_0_right)
  ultimately show ?case
    using rest by simp
qed auto

end

locale strict_slot_codec = slot_codec enc1 dec1 w
  for enc1 :: "'a \<Rightarrow> 'e + 'b list"
    and dec1 :: "'b list \<Rightarrow> nat \<Rightarrow> 'e + 'a"
    and w :: nat +
  assumes enc1_dec1: "dec1 data off = Inr x \<Longrightarrow> off + w \<le> length data
      \<Longrightarrow> enc1 x = Inr (region off w data)"
begin

lemma slots_encode:
  "emap (\<lambda>i. dec1 data (off + i * w)) [0..<n] = Inr xs \<Longrightarrow> off + n * w \<le> length data \<Longrightarrow>
   \<exists>bss. emap enc1 xs = Inr bss \<and> concat bss = region off (n * w) data"
proof (induction n arbitrary: off xs)
  case (Suc n)
  have e: "[0..<Suc n] = 0 # map Suc [0..<n]"
    by (simp only: map_Suc_upt upt_conv_Cons zero_less_Suc)
  obtain x xs' where x: "dec1 data off = Inr x" "xs = x # xs'"
    "emap (\<lambda>i. dec1 data (off + w + i * w)) [0..<n] = Inr xs'"
    using Suc.prems(1) unfolding e by (auto simp: err_simps emap_map add.assoc)
  then obtain bss where "emap enc1 xs' = Inr bss" "concat bss = region (off + w) (n * w) data"
    using Suc.IH[of "off + w" xs'] Suc.prems(2) by auto
  moreover have "enc1 x = Inr (region off w data)"
    using x(1) Suc.prems(2) by (intro enc1_dec1) auto
  ultimately show ?case
    using x(2) region_split[of off w "n * w" data] by auto
qed auto

end

end
