(* ===== verification/Utf8.thy ===== *)
theory Utf8
  imports Struct_Format
begin

text \<open>
  Python's strict UTF-8 codec on strings of code points: \<open>str.encode()\<close>,
  \<open>bytes.decode()\<close> and \<open>bytes.decode('utf-8', 'ignore')\<close>. Strict decoding refuses
  overlong forms, surrogates and values above U+10FFFF, so encoding and decoding are
  mutually inverse (the interpretation \<open>utf8\<close> of \<open>strict_codec\<close>).
\<close>

definition byte_of :: "nat \<Rightarrow> byte" where
  "byte_of n = of_nat n"

definition utf8_char :: "nat \<Rightarrow> bytes result" where
  "utf8_char c =
     (if c < 0x80 then Inr [byte_of c]
      else if c < 0x800 then Inr [byte_of (0xC0 + c div 64), byte_of (0x80 + c mod 64)]
      else if 0xD800 \<le> c \<and> c < 0xE000 then Inl UnicodeEncodeError
      else if c < 0x10000 then
        Inr [byte_of (0xE0 + c div 4096), byte_of (0x80 + c div 64 mod 64), byte_of (0x80 + c mod 64)]
      else if c < 0x110000 then
        Inr [byte_of (0xF0 + c div 262144), byte_of (0x80 + c div 4096 mod 64),
             byte_of (0x80 + c div 64 mod 64), byte_of (0x80 + c mod 64)]
      else Inl OutsideModel)"

fun utf8_encode :: "ustr \<Rightarrow> bytes result" where
  "utf8_encode [] = Inr []"
| "utf8_encode (c # s) = ebind (utf8_char c) (\<lambda>a. ebind (utf8_encode s) (\<lambda>b. Inr (a @ b)))"

definition cont :: "byte \<Rightarrow> bool" where
  "cont b \<longleftrightarrow> 0x80 \<le> unat b \<and> unat b < 0xC0"

text \<open>The first character of a byte string and the bytes after it; \<open>None\<close> when the
  bytes do not start with a well-formed sequence.\<close>

fun utf8_next :: "bytes \<Rightarrow> (nat \<times> bytes) option" where
  "utf8_next [] = None"
| "utf8_next (b # bs) =
     (let n = unat b in
      if n < 0x80 then Some (n, bs)
      else if 0xC2 \<le> n \<and> n < 0xE0 then
        (case bs of
           c1 # r \<Rightarrow>
             if cont c1 then Some ((n - 0xC0) * 64 + (unat c1 - 0x80), r) else None
         | _ \<Rightarrow> None)
      else if 0xE0 \<le> n \<and> n < 0xF0 then
        (case bs of
           c1 # c2 # r \<Rightarrow>
             (let v = (n - 0xE0) * 4096 + (unat c1 - 0x80) * 64 + (unat c2 - 0x80) in
              if cont c1 \<and> cont c2 \<and> 0x800 \<le> v \<and> \<not> (0xD800 \<le> v \<and> v < 0xE000)
              then Some (v, r) else None)
         | _ \<Rightarrow> None)
      else if 0xF0 \<le> n \<and> n < 0xF5 then
        (case bs of
           c1 # c2 # c3 # r \<Rightarrow>
             (let v = (n - 0xF0) * 262144 + (unat c1 - 0x80) * 4096
                      + (unat c2 - 0x80) * 64 + (unat c3 - 0x80) in
              if cont c1 \<and> cont c2 \<and> cont c3 \<and> 0x10000 \<le> v \<and> v < 0x110000
              then Some (v, r) else None)
         | _ \<Rightarrow> None)
      else None)"

declare utf8_next.simps(2) [simp del]

lemma utf8_next_shorter: "utf8_next bs = Some (c, r) \<Longrightarrow> length r < length bs"
  by (cases bs) (auto simp: utf8_next.simps(2) Let_def split: if_splits list.splits)

function utf8_decode :: "bytes \<Rightarrow> ustr result" where
  "utf8_decode bs =
     (if bs = [] then Inr []
      else case utf8_next bs of
             None \<Rightarrow> Inl UnicodeDecodeError
           | Some (c, r) \<Rightarrow> ebind (utf8_decode r) (\<lambda>s. Inr (c # s)))"
  by pat_completeness auto
termination
  by (relation "measure length") (auto dest: utf8_next_shorter)

text \<open>\<open>decode('utf-8', 'ignore')\<close>: a byte that starts no character is dropped. (Dropping
  one byte at a time gives the same text as dropping a whole ill-formed prefix, because
  a continuation byte starts no character either.)\<close>

function utf8_decode_ignore :: "bytes \<Rightarrow> ustr" where
  "utf8_decode_ignore bs =
     (if bs = [] then []
      else case utf8_next bs of
             None \<Rightarrow> utf8_decode_ignore (tl bs)
           | Some (c, r) \<Rightarrow> c # utf8_decode_ignore r)"
  by pat_completeness auto
termination
  by (relation "measure length") (auto dest: utf8_next_shorter)

declare utf8_decode.simps [simp del] utf8_decode_ignore.simps [simp del]

lemma utf8_decode_Nil [simp]: "utf8_decode [] = Inr []"
  by (subst utf8_decode.simps) simp

lemma utf8_decode_ignore_Nil [simp]: "utf8_decode_ignore [] = []"
  by (subst utf8_decode_ignore.simps) simp

section \<open>One character\<close>

lemma digits3:
  fixes x y z :: nat
  assumes "y < 64" "z < 64"
  shows "(x * 4096 + y * 64 + z) div 4096 = x" "(x * 4096 + y * 64 + z) div 64 mod 64 = y"
    "(x * 4096 + y * 64 + z) mod 64 = z"
proof -
  have e: "x * 4096 + y * 64 + z = (x * 64 + y) * 64 + z" by simp
  have d: "(x * 4096 + y * 64 + z) div 64 = x * 64 + y" "(x * 4096 + y * 64 + z) mod 64 = z"
    unfolding e using assms by (simp, simp only: mod_mult_self3 mod_less)
  have "(x * 4096 + y * 64 + z) div 4096 = (x * 4096 + y * 64 + z) div 64 div 64"
    by (simp add: div_mult2_eq [symmetric])
  with d assms show "(x * 4096 + y * 64 + z) div 4096 = x"
    "(x * 4096 + y * 64 + z) div 64 mod 64 = y"
    by simp_all
  show "(x * 4096 + y * 64 + z) mod 64 = z"
    by (fact d(2))
qed

lemma undigits3: "(c :: nat) div 4096 * 4096 + c div 64 mod 64 * 64 + c mod 64 = c"
proof -
  have "c div 4096 = c div 64 div 64"
    by (simp add: div_mult2_eq [symmetric])
  with div_mult_mod_eq[of c 64] div_mult_mod_eq[of "c div 64" 64] show ?thesis
    by linarith
qed

lemma undigits4:
  "(c :: nat) div 262144 * 262144 + c div 4096 mod 64 * 4096 + c div 64 mod 64 * 64 + c mod 64 = c"
proof -
  have "c div 262144 = c div 4096 div 64"
    by (simp add: div_mult2_eq [symmetric])
  with undigits3[of c] div_mult_mod_eq[of "c div 4096" 64] show ?thesis
    by linarith
qed

lemma unat_byte: "n < 256 \<Longrightarrow> unat (byte_of n) = n"
  by (simp add: byte_of_def unat_of_nat)

lemma byte_of_eq: "unat b = n \<Longrightarrow> byte_of n = b"
  by (auto simp: byte_of_def)

lemma utf8_char_next:
  assumes "utf8_char c = Inr a"
  shows "utf8_next (a @ r) = Some (c, r)"
proof -
  consider "c < 0x80" | "0x80 \<le> c" "c < 0x800"
    | "0x800 \<le> c" "c < 0x10000" "\<not> (0xD800 \<le> c \<and> c < 0xE000)"
    | "0x10000 \<le> c" "c < 0x110000"
    using assms by (auto simp: utf8_char_def split: if_splits)
  then show ?thesis
  proof cases
    case 1
    with assms show ?thesis by (auto simp: utf8_char_def utf8_next.simps(2) unat_byte)
  next
    case 2
    then have "c div 64 < 32" "2 \<le> c div 64" by auto
    with 2 assms show ?thesis
      by (auto simp: utf8_char_def utf8_next.simps(2) unat_byte cont_def)
  next
    case 3
    then have "c div 4096 < 16" by auto
    with 3 assms show ?thesis
      by (auto simp: utf8_char_def utf8_next.simps(2) unat_byte cont_def Let_def undigits3
          simp flip: add.assoc)
  next
    case 4
    then have "c div 262144 < 5" by auto
    with 4 assms show ?thesis
      by (auto simp: utf8_char_def utf8_next.simps(2) unat_byte cont_def Let_def undigits4
          simp flip: add.assoc)
  qed
qed

lemma utf8_next_char:
  assumes "utf8_next bs = Some (c, r)"
  shows "\<exists>a. utf8_char c = Inr a \<and> bs = a @ r"
proof -
  obtain b bs' where bs: "bs = b # bs'"
    using assms by (cases bs) auto
  consider
    (1) "unat b < 0x80" "c = unat b" "r = bs'"
  | (2) c1 where "bs' = c1 # r" "0xC2 \<le> unat b" "unat b < 0xE0" "cont c1"
      "c = (unat b - 0xC0) * 64 + (unat c1 - 0x80)"
  | (3) c1 c2 where "bs' = c1 # c2 # r" "0xE0 \<le> unat b" "unat b < 0xF0" "cont c1" "cont c2"
      "c = (unat b - 0xE0) * 4096 + (unat c1 - 0x80) * 64 + (unat c2 - 0x80)"
      "0x800 \<le> c" "\<not> (0xD800 \<le> c \<and> c < 0xE000)"
  | (4) c1 c2 c3 where "bs' = c1 # c2 # c3 # r" "0xF0 \<le> unat b" "unat b < 0xF5"
      "cont c1" "cont c2" "cont c3"
      "c = (unat b - 0xF0) * 262144 + (unat c1 - 0x80) * 4096 + (unat c2 - 0x80) * 64
           + (unat c3 - 0x80)" "0x10000 \<le> c" "c < 0x110000"
    using assms unfolding bs utf8_next.simps(2) Let_def
    by (auto split: if_splits list.splits)
  then show ?thesis
  proof cases
    case 1
    then show ?thesis by (auto simp: utf8_char_def bs byte_of_eq)
  next
    case 2
    define x y where "x = unat b - 0xC0" and "y = unat c1 - 0x80"
    have xy: "unat b = x + 0xC0" "unat c1 = y + 0x80" "y < 64" "2 \<le> x" "x < 32" "c = x * 64 + y"
      using 2 by (auto simp: x_def y_def cont_def)
    have "byte_of (0xC0 + x) = b" "byte_of (0x80 + y) = c1"
      using xy byte_of_eq[of b "0xC0 + x"] byte_of_eq[of c1 "0x80 + y"] by simp_all
    with xy show ?thesis by (auto simp: utf8_char_def bs 2(1))
  next
    case 3
    define x y z where "x = unat b - 0xE0" and "y = unat c1 - 0x80" and "z = unat c2 - 0x80"
    have xy: "unat b = x + 0xE0" "unat c1 = y + 0x80" "unat c2 = z + 0x80"
      "y < 64" "z < 64" "x < 16" "c = x * 4096 + y * 64 + z"
      using 3 by (simp_all add: x_def y_def z_def cont_def) linarith+
    have d: "c div 4096 = x" "c div 64 mod 64 = y" "c mod 64 = z" "c < 0x10000"
      using xy digits3[of y z x] by auto
    have "byte_of (0xE0 + x) = b" "byte_of (0x80 + y) = c1" "byte_of (0x80 + z) = c2"
      using xy byte_of_eq[of b "0xE0 + x"] byte_of_eq[of c1 "0x80 + y"]
        byte_of_eq[of c2 "0x80 + z"] by simp_all
    with d 3(7,8) show ?thesis by (auto simp: utf8_char_def bs 3(1))
  next
    case 4
    define w x y z where "w = unat b - 0xF0" and "x = unat c1 - 0x80" and "y = unat c2 - 0x80"
      and "z = unat c3 - 0x80"
    have xy: "unat b = w + 0xF0" "unat c1 = x + 0x80" "unat c2 = y + 0x80" "unat c3 = z + 0x80"
      "x < 64" "y < 64" "z < 64" "c = w * 262144 + x * 4096 + y * 64 + z"
      using 4 by (simp_all add: w_def x_def y_def z_def cont_def) linarith+
    have e: "c = (w * 64 + x) * 4096 + y * 64 + z"
      using xy by simp
    have "c div 4096 = w * 64 + x"
      unfolding e by (rule digits3(1)[OF xy(6,7)])
    then have d: "c div 262144 = w" "c div 4096 mod 64 = x" "c div 64 mod 64 = y" "c mod 64 = z"
      using xy digits3[OF xy(6,7), of "w * 64 + x"] div_mult2_eq[of c 4096 64]
      by (simp_all add: e)
    have "byte_of (0xF0 + w) = b" "byte_of (0x80 + x) = c1" "byte_of (0x80 + y) = c2"
      "byte_of (0x80 + z) = c3"
      using xy byte_of_eq[of b "0xF0 + w"] byte_of_eq[of c1 "0x80 + x"]
        byte_of_eq[of c2 "0x80 + y"] byte_of_eq[of c3 "0x80 + z"] by simp_all
    with d 4(8,9) show ?thesis by (auto simp: utf8_char_def bs 4(1))
  qed
qed

section \<open>Whole strings\<close>

lemma utf8_decode_char:
  "utf8_char c = Inr a \<Longrightarrow> utf8_decode (a @ r) = ebind (utf8_decode r) (\<lambda>s. Inr (c # s))"
  using utf8_char_next[of c a r] by (subst utf8_decode.simps) auto

lemma utf8_decode_encode: "utf8_encode s = Inr bs \<Longrightarrow> utf8_decode bs = Inr s"
  by (induction s arbitrary: bs) (auto simp: err_simps utf8_decode_char)

lemma utf8_encode_decode: "utf8_decode bs = Inr s \<Longrightarrow> utf8_encode s = Inr bs"
proof (induction bs arbitrary: s rule: utf8_decode.induct)
  case (1 bs)
  show ?case
  proof (cases "bs = []")
    case False
    with 1(2) obtain c r s' where c: "utf8_next bs = Some (c, r)" "utf8_decode r = Inr s'" "s = c # s'"
      by (subst (asm) utf8_decode.simps) (auto simp: err_simps split: option.splits)
    obtain a where "utf8_char c = Inr a" "bs = a @ r"
      using utf8_next_char[OF c(1)] by blast
    with 1(1)[OF False c(1) refl c(2)] c(3) show ?thesis by simp
  qed (use 1(2) in auto)
qed

interpretation utf8: strict_codec utf8_encode utf8_decode
  by unfold_locales (erule utf8_decode_encode, erule utf8_encode_decode)

lemma utf8_encode_append:
  "utf8_encode (s @ t) = ebind (utf8_encode s) (\<lambda>a. ebind (utf8_encode t) (\<lambda>b. Inr (a @ b)))"
proof (induction s)
  case Nil
  then show ?case by (cases "utf8_encode t") simp_all
next
  case (Cons c s)
  then show ?case by (simp add: ebind_assoc)
qed

lemma utf8_decode_ignore_encode: "utf8_encode s = Inr bs \<Longrightarrow> utf8_decode_ignore bs = s"
proof (induction s arbitrary: bs)
  case (Cons c s)
  then obtain a b where ab: "utf8_char c = Inr a" "utf8_encode s = Inr b" "bs = a @ b"
    by (auto simp: err_simps)
  then show ?case
    using Cons.IH[OF ab(2)] utf8_char_next[OF ab(1), of b]
    by (subst utf8_decode_ignore.simps) auto
qed auto

end
