(* ===== verification/Ring_Record.thy ===== *)
theory Ring_Record
  imports Struct_Format Utf8
begin

unbundle bit_operations_syntax

text \<open>
  The fixed 16 KiB record of the shared ring, \<open>encode\<close> and \<open>decode\<close> of
  \<open>packages/wmfs/wmfs/transport/ring.py\<close>: a header, sixteen tensor slots, sixteen scalar
  slots, sixteen planned-output slots, a profile and an error area, all written in place
  into a zeroed buffer. A \<open>float\<close> is its IEEE 754 bit pattern, which is all the codec
  reads of it.
\<close>

section \<open>Constants\<close>

definition RECORD_SIZE :: nat where "RECORD_SIZE = 16384"
definition TENSOR_INPUT :: int where "TENSOR_INPUT = 1"
definition TENSOR_OUTPUT :: int where "TENSOR_OUTPUT = 2"
definition TENSOR_WRITABLE :: int where "TENSOR_WRITABLE = 1"
definition TENSORS_off :: nat where "TENSORS_off = 128"
definition SCALARS_off :: nat where "SCALARS_off = 5120"
definition OUTPUTS_off :: nat where "OUTPUTS_off = 9600"
definition PROFILE_off :: nat where "PROFILE_off = 11904"
definition ERROR_off :: nat where "ERROR_off = 11968"
definition TAIL_off :: nat where "TAIL_off = 13072"
definition TENSOR_SIZE :: nat where "TENSOR_SIZE = 312"
definition SCALAR_SIZE :: nat where "SCALAR_SIZE = 280"
definition OUTPUT_SIZE :: nat where "OUTPUT_SIZE = 144"

lemmas ring_consts = RECORD_SIZE_def TENSOR_INPUT_def TENSOR_OUTPUT_def TENSOR_WRITABLE_def
  TENSORS_off_def SCALARS_off_def OUTPUTS_off_def PROFILE_off_def ERROR_off_def TAIL_off_def
  TENSOR_SIZE_def SCALAR_SIZE_def OUTPUT_SIZE_def

definition RECORD_HEADER_fmt :: "fmt list" where
  "RECORD_HEADER_fmt = [FI, FI, FQ, FQ, FQ, FI, FI, FH, FH, FH, FH, FI]"
definition TENSOR_HEAD_fmt :: "fmt list" where
  "TENSOR_HEAD_fmt = [FQ, FQ, FQ, FQ, FQ, FI, FH, FH, FI, FH, FH]"
definition SCALAR_HEAD_fmt :: "fmt list" where "SCALAR_HEAD_fmt = [FH, FH, FI, FQ, FI, FI]"
definition OUTPUT_HEAD_fmt :: "fmt list" where "OUTPUT_HEAD_fmt = [FI, FI, FH, FH, FI]"
definition PROFILE_fmt :: "fmt list" where "PROFILE_fmt = replicate 8 FQ"
definition ERROR_HEAD_fmt :: "fmt list" where "ERROR_HEAD_fmt = [FI, FI, FI, FI]"
definition DIMS_fmt :: "fmt list" where "DIMS_fmt = replicate 16 Fq"

lemma ring_calcsize [simp]:
  "calcsize RECORD_HEADER_fmt = 52" "calcsize TENSOR_HEAD_fmt = 56" "calcsize SCALAR_HEAD_fmt = 24"
  "calcsize OUTPUT_HEAD_fmt = 16" "calcsize PROFILE_fmt = 64" "calcsize ERROR_HEAD_fmt = 16"
  "calcsize DIMS_fmt = 128"
  by (simp_all add: RECORD_HEADER_fmt_def TENSOR_HEAD_fmt_def SCALAR_HEAD_fmt_def
      OUTPUT_HEAD_fmt_def PROFILE_fmt_def ERROR_HEAD_fmt_def DIMS_fmt_def)

definition DTYPE_TO_ID :: "(string \<times> int) list" where
  "DTYPE_TO_ID = [(''bool'', 1), (''int8'', 2), (''uint8'', 3), (''int16'', 4), (''int32'', 5),
     (''int64'', 6), (''float16'', 7), (''float32'', 8), (''float64'', 9), (''bfloat16'', 10)]"

definition ID_TO_DTYPE :: "(int \<times> string) list" where
  "ID_TO_DTYPE = map (\<lambda>(k, v). (v, k)) DTYPE_TO_ID"

definition SCALAR_TO_ID :: "(string \<times> int) list" where
  "SCALAR_TO_ID = [(''boolean'', 1), (''float64'', 2), (''int64'', 3), (''text'', 4)]"

definition ID_TO_SCALAR :: "(int \<times> string) list" where
  "ID_TO_SCALAR = map (\<lambda>(k, v). (v, k)) SCALAR_TO_ID"

lemma ID_TO_DTYPE_eq: "map_of DTYPE_TO_ID d = Some i \<Longrightarrow> map_of ID_TO_DTYPE i = Some d"
  by (auto simp: DTYPE_TO_ID_def ID_TO_DTYPE_def split: if_splits)

lemma DTYPE_TO_ID_eq: "map_of ID_TO_DTYPE i = Some d \<Longrightarrow> map_of DTYPE_TO_ID d = Some i"
  by (auto simp: DTYPE_TO_ID_def ID_TO_DTYPE_def split: if_splits)

section \<open>Records\<close>

record Tensor =
  t_buffer_id :: int
  t_generation :: int
  t_allocation_id :: int
  t_offset :: int
  t_byte_length :: int
  t_dtype :: string
  t_shape :: "int list"
  t_strides :: "int list"
  t_kind :: int
  t_parameter :: int
  t_writable :: bool

text \<open>The values a scalar can hold; \<open>SFloat\<close> carries the bits of a binary64.\<close>

datatype sval = SBool bool | SInt int | SFloat "64 word" | SText ustr

record Scalar =
  s_parameter :: int
  s_kind :: string
  s_value :: sval

record PlannedOutput =
  o_output :: int
  o_shape :: "int list"
  o_dtype :: string

record Record =
  r_kind :: int
  r_generation :: int
  r_submission_id :: int
  r_invocation_id :: int
  r_operation_id :: int
  r_status :: int
  r_flags :: int
  r_tensors :: "Tensor list"
  r_scalars :: "Scalar list"
  r_outputs :: "PlannedOutput list"
  r_profile :: "int list"
  r_error_type :: ustr
  r_error_message :: ustr

text \<open>\<open>bool(value)\<close>, \<open>float(value)\<close> as its bits, \<open>int(value)\<close> and \<open>str(value)\<close>. A conversion
  that parses or prints a number is outside the model; the runtime coerces every value to
  its kind before it builds a \<open>Scalar\<close>.\<close>

fun py_bool :: "sval \<Rightarrow> bool" where
  "py_bool (SBool b) = b"
| "py_bool (SInt i) = (i \<noteq> 0)"
| "py_bool (SFloat w) = (w AND mask 63 \<noteq> 0)"
| "py_bool (SText s) = (s \<noteq> [])"

fun float_bits :: "sval \<Rightarrow> int result" where
  "float_bits (SFloat w) = Inr (uint w)"
| "float_bits (SBool b) = Inr (if b then 0x3FF0000000000000 else 0)"
| "float_bits _ = Inl OutsideModel"

fun py_int :: "sval \<Rightarrow> int result" where
  "py_int (SInt i) = Inr i"
| "py_int (SBool b) = Inr (if b then 1 else 0)"
| "py_int _ = Inl OutsideModel"

fun py_str :: "sval \<Rightarrow> ustr result" where
  "py_str (SText s) = Inr s"
| "py_str _ = Inl OutsideModel"

section \<open>Encoding\<close>

definition pack_into :: "fmt list \<Rightarrow> bytes \<Rightarrow> nat \<Rightarrow> fval list \<Rightarrow> bytes result" where
  "pack_into fs data off vs =
     ebind (pack fs vs) (\<lambda>bs.
     if off + length bs \<le> length data then Inr (overlay off bs data) else Inl StructError)"

text \<open>\<open>for index, item in enumerate(items)\<close> over the buffer.\<close>

fun write_each :: "(nat \<Rightarrow> 'a \<Rightarrow> bytes \<Rightarrow> bytes result) \<Rightarrow> nat \<Rightarrow> 'a list \<Rightarrow> bytes \<Rightarrow> bytes result" where
  "write_each f i [] data = Inr data"
| "write_each f i (x # xs) data = ebind (f i x data) (\<lambda>data'. write_each f (Suc i) xs data')"

definition dims16 :: "int list \<Rightarrow> fval list" where
  "dims16 ds = map VI ds @ replicate (16 - length ds) (VI 0)"

definition write_tensor :: "nat \<Rightarrow> Tensor \<Rightarrow> bytes \<Rightarrow> bytes result" where
  "write_tensor index item data =
     (if \<not> (0 < length (t_shape item) \<and> length (t_shape item) \<le> 16)
         \<or> length (t_shape item) \<noteq> length (t_strides item)
      then Inl (ValueError ''Tensor rank is invalid'')
      else
      ebind (or_raise (map_of DTYPE_TO_ID (t_dtype item)) (ValueError ''Unsupported ring dtype'')) (\<lambda>dtype.
      let off = TENSORS_off + index * TENSOR_SIZE in
      ebind (pack_into TENSOR_HEAD_fmt data off
        [VI (t_buffer_id item), VI (t_generation item), VI (t_allocation_id item),
         VI (t_offset item), VI (t_byte_length item), VI dtype, VI (int (length (t_shape item))),
         VI (t_kind item), VI (if t_writable item then TENSOR_WRITABLE else 0),
         VI (t_parameter item), VI 0]) (\<lambda>data.
      ebind (pack_into DIMS_fmt data (off + 56) (dims16 (t_shape item))) (\<lambda>data.
      pack_into DIMS_fmt data (off + 184) (dims16 (t_strides item))))))"

text \<open>The bits and the text a scalar is stored as.\<close>

definition scalar_payload :: "Scalar \<Rightarrow> (int \<times> bytes) result" where
  "scalar_payload item =
     (if s_kind item = ''boolean'' then Inr (if py_bool (s_value item) then 1 else 0, [])
      else if s_kind item = ''float64'' then ebind (float_bits (s_value item)) (\<lambda>b. Inr (b, []))
      else if s_kind item = ''int64''
      then ebind (py_int (s_value item)) (\<lambda>i. Inr (i AND (2 ^ 64 - 1), []))
      else ebind (py_str (s_value item)) (\<lambda>s. ebind (utf8_encode s) (\<lambda>text.
        if length text > 256 then Inl (ValueError ''Scalar text exceeds ring ABI bound'')
        else Inr (0, text))))"

definition write_scalar :: "nat \<Rightarrow> Scalar \<Rightarrow> bytes \<Rightarrow> bytes result" where
  "write_scalar index item data =
     (let off = SCALARS_off + index * SCALAR_SIZE in
      ebind (or_raise (map_of SCALAR_TO_ID (s_kind item)) (ValueError ''Unsupported scalar kind'')) (\<lambda>knd.
      ebind (scalar_payload item) (\<lambda>(bits, text).
      ebind (pack_into SCALAR_HEAD_fmt data off
        [VI (s_parameter item), VI knd, VI 0, VI bits, VI (int (length text)), VI 0]) (\<lambda>data.
      Inr (overlay (off + 24) text data)))))"

definition write_output :: "nat \<Rightarrow> PlannedOutput \<Rightarrow> bytes \<Rightarrow> bytes result" where
  "write_output index item data =
     (if \<not> (0 < length (o_shape item) \<and> length (o_shape item) \<le> 16)
      then Inl (ValueError ''Planned output rank is invalid'')
      else let off = OUTPUTS_off + index * OUTPUT_SIZE in
      ebind (or_raise (map_of DTYPE_TO_ID (o_dtype item)) (KeyError ''dtype'')) (\<lambda>dtype.
      ebind (pack_into OUTPUT_HEAD_fmt data off
        [VI dtype, VI 0, VI (int (length (o_shape item))), VI (o_output item), VI 0]) (\<lambda>data.
      pack_into DIMS_fmt data (off + 16) (dims16 (o_shape item)))))"

definition write_error :: "Record \<Rightarrow> bytes \<Rightarrow> bytes result" where
  "write_error r data =
     ebind (utf8_encode (r_error_type r)) (\<lambda>encoded_type.
     ebind (utf8_encode (r_error_message r)) (\<lambda>encoded_message.
     let error_type = take 64 encoded_type; error_message = take 1024 encoded_message;
         error_flags = (if length encoded_type > 64 then 1 else 0) OR
                       (if length encoded_message > 1024 then 2 else 0) in
     ebind (pack_into ERROR_HEAD_fmt data ERROR_off
       [VI (int (length error_type)), VI (int (length error_message)), VI error_flags, VI 0]) (\<lambda>data.
     Inr (overlay (ERROR_off + 80) error_message
            (overlay (ERROR_off + 16) error_type data)))))"

definition ring_encode :: "Record \<Rightarrow> bytes result" where
  "ring_encode r =
     (if r_generation r = 0 \<or> r_submission_id r = 0
      then Inl (ValueError ''Ring generation and submission ID must be nonzero'')
      else if length (r_tensors r) > 16 \<or> length (r_scalars r) > 16 \<or> length (r_outputs r) > 16
      then Inl (ValueError ''Ring descriptor count exceeds ABI bound'')
      else
      ebind (pack_into RECORD_HEADER_fmt (replicate RECORD_SIZE 0) 0
        [VI (r_kind r), VI (r_flags r), VI (r_generation r), VI (r_submission_id r),
         VI (r_invocation_id r), VI (r_operation_id r), VI (r_status r),
         VI (int (length (r_tensors r))), VI (int (length (r_scalars r))),
         VI (int (length (r_outputs r))), VI 0, VI 0]) (\<lambda>data.
      ebind (write_each write_tensor 0 (r_tensors r) data) (\<lambda>data.
      ebind (write_each write_scalar 0 (r_scalars r) data) (\<lambda>data.
      ebind (write_each write_output 0 (r_outputs r) data) (\<lambda>data.
      if length (r_profile r) \<noteq> 8 then Inl (ValueError ''Ring profile has invalid geometry'')
      else
      ebind (pack_into PROFILE_fmt data PROFILE_off (map VI (r_profile r))) (\<lambda>data.
      write_error r data))))))"

section \<open>Decoding\<close>

definition any_nonzero :: "int list \<Rightarrow> bool" where
  "any_nonzero xs \<longleftrightarrow> list_ex (\<lambda>x. x \<noteq> 0) xs"

definition read_tensor :: "bytes \<Rightarrow> nat \<Rightarrow> Tensor result" where
  "read_tensor data off =
     ebind (unpack_from TENSOR_HEAD_fmt data off) (\<lambda>v.
     let rank = nat (vint (v ! 6)) in
     if vint (v ! 10) \<noteq> 0 \<or> rank = 0 \<or> rank > 16 \<or> vint (v ! 8) AND NOT TENSOR_WRITABLE \<noteq> 0
     then Inl (RingError ''invalid tensor descriptor'')
     else
     ebind (unpack_from DIMS_fmt data (off + 56)) (\<lambda>shape16.
     ebind (unpack_from DIMS_fmt data (off + 184)) (\<lambda>strides16.
     let shape = map vint shape16; strides = map vint strides16 in
     if any_nonzero (drop rank shape) \<or> any_nonzero (drop rank strides)
     then Inl (RingError ''nonzero tensor rank padding'')
     else
     ebind (or_raise (map_of ID_TO_DTYPE (vint (v ! 5))) (RingError ''invalid tensor dtype'')) (\<lambda>dtype.
     Inr \<lparr>t_buffer_id = vint (v ! 0), t_generation = vint (v ! 1), t_allocation_id = vint (v ! 2),
          t_offset = vint (v ! 3), t_byte_length = vint (v ! 4), t_dtype = dtype,
          t_shape = take rank shape, t_strides = take rank strides, t_kind = vint (v ! 7),
          t_parameter = vint (v ! 9), t_writable = (vint (v ! 8) \<noteq> 0)\<rparr>))))"

definition read_scalar :: "bytes \<Rightarrow> nat \<Rightarrow> Scalar result" where
  "read_scalar data off =
     ebind (unpack_from SCALAR_HEAD_fmt data off) (\<lambda>v.
     let bits = vint (v ! 3); text_length = nat (vint (v ! 4)) in
     if vint (v ! 2) \<noteq> 0 \<or> vint (v ! 5) \<noteq> 0 \<or> text_length > 256
     then Inl (RingError ''invalid scalar descriptor'')
     else
     ebind (or_raise (map_of ID_TO_SCALAR (vint (v ! 1))) (RingError ''invalid scalar kind'')) (\<lambda>knd.
     let text_area = region (off + 24) 256 data in
     if \<not> all_zero (drop text_length text_area)
     then Inl (RingError ''nonzero scalar text padding'')
     else
     ebind (if knd = ''boolean''
            then if bits > 1 \<or> text_length \<noteq> 0 then Inl (RingError ''invalid boolean scalar'')
                 else Inr (SBool (bits \<noteq> 0))
            else if knd = ''float64'' then Inr (SFloat (word_of_int bits))
            else if knd = ''int64'' then Inr (SInt (signed64 bits))
            else ebind (utf8_decode (take text_length text_area)) (\<lambda>s. Inr (SText s))) (\<lambda>value.
     Inr \<lparr>s_parameter = vint (v ! 0), s_kind = knd, s_value = value\<rparr>)))"

definition read_output :: "bytes \<Rightarrow> nat \<Rightarrow> PlannedOutput result" where
  "read_output data off =
     ebind (unpack_from OUTPUT_HEAD_fmt data off) (\<lambda>v.
     ebind (unpack_from DIMS_fmt data (off + 16)) (\<lambda>shape16.
     let rank = nat (vint (v ! 2)); shape = map vint shape16 in
     if vint (v ! 1) \<noteq> 0 \<or> vint (v ! 4) \<noteq> 0 \<or> \<not> (0 < rank \<and> rank \<le> 16)
        \<or> any_nonzero (drop rank shape)
     then Inl (RingError ''invalid planned output descriptor'')
     else
     ebind (or_raise (map_of ID_TO_DTYPE (vint (v ! 0))) (RingError ''invalid planned output dtype''))
       (\<lambda>dtype. Inr \<lparr>o_output = vint (v ! 3), o_shape = take rank shape, o_dtype = dtype\<rparr>)))"

definition read_error :: "bytes \<Rightarrow> (bytes \<times> bytes) result" where
  "read_error data =
     ebind (unpack_from ERROR_HEAD_fmt data ERROR_off) (\<lambda>v.
     let type_length = nat (vint (v ! 0)); message_length = nat (vint (v ! 1)) in
     if vint (v ! 3) \<noteq> 0 \<or> vint (v ! 2) AND NOT 3 \<noteq> 0 \<or> type_length > 64 \<or> message_length > 1024
     then Inl (RingError ''invalid ring error descriptor'')
     else if \<not> all_zero (region (ERROR_off + 16 + type_length) (64 - type_length) data)
        \<or> \<not> all_zero (region (ERROR_off + 80 + message_length)
                             (TAIL_off - (ERROR_off + 80 + message_length)) data)
     then Inl (RingError ''nonzero ring error padding'')
     else Inr (region (ERROR_off + 16) type_length data, region (ERROR_off + 80) message_length data))"

definition ring_decode :: "bytes \<Rightarrow> int \<Rightarrow> Record result" where
  "ring_decode data generation =
     (if length data \<noteq> RECORD_SIZE then Inl (RingError ''invalid ring record size'')
      else
      ebind (unpack_from RECORD_HEADER_fmt data 0) (\<lambda>v.
      if vint (v ! 2) \<noteq> generation \<or> vint (v ! 3) = 0
      then Inl (RingError ''invalid ring record identity'')
      else if vint (v ! 10) \<noteq> 0 \<or> vint (v ! 11) \<noteq> 0 \<or> \<not> all_zero (region 52 76 data)
         \<or> \<not> all_zero (drop TAIL_off data)
      then Inl (RingError ''nonzero reserved ring record bytes'')
      else let tensor_count = nat (vint (v ! 7)); scalar_count = nat (vint (v ! 8));
               output_count = nat (vint (v ! 9)) in
      if tensor_count > 16 \<or> scalar_count > 16 \<or> output_count > 16
      then Inl (RingError ''ring descriptor count exceeds ABI bound'')
      else
      ebind (emap (\<lambda>i. read_tensor data (TENSORS_off + i * TENSOR_SIZE)) [0..<tensor_count]) (\<lambda>tensors.
      ebind (emap (\<lambda>i. read_scalar data (SCALARS_off + i * SCALAR_SIZE)) [0..<scalar_count]) (\<lambda>scalars.
      ebind (emap (\<lambda>i. read_output data (OUTPUTS_off + i * OUTPUT_SIZE)) [0..<output_count]) (\<lambda>outputs.
      ebind (read_error data) (\<lambda>(type_bytes, message_bytes).
      ebind (unpack_from PROFILE_fmt data PROFILE_off) (\<lambda>profile.
      ebind (utf8_decode type_bytes) (\<lambda>error_type.
      ebind (utf8_decode message_bytes) (\<lambda>error_message.
      Inr \<lparr>r_kind = vint (v ! 0), r_generation = generation, r_submission_id = vint (v ! 3),
           r_invocation_id = vint (v ! 4), r_operation_id = vint (v ! 5), r_status = vint (v ! 6),
           r_flags = vint (v ! 1), r_tensors = tensors, r_scalars = scalars, r_outputs = outputs,
           r_profile = map vint profile, r_error_type = error_type,
           r_error_message = error_message\<rparr>)))))))))"

end
