(* ===== verification/Ring_Laws.thy ===== *)
theory Ring_Laws
  imports Ring_Record
begin

text \<open>
  Laws of the ring record codec. The writes of \<open>ring_encode\<close> go to increasing offsets of a
  zeroed buffer, so every write has a normal form: an overlay of whole slots. From it every
  region that \<open>ring_decode\<close> reads is known, and decoding returns the record encoded.
\<close>

section \<open>In-place writes to a zeroed buffer\<close>

text \<open>Everything from \<open>n\<close> on is still zero.\<close>

definition clean :: "nat \<Rightarrow> bytes \<Rightarrow> bool" where
  "clean n data \<longleftrightarrow> length data = RECORD_SIZE \<and> all_zero (drop n data)"

lemma all_zero_drop: "all_zero xs \<Longrightarrow> all_zero (drop n xs)"
  and all_zero_take: "all_zero xs \<Longrightarrow> all_zero (take n xs)"
  by (auto simp: all_zero_def list_all_iff dest: in_set_dropD in_set_takeD)

lemma clean_mono: "clean m data \<Longrightarrow> m \<le> n \<Longrightarrow> clean n data"
  using all_zero_drop[of "drop m data" "n - m"] by (auto simp: clean_def)

lemma clean_fresh: "clean 0 (replicate RECORD_SIZE 0)"
  by (simp add: clean_def)

lemma clean_length: "clean n data \<Longrightarrow> length data = RECORD_SIZE"
  by (simp add: clean_def)

lemma clean_overlay:
  assumes "clean n data" "n \<le> off" "off + length bs \<le> RECORD_SIZE"
  shows "clean (off + length bs) (overlay off bs data)"
proof -
  have "drop (off + length bs) (overlay off bs data) = drop (off + length bs) data"
    using assms by (simp add: overlay_def clean_def)
  then show ?thesis
    using clean_mono[OF assms(1), of "off + length bs"] assms by (simp add: clean_def)
qed

lemma region_clean: "clean n data \<Longrightarrow> n \<le> off \<Longrightarrow> all_zero (region off k data)"
  using clean_mono[of n data off] by (simp add: clean_def region_def all_zero_take)

lemma overlay_append:
  assumes "off + length a + length b \<le> length data"
  shows "overlay (off + length a) b (overlay off a data) = overlay off (a @ b) data"
  using assms by (simp add: overlay_def ac_simps)

lemma overlay_pad:
  assumes "clean n data" "n \<le> off" "off + length bs + k \<le> RECORD_SIZE"
  shows "overlay off (bs @ replicate k 0) data = overlay off bs data"
proof -
  have "all_zero (region (off + length bs) k data)"
    using assms by (intro region_clean) auto
  then have "region (off + length bs) k data = replicate k 0"
    using assms by (simp add: all_zero_eq clean_def)
  then have "drop (off + length bs) data = replicate k 0 @ drop (off + length bs + k) data"
    by (metis add.commute append_take_drop_id drop_drop region_def)
  then show ?thesis
    by (simp add: overlay_def add.assoc)
qed

lemma pack_into_eq:
  "off + calcsize fs \<le> length data \<Longrightarrow>
   pack_into fs data off vs = ebind (pack fs vs) (\<lambda>bs. Inr (overlay off bs data))"
  by (cases "pack fs vs") (auto simp: pack_into_def dest: pack_length)

lemma write_each_slots:
  assumes step: "\<And>i x data. i < 16 \<Longrightarrow> clean (off + i * w) data \<Longrightarrow>
      f i x data = ebind (enc1 x) (\<lambda>bs. Inr (overlay (off + i * w) bs data))"
    and len: "\<And>x bs. enc1 x = Inr bs \<Longrightarrow> length bs = w"
    and size: "off + 16 * w \<le> RECORD_SIZE"
  shows "i + length xs \<le> 16 \<Longrightarrow> clean (off + i * w) data \<Longrightarrow>
    write_each f i xs data
    = ebind (emap enc1 xs) (\<lambda>bss. Inr (overlay (off + i * w) (concat bss) data))"
proof (induction xs arbitrary: i data)
  case Nil
  then show ?case by (simp add: overlay_def)
next
  case (Cons x xs)
  have iw: "off + i * w + w \<le> RECORD_SIZE"
  proof -
    have "Suc i * w \<le> 16 * w"
      using Cons.prems(1) by (intro mult_le_mono1) simp
    with size show ?thesis unfolding mult_Suc by linarith
  qed
  have fx: "f i x data = ebind (enc1 x) (\<lambda>bs. Inr (overlay (off + i * w) bs data))"
    using Cons.prems by (intro step) auto
  show ?case
  proof (cases "enc1 x")
    case (Inr bs)
    let ?d = "overlay (off + i * w) bs data"
    have l: "length bs = w"
      by (rule len[OF Inr])
    have "clean (off + Suc i * w) ?d"
      using clean_overlay[OF Cons.prems(2) order.refl, of bs] iw l by (simp add: ac_simps)
    then have IH: "write_each f (Suc i) xs ?d
        = ebind (emap enc1 xs) (\<lambda>bss. Inr (overlay (off + Suc i * w) (concat bss) ?d))"
      using Cons.prems(1) by (intro Cons.IH) auto
    have app: "overlay (off + Suc i * w) (concat bss) ?d = overlay (off + i * w) (bs @ concat bss) data"
      if "emap enc1 xs = Inr bss" for bss
    proof -
      have "length (concat bss) = length xs * w"
        using that len by (induction xs arbitrary: bss) (auto simp: err_simps)
      moreover have "(Suc i + length xs) * w \<le> 16 * w"
        using Cons.prems(1) by (intro mult_le_mono1) auto
      ultimately have "off + i * w + length bs + length (concat bss) \<le> length data"
        using size l clean_length[OF Cons.prems(2)] by (simp add: distrib_right)
      from overlay_append[OF this] show ?thesis
        using l by (simp add: ac_simps)
    qed
    show ?thesis
      using Inr fx IH app by (cases "emap enc1 xs") auto
  qed (simp add: fx)
qed

section \<open>Slots\<close>

definition enc_tensor :: "Tensor \<Rightarrow> bytes result" where
  "enc_tensor item =
     (if \<not> (0 < length (t_shape item) \<and> length (t_shape item) \<le> 16)
         \<or> length (t_shape item) \<noteq> length (t_strides item)
      then Inl (ValueError ''Tensor rank is invalid'')
      else
      ebind (or_raise (map_of DTYPE_TO_ID (t_dtype item)) (ValueError ''Unsupported ring dtype'')) (\<lambda>dtype.
      ebind (pack TENSOR_HEAD_fmt
        [VI (t_buffer_id item), VI (t_generation item), VI (t_allocation_id item),
         VI (t_offset item), VI (t_byte_length item), VI dtype, VI (int (length (t_shape item))),
         VI (t_kind item), VI (if t_writable item then TENSOR_WRITABLE else 0),
         VI (t_parameter item), VI 0]) (\<lambda>a.
      ebind (pack DIMS_fmt (dims16 (t_shape item))) (\<lambda>b.
      ebind (pack DIMS_fmt (dims16 (t_strides item))) (\<lambda>c. Inr (a @ b @ c))))))"

definition enc_scalar :: "Scalar \<Rightarrow> bytes result" where
  "enc_scalar item =
     ebind (or_raise (map_of SCALAR_TO_ID (s_kind item)) (ValueError ''Unsupported scalar kind'')) (\<lambda>knd.
     ebind (scalar_payload item) (\<lambda>(bits, text).
     ebind (pack SCALAR_HEAD_fmt
       [VI (s_parameter item), VI knd, VI 0, VI bits, VI (int (length text)), VI 0]) (\<lambda>a.
     Inr (a @ text @ replicate (256 - length text) 0))))"

definition enc_output :: "PlannedOutput \<Rightarrow> bytes result" where
  "enc_output item =
     (if \<not> (0 < length (o_shape item) \<and> length (o_shape item) \<le> 16)
      then Inl (ValueError ''Planned output rank is invalid'')
      else
      ebind (or_raise (map_of DTYPE_TO_ID (o_dtype item)) (KeyError ''dtype'')) (\<lambda>dtype.
      ebind (pack OUTPUT_HEAD_fmt
        [VI dtype, VI 0, VI (int (length (o_shape item))), VI (o_output item), VI 0]) (\<lambda>a.
      ebind (pack DIMS_fmt (dims16 (o_shape item))) (\<lambda>b. Inr (a @ b)))))"

lemma scalar_payload_text: "scalar_payload item = Inr p \<Longrightarrow> length (snd p) \<le> 256"
  by (auto simp: scalar_payload_def err_simps split: if_splits)

lemma enc_tensor_length: "enc_tensor x = Inr bs \<Longrightarrow> length bs = TENSOR_SIZE"
  by (auto simp: enc_tensor_def err_simps ring_consts split: if_splits dest!: pack_length)

lemma enc_scalar_length: "enc_scalar x = Inr bs \<Longrightarrow> length bs = SCALAR_SIZE"
  by (fastforce simp: enc_scalar_def err_simps ring_consts dest!: pack_length scalar_payload_text)

lemma enc_output_length: "enc_output x = Inr bs \<Longrightarrow> length bs = OUTPUT_SIZE"
  by (auto simp: enc_output_def err_simps ring_consts split: if_splits dest!: pack_length)

lemma overlay_two:
  "length a = k \<Longrightarrow> off + k + length b \<le> length data \<Longrightarrow>
   overlay (off + k) b (overlay off a data) = overlay off (a @ b) data"
  using overlay_append[of off a b data] by simp

lemma pack_len: "pack fs vs = Inr bs \<Longrightarrow> length bs = calcsize fs"
  by (rule pack_length)

lemma write_tensor_slot:
  assumes "i < 16" "clean (TENSORS_off + i * TENSOR_SIZE) data"
  shows "write_tensor i x data
    = ebind (enc_tensor x) (\<lambda>bs. Inr (overlay (TENSORS_off + i * TENSOR_SIZE) bs data))"
proof -
  define off where "off = TENSORS_off + i * TENSOR_SIZE"
  have l: "length data = RECORD_SIZE" "off + 312 \<le> RECORD_SIZE"
    using assms by (auto simp: clean_def ring_consts off_def)
  show ?thesis
    using l unfolding write_tensor_def enc_tensor_def off_def[symmetric] Let_def
    by (simp add: pack_into_eq ebind_assoc overlay_two pack_len cong: ebind_cong)
qed

lemma write_scalar_slot:
  assumes "i < 16" "clean (SCALARS_off + i * SCALAR_SIZE) data"
  shows "write_scalar i x data
    = ebind (enc_scalar x) (\<lambda>bs. Inr (overlay (SCALARS_off + i * SCALAR_SIZE) bs data))"
proof -
  define off where "off = SCALARS_off + i * SCALAR_SIZE"
  have l: "length data = RECORD_SIZE" "off + 280 \<le> RECORD_SIZE"
    using assms by (auto simp: clean_def ring_consts off_def)
  have pad: "overlay (off + 24) tx (overlay off a data)
      = overlay off (a @ tx @ replicate (256 - length tx) 0) data"
    if "length a = 24" "length tx \<le> 256" for a tx
    using overlay_pad[of off data off "a @ tx" "256 - length tx"] assms(2) that l
    by (simp add: overlay_two off_def)
  show ?thesis
    using l unfolding write_scalar_def enc_scalar_def off_def[symmetric] Let_def
    by (simp add: pack_into_eq ebind_assoc pad pack_len scalar_payload_text split_def cong: ebind_cong)
qed

lemma write_output_slot:
  assumes "i < 16" "clean (OUTPUTS_off + i * OUTPUT_SIZE) data"
  shows "write_output i x data
    = ebind (enc_output x) (\<lambda>bs. Inr (overlay (OUTPUTS_off + i * OUTPUT_SIZE) bs data))"
proof -
  define off where "off = OUTPUTS_off + i * OUTPUT_SIZE"
  have l: "length data = RECORD_SIZE" "off + 144 \<le> RECORD_SIZE"
    using assms by (auto simp: clean_def ring_consts off_def)
  show ?thesis
    using l unfolding write_output_def enc_output_def off_def[symmetric] Let_def
    by (simp add: pack_into_eq ebind_assoc overlay_two pack_len cong: ebind_cong)
qed

section \<open>The three slots decode\<close>

lemma full1_VI: "length fs = length xs \<Longrightarrow> list_all2 full1 fs (map VI xs)"
  by (auto simp: list_all2_conv_all_nth)

lemma dims16_VI: "dims16 ds = map VI (ds @ replicate (16 - length ds) 0)"
  by (simp add: dims16_def)

lemma dims_unpack:
  assumes "pack DIMS_fmt (dims16 ds) = Inr bs" "length ds \<le> 16" "region off 128 data = bs"
    "off + 128 \<le> length data"
  shows "unpack_from DIMS_fmt data off = Inr (map VI (ds @ replicate (16 - length ds) 0))"
proof -
  have "exact DIMS_fmt (dims16 ds)"
    using assms(2) by (intro pack_imp_exact[OF assms(1)]) (simp add: dims16_VI full1_VI DIMS_fmt_def del: map_append)
  then show ?thesis
    using unpack_from_at[OF _ assms(1)] assms(3,4) by (simp add: dims16_VI)
qed

lemma exact_replicate: "exact (replicate n f) vs \<longleftrightarrow> length vs = n \<and> list_all (exact1 f) vs"
proof (induction n arbitrary: vs)
  case 0
  then show ?case by (cases vs) auto
next
  case (Suc n)
  then show ?case by (cases vs) auto
qed

lemma dims_pack:
  "length ds \<le> 16 \<Longrightarrow> list_all (sfits 8) ds \<Longrightarrow> \<exists>bs. pack DIMS_fmt (dims16 ds) = Inr bs \<and> length bs = 128"
proof -
  assume "length ds \<le> 16" "list_all (sfits 8) ds"
  then have "exact DIMS_fmt (dims16 ds)"
    by (auto simp: DIMS_fmt_def dims16_def exact_replicate list_all_iff sfits_def set_replicate_conv_if)
  from pack_exact[OF this] show ?thesis by auto
qed

lemma profile_pack:
  "length ns = 8 \<Longrightarrow> list_all (fits 8) ns \<Longrightarrow> \<exists>bs. pack PROFILE_fmt (map VI ns) = Inr bs \<and> length bs = 64"
proof -
  assume "length ns = 8" "list_all (fits 8) ns"
  then have "exact PROFILE_fmt (map VI ns)"
    by (auto simp: PROFILE_fmt_def exact_replicate list_all_iff)
  from pack_exact[OF this] show ?thesis by auto
qed

lemma any_nonzero_replicate [simp]: "\<not> any_nonzero (replicate n 0)"
  by (simp add: any_nonzero_def list_ex_iff)

lemma head_unpack:
  assumes "pack fs (map VI xs) = Inr bs" "length fs = length xs" "region off (calcsize fs) data = bs"
    "off + calcsize fs \<le> length data"
  shows "unpack_from fs data off = Inr (map VI xs)"
  using unpack_from_at[OF pack_imp_exact[OF assms(1) full1_VI[OF assms(2)]] assms(1,3,4)] .

text \<open>The parts of a slot are regions of the buffer.\<close>

lemma region_parts:
  assumes "region off n data = a @ b" "off + n \<le> length data" "n = length a + length b"
  shows "region off (length a) data = a" "region (off + length a) (length b) data = b"
proof -
  have "region off (length a) data @ region (off + length a) (length b) data = a @ b"
    using assms region_split[of off "length a" "length b" data] by simp
  moreover have "length (region off (length a) data) = length a"
    using assms by simp
  ultimately have "region off (length a) data = a \<and> region (off + length a) (length b) data = b"
    by (metis append_eq_append_conv)
  then show "region off (length a) data = a" "region (off + length a) (length b) data = b"
    by auto
qed

lemma check_eq_Inr: "(if c then Inl e else m) = Inr y \<longleftrightarrow> \<not> c \<and> m = Inr y"
  by simp

lemma enc_tensor_Inr:
  "enc_tensor x = Inr bs \<longleftrightarrow>
   (\<exists>dt a b c. 0 < length (t_shape x) \<and> length (t_shape x) \<le> 16 \<and>
      length (t_shape x) = length (t_strides x) \<and> map_of DTYPE_TO_ID (t_dtype x) = Some dt \<and>
      pack TENSOR_HEAD_fmt (map VI [t_buffer_id x, t_generation x, t_allocation_id x, t_offset x,
         t_byte_length x, dt, int (length (t_shape x)), t_kind x,
         if t_writable x then TENSOR_WRITABLE else 0, t_parameter x, 0]) = Inr a \<and>
      pack DIMS_fmt (dims16 (t_shape x)) = Inr b \<and> pack DIMS_fmt (dims16 (t_strides x)) = Inr c \<and>
      bs = a @ b @ c)"
  unfolding enc_tensor_def check_eq_Inr ebind_eq_Inr or_raise_eq list.map if_distrib[of VI]
  by blast

interpretation tensor_slot: slot_codec enc_tensor read_tensor TENSOR_SIZE
proof
  fix x bs assume e: "enc_tensor x = Inr bs"
  then show "length bs = TENSOR_SIZE" by (rule enc_tensor_length)
  fix off data assume r: "region off TENSOR_SIZE data = bs" and l: "off + TENSOR_SIZE \<le> length data"
  obtain dt a b c where p: "0 < length (t_shape x)" "length (t_shape x) \<le> 16"
      "length (t_shape x) = length (t_strides x)" "map_of DTYPE_TO_ID (t_dtype x) = Some dt"
      "pack TENSOR_HEAD_fmt (map VI [t_buffer_id x, t_generation x, t_allocation_id x, t_offset x,
         t_byte_length x, dt, int (length (t_shape x)), t_kind x,
         if t_writable x then TENSOR_WRITABLE else 0, t_parameter x, 0]) = Inr a"
      "pack DIMS_fmt (dims16 (t_shape x)) = Inr b" "pack DIMS_fmt (dims16 (t_strides x)) = Inr c"
      "bs = a @ b @ c"
    using e unfolding enc_tensor_Inr by (elim exE conjE) (rule that; assumption)
  have len: "length a = 56" "length b = 128" "length c = 128"
    using pack_length[OF p(5)] pack_length[OF p(6)] pack_length[OF p(7)] by simp_all
  have 1: "region off 56 data = a" "region (off + 56) 256 data = b @ c"
    using region_parts[of off TENSOR_SIZE data a "b @ c"] r l p(8) len by (simp_all add: ring_consts)
  have 2: "region (off + 56) 128 data = b" "region (off + 184) 128 data = c"
  proof -
    have "off + 56 + 256 \<le> length data" "256 = length b + length c"
      using l len by (simp_all add: TENSOR_SIZE_def)
    from region_parts[OF 1(2) this, unfolded len]
    show "region (off + 56) 128 data = b" "region (off + 184) 128 data = c"
      by (simp_all add: add.commute[of off])
  qed
  have u: "unpack_from TENSOR_HEAD_fmt data off = Inr (map VI [t_buffer_id x, t_generation x,
      t_allocation_id x, t_offset x, t_byte_length x, dt, int (length (t_shape x)), t_kind x,
      if t_writable x then TENSOR_WRITABLE else 0, t_parameter x, 0])"
    using 1(1) l by (intro head_unpack[OF p(5)]) (simp_all add: TENSOR_HEAD_fmt_def ring_consts)
  have "unpack_from DIMS_fmt data (off + 56) = Inr (map VI (t_shape x @ replicate (16 - length (t_shape x)) 0))"
    using dims_unpack[OF p(6) p(2) 2(1)] l by (simp add: ring_consts)
  moreover have "unpack_from DIMS_fmt data (off + 184) = Inr (map VI (t_strides x @ replicate (16 - length (t_strides x)) 0))"
    using dims_unpack[OF p(7) _ 2(2)] p(2,3) l by (simp add: ring_consts)
  ultimately show "read_tensor data off = Inr x"
    using p(1-4) ID_TO_DTYPE_eq[OF p(4)]
    unfolding read_tensor_def u by (simp add: Let_def comp_def TENSOR_WRITABLE_def)
qed

interpretation output_slot: slot_codec enc_output read_output OUTPUT_SIZE
proof
  fix x bs assume e: "enc_output x = Inr bs"
  then show "length bs = OUTPUT_SIZE" by (rule enc_output_length)
  fix off data assume r: "region off OUTPUT_SIZE data = bs" and l: "off + OUTPUT_SIZE \<le> length data"
  obtain dt a b where p: "0 < length (o_shape x)" "length (o_shape x) \<le> 16"
      "map_of DTYPE_TO_ID (o_dtype x) = Some dt"
      "pack OUTPUT_HEAD_fmt (map VI [dt, 0, int (length (o_shape x)), o_output x, 0]) = Inr a"
      "pack DIMS_fmt (dims16 (o_shape x)) = Inr b" "bs = a @ b"
    using e by (auto simp: enc_output_def err_simps split: if_splits)
  have len: "length a = 16" "length b = 128"
    using p by (auto dest: pack_length)
  have 1: "region off 16 data = a" "region (off + 16) 128 data = b"
    using region_parts[of off OUTPUT_SIZE data a b] r l p(6) len by (simp_all add: ring_consts)
  have u: "unpack_from OUTPUT_HEAD_fmt data off
      = Inr (map VI [dt, 0, int (length (o_shape x)), o_output x, 0])"
    using 1(1) l by (intro head_unpack[OF p(4)]) (simp_all add: OUTPUT_HEAD_fmt_def ring_consts)
  have "unpack_from DIMS_fmt data (off + 16) = Inr (map VI (o_shape x @ replicate (16 - length (o_shape x)) 0))"
    using dims_unpack[OF p(5) p(2) 1(2)] l by (simp add: ring_consts)
  then show "read_output data off = Inr x"
    using p(1-3) ID_TO_DTYPE_eq[OF p(3)]
    unfolding read_output_def u by (simp add: Let_def comp_def)
qed

text \<open>
  A scalar is stored as its kind's value: an integer as its low 64 bits, any object as its
  truth value when the kind is boolean. \<open>canonical_scalar\<close> holds when nothing is lost.
\<close>

fun canonical_scalar :: "Scalar \<Rightarrow> bool" where
  "canonical_scalar s =
     (case s_value s of
        SBool b \<Rightarrow> s_kind s = ''boolean''
      | SInt i \<Rightarrow> s_kind s = ''int64'' \<and> sfits 8 i
      | SFloat w \<Rightarrow> s_kind s = ''float64''
      | SText t \<Rightarrow> s_kind s = ''text'')"

definition enc_canonical :: "Scalar \<Rightarrow> bytes result" where
  "enc_canonical s = (if canonical_scalar s then enc_scalar s else Inl OutsideModel)"

lemma signed64_low_bits: "sfits 8 i \<Longrightarrow> signed64 (i AND (2 ^ 64 - 1)) = i"
proof -
  assume i: "sfits 8 i"
  have "i AND (2 ^ 64 - 1) = i mod 2 ^ 64"
    by (metis mask_eq_exp_minus_1 take_bit_eq_mask take_bit_eq_mod)
  also have "\<dots> = le_decode (le_encode 8 i)"
    by (simp add: le_decode_encode_mod)
  finally show ?thesis
    using signed64_decode[OF i] by simp
qed

interpretation scalar_slot: slot_codec enc_canonical read_scalar SCALAR_SIZE
proof
  fix x bs assume e': "enc_canonical x = Inr bs"
  then have e: "enc_scalar x = Inr bs" and can: "canonical_scalar x"
    by (auto simp: enc_canonical_def split: if_splits)
  show "length bs = SCALAR_SIZE" by (rule enc_scalar_length[OF e])
  fix off data assume r: "region off SCALAR_SIZE data = bs" and l: "off + SCALAR_SIZE \<le> length data"
  obtain k bits tx a where p: "map_of SCALAR_TO_ID (s_kind x) = Some k"
      "scalar_payload x = Inr (bits, tx)"
      "pack SCALAR_HEAD_fmt (map VI [s_parameter x, k, 0, bits, int (length tx), 0]) = Inr a"
      "bs = a @ tx @ replicate (256 - length tx) 0"
    using e by (auto simp: enc_scalar_def err_simps)
  have len: "length a = 24" "length tx \<le> 256"
    using p scalar_payload_text[OF p(2)] by (auto dest: pack_length)
  have 1: "region off 24 data = a" "region (off + 24) 256 data = tx @ replicate (256 - length tx) 0"
    using region_parts[of off SCALAR_SIZE data a "tx @ replicate (256 - length tx) 0"] r l p(4) len
    by (simp_all add: ring_consts)
  have u: "unpack_from SCALAR_HEAD_fmt data off
      = Inr (map VI [s_parameter x, k, 0, bits, int (length tx), 0])"
    using 1(1) l by (intro head_unpack[OF p(3)]) (simp_all add: SCALAR_HEAD_fmt_def ring_consts)
  have "map_of ID_TO_SCALAR k = Some (s_kind x)"
    using p(1) by (auto simp: SCALAR_TO_ID_def ID_TO_SCALAR_def split: if_splits)
  then show "read_scalar data off = Inr x"
    using can p(2) len(2) unfolding read_scalar_def u
    by (cases x; cases "s_value x")
       (auto simp: Let_def 1(2) scalar_payload_def err_simps signed64_low_bits[simplified]
         dest: utf8_decode_encode split: if_splits)
qed

section \<open>The layout of a record\<close>

definition layout ::
  "bytes \<Rightarrow> bytes \<Rightarrow> bytes \<Rightarrow> bytes \<Rightarrow> bytes \<Rightarrow> bytes \<Rightarrow> bytes \<Rightarrow> bytes \<Rightarrow> bytes" where
  "layout h ts ss os pr eh et em =
     overlay (ERROR_off + 80) em (overlay (ERROR_off + 16) et (overlay ERROR_off eh
       (overlay PROFILE_off pr (overlay OUTPUTS_off os (overlay SCALARS_off ss
         (overlay TENSORS_off ts (overlay 0 h (replicate RECORD_SIZE 0))))))))"

lemma layout_regions:
  assumes "length h = 52" "length ts \<le> 4992" "length ss \<le> 4480" "length os \<le> 2304"
    "length pr = 64" "length eh = 16" "length et \<le> 64" "length em \<le> 1024"
  defines "data \<equiv> layout h ts ss os pr eh et em"
  shows "length data = RECORD_SIZE" "region 0 52 data = h" "all_zero (region 52 76 data)"
    "region TENSORS_off (length ts) data = ts" "region SCALARS_off (length ss) data = ss"
    "region OUTPUTS_off (length os) data = os" "region PROFILE_off 64 data = pr"
    "region ERROR_off 16 data = eh" "region (ERROR_off + 16) (length et) data = et"
    "all_zero (region (ERROR_off + 16 + length et) (64 - length et) data)"
    "region (ERROR_off + 80) (length em) data = em"
    "all_zero (region (ERROR_off + 80 + length em) (TAIL_off - (ERROR_off + 80 + length em)) data)"
    "all_zero (drop TAIL_off data)"
proof -
  have tail: "drop TAIL_off data = region TAIL_off (RECORD_SIZE - TAIL_off) data"
    if "length data = RECORD_SIZE"
    using that by (simp add: region_def)
  show l: "length data = RECORD_SIZE"
    using assms(1-8) by (simp add: data_def layout_def ring_consts)
  show "region 0 52 data = h"
    using assms(1-8) by (simp add: data_def layout_def ring_consts buf_simps)
  show "all_zero (region 52 76 data)"
    using assms(1-8) by (simp add: data_def layout_def ring_consts buf_simps)
  show "region TENSORS_off (length ts) data = ts"
    using assms(1-8) by (simp add: data_def layout_def ring_consts buf_simps)
  show "region SCALARS_off (length ss) data = ss"
    using assms(1-8) by (simp add: data_def layout_def ring_consts buf_simps)
  show "region OUTPUTS_off (length os) data = os"
    using assms(1-8) by (simp add: data_def layout_def ring_consts buf_simps)
  show "region PROFILE_off 64 data = pr"
    using assms(1-8) by (simp add: data_def layout_def ring_consts buf_simps)
  show "region ERROR_off 16 data = eh"
    using assms(1-8) by (simp add: data_def layout_def ring_consts buf_simps)
  show "region (ERROR_off + 16) (length et) data = et"
    using assms(1-8) by (simp add: data_def layout_def ring_consts buf_simps)
  show "all_zero (region (ERROR_off + 16 + length et) (64 - length et) data)"
    using assms(1-8) by (simp add: data_def layout_def ring_consts buf_simps)
  show "region (ERROR_off + 80) (length em) data = em"
    using assms(1-8) by (simp add: data_def layout_def ring_consts buf_simps)
  show "all_zero (region (ERROR_off + 80 + length em) (TAIL_off - (ERROR_off + 80 + length em)) data)"
    using assms(1-8) by (simp add: data_def layout_def ring_consts buf_simps)
  show "all_zero (drop TAIL_off data)"
    unfolding tail[OF l] using assms(1-8) by (simp add: data_def layout_def ring_consts buf_simps)
qed

lemma emap_slots_length:
  assumes "emap enc1 xs = Inr bss" "\<And>x bs. enc1 x = Inr bs \<Longrightarrow> length bs = w"
  shows "length (concat bss) = length xs * w"
  using assms by (induction xs arbitrary: bss) (auto simp: err_simps)

lemma emap_slots_bound:
  assumes "emap enc1 xs = Inr bss" "\<And>x bs. enc1 x = Inr bs \<Longrightarrow> length bs = w" "length xs \<le> 16"
  shows "length (concat bss) \<le> 16 * w"
proof -
  have "length (concat bss) = length xs * w"
    using assms(1) by (rule emap_slots_length) (rule assms(2))
  then show ?thesis using assms(3) by simp
qed

text \<open>What the encoder accepts, and the bytes it returns.\<close>

definition error_header :: "bytes \<Rightarrow> bytes \<Rightarrow> int list" where
  "error_header et em =
     [int (length (take 64 et)), int (length (take 1024 em)),
      (if length et > 64 then 1 else 0) OR (if length em > 1024 then 2 else 0), 0]"

definition record_header :: "Record \<Rightarrow> int list" where
  "record_header r =
     [r_kind r, r_flags r, r_generation r, r_submission_id r, r_invocation_id r, r_operation_id r,
      r_status r, int (length (r_tensors r)), int (length (r_scalars r)),
      int (length (r_outputs r)), 0, 0]"

lemma clean_after:
  "clean n data \<Longrightarrow> n \<le> off \<Longrightarrow> length bs \<le> k \<Longrightarrow> off + k \<le> m \<Longrightarrow> m \<le> RECORD_SIZE \<Longrightarrow>
   clean m (overlay off bs data)"
  using clean_overlay[of n data off bs] clean_mono[of "off + length bs" "overlay off bs data" m]
  by simp

lemma pack_into_Inr:
  "pack_into fs data off vs = Inr d' \<longleftrightarrow>
   (\<exists>bs. pack fs vs = Inr bs \<and> off + length bs \<le> length data \<and> d' = overlay off bs data)"
  by (auto simp: pack_into_def err_simps)

lemma write_error_Inr:
  assumes "write_error r d = Inr data"
  obtains et em eh where "utf8_encode (r_error_type r) = Inr et"
    "utf8_encode (r_error_message r) = Inr em"
    "pack ERROR_HEAD_fmt (map VI (error_header et em)) = Inr eh"
    "data = overlay (ERROR_off + 80) (take 1024 em) (overlay (ERROR_off + 16) (take 64 et)
       (overlay ERROR_off eh d))"
  using assms unfolding write_error_def ebind_eq_Inr Let_def pack_into_Inr
  by (elim exE conjE) (rule that, assumption, assumption, simp only: error_header_def list.map, simp)

lemma ring_encode_Inr:
  assumes "ring_encode r = Inr data"
  obtains h ts ss os pr et em eh where
    "r_generation r \<noteq> 0" "r_submission_id r \<noteq> 0"
    "length (r_tensors r) \<le> 16" "length (r_scalars r) \<le> 16" "length (r_outputs r) \<le> 16"
    "length (r_profile r) = 8"
    "pack RECORD_HEADER_fmt (map VI (record_header r)) = Inr h"
    "emap enc_tensor (r_tensors r) = Inr ts" "emap enc_scalar (r_scalars r) = Inr ss"
    "emap enc_output (r_outputs r) = Inr os" "pack PROFILE_fmt (map VI (r_profile r)) = Inr pr"
    "utf8_encode (r_error_type r) = Inr et" "utf8_encode (r_error_message r) = Inr em"
    "pack ERROR_HEAD_fmt (map VI (error_header et em)) = Inr eh"
    "data = layout h (concat ts) (concat ss) (concat os) pr eh (take 64 et) (take 1024 em)"
proof -
  have counts: "r_generation r \<noteq> 0" "r_submission_id r \<noteq> 0"
    "length (r_tensors r) \<le> 16" "length (r_scalars r) \<le> 16" "length (r_outputs r) \<le> 16"
    using assms by (auto simp: ring_encode_def split: if_splits)
  obtain h where h: "pack RECORD_HEADER_fmt (map VI (record_header r)) = Inr h"
    using assms counts by (auto simp: ring_encode_def record_header_def err_simps pack_into_def)
  let ?d0 = "overlay 0 h (replicate RECORD_SIZE 0)"
  have lh: "length h = 52" using pack_length[OF h] by simp
  have e0: "ebind (write_each write_tensor 0 (r_tensors r) ?d0) (\<lambda>data.
      ebind (write_each write_scalar 0 (r_scalars r) data) (\<lambda>data.
      ebind (write_each write_output 0 (r_outputs r) data) (\<lambda>data.
      if length (r_profile r) \<noteq> 8 then Inl (ValueError ''Ring profile has invalid geometry'')
      else ebind (pack_into PROFILE_fmt data PROFILE_off (map VI (r_profile r))) (\<lambda>data.
      write_error r data)))) = Inr data"
    using assms counts h lh
    by (simp add: ring_encode_def record_header_def pack_into_def RECORD_SIZE_def)
  have c0: "clean TENSORS_off ?d0"
    using clean_after[OF clean_fresh, of 0 h 52] lh by (simp add: ring_consts)
  have "write_each write_tensor 0 (r_tensors r) ?d0
      = ebind (emap enc_tensor (r_tensors r)) (\<lambda>b. Inr (overlay TENSORS_off (concat b) ?d0))"
    using write_each_slots[OF write_tensor_slot enc_tensor_length, where i = 0 and xs = "r_tensors r" and data = ?d0] c0 counts
    by (simp add: ring_consts)
  then obtain ts where ts: "emap enc_tensor (r_tensors r) = Inr ts"
    and e1: "ebind (write_each write_scalar 0 (r_scalars r) (overlay TENSORS_off (concat ts) ?d0)) (\<lambda>data.
      ebind (write_each write_output 0 (r_outputs r) data) (\<lambda>data.
      if length (r_profile r) \<noteq> 8 then Inl (ValueError ''Ring profile has invalid geometry'')
      else ebind (pack_into PROFILE_fmt data PROFILE_off (map VI (r_profile r))) (\<lambda>data.
      write_error r data))) = Inr data"
    using e0 by (auto simp: ebind_eq_Inr)
  let ?d1 = "overlay TENSORS_off (concat ts) ?d0"
  have lt: "length (concat ts) \<le> 4992"
    using emap_slots_bound[OF ts enc_tensor_length counts(3)] by (simp add: ring_consts)
  have c1: "clean SCALARS_off ?d1"
    using clean_after[OF c0 _ lt] by (simp add: ring_consts)
  have "write_each write_scalar 0 (r_scalars r) ?d1
      = ebind (emap enc_scalar (r_scalars r)) (\<lambda>b. Inr (overlay SCALARS_off (concat b) ?d1))"
    using write_each_slots[OF write_scalar_slot enc_scalar_length, where i = 0 and xs = "r_scalars r" and data = ?d1] c1 counts
    by (simp add: ring_consts)
  then obtain ss where ss: "emap enc_scalar (r_scalars r) = Inr ss"
    and e2: "ebind (write_each write_output 0 (r_outputs r) (overlay SCALARS_off (concat ss) ?d1)) (\<lambda>data.
      if length (r_profile r) \<noteq> 8 then Inl (ValueError ''Ring profile has invalid geometry'')
      else ebind (pack_into PROFILE_fmt data PROFILE_off (map VI (r_profile r))) (\<lambda>data.
      write_error r data)) = Inr data"
    using e1 by (auto simp: ebind_eq_Inr)
  let ?d2 = "overlay SCALARS_off (concat ss) ?d1"
  have ls: "length (concat ss) \<le> 4480"
    using emap_slots_bound[OF ss enc_scalar_length counts(4)] by (simp add: ring_consts)
  have c2: "clean OUTPUTS_off ?d2"
    using clean_after[OF c1 _ ls] by (simp add: ring_consts)
  have "write_each write_output 0 (r_outputs r) ?d2
      = ebind (emap enc_output (r_outputs r)) (\<lambda>b. Inr (overlay OUTPUTS_off (concat b) ?d2))"
    using write_each_slots[OF write_output_slot enc_output_length, where i = 0 and xs = "r_outputs r" and data = ?d2] c2 counts
    by (simp add: ring_consts)
  then obtain os where os: "emap enc_output (r_outputs r) = Inr os"
    and e3: "(if length (r_profile r) \<noteq> 8 then Inl (ValueError ''Ring profile has invalid geometry'')
      else ebind (pack_into PROFILE_fmt (overlay OUTPUTS_off (concat os) ?d2) PROFILE_off
        (map VI (r_profile r))) (\<lambda>data. write_error r data)) = Inr data"
    using e2 by (auto simp: ebind_eq_Inr)
  let ?d3 = "overlay OUTPUTS_off (concat os) ?d2"
  have lo: "length (concat os) \<le> 2304"
    using emap_slots_bound[OF os enc_output_length counts(5)] by (simp add: ring_consts)
  have c3: "clean PROFILE_off ?d3"
    using clean_after[OF c2 _ lo] by (simp add: ring_consts)
  obtain pr where pr: "length (r_profile r) = 8" "pack PROFILE_fmt (map VI (r_profile r)) = Inr pr"
    and e4: "write_error r (overlay PROFILE_off pr ?d3) = Inr data"
    using e3 by (auto simp: pack_into_def err_simps split: if_splits)
  let ?d4 = "overlay PROFILE_off pr ?d3"
  have "length pr = 64" using pack_length[OF pr(2)] by simp
  then have c4: "clean ERROR_off ?d4"
    using clean_after[OF c3, of PROFILE_off pr 64] by (simp add: ring_consts)
  obtain et em eh where "utf8_encode (r_error_type r) = Inr et" "utf8_encode (r_error_message r) = Inr em"
    "pack ERROR_HEAD_fmt (map VI (error_header et em)) = Inr eh"
    "data = overlay (ERROR_off + 80) (take 1024 em) (overlay (ERROR_off + 16) (take 64 et)
       (overlay ERROR_off eh ?d4))"
    using e4 by (rule write_error_Inr)
  with counts h ts ss os pr show thesis
    by (intro that) (simp_all add: layout_def)
qed

lemma take_short: "length xs \<le> n \<Longrightarrow> take n xs = xs"
  by simp

text \<open>A record loses nothing when its scalars are canonical and its error text fits.\<close>

definition canonical_record :: "Record \<Rightarrow> bool" where
  "canonical_record r \<longleftrightarrow> list_all canonical_scalar (r_scalars r) \<and>
     (\<forall>et. utf8_encode (r_error_type r) = Inr et \<longrightarrow> length et \<le> 64) \<and>
     (\<forall>em. utf8_encode (r_error_message r) = Inr em \<longrightarrow> length em \<le> 1024)"

theorem ring_decode_encode:
  assumes enc: "ring_encode r = Inr data" and can: "canonical_record r"
  shows "ring_decode data (r_generation r) = Inr r"
proof -
  from enc obtain h ts ss os pr et em eh where c: "r_generation r \<noteq> 0" "r_submission_id r \<noteq> 0"
    "length (r_tensors r) \<le> 16" "length (r_scalars r) \<le> 16" "length (r_outputs r) \<le> 16"
    "length (r_profile r) = 8"
    and h: "pack RECORD_HEADER_fmt (map VI (record_header r)) = Inr h"
    and ts: "emap enc_tensor (r_tensors r) = Inr ts" and ss: "emap enc_scalar (r_scalars r) = Inr ss"
    and os: "emap enc_output (r_outputs r) = Inr os"
    and pr: "pack PROFILE_fmt (map VI (r_profile r)) = Inr pr"
    and et: "utf8_encode (r_error_type r) = Inr et" and em: "utf8_encode (r_error_message r) = Inr em"
    and eh: "pack ERROR_HEAD_fmt (map VI (error_header et em)) = Inr eh"
    and data: "data = layout h (concat ts) (concat ss) (concat os) pr eh (take 64 et) (take 1024 em)"
    by (rule ring_encode_Inr)
  have short: "length et \<le> 64" "length em \<le> 1024" "list_all canonical_scalar (r_scalars r)"
    using can et em by (auto simp: canonical_record_def)
  have ss': "emap enc_canonical (r_scalars r) = Inr ss"
    using ss short(3) by (subst emap_cong[OF refl, of _ _ enc_scalar])
      (auto simp: enc_canonical_def list_all_iff)
  have lens: "length (concat ts) = length (r_tensors r) * TENSOR_SIZE"
    "length (concat ss) = length (r_scalars r) * SCALAR_SIZE"
    "length (concat os) = length (r_outputs r) * OUTPUT_SIZE"
    using tensor_slot.slots_length[OF ts] scalar_slot.slots_length[OF ss'] output_slot.slots_length[OF os]
    by simp_all
  have heads: "length h = 52" "length pr = 64" "length eh = 16"
    using pack_length[OF h] pack_length[OF pr] pack_length[OF eh] by simp_all
  have data': "data = layout h (concat ts) (concat ss) (concat os) pr eh et em"
    using data short by simp
  note L = layout_regions[of h "concat ts" "concat ss" "concat os" pr eh et em, folded data']
  have R: "length data = RECORD_SIZE" "region 0 52 data = h" "all_zero (region 52 76 data)"
    "region TENSORS_off (length (concat ts)) data = concat ts"
    "region SCALARS_off (length (concat ss)) data = concat ss"
    "region OUTPUTS_off (length (concat os)) data = concat os" "region PROFILE_off 64 data = pr"
    "region ERROR_off 16 data = eh" "region (ERROR_off + 16) (length et) data = et"
    "all_zero (region (ERROR_off + 16 + length et) (64 - length et) data)"
    "region (ERROR_off + 80) (length em) data = em"
    "all_zero (region (ERROR_off + 80 + length em) (TAIL_off - (ERROR_off + 80 + length em)) data)"
    "all_zero (drop TAIL_off data)"
    using c lens heads short by (intro L; simp add: ring_consts)+
  have u0: "unpack_from RECORD_HEADER_fmt data 0 = Inr (map VI (record_header r))"
    using R(1,2) by (intro head_unpack[OF h])
      (simp_all add: RECORD_HEADER_fmt_def record_header_def ring_consts)
  have tensors: "emap (\<lambda>i. read_tensor data (TENSORS_off + i * TENSOR_SIZE)) [0..<length (r_tensors r)]
      = Inr (r_tensors r)"
    using R(1,4) c(3) lens by (intro tensor_slot.slots_decode[OF ts]) (simp_all add: ring_consts)
  have scalars: "emap (\<lambda>i. read_scalar data (SCALARS_off + i * SCALAR_SIZE)) [0..<length (r_scalars r)]
      = Inr (r_scalars r)"
    using R(1,5) c(4) lens by (intro scalar_slot.slots_decode[OF ss']) (simp_all add: ring_consts)
  have outputs: "emap (\<lambda>i. read_output data (OUTPUTS_off + i * OUTPUT_SIZE)) [0..<length (r_outputs r)]
      = Inr (r_outputs r)"
    using R(1,6) c(5) lens by (intro output_slot.slots_decode[OF os]) (simp_all add: ring_consts)
  have profile: "unpack_from PROFILE_fmt data PROFILE_off = Inr (map VI (r_profile r))"
    using R(1,7) c(6) by (intro head_unpack[OF pr]) (simp_all add: PROFILE_fmt_def ring_consts)
  have "unpack_from ERROR_HEAD_fmt data ERROR_off = Inr (map VI (error_header et em))"
    using R(1,8) by (intro head_unpack[OF eh])
      (simp_all add: ERROR_HEAD_fmt_def error_header_def ring_consts)
  then have error: "read_error data = Inr (et, em)"
    using short R(9-12) by (simp add: read_error_def error_header_def Let_def)
  show ?thesis
    unfolding ring_decode_def u0
    using R(1,3,13) c(1-5) tensors scalars outputs profile error
      utf8_decode_encode[OF et] utf8_decode_encode[OF em]
    by (simp add: record_header_def Let_def comp_def)
qed

end
