(* ===== verification/Sdk_Ring.thy ===== *)
theory Sdk_Ring
  imports Ring_Laws
begin

unbundle bit_operations_syntax

text \<open>
  The SDK's copy of the ring record codec, \<open>encode\<close> and \<open>decode\<close> of
  \<open>packages/wmfs-plugin/wmfs_plugin/ring.py\<close>, translated on its own, and the proof that it
  is the same codec: a worker on the SDK and the runtime read each other's records.
\<close>

definition sdk_write_tensor :: "nat \<Rightarrow> Tensor \<Rightarrow> bytes \<Rightarrow> bytes result" where
  "sdk_write_tensor index item data =
     (if \<not> (0 < length (t_shape item) \<and> length (t_shape item) \<le> 16)
         \<or> length (t_shape item) \<noteq> length (t_strides item)
      then Inl (ValueError ''Tensor rank is invalid'')
      else
      ebind (or_raise (map_of DTYPE_TO_ID (t_dtype item)) (ValueError ''Unsupported ring dtype'')) (\<lambda>dtype.
      let off = TENSORS_off + index * TENSOR_SIZE in
      ebind (pack_into TENSOR_HEAD_fmt data off
        [VI (t_buffer_id item), VI (t_generation item), VI (t_allocation_id item),
         VI (t_offset item), VI (t_byte_length item), VI dtype, VI (int (length (t_shape item))),
         VI (t_kind item), VI (if t_writable item then TENSOR_WRITABLE else 0),
         VI (t_parameter item), VI 0]) (\<lambda>data.
      ebind (pack_into DIMS_fmt data (off + 56) (dims16 (t_shape item))) (\<lambda>data.
      pack_into DIMS_fmt data (off + 184) (dims16 (t_strides item))))))"

definition sdk_scalar_payload :: "Scalar \<Rightarrow> (int \<times> bytes) result" where
  "sdk_scalar_payload item =
     (if s_kind item = ''boolean'' then Inr (if py_bool (s_value item) then 1 else 0, [])
      else if s_kind item = ''float64'' then ebind (float_bits (s_value item)) (\<lambda>b. Inr (b, []))
      else if s_kind item = ''int64''
      then ebind (py_int (s_value item)) (\<lambda>i. Inr (i AND (2 ^ 64 - 1), []))
      else ebind (py_str (s_value item)) (\<lambda>s. ebind (utf8_encode s) (\<lambda>text.
        if length text > 256 then Inl (ValueError ''Scalar text exceeds ring ABI bound'')
        else Inr (0, text))))"

definition sdk_write_scalar :: "nat \<Rightarrow> Scalar \<Rightarrow> bytes \<Rightarrow> bytes result" where
  "sdk_write_scalar index item data =
     (let off = SCALARS_off + index * SCALAR_SIZE in
      ebind (or_raise (map_of SCALAR_TO_ID (s_kind item)) (ValueError ''Unsupported scalar kind'')) (\<lambda>knd.
      ebind (sdk_scalar_payload item) (\<lambda>(bits, text).
      ebind (pack_into SCALAR_HEAD_fmt data off
        [VI (s_parameter item), VI knd, VI 0, VI bits, VI (int (length text)), VI 0]) (\<lambda>data.
      Inr (overlay (off + 24) text data)))))"

definition sdk_write_output :: "nat \<Rightarrow> PlannedOutput \<Rightarrow> bytes \<Rightarrow> bytes result" where
  "sdk_write_output index item data =
     (if \<not> (0 < length (o_shape item) \<and> length (o_shape item) \<le> 16)
      then Inl (ValueError ''Planned output rank is invalid'')
      else let off = OUTPUTS_off + index * OUTPUT_SIZE in
      ebind (or_raise (map_of DTYPE_TO_ID (o_dtype item)) (KeyError ''dtype'')) (\<lambda>dtype.
      ebind (pack_into OUTPUT_HEAD_fmt data off
        [VI dtype, VI 0, VI (int (length (o_shape item))), VI (o_output item), VI 0]) (\<lambda>data.
      pack_into DIMS_fmt data (off + 16) (dims16 (o_shape item)))))"

definition sdk_write_error :: "Record \<Rightarrow> bytes \<Rightarrow> bytes result" where
  "sdk_write_error r data =
     ebind (utf8_encode (r_error_type r)) (\<lambda>type_bytes.
     let error_type = take 64 type_bytes in
     ebind (utf8_encode (r_error_message r)) (\<lambda>message_bytes.
     let error_message = take 1024 message_bytes;
         error_flags = (if length type_bytes > 64 then 1 else 0) OR
                       (if length message_bytes > 1024 then 2 else 0) in
     ebind (pack_into ERROR_HEAD_fmt data ERROR_off
       [VI (int (length error_type)), VI (int (length error_message)), VI error_flags, VI 0]) (\<lambda>data.
     Inr (overlay (ERROR_off + 80) error_message
            (overlay (ERROR_off + 16) error_type data)))))"

definition sdk_ring_encode :: "Record \<Rightarrow> bytes result" where
  "sdk_ring_encode r =
     (if r_generation r = 0 \<or> r_submission_id r = 0
      then Inl (ValueError ''Ring generation and submission ID must be nonzero'')
      else if length (r_tensors r) > 16 \<or> length (r_scalars r) > 16 \<or> length (r_outputs r) > 16
      then Inl (ValueError ''Ring descriptor count exceeds ABI bound'')
      else
      ebind (pack_into RECORD_HEADER_fmt (replicate RECORD_SIZE 0) 0
        [VI (r_kind r), VI (r_flags r), VI (r_generation r), VI (r_submission_id r),
         VI (r_invocation_id r), VI (r_operation_id r), VI (r_status r),
         VI (int (length (r_tensors r))), VI (int (length (r_scalars r))),
         VI (int (length (r_outputs r))), VI 0, VI 0]) (\<lambda>data.
      ebind (write_each sdk_write_tensor 0 (r_tensors r) data) (\<lambda>data.
      ebind (write_each sdk_write_scalar 0 (r_scalars r) data) (\<lambda>data.
      ebind (write_each sdk_write_output 0 (r_outputs r) data) (\<lambda>data.
      if length (r_profile r) \<noteq> 8 then Inl (ValueError ''Ring profile has invalid geometry'')
      else
      ebind (pack_into PROFILE_fmt data PROFILE_off (map VI (r_profile r))) (\<lambda>data.
      sdk_write_error r data))))))"

definition sdk_read_tensor :: "bytes \<Rightarrow> nat \<Rightarrow> Tensor result" where
  "sdk_read_tensor data off =
     ebind (unpack_from TENSOR_HEAD_fmt data off) (\<lambda>v.
     let rank = nat (vint (v ! 6)) in
     if vint (v ! 10) \<noteq> 0 \<or> rank = 0 \<or> rank > 16 \<or> vint (v ! 8) AND NOT TENSOR_WRITABLE \<noteq> 0
     then Inl (RingError ''invalid tensor descriptor'')
     else
     ebind (unpack_from DIMS_fmt data (off + 56)) (\<lambda>shape16.
     ebind (unpack_from DIMS_fmt data (off + 184)) (\<lambda>strides16.
     let shape = map vint shape16; strides = map vint strides16 in
     if any_nonzero (drop rank shape) \<or> any_nonzero (drop rank strides)
     then Inl (RingError ''nonzero tensor rank padding'')
     else
     ebind (or_raise (map_of ID_TO_DTYPE (vint (v ! 5))) (RingError ''invalid tensor dtype'')) (\<lambda>dtype.
     Inr \<lparr>t_buffer_id = vint (v ! 0), t_generation = vint (v ! 1), t_allocation_id = vint (v ! 2),
          t_offset = vint (v ! 3), t_byte_length = vint (v ! 4), t_dtype = dtype,
          t_shape = take rank shape, t_strides = take rank strides, t_kind = vint (v ! 7),
          t_parameter = vint (v ! 9), t_writable = (vint (v ! 8) \<noteq> 0)\<rparr>))))"

definition sdk_read_scalar :: "bytes \<Rightarrow> nat \<Rightarrow> Scalar result" where
  "sdk_read_scalar data off =
     ebind (unpack_from SCALAR_HEAD_fmt data off) (\<lambda>v.
     let bits = vint (v ! 3); text_length = nat (vint (v ! 4)) in
     if vint (v ! 2) \<noteq> 0 \<or> vint (v ! 5) \<noteq> 0 \<or> text_length > 256
     then Inl (RingError ''invalid scalar descriptor'')
     else
     ebind (or_raise (map_of ID_TO_SCALAR (vint (v ! 1))) (RingError ''invalid scalar kind'')) (\<lambda>knd.
     let text_area = region (off + 24) 256 data in
     if \<not> all_zero (drop text_length text_area)
     then Inl (RingError ''nonzero scalar text padding'')
     else
     ebind (if knd = ''boolean''
            then if bits > 1 \<or> text_length \<noteq> 0 then Inl (RingError ''invalid boolean scalar'')
                 else Inr (SBool (bits \<noteq> 0))
            else if knd = ''float64'' then Inr (SFloat (word_of_int bits))
            else if knd = ''int64'' then Inr (SInt (signed64 bits))
            else ebind (utf8_decode (take text_length text_area)) (\<lambda>s. Inr (SText s))) (\<lambda>value.
     Inr \<lparr>s_parameter = vint (v ! 0), s_kind = knd, s_value = value\<rparr>)))"

definition sdk_read_output :: "bytes \<Rightarrow> nat \<Rightarrow> PlannedOutput result" where
  "sdk_read_output data off =
     ebind (unpack_from OUTPUT_HEAD_fmt data off) (\<lambda>v.
     ebind (unpack_from DIMS_fmt data (off + 16)) (\<lambda>shape16.
     let rank = nat (vint (v ! 2)); shape = map vint shape16 in
     if vint (v ! 1) \<noteq> 0 \<or> vint (v ! 4) \<noteq> 0 \<or> \<not> (0 < rank \<and> rank \<le> 16)
        \<or> any_nonzero (drop rank shape)
     then Inl (RingError ''invalid planned output descriptor'')
     else
     ebind (or_raise (map_of ID_TO_DTYPE (vint (v ! 0))) (RingError ''invalid planned output dtype''))
       (\<lambda>dtype. Inr \<lparr>o_output = vint (v ! 3), o_shape = take rank shape, o_dtype = dtype\<rparr>)))"

definition sdk_read_error :: "bytes \<Rightarrow> (bytes \<times> bytes) result" where
  "sdk_read_error data =
     ebind (unpack_from ERROR_HEAD_fmt data ERROR_off) (\<lambda>v.
     let type_length = nat (vint (v ! 0)); message_length = nat (vint (v ! 1)) in
     if vint (v ! 3) \<noteq> 0 \<or> vint (v ! 2) AND NOT 3 \<noteq> 0 \<or> type_length > 64 \<or> message_length > 1024
     then Inl (RingError ''invalid ring error descriptor'')
     else if \<not> all_zero (region (ERROR_off + 16 + type_length) (64 - type_length) data)
        \<or> \<not> all_zero (region (ERROR_off + 80 + message_length)
                             (TAIL_off - (ERROR_off + 80 + message_length)) data)
     then Inl (RingError ''nonzero ring error padding'')
     else Inr (region (ERROR_off + 16) type_length data, region (ERROR_off + 80) message_length data))"

definition sdk_ring_decode :: "bytes \<Rightarrow> int \<Rightarrow> Record result" where
  "sdk_ring_decode data generation =
     (if length data \<noteq> RECORD_SIZE then Inl (RingError ''invalid ring record size'')
      else
      ebind (unpack_from RECORD_HEADER_fmt data 0) (\<lambda>v.
      if vint (v ! 2) \<noteq> generation \<or> vint (v ! 3) = 0
      then Inl (RingError ''invalid ring record identity'')
      else if vint (v ! 10) \<noteq> 0 \<or> vint (v ! 11) \<noteq> 0 \<or> \<not> all_zero (region 52 76 data)
         \<or> \<not> all_zero (drop TAIL_off data)
      then Inl (RingError ''nonzero reserved ring record bytes'')
      else let tensor_count = nat (vint (v ! 7)); scalar_count = nat (vint (v ! 8));
               output_count = nat (vint (v ! 9)) in
      if tensor_count > 16 \<or> scalar_count > 16 \<or> output_count > 16
      then Inl (RingError ''ring descriptor count exceeds ABI bound'')
      else
      ebind (emap (\<lambda>i. sdk_read_tensor data (TENSORS_off + i * TENSOR_SIZE)) [0..<tensor_count]) (\<lambda>tensors.
      ebind (emap (\<lambda>i. sdk_read_scalar data (SCALARS_off + i * SCALAR_SIZE)) [0..<scalar_count]) (\<lambda>scalars.
      ebind (emap (\<lambda>i. sdk_read_output data (OUTPUTS_off + i * OUTPUT_SIZE)) [0..<output_count]) (\<lambda>outputs.
      ebind (sdk_read_error data) (\<lambda>(type_bytes, message_bytes).
      ebind (unpack_from PROFILE_fmt data PROFILE_off) (\<lambda>profile.
      ebind (utf8_decode type_bytes) (\<lambda>error_type.
      ebind (utf8_decode message_bytes) (\<lambda>error_message.
      Inr \<lparr>r_kind = vint (v ! 0), r_generation = generation, r_submission_id = vint (v ! 3),
           r_invocation_id = vint (v ! 4), r_operation_id = vint (v ! 5), r_status = vint (v ! 6),
           r_flags = vint (v ! 1), r_tensors = tensors, r_scalars = scalars, r_outputs = outputs,
           r_profile = map vint profile, r_error_type = error_type,
           r_error_message = error_message\<rparr>)))))))))"

section \<open>The same codec\<close>

lemma sdk_write_tensor_eq: "sdk_write_tensor = write_tensor"
  by (intro ext) (simp add: sdk_write_tensor_def write_tensor_def )

lemma sdk_scalar_payload_eq: "sdk_scalar_payload = scalar_payload"
  by (intro ext) (simp add: sdk_scalar_payload_def scalar_payload_def )

lemma sdk_write_scalar_eq: "sdk_write_scalar = write_scalar"
  by (intro ext) (simp add: sdk_write_scalar_def write_scalar_def sdk_scalar_payload_eq)

lemma sdk_write_output_eq: "sdk_write_output = write_output"
  by (intro ext) (simp add: sdk_write_output_def write_output_def )

lemma sdk_write_error_eq: "sdk_write_error = write_error"
  by (intro ext) (simp add: sdk_write_error_def write_error_def Let_def)

lemma sdk_read_tensor_eq: "sdk_read_tensor = read_tensor"
  by (intro ext) (simp add: sdk_read_tensor_def read_tensor_def )

lemma sdk_read_scalar_eq: "sdk_read_scalar = read_scalar"
  by (intro ext) (simp add: sdk_read_scalar_def read_scalar_def )

lemma sdk_read_output_eq: "sdk_read_output = read_output"
  by (intro ext) (simp add: sdk_read_output_def read_output_def )

lemma sdk_read_error_eq: "sdk_read_error = read_error"
  by (intro ext) (simp add: sdk_read_error_def read_error_def )

theorem sdk_ring_encode_eq: "sdk_ring_encode = ring_encode"
  unfolding fun_eq_iff sdk_ring_encode_def ring_encode_def sdk_write_tensor_eq
    sdk_write_scalar_eq sdk_write_output_eq sdk_write_error_eq by (intro allI) (rule refl)

theorem sdk_ring_decode_eq: "sdk_ring_decode = ring_decode"
  unfolding fun_eq_iff sdk_ring_decode_def ring_decode_def sdk_read_tensor_eq
    sdk_read_scalar_eq sdk_read_output_eq sdk_read_error_eq by (intro allI) (rule refl)

end
