(* ===== verification/State_Result.thy ===== *)
theory State_Result
  imports Prelude
begin

text \<open>
  The state and exception monad of the components that change state: a method of the source
  is a function from the state to the result and the new state. A raise keeps the state
  reached, as in Python. \<open>on_error\<close> is \<open>try: .. except BaseException: handler; raise\<close>. The
  predicates \<open>keeps\<close> and \<open>keeps_on\<close> state that a method keeps an invariant; their rules
  (collection \<open>keeps_rules\<close>) follow the structure of the code.
\<close>

named_theorems keeps_rules \<open>preservation of an invariant, by the structure of the code\<close>
named_theorems st_simps \<open>evaluation rules of the state and exception monad\<close>

type_synonym ('s, 'a) st = "'s \<Rightarrow> 'a result \<times> 's"

definition sret :: "'a \<Rightarrow> ('s, 'a) st" where
  "sret x = (\<lambda>s. (Inr x, s))"

definition sraise :: "pyerr \<Rightarrow> ('s, 'a) st" where
  "sraise e = (\<lambda>s. (Inl e, s))"

definition sbind :: "('s, 'a) st \<Rightarrow> ('a \<Rightarrow> ('s, 'b) st) \<Rightarrow> ('s, 'b) st" where
  "sbind m f = (\<lambda>s. case m s of (Inl e, s') \<Rightarrow> (Inl e, s') | (Inr x, s') \<Rightarrow> f x s')"

definition sget :: "('s, 's) st" where
  "sget = (\<lambda>s. (Inr s, s))"

definition smod :: "('s \<Rightarrow> 's) \<Rightarrow> ('s, unit) st" where
  "smod f = (\<lambda>s. (Inr (), f s))"

text \<open>A computation that reads no state, used inside a method.\<close>

definition slift :: "'a result \<Rightarrow> ('s, 'a) st" where
  "slift r = (\<lambda>s. (r, s))"

definition sreject :: "bool \<Rightarrow> pyerr \<Rightarrow> ('s, unit) st" where
  "sreject c e = (if c then sraise e else sret ())"

definition on_error :: "('s, 'a) st \<Rightarrow> ('s \<Rightarrow> 's) \<Rightarrow> ('s, 'a) st" where
  "on_error m h = (\<lambda>s. case m s of (Inl e, s') \<Rightarrow> (Inl e, h s') | (Inr x, s') \<Rightarrow> (Inr x, s'))"

fun sall :: "('a \<Rightarrow> ('s, unit) st) \<Rightarrow> 'a list \<Rightarrow> ('s, unit) st" where
  "sall f [] = sret ()"
| "sall f (x # xs) = sbind (f x) (\<lambda>_. sall f xs)"

fun smap :: "('a \<Rightarrow> ('s, 'b) st) \<Rightarrow> 'a list \<Rightarrow> ('s, 'b list) st" where
  "smap f [] = sret []"
| "smap f (x # xs) = sbind (f x) (\<lambda>y. sbind (smap f xs) (\<lambda>ys. sret (y # ys)))"

lemma sret_run [st_simps]: "sret x s = (Inr x, s)" by (simp add: sret_def)
lemma sraise_run [st_simps]: "sraise e s = (Inl e, s)" by (simp add: sraise_def)
lemma sget_run [st_simps]: "sget s = (Inr s, s)" by (simp add: sget_def)
lemma smod_run [st_simps]: "smod f s = (Inr (), f s)" by (simp add: smod_def)
lemma slift_run [st_simps]: "slift r s = (r, s)" by (simp add: slift_def)
lemma sreject_run [st_simps]: "sreject c e s = (if c then Inl e else Inr (), s)"
  by (simp add: sreject_def st_simps)

lemma if_run [st_simps]: "(if c then m else n) s = (if c then m s else n s)"
  by simp

lemma sbind_run:
  "sbind m f s = (case m s of (Inl e, s') \<Rightarrow> (Inl e, s') | (Inr x, s') \<Rightarrow> f x s')"
  by (simp add: sbind_def)

lemma on_error_run:
  "on_error m h s = (case m s of (Inl e, s') \<Rightarrow> (Inl e, h s') | (Inr x, s') \<Rightarrow> (Inr x, s'))"
  by (simp add: on_error_def)

lemma sbind_cong [fundef_cong]:
  "m = m' \<Longrightarrow> (\<And>x. f x = f' x) \<Longrightarrow> sbind m f = sbind m' f'"
  by (simp add: sbind_def fun_eq_iff split: sum.split prod.split)

lemmas st_run = st_simps sbind_run on_error_run

text \<open>Inversion: how a sequence succeeds or fails.\<close>

lemma sbind_Inr:
  "sbind m f s = (Inr y, s'') \<longleftrightarrow> (\<exists>x s'. m s = (Inr x, s') \<and> f x s' = (Inr y, s''))"
  by (auto simp: sbind_def split: sum.splits prod.splits)

lemma sbind_Inl:
  "sbind m f s = (Inl e, s'') \<longleftrightarrow>
   m s = (Inl e, s'') \<or> (\<exists>x s'. m s = (Inr x, s') \<and> f x s' = (Inl e, s''))"
  by (auto simp: sbind_def split: sum.splits prod.splits)

lemma on_error_Inr: "on_error m h s = (Inr y, s') \<longleftrightarrow> m s = (Inr y, s')"
  by (auto simp: on_error_def split: sum.splits prod.splits)

lemma on_error_Inl: "on_error m h s = (Inl e, s'') \<longleftrightarrow> (\<exists>s'. m s = (Inl e, s') \<and> s'' = h s')"
  by (auto simp: on_error_def split: sum.splits prod.splits)

lemmas st_inv = sbind_Inr sbind_Inl on_error_Inr on_error_Inl st_simps

lemma sbind_assoc: "sbind (sbind m f) g = sbind m (\<lambda>x. sbind (f x) g)"
  by (auto simp: fun_eq_iff sbind_def split: sum.splits prod.splits)

section \<open>Preservation of an invariant\<close>

definition keeps :: "('s \<Rightarrow> bool) \<Rightarrow> ('s, 'a) st \<Rightarrow> bool" where
  "keeps P m \<longleftrightarrow> (\<forall>s. P s \<longrightarrow> P (snd (m s)))"

lemma keepsD: "keeps P m \<Longrightarrow> P s \<Longrightarrow> m s = (r, s') \<Longrightarrow> P s'"
  unfolding keeps_def by (metis snd_conv)

lemma keepsI: "(\<And>s r s'. P s \<Longrightarrow> m s = (r, s') \<Longrightarrow> P s') \<Longrightarrow> keeps P m"
  unfolding keeps_def by (metis surjective_pairing)

lemma keeps_sret [keeps_rules]: "keeps P (sret x)"
  and keeps_sraise [keeps_rules]: "keeps P (sraise e)"
  and keeps_sget [keeps_rules]: "keeps P sget"
  and keeps_slift [keeps_rules]: "keeps P (slift r)"
  and keeps_sreject [keeps_rules]: "keeps P (sreject c e)"
  by (auto simp: keeps_def st_simps split: if_splits)

lemma keeps_smod [keeps_rules]: "(\<And>s. P s \<Longrightarrow> P (f s)) \<Longrightarrow> keeps P (smod f)"
  by (auto simp: keeps_def st_simps split: if_splits)

lemma keeps_sbind [keeps_rules]: "keeps P m \<Longrightarrow> (\<And>x. keeps P (f x)) \<Longrightarrow> keeps P (sbind m f)"
  unfolding keeps_def sbind_def
  by (auto split: sum.splits prod.splits)

lemma keeps_on_error [keeps_rules]:
  "keeps P m \<Longrightarrow> (\<And>s. P s \<Longrightarrow> P (h s)) \<Longrightarrow> keeps P (on_error m h)"
  unfolding keeps_def on_error_def
  by (auto split: sum.splits prod.splits)

lemma keeps_if [keeps_rules]: "(c \<Longrightarrow> keeps P m) \<Longrightarrow> (\<not> c \<Longrightarrow> keeps P n) \<Longrightarrow> keeps P (if c then m else n)"
  by simp

lemma keeps_option [keeps_rules]:
  "(x = None \<Longrightarrow> keeps P m) \<Longrightarrow> (\<And>y. x = Some y \<Longrightarrow> keeps P (f y)) \<Longrightarrow>
   keeps P (case x of None \<Rightarrow> m | Some y \<Rightarrow> f y)"
  by (cases x) auto

lemma keeps_sall [keeps_rules]: "(\<And>x. x \<in> set xs \<Longrightarrow> keeps P (f x)) \<Longrightarrow> keeps P (sall f xs)"
  by (induction xs) (auto intro!: keeps_rules)

lemma keeps_smap [keeps_rules]: "(\<And>x. x \<in> set xs \<Longrightarrow> keeps P (f x)) \<Longrightarrow> keeps P (smap f xs)"
  by (induction xs) (auto intro!: keeps_rules)

end
