(* ===== verification/Ring_Channel.thy ===== *)
theory Ring_Channel
  imports Sdk_Ring State_Result
begin

unbundle bit_operations_syntax

text \<open>
  The shared ring itself, \<open>RingOwner\<close> and \<open>RingEndpoint\<close> of
  \<open>packages/wmfs/wmfs/transport/ring.py\<close> (the SDK's copy is the same code): a shared mapping
  with a 4096-byte header and \<open>capacity\<close> record slots, a producer counter at offset 64, a
  consumer counter at 128, a flag word at 28 and two event counters. The mapping is the
  byte string the code maps; the atomic loads and stores are reads and writes of its
  regions. A blocked \<open>poll\<close> hands control to the peer: what happens to the shared memory
  while a method waits is an argument, one environment step for each wait.
\<close>

definition RING_MAGIC :: int where "RING_MAGIC = 0x31474E5253464D57"
definition RING_ABI_MAJOR :: int where "RING_ABI_MAJOR = 1"
definition RING_ABI_MINOR :: int where "RING_ABI_MINOR = 1"
definition HEADER_SIZE :: nat where "HEADER_SIZE = 4096"

lemmas channel_consts = RING_MAGIC_def RING_ABI_MAJOR_def RING_ABI_MINOR_def HEADER_SIZE_def

definition HEADER_fmt :: "fmt list" where "HEADER_fmt = [FQ, FI, FI, FI, FI, FI, FI, FQ]"

lemma calcsize_HEADER [simp]: "calcsize HEADER_fmt = 40"
  by (simp add: HEADER_fmt_def)

section \<open>The shared memory\<close>

record RingMem =
  mapping :: bytes
  data_event :: nat
  space_event :: nat

definition load_u64 :: "bytes \<Rightarrow> nat \<Rightarrow> int" where
  "load_u64 m off = le_decode (region off 8 m)"

definition store_u64 :: "bytes \<Rightarrow> nat \<Rightarrow> int \<Rightarrow> bytes" where
  "store_u64 m off v = overlay off (le_encode 8 v) m"

definition load_u32 :: "bytes \<Rightarrow> nat \<Rightarrow> int" where
  "load_u32 m off = le_decode (region off 4 m)"

definition fetch_or_u32 :: "bytes \<Rightarrow> nat \<Rightarrow> int \<Rightarrow> bytes" where
  "fetch_or_u32 m off v = overlay off (le_encode 4 (load_u32 m off OR v)) m"

datatype event = DATA | SPACE

definition event_write :: "event \<Rightarrow> RingMem \<Rightarrow> RingMem" where
  "event_write e m = (case e of DATA \<Rightarrow> m\<lparr>data_event := data_event m + 1\<rparr>
                              | SPACE \<Rightarrow> m\<lparr>space_event := space_event m + 1\<rparr>)"

text \<open>Reading a non-blocking event counter resets it; \<open>BlockingIOError\<close> is ignored.\<close>

definition event_read :: "event \<Rightarrow> RingMem \<Rightarrow> RingMem" where
  "event_read e m = (case e of DATA \<Rightarrow> m\<lparr>data_event := 0\<rparr> | SPACE \<Rightarrow> m\<lparr>space_event := 0\<rparr>)"

section \<open>The owner\<close>

text \<open>\<open>RingOwner.__init__\<close>: \<open>random\<close> is the number read from \<open>os.urandom(8)\<close>.\<close>

definition ring_owner :: "int \<Rightarrow> int option \<Rightarrow> int \<Rightarrow> (RingMem \<times> int) result" where
  "ring_owner capacity gen random =
     (if capacity \<le> 0 then Inl (ValueError ''Ring capacity must be nonzero'')
      else let generation = (case gen of Some g \<Rightarrow> g | None \<Rightarrow> if random = 0 then 1 else random) in
      if generation = 0 then Inl (ValueError ''Ring generation must be nonzero'')
      else
      ebind (pack_into HEADER_fmt (replicate (HEADER_SIZE + nat capacity * RECORD_SIZE) 0) 0
        [VI RING_MAGIC, VI RING_ABI_MAJOR, VI RING_ABI_MINOR, VI (int HEADER_SIZE),
         VI (int RECORD_SIZE), VI capacity, VI 1, VI generation]) (\<lambda>m.
      Inr (\<lparr>mapping = m, data_event = 0, space_event = 0\<rparr>, generation)))"

text \<open>Closing the owner and interrupting an endpoint: set the closed flag and wake both sides.\<close>

definition ring_close :: "RingMem \<Rightarrow> RingMem" where
  "ring_close m = event_write SPACE (event_write DATA (m\<lparr>mapping := fetch_or_u32 (mapping m) 28 2\<rparr>))"

section \<open>Endpoints\<close>

record Endpoint =
  ep_generation :: int
  ep_producer :: bool
  ep_capacity :: nat
  ep_interrupted :: bool
  ep_closed :: bool

text \<open>
  \<open>RingEndpoint.__init__\<close>. A bad header closes the endpoint before it raises, and closing
  interrupts: the shared flag is set and the peer is woken.
\<close>

definition open_endpoint :: "int \<Rightarrow> bool \<Rightarrow> (RingMem, Endpoint) st" where
  "open_endpoint generation producer =
     sbind sget (\<lambda>m.
     let size = length (mapping m) in
     sbind (slift (unpack_from HEADER_fmt (mapping m) 0)) (\<lambda>header.
     if map vint (take 5 header) \<noteq> [RING_MAGIC, RING_ABI_MAJOR, RING_ABI_MINOR, int HEADER_SIZE, int RECORD_SIZE]
        \<or> vint (header ! 7) \<noteq> generation \<or> vint (header ! 5) = 0
        \<or> int size \<noteq> int HEADER_SIZE + vint (header ! 5) * int RECORD_SIZE
        \<or> vint (header ! 6) \<noteq> 1
     then sbind (smod ring_close) (\<lambda>_. sraise (RingError ''invalid ring header''))
     else if \<not> all_zero (region 40 24 (mapping m)) \<or> \<not> all_zero (region 72 56 (mapping m))
        \<or> \<not> all_zero (region 136 (HEADER_SIZE - 136) (mapping m))
     then sbind (smod ring_close) (\<lambda>_. sraise (RingError ''nonzero reserved ring header bytes''))
     else sret \<lparr>ep_generation = generation, ep_producer = producer,
                ep_capacity = nat (vint (header ! 5)), ep_interrupted = False, ep_closed = False\<rparr>))"

text \<open>\<open>interrupt\<close> and \<open>close\<close> act once; \<open>close\<close> also unmaps.\<close>

definition interrupt :: "Endpoint \<Rightarrow> RingMem \<Rightarrow> Endpoint \<times> RingMem" where
  "interrupt ep m = (if ep_interrupted ep then (ep, m)
                     else (ep\<lparr>ep_interrupted := True\<rparr>, ring_close m))"

definition close_endpoint :: "Endpoint \<Rightarrow> RingMem \<Rightarrow> Endpoint \<times> RingMem" where
  "close_endpoint ep m =
     (if ep_closed ep then (ep, m)
      else let (ep', m') = interrupt ep m in (ep'\<lparr>ep_closed := True\<rparr>, m'))"

definition slot_off :: "nat \<Rightarrow> int \<Rightarrow> nat" where
  "slot_off cap counter = HEADER_SIZE + nat (counter mod int cap) * RECORD_SIZE"

definition counters :: "Endpoint \<Rightarrow> (RingMem, int \<times> int) st" where
  "counters ep =
     (if ep_closed ep then sraise (ValueError ''mmap closed or invalid'')
      else sbind sget (\<lambda>m.
      let producer = load_u64 (mapping m) 64; consumer = load_u64 (mapping m) 128 in
      if producer < consumer \<or> producer - consumer > int (ep_capacity ep)
      then sraise (RingError ''impossible ring counters'')
      else sret (producer, consumer)))"

text \<open>One pass of the loop of \<open>push\<close>: publish, or report that the ring is full.\<close>

definition push_once :: "Endpoint \<Rightarrow> bytes \<Rightarrow> (RingMem, bool) st" where
  "push_once ep payload =
     sbind (counters ep) (\<lambda>(producer, consumer).
     if producer - consumer < int (ep_capacity ep)
     then sbind (smod (\<lambda>m. m\<lparr>mapping := overlay (slot_off (ep_capacity ep) producer) payload (mapping m)\<rparr>)) (\<lambda>_.
          sbind (smod (\<lambda>m. m\<lparr>mapping := store_u64 (mapping m) 64 (producer + 1)\<rparr>)) (\<lambda>_.
          sbind (smod (event_write DATA)) (\<lambda>_. sret True)))
     else sret False)"

text \<open>One pass of the loop of \<open>pop\<close>: the record, or \<open>None\<close> when the ring is empty.\<close>

definition pop_once :: "Endpoint \<Rightarrow> (RingMem, Record option) st" where
  "pop_once ep =
     sbind (counters ep) (\<lambda>(producer, consumer).
     if producer \<noteq> consumer
     then sbind sget (\<lambda>m.
          sbind (slift (ring_decode (region (slot_off (ep_capacity ep) consumer) RECORD_SIZE (mapping m))
                          (ep_generation ep))) (\<lambda>result.
          sbind (smod (\<lambda>m. m\<lparr>mapping := store_u64 (mapping m) 128 (consumer + 1)\<rparr>)) (\<lambda>_.
          sbind (smod (event_write SPACE)) (\<lambda>_. sret (Some result)))))
     else sret None)"

text \<open>
  \<open>_wait\<close>: \<open>env\<close> is the blocked \<open>poll\<close>, which returns whether the event became readable
  before the deadline and the memory as the peer left it.
\<close>

type_synonym ring_env = "RingMem \<Rightarrow> bool \<times> RingMem"

definition ring_wait :: "Endpoint \<Rightarrow> event \<Rightarrow> ring_env \<Rightarrow> (RingMem, unit) st" where
  "ring_wait ep e env =
     sbind sget (\<lambda>m.
     if ep_interrupted ep \<or> load_u32 (mapping m) 28 AND 2 \<noteq> 0
     then sraise (RingError ''ring is closed'')
     else let (ready, m') = env m in
       sbind (smod (\<lambda>_. m')) (\<lambda>_.
       if \<not> ready then sraise (TimeoutError ''ring wait timed out'') else smod (event_read e)))"

text \<open>
  The loops. They take one environment per wait; the result is \<open>None\<close> when the
  environments are used up and the method is still waiting.
\<close>

fun push_loop :: "Endpoint \<Rightarrow> bytes \<Rightarrow> ring_env list \<Rightarrow> RingMem \<Rightarrow> (unit result \<times> RingMem) option" where
  "push_loop ep payload envs m =
     (case push_once ep payload m of
        (Inl e, m') \<Rightarrow> Some (Inl e, m')
      | (Inr True, m') \<Rightarrow> Some (Inr (), m')
      | (Inr False, m') \<Rightarrow>
          (case envs of [] \<Rightarrow> None
           | env # rest \<Rightarrow>
               (case ring_wait ep SPACE env m' of
                  (Inl e, m'') \<Rightarrow> Some (Inl e, m'')
                | (Inr _, m'') \<Rightarrow> push_loop ep payload rest m'')))"

definition push :: "Endpoint \<Rightarrow> Record \<Rightarrow> ring_env list \<Rightarrow> RingMem \<Rightarrow> (unit result \<times> RingMem) option" where
  "push ep r envs m =
     (if \<not> ep_producer ep then Some (Inl (RuntimeError ''Cannot push through ring consumer''), m)
      else case ring_encode r of
        Inl e \<Rightarrow> Some (Inl e, m)
      | Inr payload \<Rightarrow> push_loop ep payload envs m)"

text \<open>
  \<open>push_profiled\<close> stamps the submission time into the profile just before it publishes and
  returns the time spent waiting; \<open>clock\<close> gives the successive readings of the clock. The
  record's new profile is returned beside the result.
\<close>

definition stamp_profile :: "Record \<Rightarrow> bytes \<Rightarrow> int \<Rightarrow> (bytes \<times> Record) result" where
  "stamp_profile r payload now =
     (let profile = (r_profile r)[0 := now] in
      ebind (pack_into PROFILE_fmt payload PROFILE_off (map VI profile)) (\<lambda>payload'.
      Inr (payload', r\<lparr>r_profile := profile\<rparr>)))"

fun push_profiled_loop ::
  "Endpoint \<Rightarrow> Record \<Rightarrow> bytes \<Rightarrow> int list \<Rightarrow> int \<Rightarrow> ring_env list \<Rightarrow> RingMem
   \<Rightarrow> ((int \<times> Record) result \<times> RingMem) option" where
  "push_profiled_loop ep r payload clock wait_ns envs m =
     (case counters ep m of
        (Inl e, m') \<Rightarrow> Some (Inl e, m')
      | (Inr (producer, consumer), m') \<Rightarrow>
          if producer - consumer < int (ep_capacity ep)
          then (case clock of [] \<Rightarrow> None
                | now # _ \<Rightarrow>
                  (case stamp_profile r payload now of
                     Inl e \<Rightarrow> Some (Inl e, m')
                   | Inr (payload', r') \<Rightarrow>
                       (case push_once ep payload' m' of
                          (Inl e, m'') \<Rightarrow> Some (Inl e, m'')
                        | (Inr _, m'') \<Rightarrow> Some (Inr (wait_ns, r'), m''))))
          else (case (clock, envs) of
                  (started # ended # clock', env # rest) \<Rightarrow>
                    (case ring_wait ep SPACE env m' of
                       (Inl e, m'') \<Rightarrow> Some (Inl e, m'')
                     | (Inr _, m'') \<Rightarrow>
                         push_profiled_loop ep r payload clock' (wait_ns + (ended - started)) rest m'')
                | _ \<Rightarrow> None))"

definition push_profiled ::
  "Endpoint \<Rightarrow> Record \<Rightarrow> int list \<Rightarrow> ring_env list \<Rightarrow> RingMem
   \<Rightarrow> ((int \<times> Record) result \<times> RingMem) option" where
  "push_profiled ep r clock envs m =
     (if \<not> ep_producer ep then Some (Inl (RuntimeError ''Cannot push through ring consumer''), m)
      else case ring_encode r of
        Inl e \<Rightarrow> Some (Inl e, m)
      | Inr payload \<Rightarrow> push_profiled_loop ep r payload clock 0 envs m)"

fun pop_loop :: "Endpoint \<Rightarrow> ring_env list \<Rightarrow> RingMem \<Rightarrow> (Record result \<times> RingMem) option" where
  "pop_loop ep envs m =
     (case pop_once ep m of
        (Inl e, m') \<Rightarrow> Some (Inl e, m')
      | (Inr (Some r), m') \<Rightarrow> Some (Inr r, m')
      | (Inr None, m') \<Rightarrow>
          (case envs of [] \<Rightarrow> None
           | env # rest \<Rightarrow>
               (case ring_wait ep DATA env m' of
                  (Inl e, m'') \<Rightarrow> Some (Inl e, m'')
                | (Inr _, m'') \<Rightarrow> pop_loop ep rest m'')))"

definition pop :: "Endpoint \<Rightarrow> ring_env list \<Rightarrow> RingMem \<Rightarrow> (Record result \<times> RingMem) option" where
  "pop ep envs m =
     (if ep_producer ep then Some (Inl (RuntimeError ''Cannot pop through ring producer''), m)
      else pop_loop ep envs m)"

end
