(* ===== verification/Ring_Fifo.thy ===== *)
theory Ring_Fifo
  imports Ring_Channel
begin

unbundle bit_operations_syntax

text \<open>
  The byte-level ring implements a bounded FIFO queue. \<open>bounded_fifo\<close> is the contract the
  two sessions rely on; its client lemma is that any interleaving of pushes and pops
  delivers the messages in order, without loss or duplication. The interpretation shows
  that \<open>push_once\<close> and \<open>pop_once\<close> on the shared mapping satisfy it, with the messages
  being the decoded slots between the two counters.
\<close>

declare push_loop.simps [simp del] pop_loop.simps [simp del] push_profiled_loop.simps [simp del]

section \<open>The contract of a bounded queue\<close>

datatype 'x fifo_op = Put 'x | Get

text \<open>A run of puts and gets: what was accepted, what was delivered, and the final state.
  A get that raises stops the run.\<close>

fun fifo_run ::
  "('x \<Rightarrow> ('s, bool) st) \<Rightarrow> ('s, 'r option) st \<Rightarrow> 'x fifo_op list \<Rightarrow> 's \<Rightarrow> 'x list \<times> 'r list \<times> 's" where
  "fifo_run put get [] s = ([], [], s)"
| "fifo_run put get (Put x # ops) s =
     (case put x s of
        (Inr True, s') \<Rightarrow> (let (a, d, z) = fifo_run put get ops s' in (x # a, d, z))
      | (Inr False, s') \<Rightarrow> fifo_run put get ops s'
      | (Inl e, s') \<Rightarrow> ([], [], s'))"
| "fifo_run put get (Get # ops) s =
     (case get s of
        (Inr (Some r), s') \<Rightarrow> (let (a, d, z) = fifo_run put get ops s' in (a, r # d, z))
      | (Inr None, s') \<Rightarrow> fifo_run put get ops s'
      | (Inl e, s') \<Rightarrow> ([], [], s'))"

locale bounded_fifo =
  fixes inv :: "'s \<Rightarrow> bool"
    and items :: "'s \<Rightarrow> 'r result list"
    and cap :: nat
    and headroom :: "'s \<Rightarrow> nat"
    and valid :: "'x \<Rightarrow> bool"
    and view :: "'x \<Rightarrow> 'r result"
    and put :: "'x \<Rightarrow> ('s, bool) st"
    and get :: "('s, 'r option) st"
  assumes bounded: "inv s \<Longrightarrow> length (items s) \<le> cap"
    and put_room: "inv s \<Longrightarrow> valid x \<Longrightarrow> 0 < headroom s \<Longrightarrow> length (items s) < cap \<Longrightarrow>
      \<exists>s'. put x s = (Inr True, s') \<and> inv s' \<and> items s' = items s @ [view x] \<and>
           headroom s' = headroom s - 1"
    and put_full: "inv s \<Longrightarrow> length (items s) = cap \<Longrightarrow> put x s = (Inr False, s)"
    and get_item: "inv s \<Longrightarrow> items s = Inr r # rest \<Longrightarrow>
      \<exists>s'. get s = (Inr (Some r), s') \<and> inv s' \<and> items s' = rest \<and> headroom s' = headroom s"
    and get_bad: "inv s \<Longrightarrow> items s = Inl e # rest \<Longrightarrow> get s = (Inl e, s)"
    and get_empty: "inv s \<Longrightarrow> items s = [] \<Longrightarrow> get s = (Inr None, s)"
begin

lemma run_in_order:
  assumes "fifo_run put get ops s = (accepted, delivered, s')" "inv s"
    "\<And>x. Put x \<in> set ops \<Longrightarrow> valid x" "length ops \<le> headroom s"
  shows "inv s' \<and> map Inr delivered @ items s' = items s @ map view accepted"
  using assms
proof (induction ops arbitrary: s accepted delivered)
  case (Cons op ops)
  show ?case
  proof (cases op)
    case (Put x)
    have vx: "valid x" and hr: "0 < headroom s"
      using Cons.prems(3,4) Put by auto
    consider "length (items s) < cap" | "length (items s) = cap"
      using bounded[OF Cons.prems(2)] by linarith
    then show ?thesis
    proof cases
      case 1
      then obtain s1 where s1: "put x s = (Inr True, s1)" "inv s1" "items s1 = items s @ [view x]"
        "headroom s1 = headroom s - 1"
        using put_room[OF Cons.prems(2) vx hr] by blast
      then obtain a where "fifo_run put get ops s1 = (a, delivered, s')" "accepted = x # a"
        using Cons.prems(1) Put by (auto split: prod.splits)
      with Cons.IH[of s1 a delivered] Cons.prems(3,4) s1 show ?thesis by simp
    next
      case 2
      then have "fifo_run put get ops s = (accepted, delivered, s')"
        using put_full[OF Cons.prems(2)] Cons.prems(1) Put by simp
      with Cons show ?thesis by simp
    qed
  next
    case Get
    show ?thesis
    proof (cases "items s")
      case Nil
      then have "fifo_run put get ops s = (accepted, delivered, s')"
        using get_empty[OF Cons.prems(2)] Cons.prems(1) Get by simp
      with Cons show ?thesis by simp
    next
      case (Cons i rest)
      show ?thesis
      proof (cases i)
        case (Inl e)
        then show ?thesis
          using get_bad[OF Cons.prems(2)] Cons Cons.prems(1,2) Get by auto
      next
        case (Inr r)
        then obtain s1 where s1: "get s = (Inr (Some r), s1)" "inv s1" "items s1 = rest"
          "headroom s1 = headroom s"
          using get_item[OF Cons.prems(2)] Cons by blast
        then obtain d where "fifo_run put get ops s1 = (accepted, d, s')" "delivered = r # d"
          using Cons.prems(1) Get by (auto split: prod.splits)
        with Cons.IH[of s1 accepted d] Cons.prems(3,4) s1 Cons Inr show ?thesis by simp
      qed
    qed
  qed
qed auto

end

section \<open>The ring as a queue\<close>

definition producer_count :: "RingMem \<Rightarrow> int" where "producer_count m = load_u64 (mapping m) 64"
definition consumer_count :: "RingMem \<Rightarrow> int" where "consumer_count m = load_u64 (mapping m) 128"

text \<open>The counters of a sane ring and the slots between them.\<close>

definition ring_inv :: "nat \<Rightarrow> RingMem \<Rightarrow> bool" where
  "ring_inv cap m \<longleftrightarrow> 0 < cap \<and> length (mapping m) = HEADER_SIZE + cap * RECORD_SIZE \<and>
     consumer_count m \<le> producer_count m \<and> producer_count m \<le> consumer_count m + int cap"

definition slot :: "nat \<Rightarrow> RingMem \<Rightarrow> int \<Rightarrow> bytes" where
  "slot cap m k = region (slot_off cap k) RECORD_SIZE (mapping m)"

definition ring_slots :: "nat \<Rightarrow> RingMem \<Rightarrow> bytes list" where
  "ring_slots cap m = map (slot cap m) [consumer_count m..producer_count m - 1]"

definition ring_items :: "nat \<Rightarrow> int \<Rightarrow> RingMem \<Rightarrow> Record result list" where
  "ring_items cap gen m = map (\<lambda>s. ring_decode s gen) (ring_slots cap m)"

definition ring_headroom :: "RingMem \<Rightarrow> nat" where
  "ring_headroom m = nat (2 ^ 64 - 1 - producer_count m)"

lemma slot_off_bounds:
  assumes "0 < cap" "length (mapping m) = HEADER_SIZE + cap * RECORD_SIZE"
  shows "HEADER_SIZE \<le> slot_off cap k" "slot_off cap k + RECORD_SIZE \<le> length (mapping m)"
proof -
  have "nat (k mod int cap) < cap"
    using assms(1) by (simp add: nat_less_iff)
  then have "Suc (nat (k mod int cap)) * RECORD_SIZE \<le> cap * RECORD_SIZE"
    by (intro mult_le_mono1) simp
  then show "slot_off cap k + RECORD_SIZE \<le> length (mapping m)"
    using assms(2) by (simp add: slot_off_def)
qed (simp add: slot_off_def)

lemma slots_apart:
  assumes "0 < cap" "k < p" "p < k + int cap"
  shows "slot_off cap k + RECORD_SIZE \<le> slot_off cap p \<or> slot_off cap p + RECORD_SIZE \<le> slot_off cap k"
proof -
  let ?i = "nat (k mod int cap)" and ?j = "nat (p mod int cap)"
  have "k mod int cap \<noteq> p mod int cap"
  proof
    assume "k mod int cap = p mod int cap"
    then have "int cap dvd p - k" by (metis mod_eq_dvd_iff)
    then have "int cap \<le> p - k" using assms(2) by (intro zdvd_imp_le) auto
    with assms(3) show False by simp
  qed
  then have "?i \<noteq> ?j"
    using assms(1) by (simp add: nat_eq_iff)
  then have "Suc ?i * RECORD_SIZE \<le> ?j * RECORD_SIZE \<or> Suc ?j * RECORD_SIZE \<le> ?i * RECORD_SIZE"
    by (metis Suc_leI linorder_neqE_nat mult_le_mono1)
  then show ?thesis by (auto simp: slot_off_def)
qed

lemma load_store_u64:
  "0 \<le> v \<Longrightarrow> v < 2 ^ 64 \<Longrightarrow> off + 8 \<le> length m \<Longrightarrow> load_u64 (store_u64 m off v) off = v"
  by (simp add: load_u64_def store_u64_def region_overlay_same le_decode_encode)

lemma load_u64_bounds: "off + 8 \<le> length m \<Longrightarrow> 0 \<le> load_u64 m off \<and> load_u64 m off < 2 ^ 64"
  using le_decode_bound[of "region off 8 m"] by (simp add: load_u64_def)

lemma counters_run:
  assumes "ring_inv (ep_capacity ep) m" "\<not> ep_closed ep"
  shows "counters ep m = (Inr (producer_count m, consumer_count m), m)"
  using assms by (simp add: counters_def st_run Let_def ring_inv_def producer_count_def consumer_count_def)

lemma length_items:
  assumes "ring_inv cap m"
  shows "int (length (ring_items cap gen m)) = producer_count m - consumer_count m"
  using assms by (simp add: ring_items_def ring_slots_def ring_inv_def)

text \<open>Publishing: the payload goes to a free slot, then the counter moves.\<close>

definition published :: "nat \<Rightarrow> bytes \<Rightarrow> RingMem \<Rightarrow> RingMem" where
  "published cap payload m =
     event_write DATA (m\<lparr>mapping := store_u64 (overlay (slot_off cap (producer_count m)) payload (mapping m)) 64
       (producer_count m + 1)\<rparr>)"

definition consumed :: "RingMem \<Rightarrow> RingMem" where
  "consumed m = event_write SPACE (m\<lparr>mapping := store_u64 (mapping m) 128 (consumer_count m + 1)\<rparr>)"

lemma event_write_mapping [simp]: "mapping (event_write e m) = mapping m"
  by (simp add: event_write_def split: event.splits)

lemma published_slots:
  assumes inv: "ring_inv cap m" and room: "producer_count m < consumer_count m + int cap"
    and len: "length payload = RECORD_SIZE" and bound: "producer_count m + 1 < 2 ^ 64"
  defines "m' \<equiv> published cap payload m"
  shows "ring_inv cap m'" "ring_slots cap m' = ring_slots cap m @ [payload]"
    "producer_count m' = producer_count m + 1" "consumer_count m' = consumer_count m"
proof -
  let ?p = "producer_count m" and ?c = "consumer_count m"
  have c0: "0 < cap" and l: "length (mapping m) = HEADER_SIZE + cap * RECORD_SIZE" and cp: "?c \<le> ?p"
    using inv by (auto simp: ring_inv_def)
  have big: "136 \<le> length (mapping m)" by (simp add: l HEADER_SIZE_def)
  note so = slot_off_bounds[OF c0 l]
  let ?w = "overlay (slot_off cap ?p) payload (mapping m)"
  have lw: "length ?w = length (mapping m)" using so(2)[of ?p] len by simp
  have map': "mapping m' = store_u64 ?w 64 (?p + 1)"
    by (simp add: m'_def published_def)
  have lm: "length (mapping m') = length (mapping m)"
    using lw big by (simp add: map' store_u64_def)
  have "0 \<le> ?p" using load_u64_bounds[of 64 "mapping m"] big by (simp add: producer_count_def)
  then show p': "producer_count m' = ?p + 1"
    using bound lw big by (simp add: producer_count_def[of m'] map' load_store_u64)
  have hi: "HEADER_SIZE \<le> slot_off cap ?p" by (rule so(1))
  show c': "consumer_count m' = ?c"
    using lw big hi so(2)[of ?p] len
    by (simp add: consumer_count_def map' load_u64_def store_u64_def HEADER_SIZE_def
        region_overlay_after region_overlay_before)
  show "ring_inv cap m'"
    using inv room p' c' lm by (simp add: ring_inv_def)
  have unmoved: "slot cap m' k = region (slot_off cap k) RECORD_SIZE ?w" for k
    using so[of k] lw big
    by (simp add: slot_def map' store_u64_def HEADER_SIZE_def region_overlay_after)
  have old: "slot cap m' k = slot cap m k" if "?c \<le> k" "k < ?p" for k
    using slots_apart[OF c0, of k ?p] that room so[of ?p] len unfolding unmoved
    by (auto simp: slot_def region_overlay_after region_overlay_before)
  have new: "slot cap m' ?p = payload"
    unfolding unmoved using so(2)[of ?p] len by (simp add: region_overlay_same)
  have "[?c..?p] = [?c..?p - 1] @ [?p]"
    using cp by (rule upto_rec2)
  then show "ring_slots cap m' = ring_slots cap m @ [payload]"
    using old new by (simp add: ring_slots_def p' c')
qed

lemma consumed_slots:
  assumes inv: "ring_inv cap m" and nonempty: "consumer_count m < producer_count m"
  defines "m' \<equiv> consumed m"
  shows "ring_inv cap m'" "ring_slots cap m = slot cap m (consumer_count m) # ring_slots cap m'"
    "producer_count m' = producer_count m" "consumer_count m' = consumer_count m + 1"
proof -
  let ?p = "producer_count m" and ?c = "consumer_count m"
  have c0: "0 < cap" and l: "length (mapping m) = HEADER_SIZE + cap * RECORD_SIZE"
    using inv by (auto simp: ring_inv_def)
  have big: "136 \<le> length (mapping m)" by (simp add: l HEADER_SIZE_def)
  have map': "mapping m' = store_u64 (mapping m) 128 (?c + 1)"
    by (simp add: m'_def consumed_def)
  have lm: "length (mapping m') = length (mapping m)"
    using big by (simp add: map' store_u64_def)
  have b: "0 \<le> ?c" "?p < 2 ^ 64"
    using load_u64_bounds[of 64 "mapping m"] load_u64_bounds[of 128 "mapping m"] big
    by (simp_all add: producer_count_def consumer_count_def)
  show p': "producer_count m' = ?p"
    using big by (simp add: producer_count_def map' load_u64_def store_u64_def region_overlay_before)
  show c': "consumer_count m' = ?c + 1"
    using b nonempty big by (simp add: consumer_count_def[of m'] map' load_store_u64)
  show "ring_inv cap m'"
    using inv nonempty p' c' lm by (simp add: ring_inv_def)
  have same: "slot cap m' k = slot cap m k" for k
    using slot_off_bounds[OF c0 l, of k] big
    by (simp add: slot_def map' store_u64_def HEADER_SIZE_def region_overlay_after)
  have "[?c..?p - 1] = ?c # [?c + 1..?p - 1]"
    using nonempty by (simp add: upto_rec1)
  then show "ring_slots cap m = slot cap m ?c # ring_slots cap m'"
    using same by (simp add: ring_slots_def p' c')
qed

lemma push_once_run:
  assumes "ring_inv (ep_capacity ep) m" "\<not> ep_closed ep"
  shows "push_once ep payload m =
    (if producer_count m - consumer_count m < int (ep_capacity ep)
     then (Inr True, published (ep_capacity ep) payload m) else (Inr False, m))"
  using counters_run[OF assms] by (simp add: push_once_def st_run published_def)

lemma pop_once_run:
  assumes "ring_inv (ep_capacity ep) m" "\<not> ep_closed ep"
  shows "pop_once ep m =
    (if producer_count m = consumer_count m then (Inr None, m)
     else case ring_decode (slot (ep_capacity ep) m (consumer_count m)) (ep_generation ep) of
            Inl e \<Rightarrow> (Inl e, m)
          | Inr r \<Rightarrow> (Inr (Some r), consumed m))"
  using counters_run[OF assms]
  by (simp add: pop_once_def st_run consumed_def slot_def split: sum.split)

section \<open>The interpretation\<close>

text \<open>A producer and a consumer endpoint on one ring, opened and not closed.\<close>

definition peers :: "nat \<Rightarrow> int \<Rightarrow> Endpoint \<times> Endpoint" where
  "peers cap gen =
     (\<lparr>ep_generation = gen, ep_producer = True, ep_capacity = cap, ep_interrupted = False, ep_closed = False\<rparr>,
      \<lparr>ep_generation = gen, ep_producer = False, ep_capacity = cap, ep_interrupted = False, ep_closed = False\<rparr>)"

interpretation ring_fifo: bounded_fifo
  "ring_inv cap" "ring_items cap gen" cap ring_headroom "\<lambda>payload. length payload = RECORD_SIZE"
  "\<lambda>payload. ring_decode payload gen"
  "push_once (fst (peers cap gen))" "pop_once (snd (peers cap gen))" for cap gen
proof
  fix s :: RingMem and x e r rest
  assume inv: "ring_inv cap s"
  have P: "push_once (fst (peers cap gen)) x s =
      (if producer_count s - consumer_count s < int cap then (Inr True, published cap x s) else (Inr False, s))"
    using push_once_run[of "fst (peers cap gen)" s x] inv by (simp add: peers_def)
  have G: "pop_once (snd (peers cap gen)) s =
      (if producer_count s = consumer_count s then (Inr None, s)
       else case ring_decode (slot cap s (consumer_count s)) gen of
              Inl e \<Rightarrow> (Inl e, s) | Inr r \<Rightarrow> (Inr (Some r), consumed s))"
    using pop_once_run[of "snd (peers cap gen)" s] inv by (simp add: peers_def)
  note len = length_items[OF inv, of gen]
  have pc: "producer_count s \<le> consumer_count s + int cap" "consumer_count s \<le> producer_count s"
    using inv by (auto simp: ring_inv_def)
  show "length (ring_items cap gen s) \<le> cap"
    using len pc by linarith
  show "length (ring_items cap gen s) = cap \<Longrightarrow> push_once (fst (peers cap gen)) x s = (Inr False, s)"
    using len by (simp add: P)
  show "length x = RECORD_SIZE \<Longrightarrow> 0 < ring_headroom s \<Longrightarrow> length (ring_items cap gen s) < cap \<Longrightarrow>
      \<exists>s'. push_once (fst (peers cap gen)) x s = (Inr True, s') \<and> ring_inv cap s' \<and>
           ring_items cap gen s' = ring_items cap gen s @ [ring_decode x gen] \<and>
           ring_headroom s' = ring_headroom s - 1"
  proof -
    assume x: "length x = RECORD_SIZE" and h: "0 < ring_headroom s" and r: "length (ring_items cap gen s) < cap"
    have room: "producer_count s < consumer_count s + int cap" and bound: "producer_count s + 1 < 2 ^ 64"
      using len r h by (auto simp: ring_headroom_def)
    note pub = published_slots[OF inv room x bound]
    have "ring_headroom (published cap x s) = ring_headroom s - 1"
      by (simp add: ring_headroom_def pub(3))
    then show ?thesis
      using pub room by (simp add: P ring_items_def)
  qed
  show "ring_items cap gen s = [] \<Longrightarrow> pop_once (snd (peers cap gen)) s = (Inr None, s)"
    using len by (simp add: G)
  have front: "ring_items cap gen s = ring_decode (slot cap s (consumer_count s)) gen # ring_items cap gen (consumed s)"
    "producer_count s \<noteq> consumer_count s" if "ring_items cap gen s \<noteq> []"
  proof -
    show "producer_count s \<noteq> consumer_count s" using that len by auto
    then show "ring_items cap gen s = ring_decode (slot cap s (consumer_count s)) gen # ring_items cap gen (consumed s)"
      using consumed_slots(2)[OF inv] pc by (simp add: ring_items_def)
  qed
  show "ring_items cap gen s = Inl e # rest \<Longrightarrow> pop_once (snd (peers cap gen)) s = (Inl e, s)"
    using front by (auto simp: G split: sum.split)
  show "ring_items cap gen s = Inr r # rest \<Longrightarrow>
      \<exists>s'. pop_once (snd (peers cap gen)) s = (Inr (Some r), s') \<and> ring_inv cap s' \<and>
           ring_items cap gen s' = rest \<and> ring_headroom s' = ring_headroom s"
    using front consumed_slots(1,3)[OF inv] pc
    by (auto simp: G ring_headroom_def split: sum.split)
qed

section \<open>Opening and closing\<close>

lemma ring_owner_Inr:
  assumes "ring_owner capacity gen random = Inr (m, g)"
  shows "g \<noteq> 0" "0 < capacity" "ring_inv (nat capacity) m" "ring_items (nat capacity) g' m = []"
    "ring_headroom m = 2 ^ 64 - 1"
    "open_endpoint g producer m =
       (Inr \<lparr>ep_generation = g, ep_producer = producer, ep_capacity = nat capacity,
             ep_interrupted = False, ep_closed = False\<rparr>, m)"
proof -
  define c where "c = nat capacity"
  define z where "z = (replicate (HEADER_SIZE + c * RECORD_SIZE) 0 :: bytes)"
  show c0: "0 < capacity" and g0: "g \<noteq> 0"
    using assms by (auto simp: ring_owner_def err_simps Let_def split: if_splits)
  let ?h = "[RING_MAGIC, RING_ABI_MAJOR, RING_ABI_MINOR, int HEADER_SIZE, int RECORD_SIZE, capacity, 1, g]"
  obtain h where h: "pack HEADER_fmt (map VI ?h) = Inr h"
    and m: "m = \<lparr>mapping = overlay 0 h z, data_event = 0, space_event = 0\<rparr>"
    using assms by (auto simp: ring_owner_def err_simps Let_def pack_into_def z_def c_def split: if_splits)
  have lh: "length h = 40" using pack_length[OF h] by simp
  have lz: "length z = HEADER_SIZE + c * RECORD_SIZE" by (simp add: z_def)
  have lm: "length (mapping m) = HEADER_SIZE + c * RECORD_SIZE"
    using lh lz by (simp add: m HEADER_SIZE_def)
  have zero: "all_zero (region off n (mapping m))" if "40 \<le> off" for off n
  proof -
    have "region off n (mapping m) = region off n z"
      using that lh lz by (simp add: m region_overlay_after HEADER_SIZE_def)
    then show ?thesis by (simp add: z_def)
  qed
  have l0: "load_u64 (mapping m) off = 0" if "40 \<le> off" "off + 8 \<le> HEADER_SIZE" for off
  proof -
    have "region off 8 (mapping m) = replicate 8 0"
      using zero[OF that(1), of 8] that(2) lm by (simp add: all_zero_eq)
    then show ?thesis by (simp add: load_u64_def)
  qed
  have counts: "producer_count m = 0" "consumer_count m = 0"
    by (simp_all add: producer_count_def consumer_count_def l0 HEADER_SIZE_def)
  then show "ring_inv (nat capacity) m" "ring_items (nat capacity) g' m = []"
    "ring_headroom m = 2 ^ 64 - 1"
    using c0 lm by (simp_all add: ring_inv_def ring_items_def ring_slots_def ring_headroom_def c_def)
  have u: "unpack_from HEADER_fmt (mapping m) 0 = Inr (map VI ?h)"
    using lh lz by (intro head_unpack[OF h])
      (simp_all add: m HEADER_fmt_def region_overlay_same HEADER_SIZE_def)
  show "open_endpoint g producer m =
       (Inr \<lparr>ep_generation = g, ep_producer = producer, ep_capacity = nat capacity,
             ep_interrupted = False, ep_closed = False\<rparr>, m)"
    using u zero lm c0 by (simp add: open_endpoint_def st_run Let_def c_def)
qed

text \<open>Setting the closed flag touches neither the counters nor the slots.\<close>

lemma ring_close_items:
  assumes "ring_inv cap m"
  shows "ring_inv cap (ring_close m)" "ring_items cap gen (ring_close m) = ring_items cap gen m"
    "load_u32 (mapping (ring_close m)) 28 AND 2 \<noteq> 0"
proof -
  have c0: "0 < cap" and l: "length (mapping m) = HEADER_SIZE + cap * RECORD_SIZE"
    using assms by (auto simp: ring_inv_def)
  let ?m = "fetch_or_u32 (mapping m) 28 2"
  have [simp]: "mapping (ring_close m) = ?m" by (simp add: ring_close_def)
  have big: "136 \<le> length (mapping m)" by (simp add: l HEADER_SIZE_def)
  have lm: "length ?m = length (mapping m)" using big by (simp add: fetch_or_u32_def)
  have after: "region off n ?m = region off n (mapping m)" if "32 \<le> off" for off n
    using that big by (simp add: fetch_or_u32_def region_overlay_after)
  have counts: "producer_count (ring_close m) = producer_count m"
    "consumer_count (ring_close m) = consumer_count m"
    by (simp_all add: producer_count_def consumer_count_def load_u64_def after)
  then show "ring_inv cap (ring_close m)" using assms lm by (simp add: ring_inv_def)
  have "slot cap (ring_close m) k = slot cap m k" for k
    using slot_off_bounds(1)[OF c0 l, of k] by (simp add: slot_def after HEADER_SIZE_def)
  then show "ring_items cap gen (ring_close m) = ring_items cap gen m"
    by (simp add: ring_items_def ring_slots_def counts)
  let ?v = "load_u32 (mapping m) 28"
  have b: "0 \<le> ?v" "?v < 2 ^ 32"
    using le_decode_bound[of "region 28 4 (mapping m)"] big by (simp_all add: load_u32_def)
  have "load_u32 ?m 28 = (?v OR 2) mod 2 ^ 32"
    unfolding fetch_or_u32_def using big
    by (subst load_u32_def) (simp add: region_overlay_same le_decode_encode_mod)
  then have "load_u32 ?m 28 = ?v OR 2"
    using b OR_upper[of ?v 32 2] by (simp add: or_nonnegative_int_iff)
  moreover have "(?v OR 2) AND 2 = 2"
    by (rule bit_eqI) (auto simp: bit_simps)
  ultimately show "load_u32 (mapping (ring_close m)) 28 AND 2 \<noteq> 0" by simp
qed

lemma open_endpoint_mismatch:
  assumes "unpack_from HEADER_fmt (mapping m) 0 = Inr header" "vint (header ! 7) \<noteq> g"
  shows "open_endpoint g producer m = (Inl (RingError ''invalid ring header''), ring_close m)"
  using assms by (simp add: open_endpoint_def st_run Let_def)

section \<open>Waiting\<close>

definition ring_closed :: "RingMem \<Rightarrow> bool" where
  "ring_closed m \<longleftrightarrow> load_u32 (mapping m) 28 AND 2 \<noteq> 0"

lemma ring_wait_closed: "ring_closed m \<Longrightarrow> ring_wait ep e env m = (Inl (RingError ''ring is closed''), m)"
  by (simp add: ring_wait_def st_run ring_closed_def)

lemma pop_closed_drains:
  assumes "ring_inv cap m" "ring_closed m"
  shows "pop (snd (peers cap gen)) (env # envs) m =
    (case ring_items cap gen m of
       [] \<Rightarrow> Some (Inl (RingError ''ring is closed''), m)
     | Inl e # _ \<Rightarrow> Some (Inl e, m)
     | Inr r # _ \<Rightarrow> Some (Inr r, consumed m))"
proof -
  let ?ep = "snd (peers cap gen)"
  have G: "pop_once ?ep m =
      (if producer_count m = consumer_count m then (Inr None, m)
       else case ring_decode (slot cap m (consumer_count m)) gen of
              Inl e \<Rightarrow> (Inl e, m) | Inr r \<Rightarrow> (Inr (Some r), consumed m))"
    using pop_once_run[of ?ep m] assms(1) by (simp add: peers_def)
  have items: "ring_items cap gen m = (if producer_count m = consumer_count m then [] else
      ring_decode (slot cap m (consumer_count m)) gen # ring_items cap gen (consumed m))"
    using consumed_slots(2)[OF assms(1)] length_items[OF assms(1), of gen] assms(1)
    by (auto simp: ring_items_def ring_inv_def)
  have [simp]: "\<not> ep_producer ?ep" by (simp add: peers_def)
  show ?thesis
    unfolding pop_def items
    by (subst pop_loop.simps) (simp add: G ring_wait_closed[OF assms(2)] split: sum.split)
qed

lemma push_full_closed:
  assumes "ring_inv cap m" "ring_closed m" "length (ring_items cap gen m) = cap" "ring_encode r = Inr payload"
  shows "push (fst (peers cap gen)) r (env # envs) m = Some (Inl (RingError ''ring is closed''), m)"
  using ring_fifo.put_full[OF assms(1,3), of payload]
  unfolding push_def
  by (subst push_loop.simps) (simp add: peers_def assms(4) ring_wait_closed[OF assms(2)])

text \<open>A waiting pop returns what the peer published while it waited.\<close>

lemma pop_after_wait:
  assumes "ring_inv cap m" "ring_items cap gen m = []" "\<not> ring_closed m"
    "env m = (True, m')" "ring_inv cap m'" "ring_items cap gen m' = Inr r # rest"
  shows "\<exists>m''. pop (snd (peers cap gen)) (env # envs) m = Some (Inr r, m'') \<and>
    ring_inv cap m'' \<and> ring_items cap gen m'' = rest"
proof -
  let ?ep = "snd (peers cap gen)"
  let ?m = "event_read DATA m'"
  have same: "ring_inv cap ?m \<longleftrightarrow> ring_inv cap m'" "ring_items cap gen ?m = ring_items cap gen m'"
    by (simp_all add: ring_inv_def ring_items_def ring_slots_def slot_def producer_count_def
        consumer_count_def event_read_def cong: map_cong)
  have ep: "\<not> ep_producer ?ep" "\<not> ep_interrupted ?ep" by (simp_all add: peers_def)
  have w: "ring_wait ?ep DATA env m = (Inr (), ?m)"
    using assms(3,4) ep by (simp add: ring_wait_def st_run ring_closed_def)
  obtain m'' where get: "pop_once ?ep ?m = (Inr (Some r), m'')" "ring_inv cap m''" "ring_items cap gen m'' = rest"
    using ring_fifo.get_item[of cap ?m gen r rest] assms(5,6) same by auto
  have "pop_loop ?ep (env # envs) m = pop_loop ?ep envs ?m"
    by (subst pop_loop.simps) (simp add: ring_fifo.get_empty[OF assms(1,2)] w)
  also have "\<dots> = Some (Inr r, m'')"
    by (subst pop_loop.simps) (simp add: get)
  finally show ?thesis using get ep by (auto simp: pop_def)
qed

section \<open>From one record to the other side\<close>

lemma push_then_pop:
  assumes "ring_inv cap m" "ring_items cap gen m = []" "0 < ring_headroom m"
    "ring_encode r = Inr payload" "canonical_record r" "r_generation r = gen"
  shows "\<exists>m' m''. push (fst (peers cap gen)) r envs m = Some (Inr (), m') \<and>
    pop (snd (peers cap gen)) envs' m' = Some (Inr r, m'') \<and> ring_items cap gen m'' = []"
proof -
  have len: "length payload = RECORD_SIZE"
    using ring_decode_encode[OF assms(4,5)] by (auto simp: ring_decode_def split: if_splits)
  have "length (ring_items cap gen m) < cap"
    using assms(1,2) by (simp add: ring_inv_def)
  then obtain m' where m': "push_once (fst (peers cap gen)) payload m = (Inr True, m')" "ring_inv cap m'"
    "ring_items cap gen m' = [ring_decode payload gen]"
    using ring_fifo.put_room[OF assms(1) len assms(3), of gen] assms(2) by auto
  then have one: "ring_items cap gen m' = [Inr r]"
    using ring_decode_encode[OF assms(4,5)] assms(6) by simp
  obtain m'' where m'': "pop_once (snd (peers cap gen)) m' = (Inr (Some r), m'')" "ring_items cap gen m'' = []"
    using ring_fifo.get_item[OF m'(2) one] by auto
  have roles: "ep_producer (fst (peers cap gen))" "\<not> ep_producer (snd (peers cap gen))"
    by (simp_all add: peers_def)
  have "push (fst (peers cap gen)) r envs m = Some (Inr (), m')"
    unfolding push_def by (subst push_loop.simps) (simp add: assms(4) m'(1) roles)
  moreover have "pop (snd (peers cap gen)) envs' m' = Some (Inr r, m'')"
    unfolding pop_def by (subst pop_loop.simps) (simp add: m''(1) roles)
  ultimately show ?thesis using m''(2) by blast
qed

end
