(* ===== verification/Ring_Protocol.thy ===== *)
theory Ring_Protocol
  imports Prelude
begin

text \<open>
  The concurrent behaviour of one ring: a producer thread in \<open>push\<close>, a consumer thread in
  \<open>pop\<close> (each endpoint's lock admits one call at a time) and a third party that closes the
  ring, as in \<open>packages/wmfs/wmfs/transport/ring.py\<close>. Every access to shared memory is a
  step of its own: the two counter loads of \<open>_counters\<close>, the slot write (which may be seen
  half done), the counter store, the event writes and reads, the flag test of \<open>_wait\<close> and
  the wake-up of \<open>poll\<close>. The ghost lists \<open>sent\<close> and \<open>got\<close> record what was published and
  what was delivered. The counters are natural numbers here; the source stores them in 64 bits and
  refuses them as impossible once one has wrapped around, which Ring_Channel models.
\<close>

datatype 'a producer_pc =
    P_idle
  | P_load_producer 'a
  | P_load_consumer 'a nat
  | P_write 'a nat
  | P_store 'a nat
  | P_notify
  | P_check_flag 'a
  | P_poll 'a
  | P_reset 'a

datatype 'a consumer_pc =
    C_idle
  | C_load_producer
  | C_load_consumer nat
  | C_copy nat
  | C_decode 'a nat
  | C_notify
  | C_check_flag
  | C_poll
  | C_reset

datatype closer_pc = K_open | K_wake_data | K_wake_space | K_done

record 'a ring =
  rslots :: "nat \<Rightarrow> 'a"
  produced :: nat
  taken :: nat
  data_ev :: nat
  space_ev :: nat
  closed_flag :: bool
  ppc :: "'a producer_pc"
  cpc :: "'a consumer_pc"
  kpc :: closer_pc
  sent :: "'a list"
  got :: "'a list"

definition ring_start :: "(nat \<Rightarrow> 'a) \<Rightarrow> 'a ring" where
  "ring_start mem = \<lparr>rslots = mem, produced = 0, taken = 0, data_ev = 0, space_ev = 0,
     closed_flag = False, ppc = P_idle, cpc = C_idle, kpc = K_open, sent = [], got = []\<rparr>"

inductive ring_step :: "nat \<Rightarrow> 'a ring \<Rightarrow> 'a ring \<Rightarrow> bool" for cap where
  push_call: "ppc s = P_idle \<Longrightarrow> ring_step cap s (s\<lparr>ppc := P_load_producer x\<rparr>)"
| push_load_producer: "ppc s = P_load_producer x \<Longrightarrow>
    ring_step cap s (s\<lparr>ppc := P_load_consumer x (produced s)\<rparr>)"
| push_has_space: "ppc s = P_load_consumer x p \<Longrightarrow> p - taken s < cap \<Longrightarrow>
    ring_step cap s (s\<lparr>ppc := P_write x p\<rparr>)"
| push_is_full: "ppc s = P_load_consumer x p \<Longrightarrow> \<not> p - taken s < cap \<Longrightarrow>
    ring_step cap s (s\<lparr>ppc := P_check_flag x\<rparr>)"
| push_write_part: "ppc s = P_write x p \<Longrightarrow>
    ring_step cap s (s\<lparr>rslots := (rslots s)(p mod cap := torn)\<rparr>)"
| push_write_done: "ppc s = P_write x p \<Longrightarrow>
    ring_step cap s (s\<lparr>rslots := (rslots s)(p mod cap := x), ppc := P_store x p\<rparr>)"
| push_store: "ppc s = P_store x p \<Longrightarrow>
    ring_step cap s (s\<lparr>produced := p + 1, sent := sent s @ [x], ppc := P_notify\<rparr>)"
| push_notify: "ppc s = P_notify \<Longrightarrow>
    ring_step cap s (s\<lparr>data_ev := data_ev s + 1, ppc := P_idle\<rparr>)"
| push_closed: "ppc s = P_check_flag x \<Longrightarrow> closed_flag s \<Longrightarrow> ring_step cap s (s\<lparr>ppc := P_idle\<rparr>)"
| push_open: "ppc s = P_check_flag x \<Longrightarrow> \<not> closed_flag s \<Longrightarrow> ring_step cap s (s\<lparr>ppc := P_poll x\<rparr>)"
| push_woken: "ppc s = P_poll x \<Longrightarrow> 0 < space_ev s \<Longrightarrow> ring_step cap s (s\<lparr>ppc := P_reset x\<rparr>)"
| push_timeout: "ppc s = P_poll x \<Longrightarrow> ring_step cap s (s\<lparr>ppc := P_idle\<rparr>)"
| push_reset: "ppc s = P_reset x \<Longrightarrow>
    ring_step cap s (s\<lparr>space_ev := 0, ppc := P_load_producer x\<rparr>)"
| pop_call: "cpc s = C_idle \<Longrightarrow> ring_step cap s (s\<lparr>cpc := C_load_producer\<rparr>)"
| pop_load_producer: "cpc s = C_load_producer \<Longrightarrow>
    ring_step cap s (s\<lparr>cpc := C_load_consumer (produced s)\<rparr>)"
| pop_has_item: "cpc s = C_load_consumer p \<Longrightarrow> p \<noteq> taken s \<Longrightarrow>
    ring_step cap s (s\<lparr>cpc := C_copy (taken s)\<rparr>)"
| pop_is_empty: "cpc s = C_load_consumer p \<Longrightarrow> p = taken s \<Longrightarrow>
    ring_step cap s (s\<lparr>cpc := C_check_flag\<rparr>)"
| pop_copy: "cpc s = C_copy c \<Longrightarrow> ring_step cap s (s\<lparr>cpc := C_decode (rslots s (c mod cap)) c\<rparr>)"
| pop_bad: "cpc s = C_decode x c \<Longrightarrow> ring_step cap s (s\<lparr>cpc := C_idle\<rparr>)"
| pop_store: "cpc s = C_decode x c \<Longrightarrow>
    ring_step cap s (s\<lparr>taken := c + 1, got := got s @ [x], cpc := C_notify\<rparr>)"
| pop_notify: "cpc s = C_notify \<Longrightarrow>
    ring_step cap s (s\<lparr>space_ev := space_ev s + 1, cpc := C_idle\<rparr>)"
| pop_closed: "cpc s = C_check_flag \<Longrightarrow> closed_flag s \<Longrightarrow> ring_step cap s (s\<lparr>cpc := C_idle\<rparr>)"
| pop_open: "cpc s = C_check_flag \<Longrightarrow> \<not> closed_flag s \<Longrightarrow> ring_step cap s (s\<lparr>cpc := C_poll\<rparr>)"
| pop_woken: "cpc s = C_poll \<Longrightarrow> 0 < data_ev s \<Longrightarrow> ring_step cap s (s\<lparr>cpc := C_reset\<rparr>)"
| pop_timeout: "cpc s = C_poll \<Longrightarrow> ring_step cap s (s\<lparr>cpc := C_idle\<rparr>)"
| pop_reset: "cpc s = C_reset \<Longrightarrow>
    ring_step cap s (s\<lparr>data_ev := 0, cpc := C_load_producer\<rparr>)"
| close_flag: "kpc s = K_open \<Longrightarrow> ring_step cap s (s\<lparr>closed_flag := True, kpc := K_wake_data\<rparr>)"
| close_data: "kpc s = K_wake_data \<Longrightarrow>
    ring_step cap s (s\<lparr>data_ev := data_ev s + 1, kpc := K_wake_space\<rparr>)"
| close_space: "kpc s = K_wake_space \<Longrightarrow>
    ring_step cap s (s\<lparr>space_ev := space_ev s + 1, kpc := K_done\<rparr>)"

inductive ring_reachable :: "nat \<Rightarrow> 'a ring \<Rightarrow> bool" for cap where
  start: "ring_reachable cap (ring_start mem)"
| step: "ring_reachable cap s \<Longrightarrow> ring_step cap s s' \<Longrightarrow> ring_reachable cap s'"

section \<open>The data invariant\<close>

text \<open>What each program counter knows of the shared counters.\<close>

fun producer_knows :: "nat \<Rightarrow> 'a ring \<Rightarrow> 'a producer_pc \<Rightarrow> bool" where
  "producer_knows cap s (P_load_consumer x p) \<longleftrightarrow> p = produced s"
| "producer_knows cap s (P_write x p) \<longleftrightarrow> p = produced s \<and> p < taken s + cap"
| "producer_knows cap s (P_store x p) \<longleftrightarrow>
     p = produced s \<and> p < taken s + cap \<and> rslots s (p mod cap) = x"
| "producer_knows cap s _ \<longleftrightarrow> True"

fun consumer_knows :: "nat \<Rightarrow> 'a ring \<Rightarrow> 'a consumer_pc \<Rightarrow> bool" where
  "consumer_knows cap s (C_load_consumer p) \<longleftrightarrow> taken s \<le> p \<and> p \<le> produced s"
| "consumer_knows cap s (C_copy c) \<longleftrightarrow> c = taken s \<and> c < produced s"
| "consumer_knows cap s (C_decode x c) \<longleftrightarrow> c = taken s \<and> c < produced s \<and> x = sent s ! c"
| "consumer_knows cap s _ \<longleftrightarrow> True"

definition data_inv :: "nat \<Rightarrow> 'a ring \<Rightarrow> bool" where
  "data_inv cap s \<longleftrightarrow>
     length (sent s) = produced s \<and> taken s \<le> produced s \<and> produced s \<le> taken s + cap \<and>
     got s = take (taken s) (sent s) \<and>
     (\<forall>k. taken s \<le> k \<and> k < produced s \<longrightarrow> rslots s (k mod cap) = sent s ! k) \<and>
     producer_knows cap s (ppc s) \<and> consumer_knows cap s (cpc s)"

lemma mod_apart: "k < p \<Longrightarrow> p < k + cap \<Longrightarrow> k mod cap \<noteq> p mod (cap :: nat)"
proof
  assume "k < p" "p < k + cap" "k mod cap = p mod cap"
  then have "cap dvd p - k" by (metis mod_eq_dvd_iff_nat nat_less_le)
  with \<open>k < p\<close> \<open>p < k + cap\<close> show False
    using dvd_imp_le[of cap "p - k"] by auto
qed

lemma data_inv_start: "data_inv cap (ring_start mem)"
  by (simp add: data_inv_def ring_start_def)

lemma slot_write_harmless:
  assumes "data_inv cap s" "ppc s = P_write x p"
  shows "\<forall>k. taken s \<le> k \<and> k < produced s \<longrightarrow> ((rslots s)(p mod cap := y)) (k mod cap) = sent s ! k"
proof (intro allI impI)
  fix k assume k: "taken s \<le> k \<and> k < produced s"
  have "k mod cap \<noteq> p mod cap"
    using assms k by (intro mod_apart) (auto simp: data_inv_def)
  then show "((rslots s)(p mod cap := y)) (k mod cap) = sent s ! k"
    using assms k by (simp add: data_inv_def)
qed

lemma knows_update [simp]:
  "producer_knows cap (s\<lparr>ppc := a\<rparr>) pc = producer_knows cap s pc"
  "producer_knows cap (s\<lparr>cpc := b\<rparr>) pc = producer_knows cap s pc"
  "producer_knows cap (s\<lparr>kpc := k\<rparr>) pc = producer_knows cap s pc"
  "producer_knows cap (s\<lparr>data_ev := n\<rparr>) pc = producer_knows cap s pc"
  "producer_knows cap (s\<lparr>space_ev := n\<rparr>) pc = producer_knows cap s pc"
  "producer_knows cap (s\<lparr>closed_flag := f\<rparr>) pc = producer_knows cap s pc"
  "consumer_knows cap (s\<lparr>ppc := a\<rparr>) qc = consumer_knows cap s qc"
  "consumer_knows cap (s\<lparr>cpc := b\<rparr>) qc = consumer_knows cap s qc"
  "consumer_knows cap (s\<lparr>kpc := k\<rparr>) qc = consumer_knows cap s qc"
  "consumer_knows cap (s\<lparr>data_ev := n\<rparr>) qc = consumer_knows cap s qc"
  "consumer_knows cap (s\<lparr>space_ev := n\<rparr>) qc = consumer_knows cap s qc"
  "consumer_knows cap (s\<lparr>closed_flag := f\<rparr>) qc = consumer_knows cap s qc"
  "consumer_knows cap (s\<lparr>rslots := m\<rparr>) qc = consumer_knows cap s qc"
  by (cases pc; simp)+ (cases qc; simp)+

text \<open>The peer's counter moves only in the direction that keeps what a thread knows.\<close>

lemma producer_knows_taken:
  "producer_knows cap s pc \<Longrightarrow> taken s \<le> c \<Longrightarrow> producer_knows cap (s\<lparr>taken := c, got := g\<rparr>) pc"
  by (cases pc) auto

lemma consumer_knows_produced:
  "consumer_knows cap s pc \<Longrightarrow> length (sent s) = produced s \<Longrightarrow>
   consumer_knows cap (s\<lparr>produced := produced s + 1, sent := sent s @ [x]\<rparr>) pc"
  by (cases pc) (auto simp: nth_append)

lemma data_inv_step: "ring_step cap s s' \<Longrightarrow> data_inv cap s \<Longrightarrow> data_inv cap s'"
proof (induction rule: ring_step.induct)
  case (push_write_part s x p torn)
  then show ?case
    using slot_write_harmless[OF push_write_part(2,1), of torn] by (simp add: data_inv_def)
next
  case (push_write_done s x p)
  then show ?case
    using slot_write_harmless[OF push_write_done(2,1), of x] by (simp add: data_inv_def)
next
  case (push_store s x p)
  then have "\<forall>k. taken s \<le> k \<and> k < p + 1 \<longrightarrow> rslots s (k mod cap) = (sent s @ [x]) ! k"
    by (auto simp: data_inv_def nth_append less_Suc_eq)
  with push_store consumer_knows_produced[of cap s "cpc s" x] show ?case
    by (simp add: data_inv_def)
next
  case (pop_store s x c)
  then show ?case
    using producer_knows_taken[of cap s "ppc s" "c + 1" "got s @ [x]"]
    by (simp add: data_inv_def take_Suc_conv_app_nth)
qed (simp_all add: data_inv_def)

lemma reachable_data_inv: "ring_reachable cap s \<Longrightarrow> data_inv cap s"
  by (induction rule: ring_reachable.induct) (auto intro: data_inv_start data_inv_step)

section \<open>No lost wake-up\<close>

text \<open>
  A thread that found nothing to do may block only if its event is set whenever there is
  work again, or the peer is about to set it; and a closed ring wakes every waiter.
\<close>

fun consumer_stale :: "'a ring \<Rightarrow> 'a consumer_pc \<Rightarrow> bool" where
  "consumer_stale s (C_load_consumer p) \<longleftrightarrow> p < produced s"
| "consumer_stale s C_check_flag \<longleftrightarrow> taken s < produced s"
| "consumer_stale s C_poll \<longleftrightarrow> taken s < produced s"
| "consumer_stale s _ \<longleftrightarrow> False"

fun producer_stale :: "nat \<Rightarrow> 'a ring \<Rightarrow> 'a producer_pc \<Rightarrow> bool" where
  "producer_stale cap s (P_check_flag x) \<longleftrightarrow> produced s < taken s + cap"
| "producer_stale cap s (P_poll x) \<longleftrightarrow> produced s < taken s + cap"
| "producer_stale cap s _ \<longleftrightarrow> False"

definition wake_inv :: "nat \<Rightarrow> 'a ring \<Rightarrow> bool" where
  "wake_inv cap s \<longleftrightarrow>
     (consumer_stale s (cpc s) \<longrightarrow> 0 < data_ev s \<or> ppc s = P_notify) \<and>
     (producer_stale cap s (ppc s) \<longrightarrow> 0 < space_ev s \<or> cpc s = C_notify) \<and>
     (closed_flag s \<longleftrightarrow> kpc s \<noteq> K_open) \<and>
     (cpc s = C_poll \<and> closed_flag s \<longrightarrow> 0 < data_ev s \<or> kpc s = K_wake_data) \<and>
     ((\<exists>x. ppc s = P_poll x) \<and> closed_flag s \<longrightarrow>
        0 < space_ev s \<or> kpc s \<in> {K_wake_data, K_wake_space})"

lemma stale_update [simp]:
  "consumer_stale (s\<lparr>ppc := a\<rparr>) qc = consumer_stale s qc"
  "consumer_stale (s\<lparr>cpc := b\<rparr>) qc = consumer_stale s qc"
  "consumer_stale (s\<lparr>kpc := k\<rparr>) qc = consumer_stale s qc"
  "consumer_stale (s\<lparr>data_ev := n\<rparr>) qc = consumer_stale s qc"
  "consumer_stale (s\<lparr>space_ev := n\<rparr>) qc = consumer_stale s qc"
  "consumer_stale (s\<lparr>closed_flag := f\<rparr>) qc = consumer_stale s qc"
  "consumer_stale (s\<lparr>rslots := m\<rparr>) qc = consumer_stale s qc"
  "producer_stale cap (s\<lparr>ppc := a\<rparr>) pc = producer_stale cap s pc"
  "producer_stale cap (s\<lparr>cpc := b\<rparr>) pc = producer_stale cap s pc"
  "producer_stale cap (s\<lparr>kpc := k\<rparr>) pc = producer_stale cap s pc"
  "producer_stale cap (s\<lparr>data_ev := n\<rparr>) pc = producer_stale cap s pc"
  "producer_stale cap (s\<lparr>space_ev := n\<rparr>) pc = producer_stale cap s pc"
  "producer_stale cap (s\<lparr>closed_flag := f\<rparr>) pc = producer_stale cap s pc"
  "producer_stale cap (s\<lparr>rslots := m\<rparr>) pc = producer_stale cap s pc"
  by (cases qc; simp)+ (cases pc; simp)+

lemma wake_inv_start: "wake_inv cap (ring_start mem)"
  by (simp add: wake_inv_def ring_start_def)

lemma wake_inv_step: "ring_step cap s s' \<Longrightarrow> data_inv cap s \<Longrightarrow> wake_inv cap s \<Longrightarrow> wake_inv cap s'"
proof (induction rule: ring_step.induct)
  case (push_is_full s x p)
  then show ?case by (auto simp: wake_inv_def data_inv_def)
next
  case (pop_is_empty s p)
  then show ?case by (auto simp: wake_inv_def data_inv_def)
qed (simp_all add: wake_inv_def)

lemma reachable_wake_inv: "ring_reachable cap s \<Longrightarrow> wake_inv cap s"
  by (induction rule: ring_reachable.induct)
     (auto intro: wake_inv_start wake_inv_step reachable_data_inv)

section \<open>What a reachable ring guarantees\<close>

lemma delivered_prefix:
  assumes "ring_reachable cap s"
  shows "got s = take (length (got s)) (sent s)" "length (sent s) \<le> length (got s) + cap"
  using reachable_data_inv[OF assms] by (auto simp: data_inv_def)

text \<open>The writer never touches a slot the reader may be copying.\<close>

lemma writer_reader_apart:
  assumes "ring_reachable cap s" "ppc s = P_write x p" "cpc s = C_copy c"
  shows "p mod cap \<noteq> c mod cap"
  using reachable_data_inv[OF assms(1)] assms(2,3) mod_apart[of c p cap]
  by (auto simp: data_inv_def)

lemma blocked_consumer:
  assumes "ring_reachable cap s" "cpc s = C_poll" "data_ev s = 0"
  shows "(taken s = produced s \<or> ppc s = P_notify) \<and> (closed_flag s \<longrightarrow> kpc s = K_wake_data)"
  using reachable_wake_inv[OF assms(1)] reachable_data_inv[OF assms(1)] assms(2,3)
  by (auto simp: wake_inv_def data_inv_def)

lemma blocked_producer:
  assumes "ring_reachable cap s" "ppc s = P_poll x" "space_ev s = 0"
  shows "(produced s = taken s + cap \<or> cpc s = C_notify) \<and>
    (closed_flag s \<longrightarrow> kpc s \<in> {K_wake_data, K_wake_space})"
  using reachable_wake_inv[OF assms(1)] reachable_data_inv[OF assms(1)] assms(2,3)
  by (auto simp: wake_inv_def data_inv_def)

lemma never_both_blocked:
  assumes "ring_reachable cap s" "0 < cap" "cpc s = C_poll" "data_ev s = 0" "ppc s = P_poll x"
  shows "0 < space_ev s"
  using blocked_consumer[OF assms(1,3,4)] blocked_producer[OF assms(1,5)] assms(2,3,5)
  by (cases "space_ev s") auto

end
