(* ===== verification/Metadata.thy ===== *)
theory Metadata
  imports Ring_Record
begin

text \<open>
  Operation metadata, \<open>packages/wmfs/wmfs/protocol/metadata.py\<close>: the dataclasses that
  describe a plugin, and the validation every catalog passes before it is used. An
  expression's \<open>kind\<close> and \<open>value\<close> are one constructor; the constructors named \<open>Other\<close>
  stand for kinds outside the schema, which the code rejects.
\<close>

lemma find_SomeD: "find P xs = Some x \<Longrightarrow> x \<in> set xs \<and> P x"
  by (induction xs) (auto split: if_splits)

section \<open>The dataclasses\<close>

definition MAX_EXPRESSION_DEPTH :: nat where "MAX_EXPRESSION_DEPTH = 16"
definition MAX_OUTPUTS :: nat where "MAX_OUTPUTS = 8"
definition MAX_RANK :: nat where "MAX_RANK = 16"
definition SUPPORTED_OUTPUT_DTYPES :: "string set" where
  "SUPPORTED_OUTPUT_DTYPES = {''float32'', ''float64'', ''int64'', ''uint8''}"

lemmas metadata_consts = MAX_EXPRESSION_DEPTH_def MAX_OUTPUTS_def MAX_RANK_def SUPPORTED_OUTPUT_DTYPES_def

record TensorParameter =
  tp_name :: string
  tp_access :: string
  tp_dtype_variable :: "string option"
  tp_dtypes :: "string list"

record ScalarParameter =
  sp_name :: string
  sp_kind :: string
  sp_required :: bool
  sp_default :: "sval option"
  sp_enum_name :: "string option"
  sp_enum_values :: "ustr list"

record DTypeVariable =
  dv_name :: string
  dv_dtypes :: "string list"

datatype DimensionExpression =
    DConstant int
  | DInputAxis int int
  | DMinimum "DimensionExpression list"
  | DSelect int DimensionExpression DimensionExpression
  | DOther string

datatype DTypeExpression =
    TFixed string
  | TInput int
  | TVariable string
  | TPromote int int
  | TOther string

datatype ShapeExpression =
    SameShapeAsInput int
  | Dimensions "DimensionExpression list"
  | ShapeOther string

record KnownOutput =
  ko_shape :: ShapeExpression
  ko_dtype :: DTypeExpression

record OutputPlan =
  pl_name :: string
  pl_known :: "KnownOutput option"

record VjpMetadata =
  vjp_operation_id :: int
  saved_inputs :: "int list"
  saved_outputs :: "int list"
  output_cotangents :: "int list"
  input_gradients :: "int list"
  vjp_scalar_parameters :: "int list"

record OperationMetadata =
  om_name :: string
  tensor_inputs :: "TensorParameter list"
  tensor_outputs :: "TensorParameter list"
  scalar_parameters :: "ScalarParameter list"
  om_operation_id :: int
  output_plans :: "OutputPlan list"
  vjp :: "VjpMetadata option"
  internal :: bool
  dtype_variables :: "DTypeVariable list"

record PluginMetadata =
  pm_name :: string
  pm_version :: string
  pm_protocol_version :: int
  pm_operations :: "OperationMetadata list"
  pm_fingerprint :: int
  pm_metadata_version :: int

section \<open>Validation of expressions\<close>

definition validate_index :: "int \<Rightarrow> nat \<Rightarrow> unit result" where
  "validate_index i n = reject (i < 0 \<or> int n \<le> i) (ValueError ''Output expression references an invalid index'')"

fun validate_dimension :: "DimensionExpression \<Rightarrow> OperationMetadata \<Rightarrow> nat \<Rightarrow> unit result" where
  "validate_dimension (DConstant n) op depth =
     (if MAX_EXPRESSION_DEPTH \<le> depth then Inl (ValueError ''Output dimension expression is too deeply nested'')
      else reject (n \<le> 0) (ValueError ''Output dimensions must be positive''))"
| "validate_dimension (DInputAxis i axis) op depth =
     (if MAX_EXPRESSION_DEPTH \<le> depth then Inl (ValueError ''Output dimension expression is too deeply nested'')
      else ebind (validate_index i (length (tensor_inputs op))) (\<lambda>_.
      reject (axis < 0 \<or> int MAX_RANK \<le> axis) (ValueError ''Output dimension references an invalid input axis'')))"
| "validate_dimension (DMinimum values) op depth =
     (if MAX_EXPRESSION_DEPTH \<le> depth then Inl (ValueError ''Output dimension expression is too deeply nested'')
      else if values = [] then Inl (ValueError ''Minimum output dimension requires an operand'')
      else eall (\<lambda>v. validate_dimension v op (depth + 1)) values)"
| "validate_dimension (DSelect p a b) op depth =
     (if MAX_EXPRESSION_DEPTH \<le> depth then Inl (ValueError ''Output dimension expression is too deeply nested'')
      else ebind (validate_index p (length (scalar_parameters op))) (\<lambda>_.
      if sp_kind (scalar_parameters op ! nat p) \<noteq> ''boolean''
      then Inl (ValueError ''Output dimension selection requires a Boolean scalar'')
      else ebind (validate_dimension a op (depth + 1)) (\<lambda>_. validate_dimension b op (depth + 1))))"
| "validate_dimension (DOther k) op depth =
     (if MAX_EXPRESSION_DEPTH \<le> depth then Inl (ValueError ''Output dimension expression is too deeply nested'')
      else Inl (ValueError ''Unknown output dimension expression''))"

fun validate_dtype :: "DTypeExpression \<Rightarrow> OperationMetadata \<Rightarrow> unit result" where
  "validate_dtype (TFixed d) op = reject (d \<notin> SUPPORTED_OUTPUT_DTYPES) (ValueError ''Output plan has an invalid dtype'')"
| "validate_dtype (TInput i) op = validate_index i (length (tensor_inputs op))"
| "validate_dtype (TPromote i p) op =
     ebind (validate_index i (length (tensor_inputs op))) (\<lambda>_.
     ebind (validate_index p (length (scalar_parameters op))) (\<lambda>_.
     reject (sp_kind (scalar_parameters op ! nat p) = ''text'')
       (ValueError ''Text scalars cannot participate in dtype promotion'')))"
| "validate_dtype (TVariable v) op =
     reject (v \<notin> dv_name ` set (dtype_variables op)) (ValueError ''Output plan has an unknown dtype variable'')"
| "validate_dtype (TOther k) op = Inl (ValueError ''Output plan has an unknown dtype expression'')"

fun validate_shape :: "ShapeExpression \<Rightarrow> OperationMetadata \<Rightarrow> unit result" where
  "validate_shape (SameShapeAsInput i) op = validate_index i (length (tensor_inputs op))"
| "validate_shape (Dimensions ds) op =
     (if ds = [] \<or> MAX_RANK < length ds then Inl (ValueError ''Output plan has an invalid rank'')
      else eall (\<lambda>d. validate_dimension d op 0) ds)"
| "validate_shape (ShapeOther k) op = Inl (ValueError ''Output plan has an unknown shape expression'')"

definition validate_known_output :: "KnownOutput \<Rightarrow> OperationMetadata \<Rightarrow> unit result" where
  "validate_known_output known op =
     ebind (validate_shape (ko_shape known) op) (\<lambda>_. validate_dtype (ko_dtype known) op)"

section \<open>Validation of operations\<close>

definition validate_dtypes :: "string list \<Rightarrow> unit result" where
  "validate_dtypes ds =
     reject (ds = [] \<or> \<not> distinct ds \<or> \<not> set ds \<subseteq> SUPPORTED_OUTPUT_DTYPES)
       (ValueError ''has an invalid supported dtype set'')"

text \<open>\<open>_scalar_matches_kind\<close>; in Python a \<open>bool\<close> is an \<open>int\<close>, which the code excludes.\<close>

definition scalar_matches_kind :: "sval \<Rightarrow> string \<Rightarrow> bool" where
  "scalar_matches_kind v k =
     (if k = ''boolean'' then (case v of SBool _ \<Rightarrow> True | _ \<Rightarrow> False)
      else if k = ''float64'' then (case v of SFloat _ \<Rightarrow> True | SInt _ \<Rightarrow> True | _ \<Rightarrow> False)
      else if k = ''int64'' then (case v of SInt _ \<Rightarrow> True | _ \<Rightarrow> False)
      else (case v of SText _ \<Rightarrow> True | _ \<Rightarrow> False))"

definition SCALAR_KINDS :: "string list" where "SCALAR_KINDS = [''boolean'', ''float64'', ''int64'', ''text'']"

definition validate_scalar :: "ScalarParameter \<Rightarrow> unit result" where
  "validate_scalar s =
     (if sp_name s = ''out'' then Inl (ValueError ''Scalar parameter name 'out' is reserved'')
      else if sp_kind s \<notin> set SCALAR_KINDS then Inl (ValueError ''Scalar has an invalid kind'')
      else if sp_required s \<and> sp_default s \<noteq> None then Inl (ValueError ''Required scalar cannot have a default'')
      else if \<not> sp_required s \<and> sp_default s = None then Inl (ValueError ''Optional scalar requires a default'')
      else case sp_enum_name s of
        None \<Rightarrow> (case sp_default s of
            Some v \<Rightarrow> reject (\<not> scalar_matches_kind v (sp_kind s)) (ValueError ''Scalar has an invalid default'')
          | None \<Rightarrow> Inr ())
      | Some _ \<Rightarrow>
          if sp_kind s \<noteq> ''int64'' \<or> sp_enum_values s = [] then Inl (ValueError ''Scalar has an invalid enum'')
          else if \<not> distinct (sp_enum_values s) then Inl (ValueError ''Scalar has duplicate enum values'')
          else (case sp_default s of
              Some v \<Rightarrow> reject (v \<notin> SText ` set (sp_enum_values s)) (ValueError ''Scalar has an invalid enum default'')
            | None \<Rightarrow> Inr ()))"

definition validate_tensor_input :: "OperationMetadata \<Rightarrow> TensorParameter \<Rightarrow> unit result" where
  "validate_tensor_input op p =
     (case tp_dtype_variable p of
        Some v \<Rightarrow> reject (v \<notin> dv_name ` set (dtype_variables op)) (ValueError ''Tensor has an unknown dtype variable'')
      | None \<Rightarrow> if tp_dtypes p \<noteq> [] then validate_dtypes (tp_dtypes p) else Inr ())"

definition validate_plan :: "OperationMetadata \<Rightarrow> TensorParameter \<times> OutputPlan \<Rightarrow> unit result" where
  "validate_plan op = (\<lambda>(p, plan).
     if pl_name plan \<noteq> tp_name p then Inl (ValueError ''output plan does not match'')
     else case pl_known plan of None \<Rightarrow> Inr () | Some known \<Rightarrow> validate_known_output known op)"

definition validate_operation_metadata :: "OperationMetadata \<Rightarrow> unit result" where
  "validate_operation_metadata op =
     (if om_operation_id op \<le> 0 then Inl (ValueError ''Operation has an invalid operation ID'')
      else if length (output_plans op) \<noteq> length (tensor_outputs op)
      then Inl (ValueError ''output plans do not match its outputs'')
      else if MAX_OUTPUTS < length (output_plans op) then Inl (ValueError ''Operation declares too many outputs'')
      else if list_ex (\<lambda>p. pl_known p = None) (output_plans op) \<and>
              list_ex (\<lambda>t. tp_access t = ''readWrite'') (tensor_inputs op)
      then Inl (ValueError ''Operation cannot plan dynamic outputs from mutable inputs'')
      else
      ebind (eall validate_scalar (scalar_parameters op)) (\<lambda>_.
      if \<not> distinct (map dv_name (dtype_variables op))
      then Inl (ValueError ''Operation has duplicate dtype variables'')
      else
      ebind (eall (\<lambda>v. validate_dtypes (dv_dtypes v)) (dtype_variables op)) (\<lambda>_.
      ebind (eall (validate_tensor_input op) (tensor_inputs op)) (\<lambda>_.
      eall (validate_plan op) (zip (tensor_outputs op) (output_plans op))))))"

section \<open>Validation of a plugin\<close>

definition invalid_indices :: "int list \<Rightarrow> nat \<Rightarrow> bool" where
  "invalid_indices is n \<longleftrightarrow> \<not> distinct is \<or> list_ex (\<lambda>i. i < 0 \<or> int n \<le> i) is"

text \<open>Operation IDs are unique when \<open>_validate_vjp\<close> runs, so \<open>target is operation\<close> is
  equality of their IDs.\<close>

definition validate_vjp :: "OperationMetadata list \<Rightarrow> OperationMetadata \<Rightarrow> unit result" where
  "validate_vjp ops op =
     (case vjp op of None \<Rightarrow> Inr () | Some v \<Rightarrow>
      case find (\<lambda>o'. om_operation_id o' = vjp_operation_id v) ops of
        None \<Rightarrow> Inl (ValueError ''Operation references a missing VJP'')
      | Some target \<Rightarrow>
      if om_operation_id target = om_operation_id op \<or> vjp target \<noteq> None
      then Inl (ValueError ''VJP operations cannot themselves declare a VJP'')
      else if \<not> internal target then Inl (ValueError ''VJP operations must be internal'')
      else if list_ex (\<lambda>t. tp_access t \<noteq> ''readOnly'') (tensor_inputs target)
      then Inl (ValueError ''VJP tensor inputs must be read-only'')
      else if output_cotangents v = [] \<or> input_gradients v = []
      then Inl (ValueError ''VJP metadata must declare cotangents and gradients'')
      else
      ebind (eall (\<lambda>(is, n). reject (invalid_indices is n) (ValueError ''Operation has an invalid VJP reference''))
        [(saved_inputs v, length (tensor_inputs op)), (saved_outputs v, length (tensor_outputs op)),
         (output_cotangents v, length (tensor_outputs op)), (input_gradients v, length (tensor_inputs op)),
         (vjp_scalar_parameters v, length (scalar_parameters op))]) (\<lambda>_.
      if length (tensor_inputs target) \<noteq> length (saved_inputs v) + length (saved_outputs v) + length (output_cotangents v)
      then Inl (ValueError ''VJP tensor inputs do not match its metadata'')
      else if length (tensor_outputs target) \<noteq> length (input_gradients v)
      then Inl (ValueError ''VJP tensor outputs do not match its input gradients'')
      else if length (scalar_parameters target) \<noteq> length (vjp_scalar_parameters v)
      then Inl (ValueError ''VJP scalar parameters do not match its metadata'')
      else eall (\<lambda>(t, i). reject (sp_kind t \<noteq> sp_kind (scalar_parameters op ! nat i))
             (ValueError ''VJP scalar parameter kinds do not match''))
           (zip (scalar_parameters target) (vjp_scalar_parameters v))))"

text \<open>\<open>validate_plugin_metadata\<close>; \<open>expected\<close> is the recomputed fingerprint.\<close>

definition validate_plugin_metadata :: "(PluginMetadata \<Rightarrow> int) \<Rightarrow> bool \<Rightarrow> PluginMetadata \<Rightarrow> unit result" where
  "validate_plugin_metadata expected check_fingerprint p =
     (let ops = pm_operations p in
      if list_ex (\<lambda>o'. om_operation_id o' = 0) ops then Inl (ValueError ''Plugin operation IDs must be non-zero'')
      else if \<not> distinct (map om_operation_id ops) then Inl (ValueError ''Plugin operation IDs must be unique'')
      else if \<not> distinct (map om_name ops) then Inl (ValueError ''Plugin operation names must be unique'')
      else
      ebind (eall (\<lambda>o'. ebind (validate_operation_metadata o') (\<lambda>_. validate_vjp ops o')) ops) (\<lambda>_.
      if pm_metadata_version p \<notin> {1, 2} then Inl (ValueError ''Plugin metadata version is unsupported'')
      else reject (check_fingerprint \<and> pm_fingerprint p \<noteq> expected p) (ValueError ''Plugin metadata fingerprint'')))"

section \<open>Decoding expressions from a reader\<close>

text \<open>\<open>_dimension_from_reader\<close>: the reader's tree is the same shape; a tree too deep is
  refused before it is built. Any kind that is not one of the first three is read as a
  selection, which the schema's fourth case is; a reader has no other.\<close>

fun dimension_from_reader :: "nat \<Rightarrow> DimensionExpression \<Rightarrow> DimensionExpression result" where
  "dimension_from_reader depth (DConstant n) =
     (if MAX_EXPRESSION_DEPTH \<le> depth then Inl (ValueError ''Output dimension expression is too deeply nested'')
      else Inr (DConstant n))"
| "dimension_from_reader depth (DInputAxis i a) =
     (if MAX_EXPRESSION_DEPTH \<le> depth then Inl (ValueError ''Output dimension expression is too deeply nested'')
      else Inr (DInputAxis i a))"
| "dimension_from_reader depth (DMinimum xs) =
     (if MAX_EXPRESSION_DEPTH \<le> depth then Inl (ValueError ''Output dimension expression is too deeply nested'')
      else ebind (emap (dimension_from_reader (depth + 1)) xs) (\<lambda>ys. Inr (DMinimum ys)))"
| "dimension_from_reader depth (DSelect p a b) =
     (if MAX_EXPRESSION_DEPTH \<le> depth then Inl (ValueError ''Output dimension expression is too deeply nested'')
      else ebind (dimension_from_reader (depth + 1) a) (\<lambda>a'.
           ebind (dimension_from_reader (depth + 1) b) (\<lambda>b'. Inr (DSelect p a' b'))))"
| "dimension_from_reader depth (DOther k) =
     (if MAX_EXPRESSION_DEPTH \<le> depth then Inl (ValueError ''Output dimension expression is too deeply nested'')
      else Inl AttributeError)"

fun depth_of :: "DimensionExpression \<Rightarrow> nat" where
  "depth_of (DMinimum xs) = Suc (Max (insert 0 (set (map depth_of xs))))"
| "depth_of (DSelect p a b) = Suc (max (depth_of a) (depth_of b))"
| "depth_of _ = 1"

fun in_schema :: "DimensionExpression \<Rightarrow> bool" where
  "in_schema (DMinimum xs) = list_all in_schema xs"
| "in_schema (DSelect p a b) = (in_schema a \<and> in_schema b)"
| "in_schema (DOther k) = False"
| "in_schema _ = True"

end
