(* ===== verification/Arena.thy ===== *)
theory Arena
  imports Prelude "HOL-Library.Product_Lexorder" "HOL-Library.Multiset"
begin

text \<open>
  The arena free list of \<open>BufferManager\<close> in \<open>packages/wmfs/wmfs/memory/buffers.py\<close>:
  first-fit allocation with splitting (the search of \<open>_allocate_arena\<close>), release with
  sorting and merging of neighbours (\<open>_release_arena\<close>), and the alignment and shape helpers
  at the end of the file. The free list stays ordered and fully merged, and the bytes it
  covers are exactly those not allocated.
\<close>

section \<open>Helpers\<close>

definition ARENA_ALIGNMENT :: int where "ARENA_ALIGNMENT = 64"

definition align :: "int \<Rightarrow> int \<Rightarrow> int" where
  "align value alignment = (value + alignment - 1) div alignment * alignment"

fun element_count_from :: "int \<Rightarrow> int list \<Rightarrow> int" where
  "element_count_from acc [] = acc"
| "element_count_from acc (dimension # ds) = element_count_from (acc * dimension) ds"

definition element_count :: "int list \<Rightarrow> int" where
  "element_count shape = element_count_from 1 shape"

text \<open>\<open>strides\<close> is built backwards: the last stride is the head of the list here.\<close>

fun stride_loop :: "int list \<Rightarrow> int list \<Rightarrow> int list" where
  "stride_loop strides [] = strides"
| "stride_loop strides (dimension # ds) = stride_loop ((hd strides * dimension) # strides) ds"

definition contiguous_strides :: "int list \<Rightarrow> int list" where
  "contiguous_strides shape = stride_loop [1] (rev (drop 1 shape))"

lemma align_bounds:
  assumes "0 < a"
  shows "v \<le> align v a" "align v a < v + a" "a dvd align v a"
proof -
  have "(v + a - 1) mod a = v + a - 1 - align v a"
    by (simp add: align_def minus_div_mult_eq_mod)
  moreover have "0 \<le> (v + a - 1) mod a" "(v + a - 1) mod a < a"
    using assms by auto
  ultimately show "v \<le> align v a" "align v a < v + a"
    by linarith+
  show "a dvd align v a" by (simp add: align_def)
qed

lemma element_count_from_eq: "element_count_from c ds = c * prod_list ds"
  by (induction ds arbitrary: c) auto

lemma element_count_eq: "element_count ds = prod_list ds"
  by (simp add: element_count_def element_count_from_eq)

text \<open>The reference definition of row-major strides.\<close>

fun row_major :: "int list \<Rightarrow> int list" where
  "row_major [] = [1]"
| "row_major [d] = [1]"
| "row_major (d # ds) = prod_list ds # row_major ds"

lemma stride_loop_append: "stride_loop acc (xs @ ys) = stride_loop (stride_loop acc xs) ys"
  by (induction xs arbitrary: acc) auto

lemma hd_stride_loop: "acc \<noteq> [] \<Longrightarrow> hd (stride_loop acc xs) = hd acc * prod_list xs \<and> stride_loop acc xs \<noteq> []"
  by (induction xs arbitrary: acc) auto

lemma contiguous_strides_row_major: "contiguous_strides shape = row_major shape"
proof (induction shape rule: row_major.induct)
  case (3 d d2 ds)
  have "contiguous_strides (d # d2 # ds) = stride_loop (stride_loop [1] (rev ds)) [d2]"
    by (simp add: contiguous_strides_def stride_loop_append)
  also have "\<dots> = prod_list (d2 # ds) # contiguous_strides (d2 # ds)"
    using hd_stride_loop[of "[1]" "rev ds"]
    by (simp add: contiguous_strides_def mult.commute)
  finally show ?case using 3 by simp
qed (simp_all add: contiguous_strides_def)

section \<open>The free list\<close>

type_synonym block = "int \<times> int"

text \<open>The first-fit search: the offset found and the remaining list.\<close>

fun arena_take :: "int \<Rightarrow> block list \<Rightarrow> (int \<times> block list) option" where
  "arena_take required [] = None"
| "arena_take required ((offset, len) # rest) =
     (if len < required
      then (case arena_take required rest of
              None \<Rightarrow> None
            | Some (found, rest') \<Rightarrow> Some (found, (offset, len) # rest'))
      else Some (offset, (if len > required then [(offset + required, len - required)] else []) @ rest))"

text \<open>The merge loop; the head of \<open>merged\<close> is its last element.\<close>

fun merge_loop :: "block list \<Rightarrow> block list \<Rightarrow> block list" where
  "merge_loop merged [] = rev merged"
| "merge_loop [] (b # rest) = merge_loop [b] rest"
| "merge_loop ((po, ps) # merged) ((offset, sz) # rest) =
     (if po + ps = offset then merge_loop ((po, ps + sz) # merged) rest
      else merge_loop ((offset, sz) # (po, ps) # merged) rest)"

definition arena_put :: "int \<Rightarrow> int \<Rightarrow> block list \<Rightarrow> block list" where
  "arena_put offset len free = merge_loop [] (sort (free @ [(offset, len)]))"

section \<open>Ordered and merged\<close>

text \<open>Blocks in order, non-empty and apart from each other: no two neighbours touch.\<close>

fun gapped :: "int \<Rightarrow> block list \<Rightarrow> bool" where
  "gapped e [] \<longleftrightarrow> True"
| "gapped e ((offset, len) # rest) \<longleftrightarrow> e < offset \<and> 0 < len \<and> gapped (offset + len) rest"

text \<open>In order, possibly touching.\<close>

fun ordered :: "int \<Rightarrow> block list \<Rightarrow> bool" where
  "ordered e [] \<longleftrightarrow> True"
| "ordered e ((offset, len) # rest) \<longleftrightarrow> e \<le> offset \<and> 0 < len \<and> ordered (offset + len) rest"

definition bytes_of :: "block \<Rightarrow> int set" where
  "bytes_of b = {fst b..<fst b + snd b}"

definition covered :: "block list \<Rightarrow> int set" where
  "covered bs = (\<Union>b \<in> set bs. bytes_of b)"

lemma covered_simps [simp]:
  "covered [] = {}" "covered (b # bs) = bytes_of b \<union> covered bs"
  "covered (xs @ ys) = covered xs \<union> covered ys" "covered (rev xs) = covered xs"
  by (auto simp: covered_def)

lemma gapped_weaken: "gapped e bs \<Longrightarrow> e' \<le> e \<Longrightarrow> gapped e' bs"
  by (cases bs) auto

lemma gapped_ordered: "gapped e bs \<Longrightarrow> ordered e bs"
  by (induction e bs rule: gapped.induct) auto

lemma ordered_weaken: "ordered e bs \<Longrightarrow> e' \<le> e \<Longrightarrow> ordered e' bs"
  by (cases bs) auto

lemma ordered_covered: "ordered e bs \<Longrightarrow> x \<in> covered bs \<Longrightarrow> e \<le> x"
  by (induction e bs rule: ordered.induct) (force simp: bytes_of_def)+

lemma gapped_covered: "gapped e bs \<Longrightarrow> x \<in> covered bs \<Longrightarrow> e < x"
  by (induction e bs rule: gapped.induct) (force simp: bytes_of_def)+

lemma arena_take_None: "arena_take required bs = None \<longleftrightarrow> (\<forall>b \<in> set bs. snd b < required)"
  by (induction required bs rule: arena_take.induct) (auto split: option.splits)

lemma arena_take_Some:
  assumes "arena_take required bs = Some (offset, bs')" "gapped e bs" "0 < required"
  shows "gapped e bs' \<and> e < offset \<and> bytes_of (offset, required) \<subseteq> covered bs \<and>
    covered bs' = covered bs - bytes_of (offset, required)"
  using assms
proof (induction required bs arbitrary: e bs' rule: arena_take.induct)
  case (2 required o1 l1 rest)
  show ?case
  proof (cases "l1 < required")
    case True
    then obtain r' where r': "arena_take required rest = Some (offset, r')" "bs' = (o1, l1) # r'"
      using 2(2) by (auto split: option.splits)
    note IH = 2(1)[OF True r'(1) _ 2(4), of "o1 + l1"]
    have "bytes_of (o1, l1) \<inter> bytes_of (offset, required) = {}"
      using IH 2(3) by (auto simp: bytes_of_def)
    with IH 2(3) r'(2) show ?thesis by auto
  next
    case False
    then have eq: "offset = o1" "bs' = (if l1 > required then [(o1 + required, l1 - required)] else []) @ rest"
      using 2(2) by auto
    have "x \<notin> bytes_of (o1, required)" if "x \<in> covered rest" for x
      using gapped_covered[of "o1 + l1" rest x] that 2(3) False by (auto simp: bytes_of_def)
    moreover have "bytes_of (o1, l1) = bytes_of (o1, required) \<union> bytes_of (o1 + required, l1 - required)"
      "bytes_of (o1, required) \<inter> bytes_of (o1 + required, l1 - required) = {}"
      using False 2(4) by (auto simp: bytes_of_def)
    moreover have "bytes_of (o1 + required, l1 - required) = {}" if "\<not> l1 > required"
      using that by (auto simp: bytes_of_def)
    ultimately have "covered bs' = covered ((o1, l1) # rest) - bytes_of (offset, required)"
      by (cases "l1 > required") (auto simp: eq)
    moreover have "gapped e bs'" "e < offset" "bytes_of (offset, required) \<subseteq> bytes_of (o1, l1)"
      using False 2(3,4) gapped_weaken[of "o1 + l1" rest e] by (auto simp: eq bytes_of_def)
    ultimately show ?thesis by auto
  qed
qed simp

lemma ordered_sorted: "ordered e bs \<Longrightarrow> sorted bs"
proof (induction e bs rule: ordered.induct)
  case (2 e o1 l1 rest)
  have "\<And>b. b \<in> set rest \<Longrightarrow> o1 < fst b"
  proof -
    fix b assume b: "b \<in> set rest"
    have "ordered e' xs \<Longrightarrow> b \<in> set xs \<Longrightarrow> e' \<le> fst b" for e' xs
      by (induction e' xs rule: ordered.induct) auto
    with b 2(2) show "o1 < fst b" by fastforce
  qed
  with 2 show ?case by (auto simp: less_eq_prod_def)
qed simp

lemma insort_ordered:
  assumes "gapped e bs" "e \<le> offset" "0 < len" "bytes_of (offset, len) \<inter> covered bs = {}"
  shows "ordered e (insort (offset, len) bs)"
  using assms
proof (induction e bs rule: gapped.induct)
  case (2 e o1 l1 rest)
  have dis: "offset + len \<le> o1 \<or> o1 + l1 \<le> offset"
  proof (rule ccontr)
    assume "\<not> ?thesis"
    then have "max offset o1 \<in> bytes_of (offset, len) \<inter> bytes_of (o1, l1)"
      using 2(2,4) by (auto simp: bytes_of_def)
    with 2(5) show False by auto
  qed
  show ?case
  proof (cases "(offset, len) \<le> (o1, l1)")
    case True
    then have "offset + len \<le> o1" using dis 2(2) by (auto simp: less_eq_prod_def)
    with True 2(2-4) show ?thesis by (auto intro: gapped_ordered)
  next
    case False
    then have "o1 + l1 \<le> offset" using dis 2(4) by (auto simp: less_eq_prod_def)
    with False 2 show ?thesis by auto
  qed
qed auto

text \<open>The merge loop yields a fully merged list with the same bytes.\<close>

fun spaced :: "int \<Rightarrow> block list \<Rightarrow> bool" where
  "spaced e [] \<longleftrightarrow> True"
| "spaced e ((offset, len) # before) \<longleftrightarrow> 0 < len \<and> e < offset \<and> spaced e before \<and>
     (\<forall>b \<in> set before. fst b + snd b < offset)"

lemma spaced_rev_gapped: "spaced e bs \<Longrightarrow> gapped e (rev bs)"
proof (induction bs)
  case (Cons b before)
  obtain o1 l1 where b: "b = (o1, l1)" by force
  have snoc: "gapped e' (xs @ [(o1, l1)])"
    if "gapped e' xs" "e' < o1" "0 < l1" "\<forall>b \<in> set xs. fst b + snd b < o1" for e' xs
    using that by (induction e' xs rule: gapped.induct) auto
  show ?case using Cons snoc[of e "rev before"] by (auto simp: b)
qed simp

lemma merge_loop_correct:
  assumes "spaced e merged" "ordered e' rest"
    "\<And>po ps m. merged = (po, ps) # m \<Longrightarrow> po + ps \<le> e'" "merged = [] \<Longrightarrow> e < e'"
    "\<forall>b \<in> set merged. fst b + snd b \<le> e'"
  shows "gapped e (merge_loop merged rest) \<and> covered (merge_loop merged rest) = covered merged \<union> covered rest"
  using assms
proof (induction merged rest arbitrary: e' rule: merge_loop.induct)
  case (1 merged)
  then show ?case by (simp add: spaced_rev_gapped)
next
  case (2 b rest)
  obtain o1 l1 where b: "b = (o1, l1)" by force
  show ?case
    using 2(1)[of "o1 + l1"] 2(2-) by (auto simp: b)
next
  case (3 po ps merged offset sz rest)
  have pos: "0 < ps" "0 < sz" "e < po" "po + ps \<le> offset" "ordered (offset + sz) rest"
    using 3(3,4) 3(5)[OF refl] by auto
  have before: "\<forall>b \<in> set merged. fst b + snd b < po" using 3(3) by simp
  show ?case
  proof (cases "po + ps = offset")
    case True
    have "gapped e (merge_loop ((po, ps + sz) # merged) rest) \<and>
      covered (merge_loop ((po, ps + sz) # merged) rest) = covered ((po, ps + sz) # merged) \<union> covered rest"
      using 3(1)[OF True, of "offset + sz"] 3(3) pos True before by fastforce
    moreover have "bytes_of (po, ps + sz) = bytes_of (po, ps) \<union> bytes_of (offset, sz)"
      using True pos by (auto simp: bytes_of_def)
    ultimately show ?thesis using True by auto
  next
    case False
    have "gapped e (merge_loop ((offset, sz) # (po, ps) # merged) rest) \<and>
      covered (merge_loop ((offset, sz) # (po, ps) # merged) rest)
        = covered ((offset, sz) # (po, ps) # merged) \<union> covered rest"
      using 3(2)[OF False, of "offset + sz"] 3(3) pos False before by fastforce
    with False show ?thesis by auto
  qed
qed

lemma arena_put_correct:
  assumes "gapped e free" "e < offset" "0 < len" "bytes_of (offset, len) \<inter> covered free = {}"
  shows "gapped e (arena_put offset len free) \<and>
    covered (arena_put offset len free) = covered free \<union> bytes_of (offset, len)"
proof -
  have sorted: "sorted free"
    using assms(1) gapped_ordered ordered_sorted by blast
  have "sort (free @ [(offset, len)]) = insort (offset, len) free"
    using sorted by (intro properties_for_sort) (simp_all add: sorted_insort)
  moreover have "ordered e (insort (offset, len) free)"
    using assms by (intro insort_ordered) auto
  then have "ordered (e + 1) (insort (offset, len) free)"
    using assms(1,2) by (cases free) auto
  moreover have "covered (insort (offset, len) free) = covered free \<union> bytes_of (offset, len)"
    by (auto simp: covered_def set_insort_key)
  ultimately show ?thesis
    using merge_loop_correct[of e "[]" "e + 1" "insort (offset, len) free"]
    by (simp add: arena_put_def)
qed

text \<open>A free list that covers the whole arena is one block: release undoes all splitting.\<close>

lemma gapped_whole:
  assumes "gapped e free" "e < 0" "covered free = {0..<n}" "0 < n"
  shows "free = [(0, n)]"
proof (cases free)
  case (Cons b rest)
  obtain o1 l1 where b: "b = (o1, l1)" by force
  have g: "e < o1" "0 < l1" "gapped (o1 + l1) rest" using assms(1) Cons b by auto
  have cov: "bytes_of (o1, l1) \<union> covered rest = {0..<n}" using assms(3) Cons b by simp
  have "0 \<in> bytes_of (o1, l1) \<union> covered rest" using cov assms(4) by simp
  moreover have "o1 \<in> {0..<n}" using cov g(2) by (auto simp: bytes_of_def)
  moreover have "0 \<notin> covered rest" using gapped_covered[OF g(3), of 0] g(2) \<open>o1 \<in> {0..<n}\<close> by auto
  ultimately have o1: "o1 = 0" by (auto simp: bytes_of_def)
  have "l1 \<notin> bytes_of (o1, l1) \<union> covered rest"
    using gapped_covered[OF g(3), of l1] o1 by (auto simp: bytes_of_def)
  then have "n \<le> l1" using cov g(2) by auto
  have "covered rest \<subseteq> {0..<n}" using cov by blast
  then have "x \<notin> covered rest" for x
    using gapped_covered[OF g(3), of x] o1 \<open>n \<le> l1\<close> by fastforce
  then have none: "covered rest = {}" by blast
  have "b' \<in> set rest \<Longrightarrow> bytes_of b' \<noteq> {}" for b'
  proof -
    have "gapped e' xs \<Longrightarrow> b' \<in> set xs \<Longrightarrow> 0 < snd b'" for e' xs
      by (induction e' xs rule: gapped.induct) auto
    then show "b' \<in> set rest \<Longrightarrow> bytes_of b' \<noteq> {}" using g(3) by (auto simp: bytes_of_def)
  qed
  then have "rest = []" using none by (cases rest) (auto simp: covered_def)
  moreover have "l1 - 1 \<in> {0..<n}"
    using cov o1 g(2) none by (auto simp: bytes_of_def)
  ultimately show ?thesis using Cons b o1 \<open>n \<le> l1\<close> by simp
qed (use assms in simp)

end
