(* ===== verification/Buffer_Manager.thy ===== *)
theory Buffer_Manager
  imports Arena State_Result "HOL-Library.AList"
begin

text \<open>
  The shared-memory manager, \<open>BufferManager\<close> of \<open>packages/wmfs/wmfs/memory/buffers.py\<close>:
  memory regions, pooled and arena allocation, collection of released allocations with
  notification of the workers, the bounded cache, and closing. Regions are mutable objects
  shared by handles, so they live in a store keyed by buffer ID. What the operating system
  and the workers decide is an argument: the random numbers, whether resetting a region
  succeeds, whether a recipient retires its buffers. The profile timers are not modelled
  (\<open>profile = False\<close>).
\<close>

section \<open>Regions and handles\<close>

record Region =
  g_generation :: int
  g_byte_length :: int
  g_recipients :: "nat list"
  g_closed :: bool

record SharedBuffer =
  sb_region :: int
  sb_generation :: int
  sb_allocation_id :: int
  sb_offset :: int
  sb_byte_length :: int
  sb_arena :: bool

record TensorDescriptor =
  d_buffer_id :: int
  d_generation :: int
  d_allocation_id :: int
  d_offset :: int
  d_byte_length :: int
  d_dtype :: string
  d_shape :: "int list"
  d_strides :: "int list"

text \<open>\<open>al_alive\<close> is whether the weak reference to the tensor still resolves.\<close>

record Allocation =
  al_buffer :: SharedBuffer
  al_descriptor :: TensorDescriptor
  al_alive :: bool

record PoolStats =
  allocation_requests :: int
  pool_hits :: int
  pool_misses :: int
  memfds_created :: int
  buffers_reclaimed :: int
  buffers_evicted :: int
  buffers_quarantined :: int
  collection_calls :: int
  collection_noops :: int
  allocation_collection_calls :: int
  stats_collection_calls :: int
  allocations_drained :: int
  recipient_notifications :: int
  recipient_notification_batches :: int
  buffers_reset :: int
  buffers_cached :: int

definition no_stats :: PoolStats where
  "no_stats = \<lparr>allocation_requests = 0, pool_hits = 0, pool_misses = 0, memfds_created = 0,
     buffers_reclaimed = 0, buffers_evicted = 0, buffers_quarantined = 0, collection_calls = 0,
     collection_noops = 0, allocation_collection_calls = 0, stats_collection_calls = 0,
     allocations_drained = 0, recipient_notifications = 0, recipient_notification_batches = 0,
     buffers_reset = 0, buffers_cached = 0\<rparr>"

record Manager =
  arena_mode :: bool
  arena_bytes :: int
  max_cached_buffers :: int
  max_cached_bytes :: int
  regions :: "int \<rightharpoonup> Region"
  active :: "int \<rightharpoonup> Allocation"
  active_ids :: "int list"
  free_regions :: "(int \<times> int list) list"
  cached_bytes :: int
  arena_region :: "int option"
  arena_free :: "block list"
  released :: "int list"
  m_closed :: bool
  stats :: PoolStats

text \<open>\<open>BufferManager.__init__\<close>. The dictionary \<open>_free\<close> is an association list from byte
  length to cached regions, the set \<open>_region_ids\<close> is the domain of the region store, and
  \<open>active_ids\<close> lists the domain of \<open>active\<close>.\<close>

definition DEFAULT_ARENA_BYTES :: int where "DEFAULT_ARENA_BYTES = 2 * 1024 * 1024 * 1024"

definition new_manager :: "string \<Rightarrow> int option \<Rightarrow> int \<Rightarrow> int \<Rightarrow> Manager result" where
  "new_manager mode arena max_buffers max_bytes =
     (if mode \<noteq> ''pooled'' \<and> mode \<noteq> ''arena''
      then Inl (ValueError ''Buffer mode must be 'pooled' or 'arena' '')
      else let effective = (case arena of None \<Rightarrow> DEFAULT_ARENA_BYTES | Some n \<Rightarrow> n) in
      if effective \<le> 0 \<or> effective mod ARENA_ALIGNMENT \<noteq> 0 \<or> max_buffers < 0 \<or> max_bytes < 0
      then Inl (ValueError ''Buffer pool limits must be non-negative'')
      else Inr \<lparr>arena_mode = (mode = ''arena''), arena_bytes = effective,
        max_cached_buffers = max_buffers, max_cached_bytes = max_bytes, regions = Map.empty,
        active = Map.empty, active_ids = [], free_regions = [], cached_bytes = 0,
        arena_region = None, arena_free = [], released = [], m_closed = False, stats = no_stats\<rparr>)"

section \<open>Region methods\<close>

definition region_of :: "int \<Rightarrow> Manager \<Rightarrow> Region" where
  "region_of rid m = the (regions m rid)"

definition set_region :: "int \<Rightarrow> Region \<Rightarrow> Manager \<Rightarrow> Manager" where
  "set_region rid g m = m\<lparr>regions := (regions m)(rid \<mapsto> g)\<rparr>"

definition region_close :: "int \<Rightarrow> Manager \<Rightarrow> Manager" where
  "region_close rid m = (if g_closed (region_of rid m) then m
                         else set_region rid ((region_of rid m)\<lparr>g_closed := True\<rparr>) m)"

text \<open>\<open>reset\<close>: fresh zeroed memory under a new generation; \<open>reset_ok\<close> is the outcome of
  \<open>ftruncate\<close> and \<open>mmap\<close>.\<close>

definition region_reset :: "(int \<Rightarrow> bool) \<Rightarrow> int \<Rightarrow> (Manager, unit) st" where
  "region_reset reset_ok rid =
     sbind sget (\<lambda>m. let g = region_of rid m in
     if g_closed g then sraise (RuntimeError ''Shared buffer is closed'')
     else if g_generation g = 0xFFFFFFFF
     then sraise (OverflowError ''Shared buffer generation is exhausted'')
     else if \<not> reset_ok rid then sraise (OSError ''ftruncate'')
     else smod (set_region rid (g\<lparr>g_generation := g_generation g + 1, g_recipients := []\<rparr>)))"

definition ensure_current :: "SharedBuffer \<Rightarrow> (Manager, unit) st" where
  "ensure_current b =
     sbind sget (\<lambda>m.
     sreject (sb_generation b \<noteq> g_generation (region_of (sb_region b) m))
       (RuntimeError ''Shared buffer handle refers to a stale generation''))"

text \<open>\<open>duplicate_fd\<close> of a handle; the result is whether the new descriptor is writable.\<close>

definition duplicate_fd :: "bool \<Rightarrow> SharedBuffer \<Rightarrow> (Manager, bool) st" where
  "duplicate_fd writable b =
     sbind (ensure_current b) (\<lambda>_.
     sbind sget (\<lambda>m.
     if g_closed (region_of (sb_region b) m) then sraise (RuntimeError ''Shared buffer is closed'')
     else sret (writable \<or> sb_arena b)))"

text \<open>\<open>register_recipient\<close>: arena buffers are never retired, so they keep no recipients.\<close>

definition register_recipient :: "nat \<Rightarrow> SharedBuffer \<Rightarrow> (Manager, unit) st" where
  "register_recipient recipient b =
     sbind (ensure_current b) (\<lambda>_.
     if sb_arena b then sret ()
     else smod (\<lambda>m. let g = region_of (sb_region b) m in
            set_region (sb_region b)
              (g\<lparr>g_recipients := (if recipient \<in> set (g_recipients g) then g_recipients g
                                 else g_recipients g @ [recipient])\<rparr>) m))"

section \<open>Allocation\<close>

text \<open>A random number that is nonzero and not in use: the rejection loops of the source.
  \<open>None\<close> when the numbers drawn so far are all rejected.\<close>

fun fresh_id :: "(int \<Rightarrow> bool) \<Rightarrow> int list \<Rightarrow> int option" where
  "fresh_id used [] = None"
| "fresh_id used (r # rs) = (if r = 0 \<or> used r then fresh_id used rs else Some r)"

definition bump :: "(PoolStats \<Rightarrow> PoolStats) \<Rightarrow> (Manager, unit) st" where
  "bump f = smod (\<lambda>m. m\<lparr>stats := f (stats m)\<rparr>)"

definition new_region :: "int list \<Rightarrow> int \<Rightarrow> (Manager, int) st" where
  "new_region random len =
     sbind sget (\<lambda>m.
     case fresh_id (\<lambda>i. regions m i \<noteq> None) random of
       None \<Rightarrow> sraise OutsideModel
     | Some rid \<Rightarrow>
         sbind (bump (\<lambda>s. s\<lparr>memfds_created := memfds_created s + 1\<rparr>)) (\<lambda>_.
         sbind (smod (set_region rid \<lparr>g_generation = 1, g_byte_length = len, g_recipients = [],
                                      g_closed = False\<rparr>)) (\<lambda>_.
         sret rid)))"

text \<open>Updates of the dictionary \<open>_free\<close>: popping the last region of a length removes its key.\<close>

definition free_pop :: "int \<Rightarrow> (int \<times> int list) list \<Rightarrow> (int \<times> (int \<times> int list) list) option" where
  "free_pop len fr =
     (case map_of fr len of
        None \<Rightarrow> None
      | Some rs \<Rightarrow>
          if rs = [] then None
          else Some (last rs,
            (if butlast rs = [] then AList.delete len fr else AList.update len (butlast rs) fr)))"

definition free_push :: "int \<Rightarrow> int \<Rightarrow> (int \<times> int list) list \<Rightarrow> (int \<times> int list) list" where
  "free_push len rid fr =
     AList.update len ((case map_of fr len of None \<Rightarrow> [] | Some rs \<Rightarrow> rs) @ [rid]) fr"

definition cached_count :: "Manager \<Rightarrow> int" where
  "cached_count m = int (sum_list (map (\<lambda>(_, rs). length rs) (free_regions m)))"

definition allocate_pooled :: "int list \<Rightarrow> int \<Rightarrow> int \<Rightarrow> (Manager, SharedBuffer) st" where
  "allocate_pooled random len allocation_id =
     sbind sget (\<lambda>m.
     sbind (case free_pop len (free_regions m) of
              Some (rid, fr) \<Rightarrow>
                sbind (smod (\<lambda>m. m\<lparr>free_regions := fr, cached_bytes := cached_bytes m - len\<rparr>)) (\<lambda>_.
                sbind (bump (\<lambda>s. s\<lparr>pool_hits := pool_hits s + 1\<rparr>)) (\<lambda>_. sret rid))
            | None \<Rightarrow>
                sbind (new_region random len) (\<lambda>rid.
                sbind (bump (\<lambda>s. s\<lparr>pool_misses := pool_misses s + 1\<rparr>)) (\<lambda>_. sret rid))) (\<lambda>rid.
     sbind sget (\<lambda>m.
     sret \<lparr>sb_region = rid, sb_generation = g_generation (region_of rid m),
           sb_allocation_id = allocation_id, sb_offset = 0, sb_byte_length = len,
           sb_arena = False\<rparr>)))"

definition allocate_arena :: "int list \<Rightarrow> int \<Rightarrow> int \<Rightarrow> (Manager, SharedBuffer) st" where
  "allocate_arena random len allocation_id =
     sbind sget (\<lambda>m.
     sbind (case arena_region m of
              Some rid \<Rightarrow> sret (rid, False)
            | None \<Rightarrow>
                sbind (new_region random (arena_bytes m)) (\<lambda>rid.
                sbind (smod (\<lambda>m. m\<lparr>arena_region := Some rid, arena_free := [(0, arena_bytes m)]\<rparr>)) (\<lambda>_.
                sbind (bump (\<lambda>s. s\<lparr>pool_misses := pool_misses s + 1\<rparr>)) (\<lambda>_. sret (rid, True))))) (\<lambda>(rid, created).
     let required = align len ARENA_ALIGNMENT in
     sbind sget (\<lambda>m.
     case arena_take required (arena_free m) of
       None \<Rightarrow> sraise (MemoryError ''Shared-memory arena exhausted'')
     | Some (offset, fr) \<Rightarrow>
         sbind (smod (\<lambda>m. m\<lparr>arena_free := fr\<rparr>)) (\<lambda>_.
         sbind (if created then sret () else bump (\<lambda>s. s\<lparr>pool_hits := pool_hits s + 1\<rparr>)) (\<lambda>_.
         sret \<lparr>sb_region = rid, sb_generation = g_generation (region_of rid m),
               sb_allocation_id = allocation_id, sb_offset = offset, sb_byte_length = len,
               sb_arena = True\<rparr>)))))"

section \<open>Collection\<close>

definition release_arena :: "SharedBuffer \<Rightarrow> Manager \<Rightarrow> Manager" where
  "release_arena b m =
     (let m = m\<lparr>arena_free := arena_put (sb_offset b) (align (sb_byte_length b) ARENA_ALIGNMENT) (arena_free m)\<rparr> in
      case arena_region m of
        Some rid \<Rightarrow> if m_closed m \<and> active_ids m = []
                    then (region_close rid m)\<lparr>arena_region := None\<rparr> else m
      | None \<Rightarrow> m)"

definition drop_active :: "int \<Rightarrow> Manager \<Rightarrow> Manager" where
  "drop_active aid m = m\<lparr>active := (active m)(aid := None), active_ids := remove1 aid (active_ids m)\<rparr>"

text \<open>The drain loop over the released queue: the pooled buffers to retire, how many IDs
  were drained and how many arena buffers were reclaimed.\<close>

fun drain :: "int list \<Rightarrow> Manager \<Rightarrow> SharedBuffer list \<times> nat \<times> Manager" where
  "drain [] m = ([], 0, m)"
| "drain (aid # ids) m =
     (case active m aid of
        None \<Rightarrow> drain ids m
      | Some a \<Rightarrow>
          let b = al_buffer a; m = drop_active aid m in
          if sb_arena b
          then (let (pooled, n, m') = drain ids (release_arena b m) in (pooled, Suc n, m'))
          else (let (pooled, n, m') = drain ids m in (b # pooled, n, m')))"

text \<open>Buffers grouped by recipient, in order of first appearance.\<close>

fun by_recipient :: "(nat \<times> SharedBuffer) list \<Rightarrow> (nat \<times> SharedBuffer list) list \<Rightarrow> (nat \<times> SharedBuffer list) list" where
  "by_recipient [] groups = groups"
| "by_recipient ((r, b) # rest) groups =
     by_recipient rest (AList.update r ((case map_of groups r of None \<Rightarrow> [] | Some bs \<Rightarrow> bs) @ [b]) groups)"

text \<open>The second half of \<open>_reset_or_release_region\<close>: cache the fresh region or evict it.\<close>

definition cache_or_evict :: "int \<Rightarrow> (Manager, unit) st" where
  "cache_or_evict rid =
     sbind (bump (\<lambda>s. s\<lparr>buffers_reset := buffers_reset s + 1\<rparr>)) (\<lambda>_.
     sbind sget (\<lambda>m. let len = g_byte_length (region_of rid m) in
     if m_closed m \<or> cached_count m \<ge> max_cached_buffers m \<or> cached_bytes m + len > max_cached_bytes m
     then sbind (smod (region_close rid)) (\<lambda>_.
          if \<not> m_closed m then bump (\<lambda>s. s\<lparr>buffers_evicted := buffers_evicted s + 1\<rparr>) else sret ())
     else
     sbind (smod (\<lambda>m. m\<lparr>free_regions := free_push len rid (free_regions m),
                       cached_bytes := cached_bytes m + len\<rparr>)) (\<lambda>_.
     bump (\<lambda>s. s\<lparr>buffers_cached := buffers_cached s + 1\<rparr>))))"

definition reset_or_release_region :: "(int \<Rightarrow> bool) \<Rightarrow> int \<Rightarrow> (Manager, unit) st" where
  "reset_or_release_region reset_ok rid =
     sbind sget (\<lambda>m.
     if m_closed m \<or> g_generation (region_of rid m) = 0xFFFFFFFF
     then smod (region_close rid)
     else
     sbind (on_error (region_reset reset_ok rid) (region_close rid)) (\<lambda>_. cache_or_evict rid))"

text \<open>\<open>retire\<close> tells whether a recipient's \<open>retire_buffers\<close> returned; a region one of whose
  recipients failed is closed, never reused.\<close>

definition release_pooled_many ::
  "(nat \<Rightarrow> SharedBuffer list \<Rightarrow> bool) \<Rightarrow> (int \<Rightarrow> bool) \<Rightarrow> SharedBuffer list \<Rightarrow> (Manager, unit) st" where
  "release_pooled_many retire reset_ok buffers =
     sbind sget (\<lambda>m.
     let groups = by_recipient
           (concat (map (\<lambda>b. map (\<lambda>r. (r, b)) (g_recipients (region_of (sb_region b) m))) buffers)) [];
         failed = concat (map (\<lambda>(r, bs). if retire r bs then [] else map sb_region bs) groups) in
     sbind (bump (\<lambda>s. s\<lparr>recipient_notifications := recipient_notifications s +
                          int (sum_list (map (\<lambda>(_, bs). length bs) groups)),
                        recipient_notification_batches := recipient_notification_batches s +
                          int (length groups)\<rparr>)) (\<lambda>_.
     sall (\<lambda>b. if sb_region b \<in> set failed
               then sbind (smod (region_close (sb_region b))) (\<lambda>_.
                    bump (\<lambda>s. s\<lparr>buffers_quarantined := buffers_quarantined s + 1\<rparr>))
               else reset_or_release_region reset_ok (sb_region b)) buffers))"

datatype source = Explicit | FromAllocation | FromStats

definition collect ::
  "(nat \<Rightarrow> SharedBuffer list \<Rightarrow> bool) \<Rightarrow> (int \<Rightarrow> bool) \<Rightarrow> source \<Rightarrow> (Manager, unit) st" where
  "collect retire reset_ok source m =
     (let ids = released m;
          (pooled, arena_reclaimed, m1) = drain ids (m\<lparr>released := []\<rparr>);
          (r, m2) = release_pooled_many retire reset_ok pooled m1;
          reclaimed = int arena_reclaimed + (if ok r then int (length pooled) else 0);
          m3 = m2\<lparr>stats := (stats m2)\<lparr>collection_calls := collection_calls (stats m2) + 1,
                 collection_noops := collection_noops (stats m2) + (if reclaimed = 0 then 1 else 0),
                 allocations_drained := allocations_drained (stats m2) + int (length ids),
                 buffers_reclaimed := buffers_reclaimed (stats m2) + reclaimed,
                 allocation_collection_calls := allocation_collection_calls (stats m2) +
                   (if source = FromAllocation then 1 else 0),
                 stats_collection_calls := stats_collection_calls (stats m2) +
                   (if source = FromStats then 1 else 0)\<rparr>\<rparr>
      in (r, m3))"

section \<open>Creating tensors\<close>

definition ITEM_SIZES :: "(string \<times> int) list" where
  "ITEM_SIZES = [(''float32'', 4), (''float64'', 8), (''int64'', 8), (''uint8'', 1)]"

text \<open>\<open>empty\<close>; \<open>ids\<close> and \<open>random\<close> are the numbers drawn for the allocation and the region.\<close>

definition empty_tensor ::
  "(nat \<Rightarrow> SharedBuffer list \<Rightarrow> bool) \<Rightarrow> (int \<Rightarrow> bool) \<Rightarrow> int list \<Rightarrow> int list \<Rightarrow> int list \<Rightarrow> string
   \<Rightarrow> (Manager, SharedBuffer \<times> TensorDescriptor) st" where
  "empty_tensor retire reset_ok ids random shape dtype =
     (case map_of ITEM_SIZES dtype of
        None \<Rightarrow> sraise (TypeError ''Unsupported shared tensor dtype'')
      | Some item_size \<Rightarrow>
     if shape = [] \<or> list_ex (\<lambda>d. d \<le> 0) shape
     then sraise (ValueError ''Shared tensors must have a non-empty, positive shape'')
     else
     let len = element_count shape * item_size;
         strides = map (\<lambda>s. s * item_size) (contiguous_strides shape) in
     sbind (collect retire reset_ok FromAllocation) (\<lambda>_.
     sbind sget (\<lambda>m.
     if m_closed m then sraise (RuntimeError ''Buffer manager is closed'')
     else
     sbind (bump (\<lambda>s. s\<lparr>allocation_requests := allocation_requests s + 1\<rparr>)) (\<lambda>_.
     case fresh_id (\<lambda>i. active m i \<noteq> None) ids of
       None \<Rightarrow> sraise OutsideModel
     | Some aid \<Rightarrow>
     sbind (if arena_mode m then allocate_arena random len aid
            else allocate_pooled random len aid) (\<lambda>b.
     sbind (ensure_current b) (\<lambda>_.
     let d = \<lparr>d_buffer_id = sb_region b, d_generation = sb_generation b, d_allocation_id = aid,
              d_offset = sb_offset b, d_byte_length = len, d_dtype = dtype, d_shape = shape,
              d_strides = strides\<rparr> in
     sbind (smod (\<lambda>m. m\<lparr>active := (active m)(aid \<mapsto> \<lparr>al_buffer = b, al_descriptor = d, al_alive = True\<rparr>),
                       active_ids := aid # active_ids m\<rparr>)) (\<lambda>_.
     sret (b, d))))))))"

text \<open>The finalizer of a tensor's storage.\<close>

definition storage_released :: "int \<Rightarrow> Manager \<Rightarrow> Manager" where
  "storage_released aid m = m\<lparr>released := released m @ [aid]\<rparr>"

definition resolve :: "TensorDescriptor \<Rightarrow> Manager \<Rightarrow> SharedBuffer result" where
  "resolve d m =
     (case active m (d_allocation_id d) of
        None \<Rightarrow> Inl (ValueError ''Tensor descriptor does not identify a live tensor'')
      | Some a \<Rightarrow>
          if al_descriptor a \<noteq> d \<or> \<not> al_alive a
          then Inl (ValueError ''Tensor descriptor does not identify a live tensor'')
          else Inr (al_buffer a))"

text \<open>
  \<open>managed\<close>: the descriptor of a view of a managed tensor. What the code asks of the
  \<open>torch.Tensor\<close> is a record; \<open>v_lease\<close> is the allocation of its storage when this
  manager made it.
\<close>

record TorchView =
  v_cpu_strided :: bool
  v_lease :: "int option"
  v_dtype :: string
  v_item_size :: int
  v_shape :: "int list"
  v_strides :: "int list"
  v_storage_offset :: int

definition view_byte_length :: "int \<Rightarrow> int list \<Rightarrow> int list \<Rightarrow> int" where
  "view_byte_length item_size shape byte_strides =
     (if prod_list shape = 0 then 0
      else item_size + sum_list (map (\<lambda>(d, s). (d - 1) * s) (zip shape byte_strides)))"

definition managed :: "TorchView \<Rightarrow> Manager \<Rightarrow> (TensorDescriptor \<times> SharedBuffer) option result" where
  "managed v m =
     (if \<not> v_cpu_strided v then Inr None
      else case v_lease v of
        None \<Rightarrow> Inr None
      | Some aid \<Rightarrow>
     if list_ex (\<lambda>s. s < 0) (v_strides v)
     then Inl (ValueError ''Negative tensor strides are not supported'')
     else case active m aid of
        None \<Rightarrow> Inr None
      | Some a \<Rightarrow>
     let byte_strides = map (\<lambda>s. s * v_item_size v) (v_strides v);
         len = view_byte_length (v_item_size v) (v_shape v) byte_strides;
         b = al_buffer a;
         offset = sb_offset b + v_storage_offset v * v_item_size v in
     if offset < sb_offset b \<or> offset + len > sb_offset b + sb_byte_length b
     then Inl (ValueError ''Tensor view exceeds its managed allocation'')
     else if map_of ITEM_SIZES (v_dtype v) = None then Inl (KeyError ''dtype'')
     else Inr (Some (\<lparr>d_buffer_id = sb_region b, d_generation = sb_generation b,
            d_allocation_id = d_allocation_id (al_descriptor a), d_offset = offset,
            d_byte_length = len, d_dtype = v_dtype v, d_shape = v_shape v,
            d_strides = byte_strides\<rparr>, b)))"

section \<open>Closing\<close>

definition close_manager ::
  "(nat \<Rightarrow> SharedBuffer list \<Rightarrow> bool) \<Rightarrow> (int \<Rightarrow> bool) \<Rightarrow> (Manager, unit) st" where
  "close_manager retire reset_ok =
     sbind (smod (\<lambda>m. m\<lparr>m_closed := True\<rparr>)) (\<lambda>_.
     sbind (collect retire reset_ok Explicit) (\<lambda>_.
     sbind (smod (\<lambda>m. fold region_close (concat (map snd (free_regions m))) m)) (\<lambda>_.
     sbind (smod (\<lambda>m. m\<lparr>free_regions := [], cached_bytes := 0\<rparr>)) (\<lambda>_.
     smod (\<lambda>m. case arena_region m of
                 Some rid \<Rightarrow> if active_ids m = [] then (region_close rid m)\<lparr>arena_region := None\<rparr> else m
               | None \<Rightarrow> m)))))"

end
