(* ===== verification/Output_Planning.thy ===== *)
theory Output_Planning
  imports Metadata Buffer_Manager
begin

text \<open>
  Planning the outputs of an invocation, \<open>packages/wmfs/wmfs/output_metadata.py\<close>: the
  shapes and dtypes the metadata determines, the ones a worker adds, and the checks on
  tensors a caller supplies for reuse. The inputs appear by their descriptors; a tensor's
  promoted dtype, \<open>torch.result_type\<close>, is the argument \<open>result_type\<close>.
\<close>

section \<open>Evaluating the metadata\<close>

fun evaluate_dimension :: "DimensionExpression \<Rightarrow> TensorDescriptor list \<Rightarrow> sval list \<Rightarrow> int result" where
  "evaluate_dimension (DConstant n) inputs scalars = Inr n"
| "evaluate_dimension (DInputAxis i axis) inputs scalars =
     ebind (py_index inputs i) (\<lambda>d.
     if int (length (d_shape d)) \<le> axis
     then Inl (ValueError ''Output dimension references a missing input axis'')
     else py_index (d_shape d) axis)"
| "evaluate_dimension (DMinimum values) inputs scalars =
     ebind (emap (\<lambda>v. evaluate_dimension v inputs scalars) values) (\<lambda>ns.
     if ns = [] then Inl (ValueError ''min() iterable argument is empty'') else Inr (Min (set ns)))"
| "evaluate_dimension (DSelect p a b) inputs scalars =
     ebind (py_index scalars p) (\<lambda>s.
     if py_bool s then evaluate_dimension a inputs scalars else evaluate_dimension b inputs scalars)"
| "evaluate_dimension (DOther k) inputs scalars = Inl AssertionError"

text \<open>The first tensor input that uses a dtype variable.\<close>

fun bound_input :: "string \<Rightarrow> TensorParameter list \<Rightarrow> nat \<Rightarrow> nat option" where
  "bound_input v [] i = None"
| "bound_input v (p # ps) i = (if tp_dtype_variable p = Some v then Some i else bound_input v ps (Suc i))"

type_synonym result_type = "TensorDescriptor \<Rightarrow> sval \<Rightarrow> string"

fun evaluate_dtype ::
  "result_type \<Rightarrow> DTypeExpression \<Rightarrow> OperationMetadata \<Rightarrow> TensorDescriptor list \<Rightarrow> sval list \<Rightarrow> string result" where
  "evaluate_dtype rt (TFixed d) op inputs scalars = Inr d"
| "evaluate_dtype rt (TInput i) op inputs scalars = ebind (py_index inputs i) (\<lambda>d. Inr (d_dtype d))"
| "evaluate_dtype rt (TVariable v) op inputs scalars =
     (case bound_input v (tensor_inputs op) 0 of
        Some i \<Rightarrow> ebind (py_index inputs (int i)) (\<lambda>d. Inr (d_dtype d))
      | None \<Rightarrow> Inl (ValueError ''Dtype variable is not bound''))"
| "evaluate_dtype rt (TPromote i p) op inputs scalars =
     ebind (py_index scalars p) (\<lambda>s.
     case s of SText _ \<Rightarrow> Inl (TypeError ''Text scalars cannot participate in dtype promotion'')
     | _ \<Rightarrow> ebind (py_index inputs i) (\<lambda>d. Inr (rt d s)))"
| "evaluate_dtype rt (TOther k) op inputs scalars = Inl AttributeError"

definition bad_shape :: "int list \<Rightarrow> bool" where
  "bad_shape shape \<longleftrightarrow> shape = [] \<or> MAX_RANK < length shape \<or> list_ex (\<lambda>d. d \<le> 0) shape"

type_synonym spec = "int list \<times> string"

fun evaluate_shape :: "ShapeExpression \<Rightarrow> TensorDescriptor list \<Rightarrow> sval list \<Rightarrow> int list result" where
  "evaluate_shape (SameShapeAsInput i) inputs scalars = ebind (py_index inputs i) (\<lambda>d. Inr (d_shape d))"
| "evaluate_shape (Dimensions ds) inputs scalars = emap (\<lambda>d. evaluate_dimension d inputs scalars) ds"
| "evaluate_shape (ShapeOther k) inputs scalars = Inl OutsideModel"

definition evaluate_plan ::
  "result_type \<Rightarrow> OperationMetadata \<Rightarrow> TensorDescriptor list \<Rightarrow> sval list \<Rightarrow> OutputPlan \<Rightarrow> spec option result" where
  "evaluate_plan rt op inputs scalars plan =
     (case pl_known plan of None \<Rightarrow> Inr None | Some known \<Rightarrow>
      ebind (evaluate_shape (ko_shape known) inputs scalars) (\<lambda>shape.
      if bad_shape shape then Inl (ValueError ''Operation produced an invalid shape'')
      else ebind (evaluate_dtype rt (ko_dtype known) op inputs scalars) (\<lambda>dtype. Inr (Some (shape, dtype)))))"

definition evaluate_outputs ::
  "result_type \<Rightarrow> OperationMetadata \<Rightarrow> TensorDescriptor list \<Rightarrow> sval list \<Rightarrow> spec option list result" where
  "evaluate_outputs rt op inputs scalars = emap (evaluate_plan rt op inputs scalars) (output_plans op)"

section \<open>Completing them with the worker's plan\<close>

definition position :: "'a list \<Rightarrow> int \<Rightarrow> nat" where
  "position xs i = nat (if i < 0 then int (length xs) + i else i)"

fun complete_loop :: "(int \<times> spec) list \<Rightarrow> spec option list \<Rightarrow> spec option list result" where
  "complete_loop [] results = Inr results"
| "complete_loop ((i, shape, dtype) # planned) results =
     (if int (length results) \<le> i then Inl (ValueError ''Worker planned an unknown or statically known output'')
      else ebind (py_index results i) (\<lambda>old.
      if old \<noteq> None then Inl (ValueError ''Worker planned an unknown or statically known output'')
      else if bad_shape shape then Inl (ValueError ''Operation produced an invalid shape'')
      else if dtype \<notin> SUPPORTED_OUTPUT_DTYPES then Inl (ValueError ''Operation produced an invalid dtype'')
      else complete_loop planned (results[position results i := Some (shape, dtype)])))"

definition complete_outputs :: "spec option list \<Rightarrow> (int \<times> spec) list \<Rightarrow> spec list result" where
  "complete_outputs known planned =
     ebind (complete_loop planned known) (\<lambda>results.
     if None \<in> set results then Inl (ValueError ''Worker did not plan every dynamic output'')
     else Inr (map the results))"

section \<open>Reusing output tensors\<close>

text \<open>What a caller may pass as \<open>out\<close>; a tensor with its \<open>requires_grad\<close> and
  \<open>is_inference()\<close>.\<close>

datatype py_out = OTensor TorchView bool bool | OTuple "py_out list" | OOther

fun reuse_loop ::
  "Manager \<Rightarrow> bool \<Rightarrow> int set \<Rightarrow> int set \<Rightarrow> (py_out \<times> spec) list \<Rightarrow> (TensorDescriptor \<times> SharedBuffer) list result" where
  "reuse_loop m inference ins outs [] = Inr []"
| "reuse_loop m inference ins outs ((value, shape, dtype) # rest) =
     (case value of
        OTensor v requires_grad is_inference \<Rightarrow>
          if requires_grad then Inl (ValueError ''Isolated out tensors cannot require gradients'')
          else if is_inference \<and> \<not> inference then Inl (ValueError ''Inference tensors require inference mode for out'')
          else ebind (managed v m) (\<lambda>r.
          case r of
            None \<Rightarrow> Inl (ValueError ''Output must be a live tensor managed by this isolated runtime'')
          | Some (d, b) \<Rightarrow>
              if d_shape d \<noteq> shape \<or> d_dtype d \<noteq> dtype then Inl (ValueError ''Output has an invalid shape or dtype'')
              else if d_allocation_id d \<in> ins \<or> d_allocation_id d \<in> outs
              then Inl (ValueError ''Isolated outputs cannot alias inputs or each other'')
              else ebind (reuse_loop m inference ins (insert (d_allocation_id d) outs) rest) (\<lambda>ms.
                   Inr ((d, b) # ms)))
      | _ \<Rightarrow> Inl (TypeError ''Output must be a tensor''))"

definition bind_reusable_outputs ::
  "Manager \<Rightarrow> bool \<Rightarrow> spec list \<Rightarrow> TensorDescriptor list \<Rightarrow> py_out \<Rightarrow> (TensorDescriptor \<times> SharedBuffer) list result" where
  "bind_reusable_outputs m inference expected inputs out =
     ebind (if length expected = 1 then Inr [out]
            else case out of
              OTuple vs \<Rightarrow> if length vs = length expected then Inr vs
                          else Inl (TypeError ''Operation requires a tuple of output tensors'')
            | _ \<Rightarrow> Inl (TypeError ''Operation requires a tuple of output tensors'')) (\<lambda>tensors.
     reuse_loop m inference (d_allocation_id ` set inputs) {} (zip tensors expected))"

section \<open>Evaluation of validated metadata\<close>

lemma validated_index: "validate_index i n = Inr u \<longleftrightarrow> 0 \<le> i \<and> i < int n"
  by (auto simp: validate_index_def err_simps)

definition positive_shapes :: "TensorDescriptor list \<Rightarrow> bool" where
  "positive_shapes inputs \<longleftrightarrow> (\<forall>d \<in> set inputs. \<forall>n \<in> set (d_shape d). 0 < n)"

text \<open>A validated expression evaluates to a positive dimension, or the input lacks the axis.\<close>

definition missing_axis :: pyerr where
  "missing_axis = ValueError ''Output dimension references a missing input axis''"

definition good_dimension :: "int result \<Rightarrow> bool" where
  "good_dimension r \<longleftrightarrow> (case r of Inr n \<Rightarrow> 0 < n | Inl e \<Rightarrow> e = missing_axis)"

lemma good_emap:
  assumes "\<And>x. x \<in> set xs \<Longrightarrow> good_dimension (f x)"
  shows "case emap f xs of Inr ns \<Rightarrow> length ns = length xs \<and> (\<forall>n \<in> set ns. 0 < n) | Inl e \<Rightarrow> e = missing_axis"
  using assms
proof (induction xs)
  case (Cons x xs)
  have x: "good_dimension (f x)" using Cons.prems by simp
  show ?case
  proof (cases "f x")
    case (Inr n)
    then show ?thesis using Cons x by (cases "emap f xs") (auto simp: good_dimension_def)
  qed (use x in \<open>simp add: good_dimension_def\<close>)
qed simp

lemma evaluate_dimension_good:
  assumes "validate_dimension e op depth = Inr ()"
    and "length inputs = length (tensor_inputs op)" "length scalars = length (scalar_parameters op)"
    and "positive_shapes inputs"
  shows "good_dimension (evaluate_dimension e inputs scalars)"
  using assms(1)
proof (induction e arbitrary: depth)
  case (DConstant n)
  then show ?case by (simp add: good_dimension_def err_simps split: if_splits)
next
  case (DInputAxis i axis)
  then have i: "0 \<le> i" "i < int (length inputs)" and a: "0 \<le> axis"
    using assms(2) by (auto simp: err_simps validated_index split: if_splits)
  have d: "inputs ! nat i \<in> set inputs" using i by simp
  show ?case
  proof (cases "int (length (d_shape (inputs ! nat i))) \<le> axis")
    case True
    then show ?thesis by (simp add: py_index_nonneg[OF i] good_dimension_def missing_axis_def)
  next
    case False
    then have "d_shape (inputs ! nat i) ! nat axis \<in> set (d_shape (inputs ! nat i))" using a by simp
    then have "0 < d_shape (inputs ! nat i) ! nat axis"
      using assms(4) d unfolding positive_shapes_def by blast
    then show ?thesis
      using False a by (simp add: py_index_nonneg[OF i] py_index_nonneg good_dimension_def)
  qed
next
  case (DMinimum vs)
  then have ne: "vs \<noteq> []" and all: "\<And>v. v \<in> set vs \<Longrightarrow> validate_dimension v op (depth + 1) = Inr ()"
    by (auto simp: err_simps split: if_splits)
  have "good_dimension (evaluate_dimension v inputs scalars)" if "v \<in> set vs" for v
    using DMinimum.IH[OF that all[OF that]] .
  note G = good_emap[of vs "\<lambda>v. evaluate_dimension v inputs scalars", OF this]
  show ?case
  proof (cases "emap (\<lambda>v. evaluate_dimension v inputs scalars) vs")
    case (Inr ns)
    then have "ns \<noteq> []" "\<forall>n \<in> set ns. 0 < n" using G ne by auto
    then have "0 < Min (set ns)" by simp
    then show ?thesis using Inr \<open>ns \<noteq> []\<close> by (simp add: good_dimension_def)
  qed (use G in \<open>simp add: good_dimension_def\<close>)
next
  case (DSelect p a b)
  then have p: "0 \<le> p" "p < int (length scalars)"
    and "validate_dimension a op (depth + 1) = Inr ()" "validate_dimension b op (depth + 1) = Inr ()"
    using assms(3) by (auto simp: err_simps validated_index split: if_splits)
  then show ?case using DSelect.IH by (simp add: py_index_nonneg[OF p])
qed (simp split: if_splits)

lemma bound_input_range: "bound_input v ps i = Some j \<Longrightarrow> i \<le> j \<and> j < i + length ps \<and> tp_dtype_variable (ps ! (j - i)) = Some v"
proof (induction v ps i rule: bound_input.induct)
  case (2 v p ps i)
  then show ?case by (auto simp: nth_Cons' split: if_splits)
qed simp

lemma bound_input_None: "bound_input v ps i = None \<longleftrightarrow> Some v \<notin> tp_dtype_variable ` set ps"
  by (induction v ps i rule: bound_input.induct) auto

section \<open>What planning guarantees\<close>

text \<open>The errors a validated operation can still raise while its outputs are evaluated.\<close>

definition planning_errors :: "pyerr set" where
  "planning_errors = {missing_axis, ValueError ''Operation produced an invalid shape'',
     ValueError ''Dtype variable is not bound''}"

definition good_spec :: "spec \<Rightarrow> bool" where
  "good_spec s \<longleftrightarrow> \<not> bad_shape (fst s)"

lemma evaluate_dtype_good:
  assumes "validate_dtype t op = Inr ()"
    and "length inputs = length (tensor_inputs op)" "length scalars = length (scalar_parameters op)"
    and "\<And>i. i < length scalars \<Longrightarrow> scalar_matches_kind (scalars ! i) (sp_kind (scalar_parameters op ! i))"
    and "\<And>s. s \<in> set (scalar_parameters op) \<Longrightarrow> sp_kind s \<in> set SCALAR_KINDS"
  shows "evaluate_dtype rt t op inputs scalars = Inl (ValueError ''Dtype variable is not bound'') \<or>
    ok (evaluate_dtype rt t op inputs scalars)"
proof (cases t)
  case (TInput i)
  then show ?thesis using assms(1,2) by (simp add: validated_index py_index_nonneg)
next
  case (TVariable v)
  show ?thesis
  proof (cases "bound_input v (tensor_inputs op) 0")
    case (Some j)
    then have "int j < int (length inputs)" using bound_input_range[of v _ 0] assms(2) by force
    then show ?thesis using TVariable Some by (simp add: py_index_nonneg)
  qed (simp add: TVariable)
next
  case (TPromote i p)
  then have i: "0 \<le> i" "i < int (length inputs)" and p: "0 \<le> p" "p < int (length scalars)"
    and k: "sp_kind (scalar_parameters op ! nat p) \<noteq> ''text''"
    using assms(1-3) by (auto simp: err_simps validated_index)
  have "scalar_matches_kind (scalars ! nat p) (sp_kind (scalar_parameters op ! nat p))"
    using assms(4)[of "nat p"] p by simp
  moreover have "sp_kind (scalar_parameters op ! nat p) \<in> set SCALAR_KINDS"
    using assms(3,5) p by simp
  ultimately show ?thesis
    using k TPromote by (auto simp: py_index_nonneg[OF i] py_index_nonneg[OF p] scalar_matches_kind_def
        SCALAR_KINDS_def split: sval.splits)
qed (use assms(1) in \<open>auto simp: err_simps\<close>)

lemma evaluate_shape_good:
  assumes "validate_shape s op = Inr ()"
    and "length inputs = length (tensor_inputs op)" "length scalars = length (scalar_parameters op)"
    and "positive_shapes inputs"
  shows "case evaluate_shape s inputs scalars of Inr _ \<Rightarrow> True | Inl e \<Rightarrow> e = missing_axis"
proof (cases s)
  case (SameShapeAsInput i)
  then show ?thesis using assms(1,2) by (simp add: validated_index py_index_nonneg)
next
  case (Dimensions ds)
  then have "\<And>d. d \<in> set ds \<Longrightarrow> validate_dimension d op 0 = Inr ()"
    using assms(1) by (auto simp: err_simps split: if_splits)
  then have "\<And>d. d \<in> set ds \<Longrightarrow> good_dimension (evaluate_dimension d inputs scalars)"
    using evaluate_dimension_good assms(2-4) by blast
  from good_emap[of ds "\<lambda>d. evaluate_dimension d inputs scalars", OF this] show ?thesis
    by (simp add: Dimensions split: sum.splits)
qed (use assms(1) in simp)

text \<open>What the arguments of an invocation satisfy once they are bound.\<close>

definition bound_arguments :: "OperationMetadata \<Rightarrow> TensorDescriptor list \<Rightarrow> sval list \<Rightarrow> bool" where
  "bound_arguments op inputs scalars \<longleftrightarrow>
     length inputs = length (tensor_inputs op) \<and> length scalars = length (scalar_parameters op) \<and>
     positive_shapes inputs \<and>
     (\<forall>i < length scalars. scalar_matches_kind (scalars ! i) (sp_kind (scalar_parameters op ! i)))"

lemma validated_operation:
  assumes "validate_operation_metadata op = Inr ()"
  shows "length (output_plans op) = length (tensor_outputs op)" "length (output_plans op) \<le> MAX_OUTPUTS"
    "\<And>s. s \<in> set (scalar_parameters op) \<Longrightarrow> validate_scalar s = Inr ()"
    "\<And>p k. p \<in> set (output_plans op) \<Longrightarrow> pl_known p = Some k \<Longrightarrow> validate_known_output k op = Inr ()"
proof -
  show l: "length (output_plans op) = length (tensor_outputs op)" "length (output_plans op) \<le> MAX_OUTPUTS"
    using assms by (auto simp: validate_operation_metadata_def split: if_splits)
  show "validate_scalar s = Inr ()" if "s \<in> set (scalar_parameters op)" for s
    using assms that by (auto simp: validate_operation_metadata_def err_simps split: if_splits)
  fix p k assume p: "p \<in> set (output_plans op)" "pl_known p = Some k"
  obtain i where i: "i < length (output_plans op)" "output_plans op ! i = p" using p(1) by (auto simp: in_set_conv_nth)
  have "(tensor_outputs op ! i, p) \<in> set (zip (tensor_outputs op) (output_plans op))"
    using i l(1) by (force simp: in_set_zip)
  moreover have "\<forall>x \<in> set (zip (tensor_outputs op) (output_plans op)). validate_plan op x = Inr ()"
    using assms by (auto simp: validate_operation_metadata_def err_simps split: if_splits)
  ultimately have "validate_plan op (tensor_outputs op ! i, p) = Inr ()" by blast
  then show "validate_known_output k op = Inr ()"
    using p(2) by (auto simp: validate_plan_def split: if_splits)
qed

lemma validated_scalar_kind: "validate_scalar s = Inr () \<Longrightarrow> sp_kind s \<in> set SCALAR_KINDS"
  by (auto simp: validate_scalar_def split: if_splits)

lemma evaluate_outputs_errors:
  assumes v: "validate_operation_metadata op = Inr ()" and b: "bound_arguments op inputs scalars"
  shows "case evaluate_outputs rt op inputs scalars of Inr _ \<Rightarrow> True | Inl e \<Rightarrow> e \<in> planning_errors"
proof -
  note V = validated_operation[OF v]
  have kinds: "\<And>s. s \<in> set (scalar_parameters op) \<Longrightarrow> sp_kind s \<in> set SCALAR_KINDS"
    using V(3) validated_scalar_kind by blast
  have one: "case evaluate_plan rt op inputs scalars p of Inr _ \<Rightarrow> True | Inl e \<Rightarrow> e \<in> planning_errors"
    if p: "p \<in> set (output_plans op)" for p
  proof (cases "pl_known p")
    case (Some k)
    have k: "validate_shape (ko_shape k) op = Inr ()" "validate_dtype (ko_dtype k) op = Inr ()"
      using V(4)[OF p Some] by (auto simp: validate_known_output_def err_simps)
    have "case evaluate_shape (ko_shape k) inputs scalars of Inr _ \<Rightarrow> True | Inl e \<Rightarrow> e = missing_axis"
      using evaluate_shape_good[OF k(1)] b by (simp add: bound_arguments_def)
    moreover have "evaluate_dtype rt (ko_dtype k) op inputs scalars = Inl (ValueError ''Dtype variable is not bound'') \<or>
        ok (evaluate_dtype rt (ko_dtype k) op inputs scalars)"
      by (rule evaluate_dtype_good[OF k(2)]) (use b kinds in \<open>auto simp: bound_arguments_def\<close>)
    ultimately show ?thesis
      by (auto simp: evaluate_plan_def Some planning_errors_def ok_def split: sum.splits)
  qed (simp add: evaluate_plan_def)
  have "(\<And>p. p \<in> set ps \<Longrightarrow> case f p of Inr _ \<Rightarrow> True | Inl e \<Rightarrow> e \<in> E) \<Longrightarrow>
      case emap f ps of Inr _ \<Rightarrow> True | Inl e \<Rightarrow> e \<in> E" for f :: "OutputPlan \<Rightarrow> spec option result" and ps E
  proof (induction ps)
    case (Cons p ps)
    have "case f p of Inr _ \<Rightarrow> True | Inl e \<Rightarrow> e \<in> E" using Cons.prems by simp
    then show ?case using Cons by (cases "f p"; cases "emap f ps") auto
  qed simp
  from this[OF one] show ?thesis by (simp add: evaluate_outputs_def)
qed

text \<open>A plan gives exactly the statically known outputs, each with a shape that can be allocated.\<close>

lemma evaluate_outputs_Inr:
  assumes "evaluate_outputs rt op inputs scalars = Inr known"
  shows "length known = length (output_plans op)"
    "\<And>i. i < length known \<Longrightarrow> known ! i = None \<longleftrightarrow> pl_known (output_plans op ! i) = None"
    "\<And>s. Some s \<in> set known \<Longrightarrow> good_spec s"
proof -
  have l: "list_all2 (\<lambda>p k. evaluate_plan rt op inputs scalars p = Inr k) (output_plans op) known"
    using assms by (simp add: evaluate_outputs_def emap_eq_Inr)
  show len: "length known = length (output_plans op)" using l by (simp add: list_all2_lengthD)
  have at: "evaluate_plan rt op inputs scalars (output_plans op ! i) = Inr (known ! i)" if "i < length known" for i
    using l that len by (simp add: list_all2_conv_all_nth)
  show "known ! i = None \<longleftrightarrow> pl_known (output_plans op ! i) = None" if "i < length known" for i
    using at[OF that] by (cases "known ! i") (auto simp: evaluate_plan_def err_simps split: option.splits if_splits)
  fix s assume "Some s \<in> set known"
  then obtain i where "i < length known" "known ! i = Some s" by (auto simp: in_set_conv_nth)
  then show "good_spec s"
    using at[of i] by (auto simp: evaluate_plan_def err_simps good_spec_def split: option.splits if_splits)
qed

lemma position_index: "py_index xs i = Inr x \<Longrightarrow> position xs i < length xs \<and> xs ! position xs i = x"
  by (auto simp: py_index_def position_def Let_def split: if_splits)

lemma complete_step:
  "complete_loop ((i, s) # planned) results = Inr r \<longleftrightarrow>
     i < int (length results) \<and> py_index results i = Inr None \<and> good_spec s \<and>
     snd s \<in> SUPPORTED_OUTPUT_DTYPES \<and> complete_loop planned (results[position results i := Some s]) = Inr r"
proof (cases s)
  case (Pair shape dtype)
  show ?thesis
  proof (cases "py_index results i")
    case (Inr old)
    then show ?thesis by (cases old) (auto simp: Pair good_spec_def)
  qed (simp add: Pair)
qed

declare complete_loop.simps(2) [simp del]

lemma complete_loop_Inr:
  "complete_loop planned results = Inr r \<Longrightarrow>
   length r = length results \<and>
   (\<forall>k < length results. results ! k \<noteq> None \<longrightarrow> r ! k = results ! k) \<and>
   (\<forall>k < length results. results ! k = None \<longrightarrow> r ! k \<noteq> None \<longrightarrow>
      (\<exists>j s. (j, s) \<in> set planned \<and> position results j = k \<and> r ! k = Some s \<and> good_spec s)) \<and>
   (\<forall>j s. (j, s) \<in> set planned \<longrightarrow> position results j < length results \<and> r ! position results j = Some s)"
proof (induction planned arbitrary: results)
  case (Cons p planned)
  obtain i s where p: "p = (i, s)" by (metis surj_pair)
  let ?k = "position results i"
  let ?r = "results[?k := Some s]"
  have none: "py_index results i = Inr None" and good: "good_spec s" and rest: "complete_loop planned ?r = Inr r"
    using Cons.prems by (simp_all add: p complete_step)
  note P = position_index[OF none]
  have same: "position ?r = position results" by (simp add: position_def fun_eq_iff)
  note IH = Cons.IH[OF rest, unfolded same length_list_update]
  have old: "r ! k = ?r ! k" if "k < length results" "?r ! k \<noteq> None" for k
    using IH that by blast
  have planned: "\<exists>j t. (j, t) \<in> set planned \<and> position results j = k \<and> r ! k = Some t \<and> good_spec t"
    if "k < length results" "?r ! k = None" "r ! k \<noteq> None" for k
    using IH that by blast
  have at: "r ! ?k = Some s" using old[of ?k] P by simp
  have new: "\<exists>j t. (j, t) \<in> set (p # planned) \<and> position results j = k \<and> r ! k = Some t \<and> good_spec t"
    if "k < length results" "results ! k = None" "r ! k \<noteq> None" for k
  proof (cases "k = ?k")
    case True
    have "(i, s) \<in> set (p # planned) \<and> position results i = k \<and> r ! k = Some s \<and> good_spec s"
      using at good p True by simp
    then show ?thesis by blast
  next
    case False
    then have "?r ! k = None" using that by simp
    from planned[OF that(1) this that(3)] obtain j t where
      "(j, t) \<in> set planned" "position results j = k" "r ! k = Some t" "good_spec t" by blast
    moreover from this(1) have "(j, t) \<in> set (p # planned)" by (rule list.set_intros(2))
    ultimately show ?thesis by blast
  qed
  have kept: "r ! k = results ! k" if "k < length results" "results ! k \<noteq> None" for k
  proof -
    have "k \<noteq> ?k" using that P by auto
    then show ?thesis using old[of k] that by simp
  qed
  have "position results j < length results \<and> r ! position results j = Some t" if "(j, t) \<in> set (p # planned)" for j t
  proof (cases "(j, t) = p")
    case True
    then show ?thesis using at P p by simp
  next
    case False
    then have "(j, t) \<in> set planned" using that by simp
    then show ?thesis using IH by blast
  qed
  moreover have "length r = length results" using IH by blast
  ultimately show ?case using new kept by blast
qed simp

lemma complete_outputs_Inr:
  assumes c: "complete_outputs known planned = Inr specs" and k: "\<And>s. Some s \<in> set known \<Longrightarrow> good_spec s"
  shows "length specs = length known"
    "\<And>i s. i < length known \<Longrightarrow> known ! i = Some s \<Longrightarrow> specs ! i = s"
    "\<And>i. i < length known \<Longrightarrow> known ! i = None \<Longrightarrow> \<exists>j. (j, specs ! i) \<in> set planned \<and> position known j = i"
    "\<And>j s. (j, s) \<in> set planned \<Longrightarrow> specs ! position known j = s"
    "\<And>s. s \<in> set specs \<Longrightarrow> good_spec s"
proof -
  obtain r where r: "complete_loop planned known = Inr r" "None \<notin> set r" "specs = map the r"
    using c by (auto simp: complete_outputs_def err_simps split: if_splits)
  note L = complete_loop_Inr[OF r(1)]
  have some: "r ! i \<noteq> None" if "i < length r" for i using r(2) that by (metis nth_mem)
  show len: "length specs = length known" using L r(3) by simp
  show a: "specs ! i = s" if "i < length known" "known ! i = Some s" for i s
    using L that r(3) by simp
  show b: "\<exists>j. (j, specs ! i) \<in> set planned \<and> position known j = i" if "i < length known" "known ! i = None" for i
    using L that some[of i] r(3) by fastforce
  show "specs ! position known j = s" if "(j, s) \<in> set planned" for j s
  proof -
    have "position known j < length known \<and> r ! position known j = Some s" using L that by blast
    then show ?thesis using L r(3) by simp
  qed
  fix s assume "s \<in> set specs"
  then obtain i where i: "i < length specs" "specs ! i = s" by (auto simp: in_set_conv_nth)
  show "good_spec s"
  proof (cases "known ! i")
    case None
    then show ?thesis using L i len some[of i] r(3) by fastforce
  next
    case (Some t)
    then show ?thesis using a[of i t] i len k by (metis nth_mem)
  qed
qed

text \<open>Reused outputs have the planned specifications and their allocations are pairwise distinct
  and none of the inputs'.\<close>

lemma reuse_step:
  assumes "reuse_loop m im ins outs ((v, s) # rest) = Inr ms"
  obtains d b ms' where "d_shape d = fst s" "d_dtype d = snd s" "d_allocation_id d \<notin> ins" "d_allocation_id d \<notin> outs"
    "reuse_loop m im ins (insert (d_allocation_id d) outs) rest = Inr ms'" "ms = (d, b) # ms'"
proof (cases v)
  case (OTensor t rg ii)
  obtain r where r: "managed t m = Inr r" "\<not> rg" "\<not> (ii \<and> \<not> im)"
    using assms by (cases s; cases "managed t m") (auto simp: OTensor split: if_splits)
  show thesis
  proof (cases r)
    case None
    then show ?thesis using assms r by (cases s) (auto simp: OTensor)
  next
    case (Some db)
    then show ?thesis
      using assms r that by (cases s; cases db) (auto simp: OTensor err_simps split: if_splits)
  qed
qed (use assms in \<open>cases s; simp\<close>)+

declare reuse_loop.simps(2) [simp del]

lemma reuse_loop_Inr:
  "reuse_loop m im ins outs vs = Inr ms \<Longrightarrow>
   map (\<lambda>(d, b). (d_shape d, d_dtype d)) ms = map snd vs \<and>
   distinct (map (\<lambda>(d, b). d_allocation_id d) ms) \<and>
   (\<lambda>(d, b). d_allocation_id d) ` set ms \<inter> (ins \<union> outs) = {}"
proof (induction vs arbitrary: outs ms)
  case (Cons vs rest)
  obtain v s where vs: "vs = (v, s)" by (metis surj_pair)
  from Cons.prems[unfolded vs] obtain d b ms' where "d_shape d = fst s" "d_dtype d = snd s"
    "d_allocation_id d \<notin> ins" "d_allocation_id d \<notin> outs" "ms = (d, b) # ms'"
    and "reuse_loop m im ins (insert (d_allocation_id d) outs) rest = Inr ms'"
    by (rule reuse_step)
  with Cons.IH[OF this(6)] show ?case by (auto simp: vs)
qed simp

lemma bind_reusable_outputs_Inr:
  assumes "bind_reusable_outputs m im expected inputs out = Inr ms"
  shows "map (\<lambda>(d, b). (d_shape d, d_dtype d)) ms = expected"
    "distinct (map (\<lambda>(d, b). d_allocation_id d) ms)"
    "(\<lambda>(d, b). d_allocation_id d) ` set ms \<inter> d_allocation_id ` set inputs = {}"
proof -
  obtain vs where vs: "length vs = length expected"
    "reuse_loop m im (d_allocation_id ` set inputs) {} (zip vs expected) = Inr ms"
    using assms that[of "[out]"]
    by (auto simp: bind_reusable_outputs_def err_simps split: if_splits py_out.splits)
  with reuse_loop_Inr[OF vs(2)]
  show "map (\<lambda>(d, b). (d_shape d, d_dtype d)) ms = expected"
    "distinct (map (\<lambda>(d, b). d_allocation_id d) ms)"
    "(\<lambda>(d, b). d_allocation_id d) ` set ms \<inter> d_allocation_id ` set inputs = {}"
    by simp_all
qed

end
