(* ===== verification/Invocation.thy ===== *)
theory Invocation
  imports Output_Planning
begin

text \<open>
  Binding the arguments of a call, \<open>packages/wmfs/wmfs/invocation.py\<close>: which arguments are
  tensors, how scalars are matched to parameters and coerced, the dtype rules of the
  tensors, and the plan of the outputs. A Python argument is a scalar, a tensor or another
  object.
\<close>

section \<open>Arguments\<close>

record ArgTensor =
  at_view :: TorchView
  at_requires_grad :: bool

datatype py_arg = PValue sval | PTensor ArgTensor | PObject

definition is_tensor :: "py_arg \<Rightarrow> bool" where
  "is_tensor a \<longleftrightarrow> (case a of PTensor _ \<Rightarrow> True | _ \<Rightarrow> False)"

definition tensors_of :: "py_arg list \<Rightarrow> ArgTensor list" where
  "tensors_of args = concat (map (\<lambda>a. case a of PTensor t \<Rightarrow> [t] | _ \<Rightarrow> []) args)"

text \<open>\<open>str.isupper\<close> and \<open>str.lower\<close> of one character, up to code point 255.\<close>

definition upper_char :: "char \<Rightarrow> bool" where
  "upper_char c \<longleftrightarrow> (let n = of_char c :: nat in (65 \<le> n \<and> n \<le> 90) \<or> (192 \<le> n \<and> n \<le> 222 \<and> n \<noteq> 215))"

definition lower_char :: "char \<Rightarrow> char" where
  "lower_char c = (if upper_char c then char_of ((of_char c :: nat) + 32) else c)"

definition python_parameter_name :: "string \<Rightarrow> string" where
  "python_parameter_name name =
     concat (map (\<lambda>c. if upper_char c then [CHR ''_'', lower_char c] else [c]) name)"

text \<open>\<open>float(n)\<close> of an integer: the nearest binary64, ties to even, as its bits.\<close>

fun bit_length :: "nat \<Rightarrow> nat" where
  "bit_length n = (if n = 0 then 0 else Suc (bit_length (n div 2)))"

declare bit_length.simps [simp del]

text \<open>The 53-bit mantissa, leading bit set, and the exponent of a positive integer.\<close>

definition round_to_53 :: "nat \<Rightarrow> nat \<times> nat" where
  "round_to_53 m =
     (let size = bit_length m in
      if size \<le> 53 then (m * 2 ^ (53 - size), size - 1)
      else let sh = size - 53; q = m div 2 ^ sh; r = m mod 2 ^ sh; half = 2 ^ (sh - 1);
               q' = (if half < r \<or> (r = half \<and> odd q) then q + 1 else q)
           in if q' = 2 ^ 53 then (2 ^ 52, size) else (q', size - 1))"

definition int_to_double :: "int \<Rightarrow> 64 word result" where
  "int_to_double n =
     (if n = 0 then Inr 0
      else case round_to_53 (nat \<bar>n\<bar>) of (mantissa, ex) \<Rightarrow>
        if 1023 < ex then Inl (OverflowError ''int too large to convert to float'')
        else Inr (word_of_int ((if n < 0 then 2 ^ 63 else 0) + (int ex + 1023) * 2 ^ 52 + (int mantissa - 2 ^ 52))))"

lemma int_to_double_result:
  "(\<exists>w. int_to_double i = Inr w) \<or> int_to_double i = Inl (OverflowError ''int too large to convert to float'')"
  by (cases "round_to_53 (nat \<bar>i\<bar>)") (simp add: int_to_double_def)

section \<open>Scalars\<close>

fun index_of :: "'a \<Rightarrow> 'a list \<Rightarrow> nat option" where
  "index_of x [] = None"
| "index_of x (y # ys) = (if x = y then Some 0 else map_option Suc (index_of x ys))"

definition enum_error :: pyerr where "enum_error = ValueError ''Scalar must be a member of enum''"

definition coerce_scalar :: "ScalarParameter \<Rightarrow> py_arg \<Rightarrow> sval result" where
  "coerce_scalar p value =
     (if sp_enum_name p \<noteq> None
      then case value of
             PValue (SText s) \<Rightarrow> (case index_of s (sp_enum_values p) of
                                   Some i \<Rightarrow> Inr (SInt (int i)) | None \<Rightarrow> Inl enum_error)
           | PValue (SInt i) \<Rightarrow> if 0 \<le> i \<and> i < int (length (sp_enum_values p)) then Inr (SInt i) else Inl enum_error
           | _ \<Rightarrow> Inl enum_error
      else if sp_kind p = ''boolean''
      then (case value of PValue (SBool b) \<Rightarrow> Inr (SBool b) | _ \<Rightarrow> Inl (TypeError ''Scalar must be Boolean''))
      else if sp_kind p = ''float64''
      then (case value of PValue (SFloat w) \<Rightarrow> Inr (SFloat w)
                        | PValue (SInt i) \<Rightarrow> ebind (int_to_double i) (\<lambda>w. Inr (SFloat w))
                        | _ \<Rightarrow> Inl (TypeError ''Scalar must be numeric''))
      else if sp_kind p = ''int64''
      then (case value of PValue (SInt i) \<Rightarrow> Inr (SInt i) | _ \<Rightarrow> Inl (TypeError ''Scalar must be an integer''))
      else if sp_kind p = ''text''
      then (case value of PValue (SText s) \<Rightarrow> Inr (SText s) | _ \<Rightarrow> Inl (TypeError ''Scalar must be text''))
      else Inl (TypeError ''Scalar has an unknown kind''))"

type_synonym kwargs = "(string \<times> py_arg) list"

text \<open>The loop of \<open>bind_scalars\<close>: the positional values still unused, the keyword values
  still unused.\<close>

definition take_scalar :: "ScalarParameter \<Rightarrow> py_arg list \<Rightarrow> kwargs \<Rightarrow> (py_arg \<times> kwargs) result" where
  "take_scalar p positional remaining =
     (let pn = python_parameter_name (sp_name p) in
      case positional of
        value # _ \<Rightarrow>
          if map_of remaining (sp_name p) \<noteq> None \<or> map_of remaining pn \<noteq> None
          then Inl (TypeError ''Scalar was supplied more than once'')
          else Inr (value, remaining)
      | [] \<Rightarrow>
          (case map_of remaining pn of Some v \<Rightarrow> Inr (v, AList.delete pn remaining) | None \<Rightarrow>
           case map_of remaining (sp_name p) of Some v \<Rightarrow> Inr (v, AList.delete (sp_name p) remaining) | None \<Rightarrow>
           case sp_default p of Some v \<Rightarrow> Inr (PValue v, remaining)
           | None \<Rightarrow> if sp_required p then Inl (TypeError ''Missing required scalar'')
                     else Inl (ValueError ''Optional scalar needs a default for preallocation'')))"

fun bind_loop :: "ScalarParameter list \<Rightarrow> py_arg list \<Rightarrow> kwargs \<Rightarrow> sval list result" where
  "bind_loop [] positional remaining =
     (if remaining = [] then Inr [] else Inl (TypeError ''Unexpected scalar argument''))"
| "bind_loop (p # ps) positional remaining =
     ebind (take_scalar p positional remaining) (\<lambda>(value, rest).
     ebind (coerce_scalar p value) (\<lambda>v.
     ebind (bind_loop ps (tl positional) rest) (\<lambda>vs. Inr (v # vs))))"

definition bind_scalars :: "OperationMetadata \<Rightarrow> py_arg list \<Rightarrow> kwargs \<Rightarrow> sval list result" where
  "bind_scalars op args kwargs =
     (let positional = filter (\<lambda>a. \<not> is_tensor a) args in
      if length (scalar_parameters op) < length positional
      then Inl (TypeError ''Operation received too many arguments'')
      else bind_loop (scalar_parameters op) positional kwargs)"

section \<open>Tensor dtypes\<close>

fun dtype_loop ::
  "DTypeVariable list \<Rightarrow> (TensorParameter \<times> ArgTensor) list \<Rightarrow> (string \<rightharpoonup> string) \<Rightarrow> unit result" where
  "dtype_loop variables [] bindings = Inr ()"
| "dtype_loop variables ((p, t) # rest) bindings =
     (let dtype = v_dtype (at_view t) in
      case tp_dtype_variable p of
        Some name \<Rightarrow>
          (case find (\<lambda>v. dv_name v = name) (rev variables) of
             None \<Rightarrow> Inl (KeyError ''dtype variable'')
           | Some v \<Rightarrow>
               if dtype \<notin> set (dv_dtypes v) then Inl (TypeError ''Tensor has unsupported dtype'')
               else let previous = (case bindings name of Some d \<Rightarrow> d | None \<Rightarrow> dtype) in
                    if previous \<noteq> dtype then Inl (TypeError ''Tensor must use dtype variable'')
                    else dtype_loop variables rest (bindings(name \<mapsto> previous)))
      | None \<Rightarrow>
          if tp_dtypes p \<noteq> [] \<and> dtype \<notin> set (tp_dtypes p) then Inl (TypeError ''Tensor has unsupported dtype'')
          else dtype_loop variables rest bindings)"

definition validate_tensor_dtypes :: "OperationMetadata \<Rightarrow> ArgTensor list \<Rightarrow> unit result" where
  "validate_tensor_dtypes op tensors = dtype_loop (dtype_variables op) (zip (tensor_inputs op) tensors) Map.empty"

section \<open>The bound invocation\<close>

record BoundInvocation =
  bi_operation :: OperationMetadata
  bi_tensor_inputs :: "(ArgTensor \<times> bool) list"
  bi_scalars :: "sval list"
  bi_out :: "py_out option"

definition bind_invocation ::
  "bool \<Rightarrow> OperationMetadata \<Rightarrow> py_arg list \<Rightarrow> kwargs \<Rightarrow> py_out option \<Rightarrow> BoundInvocation result" where
  "bind_invocation grad_enabled op args kwargs out =
     (let tensors = tensors_of args in
      if length tensors \<noteq> length (tensor_inputs op) then Inl (TypeError ''Operation expected tensor inputs'')
      else if out \<noteq> None \<and> grad_enabled \<and> list_ex at_requires_grad tensors
      then Inl (RuntimeError ''Isolated out does not support autograd inputs'')
      else
      ebind (bind_scalars op args kwargs) (\<lambda>scalars.
      ebind (validate_tensor_dtypes op tensors) (\<lambda>_.
      Inr \<lparr>bi_operation = op,
           bi_tensor_inputs = map (\<lambda>(t, p). (t, tp_access p = ''readWrite'')) (zip tensors (tensor_inputs op)),
           bi_scalars = scalars, bi_out = out\<rparr>)))"

record InvocationOutputPlan =
  specs :: "spec list"
  reusable_outputs :: "(TensorDescriptor \<times> SharedBuffer) list option"

definition plan_outputs ::
  "result_type \<Rightarrow> Manager \<Rightarrow> bool \<Rightarrow> BoundInvocation \<Rightarrow> TensorDescriptor list \<Rightarrow> (int \<times> spec) list
   \<Rightarrow> InvocationOutputPlan result" where
  "plan_outputs rt m inference bi inputs dynamic =
     ebind (evaluate_outputs rt (bi_operation bi) inputs (bi_scalars bi)) (\<lambda>known.
     ebind (complete_outputs known dynamic) (\<lambda>specs.
     ebind (case bi_out bi of
              None \<Rightarrow> Inr None
            | Some out \<Rightarrow> ebind (bind_reusable_outputs m inference specs inputs out) (\<lambda>ms. Inr (Some ms))) (\<lambda>reused.
     Inr \<lparr>specs = specs, reusable_outputs = reused\<rparr>)))"

text \<open>\<open>share_input\<close> and \<open>materialize_output\<close> on the manager: \<open>from_tensor\<close> refuses what it
  cannot copy, and a new output has the planned shape and dtype. The last component is
  whether the memory was newly allocated.\<close>

definition share_input ::
  "(nat \<Rightarrow> SharedBuffer list \<Rightarrow> bool) \<Rightarrow> (int \<Rightarrow> bool) \<Rightarrow> int list \<Rightarrow> int list \<Rightarrow> TorchView
   \<Rightarrow> (Manager, (SharedBuffer \<times> TensorDescriptor) \<times> bool) st" where
  "share_input retire reset_ok ids random v =
     sbind sget (\<lambda>m.
     sbind (slift (managed v m)) (\<lambda>r.
     case r of
       Some (d, b) \<Rightarrow> sret ((b, d), False)
     | None \<Rightarrow>
         if \<not> v_cpu_strided v then sraise (ValueError ''Only CPU strided tensors can be moved into shared memory'')
         else if list_ex (\<lambda>s. s < 0) (v_strides v) then sraise (ValueError ''Negative tensor strides are not supported'')
         else sbind (empty_tensor retire reset_ok ids random (v_shape v) (v_dtype v)) (\<lambda>bd. sret (bd, True))))"

definition materialize_output ::
  "(nat \<Rightarrow> SharedBuffer list \<Rightarrow> bool) \<Rightarrow> (int \<Rightarrow> bool) \<Rightarrow> int list \<Rightarrow> int list \<Rightarrow> InvocationOutputPlan \<Rightarrow> int
   \<Rightarrow> (Manager, (SharedBuffer \<times> TensorDescriptor) \<times> bool) st" where
  "materialize_output retire reset_ok ids random plan i =
     (case reusable_outputs plan of
        Some ms \<Rightarrow> sbind (slift (py_index ms i)) (\<lambda>(d, b). sret ((b, d), False))
      | None \<Rightarrow> sbind (slift (py_index (specs plan) i)) (\<lambda>(shape, dtype).
          sbind (empty_tensor retire reset_ok ids random shape dtype) (\<lambda>bd. sret (bd, True))))"

section \<open>What binding guarantees\<close>

text \<open>A coerced scalar has the representation of its kind.\<close>

definition coerced :: "ScalarParameter \<Rightarrow> sval \<Rightarrow> bool" where
  "coerced p v \<longleftrightarrow>
     (if sp_enum_name p \<noteq> None then (\<exists>i. v = SInt i \<and> 0 \<le> i \<and> i < int (length (sp_enum_values p)))
      else if sp_kind p = ''boolean'' then (\<exists>b. v = SBool b)
      else if sp_kind p = ''float64'' then (\<exists>w. v = SFloat w)
      else if sp_kind p = ''int64'' then (\<exists>i. v = SInt i)
      else sp_kind p = ''text'' \<and> (\<exists>s. v = SText s))"

lemma index_of_Some: "index_of x xs = Some i \<Longrightarrow> i < length xs \<and> xs ! i = x"
  by (induction xs arbitrary: i) (auto split: if_splits)

lemma index_of_member: "x \<in> set xs \<Longrightarrow> \<exists>i. index_of x xs = Some i"
  by (induction xs) auto

lemma coerce_scalar_coerced:
  assumes "coerce_scalar p a = Inr v"
  shows "coerced p v"
proof -
  consider (e) n where "sp_enum_name p = Some n" | (k) "sp_enum_name p = None" by (cases "sp_enum_name p") auto
  then show ?thesis
  proof cases
    case e
    then show ?thesis using assms
      by (auto simp: coerce_scalar_def coerced_def dest!: index_of_Some
          split: py_arg.splits sval.splits option.splits if_splits)
  next
    case k
    then show ?thesis using assms
      by (auto simp: coerce_scalar_def coerced_def err_simps split: py_arg.splits sval.splits if_splits)
  qed
qed

lemma coerced_matches:
  assumes "coerced p v" "validate_scalar p = Inr ()"
  shows "scalar_matches_kind v (sp_kind p)"
proof (cases "sp_enum_name p")
  case None
  then show ?thesis using assms(1) by (auto simp: coerced_def scalar_matches_kind_def split: if_splits)
next
  case (Some n)
  then have "sp_kind p = ''int64''" using assms(2) by (auto simp: validate_scalar_def split: if_splits)
  then show ?thesis using assms(1) Some by (auto simp: coerced_def scalar_matches_kind_def)
qed

lemma bind_loop_coerced:
  "bind_loop ps positional remaining = Inr vs \<Longrightarrow>
   length vs = length ps \<and> (\<forall>i < length vs. coerced (ps ! i) (vs ! i))"
proof (induction ps arbitrary: positional remaining vs)
  case (Cons p ps)
  then obtain a rest v vs' where "coerce_scalar p a = Inr v" "vs = v # vs'"
    "bind_loop ps (tl positional) rest = Inr vs'"
    by (auto simp: err_simps)
  with Cons.IH[OF this(3)] show ?case
    by (auto simp: nth_Cons' coerce_scalar_coerced)
qed (simp split: if_splits)

lemma bind_scalars_coerced:
  assumes "bind_scalars op args kwargs = Inr vs"
  shows "length vs = length (scalar_parameters op)"
    "\<And>i. i < length vs \<Longrightarrow> coerced (scalar_parameters op ! i) (vs ! i)"
  using assms bind_loop_coerced[of "scalar_parameters op" _ kwargs vs]
  by (auto simp: bind_scalars_def Let_def split: if_splits)

text \<open>Positional scalars are used in order.\<close>

lemma bind_loop_positional:
  "bind_loop ps positional remaining = Inr vs \<Longrightarrow> i < length positional \<Longrightarrow> i < length ps \<Longrightarrow>
   coerce_scalar (ps ! i) (positional ! i) = Inr (vs ! i)"
proof (induction ps arbitrary: positional remaining vs i)
  case (Cons p ps)
  then obtain a as where pos: "positional = a # as" by (cases positional) auto
  from Cons.prems(1) pos obtain rest v vs' where r: "take_scalar p positional remaining = Inr (a, rest)"
    "coerce_scalar p a = Inr v" "vs = v # vs'" "bind_loop ps as rest = Inr vs'"
    by (auto simp: err_simps take_scalar_def Let_def split: if_splits)
  show ?case
  proof (cases i)
    case (Suc j)
    then show ?thesis using Cons.IH[OF r(4), of j] Cons.prems pos r by simp
  qed (use r pos in simp)
qed simp

lemma bind_scalars_positional:
  assumes "bind_scalars op args kwargs = Inr vs" "i < length (filter (\<lambda>a. \<not> is_tensor a) args)"
  shows "coerce_scalar (scalar_parameters op ! i) (filter (\<lambda>a. \<not> is_tensor a) args ! i) = Inr (vs ! i)"
  using assms bind_loop_positional[of "scalar_parameters op" _ kwargs vs i]
  by (auto simp: bind_scalars_def Let_def split: if_splits)

text \<open>The right number of coerced positional scalars always binds.\<close>

lemma coerce_coerced:
  assumes "coerced p v"
  shows "coerce_scalar p (PValue v) = Inr v"
  using assms by (auto simp: coerced_def coerce_scalar_def split: if_splits)

lemma bind_loop_exact:
  "length vs = length ps \<Longrightarrow> (\<And>i. i < length ps \<Longrightarrow> coerced (ps ! i) (vs ! i)) \<Longrightarrow>
   bind_loop ps (map PValue vs) [] = Inr vs"
proof (induction ps arbitrary: vs)
  case (Cons p ps)
  then obtain v vs' where vs: "vs = v # vs'" by (cases vs) auto
  have "coerced p v" using Cons.prems(2)[of 0] vs by simp
  moreover have "bind_loop ps (map PValue vs') [] = Inr vs'"
    using Cons.IH[of vs'] Cons.prems vs by (metis Suc_less_eq length_Cons nat.inject nth_Cons_Suc)
  ultimately show ?case by (simp add: vs take_scalar_def coerce_coerced)
qed simp

text \<open>A validated default can be bound, except a \<open>float64\<close> default whose integer is too large.\<close>

lemma coerce_default:
  assumes "validate_scalar p = Inr ()" "sp_default p = Some v"
  shows "ok (coerce_scalar p (PValue v)) \<or>
    coerce_scalar p (PValue v) = Inl (OverflowError ''int too large to convert to float'')"
proof (cases "sp_enum_name p")
  case None
  then have m: "scalar_matches_kind v (sp_kind p)" "sp_kind p \<in> set SCALAR_KINDS"
    using assms by (auto simp: validate_scalar_def err_simps split: if_splits)
  show ?thesis
  proof (cases v)
    case (SInt i)
    then show ?thesis using m None int_to_double_result[of i]
      by (auto simp: coerce_scalar_def scalar_matches_kind_def SCALAR_KINDS_def)
  qed (use m None in \<open>auto simp: coerce_scalar_def scalar_matches_kind_def SCALAR_KINDS_def\<close>)
next
  case (Some n)
  then obtain s where s: "v = SText s" "s \<in> set (sp_enum_values p)"
    using assms by (auto simp: validate_scalar_def err_simps split: if_splits)
  then show ?thesis using Some index_of_member[OF s(2)] by (auto simp: coerce_scalar_def)
qed

text \<open>Tensors bound to one dtype variable share a dtype the variable allows.\<close>

lemma dtype_step:
  assumes "dtype_loop variables ((p, t) # pts) b = Inr ()" "tp_dtype_variable p = Some name"
  shows "\<exists>v \<in> set variables. dv_name v = name \<and> v_dtype (at_view t) \<in> set (dv_dtypes v)"
    "b name = None \<or> b name = Some (v_dtype (at_view t))"
    "dtype_loop variables pts (b(name \<mapsto> v_dtype (at_view t))) = Inr ()"
proof -
  obtain v where v: "find (\<lambda>v. dv_name v = name) (rev variables) = Some v"
    using assms by (cases "find (\<lambda>v. dv_name v = name) (rev variables)") simp_all
  then have a: "v_dtype (at_view t) \<in> set (dv_dtypes v)"
    using assms by (simp add: Let_def split: if_split_asm)
  then have r: "(b name = None \<or> b name = Some (v_dtype (at_view t))) \<and>
      dtype_loop variables pts (b(name \<mapsto> v_dtype (at_view t))) = Inr ()"
    using assms v by (cases "b name") (simp_all add: Let_def split: if_split_asm)
  have "v \<in> set (rev variables) \<and> dv_name v = name" using find_SomeD[OF v] .
  then show "\<exists>v \<in> set variables. dv_name v = name \<and> v_dtype (at_view t) \<in> set (dv_dtypes v)" using a by auto
  show "b name = None \<or> b name = Some (v_dtype (at_view t))"
    "dtype_loop variables pts (b(name \<mapsto> v_dtype (at_view t))) = Inr ()" using r by (rule conjunct1, rule conjunct2)
qed

lemma dtype_skip:
  assumes "dtype_loop variables ((p, t) # pts) b = Inr ()" "tp_dtype_variable p = None"
  shows "dtype_loop variables pts b = Inr ()" "tp_dtypes p = [] \<or> v_dtype (at_view t) \<in> set (tp_dtypes p)"
  using assms by (auto simp: Let_def split: if_splits)

declare dtype_loop.simps(2) [simp del]

lemma dtype_loop_tail:
  assumes "dtype_loop variables ((p, t) # pts) b = Inr ()"
  shows "\<exists>b'. dtype_loop variables pts b' = Inr () \<and> (\<forall>n d. b n = Some d \<longrightarrow> b' n = Some d) \<and>
    (\<forall>n. tp_dtype_variable p = Some n \<longrightarrow> b' n = Some (v_dtype (at_view t)))"
proof (cases "tp_dtype_variable p")
  case None
  show ?thesis by (rule exI[of _ b]) (simp add: dtype_skip(1)[OF assms None] None)
next
  case (Some name)
  have "b n = Some d \<Longrightarrow> (b(name \<mapsto> v_dtype (at_view t))) n = Some d" for n d
    using dtype_step(2)[OF assms Some] by (cases "n = name") auto
  with dtype_step(3)[OF assms Some] Some show ?thesis
    by (intro exI[of _ "b(name \<mapsto> v_dtype (at_view t))"]) auto
qed

lemma dtype_loop_variable:
  "dtype_loop variables pts b = Inr () \<Longrightarrow> (p, t) \<in> set pts \<Longrightarrow> tp_dtype_variable p = Some name \<Longrightarrow>
   (\<exists>v \<in> set variables. dv_name v = name \<and> v_dtype (at_view t) \<in> set (dv_dtypes v)) \<and>
   (\<forall>d. b name = Some d \<longrightarrow> v_dtype (at_view t) = d)"
proof (induction pts arbitrary: b)
  case (Cons qu pts)
  obtain q u where qu: "qu = (q, u)" by (metis surj_pair)
  note D = Cons.prems(1)[unfolded qu]
  show ?case
  proof (cases "(p, t) = (q, u)")
    case True
    then have v: "tp_dtype_variable q = Some name" "t = u" using Cons.prems(3) by simp_all
    show ?thesis using dtype_step(1)[OF D v(1)] dtype_step(2)[OF D v(1)] unfolding v(2)
      by auto
  next
    case False
    obtain b' where b': "dtype_loop variables pts b' = Inr ()" "\<forall>n d. b n = Some d \<longrightarrow> b' n = Some d"
      using dtype_loop_tail[OF D] by (elim exE conjE)
    from False have "(p, t) \<in> set pts" using Cons.prems(2) qu by auto
    note IH = Cons.IH[OF b'(1) this Cons.prems(3)]
    show ?thesis using IH[THEN conjunct1] IH[THEN conjunct2] b'(2) by simp
  qed
qed simp

lemma dtype_loop_shared:
  "dtype_loop variables pts b = Inr () \<Longrightarrow> i < j \<Longrightarrow> j < length pts \<Longrightarrow> pts ! i = (p, t) \<Longrightarrow> pts ! j = (q, u) \<Longrightarrow>
   tp_dtype_variable p = Some name \<Longrightarrow> tp_dtype_variable q = Some name \<Longrightarrow>
   v_dtype (at_view t) = v_dtype (at_view u)"
proof (induction pts arbitrary: b i j)
  case (Cons rw pts)
  obtain r w where rw: "rw = (r, w)" by (metis surj_pair)
  obtain b' where b': "dtype_loop variables pts b' = Inr ()"
    "\<forall>n. tp_dtype_variable r = Some n \<longrightarrow> b' n = Some (v_dtype (at_view w))"
    using dtype_loop_tail[OF Cons.prems(1)[unfolded rw]] by (elim exE conjE)
  obtain j' where j: "j = Suc j'" "j' < length pts" "pts ! j' = (q, u)"
    using Cons.prems(2,3,5) by (cases j) auto
  show ?case
  proof (cases i)
    case 0
    then have "p = r" "t = w" using Cons.prems(4) rw by auto
    then have "b' name = Some (v_dtype (at_view t))" using b'(2) Cons.prems(6) by simp
    moreover have "(q, u) \<in> set pts" using j(2,3) nth_mem[of j' pts] by simp
    ultimately show ?thesis using dtype_loop_variable[OF b'(1) _ Cons.prems(7), of u, THEN conjunct2] by simp
  next
    case (Suc i')
    then show ?thesis using Cons.IH[OF b'(1), of i' j'] Cons.prems j by simp
  qed
qed simp

lemma validate_tensor_dtypes_Inr:
  assumes "validate_tensor_dtypes op ts = Inr ()" "length ts = length (tensor_inputs op)"
    and "i < length ts" "j < length ts" "tp_dtype_variable (tensor_inputs op ! i) = Some name"
    and "tp_dtype_variable (tensor_inputs op ! j) = Some name"
  shows "v_dtype (at_view (ts ! i)) = v_dtype (at_view (ts ! j))"
    "\<exists>v \<in> set (dtype_variables op). dv_name v = name \<and> v_dtype (at_view (ts ! i)) \<in> set (dv_dtypes v)"
proof -
  let ?z = "zip (tensor_inputs op) ts"
  have d: "dtype_loop (dtype_variables op) ?z Map.empty = Inr ()" using assms(1) by (simp add: validate_tensor_dtypes_def)
  have at: "?z ! k = (tensor_inputs op ! k, ts ! k)" if "k < length ts" for k using that assms(2) by simp
  have mem: "(tensor_inputs op ! i, ts ! i) \<in> set ?z" using assms(2,3) by (force simp: in_set_zip)
  show "\<exists>v \<in> set (dtype_variables op). dv_name v = name \<and> v_dtype (at_view (ts ! i)) \<in> set (dv_dtypes v)"
    using dtype_loop_variable[OF d mem assms(5)] by blast
  show "v_dtype (at_view (ts ! i)) = v_dtype (at_view (ts ! j))"
  proof (cases i j rule: linorder_cases)
    case less
    show ?thesis by (rule dtype_loop_shared[OF d less _ at[OF assms(3)] at[OF assms(4)] assms(5,6)]) (use assms in simp)
  next
    case greater
    show ?thesis
      by (rule dtype_loop_shared[OF d greater _ at[OF assms(4)] at[OF assms(3)] assms(6,5), symmetric]) (use assms in simp)
  qed simp
qed

lemma bind_invocation_Inr:
  assumes "bind_invocation g op args kwargs out = Inr bi"
  shows "bi_operation bi = op" "bi_out bi = out" "map fst (bi_tensor_inputs bi) = tensors_of args"
    "length (tensors_of args) = length (tensor_inputs op)"
    "bind_scalars op args kwargs = Inr (bi_scalars bi)" "validate_tensor_dtypes op (tensors_of args) = Inr ()"
  using assms by (auto simp: bind_invocation_def Let_def err_simps o_def split_beta split: if_splits)

end
