(* ===== verification/Registry.thy ===== *)
theory Registry
  imports Invocation "HOL-Library.List_Lexorder" "HOL-Library.Char_ord"
begin

text \<open>
  The operation catalog, \<open>OperationRegistry\<close> of \<open>packages/wmfs/wmfs/registry.py\<close>: plugins
  by name, operations by qualified name, unqualified aliases, and operations by ID. A
  dictionary is an association list with distinct keys; an alias is ambiguous when its
  value is \<open>None\<close>.
\<close>

record Registry =
  plugins :: "(string \<times> PluginMetadata) list"
  operations :: "(string \<times> OperationMetadata) list"
  operation_plugins :: "(string \<times> string) list"
  aliases :: "(string \<times> string option) list"
  operation_ids :: "(string \<times> (int \<times> OperationMetadata) list) list"

definition new_registry :: Registry where
  "new_registry = \<lparr>plugins = [], operations = [], operation_plugins = [], aliases = [], operation_ids = []\<rparr>"

definition qualified_name :: "string \<Rightarrow> string \<Rightarrow> string" where
  "qualified_name plugin operation = plugin @ ''.'' @ operation"

definition register_operation :: "string \<Rightarrow> OperationMetadata \<Rightarrow> Registry \<Rightarrow> Registry" where
  "register_operation plugin o' r =
     (let q = qualified_name plugin (om_name o') in
      r\<lparr>operations := AList.update q o' (operations r),
        operation_plugins := AList.update q plugin (operation_plugins r),
        aliases := AList.update (om_name o')
          (if map_of (aliases r) (om_name o') = None then Some q else None) (aliases r)\<rparr>)"

fun by_id :: "OperationMetadata list \<Rightarrow> (int \<times> OperationMetadata) list \<Rightarrow> (int \<times> OperationMetadata) list" where
  "by_id [] d = d"
| "by_id (o' # os) d = by_id os (AList.update (om_operation_id o') o' d)"

definition register :: "PluginMetadata \<Rightarrow> (Registry, unit) st" where
  "register p =
     sbind sget (\<lambda>r.
     if map_of (plugins r) (pm_name p) \<noteq> None then sraise (ValueError ''Plugin is already registered'')
     else
     sbind (smod (\<lambda>r. r\<lparr>plugins := AList.update (pm_name p) p (plugins r)\<rparr>)) (\<lambda>_.
     sbind (smod (\<lambda>r. fold (register_operation (pm_name p)) (pm_operations p) r)) (\<lambda>_.
     smod (\<lambda>r. r\<lparr>operation_ids := AList.update (pm_name p) (by_id (pm_operations p) []) (operation_ids r)\<rparr>))))"

definition resolve_name :: "Registry \<Rightarrow> string \<Rightarrow> string result" where
  "resolve_name r name =
     (if CHR ''.'' \<in> set name then Inr name
      else case map_of (aliases r) name of
        None \<Rightarrow> Inl (KeyError ''Operation is not registered'')
      | Some None \<Rightarrow> Inl (KeyError ''Operation is ambiguous'')
      | Some (Some q) \<Rightarrow> Inr q)"

definition operation :: "Registry \<Rightarrow> string \<Rightarrow> OperationMetadata result" where
  "operation r name =
     ebind (resolve_name r name) (\<lambda>q. or_raise (map_of (operations r) q) (KeyError ''Operation is not registered''))"

definition plugin_for_operation :: "Registry \<Rightarrow> string \<Rightarrow> string result" where
  "plugin_for_operation r name =
     ebind (resolve_name r name) (\<lambda>q. or_raise (map_of (operation_plugins r) q) (KeyError ''Operation is not registered''))"

definition plugin :: "Registry \<Rightarrow> string \<Rightarrow> PluginMetadata result" where
  "plugin r name = or_raise (map_of (plugins r) name) (KeyError ''Plugin is not registered'')"

definition operation_by_id :: "Registry \<Rightarrow> string \<Rightarrow> int \<Rightarrow> OperationMetadata result" where
  "operation_by_id r pn i =
     (case map_of (operation_ids r) pn of
        None \<Rightarrow> Inl (KeyError ''Operation ID is not registered'')
      | Some d \<Rightarrow> or_raise (map_of d i) (KeyError ''Operation ID is not registered''))"

definition plugin_names :: "Registry \<Rightarrow> string list" where
  "plugin_names r = sort (map fst (plugins r))"

text \<open>The public names: an alias that resolves to an operation that is not internal.\<close>

definition operation_names :: "Registry \<Rightarrow> string list result" where
  "operation_names r =
     ebind (emap (\<lambda>(name, a). case a of None \<Rightarrow> Inr []
               | Some q \<Rightarrow> ebind (or_raise (map_of (operations r) q) (KeyError ''operation'')) (\<lambda>o'.
                   Inr (if internal o' then [] else [name]))) (aliases r)) (\<lambda>ns.
     Inr (sort (concat ns)))"

definition qualified_operation_names :: "Registry \<Rightarrow> string list" where
  "qualified_operation_names r = sort (map fst (filter (\<lambda>(name, o'). \<not> internal o') (operations r)))"

section \<open>Qualified names\<close>

definition dot_free :: "string \<Rightarrow> bool" where
  "dot_free s \<longleftrightarrow> CHR ''.'' \<notin> set s"

lemma qualified_inject:
  assumes "dot_free p" "dot_free p'"
  shows "qualified_name p o1 = qualified_name p' o2 \<longleftrightarrow> p = p' \<and> o1 = o2"
proof -
  have "takeWhile (\<lambda>c. c \<noteq> CHR ''.'') (qualified_name s x) = s" if "dot_free s" for s x
    using that by (auto simp: qualified_name_def dot_free_def takeWhile_append)
  with assms show ?thesis by (metis append_Cons append_Nil append_same_eq qualified_name_def same_append_eq list.inject)
qed

lemma resolve_qualified [simp]: "resolve_name r (qualified_name p o') = Inr (qualified_name p o')"
  by (simp add: resolve_name_def qualified_name_def)

lemma find_unique:
  assumes "distinct (map f xs)" "x \<in> set xs"
  shows "find (\<lambda>y. f y = f x) xs = Some x"
  using assms
proof (induction xs)
  case (Cons a xs)
  then show ?case by (cases "x = a") (auto simp: rev_image_eqI)
qed simp

section \<open>A registry of a list of plugins\<close>

inductive registry_of :: "PluginMetadata list \<Rightarrow> Registry \<Rightarrow> bool" where
  empty: "registry_of [] new_registry"
| add: "registry_of ps r \<Longrightarrow> register p r = (Inr (), r') \<Longrightarrow> registry_of (ps @ [p]) r'"

text \<open>Every operation of every plugin, by its plugin's name.\<close>

definition provided :: "PluginMetadata list \<Rightarrow> (string \<times> OperationMetadata) set" where
  "provided ps = {(pm_name p, o') | p o'. p \<in> set ps \<and> o' \<in> set (pm_operations p)}"

text \<open>What validation guarantees of each plugin, and the names having no dot.\<close>

definition well_named :: "PluginMetadata \<Rightarrow> bool" where
  "well_named p \<longleftrightarrow> dot_free (pm_name p) \<and> distinct (map om_name (pm_operations p)) \<and>
     distinct (map om_operation_id (pm_operations p))"

definition provides :: "(string \<times> OperationMetadata) set \<Rightarrow> Registry \<Rightarrow> bool" where
  "provides S r \<longleftrightarrow>
     (\<forall>p o'. (p, o') \<in> S \<longrightarrow> map_of (operations r) (qualified_name p (om_name o')) = Some o' \<and>
                          map_of (operation_plugins r) (qualified_name p (om_name o')) = Some p) \<and>
     (\<forall>name. map_of (aliases r) name =
        (if \<forall>x \<in> S. om_name (snd x) \<noteq> name then None
         else if \<exists>x. {y \<in> S. om_name (snd y) = name} = {x}
         then Some (Some (qualified_name (fst (THE x. {y \<in> S. om_name (snd y) = name} = {x})) name))
         else Some None))"

lemma only_member: "{y \<in> S. P y} = {x} \<Longrightarrow> (THE x. {y \<in> S. P y} = {x}) = x"
  by auto

lemma provides_register:
  assumes "provides S r" "(p, o') \<notin> S" "\<And>q o2. (q, o2) \<in> S \<Longrightarrow> dot_free q" "dot_free p"
    and "\<And>o2. (p, o2) \<in> S \<Longrightarrow> om_name o2 \<noteq> om_name o'"
  shows "provides (insert (p, o') S) (register_operation p o' r)"
proof -
  let ?n = "om_name o'"
  let ?r = "register_operation p o' r"
  have ops: "map_of (operations ?r) = (map_of (operations r))(qualified_name p ?n \<mapsto> o')"
    "map_of (operation_plugins ?r) = (map_of (operation_plugins r))(qualified_name p ?n \<mapsto> p)"
    "map_of (aliases ?r) = (map_of (aliases r))(?n \<mapsto> (if map_of (aliases r) ?n = None then Some (qualified_name p ?n) else None))"
    by (simp_all add: register_operation_def Let_def update_conv')
  have old: "map_of (operations ?r) (qualified_name q (om_name o2)) = Some o2 \<and>
      map_of (operation_plugins ?r) (qualified_name q (om_name o2)) = Some q" if "(q, o2) \<in> insert (p, o') S" for q o2
  proof (cases "(q, o2) = (p, o')")
    case False
    then have m: "(q, o2) \<in> S" using that by auto
    have "qualified_name q (om_name o2) \<noteq> qualified_name p ?n"
      using qualified_inject[OF assms(3)[OF m] assms(4)] assms(5) m by auto
    then show ?thesis using assms(1) m by (simp add: ops provides_def)
  qed (simp add: ops)
  have al: "map_of (aliases r) name =
        (if \<forall>x \<in> S. om_name (snd x) \<noteq> name then None
         else if \<exists>x. {y \<in> S. om_name (snd y) = name} = {x}
         then Some (Some (qualified_name (fst (THE x. {y \<in> S. om_name (snd y) = name} = {x})) name))
         else Some None)" for name
    using assms(1) by (simp add: provides_def)
  let ?T = "insert (p, o') S"
  have "map_of (aliases ?r) name =
        (if \<forall>x \<in> ?T. om_name (snd x) \<noteq> name then None
         else if \<exists>x. {y \<in> ?T. om_name (snd y) = name} = {x}
         then Some (Some (qualified_name (fst (THE x. {y \<in> ?T. om_name (snd y) = name} = {x})) name))
         else Some None)" for name
  proof (cases "name = ?n")
    case False
    then have "{y \<in> ?T. om_name (snd y) = name} = {y \<in> S. om_name (snd y) = name}" by auto
    then show ?thesis using al[of name] False by (simp add: ops)
  next
    case name: True
    have split: "{y \<in> ?T. om_name (snd y) = name} = insert (p, o') {y \<in> S. om_name (snd y) = name}"
      using name by auto
    show ?thesis
    proof (cases "\<forall>x \<in> S. om_name (snd x) \<noteq> name")
      case True
      then have one: "{y \<in> ?T. om_name (snd y) = name} = {(p, o')}" unfolding split by auto
      have "(THE x. {y \<in> ?T. om_name (snd y) = name} = {x}) = (p, o')" by (rule only_member[OF one])
      moreover have "map_of (aliases r) ?n = None" using al[of ?n] True name by simp
      ultimately show ?thesis using one name by (simp add: ops)
    next
      case False
      then obtain y where y: "y \<in> S" "om_name (snd y) = name" by blast
      then have "y \<noteq> (p, o')" using assms(2) by auto
      then have "\<not> (\<exists>x. {y \<in> ?T. om_name (snd y) = name} = {x})"
        unfolding split using y by (metis (mono_tags, lifting) insertCI mem_Collect_eq singletonD)
      moreover have "map_of (aliases r) ?n \<noteq> None" using al[of ?n] False name by simp
      ultimately show ?thesis using name by (auto simp: ops)
    qed
  qed
  with old show ?thesis unfolding provides_def by blast
qed

lemma provides_fold:
  assumes "provides S r" "\<And>q o2. (q, o2) \<in> S \<Longrightarrow> dot_free q \<and> (q = p \<longrightarrow> om_name o2 \<notin> om_name ` set os)"
    and "dot_free p" "distinct (map om_name os)"
  shows "provides (S \<union> {p} \<times> set os) (fold (register_operation p) os r)"
  using assms
proof (induction os arbitrary: S r)
  case (Cons o' os)
  have "provides (insert (p, o') S) (register_operation p o' r)"
    using Cons.prems by (intro provides_register) auto
  from Cons.IH[OF this] Cons.prems show ?case by auto
qed simp

lemma register_operation_other [simp]:
  "plugins (register_operation p o' r) = plugins r" "operation_ids (register_operation p o' r) = operation_ids r"
  by (simp_all add: register_operation_def Let_def)

lemma fold_register_other [simp]:
  "plugins (fold (register_operation p) os r) = plugins r"
  "operation_ids (fold (register_operation p) os r) = operation_ids r"
  by (induction os arbitrary: r) simp_all

lemma register_Inr:
  assumes "register p r = (Inr (), r')"
  shows "map_of (plugins r) (pm_name p) = None"
    "map_of (plugins r') = (map_of (plugins r))(pm_name p \<mapsto> p)"
    "map_of (operation_ids r') = (map_of (operation_ids r))(pm_name p \<mapsto> by_id (pm_operations p) [])"
    "operations r' = operations (fold (register_operation (pm_name p)) (pm_operations p)
       (r\<lparr>plugins := AList.update (pm_name p) p (plugins r)\<rparr>))"
    "operation_plugins r' = operation_plugins (fold (register_operation (pm_name p)) (pm_operations p)
       (r\<lparr>plugins := AList.update (pm_name p) p (plugins r)\<rparr>))"
    "aliases r' = aliases (fold (register_operation (pm_name p)) (pm_operations p)
       (r\<lparr>plugins := AList.update (pm_name p) p (plugins r)\<rparr>))"
  using assms by (auto simp: register_def st_run update_conv' split: if_splits)

text \<open>A failed registration changes nothing.\<close>

lemma register_Inl: "register p r = (Inl e, r') \<Longrightarrow> r' = r"
  by (auto simp: register_def st_run split: if_splits)

lemma by_id_map_of:
  "distinct (map om_operation_id os) \<Longrightarrow> (\<And>o'. o' \<in> set os \<Longrightarrow> om_operation_id o' \<notin> fst ` set d) \<Longrightarrow>
   map_of (by_id os d) i = (case find (\<lambda>o'. om_operation_id o' = i) os of Some o' \<Rightarrow> Some o' | None \<Rightarrow> map_of d i)"
proof (induction os arbitrary: d)
  case (Cons o' os)
  have "map_of (by_id os (AList.update (om_operation_id o') o' d)) i
    = (case find (\<lambda>o'. om_operation_id o' = i) os of Some o' \<Rightarrow> Some o'
       | None \<Rightarrow> map_of (AList.update (om_operation_id o') o' d) i)"
    using Cons.prems by (intro Cons.IH) (auto simp: dom_update image_iff)
  moreover have "om_operation_id o' = i \<Longrightarrow> find (\<lambda>o'. om_operation_id o' = i) os = None"
    unfolding find_None_iff using Cons.prems(1) by (auto simp: rev_image_eqI)
  ultimately show ?case by (auto simp: update_conv' split: option.splits)
qed simp

lemma registry_of_provides:
  assumes "registry_of ps r" "\<forall>p \<in> set ps. well_named p"
  shows "provides (provided ps) r \<and> (\<forall>p \<in> set ps. map_of (plugins r) (pm_name p) = Some p) \<and>
    (\<forall>name. map_of (plugins r) name \<noteq> None \<longrightarrow> name \<in> pm_name ` set ps) \<and>
    (\<forall>p \<in> set ps. map_of (operation_ids r) (pm_name p) = Some (by_id (pm_operations p) []))"
  using assms
proof (induction rule: registry_of.induct)
  case empty
  show ?case by (simp add: provides_def provided_def new_registry_def)
next
  case (add ps r p r')
  note R = register_Inr[OF add.hyps(2)]
  have IH: "provides (provided ps) r" "\<forall>p \<in> set ps. map_of (plugins r) (pm_name p) = Some p"
    "\<forall>name. map_of (plugins r) name \<noteq> None \<longrightarrow> name \<in> pm_name ` set ps"
    "\<forall>p \<in> set ps. map_of (operation_ids r) (pm_name p) = Some (by_id (pm_operations p) [])"
    using add.IH add.prems by auto
  have p: "well_named p" using add.prems by simp
  have new: "pm_name q \<noteq> pm_name p" if "q \<in> set ps" for q using IH(2) R(1) that by auto
  have "provides (provided ps) (r\<lparr>plugins := AList.update (pm_name p) p (plugins r)\<rparr>)"
    using IH(1) by (simp add: provides_def)
  then have "provides (provided ps \<union> {pm_name p} \<times> set (pm_operations p))
      (fold (register_operation (pm_name p)) (pm_operations p) (r\<lparr>plugins := AList.update (pm_name p) p (plugins r)\<rparr>))"
  proof (rule provides_fold)
    fix q o2 assume "(q, o2) \<in> provided ps"
    then show "dot_free q \<and> (q = pm_name p \<longrightarrow> om_name o2 \<notin> om_name ` set (pm_operations p))"
      using new add.prems by (auto simp: provided_def well_named_def)
  qed (use p in \<open>simp_all add: well_named_def\<close>)
  moreover have "provided (ps @ [p]) = provided ps \<union> {pm_name p} \<times> set (pm_operations p)"
    by (auto simp: provided_def)
  ultimately have "provides (provided (ps @ [p])) r'" using R(4-6) by (simp add: provides_def)
  then show ?case using IH(2-4) new by (auto simp: R(2,3))
qed

section \<open>Looking up operations\<close>

lemma lookup_qualified:
  assumes "registry_of ps r" "\<forall>p \<in> set ps. well_named p" "p \<in> set ps" "o' \<in> set (pm_operations p)"
  shows "operation r (qualified_name (pm_name p) (om_name o')) = Inr o'"
    "plugin_for_operation r (qualified_name (pm_name p) (om_name o')) = Inr (pm_name p)"
    "operation_by_id r (pm_name p) (om_operation_id o') = Inr o'" "plugin r (pm_name p) = Inr p"
proof -
  note P = registry_of_provides[OF assms(1,2)]
  have "(pm_name p, o') \<in> provided ps" using assms(3,4) by (auto simp: provided_def)
  then have "map_of (operations r) (qualified_name (pm_name p) (om_name o')) = Some o' \<and>
      map_of (operation_plugins r) (qualified_name (pm_name p) (om_name o')) = Some (pm_name p)"
    using P[THEN conjunct1] unfolding provides_def by blast
  then show "operation r (qualified_name (pm_name p) (om_name o')) = Inr o'"
    "plugin_for_operation r (qualified_name (pm_name p) (om_name o')) = Inr (pm_name p)"
    by (simp_all add: operation_def plugin_for_operation_def)
  have d: "distinct (map om_operation_id (pm_operations p))" using assms(2,3) by (simp add: well_named_def)
  have "find (\<lambda>x. om_operation_id x = om_operation_id o') (pm_operations p) = Some o'"
    using d assms(4) by (rule find_unique)
  then show "operation_by_id r (pm_name p) (om_operation_id o') = Inr o'"
    using P assms(3) d by (simp add: operation_by_id_def by_id_map_of)
  show "plugin r (pm_name p) = Inr p" using P assms(3) by (simp add: plugin_def)
qed

lemma lookup_alias:
  assumes "registry_of ps r" "\<forall>p \<in> set ps. well_named p" "dot_free name"
  shows "operation r name =
    (if \<forall>x \<in> provided ps. om_name (snd x) \<noteq> name then Inl (KeyError ''Operation is not registered'')
     else if \<exists>x. {y \<in> provided ps. om_name (snd y) = name} = {x}
     then Inr (snd (THE x. {y \<in> provided ps. om_name (snd y) = name} = {x}))
     else Inl (KeyError ''Operation is ambiguous''))"
proof -
  note P = registry_of_provides[OF assms(1,2), THEN conjunct1]
  have al: "map_of (aliases r) name =
      (if \<forall>x \<in> provided ps. om_name (snd x) \<noteq> name then None
       else if \<exists>x. {y \<in> provided ps. om_name (snd y) = name} = {x}
       then Some (Some (qualified_name (fst (THE x. {y \<in> provided ps. om_name (snd y) = name} = {x})) name))
       else Some None)"
    using P by (simp add: provides_def)
  show ?thesis
  proof (cases "\<exists>x. {y \<in> provided ps. om_name (snd y) = name} = {x}")
    case True
    then obtain x where x: "{y \<in> provided ps. om_name (snd y) = name} = {x}" by blast
    have the_x: "(THE x. {y \<in> provided ps. om_name (snd y) = name} = {x}) = x" by (rule only_member[OF x])
    have mem: "x \<in> provided ps" "om_name (snd x) = name" using x by auto
    then have "map_of (operations r) (qualified_name (fst x) name) = Some (snd x)"
      using P unfolding provides_def by (metis prod.collapse)
    moreover have "map_of (aliases r) name = Some (Some (qualified_name (fst x) name))"
      using al mem True the_x by auto
    ultimately show ?thesis
      using assms(3) mem True the_x by (auto simp: operation_def resolve_name_def dot_free_def)
  next
    case False
    then have "map_of (aliases r) name = (if \<forall>x \<in> provided ps. om_name (snd x) \<noteq> name then None else Some None)"
      using al by simp
    then show ?thesis
      using assms(3) False by (simp add: operation_def resolve_name_def dot_free_def)
  qed
qed

end
