(* ===== verification/Autograd.thy ===== *)
theory Autograd
  imports Registry
begin

text \<open>
  The bridge to autograd, \<open>packages/wmfs/wmfs/autograd.py\<close>: what is saved on the forward
  pass, the call of the VJP operation on the backward pass and the placing of its results.
  Tensors are opaque; running an operation is the argument \<open>invoke\<close>, which is told the
  operation's name, the tensors and the scalars and returns the output tensors.
\<close>

type_synonym 'a invoke = "string \<Rightarrow> 'a list \<Rightarrow> sval list \<Rightarrow> 'a list result"

text \<open>\<open>_VjpFunction.forward\<close>: the saved tensors and the outputs that get no gradient.\<close>

definition vjp_forward ::
  "OperationMetadata \<Rightarrow> 'a list \<Rightarrow> ('a list \<times> nat list) result" where
  "vjp_forward op vals =
     (case vjp op of None \<Rightarrow> Inl AssertionError | Some v \<Rightarrow>
      let n = length (tensor_inputs op); ins = take n vals; outs = drop n vals in
      if length outs \<noteq> length (tensor_outputs op)
      then Inl (RuntimeError ''Isolated operation returned an invalid output count'')
      else
      ebind (emap (py_index ins) (saved_inputs v)) (\<lambda>si.
      ebind (emap (py_index outs) (saved_outputs v)) (\<lambda>so.
      Inr (si @ so, filter (\<lambda>i. int i \<notin> set (output_cotangents v)) [0..<length outs]))))"

text \<open>The loop that places the returned gradients; \<open>needs\<close> is \<open>ctx.needs_input_grad\<close> without
  its first five entries.\<close>

fun place_gradients :: "bool list \<Rightarrow> (int \<times> 'a) list \<Rightarrow> 'a option list \<Rightarrow> 'a option list result" where
  "place_gradients needs [] grads = Inr grads"
| "place_gradients needs ((i, g) # rest) grads =
     ebind (py_index needs i) (\<lambda>needed.
     if needed
     then ebind (py_index grads i) (\<lambda>_. place_gradients needs rest (grads[position grads i := Some g]))
     else place_gradients needs rest grads)"

definition vjp_backward ::
  "bool \<Rightarrow> OperationMetadata \<Rightarrow> OperationMetadata \<Rightarrow> sval list \<Rightarrow> bool list \<Rightarrow> 'a list \<Rightarrow> 'a invoke \<Rightarrow> 'a list
   \<Rightarrow> 'a option list result" where
  "vjp_backward grad_enabled op target scalars needs saved invoke gradients =
     (if grad_enabled then Inl (RuntimeError ''Isolated VJPs do not support higher-order autograd'')
      else case vjp op of None \<Rightarrow> Inl AssertionError | Some v \<Rightarrow>
      ebind (emap (py_index gradients) (output_cotangents v)) (\<lambda>cotangents.
      ebind (emap (py_index scalars) (vjp_scalar_parameters v)) (\<lambda>selected.
      ebind (invoke (om_name target) (saved @ cotangents) selected) (\<lambda>returned.
      if length returned \<noteq> length (input_gradients v)
      then Inl (RuntimeError ''VJP operation returned an invalid gradient count'')
      else
      ebind (place_gradients needs (zip (input_gradients v) returned) (replicate (length (tensor_inputs op)) None)) (\<lambda>grads.
      Inr (replicate 5 None @ grads @ replicate (length (tensor_outputs op)) None))))))"

text \<open>\<open>invoke_with_vjp\<close> up to \<open>_VjpFunction.apply\<close>: the values handed to \<open>forward\<close>.\<close>

definition invoke_with_vjp ::
  "ArgTensor invoke \<Rightarrow> OperationMetadata \<Rightarrow> py_arg list \<Rightarrow> kwargs \<Rightarrow> (sval list \<times> ArgTensor list) result" where
  "invoke_with_vjp invoke op args kwargs =
     (if list_ex (\<lambda>p. tp_access p \<noteq> ''readOnly'') (tensor_inputs op)
      then Inl (RuntimeError ''Isolated autograd does not support mutable tensor inputs'')
      else
      ebind (bind_scalars op args kwargs) (\<lambda>scalars.
      ebind (invoke (om_name op) (tensors_of args) scalars) (\<lambda>outs.
      Inr (scalars, tensors_of args @ outs))))"

section \<open>What validation of a VJP guarantees\<close>

lemma validate_vjp_Inr:
  assumes "validate_vjp ops op = Inr ()" "vjp op = Some v"
  obtains target where "target \<in> set ops" "om_operation_id target = vjp_operation_id v" "internal target" "vjp target = None"
    "length (tensor_inputs target) = length (saved_inputs v) + length (saved_outputs v) + length (output_cotangents v)"
    "length (tensor_outputs target) = length (input_gradients v)"
    "length (scalar_parameters target) = length (vjp_scalar_parameters v)"
    "\<forall>i < length (vjp_scalar_parameters v). sp_kind (scalar_parameters target ! i)
        = sp_kind (scalar_parameters op ! nat (vjp_scalar_parameters v ! i))"
    "\<not> invalid_indices (saved_inputs v) (length (tensor_inputs op))"
    "\<not> invalid_indices (saved_outputs v) (length (tensor_outputs op))"
    "\<not> invalid_indices (output_cotangents v) (length (tensor_outputs op))"
    "\<not> invalid_indices (input_gradients v) (length (tensor_inputs op))"
    "\<not> invalid_indices (vjp_scalar_parameters v) (length (scalar_parameters op))"
proof (cases "find (\<lambda>o'. om_operation_id o' = vjp_operation_id v) ops")
  case (Some target)
  have t: "target \<in> set ops" "om_operation_id target = vjp_operation_id v" using find_SomeD[OF Some] by auto
  have f: "internal target" "vjp target = None"
    "length (tensor_inputs target) = length (saved_inputs v) + length (saved_outputs v) + length (output_cotangents v)"
    "length (tensor_outputs target) = length (input_gradients v)"
    "length (scalar_parameters target) = length (vjp_scalar_parameters v)"
    "\<not> invalid_indices (saved_inputs v) (length (tensor_inputs op))"
    "\<not> invalid_indices (saved_outputs v) (length (tensor_outputs op))"
    "\<not> invalid_indices (output_cotangents v) (length (tensor_outputs op))"
    "\<not> invalid_indices (input_gradients v) (length (tensor_inputs op))"
    "\<not> invalid_indices (vjp_scalar_parameters v) (length (scalar_parameters op))"
    "\<forall>(x, i) \<in> set (zip (scalar_parameters target) (vjp_scalar_parameters v)).
        sp_kind x = sp_kind (scalar_parameters op ! nat i)"
    using assms by (auto simp: validate_vjp_def Some err_simps split: if_splits)
  have "\<forall>i < length (vjp_scalar_parameters v). sp_kind (scalar_parameters target ! i)
        = sp_kind (scalar_parameters op ! nat (vjp_scalar_parameters v ! i))"
    using f(5,11) by (force simp: set_zip)
  with t f(1-10) show thesis by (intro that) assumption+
qed (use assms in \<open>simp add: validate_vjp_def\<close>)

lemma valid_index_at:
  assumes "\<not> invalid_indices is n" "k < length is"
  shows "0 \<le> is ! k \<and> is ! k < int n"
proof -
  have "is ! k \<in> set is" using assms(2) by simp
  then show ?thesis using assms(1) unfolding invalid_indices_def list_ex_iff by force
qed

lemma valid_indices_pick:
  assumes "\<not> invalid_indices is (length xs)"
  shows "emap (py_index xs) is = Inr (map (\<lambda>i. xs ! nat i) is)"
proof -
  have "\<forall>i \<in> set is. 0 \<le> i \<and> i < int (length xs)"
    using assms by (auto simp: invalid_indices_def list_ex_iff not_le not_less)
  then show ?thesis by (induction "is") (auto simp: py_index_nonneg)
qed

text \<open>Placing gradients at distinct, valid positions.\<close>

lemma place_gradients_Inr:
  assumes "distinct (map fst igs)" "\<forall>(i, g) \<in> set igs. 0 \<le> i \<and> i < int (length grads)" "length needs = length grads"
  shows "\<exists>r. place_gradients needs igs grads = Inr r \<and> length r = length grads \<and>
    (\<forall>k < length grads. r ! k = (case map_of igs (int k) of
        Some g \<Rightarrow> if needs ! k then Some g else grads ! k | None \<Rightarrow> grads ! k))"
  using assms
proof (induction igs arbitrary: grads)
  case (Cons ig igs)
  obtain i g where ig: "ig = (i, g)" by (metis surj_pair)
  have i: "0 \<le> i" "i < int (length grads)" using Cons.prems(2) ig by auto
  have pos: "position grads i = nat i" using i by (simp add: position_def)
  have fresh: "map_of igs i = None" using Cons.prems(1) ig by (force simp: map_of_eq_None_iff)
  let ?g = "if needs ! nat i then grads[nat i := Some g] else grads"
  have step: "place_gradients needs (ig # igs) grads = place_gradients needs igs ?g"
    using i Cons.prems(3) by (simp add: ig py_index_nonneg pos)
  obtain r where r: "place_gradients needs igs ?g = Inr r" "length r = length grads"
    "\<forall>k < length grads. r ! k = (case map_of igs (int k) of
        Some g \<Rightarrow> if needs ! k then Some g else ?g ! k | None \<Rightarrow> ?g ! k)"
  proof -
    have l: "length ?g = length grads" by simp
    have "distinct (map fst igs)" "\<forall>(i, g) \<in> set igs. 0 \<le> i \<and> i < int (length ?g)" "length needs = length ?g"
      using Cons.prems unfolding l by simp_all
    from Cons.IH[OF this] that show thesis unfolding l by blast
  qed
  have "r ! k = (case map_of (ig # igs) (int k) of
        Some g \<Rightarrow> if needs ! k then Some g else grads ! k | None \<Rightarrow> grads ! k)" if k: "k < length grads" for k
  proof (cases "int k = i")
    case True
    then have "nat i = k" by auto
    then show ?thesis using r(3) k fresh ig True by auto
  next
    case False
    then have "nat i \<noteq> k" using i by auto
    then have "?g ! k = grads ! k" by simp
    then show ?thesis using r(3)[rule_format, OF k] ig False by (simp only: map_of.simps fst_conv snd_conv fun_upd_apply if_False)
  qed
  with r step show ?case by auto
qed simp

lemma place_returned:
  assumes valid: "\<not> invalid_indices is n" and gs: "length gs = length is" and needs: "length needs = n"
  shows "\<exists>p. place_gradients needs (zip is gs) (replicate n None) = Inr p \<and> length p = n \<and>
    (\<forall>j < length gs. 0 \<le> is ! j \<and> nat (is ! j) < length p \<and>
       p ! nat (is ! j) = (if needs ! nat (is ! j) then Some (gs ! j) else None)) \<and>
    (\<forall>k < length p. int k \<notin> set is \<longrightarrow> p ! k = None)"
proof -
  let ?z = "zip is gs" and ?none = "replicate n None"
  have d: "distinct (map fst ?z)" using valid gs by (simp add: invalid_indices_def)
  have r: "\<forall>(i, g) \<in> set ?z. 0 \<le> i \<and> i < int (length ?none)"
    using valid by (auto simp: invalid_indices_def list_ex_iff not_le not_less dest!: set_zip_leftD)
  have l: "length needs = length ?none" using needs by simp
  obtain p where p: "place_gradients needs ?z ?none = Inr p" "length p = n"
    "\<forall>k < n. p ! k = (case map_of ?z (int k) of
        Some g \<Rightarrow> if needs ! k then Some g else ?none ! k | None \<Rightarrow> ?none ! k)"
    using place_gradients_Inr[OF d r l] by auto
  have "0 \<le> is ! j \<and> nat (is ! j) < length p \<and>
       p ! nat (is ! j) = (if needs ! nat (is ! j) then Some (gs ! j) else None)" if j: "j < length gs" for j
  proof -
    have b: "0 \<le> is ! j" "is ! j < int n" using valid_index_at[OF valid] j gs by auto
    then have k: "nat (is ! j) < n" by (simp add: nat_less_iff)
    have "(is ! j, gs ! j) \<in> set ?z" using j gs by (auto simp: set_zip)
    then have "map_of ?z (int (nat (is ! j))) = Some (gs ! j)" using d b(1) by simp
    then show ?thesis using p(2) p(3)[rule_format, OF k] b(1) k by simp
  qed
  moreover have "p ! k = None" if "k < length p" "int k \<notin> set is" for k
  proof -
    have "map_of ?z (int k) = None" using that(2) gs by (simp add: map_of_eq_None_iff flip: set_map)
    then show ?thesis using p(2) p(3)[rule_format, of k] that(1) by simp
  qed
  ultimately show ?thesis using p(1,2) by blast
qed

text \<open>The tensors a VJP operation expects: the saved inputs and outputs of the forward call, then
  the output gradients, each in the order its metadata lists them.\<close>

definition vjp_tensors :: "OperationMetadata \<Rightarrow> VjpMetadata \<Rightarrow> 'a list \<Rightarrow> 'a list \<Rightarrow> 'a list" where
  "vjp_tensors op v vals gradients =
     (let inputs = take (length (tensor_inputs op)) vals; outputs = drop (length (tensor_inputs op)) vals
      in map (\<lambda>i. inputs ! nat i) (saved_inputs v) @ map (\<lambda>i. outputs ! nat i) (saved_outputs v)
         @ map (\<lambda>i. gradients ! nat i) (output_cotangents v))"

text \<open>A backward pass hands the VJP operation exactly what it declares, and each returned
  gradient reaches the input it belongs to.\<close>

lemma vjp_call_matches:
  assumes val: "validate_vjp ops op = Inr ()" and v: "vjp op = Some v"
    and target: "target \<in> set ops" "om_operation_id target = vjp_operation_id v" "distinct (map om_operation_id ops)"
    and fwd: "vjp_forward op vals = Inr (saved, nondiff)" and lens: "length vals = length (tensor_inputs op) + length (tensor_outputs op)"
    and scalars: "length scalars = length (scalar_parameters op)"
      "\<And>i. i < length scalars \<Longrightarrow> coerced (scalar_parameters op ! i) (scalars ! i)"
    and plain: "\<And>s. s \<in> set (scalar_parameters op) \<union> set (scalar_parameters target) \<Longrightarrow> sp_enum_name s = None"
    and gradients: "length gradients = length (tensor_outputs op)"
    and ts: "ts = vjp_tensors op v vals gradients" and vs: "vs = map (\<lambda>i. scalars ! nat i) (vjp_scalar_parameters v)"
  shows "vjp_backward False op target scalars needs saved invoke gradients =
      ebind (invoke (om_name target) ts vs) (\<lambda>returned.
      if length returned \<noteq> length (input_gradients v)
      then Inl (RuntimeError ''VJP operation returned an invalid gradient count'')
      else
      ebind (place_gradients needs (zip (input_gradients v) returned) (replicate (length (tensor_inputs op)) None)) (\<lambda>grads.
      Inr (replicate 5 None @ grads @ replicate (length (tensor_outputs op)) None))) \<and>
    length ts = length (tensor_inputs target) \<and>
    bind_scalars target (map PTensor us @ map PValue vs) [] = Inr vs"
proof -
  obtain t where t: "t \<in> set ops" "om_operation_id t = vjp_operation_id v"
    "length (tensor_inputs t) = length (saved_inputs v) + length (saved_outputs v) + length (output_cotangents v)"
    "length (scalar_parameters t) = length (vjp_scalar_parameters v)"
    "\<forall>i < length (vjp_scalar_parameters v). sp_kind (scalar_parameters t ! i)
        = sp_kind (scalar_parameters op ! nat (vjp_scalar_parameters v ! i))"
    "\<not> invalid_indices (saved_inputs v) (length (tensor_inputs op))"
    "\<not> invalid_indices (saved_outputs v) (length (tensor_outputs op))"
    "\<not> invalid_indices (output_cotangents v) (length (tensor_outputs op))"
    "\<not> invalid_indices (vjp_scalar_parameters v) (length (scalar_parameters op))"
    using validate_vjp_Inr[OF val v] by metis
  have tt: "t = target"
    using t(1,2) target by (metis distinct_map inj_onD)
  let ?n = "length (tensor_inputs op)"
  have ins: "length (take ?n vals) = ?n" "length (drop ?n vals) = length (tensor_outputs op)" using lens by simp_all
  have si: "emap (py_index (take ?n vals)) (saved_inputs v) = Inr (map (\<lambda>i. take ?n vals ! nat i) (saved_inputs v))"
    and so: "emap (py_index (drop ?n vals)) (saved_outputs v) = Inr (map (\<lambda>i. drop ?n vals ! nat i) (saved_outputs v))"
    using valid_indices_pick[of _ "take ?n vals"] valid_indices_pick[of _ "drop ?n vals"] t(6,7) ins by auto
  have saved: "saved = map (\<lambda>i. take ?n vals ! nat i) (saved_inputs v) @ map (\<lambda>i. drop ?n vals ! nat i) (saved_outputs v)"
    using fwd ins(2) by (auto simp: vjp_forward_def v Let_def si so)
  let ?c = "map (\<lambda>i. gradients ! nat i) (output_cotangents v)"
  let ?s = "map (\<lambda>i. scalars ! nat i) (vjp_scalar_parameters v)"
  have c: "emap (py_index gradients) (output_cotangents v) = Inr ?c"
    using valid_indices_pick[of _ gradients] t(8) gradients by simp
  have s: "emap (py_index scalars) (vjp_scalar_parameters v) = Inr ?s"
    using valid_indices_pick[of _ scalars] t(9) scalars(1) by simp
  have "coerced (scalar_parameters target ! i) (?s ! i)" if i: "i < length (scalar_parameters target)" for i
  proof -
    let ?k = "nat (vjp_scalar_parameters v ! i)"
    have i': "i < length (vjp_scalar_parameters v)" using i t(4) tt by simp
    then have "0 \<le> vjp_scalar_parameters v ! i \<and> vjp_scalar_parameters v ! i < int (length scalars)"
      using valid_index_at[OF t(9)] scalars(1) by simp
    then have k: "?k < length scalars" by (simp add: nat_less_iff)
    have "coerced (scalar_parameters op ! ?k) (scalars ! ?k)" by (rule scalars(2)[OF k])
    moreover have "sp_enum_name (scalar_parameters op ! ?k) = None" "sp_enum_name (scalar_parameters target ! i) = None"
      using plain k i scalars(1) by auto
    moreover have "sp_kind (scalar_parameters target ! i) = sp_kind (scalar_parameters op ! ?k)"
      using t(5) i' tt by simp
    ultimately show ?thesis using i' by (simp add: coerced_def)
  qed
  then have "bind_loop (scalar_parameters target) (map PValue ?s) [] = Inr ?s"
    using t(4) tt by (intro bind_loop_exact) simp_all
  moreover have "filter (\<lambda>a. \<not> is_tensor a) (map PTensor us @ map PValue ?s) = map PValue ?s"
    by (auto simp: is_tensor_def filter_empty_conv intro!: filter_True)
  ultimately have "bind_scalars target (map PTensor us @ map PValue ?s) [] = Inr ?s"
    using t(4) tt by (simp add: bind_scalars_def)
  moreover have "length (saved @ ?c) = length (tensor_inputs target)" using saved t(3) tt by simp
  moreover have "ts = saved @ ?c" by (simp add: ts vjp_tensors_def saved Let_def)
  ultimately show ?thesis by (simp add: vs vjp_backward_def v c s)
qed

end
