(* ===== verification/Buffer_Pool.thy ===== *)
theory Buffer_Pool
  imports Buffer_Manager
begin

text \<open>
  The pooled mode of the buffer manager. \<open>pool_inv\<close> says that live allocations, cached
  regions and regions in the course of being released are all different and open, that
  every live handle is current, and that the cache respects its two limits. Every public
  operation preserves it.
\<close>

section \<open>The dictionary of free regions\<close>

definition flat :: "(int \<times> int list) list \<Rightarrow> (int \<times> int) list" where
  "flat fr = concat (map (\<lambda>(len, rs). map (\<lambda>r. (len, r)) rs) fr)"

lemma flat_simps [simp]:
  "flat [] = []" "flat ((len, rs) # fr) = map (\<lambda>r. (len, r)) rs @ flat fr"
  by (simp_all add: flat_def)

lemma length_flat: "length (flat fr) = sum_list (map (\<lambda>(_, rs). length rs) fr)"
  by (induction fr) auto

lemma update_keys: "distinct (map fst fr) \<Longrightarrow> distinct (map fst (AList.update k v fr))"
  by (simp add: distinct_update)

lemma mset_flat_update:
  "distinct (map fst fr) \<Longrightarrow> map_of fr k = Some rs \<Longrightarrow>
   mset (flat (AList.update k rs' fr)) + mset (map (\<lambda>r. (k, r)) rs)
   = mset (flat fr) + mset (map (\<lambda>r. (k, r)) rs')"
proof (induction fr)
  case (Cons p fr)
  then show ?case by (cases p) (auto split: if_splits)
qed simp

lemma mset_flat_update_new:
  "map_of fr k = None \<Longrightarrow>
   mset (flat (AList.update k rs' fr)) = mset (flat fr) + mset (map (\<lambda>r. (k, r)) rs')"
proof (induction fr)
  case (Cons p fr)
  then show ?case by (cases p) (auto split: if_splits)
qed simp

lemma delete_absent: "k \<notin> fst ` set fr \<Longrightarrow> AList.delete k fr = fr"
  by (induction fr) auto

lemma mset_flat_delete:
  "distinct (map fst fr) \<Longrightarrow> map_of fr k = Some rs \<Longrightarrow>
   mset (flat (AList.delete k fr)) + mset (map (\<lambda>r. (k, r)) rs) = mset (flat fr)"
proof (induction fr)
  case (Cons p fr)
  then show ?case by (cases p) (auto simp: delete_absent split: if_splits)
qed simp

lemma free_pop_Some:
  assumes "free_pop len fr = Some (rid, fr')" "distinct (map fst fr)"
  shows "mset (flat fr) = add_mset (len, rid) (mset (flat fr'))" "distinct (map fst fr')"
proof -
  obtain rs where rs: "map_of fr len = Some rs" "rs \<noteq> []" "rid = last rs"
    and fr': "fr' = (if butlast rs = [] then AList.delete len fr else AList.update len (butlast rs) fr)"
    using assms(1) by (auto simp: free_pop_def split: option.splits if_splits)
  have split: "mset (map (\<lambda>r. (len, r)) rs) = add_mset (len, rid) (mset (map (\<lambda>r. (len, r)) (butlast rs)))"
  proof -
    have "rs = butlast rs @ [rid]" using rs(2,3) by simp
    then have "mset (map (\<lambda>r. (len, r)) rs) = mset (map (\<lambda>r. (len, r)) (butlast rs @ [rid]))"
      by (rule arg_cong)
    then show ?thesis by simp
  qed
  show "mset (flat fr) = add_mset (len, rid) (mset (flat fr'))"
  proof (cases "butlast rs = []")
    case True
    then show ?thesis using mset_flat_delete[OF assms(2) rs(1)] split by (simp add: fr')
  next
    case False
    have "mset (flat fr) + mset (map (\<lambda>r. (len, r)) (butlast rs))
        = add_mset (len, rid) (mset (flat fr')) + mset (map (\<lambda>r. (len, r)) (butlast rs))"
      using mset_flat_update[OF assms(2) rs(1), of "butlast rs"] False unfolding split fr' by simp
    then show ?thesis by (rule add_right_imp_eq)
  qed
  show "distinct (map fst fr')"
    using assms(2) by (auto simp: fr' distinct_update distinct_delete)
qed

lemma free_push_flat:
  assumes "distinct (map fst fr)"
  shows "mset (flat (free_push len rid fr)) = add_mset (len, rid) (mset (flat fr))"
    "distinct (map fst (free_push len rid fr))"
proof -
  show "mset (flat (free_push len rid fr)) = add_mset (len, rid) (mset (flat fr))"
  proof (cases "map_of fr len")
    case None
    then show ?thesis by (simp add: free_push_def mset_flat_update_new)
  next
    case (Some rs)
    have "mset (flat (free_push len rid fr)) + mset (map (\<lambda>r. (len, r)) rs)
        = add_mset (len, rid) (mset (flat fr)) + mset (map (\<lambda>r. (len, r)) rs)"
      using mset_flat_update[OF assms Some, of "rs @ [rid]"] by (simp add: free_push_def Some)
    then show ?thesis by (rule add_right_imp_eq)
  qed
  show "distinct (map fst (free_push len rid fr))"
    using assms by (simp add: free_push_def distinct_update)
qed

section \<open>The invariant\<close>

definition live_region :: "Manager \<Rightarrow> int \<Rightarrow> bool" where
  "live_region m rid \<longleftrightarrow> (\<exists>g. regions m rid = Some g \<and> \<not> g_closed g)"

definition buffer_of :: "Manager \<Rightarrow> int \<Rightarrow> SharedBuffer" where
  "buffer_of m aid = al_buffer (the (active m aid))"

text \<open>A pooled handle: the whole of an open region, at its current generation.\<close>

definition pooled_handle :: "Manager \<Rightarrow> SharedBuffer \<Rightarrow> bool" where
  "pooled_handle m b \<longleftrightarrow> \<not> sb_arena b \<and> live_region m (sb_region b) \<and> sb_offset b = 0 \<and>
     sb_generation b = g_generation (region_of (sb_region b) m) \<and>
     sb_byte_length b = g_byte_length (region_of (sb_region b) m)"

definition live_regions :: "Manager \<Rightarrow> int list" where
  "live_regions m = map (\<lambda>aid. sb_region (buffer_of m aid)) (active_ids m)"

definition cached_regions :: "Manager \<Rightarrow> int list" where
  "cached_regions m = map snd (flat (free_regions m))"

text \<open>\<open>flight\<close> lists the regions taken from the live ones that are not yet released.\<close>

definition pool_inv_with :: "int list \<Rightarrow> Manager \<Rightarrow> bool" where
  "pool_inv_with flight m \<longleftrightarrow>
     \<not> arena_mode m \<and> arena_region m = None \<and>
     distinct (active_ids m) \<and> set (active_ids m) = dom (active m) \<and>
     (\<forall>aid \<in> set (active_ids m). pooled_handle m (buffer_of m aid) \<and>
        sb_allocation_id (buffer_of m aid) = aid) \<and>
     distinct (map fst (free_regions m)) \<and>
     (\<forall>(len, rid) \<in> set (flat (free_regions m)). live_region m rid \<and> g_byte_length (region_of rid m) = len) \<and>
     distinct (live_regions m @ cached_regions m @ flight) \<and>
     set flight \<subseteq> dom (regions m) \<and>
     (\<forall>rid \<in> dom (regions m). 0 < g_byte_length (region_of rid m)) \<and>
     cached_bytes m = sum_list (map fst (flat (free_regions m))) \<and>
     int (length (flat (free_regions m))) \<le> max_cached_buffers m \<and>
     cached_bytes m \<le> max_cached_bytes m"

definition pool_inv :: "Manager \<Rightarrow> bool" where
  "pool_inv m \<longleftrightarrow> pool_inv_with [] m"

lemma cached_count_flat: "cached_count m = int (length (flat (free_regions m)))"
  by (simp add: cached_count_def length_flat)

lemma inv_stats [simp]: "pool_inv_with f (m\<lparr>stats := x\<rparr>) = pool_inv_with f m"
  by (simp add: pool_inv_with_def pooled_handle_def live_region_def buffer_of_def live_regions_def
      cached_regions_def region_of_def)

lemma inv_released [simp]: "pool_inv_with f (m\<lparr>released := x\<rparr>) = pool_inv_with f m"
  by (simp add: pool_inv_with_def pooled_handle_def live_region_def buffer_of_def live_regions_def
      cached_regions_def region_of_def)

lemma inv_m_closed [simp]: "pool_inv_with f (m\<lparr>m_closed := x\<rparr>) = pool_inv_with f m"
  by (simp add: pool_inv_with_def pooled_handle_def live_region_def buffer_of_def live_regions_def
      cached_regions_def region_of_def)

lemma new_manager_pool_inv:
  "new_manager ''pooled'' arena n b = Inr m \<Longrightarrow> pool_inv m"
  by (auto simp: new_manager_def Let_def pool_inv_def pool_inv_with_def live_regions_def
      cached_regions_def split: if_splits)

lemma inv_drop_flight: "pool_inv_with (r # f) m \<Longrightarrow> pool_inv_with f m"
  by (auto simp: pool_inv_with_def)

lemma inv_forget: "pool_inv_with f m \<Longrightarrow> pool_inv m"
  by (auto simp: pool_inv_def pool_inv_with_def)

text \<open>Changing a region in flight changes nothing that the invariant reads of the others.\<close>

lemma inv_set_flight:
  assumes "pool_inv_with f m" "rid \<in> set f" "g_byte_length g = g_byte_length (region_of rid m)"
  shows "pool_inv_with f (set_region rid g m)"
proof -
  have rd: "rid \<in> dom (regions m)" using assms(1,2) by (auto simp: pool_inv_with_def)
  have live: "aid \<in> set (active_ids m) \<Longrightarrow> sb_region (buffer_of m aid) \<noteq> rid" for aid
  proof -
    have "set (live_regions m) \<inter> set f = {}" using assms(1) by (auto simp: pool_inv_with_def)
    then show "aid \<in> set (active_ids m) \<Longrightarrow> sb_region (buffer_of m aid) \<noteq> rid"
      using assms(2) by (auto simp: live_regions_def disjoint_iff)
  qed
  have cached: "(len, r) \<in> set (flat (free_regions m)) \<Longrightarrow> r \<noteq> rid" for len r
    using assms by (force simp: pool_inv_with_def cached_regions_def)
  show ?thesis
    using assms live cached rd
    by (auto simp: pool_inv_with_def set_region_def pooled_handle_def live_region_def region_of_def
        buffer_of_def live_regions_def cached_regions_def split: prod.splits)
qed

lemma inv_close_flight:
  "pool_inv_with f m \<Longrightarrow> rid \<in> set f \<Longrightarrow> pool_inv_with f (region_close rid m)"
  by (simp add: region_close_def inv_set_flight)

text \<open>An open region in flight may join the cache when the limits allow it.\<close>

lemma inv_cache_flight:
  assumes inv: "pool_inv_with (rid # f) m" and live: "live_region m rid"
    and len: "len = g_byte_length (region_of rid m)"
    and room: "\<not> cached_count m \<ge> max_cached_buffers m" "\<not> cached_bytes m + len > max_cached_bytes m"
  shows "pool_inv_with f (m\<lparr>free_regions := free_push len rid (free_regions m),
                            cached_bytes := cached_bytes m + len\<rparr>)"
proof -
  let ?fr = "free_push len rid (free_regions m)"
  have d: "distinct (map fst (free_regions m))" using inv by (simp add: pool_inv_with_def)
  note p = free_push_flat[OF d, of len rid]
  have s: "set (flat ?fr) = insert (len, rid) (set (flat (free_regions m)))"
    using arg_cong[OF p(1), of set_mset] by simp
  have l: "length (flat ?fr) = Suc (length (flat (free_regions m)))"
    using arg_cong[OF p(1), of size] by simp
  have sum: "sum_list (map fst (flat ?fr)) = sum_list (map fst (flat (free_regions m))) + len"
  proof -
    have "sum_mset (image_mset fst (mset (flat ?fr))) = len + sum_mset (image_mset fst (mset (flat (free_regions m))))"
      by (simp add: p(1))
    then show ?thesis by (simp add: sum_mset_sum_list flip: mset_map)
  qed
  have "distinct (map snd (flat ?fr)) \<longleftrightarrow> distinct (rid # map snd (flat (free_regions m)))"
  proof -
    have "mset (map snd (flat ?fr)) = mset (rid # map snd (flat (free_regions m)))"
      using arg_cong[OF p(1), of "image_mset snd"] by simp
    then show ?thesis by (metis mset_eq_imp_distinct_iff)
  qed
  then have "distinct (live_regions m @ map snd (flat ?fr) @ f)"
    using inv s by (auto simp: pool_inv_with_def cached_regions_def)
  then show ?thesis
    using inv live len room s l sum p(2)
    by (auto simp: pool_inv_with_def cached_count_flat pooled_handle_def live_region_def region_of_def
        buffer_of_def live_regions_def cached_regions_def)
qed

section \<open>Releasing regions\<close>

lemma inv_flight_perm: "mset f = mset f' \<Longrightarrow> pool_inv_with f m \<Longrightarrow> pool_inv_with f' m"
proof -
  assume f: "mset f = mset f'" and inv: "pool_inv_with f m"
  have "set f = set f'" "distinct f = distinct f'"
    using f by (auto dest: mset_eq_setD mset_eq_imp_distinct_iff)
  with inv show ?thesis by (simp add: pool_inv_with_def)
qed

lemma bump_run [st_simps]: "bump f m = (Inr (), m\<lparr>stats := f (stats m)\<rparr>)"
  by (simp add: bump_def st_simps)

lemma region_reset_run:
  "region_reset reset_ok rid m =
   (let g = region_of rid m in
    if g_closed g then (Inl (RuntimeError ''Shared buffer is closed''), m)
    else if g_generation g = 0xFFFFFFFF
    then (Inl (OverflowError ''Shared buffer generation is exhausted''), m)
    else if \<not> reset_ok rid then (Inl (OSError ''ftruncate''), m)
    else (Inr (), set_region rid (g\<lparr>g_generation := g_generation g + 1, g_recipients := []\<rparr>) m))"
  by (simp add: region_reset_def st_run bump_run Let_def)

lemma cached_count_stats [simp]: "cached_count (m\<lparr>stats := x\<rparr>) = cached_count m"
  by (simp add: cached_count_def)

lemma region_of_stats [simp]: "region_of rid (m\<lparr>stats := x\<rparr>) = region_of rid m"
  by (simp add: region_of_def)

lemma inv_close_drop: "pool_inv_with (rid # f) m \<Longrightarrow> pool_inv_with f (region_close rid m)"
  using inv_drop_flight[OF inv_close_flight[of "rid # f" m rid]] by simp

lemma cache_or_evict_inv:
  assumes "cache_or_evict rid m = (r, m')" "pool_inv_with (rid # f) m" "live_region m rid"
  shows "pool_inv_with f m'"
proof -
  define m1 where "m1 = m\<lparr>stats := (stats m)\<lparr>buffers_reset := buffers_reset (stats m) + 1\<rparr>\<rparr>"
  have i1: "pool_inv_with (rid # f) m1" "live_region m1 rid"
    using assms(2,3) by (simp_all add: m1_def live_region_def)
  let ?len = "g_byte_length (region_of rid m1)"
  have run: "cache_or_evict rid m =
      (if m_closed m1 \<or> cached_count m1 \<ge> max_cached_buffers m1 \<or> cached_bytes m1 + ?len > max_cached_bytes m1
       then sbind (smod (region_close rid)) (\<lambda>_. if \<not> m_closed m1
              then bump (\<lambda>s. s\<lparr>buffers_evicted := buffers_evicted s + 1\<rparr>) else sret ()) m1
       else sbind (smod (\<lambda>m. m\<lparr>free_regions := free_push ?len rid (free_regions m),
                       cached_bytes := cached_bytes m + ?len\<rparr>)) (\<lambda>_.
            bump (\<lambda>s. s\<lparr>buffers_cached := buffers_cached s + 1\<rparr>)) m1)"
    by (simp only: cache_or_evict_def sbind_run sget_run bump_run Let_def sum.case prod.case
        m1_def[symmetric] if_run)
  show ?thesis
  proof (cases "m_closed m1 \<or> cached_count m1 \<ge> max_cached_buffers m1 \<or> cached_bytes m1 + ?len > max_cached_bytes m1")
    case True
    then show ?thesis
      using assms(1) run inv_close_drop[OF i1(1)] by (auto simp: st_run bump_run split: if_splits)
  next
    case False
    then show ?thesis
      using assms(1) run inv_cache_flight[OF i1 refl] by (auto simp: st_run bump_run)
  qed
qed

lemma reset_or_release_inv:
  assumes "reset_or_release_region reset_ok rid m = (r, m')" "pool_inv_with (rid # f) m"
  shows "pool_inv_with f m'"
proof -
  let ?g = "(region_of rid m)\<lparr>g_generation := g_generation (region_of rid m) + 1, g_recipients := []\<rparr>"
  consider (quiet) "m' = region_close rid m"
    | (fresh) "cache_or_evict rid (set_region rid ?g m) = (r, m')" "\<not> g_closed (region_of rid m)"
    using assms(1)
    by (auto simp: reset_or_release_region_def st_run region_reset_run Let_def split: if_splits)
  then show ?thesis
  proof cases
    case quiet
    then show ?thesis using inv_close_drop[OF assms(2)] by simp
  next
    case fresh
    have "live_region (set_region rid ?g m) rid"
      using fresh(2) by (simp add: live_region_def set_region_def)
    then show ?thesis
      using cache_or_evict_inv[OF fresh(1)] inv_set_flight[OF assms(2), of rid ?g] by simp
  qed
qed

lemma release_each_inv:
  "sall (\<lambda>b. if sb_region b \<in> set failed
             then sbind (smod (region_close (sb_region b))) (\<lambda>_.
                  bump (\<lambda>s. s\<lparr>buffers_quarantined := buffers_quarantined s + 1\<rparr>))
             else reset_or_release_region reset_ok (sb_region b)) bs m = (r, m') \<Longrightarrow>
   pool_inv_with (map sb_region bs) m \<Longrightarrow> pool_inv m'"
proof (induction bs arbitrary: m)
  case Nil
  then show ?case by (simp add: st_simps pool_inv_def)
next
  case (Cons b bs)
  let ?step = "\<lambda>b. if sb_region b \<in> set failed
             then sbind (smod (region_close (sb_region b))) (\<lambda>_.
                  bump (\<lambda>s. s\<lparr>buffers_quarantined := buffers_quarantined s + 1\<rparr>))
             else reset_or_release_region reset_ok (sb_region b)"
  obtain r1 m1 where one: "?step b m = (r1, m1)" by force
  have inv: "pool_inv_with (sb_region b # map sb_region bs) m" using Cons.prems(2) by simp
  have i1: "pool_inv_with (map sb_region bs) m1"
  proof (cases "sb_region b \<in> set failed")
    case True
    then have "m1 = (region_close (sb_region b) m)\<lparr>stats := (stats (region_close (sb_region b) m))
        \<lparr>buffers_quarantined := buffers_quarantined (stats (region_close (sb_region b) m)) + 1\<rparr>\<rparr>"
      using one by (simp add: st_run bump_run)
    then show ?thesis
      using inv_drop_flight[OF inv_close_flight[OF inv, of "sb_region b"]] by simp
  next
    case False
    then show ?thesis using one reset_or_release_inv[OF _ inv] by simp
  qed
  show ?case
  proof (cases r1)
    case (Inl e)
    then have "m' = m1" using Cons.prems(1) one by (simp add: sbind_run)
    then show ?thesis using inv_forget[OF i1] by simp
  next
    case (Inr u)
    then have "sall ?step bs m1 = (r, m')" using Cons.prems(1) one by (simp add: sbind_run)
    then show ?thesis using Cons.IH i1 by blast
  qed
qed

lemma release_pooled_many_inv:
  assumes "release_pooled_many retire reset_ok bs m = (r, m')" "pool_inv_with (map sb_region bs) m"
  shows "pool_inv m'"
  using assms unfolding release_pooled_many_def
  by (simp only: sbind_run sget_run bump_run Let_def sum.case prod.case)
     (erule release_each_inv, simp)

section \<open>Draining the released allocations\<close>

lemma inv_handle:
  "pool_inv_with f m \<Longrightarrow> active m aid = Some a \<Longrightarrow>
   aid \<in> set (active_ids m) \<and> pooled_handle m (al_buffer a) \<and> sb_allocation_id (al_buffer a) = aid"
  unfolding pool_inv_with_def buffer_of_def by (metis domI option.sel)

lemma inv_drop_active:
  assumes inv: "pool_inv_with f m" and a: "active m aid = Some a"
  shows "pool_inv_with (sb_region (al_buffer a) # f) (drop_active aid m)"
proof -
  have aid: "aid \<in> set (active_ids m)" and d: "distinct (active_ids m)"
    using inv a by (auto simp: pool_inv_with_def)
  let ?ids = "remove1 aid (active_ids m)" and ?m = "drop_active aid m"
  have ids: "set ?ids = set (active_ids m) - {aid}" "distinct ?ids"
    using d by (auto simp: set_remove1_eq)
  have buf: "buffer_of ?m i = buffer_of m i" if "i \<in> set ?ids" for i
    using that ids by (auto simp: buffer_of_def drop_active_def)
  have ba: "buffer_of m aid = al_buffer a" by (simp add: buffer_of_def a)
  have "mset (live_regions m) = add_mset (sb_region (al_buffer a)) (mset (map (\<lambda>i. sb_region (buffer_of m i)) ?ids))"
  proof -
    have "mset (active_ids m) = add_mset aid (mset ?ids)" using aid by simp
    then have "image_mset (\<lambda>i. sb_region (buffer_of m i)) (mset (active_ids m))
        = image_mset (\<lambda>i. sb_region (buffer_of m i)) (add_mset aid (mset ?ids))" by simp
    then show ?thesis by (simp add: live_regions_def ba)
  qed
  moreover have "map (\<lambda>i. sb_region (buffer_of m i)) ?ids = live_regions ?m"
    using buf by (simp add: live_regions_def drop_active_def buffer_of_def)
  ultimately have "mset (live_regions m @ cached_regions m @ f)
      = mset (live_regions ?m @ cached_regions ?m @ sb_region (al_buffer a) # f)"
    by (simp add: cached_regions_def drop_active_def)
  then have dis: "distinct (live_regions ?m @ cached_regions ?m @ sb_region (al_buffer a) # f)"
    using inv unfolding pool_inv_with_def by (metis mset_eq_imp_distinct_iff)
  have reg: "sb_region (al_buffer a) \<in> dom (regions m)"
    using inv_handle[OF inv a] by (auto simp: pooled_handle_def live_region_def)
  have "pooled_handle ?m (buffer_of ?m i) \<and> sb_allocation_id (buffer_of ?m i) = i" if "i \<in> set ?ids" for i
    using inv that ids buf[OF that]
    by (auto simp: pool_inv_with_def pooled_handle_def live_region_def region_of_def drop_active_def)
  then show ?thesis
    using inv ids dis reg
    by (auto simp: pool_inv_with_def drop_active_def live_region_def region_of_def split: prod.splits)
qed

lemma drain_inv:
  "drain ids m = (pooled, n, m') \<Longrightarrow> pool_inv_with f m \<Longrightarrow>
   pool_inv_with (map sb_region pooled @ f) m' \<and> n = 0"
proof (induction ids arbitrary: m pooled n f)
  case (Cons aid ids)
  show ?case
  proof (cases "active m aid")
    case None
    then show ?thesis using Cons by simp
  next
    case (Some a)
    have "\<not> sb_arena (al_buffer a)"
      using inv_handle[OF Cons.prems(2) Some] by (simp add: pooled_handle_def)
    then obtain p where p: "drain ids (drop_active aid m) = (p, n, m')" "pooled = al_buffer a # p"
      using Cons.prems(1) Some by (auto simp: Let_def split: prod.splits)
    have "pool_inv_with (map sb_region p @ sb_region (al_buffer a) # f) m' \<and> n = 0"
      using Cons.IH[OF p(1)] inv_drop_active[OF Cons.prems(2) Some] by blast
    then show ?thesis
      using p(2) inv_flight_perm[of "map sb_region p @ sb_region (al_buffer a) # f" "map sb_region pooled @ f" m']
      by simp
  qed
qed simp

lemma collect_inv: "collect retire reset_ok src m = (r, m') \<Longrightarrow> pool_inv m \<Longrightarrow> pool_inv m'"
proof -
  assume c: "collect retire reset_ok src m = (r, m')" and inv: "pool_inv m"
  obtain pooled n m1 where d: "drain (released m) (m\<lparr>released := []\<rparr>) = (pooled, n, m1)"
    by (metis prod_cases3)
  obtain r2 m2 where rp: "release_pooled_many retire reset_ok pooled m1 = (r2, m2)" by force
  have "pool_inv_with (map sb_region pooled) m1"
    using drain_inv[OF d, of "[]"] inv by (simp add: pool_inv_def)
  then have "pool_inv m2" by (rule release_pooled_many_inv[OF rp])
  then show "pool_inv m'" using c by (auto simp: collect_def d rp Let_def pool_inv_def)
qed

section \<open>Allocating\<close>

lemma fresh_id_Some: "fresh_id used rs = Some r \<Longrightarrow> r \<noteq> 0 \<and> \<not> used r"
  by (induction used rs rule: fresh_id.induct) (auto split: if_splits)

lemma new_region_run:
  "new_region random len m =
   (case fresh_id (\<lambda>i. regions m i \<noteq> None) random of
      None \<Rightarrow> (Inl OutsideModel, m)
    | Some rid \<Rightarrow> (Inr rid, set_region rid \<lparr>g_generation = 1, g_byte_length = len, g_recipients = [],
          g_closed = False\<rparr> (m\<lparr>stats := (stats m)\<lparr>memfds_created := memfds_created (stats m) + 1\<rparr>\<rparr>)))"
  by (auto simp: new_region_def st_run bump_run split: option.split)

lemma inv_live: "pool_inv_with f m \<Longrightarrow> aid \<in> set (active_ids m) \<Longrightarrow> pooled_handle m (buffer_of m aid)"
  and inv_cached: "pool_inv_with f m \<Longrightarrow> (len, rid) \<in> set (flat (free_regions m)) \<Longrightarrow>
    live_region m rid \<and> g_byte_length (region_of rid m) = len"
  unfolding pool_inv_with_def by blast+

lemma inv_pos: "pool_inv_with f m \<Longrightarrow> live_region m rid \<Longrightarrow> 0 < g_byte_length (region_of rid m)"
  unfolding pool_inv_with_def live_region_def by (metis domI)

lemma inv_new_region:
  assumes "pool_inv m" "regions m rid = None" "\<not> g_closed g" "0 < g_byte_length g"
  shows "pool_inv_with [rid] (set_region rid g m)"
proof -
  have inv: "pool_inv_with [] m" using assms(1) by (simp add: pool_inv_def)
  have live: "i \<in> set (active_ids m) \<Longrightarrow> sb_region (buffer_of m i) \<noteq> rid" for i
    using inv_live[OF inv, of i] assms(2) by (auto simp: pooled_handle_def live_region_def)
  have cached: "(len, r) \<in> set (flat (free_regions m)) \<Longrightarrow> r \<noteq> rid" for len r
    using inv_cached[OF inv, of len r] assms(2) by (auto simp: live_region_def)
  have "rid \<notin> set (live_regions m)" "rid \<notin> set (cached_regions m)"
    using live cached by (auto simp: live_regions_def) (fastforce simp: cached_regions_def)
  then show ?thesis
    using inv live cached assms(3,4)
    by (auto simp: pool_inv_with_def set_region_def pooled_handle_def live_region_def region_of_def
        buffer_of_def live_regions_def cached_regions_def split: prod.splits)
qed

lemma inv_uncache:
  assumes inv: "pool_inv m" and pop: "free_pop len (free_regions m) = Some (rid, fr)"
  shows "pool_inv_with [rid] (m\<lparr>free_regions := fr, cached_bytes := cached_bytes m - len\<rparr>)"
    "live_region m rid" "g_byte_length (region_of rid m) = len"
proof -
  have inv': "pool_inv_with [] m" and d: "distinct (map fst (free_regions m))"
    using inv by (simp_all add: pool_inv_def pool_inv_with_def)
  note p = free_pop_Some[OF pop d]
  have s: "set (flat (free_regions m)) = insert (len, rid) (set (flat fr))"
    using arg_cong[OF p(1), of set_mset] by simp
  have l: "length (flat (free_regions m)) = Suc (length (flat fr))"
    using arg_cong[OF p(1), of size] by simp
  have sum: "sum_list (map fst (flat (free_regions m))) = len + sum_list (map fst (flat fr))"
  proof -
    have "sum_mset (image_mset fst (mset (flat (free_regions m)))) = len + sum_mset (image_mset fst (mset (flat fr)))"
      by (simp add: p(1))
    then show ?thesis by (simp add: sum_mset_sum_list flip: mset_map)
  qed
  show live: "live_region m rid" "g_byte_length (region_of rid m) = len"
    using inv_cached[OF inv'] s by auto
  have pos: "0 < len"
    using inv' live by (auto simp: pool_inv_with_def live_region_def)
  have "mset (map snd (flat (free_regions m))) = mset (rid # map snd (flat fr))"
    using arg_cong[OF p(1), of "image_mset snd"] by simp
  then have "mset (live_regions m @ cached_regions m @ []) = mset (live_regions m @ map snd (flat fr) @ [rid])"
    by (simp add: cached_regions_def)
  moreover have "distinct (live_regions m @ cached_regions m @ [])"
    using inv' by (simp add: pool_inv_with_def)
  ultimately have dis: "distinct (live_regions m @ map snd (flat fr) @ [rid])"
    by (metis mset_eq_imp_distinct_iff)
  define m1 where "m1 = m\<lparr>free_regions := fr, cached_bytes := cached_bytes m - len\<rparr>"
  have same: "pooled_handle m1 = pooled_handle m" "live_region m1 = live_region m"
    "live_regions m1 = live_regions m" "cached_regions m1 = map snd (flat fr)"
    "region_of r m1 = region_of r m" "buffer_of m1 = buffer_of m" "regions m1 = regions m"
    "active m1 = active m" "active_ids m1 = active_ids m" "arena_mode m1 = arena_mode m"
    "arena_region m1 = arena_region m" "free_regions m1 = fr" "cached_bytes m1 = cached_bytes m - len"
    "max_cached_buffers m1 = max_cached_buffers m" "max_cached_bytes m1 = max_cached_bytes m" for r
    by (simp_all add: m1_def fun_eq_iff pooled_handle_def live_region_def region_of_def live_regions_def
        buffer_of_def cached_regions_def)
  have "rid \<in> dom (regions m)" using live by (auto simp: live_region_def)
  moreover have "(l', r') \<in> set (flat fr) \<Longrightarrow> live_region m r' \<and> g_byte_length (region_of r' m) = l'" for l' r'
    using inv_cached[OF inv', of l' r'] s by simp
  ultimately have "pool_inv_with [rid] m1"
    using inv' l sum dis p(2) pos inv_live[OF inv']
    unfolding pool_inv_with_def same by auto
  then show "pool_inv_with [rid] (m\<lparr>free_regions := fr, cached_bytes := cached_bytes m - len\<rparr>)"
    by (simp only: m1_def)
qed

text \<open>A successful pooled allocation hands out a whole open region that nobody else holds.\<close>

lemma allocate_pooled_run:
  "allocate_pooled random len aid m =
   (case free_pop len (free_regions m) of
      Some (rid, fr) \<Rightarrow>
        let m1 = m\<lparr>free_regions := fr, cached_bytes := cached_bytes m - len,
                   stats := (stats m)\<lparr>pool_hits := pool_hits (stats m) + 1\<rparr>\<rparr>
        in (Inr \<lparr>sb_region = rid, sb_generation = g_generation (region_of rid m1),
                 sb_allocation_id = aid, sb_offset = 0, sb_byte_length = len, sb_arena = False\<rparr>, m1)
    | None \<Rightarrow>
        (case new_region random len m of
           (Inl e, m1) \<Rightarrow> (Inl e, m1)
         | (Inr rid, m1) \<Rightarrow>
             let m2 = m1\<lparr>stats := (stats m1)\<lparr>pool_misses := pool_misses (stats m1) + 1\<rparr>\<rparr>
             in (Inr \<lparr>sb_region = rid, sb_generation = g_generation (region_of rid m2),
                      sb_allocation_id = aid, sb_offset = 0, sb_byte_length = len, sb_arena = False\<rparr>, m2)))"
  by (auto simp: allocate_pooled_def st_run bump_run Let_def split: option.splits sum.splits prod.splits)

lemma allocate_pooled_inv:
  assumes "pool_inv m" "0 < len"
  shows "allocate_pooled random len aid m = (Inl e, m') \<Longrightarrow> pool_inv m'"
    "allocate_pooled random len aid m = (Inr b, m') \<Longrightarrow>
     pool_inv_with [sb_region b] m' \<and> pooled_handle m' b \<and> sb_allocation_id b = aid \<and>
     sb_byte_length b = len \<and> active m' = active m \<and> active_ids m' = active_ids m \<and>
     arena_mode m' = arena_mode m \<and> m_closed m' = m_closed m"
proof -
  show "allocate_pooled random len aid m = (Inl e, m') \<Longrightarrow> pool_inv m'"
    using assms by (auto simp: allocate_pooled_run new_region_run Let_def split: option.splits)
  assume a: "allocate_pooled random len aid m = (Inr b, m')"
  show "pool_inv_with [sb_region b] m' \<and> pooled_handle m' b \<and> sb_allocation_id b = aid \<and>
     sb_byte_length b = len \<and> active m' = active m \<and> active_ids m' = active_ids m \<and>
     arena_mode m' = arena_mode m \<and> m_closed m' = m_closed m"
  proof (cases "free_pop len (free_regions m)")
    case (Some p)
    obtain rid fr where p: "p = (rid, fr)" by force
    note u = inv_uncache[OF assms(1) Some[unfolded p]]
    let ?m1 = "m\<lparr>free_regions := fr, cached_bytes := cached_bytes m - len,
                 stats := (stats m)\<lparr>pool_hits := pool_hits (stats m) + 1\<rparr>\<rparr>"
    have "pool_inv_with [rid] (m\<lparr>free_regions := fr, cached_bytes := cached_bytes m - len\<rparr>
        \<lparr>stats := (stats m)\<lparr>pool_hits := pool_hits (stats m) + 1\<rparr>\<rparr>)"
      using u(1) by (simp only: inv_stats)
    then have "pool_inv_with [rid] ?m1" by simp
    moreover have "live_region ?m1 rid" "region_of rid ?m1 = region_of rid m"
      using u(2) by (simp_all add: live_region_def region_of_def)
    ultimately show ?thesis
      using a u(3) by (auto simp: allocate_pooled_run Some p Let_def pooled_handle_def)
  next
    case None
    obtain rid where rid: "fresh_id (\<lambda>i. regions m i \<noteq> None) random = Some rid"
      using a by (auto simp: allocate_pooled_run None new_region_run Let_def split: option.splits)
    let ?g = "\<lparr>g_generation = 1, g_byte_length = len, g_recipients = [], g_closed = False\<rparr>"
    let ?m1 = "set_region rid ?g m"
    have fresh: "regions m rid = None" using fresh_id_Some[OF rid] by simp
    have "pool_inv_with [rid] ?m1"
      using inv_new_region[OF assms(1) fresh, of ?g] assms(2) by simp
    moreover have "m' = ?m1\<lparr>stats := stats m'\<rparr>"
      using a rid by (auto simp: allocate_pooled_run None new_region_run Let_def set_region_def)
    ultimately have "pool_inv_with [rid] m'" by (metis inv_stats)
    then show ?thesis
      using a rid by (auto simp: allocate_pooled_run None new_region_run Let_def set_region_def
          pooled_handle_def live_region_def region_of_def)
  qed
qed

text \<open>Registering the allocation takes its region out of flight.\<close>

lemma inv_register:
  assumes inv: "pool_inv_with [sb_region b] m" and b: "pooled_handle m b" "sb_allocation_id b = aid"
    and new: "active m aid = None"
  shows "pool_inv (m\<lparr>active := (active m)(aid \<mapsto> \<lparr>al_buffer = b, al_descriptor = d, al_alive = True\<rparr>),
                    active_ids := aid # active_ids m\<rparr>)"
proof -
  let ?m = "m\<lparr>active := (active m)(aid \<mapsto> \<lparr>al_buffer = b, al_descriptor = d, al_alive = True\<rparr>),
                    active_ids := aid # active_ids m\<rparr>"
  have aid: "aid \<notin> set (active_ids m)" using inv new by (auto simp: pool_inv_with_def)
  have buf: "buffer_of ?m i = (if i = aid then b else buffer_of m i)" for i
    by (simp add: buffer_of_def)
  have lr: "live_regions ?m = sb_region b # live_regions m"
    using aid by (simp add: live_regions_def buf)
  have same: "pooled_handle ?m = pooled_handle m" "live_region ?m = live_region m"
    "cached_regions ?m = cached_regions m" "region_of r ?m = region_of r m" for r
    by (simp_all add: fun_eq_iff pooled_handle_def live_region_def region_of_def cached_regions_def)
  have "distinct (live_regions m @ cached_regions m @ [sb_region b])"
    using inv by (simp add: pool_inv_with_def)
  then have "distinct (live_regions ?m @ cached_regions ?m @ [])" by (auto simp: lr same)
  then show ?thesis
    using inv b aid inv_live[OF inv]
    by (auto simp: pool_inv_def pool_inv_with_def same buf)
qed

section \<open>The public operations\<close>

lemma map_of_ITEM_SIZES_pos: "map_of ITEM_SIZES dtype = Some n \<Longrightarrow> 0 < n"
  by (auto simp: ITEM_SIZES_def split: if_splits)

lemma prod_list_pos: "\<not> list_ex (\<lambda>d. d \<le> 0) shape \<Longrightarrow> 0 < prod_list (shape :: int list)"
  by (induction shape) auto

lemma ensure_current_run:
  "ensure_current b m =
   (if sb_generation b \<noteq> g_generation (region_of (sb_region b) m)
    then Inl (RuntimeError ''Shared buffer handle refers to a stale generation'') else Inr (), m)"
  by (simp add: ensure_current_def st_run)

text \<open>How \<open>empty\<close> proceeds once its arguments are accepted.\<close>

lemma empty_tensor_run:
  assumes "map_of ITEM_SIZES dtype = Some item_size" "shape \<noteq> []" "\<not> list_ex (\<lambda>d. d \<le> 0) shape"
    and c: "collect retire reset_ok FromAllocation m = (r1, m1)"
  defines "len \<equiv> element_count shape * item_size"
    and "m2 \<equiv> m1\<lparr>stats := (stats m1)\<lparr>allocation_requests := allocation_requests (stats m1) + 1\<rparr>\<rparr>"
  shows "empty_tensor retire reset_ok ids random shape dtype m =
   (case r1 of Inl e \<Rightarrow> (Inl e, m1) | Inr _ \<Rightarrow>
    if m_closed m1 then (Inl (RuntimeError ''Buffer manager is closed''), m1)
    else case fresh_id (\<lambda>i. active m1 i \<noteq> None) ids of
      None \<Rightarrow> (Inl OutsideModel, m2)
    | Some aid \<Rightarrow>
      (case (if arena_mode m1 then allocate_arena random len aid else allocate_pooled random len aid) m2 of
         (Inl e, m3) \<Rightarrow> (Inl e, m3)
       | (Inr b, m3) \<Rightarrow>
           if sb_generation b \<noteq> g_generation (region_of (sb_region b) m3)
           then (Inl (RuntimeError ''Shared buffer handle refers to a stale generation''), m3)
           else
           let d = \<lparr>d_buffer_id = sb_region b, d_generation = sb_generation b, d_allocation_id = aid,
                    d_offset = sb_offset b, d_byte_length = len, d_dtype = dtype, d_shape = shape,
                    d_strides = map (\<lambda>s. s * item_size) (contiguous_strides shape)\<rparr>
           in (Inr (b, d), m3\<lparr>active := (active m3)(aid \<mapsto> \<lparr>al_buffer = b, al_descriptor = d, al_alive = True\<rparr>),
                              active_ids := aid # active_ids m3\<rparr>)))"
  using assms(1-3)
  by (simp add: empty_tensor_def sbind_run c st_simps bump_run ensure_current_run len_def[symmetric]
      m2_def[symmetric] Let_def split: sum.split option.split prod.split if_split)

lemma empty_tensor_inv:
  assumes e: "empty_tensor retire reset_ok ids random shape dtype m = (r, m')" and inv: "pool_inv m"
  shows "pool_inv m'"
proof (cases "map_of ITEM_SIZES dtype = None \<or> shape = [] \<or> list_ex (\<lambda>d. d \<le> 0) shape")
  case True
  then have "m' = m" using e by (auto simp: empty_tensor_def st_simps split: option.splits if_splits)
  then show ?thesis using inv by simp
next
  case False
  then obtain item_size where ok: "map_of ITEM_SIZES dtype = Some item_size" "shape \<noteq> []"
      "\<not> list_ex (\<lambda>d. d \<le> 0) shape" by auto
  obtain r1 m1 where c: "collect retire reset_ok FromAllocation m = (r1, m1)" by force
  have i1: "pool_inv m1" by (rule collect_inv[OF c inv])
  define m2 where "m2 = m1\<lparr>stats := (stats m1)\<lparr>allocation_requests := allocation_requests (stats m1) + 1\<rparr>\<rparr>"
  have i2: "pool_inv m2" using i1 by (simp add: m2_def pool_inv_def)
  have mode: "\<not> arena_mode m1" using i1 by (simp add: pool_inv_def pool_inv_with_def)
  let ?len = "element_count shape * item_size"
  have pos: "0 < ?len"
    using map_of_ITEM_SIZES_pos[OF ok(1)] prod_list_pos[OF ok(3)] by (simp add: element_count_eq)
  note run = empty_tensor_run[OF ok c, of ids random, folded m2_def]
  show ?thesis
  proof (cases "fresh_id (\<lambda>i. active m1 i \<noteq> None) ids")
    case None
    then show ?thesis using e i1 i2 unfolding run by (auto split: sum.splits if_splits)
  next
    case (Some aid)
    obtain r3 m3 where a: "allocate_pooled random ?len aid m2 = (r3, m3)" by force
    have new: "active m2 aid = None" using fresh_id_Some[OF Some] by (simp add: m2_def)
    show ?thesis
    proof (cases r3)
      case (Inl x)
      then have "pool_inv m3" using allocate_pooled_inv(1)[OF i2 pos] a by blast
      then show ?thesis using e i1 mode Some a Inl unfolding run by (auto split: sum.splits if_splits)
    next
      case (Inr b)
      note A = allocate_pooled_inv(2)[OF i2 pos a[unfolded Inr]]
      have "active m3 aid = None" using A new by simp
      then have "pool_inv (m3\<lparr>active := (active m3)(aid \<mapsto> \<lparr>al_buffer = b, al_descriptor = d, al_alive = True\<rparr>),
                    active_ids := aid # active_ids m3\<rparr>)" for d
        using A by (intro inv_register) auto
      moreover have "pool_inv m3" using A inv_forget by blast
      ultimately show ?thesis
        using e i1 mode Some a Inr unfolding run by (auto simp: Let_def split: sum.splits if_splits)
    qed
  qed
qed

lemma register_recipient_inv:
  "register_recipient rec b m = (r, m') \<Longrightarrow> pool_inv m \<Longrightarrow> live_region m (sb_region b) \<Longrightarrow> pool_inv m'"
proof -
  assume run: "register_recipient rec b m = (r, m')" and inv: "pool_inv m" and l: "live_region m (sb_region b)"
  have inv': "pool_inv_with [] m" using inv by (simp add: pool_inv_def)
  have keep: "pool_inv (set_region (sb_region b) (region_of (sb_region b) m\<lparr>g_recipients := rs\<rparr>) m)" for rs
  proof -
    define m1 where "m1 = set_region (sb_region b) (region_of (sb_region b) m\<lparr>g_recipients := rs\<rparr>) m"
    have lr: "live_region m1 = live_region m"
      using l by (auto simp: fun_eq_iff live_region_def m1_def set_region_def region_of_def)
    have gr: "g_generation (region_of x m1) = g_generation (region_of x m)"
      "g_byte_length (region_of x m1) = g_byte_length (region_of x m)" for x
      by (simp_all add: region_of_def m1_def set_region_def)
    have fields: "buffer_of m1 = buffer_of m" "live_regions m1 = live_regions m"
      "cached_regions m1 = cached_regions m" "active m1 = active m" "active_ids m1 = active_ids m"
      "arena_mode m1 = arena_mode m" "arena_region m1 = arena_region m" "free_regions m1 = free_regions m"
      "cached_bytes m1 = cached_bytes m" "max_cached_buffers m1 = max_cached_buffers m"
      "max_cached_bytes m1 = max_cached_bytes m"
      by (simp_all add: m1_def set_region_def live_regions_def cached_regions_def buffer_of_def fun_eq_iff)
    have dom: "dom (regions m1) = dom (regions m)"
      using l by (auto simp: live_region_def m1_def set_region_def)
    have ph: "pooled_handle m1 = pooled_handle m"
      by (simp add: fun_eq_iff pooled_handle_def lr gr)
    have "pool_inv_with [] m1 = pool_inv_with [] m"
      by (simp only: pool_inv_with_def fields dom ph lr gr)
    then have "pool_inv m1" using inv' by (simp add: pool_inv_def)
    then show ?thesis by (simp only: m1_def)
  qed
  show "pool_inv m'"
    using run inv keep keep[of "g_recipients (region_of (sb_region b) m)"]
    by (auto simp: register_recipient_def sbind_run ensure_current_run st_simps Let_def split: if_splits)
qed

lemma storage_released_inv: "pool_inv m \<Longrightarrow> pool_inv (storage_released aid m)"
  by (simp add: storage_released_def pool_inv_def)

lemma close_cached:
  "pool_inv_with (rs @ f) m \<Longrightarrow> pool_inv_with f (fold region_close rs m)"
proof (induction rs arbitrary: m)
  case (Cons r rs)
  then show ?case using inv_close_drop[of r "rs @ f" m] by simp
qed simp

lemma fold_close_frame:
  "fold region_close rs (m\<lparr>free_regions := [], cached_bytes := 0\<rparr>)
   = (fold region_close rs m)\<lparr>free_regions := [], cached_bytes := 0\<rparr>"
proof (induction rs arbitrary: m)
  case (Cons r rs)
  have "region_close r (m\<lparr>free_regions := [], cached_bytes := 0\<rparr>)
      = (region_close r m)\<lparr>free_regions := [], cached_bytes := 0\<rparr>"
    by (simp add: region_close_def region_of_def set_region_def)
  with Cons show ?case by simp
qed simp

lemma cached_regions_concat: "concat (map snd fr) = map snd (flat fr)"
  by (induction fr) (auto simp: comp_def)

lemma inv_empty_cache:
  assumes "pool_inv m"
  shows "pool_inv ((fold region_close (concat (map snd (free_regions m))) m)\<lparr>free_regions := [], cached_bytes := 0\<rparr>)"
proof -
  let ?m = "m\<lparr>free_regions := [], cached_bytes := 0\<rparr>"
  have inv: "pool_inv_with [] m" using assms by (simp add: pool_inv_def)
  have same: "pooled_handle ?m = pooled_handle m" "live_region ?m = live_region m"
    "region_of r ?m = region_of r m" "live_regions ?m = live_regions m" "buffer_of ?m = buffer_of m" for r
    by (simp_all add: fun_eq_iff pooled_handle_def live_region_def region_of_def live_regions_def buffer_of_def)
  have lim: "0 \<le> max_cached_buffers m" "0 \<le> max_cached_bytes m"
  proof -
    show "0 \<le> max_cached_buffers m" using inv by (simp add: pool_inv_with_def)
    have "0 \<le> fst p" if "p \<in> set (flat (free_regions m))" for p
    proof -
      obtain len rid where p: "p = (len, rid)" by force
      then show ?thesis
        using inv_cached[OF inv, of len rid] inv_pos[OF inv, of rid] that by auto
    qed
    then have "0 \<le> sum_list (map fst (flat (free_regions m)))"
      by (intro sum_list_nonneg) auto
    then show "0 \<le> max_cached_bytes m" using inv by (simp add: pool_inv_with_def)
  qed
  have "set (cached_regions m) \<subseteq> dom (regions m)"
    using inv_cached[OF inv] by (fastforce simp: cached_regions_def live_region_def)
  then have "pool_inv_with (cached_regions m) ?m"
    using inv lim by (simp add: pool_inv_with_def same) (simp add: cached_regions_def)
  then have "pool_inv_with [] (fold region_close (cached_regions m) ?m)"
    by (intro close_cached) simp
  then show ?thesis
    by (simp add: pool_inv_def fold_close_frame cached_regions_concat cached_regions_def)
qed

lemma fold_close_arena: "arena_region (fold region_close rs m) = arena_region m"
  "active_ids (fold region_close rs m) = active_ids m" "m_closed (fold region_close rs m) = m_closed m"
  by (induction rs arbitrary: m) (simp_all add: region_close_def set_region_def)

lemma close_manager_inv:
  assumes c: "close_manager retire reset_ok m = (r, m')" and inv: "pool_inv m"
  shows "pool_inv m'"
proof -
  obtain r1 m1 where col: "collect retire reset_ok Explicit (m\<lparr>m_closed := True\<rparr>) = (r1, m1)" by force
  have i1: "pool_inv m1"
    using collect_inv[OF col] inv by (simp add: pool_inv_def)
  have no_arena: "arena_region m1 = None"
    using i1 by (simp add: pool_inv_def pool_inv_with_def)
  show ?thesis
  proof (cases r1)
    case (Inl e)
    then show ?thesis using c col i1 by (simp add: close_manager_def sbind_run st_simps)
  next
    case (Inr u)
    have "m' = (fold region_close (concat (map snd (free_regions m1))) m1)\<lparr>free_regions := [], cached_bytes := 0\<rparr>"
      using c col Inr no_arena
      by (simp add: close_manager_def sbind_run st_simps fold_close_arena split: option.splits)
    then show ?thesis using inv_empty_cache[OF i1] by simp
  qed
qed

section \<open>Reachable pools\<close>

text \<open>The operations of a pooled manager, with everything the environment may choose.\<close>

inductive pool_step :: "Manager \<Rightarrow> Manager \<Rightarrow> bool" where
  p_empty: "empty_tensor retire reset_ok ids random shape dtype m = (r, m') \<Longrightarrow> pool_step m m'"
| p_collect: "collect retire reset_ok src m = (r, m') \<Longrightarrow> pool_step m m'"
| p_register: "active m aid = Some a \<Longrightarrow> register_recipient rec (al_buffer a) m = (r, m') \<Longrightarrow> pool_step m m'"
| p_released: "pool_step m (storage_released aid m)"
| p_close: "close_manager retire reset_ok m = (r, m') \<Longrightarrow> pool_step m m'"

inductive pool_reachable :: "Manager \<Rightarrow> bool" where
  p_start: "new_manager ''pooled'' arena n b = Inr m \<Longrightarrow> pool_reachable m"
| p_step: "pool_reachable m \<Longrightarrow> pool_step m m' \<Longrightarrow> pool_reachable m'"

lemma pool_step_inv: "pool_step m m' \<Longrightarrow> pool_inv m \<Longrightarrow> pool_inv m'"
proof (induction rule: pool_step.induct)
  case (p_register m aid a rec r m')
  then have "live_region m (sb_region (al_buffer a))"
    using inv_handle[of "[]" m aid a] by (simp add: pool_inv_def pooled_handle_def)
  with p_register show ?case using register_recipient_inv by blast
qed (auto intro: empty_tensor_inv collect_inv storage_released_inv close_manager_inv)

lemma pool_reachable_inv: "pool_reachable m \<Longrightarrow> pool_inv m"
  by (induction rule: pool_reachable.induct) (auto intro: new_manager_pool_inv pool_step_inv)

text \<open>Two live allocations never share a region, and no live region is in the cache.\<close>

lemma live_allocations_apart:
  assumes "pool_reachable m" "active m i = Some a" "active m j = Some b" "i \<noteq> j"
  shows "sb_region (al_buffer a) \<noteq> sb_region (al_buffer b)"
    "sb_region (al_buffer a) \<notin> set (cached_regions m)"
proof -
  have inv: "pool_inv_with [] m" using pool_reachable_inv[OF assms(1)] by (simp add: pool_inv_def)
  have ids: "i \<in> set (active_ids m)" "j \<in> set (active_ids m)"
    using inv_handle[OF inv assms(2)] inv_handle[OF inv assms(3)] by auto
  have d: "distinct (live_regions m)" "set (live_regions m) \<inter> set (cached_regions m) = {}"
    using inv by (auto simp: pool_inv_with_def)
  then have "inj_on (\<lambda>i. sb_region (buffer_of m i)) (set (active_ids m))"
    by (simp add: live_regions_def distinct_map)
  then show "sb_region (al_buffer a) \<noteq> sb_region (al_buffer b)"
    using ids assms(2-4) by (force simp: inj_on_def buffer_of_def)
  have "sb_region (al_buffer a) \<in> set (live_regions m)"
    using ids assms(2) by (force simp: live_regions_def buffer_of_def)
  with d(2) show "sb_region (al_buffer a) \<notin> set (cached_regions m)" by blast
qed

lemma live_handle_current:
  assumes "pool_reachable m" "active m i = Some a"
  shows "ensure_current (al_buffer a) m = (Inr (), m)"
  using inv_handle[of "[]" m i a] pool_reachable_inv[OF assms(1)] assms(2)
  by (simp add: pool_inv_def pooled_handle_def ensure_current_run)

lemma cache_limits:
  assumes "pool_reachable m"
  shows "cached_count m \<le> max_cached_buffers m \<and> cached_bytes m \<le> max_cached_bytes m \<and>
    cached_bytes m = sum_list (map fst (flat (free_regions m)))"
  using pool_reachable_inv[OF assms] by (simp add: pool_inv_def pool_inv_with_def cached_count_flat)

end
