(* ===== verification/Buffer_Retire.thy ===== *)
theory Buffer_Retire
  imports Buffer_Pool
begin

text \<open>
  What happens to a handle after its allocation was released: regions only move forward
  (their generation grows, a closed region stays closed), a collected region is closed or
  given a new generation, so that a stale handle is rejected for ever, and a region whose
  recipient could not retire it is never handed out again.
\<close>

section \<open>Regions only move forward\<close>

definition forward :: "Manager \<Rightarrow> Manager \<Rightarrow> bool" where
  "forward m m' \<longleftrightarrow> (\<forall>rid g. regions m rid = Some g \<longrightarrow>
     (\<exists>g'. regions m' rid = Some g' \<and> g_generation g \<le> g_generation g' \<and>
           (g_closed g \<longrightarrow> g_closed g') \<and> g_byte_length g' = g_byte_length g))"

lemma forward_refl [simp]: "forward m m"
  by (simp add: forward_def)

lemma forward_trans:
  assumes "forward a b" "forward b c"
  shows "forward a c"
  unfolding forward_def
proof (intro allI impI)
  fix rid g assume "regions a rid = Some g"
  then obtain g1 where g1: "regions b rid = Some g1" "g_generation g \<le> g_generation g1"
    "g_closed g \<longrightarrow> g_closed g1" "g_byte_length g1 = g_byte_length g"
    using assms(1) unfolding forward_def by blast
  then obtain g2 where "regions c rid = Some g2" "g_generation g1 \<le> g_generation g2"
    "g_closed g1 \<longrightarrow> g_closed g2" "g_byte_length g2 = g_byte_length g1"
    using assms(2) unfolding forward_def by blast
  with g1 show "\<exists>g'. regions c rid = Some g' \<and> g_generation g \<le> g_generation g' \<and>
      (g_closed g \<longrightarrow> g_closed g') \<and> g_byte_length g' = g_byte_length g"
    by auto
qed

lemma forward_trans_eq: "forward a b \<Longrightarrow> regions c = regions b \<Longrightarrow> forward a c"
  by (simp add: forward_def)

lemma forward_set:
  "(\<And>g0. regions m rid = Some g0 \<Longrightarrow> g_generation g0 \<le> g_generation g \<and>
      (g_closed g0 \<longrightarrow> g_closed g) \<and> g_byte_length g = g_byte_length g0) \<Longrightarrow> forward m (set_region rid g m)"
  by (auto simp: forward_def set_region_def)

lemma forward_region_close: "forward m (region_close rid m)"
  unfolding region_close_def by (auto intro!: forward_set simp: region_of_def)

lemma keeps_forward: "(\<And>m. forward m (snd (f m))) \<Longrightarrow> keeps (forward m0) f"
  unfolding keeps_def using forward_trans by blast

lemma forward_keeps: "(\<And>m0. keeps (forward m0) f) \<Longrightarrow> f m = (r, m') \<Longrightarrow> forward m m'"
  using keepsD forward_refl by metis

declare keeps_smod [keeps_rules del]

lemma keeps_bump [keeps_rules]: "keeps (forward m0) (bump f)"
  by (auto simp: keeps_def bump_run intro: forward_trans_eq)

lemma keeps_close [keeps_rules]: "keeps (forward m0) (smod (region_close rid))"
  by (rule keeps_forward) (simp add: st_simps forward_region_close)

lemma keeps_same_regions [keeps_rules]:
  "(\<And>m. regions (f m) = regions m) \<Longrightarrow> keeps (forward m0) (smod f)"
  by (auto simp: keeps_def st_simps intro: forward_trans_eq)

lemma keeps_reset [keeps_rules]: "keeps (forward m0) (region_reset reset_ok rid)"
  by (rule keeps_forward)
     (auto simp: region_reset_run Let_def region_of_def intro!: forward_set)

lemma keeps_reset_or_close [keeps_rules]:
  "keeps (forward m0) (on_error (region_reset reset_ok rid) (region_close rid))"
  by (rule keeps_on_error) (auto intro: keeps_rules forward_trans forward_region_close)

lemma keeps_cache_or_evict [keeps_rules]: "keeps (forward m0) (cache_or_evict rid)"
  unfolding cache_or_evict_def Let_def by (intro keeps_rules) auto

lemma keeps_reset_or_release [keeps_rules]: "keeps (forward m0) (reset_or_release_region reset_ok rid)"
  unfolding reset_or_release_region_def by (intro keeps_rules)

lemma keeps_release_many [keeps_rules]: "keeps (forward m0) (release_pooled_many retire reset_ok bs)"
  unfolding release_pooled_many_def Let_def by (intro keeps_rules)

lemma drain_forward: "drain ids m = (p, n, m') \<Longrightarrow> forward m m'"
proof (induction ids arbitrary: m p n)
  case (Cons aid ids)
  have drop: "forward m (drop_active aid m)" by (simp add: forward_def drop_active_def)
  have arena: "forward m (release_arena b m)" for b m
  proof -
    let ?m = "m\<lparr>arena_free := arena_put (sb_offset b) (align (sb_byte_length b) ARENA_ALIGNMENT) (arena_free m)\<rparr>"
    have "forward m (region_close r ?m)" for r
      using forward_region_close[of ?m r] by (auto simp: forward_def)
    then have "forward m ((region_close r ?m)\<lparr>arena_region := None\<rparr>)" for r
      by (rule forward_trans_eq) simp
    then show ?thesis
      by (auto simp: release_arena_def Let_def split: option.split) (auto simp: forward_def)
  qed
  show ?case
  proof (cases "active m aid")
    case None
    then show ?thesis using Cons by simp
  next
    case (Some a)
    show ?thesis
    proof (cases "sb_arena (al_buffer a)")
      case True
      then obtain k where "drain ids (release_arena (al_buffer a) (drop_active aid m)) = (p, k, m')"
        using Cons.prems Some by (auto simp: Let_def split: prod.splits)
      then show ?thesis using Cons.IH arena drop forward_trans by blast
    next
      case False
      then obtain q where "drain ids (drop_active aid m) = (q, n, m')"
        using Cons.prems Some by (auto simp: Let_def split: prod.splits)
      then show ?thesis using Cons.IH drop forward_trans by blast
    qed
  qed
qed simp

lemma keeps_collect [keeps_rules]: "keeps (forward m0) (collect retire reset_ok src)"
proof (rule keeps_forward)
  fix m
  obtain p n m1 where d: "drain (released m) (m\<lparr>released := []\<rparr>) = (p, n, m1)" by (metis prod_cases3)
  obtain r2 m2 where rp: "release_pooled_many retire reset_ok p m1 = (r2, m2)" by force
  have "forward m m1" using drain_forward[OF d] by (auto simp: forward_def)
  moreover have "forward m1 m2" using forward_keeps[OF keeps_release_many rp] .
  ultimately have "forward m m2" by (rule forward_trans)
  then show "forward m (snd (collect retire reset_ok src m))"
    by (auto simp: collect_def d rp Let_def intro: forward_trans_eq)
qed

lemma keeps_new_region [keeps_rules]: "keeps (forward m0) (new_region random len)"
proof (rule keeps_forward)
  fix m
  have "forward m (set_region rid g (m\<lparr>stats := x\<rparr>))" if "regions m rid = None" for rid g x
    using that by (auto simp: forward_def set_region_def)
  then show "forward m (snd (new_region random len m))"
    by (auto simp: new_region_run split: option.split dest!: fresh_id_Some)
qed

lemma keeps_allocate [keeps_rules]:
  "keeps (forward m0) (allocate_pooled random len aid)" "keeps (forward m0) (allocate_arena random len aid)"
  unfolding allocate_pooled_def allocate_arena_def Let_def
  by (auto intro!: keeps_rules split: option.split prod.split)

lemma keeps_ensure_current [keeps_rules]: "keeps P (ensure_current b)"
  by (auto simp: keeps_def ensure_current_run)

lemma keeps_empty [keeps_rules]: "keeps (forward m0) (empty_tensor retire reset_ok ids random shape dtype)"
  unfolding empty_tensor_def Let_def
  by (auto intro!: keeps_rules split: option.split)

lemma keeps_register [keeps_rules]: "keeps (forward m0) (register_recipient rec b)"
  unfolding register_recipient_def Let_def
proof (rule keeps_sbind, rule keeps_ensure_current, rule keeps_if, rule keeps_sret, rule keeps_forward)
  fix m
  show "forward m (snd (smod (\<lambda>m. set_region (sb_region b) (region_of (sb_region b) m
      \<lparr>g_recipients := if rec \<in> set (g_recipients (region_of (sb_region b) m))
         then g_recipients (region_of (sb_region b) m)
         else g_recipients (region_of (sb_region b) m) @ [rec]\<rparr>) m) m))"
    by (auto simp: st_simps region_of_def intro!: forward_set)
qed

lemma keeps_close_manager [keeps_rules]: "keeps (forward m0) (close_manager retire reset_ok)"
proof -
  have f: "forward m (fold region_close rs m)" for rs m
  proof (induction rs arbitrary: m)
    case (Cons r rs)
    show ?case using forward_trans[OF forward_region_close[of m r] Cons] by simp
  qed simp
  have "keeps (forward m0) (smod (\<lambda>m. fold region_close (concat (map snd (free_regions m))) m))"
    by (rule keeps_forward) (simp add: st_simps f)
  moreover have "keeps (forward m0) (smod (\<lambda>m. case arena_region m of
                 Some rid \<Rightarrow> if active_ids m = [] then (region_close rid m)\<lparr>arena_region := None\<rparr> else m
               | None \<Rightarrow> m))"
    by (rule keeps_forward)
       (auto simp: st_simps intro: forward_trans_eq[OF forward_region_close] split: option.split)
  ultimately show ?thesis
    unfolding close_manager_def by (intro keeps_sbind) (auto intro: keeps_rules)
qed

lemma pool_step_forward: "pool_step m m' \<Longrightarrow> forward m m'"
  by (induction rule: pool_step.induct)
     (auto intro: forward_keeps keeps_rules simp: storage_released_def forward_def[of _ "_\<lparr>released := _\<rparr>"])

lemma pool_steps_forward: "pool_step\<^sup>*\<^sup>* m m' \<Longrightarrow> forward m m'"
  by (induction rule: rtranclp_induct) (auto intro: forward_trans pool_step_forward)

section \<open>Collected handles are dead\<close>

definition dead_handle :: "SharedBuffer \<Rightarrow> Manager \<Rightarrow> bool" where
  "dead_handle b m \<longleftrightarrow> (\<exists>g. regions m (sb_region b) = Some g \<and>
     (g_closed g \<or> sb_generation b < g_generation g))"

definition known_handle :: "SharedBuffer \<Rightarrow> Manager \<Rightarrow> bool" where
  "known_handle b m \<longleftrightarrow> (\<exists>g. regions m (sb_region b) = Some g \<and> sb_generation b \<le> g_generation g)"

lemma dead_forward: "dead_handle b m \<Longrightarrow> forward m m' \<Longrightarrow> dead_handle b m'"
  unfolding dead_handle_def forward_def by (meson order_less_le_trans)

lemma known_forward: "known_handle b m \<Longrightarrow> forward m m' \<Longrightarrow> known_handle b m'"
  unfolding known_handle_def forward_def by (meson order_trans)

lemma dead_handle_rejected:
  assumes "dead_handle b m"
  shows "\<exists>e. duplicate_fd w b m = (Inl e, m)"
  using assms by (auto simp: dead_handle_def duplicate_fd_def sbind_run ensure_current_run st_simps region_of_def)

lemma region_close_closed: "\<exists>g. regions (region_close rid m) rid = Some g \<and> g_closed g" if "regions m rid \<noteq> None"
  using that by (auto simp: region_close_def set_region_def region_of_def)

lemma reset_or_release_dead:
  assumes r: "reset_or_release_region reset_ok (sb_region b) m = (Inr u, m')" and k: "known_handle b m"
  shows "dead_handle b m'"
proof -
  let ?rid = "sb_region b"
  let ?g = "(region_of ?rid m)\<lparr>g_generation := g_generation (region_of ?rid m) + 1, g_recipients := []\<rparr>"
  consider (quiet) "m' = region_close ?rid m"
    | (fresh) "cache_or_evict ?rid (set_region ?rid ?g m) = (Inr u, m')"
    using r by (auto simp: reset_or_release_region_def st_run bump_run region_reset_run Let_def split: if_splits)
  then show ?thesis
  proof cases
    case quiet
    then show ?thesis using region_close_closed[of m ?rid] k by (auto simp: dead_handle_def known_handle_def)
  next
    case fresh
    have "dead_handle b (set_region ?rid ?g m)"
      using k by (auto simp: dead_handle_def known_handle_def set_region_def region_of_def)
    then show ?thesis
      using dead_forward forward_keeps[OF keeps_cache_or_evict fresh] by blast
  qed
qed

definition release_each :: "int list \<Rightarrow> (int \<Rightarrow> bool) \<Rightarrow> SharedBuffer \<Rightarrow> (Manager, unit) st" where
  "release_each failed reset_ok b =
     (if sb_region b \<in> set failed
      then sbind (smod (region_close (sb_region b))) (\<lambda>_.
           bump (\<lambda>s. s\<lparr>buffers_quarantined := buffers_quarantined s + 1\<rparr>))
      else reset_or_release_region reset_ok (sb_region b))"

lemma keeps_release_each: "keeps (forward m0) (release_each failed reset_ok b)"
  unfolding release_each_def by (intro keeps_rules)

lemma release_each_dead:
  assumes "release_each failed reset_ok b m = (Inr u, m')" "known_handle b m"
  shows "dead_handle b m' \<and> (sb_region b \<in> set failed \<longrightarrow> (\<exists>g. regions m' (sb_region b) = Some g \<and> g_closed g))"
proof (cases "sb_region b \<in> set failed")
  case True
  then have "regions m' = regions (region_close (sb_region b) m)"
    using assms(1) by (auto simp: release_each_def st_run bump_run)
  then show ?thesis
    using region_close_closed[of m "sb_region b"] assms(2) by (auto simp: dead_handle_def known_handle_def)
next
  case False
  then show ?thesis using assms reset_or_release_dead by (auto simp: release_each_def)
qed

lemma release_all_dead:
  "sall (release_each failed reset_ok) bs m = (Inr u, m') \<Longrightarrow> (\<forall>b \<in> set bs. known_handle b m) \<Longrightarrow>
   \<forall>b \<in> set bs. dead_handle b m' \<and>
     (sb_region b \<in> set failed \<longrightarrow> (\<exists>g. regions m' (sb_region b) = Some g \<and> g_closed g))"
proof (induction bs arbitrary: m)
  case (Cons b bs)
  obtain m1 where one: "release_each failed reset_ok b m = (Inr (), m1)"
    and rest: "sall (release_each failed reset_ok) bs m1 = (Inr u, m')"
    using Cons.prems(1) by (auto simp: sbind_Inr)
  have f1: "forward m m1" using forward_keeps[OF keeps_release_each one] .
  have f2: "forward m1 m'" using forward_keeps[OF keeps_sall rest] keeps_release_each by blast
  have b: "dead_handle b m1 \<and> (sb_region b \<in> set failed \<longrightarrow> (\<exists>g. regions m1 (sb_region b) = Some g \<and> g_closed g))"
    using release_each_dead[OF one] Cons.prems(2) by simp
  have "dead_handle b m' \<and> (sb_region b \<in> set failed \<longrightarrow> (\<exists>g. regions m' (sb_region b) = Some g \<and> g_closed g))"
    using b f2 dead_forward unfolding forward_def by blast
  moreover have "\<forall>b \<in> set bs. known_handle b m1"
    using Cons.prems(2) f1 known_forward by auto
  ultimately show ?case using Cons.IH[OF rest] by simp
qed simp

text \<open>The groups handed to the recipients, and the regions of the failed ones.\<close>

definition notify_groups :: "SharedBuffer list \<Rightarrow> Manager \<Rightarrow> (nat \<times> SharedBuffer list) list" where
  "notify_groups bs m =
     by_recipient (concat (map (\<lambda>b. map (\<lambda>r. (r, b)) (g_recipients (region_of (sb_region b) m))) bs)) []"

definition failed_regions :: "(nat \<Rightarrow> SharedBuffer list \<Rightarrow> bool) \<Rightarrow> SharedBuffer list \<Rightarrow> Manager \<Rightarrow> int list" where
  "failed_regions retire bs m =
     concat (map (\<lambda>(r, bs). if retire r bs then [] else map sb_region bs) (notify_groups bs m))"

lemma release_pooled_many_run:
  "release_pooled_many retire reset_ok bs m =
   sall (release_each (failed_regions retire bs m) reset_ok) bs
     (m\<lparr>stats := (stats m)\<lparr>
        recipient_notifications := recipient_notifications (stats m) +
          int (sum_list (map (\<lambda>(_, bs). length bs) (notify_groups bs m))),
        recipient_notification_batches := recipient_notification_batches (stats m) +
          int (length (notify_groups bs m))\<rparr>\<rparr>)"
  by (simp only: release_pooled_many_def sbind_run sget_run bump_run Let_def sum.case prod.case
      release_each_def[abs_def] failed_regions_def notify_groups_def)

text \<open>A recipient is told of all its buffers at once.\<close>

lemma by_recipient_member:
  "(r, b) \<in> set pairs \<or> (\<exists>bs. map_of groups r = Some bs \<and> b \<in> set bs) \<Longrightarrow>
   \<exists>bs. map_of (by_recipient pairs groups) r = Some bs \<and> b \<in> set bs"
proof (induction pairs groups rule: by_recipient.induct)
  case (2 r' b' rest groups)
  let ?g = "AList.update r' ((case map_of groups r' of None \<Rightarrow> [] | Some bs \<Rightarrow> bs) @ [b']) groups"
  have "(r, b) \<in> set rest \<or> (\<exists>bs. map_of ?g r = Some bs \<and> b \<in> set bs)"
    using 2(2) by (auto simp: update_conv' split: option.split)
  then show ?case using 2(1) by simp
qed auto

lemma failing_recipient_quarantines:
  assumes "b \<in> set bs" "r \<in> set (g_recipients (region_of (sb_region b) m))" "\<And>bs. \<not> retire r bs"
  shows "sb_region b \<in> set (failed_regions retire bs m)"
proof -
  obtain g where "map_of (notify_groups bs m) r = Some g" "b \<in> set g"
  proof -
    have "(r, b) \<in> set (concat (map (\<lambda>b. map (\<lambda>r. (r, b)) (g_recipients (region_of (sb_region b) m))) bs))"
      using assms(1,2) by auto
    from by_recipient_member[OF disjI1[OF this], of "[]"] that show thesis
      unfolding notify_groups_def by blast
  qed
  then have "(r, g) \<in> set (notify_groups bs m)" "b \<in> set g" by (auto dest: map_of_SomeD)
  then show ?thesis using assms(3) unfolding failed_regions_def by fastforce
qed

lemma drain_pooled:
  "drain ids m = (p, n, m') \<Longrightarrow> active m aid = Some a \<Longrightarrow> aid \<in> set ids \<Longrightarrow> \<not> sb_arena (al_buffer a) \<Longrightarrow>
   al_buffer a \<in> set p"
proof (induction ids arbitrary: m p n)
  case (Cons i ids)
  have keep: "active (release_arena b m) = active m" for b m
    by (simp add: release_arena_def Let_def region_close_def set_region_def split: option.split)
  show ?case
  proof (cases "i = aid")
    case True
    then show ?thesis using Cons.prems by (auto simp: Let_def split: prod.splits)
  next
    case False
    then have "aid \<in> set ids" "active (drop_active i m) aid = Some a"
      using Cons.prems by (auto simp: drop_active_def)
    then show ?thesis
      using Cons.prems Cons.IH[of m p n] Cons.IH[of "drop_active i m"]
        Cons.IH[of "release_arena _ (drop_active i m)"] keep
      by (auto simp: Let_def split: option.splits if_splits prod.splits)
  qed
qed simp

lemma drain_regions_pooled: "pool_inv m \<Longrightarrow> drain ids m = (p, n, m') \<Longrightarrow> regions m' = regions m"
proof -
  have "pool_inv_with f m \<Longrightarrow> drain ids m = (p, n, m') \<Longrightarrow> regions m' = regions m" for f m p n
  proof (induction ids arbitrary: m p n f)
    case (Cons i ids)
    show ?case
    proof (cases "active m i")
      case (Some a)
      have "\<not> sb_arena (al_buffer a)"
        using inv_handle[OF Cons.prems(1) Some] by (simp add: pooled_handle_def)
      then obtain q where "drain ids (drop_active i m) = (q, n, m')"
        using Cons.prems(2) Some by (auto simp: Let_def split: prod.splits)
      then have "regions m' = regions (drop_active i m)"
        using Cons.IH inv_drop_active[OF Cons.prems(1) Some] by blast
      then show ?thesis by (simp add: drop_active_def)
    qed (use Cons in simp)
  qed simp
  then show "pool_inv m \<Longrightarrow> drain ids m = (p, n, m') \<Longrightarrow> regions m' = regions m"
    by (simp add: pool_inv_def)
qed

lemma collect_kills:
  assumes inv: "pool_inv m" and c: "collect retire reset_ok src m = (Inr u, m')"
    and a: "active m aid = Some a" "aid \<in> set (released m)"
  shows "dead_handle (al_buffer a) m'"
    "r \<in> set (g_recipients (region_of (sb_region (al_buffer a)) m)) \<Longrightarrow> (\<And>bs. \<not> retire r bs) \<Longrightarrow>
     \<exists>g. regions m' (sb_region (al_buffer a)) = Some g \<and> g_closed g"
proof -
  obtain p n m1 where d: "drain (released m) (m\<lparr>released := []\<rparr>) = (p, n, m1)" by (metis prod_cases3)
  have inv': "pool_inv (m\<lparr>released := []\<rparr>)" using inv by (simp add: pool_inv_def)
  obtain r2 m2 where rp: "release_pooled_many retire reset_ok p m1 = (r2, m2)" by force
  have m': "regions m' = regions m2" and r2: "r2 = Inr u"
    using c by (auto simp: collect_def d rp Let_def)
  have h: "pooled_handle m (al_buffer a)"
    using inv_handle[of "[]" m aid a] inv a(1) by (simp add: pool_inv_def)
  have p: "al_buffer a \<in> set p"
    using drain_pooled[OF d _ a(2)] a(1) h by (simp add: pooled_handle_def)
  have regs: "regions m1 = regions m" using drain_regions_pooled[OF inv' d] by simp
  have flight: "pool_inv_with (map sb_region p) m1"
    using drain_inv[OF d, of "[]"] inv by (simp add: pool_inv_def)
  have live: "\<forall>aid a. active m aid = Some a \<longrightarrow> known_handle (al_buffer a) m"
    using inv_handle[of "[]" m] inv
    by (fastforce simp: pool_inv_def pooled_handle_def live_region_def known_handle_def region_of_def)
  have from_active: "\<forall>b \<in> set q. \<exists>aid a. active k aid = Some a \<and> b = al_buffer a"
    if "drain ids k = (q, j, k')" for ids k q j k'
    using that
  proof (induction ids arbitrary: k q j)
    case (Cons i ids)
    have keep: "active (release_arena b x) = active x" for b x
      by (simp add: release_arena_def Let_def region_close_def set_region_def split: option.split)
    have sub: "active (drop_active i k) x = Some y \<Longrightarrow> active k x = Some y" for x y
      by (auto simp: drop_active_def split: if_splits)
    show ?case
    proof (cases "active k i")
      case None
      then show ?thesis using Cons by simp
    next
      case (Some y)
      show ?thesis
      proof (cases "sb_arena (al_buffer y)")
        case True
        then obtain j2 where "drain ids (release_arena (al_buffer y) (drop_active i k)) = (q, j2, k')"
          using Cons.prems Some by (auto simp: Let_def split: prod.splits)
        from Cons.IH[OF this] show ?thesis using sub by (fastforce simp: keep)
      next
        case False
        then obtain q2 where q2: "drain ids (drop_active i k) = (q2, j, k')" "q = al_buffer y # q2"
          using Cons.prems Some by (auto simp: Let_def split: prod.splits)
        from Cons.IH[OF q2(1)] show ?thesis using sub Some q2(2) by fastforce
      qed
    qed
  qed simp
  define s1 where "s1 = m1\<lparr>stats := (stats m1)\<lparr>
        recipient_notifications := recipient_notifications (stats m1) +
          int (sum_list (map (\<lambda>(_, bs). length bs) (notify_groups p m1))),
        recipient_notification_batches := recipient_notification_batches (stats m1) +
          int (length (notify_groups p m1))\<rparr>\<rparr>"
  have run: "sall (release_each (failed_regions retire p m1) reset_ok) p s1 = (Inr u, m2)"
    using rp r2 by (simp add: release_pooled_many_run s1_def)
  have known: "\<forall>b \<in> set p. known_handle b s1"
    using from_active[OF d] live regs by (fastforce simp: known_handle_def s1_def)
  note D = release_all_dead[OF run known, rule_format, OF p]
  show "dead_handle (al_buffer a) m'" using D m' by (simp add: dead_handle_def)
  assume "r \<in> set (g_recipients (region_of (sb_region (al_buffer a)) m))" "\<And>bs. \<not> retire r bs"
  then have "sb_region (al_buffer a) \<in> set (failed_regions retire p m1)"
    using failing_recipient_quarantines[OF p, of r m1 retire] regs by (simp add: region_of_def)
  then show "\<exists>g. regions m' (sb_region (al_buffer a)) = Some g \<and> g_closed g"
    using D m' by simp
qed

end
