(* ===== verification/Buffer_Arena.thy ===== *)
theory Buffer_Arena
  imports Buffer_Retire
begin

text \<open>
  The arena mode of the buffer manager. \<open>arena_inv\<close> says that the free list and the live
  allocations tile the arena: they are pairwise disjoint and together cover every byte.
  Every public operation preserves it.
\<close>

definition block_of :: "SharedBuffer \<Rightarrow> block" where
  "block_of b = (sb_offset b, align (sb_byte_length b) ARENA_ALIGNMENT)"

definition live_blocks :: "Manager \<Rightarrow> block list" where
  "live_blocks m = map (\<lambda>aid. block_of (buffer_of m aid)) (active_ids m)"

fun apart :: "block list \<Rightarrow> bool" where
  "apart [] \<longleftrightarrow> True"
| "apart (b # bs) \<longleftrightarrow> bytes_of b \<inter> covered bs = {} \<and> apart bs"

definition tiles :: "block list \<Rightarrow> block list \<Rightarrow> int \<Rightarrow> bool" where
  "tiles free live n \<longleftrightarrow> gapped (-1) free \<and> apart live \<and> covered free \<inter> covered live = {} \<and>
     covered free \<union> covered live = {0..<n}"

definition arena_handle :: "Manager \<Rightarrow> SharedBuffer \<Rightarrow> bool" where
  "arena_handle m b \<longleftrightarrow> sb_arena b \<and> arena_region m = Some (sb_region b) \<and> 0 < sb_byte_length b \<and>
     sb_generation b = g_generation (region_of (sb_region b) m)"

definition arena_inv :: "Manager \<Rightarrow> bool" where
  "arena_inv m \<longleftrightarrow>
     arena_mode m \<and> 0 < arena_bytes m \<and>
     distinct (active_ids m) \<and> set (active_ids m) = dom (active m) \<and>
     (\<forall>aid \<in> set (active_ids m). arena_handle m (buffer_of m aid) \<and>
        sb_allocation_id (buffer_of m aid) = aid) \<and>
     (case arena_region m of
        None \<Rightarrow> active_ids m = []
      | Some rid \<Rightarrow> live_region m rid \<and> g_byte_length (region_of rid m) = arena_bytes m \<and>
          tiles (arena_free m) (live_blocks m) (arena_bytes m)) \<and>
     free_regions m = [] \<and> cached_bytes m = 0"

text \<open>Removing one block from a set of disjoint blocks.\<close>

lemma apart_remove1:
  "apart bs \<Longrightarrow> b \<in> set bs \<Longrightarrow>
   apart (remove1 b bs) \<and> bytes_of b \<inter> covered (remove1 b bs) = {} \<and>
   covered bs = bytes_of b \<union> covered (remove1 b bs)"
  by (induction bs) auto

lemma apart_map_remove1:
  assumes "apart (map f xs)" "x \<in> set xs" "distinct xs"
  shows "apart (map f (remove1 x xs)) \<and> bytes_of (f x) \<inter> covered (map f (remove1 x xs)) = {} \<and>
    covered (map f xs) = bytes_of (f x) \<union> covered (map f (remove1 x xs))"
  using assms
proof (induction xs)
  case (Cons a xs)
  then show ?case by (cases "a = x") auto
qed simp

lemma block_nonempty: "0 < sb_byte_length b \<Longrightarrow> 0 < snd (block_of b)"
  using align_bounds(1)[of ARENA_ALIGNMENT "sb_byte_length b"]
  by (simp add: block_of_def ARENA_ALIGNMENT_def)

lemma block_offset:
  assumes "tiles free live n" "b \<in> set live" "0 < snd b"
  shows "0 \<le> fst b" "fst b + snd b \<le> n"
proof -
  have "bytes_of b \<subseteq> {0..<n}" using assms(1,2) by (auto simp: tiles_def covered_def)
  moreover have "fst b \<in> bytes_of b" "fst b + snd b - 1 \<in> bytes_of b"
    using assms(3) by (auto simp: bytes_of_def)
  ultimately show "0 \<le> fst b" "fst b + snd b \<le> n" by auto
qed

lemma tiles_release:
  assumes t: "tiles free (map f xs) n" and x: "x \<in> set xs" "distinct xs" and f: "f x = (offset, len)" "0 < len"
  shows "tiles (arena_put offset len free) (map f (remove1 x xs)) n"
proof -
  have "f x \<in> set (map f xs)" using x(1) by simp
  then have off: "0 \<le> offset" using block_offset(1)[OF t, of "f x"] f by simp
  note R = apart_map_remove1[of f xs x]
  have dis: "bytes_of (offset, len) \<inter> covered free = {}"
  proof -
    have "bytes_of (f x) \<subseteq> covered (map f xs)" using x(1) by (auto simp: covered_def)
    then show ?thesis using t f(1) by (auto simp: tiles_def)
  qed
  note P = arena_put_correct[of "-1" free offset len, OF _ _ f(2) dis]
  show ?thesis
    using t R x f P off unfolding tiles_def by (auto simp: set_eq_iff)
qed

lemma tiles_allocate:
  assumes "tiles free live n" "arena_take required free = Some (offset, free')" "0 < required"
  shows "tiles free' ((offset, required) # live) n" "0 \<le> offset" "offset + required \<le> n"
proof -
  note T = arena_take_Some[OF assms(2) _ assms(3), of "-1"]
  show t: "tiles free' ((offset, required) # live) n"
    using assms(1) T unfolding tiles_def by auto
  show "0 \<le> offset" "offset + required \<le> n"
    using block_offset[OF t, of "(offset, required)"] assms(3) by auto
qed

section \<open>Collection\<close>

lemma arena_handle_of:
  "arena_inv m \<Longrightarrow> active m aid = Some a \<Longrightarrow>
   aid \<in> set (active_ids m) \<and> arena_handle m (al_buffer a) \<and> sb_allocation_id (al_buffer a) = aid"
  unfolding arena_inv_def buffer_of_def by (metis domI option.sel)

lemma arena_inv_irrelevant [simp]:
  "arena_inv (m\<lparr>stats := s\<rparr>) = arena_inv m" "arena_inv (m\<lparr>released := q\<rparr>) = arena_inv m"
  "arena_inv (m\<lparr>m_closed := c\<rparr>) = arena_inv m"
  by (simp_all add: arena_inv_def arena_handle_def buffer_of_def region_of_def live_region_def
      live_blocks_def split: option.split)

lemma new_manager_arena_inv:
  "new_manager ''arena'' arena n b = Inr m \<Longrightarrow> arena_inv m"
  by (auto simp: new_manager_def Let_def arena_inv_def split: if_splits)

lemma arena_release_inv:
  assumes inv: "arena_inv m" and a: "active m aid = Some a"
  shows "arena_inv (release_arena (al_buffer a) (drop_active aid m))"
proof -
  let ?b = "al_buffer a"
  let ?ids = "remove1 aid (active_ids m)"
  have h: "aid \<in> set (active_ids m)" "arena_handle m ?b" using arena_handle_of[OF inv a] by auto
  obtain rid where rid: "arena_region m = Some rid" "rid = sb_region ?b"
    using h(2) by (auto simp: arena_handle_def)
  have d: "distinct (active_ids m)" "set (active_ids m) = dom (active m)" using inv by (auto simp: arena_inv_def)
  have t: "tiles (arena_free m) (live_blocks m) (arena_bytes m)" "live_region m rid"
    "g_byte_length (region_of rid m) = arena_bytes m"
    using inv rid(1) by (auto simp: arena_inv_def)
  have bl: "block_of (buffer_of m aid) = (sb_offset ?b, align (sb_byte_length ?b) ARENA_ALIGNMENT)"
    by (simp add: block_of_def buffer_of_def a)
  have pos: "0 < align (sb_byte_length ?b) ARENA_ALIGNMENT"
    using h(2) block_nonempty[of ?b] by (simp add: arena_handle_def block_of_def)
  define fr where "fr = arena_put (sb_offset ?b) (align (sb_byte_length ?b) ARENA_ALIGNMENT) (arena_free m)"
  have t': "tiles fr (map (\<lambda>i. block_of (buffer_of m i)) ?ids) (arena_bytes m)"
    unfolding fr_def using tiles_release[OF t(1)[unfolded live_blocks_def] h(1) d(1) bl pos] .
  have ids: "set ?ids = set (active_ids m) - {aid}" "distinct ?ids" using d by (auto simp: set_remove1_eq)
  define m1 where "m1 = (drop_active aid m)\<lparr>arena_free := fr\<rparr>"
  have buf: "buffer_of m1 i = buffer_of m i" if "i \<in> set ?ids" for i
    using that ids by (auto simp: buffer_of_def m1_def drop_active_def)
  have fields: "active_ids m1 = ?ids" "active m1 = (active m)(aid := None)" "arena_region m1 = Some rid"
    "arena_free m1 = fr" "regions m1 = regions m" "arena_mode m1 = arena_mode m" "arena_bytes m1 = arena_bytes m"
    "free_regions m1 = free_regions m" "cached_bytes m1 = cached_bytes m" "m_closed m1 = m_closed m"
    by (simp_all add: m1_def drop_active_def rid)
  have lb: "live_blocks m1 = map (\<lambda>i. block_of (buffer_of m i)) ?ids"
    using buf by (simp add: live_blocks_def fields)
  have inv1: "arena_inv m1"
    using inv ids t t' buf rid
    unfolding arena_inv_def fields lb
    by (auto simp: arena_handle_def region_of_def live_region_def fields)
  have "arena_inv ((region_close rid m1)\<lparr>arena_region := None\<rparr>)" if "?ids = []"
  proof -
    have "dom (active m1) = {}" using inv1 fields that by (auto simp: arena_inv_def)
    then show ?thesis
      using inv1 that by (simp add: arena_inv_def fields region_close_def set_region_def)
  qed
  moreover have "release_arena ?b (drop_active aid m) =
      (if m_closed m1 \<and> ?ids = [] then (region_close rid m1)\<lparr>arena_region := None\<rparr> else m1)"
    unfolding release_arena_def Let_def fr_def m1_def by (simp add: drop_active_def rid)
  ultimately show ?thesis using inv1 by simp
qed

lemma arena_drain_inv: "drain ids m = (p, n, m') \<Longrightarrow> arena_inv m \<Longrightarrow> arena_inv m' \<and> p = []"
proof (induction ids arbitrary: m p n)
  case (Cons aid ids)
  show ?case
  proof (cases "active m aid")
    case None
    then show ?thesis using Cons by simp
  next
    case (Some a)
    have "sb_arena (al_buffer a)" using arena_handle_of[OF Cons.prems(2) Some] by (simp add: arena_handle_def)
    then obtain k where "drain ids (release_arena (al_buffer a) (drop_active aid m)) = (p, k, m')"
      using Cons.prems(1) Some by (auto simp: Let_def split: prod.splits)
    then show ?thesis using Cons.IH arena_release_inv[OF Cons.prems(2) Some] by blast
  qed
qed simp

lemma arena_collect_inv:
  "collect retire reset_ok src m = (r, m') \<Longrightarrow> arena_inv m \<Longrightarrow> arena_inv m' \<and> r = Inr ()"
proof -
  assume c: "collect retire reset_ok src m = (r, m')" and inv: "arena_inv m"
  obtain p n m1 where d: "drain (released m) (m\<lparr>released := []\<rparr>) = (p, n, m1)" by (metis prod_cases3)
  have i1: "arena_inv m1" "p = []" using arena_drain_inv[OF d] inv by auto
  obtain r2 m2 where rp: "release_pooled_many retire reset_ok p m1 = (r2, m2)" by force
  have "r2 = Inr () \<and> (\<exists>s. m2 = m1\<lparr>stats := s\<rparr>)"
    using rp i1(2) by (auto simp: release_pooled_many_run st_simps)
  then show ?thesis using c i1(1) unfolding collect_def by (auto simp: d rp Let_def)
qed

section \<open>Allocation\<close>

lemma allocate_arena_run:
  "allocate_arena random len aid m =
   (case (case arena_region m of
            Some rid \<Rightarrow> (Inr (rid, False), m)
          | None \<Rightarrow> (case new_region random (arena_bytes m) m of
              (Inl e, m1) \<Rightarrow> (Inl e, m1)
            | (Inr rid, m1) \<Rightarrow> (Inr (rid, True), m1\<lparr>arena_region := Some rid, arena_free := [(0, arena_bytes m1)],
                 stats := (stats m1)\<lparr>pool_misses := pool_misses (stats m1) + 1\<rparr>\<rparr>))) of
      (Inl e, m1) \<Rightarrow> (Inl e, m1)
    | (Inr (rid, created), m1) \<Rightarrow>
        (case arena_take (align len ARENA_ALIGNMENT) (arena_free m1) of
           None \<Rightarrow> (Inl (MemoryError ''Shared-memory arena exhausted''), m1)
         | Some (offset, fr) \<Rightarrow>
             (Inr \<lparr>sb_region = rid, sb_generation = g_generation (region_of rid m1), sb_allocation_id = aid,
                   sb_offset = offset, sb_byte_length = len, sb_arena = True\<rparr>,
              if created then m1\<lparr>arena_free := fr\<rparr>
              else m1\<lparr>arena_free := fr, stats := (stats m1)\<lparr>pool_hits := pool_hits (stats m1) + 1\<rparr>\<rparr>)))"
  unfolding allocate_arena_def
  by (auto simp: st_run bump_run Let_def split: option.splits sum.splits prod.splits)

lemma arena_create_inv:
  assumes inv: "arena_inv m" and none: "arena_region m = None"
    and n: "new_region random (arena_bytes m) m = (Inr rid, m1)"
  shows "arena_inv (m1\<lparr>arena_region := Some rid, arena_free := [(0, arena_bytes m1)], stats := s\<rparr>)"
    "active m1 = active m" "active_ids m1 = active_ids m" "arena_bytes m1 = arena_bytes m"
proof -
  have m1: "m1 = set_region rid \<lparr>g_generation = 1, g_byte_length = arena_bytes m, g_recipients = [],
      g_closed = False\<rparr> (m\<lparr>stats := stats m1\<rparr>)"
    using n by (auto simp: new_region_run set_region_def split: option.splits)
  show f: "active m1 = active m" "active_ids m1 = active_ids m" "arena_bytes m1 = arena_bytes m"
    by (subst m1, simp add: set_region_def)+
  have g: "arena_mode m1 = arena_mode m" "free_regions m1 = free_regions m" "cached_bytes m1 = cached_bytes m"
    "regions m1 rid = Some \<lparr>g_generation = 1, g_byte_length = arena_bytes m, g_recipients = [], g_closed = False\<rparr>"
    by (subst m1, simp add: set_region_def)+
  have "active_ids m = []" using inv none by (simp add: arena_inv_def)
  moreover have "tiles [(0, arena_bytes m)] [] (arena_bytes m)"
    using inv by (auto simp: tiles_def bytes_of_def arena_inv_def)
  ultimately show "arena_inv (m1\<lparr>arena_region := Some rid, arena_free := [(0, arena_bytes m1)], stats := s\<rparr>)"
    using inv by (simp add: arena_inv_def f g live_region_def region_of_def live_blocks_def)
qed

text \<open>Allocation either fails for want of a block of the rounded size, or adds a disjoint block.\<close>

lemma allocate_arena_inv:
  assumes inv: "arena_inv m" and pos: "0 < len"
  shows "allocate_arena random len aid m = (Inl e, m') \<Longrightarrow> arena_inv m'"
    "allocate_arena random len aid m = (Inr b, m') \<Longrightarrow> active m aid = None \<Longrightarrow>
     arena_inv (m'\<lparr>active := (active m')(aid \<mapsto> \<lparr>al_buffer = b, al_descriptor = d, al_alive = True\<rparr>),
                   active_ids := aid # active_ids m'\<rparr>) \<and>
     sb_generation b = g_generation (region_of (sb_region b) m')"
proof -
  have req: "0 < align len ARENA_ALIGNMENT"
    using align_bounds(1)[of ARENA_ALIGNMENT len] pos by (simp add: ARENA_ALIGNMENT_def)
  have main: "arena_inv (m2\<lparr>active := (active m2)(aid \<mapsto> \<lparr>al_buffer = b, al_descriptor = d, al_alive = True\<rparr>),
                   active_ids := aid # active_ids m2\<rparr>)"
    if i1: "arena_inv m1" and rid: "arena_region m1 = Some rid" and new: "active m1 aid = None"
      and take: "arena_take (align len ARENA_ALIGNMENT) (arena_free m1) = Some (offset, fr)"
      and m2: "m2 = m1\<lparr>arena_free := fr\<rparr>"
      and b: "b = \<lparr>sb_region = rid, sb_generation = g_generation (region_of rid m1), sb_allocation_id = aid,
                   sb_offset = offset, sb_byte_length = len, sb_arena = True\<rparr>" for m1 m2 rid offset fr b
  proof -
    have t: "tiles (arena_free m1) (live_blocks m1) (arena_bytes m1)" using i1 rid by (simp add: arena_inv_def)
    note T = tiles_allocate[OF t take req]
    have aid: "aid \<notin> set (active_ids m1)" using i1 new by (auto simp: arena_inv_def)
    define m3 where "m3 = m2\<lparr>active := (active m2)(aid \<mapsto> \<lparr>al_buffer = b, al_descriptor = d, al_alive = True\<rparr>),
                   active_ids := aid # active_ids m2\<rparr>"
    have fields: "active_ids m3 = aid # active_ids m1" "active m3 = (active m1)(aid \<mapsto>
        \<lparr>al_buffer = b, al_descriptor = d, al_alive = True\<rparr>)" "arena_free m3 = fr" "regions m3 = regions m1"
      "arena_region m3 = arena_region m1" "arena_mode m3 = arena_mode m1" "arena_bytes m3 = arena_bytes m1"
      "free_regions m3 = free_regions m1" "cached_bytes m3 = cached_bytes m1"
      by (simp_all add: m3_def m2)
    have buf: "buffer_of m3 i = (if i = aid then b else buffer_of m1 i)" for i
      by (simp add: buffer_of_def fields)
    have "map (\<lambda>i. block_of (if i = aid then b else buffer_of m1 i)) (active_ids m1) = live_blocks m1"
      using aid by (auto simp: live_blocks_def)
    then have lb: "live_blocks m3 = (offset, align len ARENA_ALIGNMENT) # live_blocks m1"
      by (simp add: live_blocks_def[of m3] buf fields) (simp add: block_of_def b)
    have hd: "arena_handle m3 = arena_handle m1"
      by (simp add: fun_eq_iff arena_handle_def region_of_def fields)
    have "arena_handle m1 b" using rid pos by (simp add: arena_handle_def b)
    then have "arena_inv m3"
      using i1 rid aid T(1) unfolding arena_inv_def lb hd buf fields
      by (auto simp: live_region_def region_of_def fields b)
    then show ?thesis by (simp only: m3_def)
  qed
  show "allocate_arena random len aid m = (Inl e, m') \<Longrightarrow> arena_inv m'"
  proof -
    assume f: "allocate_arena random len aid m = (Inl e, m')"
    show "arena_inv m'"
    proof (cases "arena_region m")
      case (Some rid)
      then show ?thesis using f inv by (auto simp: allocate_arena_run split: option.splits)
    next
      case None
      obtain r0 m0 where n: "new_region random (arena_bytes m) m = (r0, m0)" by force
      show ?thesis
      proof (cases r0)
        case (Inl e0)
        then have "m' = m0" "m0 = m"
          using f n None by (auto simp: allocate_arena_run new_region_run split: option.splits)
        then show ?thesis using inv by simp
      next
        case (Inr rid)
        then show ?thesis
          using f n None arena_create_inv(1)[OF inv None, of random rid m0]
          by (auto simp: allocate_arena_run split: option.splits if_splits)
      qed
    qed
  qed
  assume a: "allocate_arena random len aid m = (Inr b, m')" and new: "active m aid = None"
  obtain rid created m1 offset fr where
      i1: "arena_inv m1" "arena_region m1 = Some rid" "active m1 aid = None"
    and take: "arena_take (align len ARENA_ALIGNMENT) (arena_free m1) = Some (offset, fr)"
    and b: "b = \<lparr>sb_region = rid, sb_generation = g_generation (region_of rid m1), sb_allocation_id = aid,
                   sb_offset = offset, sb_byte_length = len, sb_arena = True\<rparr>"
    and m': "\<exists>s. m' = m1\<lparr>arena_free := fr, stats := s\<rparr>"
  proof (cases "arena_region m")
    case (Some rid)
    then obtain offset fr where
      "arena_take (align len ARENA_ALIGNMENT) (arena_free m) = Some (offset, fr)"
      "b = \<lparr>sb_region = rid, sb_generation = g_generation (region_of rid m), sb_allocation_id = aid,
                   sb_offset = offset, sb_byte_length = len, sb_arena = True\<rparr>"
      "\<exists>s. m' = m\<lparr>arena_free := fr, stats := s\<rparr>"
      using a by (auto simp: allocate_arena_run split: option.splits)
    then show thesis using that[of m rid] Some inv new by blast
  next
    case None
    obtain rid m0 where n: "new_region random (arena_bytes m) m = (Inr rid, m0)"
      using a None by (auto simp: allocate_arena_run split: sum.splits prod.splits)
    define k where "k = m0\<lparr>arena_region := Some rid, arena_free := [(0, arena_bytes m0)],
                 stats := (stats m0)\<lparr>pool_misses := pool_misses (stats m0) + 1\<rparr>\<rparr>"
    have k: "arena_inv k" "arena_region k = Some rid" "active k aid = None"
      using arena_create_inv[OF inv None n] new by (simp_all add: k_def)
    have run: "allocate_arena random len aid m =
      (case arena_take (align len ARENA_ALIGNMENT) (arena_free k) of
           None \<Rightarrow> (Inl (MemoryError ''Shared-memory arena exhausted''), k)
         | Some (offset, fr) \<Rightarrow>
             (Inr \<lparr>sb_region = rid, sb_generation = g_generation (region_of rid k), sb_allocation_id = aid,
                   sb_offset = offset, sb_byte_length = len, sb_arena = True\<rparr>, k\<lparr>arena_free := fr\<rparr>))"
      by (simp only: allocate_arena_run None n option.case sum.case prod.case if_True k_def)
    obtain offset fr where
      o: "arena_take (align len ARENA_ALIGNMENT) (arena_free k) = Some (offset, fr)"
      "b = \<lparr>sb_region = rid, sb_generation = g_generation (region_of rid k), sb_allocation_id = aid,
                   sb_offset = offset, sb_byte_length = len, sb_arena = True\<rparr>"
      "m' = k\<lparr>arena_free := fr\<rparr>"
      using a unfolding run by (auto split: option.splits)
    have "\<exists>s. m' = k\<lparr>arena_free := fr, stats := s\<rparr>"
      by (rule exI[of _ "stats k"]) (simp add: o(3))
    with that[OF k o(1,2)] show thesis .
  qed
  obtain s where s: "m' = m1\<lparr>arena_free := fr, stats := s\<rparr>" using m' by blast
  let ?a = "\<lparr>al_buffer = b, al_descriptor = d, al_alive = True\<rparr>"
  let ?k = "(m1\<lparr>arena_free := fr\<rparr>)\<lparr>active := (active (m1\<lparr>arena_free := fr\<rparr>))(aid \<mapsto> ?a),
      active_ids := aid # active_ids (m1\<lparr>arena_free := fr\<rparr>)\<rparr>"
  have "m'\<lparr>active := (active m')(aid \<mapsto> ?a), active_ids := aid # active_ids m'\<rparr> = ?k\<lparr>stats := s\<rparr>"
    by (simp add: s)
  moreover have "arena_inv (?k\<lparr>stats := s\<rparr>)"
    using main[OF i1 take refl b] by (simp only: arena_inv_irrelevant)
  moreover have "sb_generation b = g_generation (region_of (sb_region b) m')"
    by (simp add: s b region_of_def)
  ultimately show "arena_inv (m'\<lparr>active := (active m')(aid \<mapsto> ?a), active_ids := aid # active_ids m'\<rparr>) \<and>
     sb_generation b = g_generation (region_of (sb_region b) m')"
    by (simp only: simp_thms)
qed

section \<open>The public operations\<close>

lemma arena_empty_inv:
  assumes e: "empty_tensor retire reset_ok ids random shape dtype m = (r, m')" and inv: "arena_inv m"
  shows "arena_inv m'"
proof (cases "map_of ITEM_SIZES dtype = None \<or> shape = [] \<or> list_ex (\<lambda>d. d \<le> 0) shape")
  case True
  then have "m' = m" using e by (auto simp: empty_tensor_def st_simps split: option.splits if_splits)
  then show ?thesis using inv by simp
next
  case False
  then obtain item_size where ok: "map_of ITEM_SIZES dtype = Some item_size" "shape \<noteq> []"
      "\<not> list_ex (\<lambda>d. d \<le> 0) shape" by auto
  obtain r1 m1 where c: "collect retire reset_ok FromAllocation m = (r1, m1)" by force
  have i1: "arena_inv m1" using arena_collect_inv[OF c inv] by simp
  define m2 where "m2 = m1\<lparr>stats := (stats m1)\<lparr>allocation_requests := allocation_requests (stats m1) + 1\<rparr>\<rparr>"
  have i2: "arena_inv m2" using i1 by (simp add: m2_def)
  have mode: "arena_mode m1" using i1 by (simp add: arena_inv_def)
  let ?len = "element_count shape * item_size"
  have pos: "0 < ?len"
    using map_of_ITEM_SIZES_pos[OF ok(1)] prod_list_pos[OF ok(3)] by (simp add: element_count_eq)
  note run = empty_tensor_run[OF ok c, of ids random, folded m2_def]
  show ?thesis
  proof (cases "fresh_id (\<lambda>i. active m1 i \<noteq> None) ids")
    case None
    then show ?thesis using e i1 i2 unfolding run by (auto split: sum.splits if_splits)
  next
    case (Some aid)
    obtain r3 m3 where a: "allocate_arena random ?len aid m2 = (r3, m3)" by force
    have new: "active m2 aid = None" using fresh_id_Some[OF Some] by (simp add: m2_def)
    show ?thesis
    proof (cases r3)
      case (Inl x)
      then have "arena_inv m3" using allocate_arena_inv(1)[OF i2 pos] a by blast
      then show ?thesis using e i1 mode Some a Inl unfolding run by (auto split: sum.splits if_splits)
    next
      case (Inr b)
      note A = allocate_arena_inv(2)[OF i2 pos a[unfolded Inr] new]
      then show ?thesis
        using e i1 mode Some a Inr unfolding run by (auto simp: Let_def split: sum.splits if_splits)
    qed
  qed
qed

lemma arena_close_inv:
  assumes c: "close_manager retire reset_ok m = (r, m')" and inv: "arena_inv m"
  shows "arena_inv m'"
proof -
  obtain r1 m1 where col: "collect retire reset_ok Explicit (m\<lparr>m_closed := True\<rparr>) = (r1, m1)" by force
  have i1: "arena_inv m1" "r1 = Inr ()"
    using arena_collect_inv[OF col] inv by simp_all
  have free: "free_regions m1 = []" "cached_bytes m1 = 0" using i1(1) by (simp_all add: arena_inv_def)
  have same: "m1\<lparr>free_regions := [], cached_bytes := 0\<rparr> = m1" using free by simp
  have m': "m' = (case arena_region m1 of
      Some rid \<Rightarrow> if active_ids m1 = [] then (region_close rid m1)\<lparr>arena_region := None\<rparr> else m1
    | None \<Rightarrow> m1)"
    using c col i1(2) free
    by (cases "arena_region m1"; cases "active_ids m1 = []")
       (simp_all add: close_manager_def sbind_run st_simps same)
  have "arena_inv ((region_close rid m1)\<lparr>arena_region := None\<rparr>)" if "active_ids m1 = []" for rid
    using i1(1) that by (auto simp: arena_inv_def region_close_def set_region_def)
  then show ?thesis using i1(1) m' by (auto split: option.splits)
qed

lemma arena_register_inv:
  "register_recipient rec (al_buffer a) m = (r, m') \<Longrightarrow> arena_inv m \<Longrightarrow> active m aid = Some a \<Longrightarrow> m' = m"
  using arena_handle_of[of m aid a]
  by (auto simp: register_recipient_def sbind_run ensure_current_run st_simps arena_handle_def split: if_splits)

lemma arena_step_inv: "pool_step m m' \<Longrightarrow> arena_inv m \<Longrightarrow> arena_inv m'"
proof (induction rule: pool_step.induct)
  case (p_register m aid a rec r m')
  then show ?case using arena_register_inv by blast
qed (auto intro: arena_empty_inv arena_close_inv dest: arena_collect_inv simp: storage_released_def)

inductive arena_reachable :: "Manager \<Rightarrow> bool" where
  a_start: "new_manager ''arena'' arena n b = Inr m \<Longrightarrow> arena_reachable m"
| a_step: "arena_reachable m \<Longrightarrow> pool_step m m' \<Longrightarrow> arena_reachable m'"

lemma arena_reachable_inv: "arena_reachable m \<Longrightarrow> arena_inv m"
  by (induction rule: arena_reachable.induct) (auto intro: new_manager_arena_inv arena_step_inv)

section \<open>What a reachable arena guarantees\<close>

lemma apart_map_disjoint:
  "apart (map f xs) \<Longrightarrow> x \<in> set xs \<Longrightarrow> y \<in> set xs \<Longrightarrow> x \<noteq> y \<Longrightarrow> bytes_of (f x) \<inter> bytes_of (f y) = {}"
  by (induction xs) (auto simp: covered_def)

lemma arena_allocations_disjoint:
  assumes "arena_reachable m" "active m i = Some a" "active m j = Some b" "i \<noteq> j"
  shows "bytes_of (block_of (al_buffer a)) \<inter> bytes_of (block_of (al_buffer b)) = {}"
    "bytes_of (block_of (al_buffer a)) \<inter> covered (arena_free m) = {}"
    "0 \<le> sb_offset (al_buffer a)" "sb_offset (al_buffer a) + sb_byte_length (al_buffer a) \<le> arena_bytes m"
proof -
  have inv: "arena_inv m" by (rule arena_reachable_inv[OF assms(1)])
  note A = arena_handle_of[OF inv assms(2)] and B = arena_handle_of[OF inv assms(3)]
  have t: "tiles (arena_free m) (live_blocks m) (arena_bytes m)"
    using inv A by (auto simp: arena_inv_def arena_handle_def)
  have bo: "buffer_of m i = al_buffer a" "buffer_of m j = al_buffer b"
    by (simp_all add: buffer_of_def assms(2,3))
  have mem: "block_of (al_buffer a) \<in> set (live_blocks m)"
    using A bo by (force simp: live_blocks_def)
  show "bytes_of (block_of (al_buffer a)) \<inter> bytes_of (block_of (al_buffer b)) = {}"
    using apart_map_disjoint[of "\<lambda>i. block_of (buffer_of m i)" "active_ids m" i j] t A B bo assms(4)
    by (simp add: tiles_def live_blocks_def)
  have "bytes_of (block_of (al_buffer a)) \<subseteq> covered (live_blocks m)" using mem by (auto simp: covered_def)
  then show "bytes_of (block_of (al_buffer a)) \<inter> covered (arena_free m) = {}"
    using t by (auto simp: tiles_def)
  have "0 < snd (block_of (al_buffer a))" using A block_nonempty by (simp add: arena_handle_def)
  note O = block_offset[OF t mem this]
  show "0 \<le> sb_offset (al_buffer a)" using O(1) by (simp add: block_of_def)
  show "sb_offset (al_buffer a) + sb_byte_length (al_buffer a) \<le> arena_bytes m"
    using O(2) align_bounds(1)[of ARENA_ALIGNMENT "sb_byte_length (al_buffer a)"]
    by (simp add: block_of_def ARENA_ALIGNMENT_def)
qed

text \<open>When nothing is live the whole arena is one free block again.\<close>

lemma arena_drained:
  assumes "arena_reachable m" "active_ids m = []" "arena_region m = Some rid"
  shows "arena_free m = [(0, arena_bytes m)]"
proof -
  have inv: "arena_inv m" by (rule arena_reachable_inv[OF assms(1)])
  then have "tiles (arena_free m) [] (arena_bytes m)" "0 < arena_bytes m"
    using assms(2,3) by (auto simp: arena_inv_def live_blocks_def)
  then show ?thesis
    by (intro gapped_whole) (auto simp: tiles_def)
qed

text \<open>Exhaustion is genuine: no free block is long enough.\<close>

lemma arena_exhausted:
  assumes "arena_region m = Some rid"
  shows "allocate_arena random len aid m = (Inl (MemoryError ''Shared-memory arena exhausted''), m) \<longleftrightarrow>
    (\<forall>b \<in> set (arena_free m). snd b < align len ARENA_ALIGNMENT)"
  using arena_take_None[of "align len ARENA_ALIGNMENT" "arena_free m"] assms
  by (auto simp: allocate_arena_run split: option.splits)

end
