(* ===== verification/Buffer_Views.thy ===== *)
theory Buffer_Views
  imports Buffer_Arena
begin

text \<open>
  What the holders of views rely on: a descriptor the manager makes for a view addresses only
  memory of its allocation.
\<close>

text \<open>An address is a region and an offset in it.\<close>

definition extent :: "SharedBuffer \<Rightarrow> (int \<times> int) set" where
  "extent b = {sb_region b} \<times> {sb_offset b..<sb_offset b + sb_byte_length b}"

section \<open>Views\<close>

text \<open>The byte offset of an element, relative to the first element of the view.\<close>

definition element_offset :: "int list \<Rightarrow> int list \<Rightarrow> int" where
  "element_offset strides idx = sum_list (map (\<lambda>(i, s). i * s) (zip idx strides))"

definition index_in :: "int list \<Rightarrow> int list \<Rightarrow> bool" where
  "index_in shape idx \<longleftrightarrow> list_all2 (\<lambda>i d. 0 \<le> i \<and> i < d) idx shape"

lemma element_offset_bounds:
  assumes "index_in shape idx" "length strides = length shape" "list_all (\<lambda>s. 0 \<le> s) strides"
  shows "0 \<le> element_offset strides idx"
    "element_offset strides idx \<le> sum_list (map (\<lambda>(d, s). (d - 1) * s) (zip shape strides))"
proof -
  have "list_all2 (\<lambda>i d. 0 \<le> i \<and> i < d) idx shape \<Longrightarrow> length strides = length shape \<Longrightarrow>
    list_all (\<lambda>s. 0 \<le> s) strides \<Longrightarrow> 0 \<le> element_offset strides idx \<and>
    element_offset strides idx \<le> sum_list (map (\<lambda>(d, s). (d - 1) * s) (zip shape strides))"
  proof (induction idx shape arbitrary: strides rule: list_all2_induct)
    case (Cons i js d ds)
    then obtain s ss where s: "strides = s # ss" by (cases strides) auto
    have "i * s \<le> (d - 1) * s" "0 \<le> i * s"
      using Cons.hyps Cons.prems s by (auto intro: mult_right_mono)
    moreover have "0 \<le> element_offset ss js"
      "element_offset ss js \<le> sum_list (map (\<lambda>(d, s). (d - 1) * s) (zip ds ss))"
      using Cons.IH[of ss] Cons.prems s by auto
    ultimately show ?case by (simp add: element_offset_def s)
  qed (simp add: element_offset_def)
  with assms show "0 \<le> element_offset strides idx"
    "element_offset strides idx \<le> sum_list (map (\<lambda>(d, s). (d - 1) * s) (zip shape strides))"
    by (auto simp: index_in_def)
qed

lemma index_in_nonempty: "index_in shape idx \<Longrightarrow> prod_list shape \<noteq> 0"
  unfolding index_in_def by (induction rule: list_all2_induct) auto

text \<open>Every element of a view lies inside the view's byte range.\<close>

lemma view_covers_elements:
  assumes "index_in shape idx" "length strides = length shape" "list_all (\<lambda>s. 0 \<le> s) strides"
  shows "0 \<le> element_offset strides idx"
    "element_offset strides idx + item \<le> view_byte_length item shape strides"
  using element_offset_bounds[OF assms] index_in_nonempty[OF assms(1)]
  by (auto simp: view_byte_length_def)

lemma managed_Some:
  assumes "managed v m = Inr (Some (d, b))"
  obtains aid a where "v_lease v = Some aid" "active m aid = Some a" "b = al_buffer a"
    "d_buffer_id d = sb_region b" "d_generation d = sb_generation b" "d_shape d = v_shape v"
    "d_strides d = map (\<lambda>s. s * v_item_size v) (v_strides v)" "list_all (\<lambda>s. 0 \<le> s) (v_strides v)"
    "d_byte_length d = view_byte_length (v_item_size v) (d_shape d) (d_strides d)"
    "sb_offset b \<le> d_offset d" "d_offset d + d_byte_length d \<le> sb_offset b + sb_byte_length b"
  using assms
  by (auto simp: managed_def Let_def list_ex_iff list_all_iff not_less split: if_splits option.splits)

lemma managed_element_inside:
  assumes m: "managed v m = Inr (Some (d, b))" and item: "0 < v_item_size v"
    and rank: "length (v_strides v) = length (v_shape v)" and idx: "index_in (d_shape d) idx"
    and k: "0 \<le> k" "k < v_item_size v"
  shows "(sb_region b, d_offset d + element_offset (d_strides d) idx + k) \<in> extent b"
proof -
  have f: "d_shape d = v_shape v" "d_strides d = map (\<lambda>s. s * v_item_size v) (v_strides v)"
    "list_all (\<lambda>s. 0 \<le> s) (v_strides v)"
    "d_byte_length d = view_byte_length (v_item_size v) (d_shape d) (d_strides d)"
    "sb_offset b \<le> d_offset d" "d_offset d + d_byte_length d \<le> sb_offset b + sb_byte_length b"
    using m by (auto elim!: managed_Some)
  have "list_all (\<lambda>s. 0 \<le> s) (d_strides d)" "length (d_strides d) = length (d_shape d)"
    using f item rank by (auto simp: list_all_iff)
  note V = view_covers_elements(1)[OF idx this(2,1)]
    view_covers_elements(2)[OF idx this(2,1), of "v_item_size v"]
  then show ?thesis using f(4-6) k by (auto simp: extent_def)
qed

text \<open>A new tensor's descriptor: contiguous, and the byte length is that of its elements.\<close>

lemma row_major_last:
  "list_all (\<lambda>d. 0 < d) shape \<Longrightarrow> shape \<noteq> [] \<Longrightarrow>
   1 + sum_list (map (\<lambda>(d, s). (d - 1) * s) (zip shape (row_major shape))) = prod_list shape"
proof (induction shape rule: row_major.induct)
  case (3 d d2 ds)
  then have "1 + sum_list (map (\<lambda>(d, s). (d - 1) * s) (zip (d2 # ds) (row_major (d2 # ds)))) = prod_list (d2 # ds)"
    by simp
  then show ?case by (simp add: left_diff_distrib)
qed simp_all

lemma contiguous_view_length:
  assumes "list_all (\<lambda>d. 0 < d) shape" "shape \<noteq> []"
  shows "view_byte_length item shape (map (\<lambda>s. s * item) (contiguous_strides shape))
    = element_count shape * item"
proof -
  have scale: "sum_list (map (\<lambda>(d, s). (d - 1) * s) (zip xs (map (\<lambda>s. s * item) ys)))
      = sum_list (map (\<lambda>(d, s). (d - 1) * s) (zip xs ys)) * item" for xs ys
    by (induction xs ys rule: list_induct2') (auto simp: algebra_simps)
  let ?x = "sum_list (map (\<lambda>(d, s). (d - 1) * s) (zip shape (row_major shape)))"
  have "prod_list shape \<noteq> 0" using assms(1) by (induction shape) auto
  then have "view_byte_length item shape (map (\<lambda>s. s * item) (contiguous_strides shape)) = item + ?x * item"
    by (simp only: view_byte_length_def scale contiguous_strides_row_major if_False)
  also have "\<dots> = (1 + ?x) * item" by (simp only: distrib_right mult_1)
  finally show ?thesis
    unfolding row_major_last[OF assms] element_count_eq .
qed

section \<open>The cache, read off the dictionary\<close>

lemma map_snd_flat: "map snd (flat fr) = concat (map snd fr)"
  by (induction fr) (auto simp: o_def)

lemma sum_fst_flat: "sum_list (map fst (flat fr)) = sum_list (map (\<lambda>(len, rids). int (length rids) * len) fr)"
  by (induction fr) (auto simp: o_def sum_list_triv)

end
