(* ===== verification/Buffer_Access.thy ===== *)
theory Buffer_Access
  imports Buffer_Views
begin

text \<open>
  Access reservations, the readers-writer part of \<open>BufferManager\<close> in
  \<open>packages/wmfs/wmfs/memory/buffers.py\<close>: a reservation names the allocations it reads and
  writes, waits in a queue until all of them are free, and is granted as a whole. The model
  keeps the table of access states, the queue of waiters, the granted waiters (the leases) and the
  reservations whose thread is still waiting or holding its lease; each of them is an identity
  with its accesses. The steps are the critical sections under the
  manager's lock.

  \<open>_AccessWaiter\<close> is a dataclass, so \<open>deque.remove\<close> of an interrupted waiter takes out the first
  waiter whose accesses are equal, which may be that of another thread. A thread can therefore
  wait without an entry in the queue, and an entry or a lease can outlive its thread; the state
  names the threads beside the queue and the leases.
\<close>

type_synonym access_key = "int \<times> int \<times> int"
type_synonym accesses = "(access_key \<times> bool) list"

record AccessState =
  readers :: int
  writer :: bool

record Access =
  access_states :: "access_key \<rightharpoonup> AccessState"
  access_waiters :: "(nat \<times> accesses) list"
  leases :: "(nat \<times> accesses) list"
  access_threads :: "(nat \<times> accesses) list"
  access_closed :: bool

definition no_access :: Access where
  "no_access = \<lparr>access_states = Map.empty, access_waiters = [], leases = [], access_threads = [],
     access_closed = False\<rparr>"

section \<open>Keys\<close>

text \<open>\<open>_access_key\<close>: the tensor must still be the allocation its descriptor names.\<close>

definition access_key :: "Manager \<Rightarrow> TorchView \<times> TensorDescriptor \<Rightarrow> access_key result" where
  "access_key m = (\<lambda>(v, d).
     ebind (managed v m) (\<lambda>current.
     case current of
       None \<Rightarrow> Inl (RuntimeError ''Tensor access refers to a stale managed allocation'')
     | Some (c, _) \<Rightarrow>
         if d_buffer_id c \<noteq> d_buffer_id d \<or> d_generation c \<noteq> d_generation d
            \<or> d_allocation_id c \<noteq> d_allocation_id d
         then Inl (RuntimeError ''Tensor access refers to a stale managed allocation'')
         else Inr (d_buffer_id d, d_generation d, d_allocation_id d)))"

text \<open>The dictionary of a reservation: a key that is read and written is written.\<close>

definition read_access :: "access_key \<Rightarrow> accesses \<Rightarrow> accesses" where
  "read_access k a = (if map_of a k = None then AList.update k False a else a)"

definition collect_accesses ::
  "Manager \<Rightarrow> (TorchView \<times> TensorDescriptor) list \<Rightarrow> (TorchView \<times> TensorDescriptor) list \<Rightarrow> accesses result" where
  "collect_accesses m reads writes =
     ebind (emap (access_key m) reads) (\<lambda>rs.
     ebind (emap (access_key m) writes) (\<lambda>ws.
     Inr (fold (\<lambda>k. AList.update k True) ws (fold read_access rs []))))"

section \<open>Granting and releasing\<close>

definition can_grant_access :: "(access_key \<rightharpoonup> AccessState) \<Rightarrow> accesses \<Rightarrow> bool" where
  "can_grant_access st a \<longleftrightarrow> list_all (\<lambda>(k, w).
     case st k of None \<Rightarrow> True | Some s \<Rightarrow> \<not> (writer s \<or> (w \<and> readers s \<noteq> 0))) a"

definition grant_one :: "access_key \<times> bool \<Rightarrow> (access_key \<rightharpoonup> AccessState) \<Rightarrow> (access_key \<rightharpoonup> AccessState)" where
  "grant_one = (\<lambda>(k, w) st.
     let s = (case st k of Some s \<Rightarrow> s | None \<Rightarrow> \<lparr>readers = 0, writer = False\<rparr>)
     in st(k \<mapsto> (if w then s\<lparr>writer := True\<rparr> else s\<lparr>readers := readers s + 1\<rparr>)))"

text \<open>The loop of \<open>_grant_access_waiters\<close>: a waiter is granted when none of its keys is wanted
  by an earlier waiter that stays, and all its accesses are free. The result is the waiters
  granted, those that stay and the new table.\<close>

fun grant_loop ::
  "(nat \<times> accesses) list \<Rightarrow> access_key set \<Rightarrow> (access_key \<rightharpoonup> AccessState)
   \<Rightarrow> (nat \<times> accesses) list \<times> (nat \<times> accesses) list \<times> (access_key \<rightharpoonup> AccessState)" where
  "grant_loop [] blocked st = ([], [], st)"
| "grant_loop ((i, a) # ws) blocked st =
     (if blocked \<inter> fst ` set a = {} \<and> can_grant_access st a
      then (let (g, r, st') = grant_loop ws blocked (fold grant_one a st) in ((i, a) # g, r, st'))
      else (let (g, r, st') = grant_loop ws (blocked \<union> fst ` set a) st in (g, (i, a) # r, st')))"

definition grant_access_waiters :: "Access \<Rightarrow> Access" where
  "grant_access_waiters s =
     (if access_closed s then s
      else let (g, r, st) = grant_loop (access_waiters s) {} (access_states s)
           in s\<lparr>access_states := st, access_waiters := r, leases := leases s @ g\<rparr>)"

fun release_locked :: "accesses \<Rightarrow> (access_key \<rightharpoonup> AccessState) \<Rightarrow> (access_key \<rightharpoonup> AccessState) result" where
  "release_locked [] st = Inr st"
| "release_locked ((k, w) # a) st =
     (case st k of
        None \<Rightarrow> Inl (KeyError ''access state'')
      | Some s \<Rightarrow>
          let s' = (if w then s\<lparr>writer := False\<rparr> else s\<lparr>readers := readers s - 1\<rparr>)
          in release_locked a (if \<not> writer s' \<and> readers s' = 0 then st(k := None) else st(k \<mapsto> s')))"

section \<open>The operations\<close>

text \<open>\<open>reserve_access\<close> up to its first wait, with the keys of \<open>collect_accesses\<close>: \<open>None\<close> is the empty lease, \<open>Some b\<close> tells whether the
  reservation was granted at once.\<close>

definition reserve_access :: "nat \<Rightarrow> accesses result \<Rightarrow> (Access, bool option) st" where
  "reserve_access i keys =
     sbind sget (\<lambda>s.
     if access_closed s then sraise (RuntimeError ''Buffer manager is closed'')
     else
     sbind (slift keys) (\<lambda>a.
     if a = [] then sret None
     else
     sbind (smod (\<lambda>s. grant_access_waiters (s\<lparr>access_waiters := access_waiters s @ [(i, a)],
       access_threads := access_threads s @ [(i, a)]\<rparr>))) (\<lambda>_.
     sbind sget (\<lambda>s. sret (Some ((i, a) \<in> set (leases s)))))))"

text \<open>\<open>deque.remove\<close>: the first waiter with an equal dictionary, or a \<open>ValueError\<close> (\<open>None\<close>).\<close>

fun remove_equal :: "accesses \<Rightarrow> (nat \<times> accesses) list \<Rightarrow> (nat \<times> accesses) list option" where
  "remove_equal a [] = None"
| "remove_equal a ((i, b) # ws) =
     (if set b = set a then Some ws else map_option ((#) (i, b)) (remove_equal a ws))"

text \<open>The handler of \<open>reserve_access\<close> for a waiter that was not granted: its thread leaves, and
  a missing waiter raises before anything is granted.\<close>

definition abandon_access :: "nat \<times> accesses \<Rightarrow> (Access, unit) st" where
  "abandon_access w =
     sbind (smod (\<lambda>s. s\<lparr>access_threads := remove1 w (access_threads s)\<rparr>)) (\<lambda>_.
     sbind sget (\<lambda>s.
     case remove_equal (snd w) (access_waiters s) of
       None \<Rightarrow> sraise (ValueError ''deque.remove(x): x not in deque'')
     | Some ws \<Rightarrow> smod (\<lambda>s. grant_access_waiters (s\<lparr>access_waiters := ws\<rparr>))))"

text \<open>A thread that is woken: granted meanwhile, refused because the manager closed, or back
  to waiting.\<close>

definition wake_waiter :: "nat \<times> accesses \<Rightarrow> (Access, bool) st" where
  "wake_waiter w =
     sbind sget (\<lambda>s.
     if w \<in> set (leases s) then sret True
     else if access_closed s
     then sbind (abandon_access w) (\<lambda>_. sraise (RuntimeError ''Buffer manager is closed''))
     else sbind (smod grant_access_waiters) (\<lambda>_. sbind sget (\<lambda>s. sret (w \<in> set (leases s)))))"

text \<open>\<open>_release_access\<close>, of a lease or of a waiter interrupted after it was granted.\<close>

definition release_access :: "nat \<times> accesses \<Rightarrow> (Access, unit) st" where
  "release_access w =
     sbind sget (\<lambda>s.
     sbind (slift (release_locked (snd w) (access_states s))) (\<lambda>st.
     smod (\<lambda>s. grant_access_waiters (s\<lparr>access_states := st, leases := remove1 w (leases s),
       access_threads := remove1 w (access_threads s)\<rparr>))))"

text \<open>The steps of the threads; every waiter that is interrupted is an \<open>abandon\<close>. In an
  \<open>orderly\<close> run only waiters that are the first of their kind in the queue are interrupted.\<close>

definition first_equal :: "nat \<times> accesses \<Rightarrow> (nat \<times> accesses) list \<Rightarrow> bool" where
  "first_equal w ws \<longleftrightarrow> find (\<lambda>v. set (snd v) = set (snd w)) ws = Some w"

inductive access_step :: "bool \<Rightarrow> Access \<Rightarrow> Access \<Rightarrow> bool" for orderly where
  reserve: "i \<notin> fst ` set (access_threads s) \<union> fst ` set (access_waiters s) \<union> fst ` set (leases s) \<Longrightarrow>
    reserve_access i (collect_accesses m reads writes) s = (r, s') \<Longrightarrow> access_step orderly s s'"
| wake: "w \<in> set (access_threads s) \<Longrightarrow> wake_waiter w s = (r, s') \<Longrightarrow> access_step orderly s s'"
| release: "w \<in> set (access_threads s) \<Longrightarrow> w \<in> set (leases s) \<Longrightarrow> release_access w s = (r, s') \<Longrightarrow>
    access_step orderly s s'"
| abandon: "w \<in> set (access_threads s) \<Longrightarrow> w \<notin> set (leases s) \<Longrightarrow>
    (orderly \<Longrightarrow> first_equal w (access_waiters s)) \<Longrightarrow> abandon_access w s = (r', s') \<Longrightarrow>
    access_step orderly s s'"
| shut: "access_step orderly s (s\<lparr>access_closed := True\<rparr>)"

inductive access_reachable :: "bool \<Rightarrow> Access \<Rightarrow> bool" for orderly where
  init: "access_reachable orderly no_access"
| step: "access_reachable orderly s \<Longrightarrow> access_step orderly s s' \<Longrightarrow> access_reachable orderly s'"

section \<open>The table reflects the leases\<close>

definition reading :: "access_key \<Rightarrow> (nat \<times> accesses) list \<Rightarrow> int" where
  "reading k ls = int (length (filter (\<lambda>l. map_of (snd l) k = Some False) ls))"

definition writing :: "access_key \<Rightarrow> (nat \<times> accesses) list \<Rightarrow> int" where
  "writing k ls = int (length (filter (\<lambda>l. map_of (snd l) k = Some True) ls))"

definition entry :: "int \<Rightarrow> int \<Rightarrow> AccessState option" where
  "entry r w = (if r = 0 \<and> w = 0 then None else Some \<lparr>readers = r, writer = (w \<noteq> 0)\<rparr>)"

definition table_of :: "(nat \<times> accesses) list \<Rightarrow> access_key \<rightharpoonup> AccessState" where
  "table_of ls k = entry (reading k ls) (writing k ls)"

definition exclusive :: "(nat \<times> accesses) list \<Rightarrow> bool" where
  "exclusive ls \<longleftrightarrow> (\<forall>k. writing k ls \<le> 1 \<and> (writing k ls = 0 \<or> reading k ls = 0))"

definition keyed :: "(nat \<times> accesses) list \<Rightarrow> bool" where
  "keyed ls \<longleftrightarrow> (\<forall>l \<in> set ls. distinct (map fst (snd l)))"

definition access_inv :: "Access \<Rightarrow> bool" where
  "access_inv s \<longleftrightarrow> access_states s = table_of (leases s) \<and> exclusive (leases s) \<and>
     keyed (leases s) \<and> keyed (access_waiters s) \<and>
     distinct (map fst (leases s @ access_waiters s)) \<and> distinct (map fst (access_threads s))"

lemma counts_simps [simp]:
  "reading k [] = 0" "writing k [] = 0"
  "reading k (l # ls) = (if map_of (snd l) k = Some False then 1 else 0) + reading k ls"
  "writing k (l # ls) = (if map_of (snd l) k = Some True then 1 else 0) + writing k ls"
  "reading k (xs @ ys) = reading k xs + reading k ys"
  "writing k (xs @ ys) = writing k xs + writing k ys"
  "0 \<le> reading k ls" "0 \<le> writing k ls"
  by (simp_all add: reading_def writing_def)

lemma counts_succ [simp]: "reading k ls + 1 \<noteq> 0" "writing k ls + 1 \<noteq> 0"
  by (simp_all add: reading_def writing_def)

lemma counts_remove1:
  assumes "l \<in> set ls"
  shows "reading k (remove1 l ls) = reading k ls - (if map_of (snd l) k = Some False then 1 else 0)"
    "writing k (remove1 l ls) = writing k ls - (if map_of (snd l) k = Some True then 1 else 0)"
  using assms by (induction ls) auto

lemma counts_positive:
  assumes "l \<in> set ls"
  shows "map_of (snd l) k = Some False \<Longrightarrow> 0 < reading k ls" "map_of (snd l) k = Some True \<Longrightarrow> 0 < writing k ls"
  using assms by (induction ls) (auto simp: add_pos_nonneg add_nonneg_pos)

text \<open>Granting one reservation, pointwise.\<close>

lemma fold_grant_one:
  "distinct (map fst a) \<Longrightarrow> fold grant_one a st k =
     (case map_of a k of None \<Rightarrow> st k | Some w \<Rightarrow> grant_one (k, w) st k)"
proof (induction a arbitrary: st)
  case (Cons kw a)
  obtain k1 w1 where kw: "kw = (k1, w1)" by (metis surj_pair)
  have new: "map_of a k1 = None" using Cons.prems kw by (simp add: map_of_eq_None_iff)
  have other: "grant_one (k1, w1) st k = st k" "grant_one (k, w) (grant_one (k1, w1) st) k = grant_one (k, w) st k"
    if "k \<noteq> k1" for w
    using that by (simp_all add: grant_one_def Let_def)
  show ?case
    using Cons.IH[of "grant_one kw st"] Cons.prems other kw new
    by (cases "k = k1"; cases "map_of a k") auto
qed simp

lemma grant_table:
  assumes "distinct (map fst a)"
  shows "fold grant_one a (table_of ls) = table_of (ls @ [(i, a)])"
proof
  fix k
  have p: "0 \<le> reading k ls" "0 \<le> writing k ls" by simp_all
  show "fold grant_one a (table_of ls) k = table_of (ls @ [(i, a)]) k"
    unfolding fold_grant_one[OF assms]
    using p by (cases "map_of a k") (auto simp: table_of_def entry_def grant_one_def Let_def)
qed

lemma grant_exclusive:
  assumes "can_grant_access (table_of ls) a" "exclusive ls" "distinct (map fst a)"
  shows "exclusive (ls @ [(i, a)])"
  unfolding exclusive_def
proof (rule allI)
  fix k
  have e: "writing k ls \<le> 1" "writing k ls = 0 \<or> reading k ls = 0" using assms(2) unfolding exclusive_def by blast+
  have p: "0 \<le> reading k ls" "0 \<le> writing k ls" by simp_all
  show "writing k (ls @ [(i, a)]) \<le> 1 \<and> (writing k (ls @ [(i, a)]) = 0 \<or> reading k (ls @ [(i, a)]) = 0)"
  proof (cases "map_of a k")
    case (Some w)
    then have "(k, w) \<in> set a" by (rule map_of_SomeD)
    then have "case table_of ls k of None \<Rightarrow> True | Some s \<Rightarrow> \<not> (writer s \<or> (w \<and> readers s \<noteq> 0))"
      using assms(1) unfolding can_grant_access_def list_all_iff by fastforce
    then have "writing k ls = 0" "w \<longrightarrow> reading k ls = 0"
      by (auto simp: table_of_def entry_def split: if_splits)
    then show ?thesis using Some by (cases w) auto
  qed (use e in simp)
qed

text \<open>The whole grant loop.\<close>

lemma grant_loop_inv:
  "grant_loop ws blocked (table_of ls) = (g, r, st) \<Longrightarrow> exclusive ls \<Longrightarrow> keyed ls \<Longrightarrow> keyed ws \<Longrightarrow>
   st = table_of (ls @ g) \<and> exclusive (ls @ g) \<and> keyed (ls @ g) \<and> mset ws = mset g + mset r"
proof (induction ws arbitrary: ls blocked g r st)
  case (Cons w ws)
  obtain i a where w: "w = (i, a)" by (metis surj_pair)
  have a: "distinct (map fst a)" using Cons.prems(4) by (simp add: w keyed_def)
  show ?case
  proof (cases "blocked \<inter> fst ` set a = {} \<and> can_grant_access (table_of ls) a")
    case True
    obtain g' r1 st1 where c: "grant_loop ws blocked (table_of (ls @ [(i, a)])) = (g', r1, st1)"
      by (metis prod_cases3)
    have "(i, a) # g' = g \<and> r1 = r \<and> st1 = st"
      using Cons.prems(1) by (simp only: w grant_loop.simps if_P[OF True] grant_table[OF a, of ls i] c Let_def prod.case prod.inject)
    then have g': "grant_loop ws blocked (table_of (ls @ [(i, a)])) = (g', r, st)" "g = (i, a) # g'" using c by auto
    have "exclusive (ls @ [(i, a)])" using grant_exclusive[OF _ Cons.prems(2) a] True by blast
    moreover have "keyed (ls @ [(i, a)])" using Cons.prems(3) a by (auto simp: keyed_def)
    ultimately show ?thesis using Cons.IH[OF g'(1)] Cons.prems(4) g'(2) w by (auto simp: keyed_def)
  next
    case False
    obtain g1 r1 st1 where c: "grant_loop ws (blocked \<union> fst ` set a) (table_of ls) = (g1, r1, st1)"
      by (metis prod_cases3)
    have eq: "g1 = g" "(i, a) # r1 = r" "st1 = st"
      using Cons.prems(1) by (simp_all only: w grant_loop.simps if_not_P[OF False] c Let_def prod.case prod.inject)
    have "keyed ws" using Cons.prems(4) by (simp add: keyed_def)
    from Cons.IH[OF c Cons.prems(2,3) this] show ?thesis using eq w by auto
  qed
qed auto

lemma grant_access_waiters_inv:
  assumes "access_inv s"
  shows "access_inv (grant_access_waiters s)"
proof (cases "access_closed s")
  case False
  obtain g r st where g: "grant_loop (access_waiters s) {} (access_states s) = (g, r, st)" by (metis prod_cases3)
  have i: "access_states s = table_of (leases s)" "exclusive (leases s)" "keyed (leases s)" "keyed (access_waiters s)"
    "distinct (map fst (leases s @ access_waiters s))" "distinct (map fst (access_threads s))"
    using assms by (auto simp: access_inv_def)
  note G = grant_loop_inv[OF g[unfolded i(1)] i(2-4)]
  have ms: "mset (access_waiters s) = mset g + mset r" using G by blast
  then have "set r \<subseteq> set (access_waiters s)" by (metis mset_subset_eq_add_right set_mset_mono set_mset_mset)
  then have "keyed r" using i(4) by (auto simp: keyed_def)
  moreover have "mset (map fst (leases s @ access_waiters s)) = mset (map fst ((leases s @ g) @ r))"
    using ms by simp
  then have "distinct (map fst ((leases s @ g) @ r))" using i(5) by (metis mset_eq_imp_distinct_iff)
  ultimately show ?thesis
    using G False g i(6) by (simp add: access_inv_def grant_access_waiters_def)
qed (use assms in \<open>simp add: grant_access_waiters_def\<close>)

text \<open>Releasing a held lease never fails and takes its accesses out of the table.\<close>

definition released_entry :: "bool \<Rightarrow> AccessState \<Rightarrow> AccessState option" where
  "released_entry w s = (let s' = (if w then s\<lparr>writer := False\<rparr> else s\<lparr>readers := readers s - 1\<rparr>)
     in if \<not> writer s' \<and> readers s' = 0 then None else Some s')"

lemma release_locked_run:
  "distinct (map fst a) \<Longrightarrow> (\<forall>k w. map_of a k = Some w \<longrightarrow> st k \<noteq> None) \<Longrightarrow>
   release_locked a st = Inr (\<lambda>k. case map_of a k of None \<Rightarrow> st k | Some w \<Rightarrow> released_entry w (the (st k)))"
proof (induction a arbitrary: st)
  case (Cons kw a)
  obtain k1 w1 where kw: "kw = (k1, w1)" by (metis surj_pair)
  have new: "map_of a k1 = None" using Cons.prems(1) kw by (simp add: map_of_eq_None_iff)
  have "st k1 \<noteq> None" using Cons.prems(2)[rule_format, of k1 w1] kw by simp
  then obtain s where s: "st k1 = Some s" by blast
  let ?st = "st(k1 := released_entry w1 s)"
  have step: "release_locked (kw # a) st = release_locked a ?st"
    by (simp add: kw s released_entry_def Let_def)
  have "\<forall>k w. map_of a k = Some w \<longrightarrow> ?st k \<noteq> None"
  proof (intro allI impI)
    fix k w assume m: "map_of a k = Some w"
    then have "k \<noteq> k1" using new by auto
    then show "?st k \<noteq> None" using Cons.prems(2)[rule_format, of k w] m kw by simp
  qed
  then have "release_locked a ?st = Inr (\<lambda>k. case map_of a k of None \<Rightarrow> ?st k | Some w \<Rightarrow> released_entry w (the (?st k)))"
    using Cons.IH Cons.prems(1) kw by simp
  also have "(\<lambda>k. case map_of a k of None \<Rightarrow> ?st k | Some w \<Rightarrow> released_entry w (the (?st k)))
    = (\<lambda>k. case map_of (kw # a) k of None \<Rightarrow> st k | Some w \<Rightarrow> released_entry w (the (st k)))"
    using new s by (auto simp: kw fun_eq_iff split: option.splits)
  finally show ?case unfolding step .
qed simp

lemma release_table:
  assumes "l \<in> set ls" "exclusive ls" "keyed ls"
  shows "release_locked (snd l) (table_of ls) = Inr (table_of (remove1 l ls))"
proof -
  have a: "distinct (map fst (snd l))" using assms(1,3) by (simp add: keyed_def)
  have e: "writing k ls \<le> 1" "writing k ls = 0 \<or> reading k ls = 0" for k
    using assms(2) unfolding exclusive_def by blast+
  have pos: "map_of (snd l) k = Some False \<Longrightarrow> 0 < reading k ls" "map_of (snd l) k = Some True \<Longrightarrow> 0 < writing k ls" for k
    using counts_positive[OF assms(1)] by blast+
  have some: "\<forall>k w. map_of (snd l) k = Some w \<longrightarrow> table_of ls k \<noteq> None"
  proof (intro allI impI)
    fix k w assume "map_of (snd l) k = Some w"
    then show "table_of ls k \<noteq> None" using pos[of k] by (cases w) (simp_all add: table_of_def entry_def)
  qed
  have "(case map_of (snd l) k of None \<Rightarrow> table_of ls k | Some w \<Rightarrow> released_entry w (the (table_of ls k)))
      = table_of (remove1 l ls) k" for k
  proof (cases "map_of (snd l) k")
    case (Some w)
    show ?thesis
    proof (cases w)
      case True
      then have "writing k ls = 1" "reading k ls = 0" using e[of k] pos(2)[of k] Some by auto
      then show ?thesis using Some True
        by (simp add: table_of_def entry_def released_entry_def counts_remove1[OF assms(1)])
    next
      case False
      then have "writing k ls = 0" "0 < reading k ls" using e[of k] pos(1)[of k] Some by auto
      then show ?thesis using Some False
        by (simp add: table_of_def entry_def released_entry_def counts_remove1[OF assms(1)])
    qed
  qed (simp add: table_of_def counts_remove1[OF assms(1)])
  then show ?thesis unfolding release_locked_run[OF a some] by presburger
qed

lemma exclusive_remove1:
  assumes "exclusive ls" "l \<in> set ls"
  shows "exclusive (remove1 l ls)"
  unfolding exclusive_def counts_remove1[OF assms(2)]
proof (rule allI)
  fix k
  have "writing k ls \<le> 1" "writing k ls = 0 \<or> reading k ls = 0"
    using assms(1) unfolding exclusive_def by blast+
  moreover have "map_of (snd l) k = Some False \<Longrightarrow> 0 < reading k ls" "map_of (snd l) k = Some True \<Longrightarrow> 0 < writing k ls"
    using counts_positive[OF assms(2)] by blast+
  ultimately show "writing k ls - (if map_of (snd l) k = Some True then 1 else 0) \<le> 1 \<and>
      (writing k ls - (if map_of (snd l) k = Some True then 1 else 0) = 0 \<or>
       reading k ls - (if map_of (snd l) k = Some False then 1 else 0) = 0)"
    by auto
qed

lemma collect_accesses_keyed:
  assumes "collect_accesses m reads writes = Inr a"
  shows "distinct (map fst a)"
proof -
  have r: "distinct (map fst a) \<Longrightarrow> distinct (map fst (fold read_access ks a))" for ks a
    by (induction ks arbitrary: a) (auto simp: read_access_def distinct_update)
  have w: "distinct (map fst a) \<Longrightarrow> distinct (map fst (fold (\<lambda>k. AList.update k True) ks a))"
    for ks and a :: accesses
    by (induction ks arbitrary: a) (auto simp: distinct_update)
  show ?thesis using assms r[of "[]"] w by (auto simp: collect_accesses_def err_simps)
qed

lemma remove_equal_find:
  "remove_equal a ws = map_option (\<lambda>w. remove1 w ws) (find (\<lambda>v. set (snd v) = set a) ws)"
proof (induction ws)
  case (Cons w ws)
  obtain i b where w: "w = (i, b)" by (metis surj_pair)
  show ?case
  proof (cases "set b = set a")
    case False
    have "v \<noteq> (i, b)" if "find (\<lambda>v. set (snd v) = set a) ws = Some v" for v
      using that False by (auto simp: find_Some_iff)
    then show ?thesis
      using False by (cases "find (\<lambda>v. set (snd v) = set a) ws") (simp_all add: w Cons.IH)
  qed (simp add: w)
qed simp

text \<open>What each step does to the state, before the final grant.\<close>

definition without_waiter :: "nat \<times> accesses \<Rightarrow> nat \<times> accesses \<Rightarrow> Access \<Rightarrow> Access" where
  "without_waiter w v s =
     s\<lparr>access_threads := remove1 w (access_threads s), access_waiters := remove1 v (access_waiters s)\<rparr>"

definition with_waiter :: "nat \<times> accesses \<Rightarrow> Access \<Rightarrow> Access" where
  "with_waiter w s =
     s\<lparr>access_waiters := access_waiters s @ [w], access_threads := access_threads s @ [w]\<rparr>"

definition without_lease :: "nat \<times> accesses \<Rightarrow> Access \<Rightarrow> Access" where
  "without_lease w s = s\<lparr>access_states := table_of (remove1 w (leases s)), leases := remove1 w (leases s),
     access_threads := remove1 w (access_threads s)\<rparr>"

lemma reserve_cases:
  assumes "reserve_access i (collect_accesses m reads writes) s = (r, s')"
  obtains (refused) "s' = s"
  | (queued) a where "distinct (map fst a)" "s' = grant_access_waiters (with_waiter (i, a) s)"
proof (cases "access_closed s \<or> (\<exists>e. collect_accesses m reads writes = Inl e) \<or> collect_accesses m reads writes = Inr []")
  case True
  then have "s' = s" using assms by (auto simp: reserve_access_def st_run split: if_splits)
  then show ?thesis by (rule refused)
next
  case False
  then obtain a where a: "collect_accesses m reads writes = Inr a" "a \<noteq> []"
    by (cases "collect_accesses m reads writes") auto
  then have "s' = grant_access_waiters (with_waiter (i, a) s)"
    using assms False by (simp add: reserve_access_def with_waiter_def st_run)
  then show ?thesis using collect_accesses_keyed[OF a(1)] by (rule queued[rotated])
qed

lemma abandon_run:
  "abandon_access w s = (case find (\<lambda>v. set (snd v) = set (snd w)) (access_waiters s) of
     None \<Rightarrow> (Inl (ValueError ''deque.remove(x): x not in deque''),
               s\<lparr>access_threads := remove1 w (access_threads s)\<rparr>)
   | Some v \<Rightarrow> (Inr (), grant_access_waiters (without_waiter w v s)))"
  by (simp add: abandon_access_def without_waiter_def st_run remove_equal_find split: option.split)

lemma abandon_cases:
  assumes "abandon_access w s = (r, s')"
  obtains (missing) "find (\<lambda>v. set (snd v) = set (snd w)) (access_waiters s) = None"
      "s' = s\<lparr>access_threads := remove1 w (access_threads s)\<rparr>" "\<exists>e. r = Inl (ValueError e)"
  | (dropped) v where "find (\<lambda>v. set (snd v) = set (snd w)) (access_waiters s) = Some v"
      "s' = grant_access_waiters (without_waiter w v s)" "r = Inr ()"
proof (cases "find (\<lambda>v. set (snd v) = set (snd w)) (access_waiters s)")
  case None
  show ?thesis
  proof (rule missing[OF None])
    show "s' = s\<lparr>access_threads := remove1 w (access_threads s)\<rparr>" "\<exists>e. r = Inl (ValueError e)"
      using assms[symmetric] unfolding abandon_run None by simp_all
  qed
next
  case (Some v)
  show ?thesis
  proof (rule dropped[OF Some])
    show "s' = grant_access_waiters (without_waiter w v s)" "r = Inr ()"
      using assms[symmetric] unfolding abandon_run Some by simp_all
  qed
qed

lemma wake_cases:
  assumes "wake_waiter w s = (r, s')"
  obtains (granted) "w \<in> set (leases s)" "s' = s"
  | (waiting) "\<not> access_closed s" "s' = grant_access_waiters s"
  | (closed) r' where "access_closed s" "w \<notin> set (leases s)" "abandon_access w s = (r', s')"
proof (cases "w \<in> set (leases s)")
  case True
  then have "s' = s" using assms by (simp add: wake_waiter_def st_run)
  with True show ?thesis by (rule granted)
next
  case False
  note held = False
  show ?thesis
  proof (cases "access_closed s")
    case True
    obtain r' s1 where a: "abandon_access w s = (r', s1)" by fastforce
    then have "s1 = s'" using assms held True by (cases r') (simp_all add: wake_waiter_def st_run)
    with a show ?thesis using closed[OF True held] by simp
  next
    case False
    then have "s' = grant_access_waiters s" using assms held by (simp add: wake_waiter_def st_run)
    with False show ?thesis by (rule waiting)
  qed
qed

lemma release_run:
  assumes "access_inv s" "w \<in> set (leases s)" "release_access w s = (r, s')"
  shows "s' = grant_access_waiters (without_lease w s)" "r = Inr ()"
proof -
  have i: "access_states s = table_of (leases s)" "exclusive (leases s)" "keyed (leases s)"
    using assms(1) by (auto simp: access_inv_def)
  show "s' = grant_access_waiters (without_lease w s)" "r = Inr ()"
    using assms(3)
    by (simp_all add: release_access_def st_run i(1) release_table[OF assms(2) i(2,3)] without_lease_def)
qed

text \<open>A step grants to the queue of one of these states, or changes nothing that is granted.\<close>

lemma access_step_cases:
  assumes "access_step orderly s s'" "access_inv s"
  obtains (same) "s' = s"
  | (queued) i a where "i \<notin> fst ` set (access_threads s) \<union> fst ` set (access_waiters s) \<union> fst ` set (leases s)"
      "distinct (map fst a)" "s' = grant_access_waiters (with_waiter (i, a) s)"
  | (granted) "s' = grant_access_waiters s"
  | (released) w where "w \<in> set (access_threads s)" "w \<in> set (leases s)" "s' = grant_access_waiters (without_lease w s)"
  | (missing) w where "w \<notin> set (leases s)" "\<not> orderly \<or> access_closed s"
      "s' = s\<lparr>access_threads := remove1 w (access_threads s)\<rparr>"
  | (dropped) w v where "w \<in> set (access_threads s)" "w \<notin> set (leases s)"
      "find (\<lambda>v. set (snd v) = set (snd w)) (access_waiters s) = Some v"
      "orderly \<longrightarrow> access_closed s \<or> v = w" "s' = grant_access_waiters (without_waiter w v s)"
  | (shut) "s' = s\<lparr>access_closed := True\<rparr>"
  using assms(1)
proof cases
  case (reserve i m reads writes r)
  from reserve(2) show ?thesis
  proof (cases rule: reserve_cases)
    case refused
    then show ?thesis by (rule that(1))
  next
    case (queued a)
    then show ?thesis by (rule that(2)[OF reserve(1)])
  qed
next
  case (wake w r)
  from wake(2) show ?thesis
  proof (cases rule: wake_cases)
    case (closed r')
    from closed(3) show ?thesis
    proof (cases rule: abandon_cases)
      case missing
      show ?thesis using closed missing by (intro that(5)) auto
    next
      case (dropped v)
      show ?thesis using closed dropped wake by (intro that(6)) auto
    qed
  next
    case granted
    then show ?thesis by (intro that(1))
  next
    case waiting
    then show ?thesis by (intro that(3))
  qed
next
  case (release w r)
  show ?thesis by (rule that(4)[OF release(1,2) release_run(1)[OF assms(2) release(2,3)]])
next
  case (abandon w r)
  from abandon(4) show ?thesis
  proof (cases rule: abandon_cases)
    case missing
    then have "\<not> orderly" using abandon(3) by (auto simp: first_equal_def)
    then show ?thesis using missing abandon(2) by (intro that(5)) auto
  next
    case (dropped v)
    then have "orderly \<longrightarrow> v = w" using abandon(3) by (auto simp: first_equal_def)
    then show ?thesis using dropped abandon by (intro that(6)) auto
  qed
next
  case shut
  then show ?thesis by (rule that(7))
qed

lemma with_waiter_inv:
  assumes "access_inv s" "distinct (map fst a)"
    and "i \<notin> fst ` set (access_threads s) \<union> fst ` set (access_waiters s) \<union> fst ` set (leases s)"
  shows "access_inv (with_waiter (i, a) s)"
  using assms by (auto simp: access_inv_def keyed_def with_waiter_def)

lemma remove1_keys: "fst ` set (remove1 x xs) \<subseteq> fst ` set xs"
  using set_remove1_subset[of x xs] by (rule image_mono)

lemma distinct_keys_remove1: "distinct (map fst xs) \<Longrightarrow> distinct (map fst (remove1 x xs))"
proof (induction xs)
  case (Cons y xs)
  have "fst y \<notin> fst ` set (remove1 x xs)" using Cons.prems remove1_keys[of x xs] by auto
  with Cons show ?case by simp
qed simp

lemma keyed_remove1: "keyed ws \<Longrightarrow> keyed (remove1 w ws)"
  by (auto simp: keyed_def dest: notin_set_remove1)

lemma without_waiter_inv:
  assumes "access_inv s"
  shows "access_inv (without_waiter w v s)"
  using assms remove1_keys[of v "access_waiters s"]
  by (auto simp: access_inv_def without_waiter_def keyed_remove1 distinct_keys_remove1)

lemma without_lease_inv:
  assumes "access_inv s" "w \<in> set (leases s)"
  shows "access_inv (without_lease w s)"
  using assms remove1_keys[of w "leases s"] exclusive_remove1[of "leases s" w]
  by (auto simp: access_inv_def without_lease_def keyed_remove1 distinct_keys_remove1)

lemma access_step_inv:
  assumes "access_step orderly s s'" "access_inv s"
  shows "access_inv s'"
  using assms
proof (cases rule: access_step_cases)
  case (missing w)
  then show ?thesis using assms(2) by (auto simp: access_inv_def distinct_keys_remove1)
next
  case shut
  then show ?thesis using assms(2) by (simp add: access_inv_def)
qed (use assms(2) in \<open>auto intro: grant_access_waiters_inv with_waiter_inv without_lease_inv without_waiter_inv\<close>)

lemma access_reachable_inv: "access_reachable orderly s \<Longrightarrow> access_inv s"
proof (induction rule: access_reachable.induct)
  case init
  show ?case by (auto simp: access_inv_def no_access_def table_of_def entry_def exclusive_def keyed_def fun_eq_iff)
qed (blast intro: access_step_inv)

section \<open>Exclusion\<close>

lemma two_of_them:
  assumes "x \<in> set ls" "y \<in> set ls" "x \<noteq> y" "P x" "P y"
  shows "2 \<le> length (filter P ls)"
proof -
  have "{x, y} \<subseteq> set (filter P ls)" using assms by auto
  then have "card {x, y} \<le> length (filter P ls)"
    by (meson List.finite_set card_length card_mono le_trans)
  then show ?thesis using assms(3) by simp
qed

lemma leases_exclusive:
  assumes "access_reachable orderly s" "l1 \<in> set (leases s)" "l2 \<in> set (leases s)" "l1 \<noteq> l2"
    and "map_of (snd l1) k = Some w1" "map_of (snd l2) k = Some w2"
  shows "\<not> w1 \<and> \<not> w2"
proof -
  have "exclusive (leases s)" using access_reachable_inv[OF assms(1)] by (simp add: access_inv_def)
  then have e: "writing k (leases s) \<le> 1" "writing k (leases s) = 0 \<or> reading k (leases s) = 0"
    unfolding exclusive_def by blast+
  note P1 = counts_positive[OF assms(2), of k] and P2 = counts_positive[OF assms(3), of k]
  have "2 \<le> writing k (leases s)" if "w1" "w2"
    using two_of_them[OF assms(2-4), of "\<lambda>l. map_of (snd l) k = Some True"] assms(5,6) that
    by (simp add: writing_def)
  with e P1 P2 assms(5,6) show ?thesis by (cases w1; cases w2) auto
qed

section \<open>Nobody waits without a reason\<close>

text \<open>A queue is settled when the grant loop would grant nothing.\<close>

definition settled :: "Access \<Rightarrow> bool" where
  "settled s \<longleftrightarrow> access_closed s \<or> grant_loop (access_waiters s) {} (access_states s) = ([], access_waiters s, access_states s)"

lemma grant_one_more: "st k \<noteq> None \<Longrightarrow> fold grant_one a st k \<noteq> None"
  by (induction a arbitrary: st) (auto simp: grant_one_def Let_def split: prod.splits)

text \<open>A later state of the table refuses whatever an earlier one refused.\<close>

definition tighter :: "(access_key \<rightharpoonup> AccessState) \<Rightarrow> (access_key \<rightharpoonup> AccessState) \<Rightarrow> bool" where
  "tighter st st' \<longleftrightarrow> (\<forall>k s. st k = Some s \<longrightarrow> (\<exists>s'. st' k = Some s' \<and>
     (writer s \<longrightarrow> writer s') \<and> (0 < readers s \<longrightarrow> 0 < readers s')))"

lemma tighter_refl: "tighter st st" by (simp add: tighter_def)

lemma tighter_trans: "tighter a b \<Longrightarrow> tighter b c \<Longrightarrow> tighter a c"
  unfolding tighter_def by meson

lemma tighter_grant_one: "tighter st (grant_one kw st)"
  by (cases kw) (auto simp: tighter_def grant_one_def Let_def)

lemma tighter_fold: "tighter st (fold grant_one a st)"
  by (induction a arbitrary: st) (auto intro: tighter_refl tighter_trans tighter_grant_one)

definition counted :: "(access_key \<rightharpoonup> AccessState) \<Rightarrow> bool" where
  "counted st \<longleftrightarrow> (\<forall>k s. st k = Some s \<longrightarrow> 0 \<le> readers s)"

lemma counted_fold: "counted st \<Longrightarrow> counted (fold grant_one a st)"
proof (induction a arbitrary: st)
  case (Cons kw a)
  then have "counted (grant_one kw st)"
    by (cases kw) (auto simp: counted_def grant_one_def Let_def split: option.splits)
  with Cons.IH show ?case by simp
qed simp

lemma counted_table: "counted (table_of ls)"
  by (auto simp: counted_def table_of_def entry_def split: if_splits)

lemma can_grant_tighter:
  assumes "tighter st st'" "counted st" "can_grant_access st' a"
  shows "can_grant_access st a"
proof -
  have "case st k of None \<Rightarrow> True | Some s \<Rightarrow> \<not> (writer s \<or> (w \<and> readers s \<noteq> 0))" if "(k, w) \<in> set a" for k w
  proof (cases "st k")
    case (Some s)
    then obtain s' where s': "st' k = Some s'" "writer s \<longrightarrow> writer s'" "0 < readers s \<longrightarrow> 0 < readers s'"
      using assms(1) unfolding tighter_def by blast
    have "0 \<le> readers s" using assms(2) Some unfolding counted_def by blast
    moreover have "case st' k of None \<Rightarrow> True | Some s \<Rightarrow> \<not> (writer s \<or> (w \<and> readers s \<noteq> 0))"
      using assms(3) that unfolding can_grant_access_def list_all_iff by fastforce
    ultimately show ?thesis using s' Some by auto
  qed simp
  then show ?thesis unfolding can_grant_access_def list_all_iff by auto
qed

lemma grant_loop_settles:
  "grant_loop ws blocked st = (g, r, st') \<Longrightarrow> counted st \<Longrightarrow>
   tighter st st' \<and> (\<forall>st2. tighter st' st2 \<longrightarrow> grant_loop r blocked st2 = ([], r, st2))"
proof (induction ws arbitrary: blocked st g r st')
  case (Cons w ws)
  obtain i a where w: "w = (i, a)" by (metis surj_pair)
  show ?case
  proof (cases "blocked \<inter> fst ` set a = {} \<and> can_grant_access st a")
    case True
    obtain g1 r1 st1 where c: "grant_loop ws blocked (fold grant_one a st) = (g1, r1, st1)" by (metis prod_cases3)
    have eq: "(i, a) # g1 = g" "r1 = r" "st1 = st'"
      using Cons.prems(1) by (simp_all only: w grant_loop.simps if_P[OF True] c Let_def prod.case prod.inject)
    show ?thesis
      using Cons.IH[OF c counted_fold[OF Cons.prems(2)]] eq tighter_fold[of st a] tighter_trans by blast
  next
    case False
    obtain g1 r1 st1 where c: "grant_loop ws (blocked \<union> fst ` set a) st = (g1, r1, st1)" by (metis prod_cases3)
    have eq: "g1 = g" "(i, a) # r1 = r" "st1 = st'"
      using Cons.prems(1) by (simp_all only: w grant_loop.simps if_not_P[OF False] c Let_def prod.case prod.inject)
    note IH = Cons.IH[OF c Cons.prems(2), unfolded eq(3)]
    have "grant_loop r blocked st2 = ([], r, st2)" if t: "tighter st' st2" for st2
    proof -
      have "\<not> (blocked \<inter> fst ` set a = {} \<and> can_grant_access st2 a)"
        using False can_grant_tighter[OF tighter_trans[OF IH[THEN conjunct1] t] Cons.prems(2)] by blast
      then show ?thesis unfolding eq(2)[symmetric] using IH t by (simp only: grant_loop.simps if_not_P) simp
    qed
    then show ?thesis using IH by blast
  qed
qed (simp add: tighter_refl)

lemma grant_access_waiters_settled:
  assumes "access_inv s"
  shows "settled (grant_access_waiters s)"
proof (cases "access_closed s")
  case False
  obtain g r st where g: "grant_loop (access_waiters s) {} (access_states s) = (g, r, st)" by (metis prod_cases3)
  have "counted (access_states s)" using assms counted_table by (simp add: access_inv_def)
  from grant_loop_settles[OF g this] have "grant_loop r {} st = ([], r, st)" using tighter_refl by blast
  then show ?thesis using g False by (simp add: settled_def grant_access_waiters_def)
qed (simp add: settled_def grant_access_waiters_def)

lemma access_step_settled:
  assumes "access_step orderly s s'" "access_inv s" "settled s"
  shows "settled s'"
  using assms(1,2)
proof (cases rule: access_step_cases)
  case (missing w)
  then show ?thesis using assms(3) by (simp add: settled_def)
next
  case shut
  then show ?thesis by (simp add: settled_def)
qed (use assms(2,3) in
  \<open>auto intro: grant_access_waiters_settled with_waiter_inv without_lease_inv without_waiter_inv\<close>)

lemma access_reachable_settled: "access_reachable orderly s \<Longrightarrow> settled s"
proof (induction rule: access_reachable.induct)
  case init
  show ?case by (simp add: settled_def no_access_def)
qed (blast intro: access_step_settled access_reachable_inv)

lemma settled_loop:
  "grant_loop ws blocked st = ([], ws, st') \<Longrightarrow> n < length ws \<Longrightarrow>
   (blocked \<union> (\<Union>w \<in> set (take n ws). fst ` set (snd w))) \<inter> fst ` set (snd (ws ! n)) \<noteq> {} \<or>
   \<not> can_grant_access st (snd (ws ! n))"
proof (induction ws arbitrary: blocked n)
  case (Cons w ws)
  obtain i a where w: "w = (i, a)" by (metis surj_pair)
  have no: "\<not> (blocked \<inter> fst ` set a = {} \<and> can_grant_access st a)"
    using Cons.prems(1) by (auto simp: w split: prod.splits if_splits)
  show ?case
  proof (cases n)
    case 0
    then show ?thesis using no by (auto simp: w)
  next
    case (Suc k)
    obtain g1 r1 st1 where c: "grant_loop ws (blocked \<union> fst ` set a) st = (g1, r1, st1)" by (metis prod_cases3)
    have eq: "g1 = []" "r1 = ws" "st1 = st'"
      using Cons.prems(1) by (simp_all only: w grant_loop.simps if_not_P[OF no] c Let_def prod.case prod.inject list.inject)
    have "k < length ws" using Cons.prems(2) Suc by simp
    from Cons.IH[OF c[unfolded eq] this] show ?thesis by (simp add: Suc w Un_assoc)
  qed
qed simp

lemma conflict_of:
  assumes "\<not> can_grant_access (table_of ls) a"
  shows "\<exists>k w l w'. (k, w) \<in> set a \<and> l \<in> set ls \<and> map_of (snd l) k = Some w' \<and> (w \<or> w')"
proof -
  obtain k w where k: "(k, w) \<in> set a" "\<not> (case table_of ls k of None \<Rightarrow> True | Some s \<Rightarrow> \<not> (writer s \<or> (w \<and> readers s \<noteq> 0)))"
    using assms unfolding can_grant_access_def list_all_iff by fastforce
  then have "writing k ls \<noteq> 0 \<or> (w \<and> reading k ls \<noteq> 0)"
    by (auto simp: table_of_def entry_def split: if_splits)
  then show ?thesis
  proof
    assume "writing k ls \<noteq> 0"
    then obtain l where "l \<in> set ls" "map_of (snd l) k = Some True"
      by (auto simp: writing_def filter_empty_conv)
    with k(1) show ?thesis by blast
  next
    assume r: "w \<and> reading k ls \<noteq> 0"
    then obtain l where "l \<in> set ls" "map_of (snd l) k = Some False"
      by (auto simp: reading_def filter_empty_conv)
    with k(1) r show ?thesis by blast
  qed
qed

lemma in_set_take_nth: "x \<in> set (take n xs) \<Longrightarrow> \<exists>j < n. xs ! j = x"
  by (metis in_set_conv_nth length_take less_le_trans min.cobounded2 nth_take)

text \<open>Every waiter is behind an earlier waiter for one of its keys, or conflicts with a lease.\<close>

lemma waiters_have_reason:
  assumes "access_reachable orderly s" "\<not> access_closed s" "n < length (access_waiters s)"
  shows "(\<exists>j < n. fst ` set (snd (access_waiters s ! j)) \<inter> fst ` set (snd (access_waiters s ! n)) \<noteq> {}) \<or>
    (\<exists>k w l w'. (k, w) \<in> set (snd (access_waiters s ! n)) \<and> l \<in> set (leases s) \<and>
       map_of (snd l) k = Some w' \<and> (w \<or> w'))"
proof -
  have l: "grant_loop (access_waiters s) {} (access_states s) = ([], access_waiters s, access_states s)"
    using access_reachable_settled[OF assms(1)] assms(2) by (simp add: settled_def)
  have t: "access_states s = table_of (leases s)" using access_reachable_inv[OF assms(1)] by (simp add: access_inv_def)
  from settled_loop[OF l assms(3)] show ?thesis
  proof
    assume "({} \<union> (\<Union>w \<in> set (take n (access_waiters s)). fst ` set (snd w))) \<inter> fst ` set (snd (access_waiters s ! n)) \<noteq> {}"
    then obtain w where w: "w \<in> set (take n (access_waiters s))"
      "fst ` set (snd w) \<inter> fst ` set (snd (access_waiters s ! n)) \<noteq> {}" by blast
    obtain j where j: "j < n" "access_waiters s ! j = w"
      using in_set_take_nth[OF w(1)] by blast
    show ?thesis by (intro disjI1 exI[of _ j] conjI) (use j w(2) in simp_all)
  next
    assume "\<not> can_grant_access (access_states s) (snd (access_waiters s ! n))"
    from conflict_of[OF this[unfolded t]] show ?thesis by blast
  qed
qed

section \<open>Threads and their entries\<close>

lemma grant_loop_parts: "grant_loop ws blocked st = (g, r, st') \<Longrightarrow> set ws = set g \<union> set r"
proof (induction ws arbitrary: blocked st g r st')
  case (Cons w ws)
  obtain i a where w: "w = (i, a)" by (metis surj_pair)
  show ?case
  proof (cases "blocked \<inter> fst ` set a = {} \<and> can_grant_access st a")
    case True
    obtain g1 r1 st1 where c: "grant_loop ws blocked (fold grant_one a st) = (g1, r1, st1)" by (metis prod_cases3)
    have "(i, a) # g1 = g \<and> r1 = r \<and> st1 = st'"
      using Cons.prems by (simp only: w grant_loop.simps if_P[OF True] c Let_def prod.case prod.inject)
    with Cons.IH[OF c] show ?thesis unfolding w by force
  next
    case False
    obtain g1 r1 st1 where c: "grant_loop ws (blocked \<union> fst ` set a) st = (g1, r1, st1)" by (metis prod_cases3)
    have "g1 = g \<and> (i, a) # r1 = r \<and> st1 = st'"
      using Cons.prems by (simp only: w grant_loop.simps if_not_P[OF False] c Let_def prod.case prod.inject)
    with Cons.IH[OF c] show ?thesis unfolding w by force
  qed
qed simp

lemma grant_keeps [simp]:
  "access_threads (grant_access_waiters s) = access_threads s"
  "access_closed (grant_access_waiters s) = access_closed s"
  "set (leases (grant_access_waiters s)) \<union> set (access_waiters (grant_access_waiters s))
    = set (leases s) \<union> set (access_waiters s)"
  "l \<in> set (leases s) \<Longrightarrow> l \<in> set (leases (grant_access_waiters s))"
  using grant_loop_parts[of "access_waiters s" "{}" "access_states s"]
  by (auto simp: grant_access_waiters_def split: prod.splits)

text \<open>While every interrupted waiter is the first of its kind, threads and entries agree.\<close>

definition attended :: "Access \<Rightarrow> bool" where
  "attended s \<longleftrightarrow> access_closed s \<or> set (access_threads s) = set (leases s) \<union> set (access_waiters s)"

lemma inv_distinct:
  assumes "access_inv s"
  shows "distinct (leases s)" "distinct (access_waiters s)" "distinct (access_threads s)"
    "set (leases s) \<inter> set (access_waiters s) = {}"
  using assms by (auto simp: access_inv_def distinct_map)

lemma access_step_attended:
  assumes "access_step True s s'" "access_inv s" "attended s"
  shows "attended s'"
  using assms(1,2)
proof (cases rule: access_step_cases)
  case (queued i a)
  then show ?thesis using assms(3) by (auto simp: attended_def with_waiter_def)
next
  case (released w)
  then show ?thesis using assms(3) inv_distinct[OF assms(2)]
    by (simp add: attended_def without_lease_def) blast
next
  case (dropped w v)
  then show ?thesis using assms(3) inv_distinct[OF assms(2)]
    by (simp add: attended_def without_waiter_def) blast
qed (use assms(3) in \<open>simp_all add: attended_def\<close>)

lemma access_reachable_attended: "access_reachable True s \<Longrightarrow> attended s"
proof (induction rule: access_reachable.induct)
  case init
  show ?case by (simp add: attended_def no_access_def)
qed (blast intro: access_step_attended access_reachable_inv)

text \<open>A thread without an entry never gets one, and a lease without a thread is never released.\<close>

definition stranded :: "nat \<times> accesses \<Rightarrow> Access \<Rightarrow> bool" where
  "stranded w s \<longleftrightarrow> w \<in> set (access_threads s) \<and> w \<notin> set (leases s) \<union> set (access_waiters s)"

definition orphaned :: "nat \<times> accesses \<Rightarrow> Access \<Rightarrow> bool" where
  "orphaned w s \<longleftrightarrow> w \<in> set (leases s) \<and> w \<notin> set (access_threads s)"

lemma step_stranded:
  assumes "access_step orderly s s'" "access_inv s" "stranded w s" "w \<in> set (access_threads s')"
  shows "stranded w s'"
  using assms(1,2)
proof (cases rule: access_step_cases)
  case (queued i a)
  then have "(i, a) \<noteq> w" using assms(3) by (auto simp: stranded_def image_iff)
  then show ?thesis using queued assms(3,4) by (simp add: stranded_def with_waiter_def)
next
  case (released v)
  then show ?thesis using assms(3,4)
    by (auto simp: stranded_def without_lease_def dest: notin_set_remove1)
next
  case (dropped u v)
  then show ?thesis using assms(3,4)
    by (auto simp: stranded_def without_waiter_def dest: notin_set_remove1)
qed (use assms(3,4) in \<open>simp_all add: stranded_def\<close>)

lemma step_orphaned:
  assumes "access_step orderly s s'" "access_inv s" "orphaned w s"
  shows "orphaned w s'"
  using assms(1,2)
proof (cases rule: access_step_cases)
  case (queued i a)
  then have "(i, a) \<noteq> w" using assms(3) by (auto simp: orphaned_def image_iff)
  then show ?thesis using queued assms(3) by (auto simp: orphaned_def with_waiter_def)
next
  case (released v)
  then have "v \<noteq> w" using assms(3) by (auto simp: orphaned_def)
  then show ?thesis using released assms(3)
    by (auto simp: orphaned_def without_lease_def dest: notin_set_remove1)
qed (use assms(3) in \<open>auto simp: orphaned_def without_waiter_def dest: notin_set_remove1\<close>)

text \<open>The handler of an interrupted waiter that stands behind one with equal accesses.\<close>

lemma abandon_twin:
  assumes "access_inv s" "access_waiters s = xs @ w1 # ys @ w2 # zs" "set (snd w1) = set (snd w2)"
    and "\<forall>v \<in> set xs. set (snd v) \<noteq> set (snd w2)" "w1 \<in> set (access_threads s)"
  shows "\<exists>s'. abandon_access w2 s = (Inr (), s') \<and> stranded w1 s' \<and> w2 \<notin> set (access_threads s') \<and>
    w2 \<in> set (leases s') \<union> set (access_waiters s')"
proof -
  note d = inv_distinct[OF assms(1)]
  have "find (\<lambda>v. set (snd v) = set (snd w2)) (xs @ w1 # zs') = Some w1" for zs'
    using assms(3,4) by (induction xs) auto
  then have a: "abandon_access w2 s = (Inr (), grant_access_waiters (without_waiter w2 w1 s))"
    by (simp add: abandon_run assms(2))
  have ne: "w1 \<noteq> w2" using d(2) by (auto simp: assms(2))
  show ?thesis unfolding a
  proof (intro exI conjI)
    let ?s = "grant_access_waiters (without_waiter w2 w1 s)"
    have parts: "set (leases ?s) \<union> set (access_waiters ?s) = set (leases s) \<union> (set (access_waiters s) - {w1})"
      using d(2) by (simp add: without_waiter_def)
    show "stranded w1 ?s" unfolding stranded_def parts
      using assms(2,5) ne d by (auto simp: without_waiter_def)
    show "w2 \<in> set (leases ?s) \<union> set (access_waiters ?s)" unfolding parts using assms(2) ne by simp
    show "w2 \<notin> set (access_threads ?s)" using d(3) by (simp add: without_waiter_def)
  qed simp
qed

text \<open>Runs of the steps keep both for ever.\<close>

lemma run_stranded:
  assumes "(\<lambda>x y. access_step orderly x y \<and> w \<in> set (access_threads y))\<^sup>*\<^sup>* s t" "access_inv s" "stranded w s"
  shows "stranded w t"
proof -
  have "access_inv t \<and> stranded w t"
    using assms by (induction rule: rtranclp_induct) (auto intro: access_step_inv step_stranded)
  then show ?thesis by blast
qed

lemma run_orphaned:
  assumes "(access_step orderly)\<^sup>*\<^sup>* s t" "access_inv s" "orphaned w s"
  shows "orphaned w t"
proof -
  have "access_inv t \<and> orphaned w t"
    using assms by (induction rule: rtranclp_induct) (auto intro: access_step_inv step_orphaned)
  then show ?thesis by blast
qed

lemma run_reachable: "(access_step orderly)\<^sup>*\<^sup>* s t \<Longrightarrow> access_reachable orderly s \<Longrightarrow> access_reachable orderly t"
  by (induction rule: rtranclp_induct) (auto intro: access_reachable.step)

end
