(* ===== verification/Control_Protocol.thy ===== *)
theory Control_Protocol
  imports Utf8
begin

unbundle bit_operations_syntax

text \<open>
  The runtime's fixed-width control protocol, \<open>packages/wmfs/wmfs/protocol/control.py\<close>:
  frames, startup request and response, descriptor batches, acknowledgements and error
  responses. Each message has its dataclass as a record, its encoder and its decoder with
  every check in the order of the code. The interpretations at the end state that each
  pair is a \<open>strict_codec\<close>.
\<close>

section \<open>Constants and enumerations\<close>

definition MAGIC :: int where "MAGIC = 0x314C544353464D57"
definition ABI_MAJOR :: int where "ABI_MAJOR = 1"
definition ABI_MINOR :: int where "ABI_MINOR = 0"
definition FRAME_HEADER_SIZE :: nat where "FRAME_HEADER_SIZE = 32"
definition STARTUP_FIXED_SIZE :: nat where "STARTUP_FIXED_SIZE = 112"
definition MAX_CONFIG_BYTES :: nat where "MAX_CONFIG_BYTES = 65536"
definition MAX_PACKET_BYTES :: nat where "MAX_PACKET_BYTES = 69632"
definition MAX_ERROR_BYTES :: nat where "MAX_ERROR_BYTES = 1024"
definition MAX_DESCRIPTOR_ROLES :: nat where "MAX_DESCRIPTOR_ROLES = 16"
definition MAX_FD_ENTRIES :: nat where "MAX_FD_ENTRIES = 240"

lemmas control_consts = MAGIC_def ABI_MAJOR_def ABI_MINOR_def FRAME_HEADER_SIZE_def
  STARTUP_FIXED_SIZE_def MAX_CONFIG_BYTES_def MAX_PACKET_BYTES_def MAX_ERROR_BYTES_def
  MAX_DESCRIPTOR_ROLES_def MAX_FD_ENTRIES_def

definition FRAME_fmt :: "fmt list" where "FRAME_fmt = [FQ, FH, FH, FH, FH, FI, FI, FQ]"
definition STARTUP_fmt :: "fmt list" where
  "STARTUP_fmt = [FQ, FS 32, FS 32, FQ, FQ, FI, FI, FI, FI, FH, FH, FI]"
definition ROLE_fmt :: "fmt list" where "ROLE_fmt = [FH, FH, FI]"
definition FD_BATCH_fmt :: "fmt list" where "FD_BATCH_fmt = [FQ, FQ, FH, FH, FI, FQ]"
definition FD_ENTRY_fmt :: "fmt list" where "FD_ENTRY_fmt = [FI, FI, FQ, FQ, FQ, FQ, FQ]"
definition FD_ACK_fmt :: "fmt list" where "FD_ACK_fmt = [FQ, FQ, FI, FI, FI, FI]"
definition ERROR_fmt :: "fmt list" where "ERROR_fmt = [FI, FI]"

lemmas control_fmts = FRAME_fmt_def STARTUP_fmt_def ROLE_fmt_def FD_BATCH_fmt_def
  FD_ENTRY_fmt_def FD_ACK_fmt_def ERROR_fmt_def

datatype Kind = STARTUP_REQUEST | STARTUP_RESPONSE | PING | PONG | SHUTDOWN | SHUTDOWN_ACK
  | ERROR_RESPONSE | FD_TRANSFER | FD_TRANSFER_ACK

fun kind_value :: "Kind \<Rightarrow> int" where
  "kind_value STARTUP_REQUEST = 1"
| "kind_value STARTUP_RESPONSE = 2"
| "kind_value PING = 3"
| "kind_value PONG = 4"
| "kind_value SHUTDOWN = 5"
| "kind_value SHUTDOWN_ACK = 6"
| "kind_value ERROR_RESPONSE = 7"
| "kind_value FD_TRANSFER = 16"
| "kind_value FD_TRANSFER_ACK = 17"

text \<open>Calling an \<open>IntEnum\<close> class with a value: the member with that value, or \<open>ValueError\<close>.\<close>

definition enum_of :: "('e \<Rightarrow> int) \<Rightarrow> 'e list \<Rightarrow> int \<Rightarrow> 'e option" where
  "enum_of val members v = List.find (\<lambda>m. val m = v) members"

definition Kind_of :: "int \<Rightarrow> Kind option" where
  "Kind_of = enum_of kind_value [STARTUP_REQUEST, STARTUP_RESPONSE, PING, PONG, SHUTDOWN,
     SHUTDOWN_ACK, ERROR_RESPONSE, FD_TRANSFER, FD_TRANSFER_ACK]"

datatype Status = OK | INVALID_ARGUMENT | UNSUPPORTED | IDENTITY_MISMATCH
  | CONFIGURATION_REJECTED | INTERNAL_ERROR

fun status_value :: "Status \<Rightarrow> int" where
  "status_value OK = 0"
| "status_value INVALID_ARGUMENT = 1"
| "status_value UNSUPPORTED = 2"
| "status_value IDENTITY_MISMATCH = 3"
| "status_value CONFIGURATION_REJECTED = 4"
| "status_value INTERNAL_ERROR = 5"

definition Status_of :: "int \<Rightarrow> Status option" where
  "Status_of = enum_of status_value [OK, INVALID_ARGUMENT, UNSUPPORTED, IDENTITY_MISMATCH,
     CONFIGURATION_REJECTED, INTERNAL_ERROR]"

datatype LogMode = DISABLED | CENTRALIZED | WORKER_FILE

fun log_mode_value :: "LogMode \<Rightarrow> int" where
  "log_mode_value DISABLED = 0"
| "log_mode_value CENTRALIZED = 1"
| "log_mode_value WORKER_FILE = 2"

definition LogMode_of :: "int \<Rightarrow> LogMode option" where
  "LogMode_of = enum_of log_mode_value [DISABLED, CENTRALIZED, WORKER_FILE]"

datatype DescriptorRole = COMMAND_RING | COMMAND_DATA_EVENT | COMMAND_SPACE_EVENT
  | COMPLETION_RING | COMPLETION_DATA_EVENT | COMPLETION_SPACE_EVENT | FD_CONTROL | LOG

fun role_value :: "DescriptorRole \<Rightarrow> int" where
  "role_value COMMAND_RING = 1"
| "role_value COMMAND_DATA_EVENT = 2"
| "role_value COMMAND_SPACE_EVENT = 3"
| "role_value COMPLETION_RING = 4"
| "role_value COMPLETION_DATA_EVENT = 5"
| "role_value COMPLETION_SPACE_EVENT = 6"
| "role_value FD_CONTROL = 7"
| "role_value LOG = 8"

definition DescriptorRole_of :: "int \<Rightarrow> DescriptorRole option" where
  "DescriptorRole_of = enum_of role_value [COMMAND_RING, COMMAND_DATA_EVENT, COMMAND_SPACE_EVENT,
     COMPLETION_RING, COMPLETION_DATA_EVENT, COMPLETION_SPACE_EVENT, FD_CONTROL, LOG]"

datatype FdEntryKind = MAP | RETIRE

fun entry_kind_value :: "FdEntryKind \<Rightarrow> int" where
  "entry_kind_value MAP = 1"
| "entry_kind_value RETIRE = 2"

definition FdEntryKind_of :: "int \<Rightarrow> FdEntryKind option" where
  "FdEntryKind_of = enum_of entry_kind_value [MAP, RETIRE]"

text \<open>\<open>FdFlag\<close> is an \<open>IntFlag\<close>: it keeps unknown bits, so its values are the integers.\<close>

definition FLAG_WRITABLE :: int where "FLAG_WRITABLE = 1"
definition FLAG_ARENA :: int where "FLAG_ARENA = 2"
definition FD_BATCH_TRANSACTIONAL :: int where "FD_BATCH_TRANSACTIONAL = 1"

lemmas flag_defs = FLAG_WRITABLE_def FLAG_ARENA_def FD_BATCH_TRANSACTIONAL_def

lemma Kind_of_eq: "Kind_of v = Some k \<longleftrightarrow> kind_value k = v"
  by (cases k) (auto simp: Kind_of_def enum_of_def)

lemma Status_of_eq: "Status_of v = Some k \<longleftrightarrow> status_value k = v"
  by (cases k) (auto simp: Status_of_def enum_of_def)

lemma LogMode_of_eq: "LogMode_of v = Some k \<longleftrightarrow> log_mode_value k = v"
  by (cases k) (auto simp: LogMode_of_def enum_of_def)

lemma DescriptorRole_of_eq: "DescriptorRole_of v = Some k \<longleftrightarrow> role_value k = v"
  by (cases k) (auto simp: DescriptorRole_of_def enum_of_def)

lemma FdEntryKind_of_eq: "FdEntryKind_of v = Some k \<longleftrightarrow> entry_kind_value k = v"
  by (cases k) (auto simp: FdEntryKind_of_def enum_of_def)

lemmas enum_eqs [err_simps] = Kind_of_eq Status_of_eq LogMode_of_eq DescriptorRole_of_eq
  FdEntryKind_of_eq

lemma kind_value_fits [simp]: "fits 2 (kind_value k)"
  by (cases k; simp add: fits_def)

lemma status_value_fits [simp]: "fits 4 (status_value s)"
  by (cases s; simp add: fits_def)

lemma log_mode_value_fits [simp]: "fits 2 (log_mode_value l)"
  by (cases l; simp add: fits_def)

lemma role_value_fits [simp]: "fits 2 (role_value r)"
  by (cases r; simp add: fits_def)

lemma entry_kind_value_fits [simp]: "fits 4 (entry_kind_value e)"
  by (cases e; simp add: fits_def)

section \<open>Messages\<close>

record Frame =
  kind :: Kind
  request_id :: int
  payload :: bytes

record Startup =
  session_generation :: int
  interface_fingerprint :: bytes
  configuration_fingerprint :: bytes
  metadata_fingerprint :: int
  capabilities :: int
  operation_count :: int
  protocol_version :: int
  configuration_schema_version :: int
  config :: bytes
  descriptor_roles :: "DescriptorRole list"
  log_mode :: LogMode
  startup_status :: Status

record FdEntry =
  entry_kind :: FdEntryKind
  buffer_id :: int
  entry_generation :: int
  allocation_id :: int
  invocation_id :: int
  byte_length :: int
  entry_flags :: int

record FdBatch =
  transfer_id :: int
  batch_generation :: int
  entries :: "FdEntry list"

definition fd_count :: "FdBatch \<Rightarrow> nat" where
  "fd_count b = length (filter (\<lambda>e. entry_kind e = MAP) (entries b))"

record FdAck =
  ack_transfer_id :: int
  ack_generation :: int
  ack_status :: Status
  ack_error :: ustr

record ErrorResponse =
  error_status :: Status
  message :: ustr

section \<open>Frames\<close>

definition u64 :: "int \<Rightarrow> string \<Rightarrow> unit result" where
  "u64 v name = reject (\<not> (0 \<le> v \<and> v \<le> 0xFFFFFFFFFFFFFFFF))
                  (ProtocolError (name @ '' is outside uint64''))"

definition u32 :: "int \<Rightarrow> string \<Rightarrow> unit result" where
  "u32 v name = reject (\<not> (0 \<le> v \<and> v \<le> 0xFFFFFFFF))
                  (ProtocolError (name @ '' is outside uint32''))"

definition validate_utf8 :: "bytes \<Rightarrow> string \<Rightarrow> unit result" where
  "validate_utf8 value name =
     reject (\<not> ok (utf8_decode value)) (ProtocolError (name @ '' is not valid UTF-8''))"

definition encode_frame :: "Kind \<Rightarrow> int \<Rightarrow> bytes \<Rightarrow> bytes result" where
  "encode_frame k rid pl =
     ebind (u64 rid ''request ID'') (\<lambda>_.
     if length pl > MAX_PACKET_BYTES - FRAME_HEADER_SIZE
     then Inl (ProtocolError ''control frame exceeds the packet limit'')
     else ebind (pack FRAME_fmt [VI MAGIC, VI ABI_MAJOR, VI ABI_MINOR, VI (kind_value k), VI 0,
                   VI (int FRAME_HEADER_SIZE), VI (int (length pl)), VI rid])
            (\<lambda>header. Inr (header @ pl)))"

definition decode_frame :: "bytes \<Rightarrow> Frame result" where
  "decode_frame packet =
     (if length packet < FRAME_HEADER_SIZE \<or> length packet > MAX_PACKET_BYTES
      then Inl (ProtocolError ''invalid control packet size'')
      else ebind (unpack_from FRAME_fmt packet 0) (\<lambda>v.
        let magic = vint (v ! 0); major = vint (v ! 1); minor = vint (v ! 2);
            knd = vint (v ! 3); flags = vint (v ! 4); header_size = vint (v ! 5);
            payload_size = vint (v ! 6); rid = vint (v ! 7) in
        if magic \<noteq> MAGIC \<or> major \<noteq> ABI_MAJOR \<or> minor > ABI_MINOR
        then Inl (ProtocolError ''unsupported control frame ABI'')
        else if flags \<noteq> 0 \<or> header_size \<noteq> int FRAME_HEADER_SIZE
        then Inl (ProtocolError ''invalid control frame header'')
        else if payload_size \<noteq> int (length packet) - int FRAME_HEADER_SIZE
        then Inl (ProtocolError ''control frame payload size mismatch'')
        else ebind (or_raise (Kind_of knd) (ProtocolError ''unknown control frame kind''))
          (\<lambda>frame_kind. Inr \<lparr>kind = frame_kind, request_id = rid,
                              payload = drop FRAME_HEADER_SIZE packet\<rparr>)))"

section \<open>Startup\<close>

definition encode_role :: "DescriptorRole \<Rightarrow> bytes result" where
  "encode_role r = pack ROLE_fmt [VI (role_value r), VI 0, VI 0]"

definition decode_role :: "bytes \<Rightarrow> nat \<Rightarrow> DescriptorRole result" where
  "decode_role pl off =
     ebind (unpack_from ROLE_fmt pl off) (\<lambda>v.
     if vint (v ! 1) \<noteq> 0 \<or> vint (v ! 2) \<noteq> 0
     then Inl (ProtocolError ''invalid descriptor role flags'')
     else or_raise (DescriptorRole_of (vint (v ! 0))) (ProtocolError ''unknown descriptor role''))"

definition startup_kind :: "bool \<Rightarrow> Kind" where
  "startup_kind response = (if response then STARTUP_RESPONSE else STARTUP_REQUEST)"

definition encode_startup :: "bool \<Rightarrow> int \<Rightarrow> Startup \<Rightarrow> bytes result" where
  "encode_startup response rid s =
     ebind (validate_utf8 (config s) ''configuration'') (\<lambda>_.
     if length (config s) > MAX_CONFIG_BYTES
     then Inl (ProtocolError ''configuration exceeds 64 KiB'')
     else if length (interface_fingerprint s) \<noteq> 32 \<or> length (configuration_fingerprint s) \<noteq> 32
     then Inl (ProtocolError ''startup fingerprints must be SHA-256 digests'')
     else if length (descriptor_roles s) > MAX_DESCRIPTOR_ROLES
     then Inl (ProtocolError ''too many startup descriptor roles'')
     else
     ebind (u64 (session_generation s) ''session generation'') (\<lambda>_.
     ebind (u64 (metadata_fingerprint s) ''metadata fingerprint'') (\<lambda>_.
     ebind (u64 (capabilities s) ''capabilities'') (\<lambda>_.
     ebind (u32 (operation_count s) ''operation count'') (\<lambda>_.
     ebind (u32 (protocol_version s) ''protocol version'') (\<lambda>_.
     ebind (u32 (configuration_schema_version s) ''configuration schema version'') (\<lambda>_.
     ebind (pack STARTUP_fmt
        [VI (session_generation s), VB (interface_fingerprint s), VB (configuration_fingerprint s),
         VI (metadata_fingerprint s), VI (capabilities s), VI (operation_count s),
         VI (protocol_version s), VI (configuration_schema_version s),
         VI (int (length (config s))), VI (int (length (descriptor_roles s))),
         VI (log_mode_value (log_mode s)), VI (status_value (startup_status s))]) (\<lambda>fixed.
     ebind (emap encode_role (descriptor_roles s)) (\<lambda>roles.
     encode_frame (startup_kind response) rid (fixed @ concat roles @ config s))))))))))"

definition decode_startup :: "bool \<Rightarrow> bytes \<Rightarrow> (int \<times> Startup) result" where
  "decode_startup response packet =
     ebind (decode_frame packet) (\<lambda>frame.
     if kind frame \<noteq> startup_kind response \<or> length (payload frame) < STARTUP_FIXED_SIZE
     then Inl (ProtocolError ''unexpected or truncated startup frame'')
     else ebind (unpack_from STARTUP_fmt (payload frame) 0) (\<lambda>v.
     let config_length = nat (vint (v ! 8)); role_count = nat (vint (v ! 9)) in
     if config_length > MAX_CONFIG_BYTES \<or> role_count > MAX_DESCRIPTOR_ROLES
     then Inl (ProtocolError ''startup variable field exceeds its limit'')
     else let roles_end = STARTUP_FIXED_SIZE + role_count * calcsize ROLE_fmt in
     if roles_end + config_length \<noteq> length (payload frame)
     then Inl (ProtocolError ''startup payload size mismatch'')
     else
     ebind (emap (\<lambda>i. decode_role (payload frame) (STARTUP_FIXED_SIZE + i * calcsize ROLE_fmt))
                 [0..<role_count]) (\<lambda>roles.
     let cfg = drop roles_end (payload frame) in
     ebind (validate_utf8 cfg ''configuration'') (\<lambda>_.
     ebind (or_raise (LogMode_of (vint (v ! 10))) (ProtocolError ''unknown startup enum value'')) (\<lambda>lm.
     ebind (or_raise (Status_of (vint (v ! 11))) (ProtocolError ''unknown startup enum value'')) (\<lambda>st.
     Inr (request_id frame,
       \<lparr>session_generation = vint (v ! 0), interface_fingerprint = vbytes (v ! 1),
        configuration_fingerprint = vbytes (v ! 2), metadata_fingerprint = vint (v ! 3),
        capabilities = vint (v ! 4), operation_count = vint (v ! 5),
        protocol_version = vint (v ! 6), configuration_schema_version = vint (v ! 7),
        config = cfg, descriptor_roles = roles, log_mode = lm, startup_status = st\<rparr>)))))))"

section \<open>Descriptor batches\<close>

definition encode_fd_entry :: "FdEntry \<Rightarrow> bytes result" where
  "encode_fd_entry e =
     (if entry_kind e \<notin> {MAP, RETIRE} then Inl (ProtocolError ''unknown FD entry kind'')
      else let flags = entry_flags e in
      if flags AND NOT (FLAG_WRITABLE OR FLAG_ARENA) \<noteq> 0
      then Inl (ProtocolError ''unknown FD entry flags'')
      else if entry_kind e = RETIRE \<and> flags \<noteq> 0
      then Inl (ProtocolError ''RETIRE entries cannot carry MAP flags'')
      else
      ebind (u64 (buffer_id e) ''buffer ID'') (\<lambda>_.
      ebind (u64 (entry_generation e) ''generation'') (\<lambda>_.
      ebind (u64 (allocation_id e) ''allocation ID'') (\<lambda>_.
      ebind (u64 (invocation_id e) ''invocation ID'') (\<lambda>_.
      ebind (u64 (byte_length e) ''byte length'') (\<lambda>_.
      pack FD_ENTRY_fmt [VI (entry_kind_value (entry_kind e)), VI flags, VI (buffer_id e),
        VI (entry_generation e), VI (allocation_id e), VI (invocation_id e),
        VI (byte_length e)]))))))"

definition decode_fd_entry :: "bytes \<Rightarrow> nat \<Rightarrow> FdEntry result" where
  "decode_fd_entry pl off =
     ebind (unpack_from FD_ENTRY_fmt pl off) (\<lambda>v.
     ebind (or_raise (FdEntryKind_of (vint (v ! 0))) (ProtocolError ''unknown FD entry value'')) (\<lambda>k.
     let flags = vint (v ! 1) in
     if flags AND NOT (FLAG_WRITABLE OR FLAG_ARENA) \<noteq> 0
     then Inl (ProtocolError ''unknown FD entry flags'')
     else if k = RETIRE \<and> flags \<noteq> 0
     then Inl (ProtocolError ''RETIRE entries cannot carry MAP flags'')
     else Inr \<lparr>entry_kind = k, buffer_id = vint (v ! 2), entry_generation = vint (v ! 3),
                allocation_id = vint (v ! 4), invocation_id = vint (v ! 5),
                byte_length = vint (v ! 6), entry_flags = flags\<rparr>))"

definition encode_fd_batch :: "int \<Rightarrow> FdBatch \<Rightarrow> bytes result" where
  "encode_fd_batch rid b =
     (if entries b = [] \<or> length (entries b) > MAX_FD_ENTRIES
      then Inl (ProtocolError ''FD batch entry count must be between 1 and 240'')
      else
      ebind (u64 (transfer_id b) ''transfer ID'') (\<lambda>_.
      ebind (u64 (batch_generation b) ''session generation'') (\<lambda>_.
      ebind (emap encode_fd_entry (entries b)) (\<lambda>encoded.
      ebind (pack FD_BATCH_fmt [VI (transfer_id b), VI (batch_generation b),
               VI (int (length (entries b))), VI (int (fd_count b)), VI FD_BATCH_TRANSACTIONAL,
               VI 0]) (\<lambda>fixed.
      encode_frame FD_TRANSFER rid (fixed @ concat encoded))))))"

definition decode_fd_batch :: "bytes \<Rightarrow> (int \<times> FdBatch) result" where
  "decode_fd_batch packet =
     ebind (decode_frame packet) (\<lambda>frame.
     if kind frame \<noteq> FD_TRANSFER \<or> length (payload frame) < calcsize FD_BATCH_fmt
     then Inl (ProtocolError ''unexpected or truncated FD transfer frame'')
     else ebind (unpack_from FD_BATCH_fmt (payload frame) 0) (\<lambda>v.
     let count = nat (vint (v ! 2)) in
     if count = 0 \<or> count > MAX_FD_ENTRIES \<or> vint (v ! 4) \<noteq> FD_BATCH_TRANSACTIONAL
        \<or> vint (v ! 5) \<noteq> 0
     then Inl (ProtocolError ''invalid FD batch header'')
     else if length (payload frame) \<noteq> calcsize FD_BATCH_fmt + count * calcsize FD_ENTRY_fmt
     then Inl (ProtocolError ''FD batch payload size mismatch'')
     else
     ebind (emap (\<lambda>i. decode_fd_entry (payload frame)
                        (calcsize FD_BATCH_fmt + i * calcsize FD_ENTRY_fmt)) [0..<count]) (\<lambda>es.
     let maps = length (filter (\<lambda>e. entry_kind e = MAP) es) in
     if int maps \<noteq> vint (v ! 3)
     then Inl (ProtocolError ''FD count does not match ordered MAP entries'')
     else Inr (request_id frame,
       \<lparr>transfer_id = vint (v ! 0), batch_generation = vint (v ! 1), entries = es\<rparr>))))"

section \<open>Acknowledgements, errors and empty frames\<close>

definition encode_fd_ack :: "int \<Rightarrow> FdAck \<Rightarrow> bytes result" where
  "encode_fd_ack rid a =
     ebind (utf8_encode (ack_error a)) (\<lambda>error.
     if length error > MAX_ERROR_BYTES
     then Inl (ProtocolError ''FD acknowledgement error exceeds its limit'')
     else ebind (pack FD_ACK_fmt [VI (ack_transfer_id a), VI (ack_generation a),
                   VI (status_value (ack_status a)), VI 0, VI (int (length error)), VI 0]) (\<lambda>fixed.
     encode_frame FD_TRANSFER_ACK rid (fixed @ error)))"

definition decode_fd_ack :: "bytes \<Rightarrow> (int \<times> FdAck) result" where
  "decode_fd_ack packet =
     ebind (decode_frame packet) (\<lambda>frame.
     if kind frame \<noteq> FD_TRANSFER_ACK \<or> length (payload frame) < calcsize FD_ACK_fmt
     then Inl (ProtocolError ''unexpected or truncated FD acknowledgement'')
     else ebind (unpack_from FD_ACK_fmt (payload frame) 0) (\<lambda>v.
     let error_length = nat (vint (v ! 4)) in
     if vint (v ! 3) \<noteq> 0 \<or> vint (v ! 5) \<noteq> 0 \<or> error_length > MAX_ERROR_BYTES
        \<or> length (payload frame) \<noteq> calcsize FD_ACK_fmt + error_length
     then Inl (ProtocolError ''invalid FD acknowledgement'')
     else let error_bytes = drop (calcsize FD_ACK_fmt) (payload frame) in
     ebind (validate_utf8 error_bytes ''FD acknowledgement error'') (\<lambda>_.
     ebind (or_raise (Status_of (vint (v ! 2))) (ProtocolError ''unknown acknowledgement status'')) (\<lambda>st.
     ebind (utf8_decode error_bytes) (\<lambda>text.
     Inr (request_id frame, \<lparr>ack_transfer_id = vint (v ! 0), ack_generation = vint (v ! 1),
                              ack_status = st, ack_error = text\<rparr>))))))"

definition encode_error :: "int \<Rightarrow> ErrorResponse \<Rightarrow> bytes result" where
  "encode_error rid e =
     ebind (utf8_encode (message e)) (\<lambda>msg.
     if error_status e = OK \<or> length msg > MAX_ERROR_BYTES
     then Inl (ProtocolError ''invalid error response'')
     else ebind (pack ERROR_fmt [VI (status_value (error_status e)), VI (int (length msg))]) (\<lambda>fixed.
     encode_frame ERROR_RESPONSE rid (fixed @ msg)))"

definition decode_error :: "bytes \<Rightarrow> (int \<times> ErrorResponse) result" where
  "decode_error packet =
     ebind (decode_frame packet) (\<lambda>frame.
     if kind frame \<noteq> ERROR_RESPONSE \<or> length (payload frame) < calcsize ERROR_fmt
     then Inl (ProtocolError ''unexpected or truncated error response'')
     else ebind (unpack_from ERROR_fmt (payload frame) 0) (\<lambda>v.
     let len = nat (vint (v ! 1)); msg = drop (calcsize ERROR_fmt) (payload frame) in
     if vint (v ! 0) = 0 \<or> len > MAX_ERROR_BYTES \<or> length msg \<noteq> len
     then Inl (ProtocolError ''invalid error response'')
     else
     ebind (validate_utf8 msg ''error response'') (\<lambda>_.
     ebind (or_raise (Status_of (vint (v ! 0))) (ProtocolError ''unknown error status'')) (\<lambda>st.
     ebind (utf8_decode msg) (\<lambda>text.
     Inr (request_id frame, \<lparr>error_status = st, message = text\<rparr>))))))"

definition encode_empty :: "int \<Rightarrow> Kind \<Rightarrow> bytes result" where
  "encode_empty rid k =
     (if k \<notin> {PING, PONG, SHUTDOWN, SHUTDOWN_ACK}
      then Inl (ProtocolError ''frame kind does not have an empty payload'')
      else encode_frame k rid [])"

end
