(* ===== verification/Control_Laws.thy ===== *)
theory Control_Laws
  imports Control_Protocol
begin

text \<open>
  The laws of the runtime control codecs: every message type is an instance of
  \<open>strict_codec\<close>, so encoding and decoding are mutually inverse and a packet is accepted
  exactly when some message encodes to it.
\<close>

lemma reject_u64 [err_simps]: "u64 v n = Inr u \<longleftrightarrow> fits 8 v"
  by (auto simp: u64_def fits_def err_simps)

lemma reject_u32 [err_simps]: "u32 v n = Inr u \<longleftrightarrow> fits 4 v"
  by (auto simp: u32_def fits_def err_simps)

lemma validate_utf8_iff [err_simps]: "validate_utf8 bs n = Inr u \<longleftrightarrow> ok (utf8_decode bs)"
  by (simp add: validate_utf8_def err_simps)

lemma pack_parts:
  assumes "pack fs vs = Inr bs" "calcsize fs = n"
  shows "length bs = n"
  using assms pack_length by blast

text \<open>Reading back a fixed header that is the start of a payload.\<close>

lemma unpack_header:
  assumes "pack fs vs = Inr h" "exact fs vs"
  shows "unpack_from fs (h @ rest) 0 = Inr vs" "length h = calcsize fs"
  using assms unpack_from_0_pack pack_length by blast+

lemma fits_length: "n < 256 ^ k \<Longrightarrow> fits k (int n)"
  by (simp add: fits_def)

section \<open>Frames\<close>

lemma encode_frame_iff:
  "encode_frame k rid pl = Inr w \<longleftrightarrow>
     fits 8 rid \<and> length pl \<le> 69600 \<and>
     (\<exists>header. pack FRAME_fmt [VI MAGIC, VI ABI_MAJOR, VI ABI_MINOR, VI (kind_value k), VI 0,
        VI 32, VI (int (length pl)), VI rid] = Inr header \<and> w = header @ pl)"
  by (auto simp: encode_frame_def err_simps control_consts)

lemma frame_exact:
  "fits 8 rid \<Longrightarrow> n \<le> 69600 \<Longrightarrow> exact FRAME_fmt [VI MAGIC, VI ABI_MAJOR, VI ABI_MINOR,
     VI (kind_value k), VI 0, VI 32, VI (int n), VI rid]"
  by (simp add: FRAME_fmt_def control_consts) (simp add: fits_def)

lemma decode_encode_frame:
  assumes "encode_frame k rid pl = Inr w"
  shows "decode_frame w = Inr \<lparr>kind = k, request_id = rid, payload = pl\<rparr>"
proof -
  obtain header where h: "pack FRAME_fmt [VI MAGIC, VI ABI_MAJOR, VI ABI_MINOR, VI (kind_value k),
      VI 0, VI 32, VI (int (length pl)), VI rid] = Inr header"
    and w: "w = header @ pl" and b: "fits 8 rid" "length pl \<le> 69600"
    using assms by (auto simp: encode_frame_iff)
  have "length header = 32"
    using pack_length[OF h] by (simp add: FRAME_fmt_def)
  moreover have "unpack_from FRAME_fmt w 0 = Inr [VI MAGIC, VI ABI_MAJOR, VI ABI_MINOR,
      VI (kind_value k), VI 0, VI 32, VI (int (length pl)), VI rid]"
    unfolding w by (rule unpack_from_0_pack[OF frame_exact[OF b] h])
  ultimately show ?thesis
    using b by (simp add: decode_frame_def w control_consts enum_eqs Let_def)
               (simp add: Kind_of_eq[THEN iffD2])
qed

lemma unpack_FRAME: "\<exists>a b c d e f g h. unpack FRAME_fmt w = [VI a, VI b, VI c, VI d, VI e, VI f, VI g, VI h]"
  by (simp add: FRAME_fmt_def)

lemma encode_decode_frame:
  assumes "decode_frame w = Inr f"
  shows "encode_frame (kind f) (request_id f) (payload f) = Inr w"
proof -
  have l: "32 \<le> length w" "length w \<le> 69632"
    using assms by (auto simp: decode_frame_def control_consts split: if_splits)
  obtain a b c d e g h i where v: "unpack FRAME_fmt w = [VI a, VI b, VI c, VI d, VI e, VI g, VI h, VI i]"
    using unpack_FRAME by blast
  have u: "unpack_from FRAME_fmt w 0 = Inr (unpack FRAME_fmt w)"
    using l by (simp add: unpack_from_def FRAME_fmt_def)
  have p: "pack FRAME_fmt (unpack FRAME_fmt w) = Inr (take 32 w)"
    and x: "exact FRAME_fmt (unpack FRAME_fmt w)"
    using l pack_unpack[of FRAME_fmt w] exact_unpack[of FRAME_fmt w]
    by (simp_all add: FRAME_fmt_def)
  have f: "a = MAGIC" "b = ABI_MAJOR" "\<not> c > ABI_MINOR" "e = 0" "g = 32" "h = int (length w) - 32"
    "d = kind_value (kind f)" "i = request_id f" "payload f = drop 32 w"
    using assms u l unfolding decode_frame_def v
    by (auto simp: err_simps Let_def control_consts split: if_splits)
  have "fits 2 c" "fits 8 i"
    using x unfolding v by (simp_all add: FRAME_fmt_def)
  then show ?thesis
    using p f l unfolding v
    by (auto simp: encode_frame_iff fits_def ABI_MINOR_def of_nat_diff)
qed

definition enc_frame :: "Frame \<Rightarrow> bytes result" where
  "enc_frame f = encode_frame (kind f) (request_id f) (payload f)"

interpretation frame: strict_codec enc_frame decode_frame
proof
  fix f w assume "enc_frame f = Inr w"
  then show "decode_frame w = Inr f"
    by (simp add: enc_frame_def decode_encode_frame)
next
  fix f w assume "decode_frame w = Inr f"
  then show "enc_frame f = Inr w"
    by (simp add: enc_frame_def encode_decode_frame)
qed

section \<open>Slots of the counted arrays\<close>

lemma ROLE_form: "\<exists>a b c. unpack ROLE_fmt w = [VI a, VI b, VI c]"
  by (simp add: ROLE_fmt_def)

lemma FD_ENTRY_form:
  "\<exists>a b c d e f g. unpack FD_ENTRY_fmt w = [VI a, VI b, VI c, VI d, VI e, VI f, VI g]"
  by (simp add: FD_ENTRY_fmt_def)

text \<open>What a decoder may conclude from the header it unpacked.\<close>

lemma unpack_from_parts:
  assumes "unpack_from fs data off = Inr v"
  shows "exact fs v" "pack fs v = Inr (region off (calcsize fs) data)"
    "off + calcsize fs \<le> length data" "v = unpack fs (drop off data)"
  using assms exact_unpack[of fs "drop off data"] pack_unpack[of fs "drop off data"]
  by (auto simp: unpack_from_eq_Inr region_def)

interpretation role_slot: strict_slot_codec encode_role decode_role "calcsize ROLE_fmt"
proof
  fix r bs assume e: "encode_role r = Inr bs"
  then show "length bs = calcsize ROLE_fmt"
    unfolding encode_role_def by (rule pack_length)
  fix data off assume d: "region off (calcsize ROLE_fmt) data = bs" "off + calcsize ROLE_fmt \<le> length data"
  have "unpack_from ROLE_fmt data off = Inr [VI (role_value r), VI 0, VI 0]"
    using e d unfolding encode_role_def
    by (intro unpack_from_at[where bs = bs] pack_imp_exact[where bs = bs])
       (auto simp: ROLE_fmt_def)
  then show "decode_role data off = Inr r"
    by (simp add: decode_role_def DescriptorRole_of_eq[THEN iffD2])
next
  fix data off r assume d: "decode_role data off = Inr r"
  then obtain v where v: "unpack_from ROLE_fmt data off = Inr v" "vint (v ! 1) = 0" "vint (v ! 2) = 0"
    "role_value r = vint (v ! 0)"
    by (auto simp: decode_role_def err_simps split: if_splits)
  moreover obtain a b c where "v = [VI a, VI b, VI c]"
    using unpack_from_parts(4)[OF v(1)] ROLE_form by metis
  ultimately show "encode_role r = Inr (region off (calcsize ROLE_fmt) data)"
    using unpack_from_parts(2)[OF v(1)] by (simp add: encode_role_def)
qed

lemma encode_fd_entry_iff:
  "encode_fd_entry e = Inr bs \<longleftrightarrow>
     entry_flags e AND NOT (FLAG_WRITABLE OR FLAG_ARENA) = 0 \<and>
     \<not> (entry_kind e = RETIRE \<and> entry_flags e \<noteq> 0) \<and>
     fits 8 (buffer_id e) \<and> fits 8 (entry_generation e) \<and> fits 8 (allocation_id e) \<and>
     fits 8 (invocation_id e) \<and> fits 8 (byte_length e) \<and>
     pack FD_ENTRY_fmt [VI (entry_kind_value (entry_kind e)), VI (entry_flags e), VI (buffer_id e),
        VI (entry_generation e), VI (allocation_id e), VI (invocation_id e), VI (byte_length e)] = Inr bs"
  by (cases "entry_kind e") (auto simp: encode_fd_entry_def Let_def err_simps)

interpretation fd_entry_slot: strict_slot_codec encode_fd_entry decode_fd_entry "calcsize FD_ENTRY_fmt"
proof
  fix e bs assume e: "encode_fd_entry e = Inr bs"
  then show "length bs = calcsize FD_ENTRY_fmt"
    by (auto simp: encode_fd_entry_iff dest: pack_length)
  fix data off
  assume d: "region off (calcsize FD_ENTRY_fmt) data = bs" "off + calcsize FD_ENTRY_fmt \<le> length data"
  let ?vs = "[VI (entry_kind_value (entry_kind e)), VI (entry_flags e), VI (buffer_id e),
      VI (entry_generation e), VI (allocation_id e), VI (invocation_id e), VI (byte_length e)]"
  have p: "pack FD_ENTRY_fmt ?vs = Inr bs"
    using e by (simp only: encode_fd_entry_iff)
  have "exact FD_ENTRY_fmt ?vs"
    by (rule pack_imp_exact[OF p]) (simp add: FD_ENTRY_fmt_def)
  then have "unpack_from FD_ENTRY_fmt data off = Inr ?vs"
    by (rule unpack_from_at[OF _ p d])
  then show "decode_fd_entry data off = Inr e"
    using e by (auto simp: decode_fd_entry_def encode_fd_entry_iff FdEntryKind_of_eq[THEN iffD2] Let_def)
next
  fix data off e assume d: "decode_fd_entry data off = Inr e"
  then obtain v where v: "unpack_from FD_ENTRY_fmt data off = Inr v"
    by (auto simp: decode_fd_entry_def err_simps)
  moreover obtain i j k l m n q where l: "v = [VI i, VI j, VI k, VI l, VI m, VI n, VI q]"
    using unpack_from_parts(4)[OF v] FD_ENTRY_form by metis
  ultimately show "encode_fd_entry e = Inr (region off (calcsize FD_ENTRY_fmt) data)"
    using d unpack_from_parts(1,2)[OF v]
    by (auto simp: encode_fd_entry_iff decode_fd_entry_def err_simps Let_def FD_ENTRY_fmt_def
        split: if_splits)
qed

section \<open>Startup\<close>

lemma ok_utf8_decode: "utf8_encode s = Inr bs \<Longrightarrow> ok (utf8_decode bs)"
  using utf8_decode_encode by (auto simp: ok_def)

lemma decode_encode_startup:
  assumes "encode_startup r rid s = Inr w"
  shows "decode_startup r w = Inr (rid, s)"
proof -
  let ?vs = "[VI (session_generation s), VB (interface_fingerprint s),
     VB (configuration_fingerprint s), VI (metadata_fingerprint s), VI (capabilities s),
     VI (operation_count s), VI (protocol_version s), VI (configuration_schema_version s),
     VI (int (length (config s))), VI (int (length (descriptor_roles s))),
     VI (log_mode_value (log_mode s)), VI (status_value (startup_status s))]"
  obtain fixed roles where fx: "pack STARTUP_fmt ?vs = Inr fixed"
    and ro: "emap encode_role (descriptor_roles s) = Inr roles"
    and fr: "encode_frame (startup_kind r) rid (fixed @ concat roles @ config s) = Inr w"
    and c: "ok (utf8_decode (config s))" "length (config s) \<le> 65536"
      "length (interface_fingerprint s) = 32" "length (configuration_fingerprint s) = 32"
      "length (descriptor_roles s) \<le> 16"
    and f: "fits 8 (session_generation s)" "fits 8 (metadata_fingerprint s)"
      "fits 8 (capabilities s)" "fits 4 (operation_count s)" "fits 4 (protocol_version s)"
      "fits 4 (configuration_schema_version s)"
    using assms unfolding encode_startup_def
    by (auto simp: err_simps control_consts split: if_splits)
  have x: "exact STARTUP_fmt ?vs"
    using fx c by (rule_tac pack_imp_exact) (simp_all add: STARTUP_fmt_def)
  have lf: "length fixed = 112"
    using pack_length[OF fx] by (simp add: STARTUP_fmt_def)
  have lr: "length (concat roles) = length (descriptor_roles s) * 8"
    using role_slot.slots_length[OF ro] by (simp add: ROLE_fmt_def)
  have "emap (\<lambda>i. decode_role (fixed @ concat roles @ config s) (112 + i * calcsize ROLE_fmt))
      [0..<length (descriptor_roles s)] = Inr (descriptor_roles s)"
    using lf lr by (intro role_slot.slots_decode[OF ro]) (simp_all add: ROLE_fmt_def region_def)
  then show ?thesis
    using c lf lr unpack_from_0_pack[OF x fx, of "concat roles @ config s"]
    by (simp add: decode_startup_def decode_encode_frame[OF fr] control_consts Let_def ROLE_fmt_def
        validate_utf8_def LogMode_of_eq[THEN iffD2] Status_of_eq[THEN iffD2] STARTUP_fmt_def)
qed

lemma STARTUP_form:
  "\<exists>a b c d e f g h i j k l. unpack STARTUP_fmt w = [VI a, VB b, VB c, VI d, VI e, VI f, VI g, VI h,
     VI i, VI j, VI k, VI l]"
  by (simp add: STARTUP_fmt_def)

lemma encode_frame_of_decoded:
  assumes "decode_frame w = Inr f" "kind f = k" "payload f = pl"
  shows "encode_frame k (request_id f) pl = Inr w"
  using encode_decode_frame[OF assms(1)] assms(2,3) by simp

lemma payload_parts:
  assumes "n \<le> length pl"
  shows "region 0 k pl @ drop k pl = pl" "take k pl = region 0 k pl"
  by (simp_all add: region_def)

lemma encode_decode_startup:
  assumes "decode_startup r w = Inr (rid, s)"
  shows "encode_startup r rid s = Inr w"
proof -
  obtain f v where f: "decode_frame w = Inr f" "kind f = startup_kind r"
    and v: "unpack_from STARTUP_fmt (payload f) 0 = Inr v"
    using assms by (auto simp: decode_startup_def err_simps split: if_splits)
  obtain a b c d e g h i j k l m where vs: "v = [VI a, VB b, VB c, VI d, VI e, VI g, VI h, VI i,
      VI j, VI k, VI l, VI m]"
    using unpack_from_parts(4)[OF v] STARTUP_form by metis
  note parts = unpack_from_parts[OF v]
  have x: "fits 8 a" "length b = 32" "length c = 32" "fits 8 d" "fits 8 e" "fits 4 g" "fits 4 h"
    "fits 4 i" "0 \<le> j" "0 \<le> k"
    using parts(1) unfolding vs by (simp_all add: STARTUP_fmt_def) (simp_all add: fits_def)
  define n where "n = nat k"
  define cfg where "cfg = drop (112 + n * 8) (payload f)"
  have len: "112 + n * 8 + nat j = length (payload f)" "nat j \<le> 65536" "n \<le> 16"
    and roles: "emap (\<lambda>i. decode_role (payload f) (112 + i * calcsize ROLE_fmt)) [0..<n]
      = Inr (descriptor_roles s)"
    and cfg: "ok (utf8_decode cfg)" "config s = cfg"
    and enums: "log_mode_value (log_mode s) = l" "status_value (startup_status s) = m"
    and rid: "rid = request_id f"
    and fields: "session_generation s = a" "interface_fingerprint s = b"
      "configuration_fingerprint s = c" "metadata_fingerprint s = d" "capabilities s = e"
      "operation_count s = g" "protocol_version s = h" "configuration_schema_version s = i"
    using assms f v unfolding decode_startup_def vs
    by (auto simp: err_simps Let_def control_consts n_def cfg_def ROLE_fmt_def split: if_splits)
  have ln: "length (descriptor_roles s) = n"
    using emap_length[OF roles] by simp
  have lc: "length cfg = nat j"
    using len by (simp add: cfg_def)
  obtain bss where bss: "emap encode_role (descriptor_roles s) = Inr bss"
    "concat bss = region 112 (n * 8) (payload f)"
    using role_slot.slots_encode[OF roles] len by (auto simp: ROLE_fmt_def)
  have "region 0 112 (payload f) @ concat bss @ cfg = payload f"
    using append_take_drop_id[of "n * 8" "drop 112 (payload f)"] append_take_drop_id[of 112 "payload f"]
    by (simp add: bss(2) cfg_def region_def add.commute)
  then have "encode_frame (startup_kind r) rid (region 0 112 (payload f) @ concat bss @ cfg) = Inr w"
    using encode_frame_of_decoded[OF f refl] rid by simp
  moreover have "pack STARTUP_fmt v = Inr (region 0 112 (payload f))"
    using parts(2) by (simp add: STARTUP_fmt_def)
  ultimately show ?thesis
    using bss(1) len x cfg enums fields lc ln unfolding vs
    by (simp add: encode_startup_def err_simps control_consts n_def reject_u64[THEN iffD2]
        reject_u32[THEN iffD2] validate_utf8_def)
qed

definition enc_startup :: "bool \<Rightarrow> int \<times> Startup \<Rightarrow> bytes result" where
  "enc_startup response m = encode_startup response (fst m) (snd m)"

interpretation startup: strict_codec "enc_startup response" "decode_startup response" for response
proof
  fix m w assume "enc_startup response m = Inr w"
  then show "decode_startup response w = Inr m"
    using decode_encode_startup[of response "fst m" "snd m" w] by (simp add: enc_startup_def)
next
  fix m w assume "decode_startup response w = Inr m"
  then show "enc_startup response m = Inr w"
    using encode_decode_startup[of response w "fst m" "snd m"] by (simp add: enc_startup_def)
qed

section \<open>Descriptor batches\<close>

lemma FD_BATCH_form: "\<exists>a b c d e f. unpack FD_BATCH_fmt w = [VI a, VI b, VI c, VI d, VI e, VI f]"
  by (simp add: FD_BATCH_fmt_def)

lemma encode_fd_batch_iff:
  "encode_fd_batch rid b = Inr w \<longleftrightarrow>
     entries b \<noteq> [] \<and> length (entries b) \<le> 240 \<and>
     fits 8 (transfer_id b) \<and> fits 8 (batch_generation b) \<and>
     (\<exists>encoded fixed. emap encode_fd_entry (entries b) = Inr encoded \<and>
        pack FD_BATCH_fmt [VI (transfer_id b), VI (batch_generation b),
          VI (int (length (entries b))), VI (int (fd_count b)), VI 1, VI 0] = Inr fixed \<and>
        encode_frame FD_TRANSFER rid (fixed @ concat encoded) = Inr w)"
  by (auto simp: encode_fd_batch_def err_simps control_consts FD_BATCH_TRANSACTIONAL_def
      split: if_splits)

lemma decode_encode_fd_batch:
  assumes "encode_fd_batch rid b = Inr w"
  shows "decode_fd_batch w = Inr (rid, b)"
proof -
  let ?vs = "[VI (transfer_id b), VI (batch_generation b), VI (int (length (entries b))),
      VI (int (fd_count b)), VI 1, VI 0]"
  obtain encoded fixed where en: "emap encode_fd_entry (entries b) = Inr encoded"
    and fx: "pack FD_BATCH_fmt ?vs = Inr fixed"
    and fr: "encode_frame FD_TRANSFER rid (fixed @ concat encoded) = Inr w"
    and c: "entries b \<noteq> []" "length (entries b) \<le> 240"
    using assms by (auto simp: encode_fd_batch_iff)
  have x: "exact FD_BATCH_fmt ?vs"
    by (rule pack_imp_exact[OF fx]) (simp add: FD_BATCH_fmt_def)
  have lf: "length fixed = 32"
    using pack_length[OF fx] by (simp add: FD_BATCH_fmt_def)
  have le: "length (concat encoded) = length (entries b) * 48"
    using fd_entry_slot.slots_length[OF en] by (simp add: FD_ENTRY_fmt_def)
  have "emap (\<lambda>i. decode_fd_entry (fixed @ concat encoded) (32 + i * calcsize FD_ENTRY_fmt))
      [0..<length (entries b)] = Inr (entries b)"
    using lf le by (intro fd_entry_slot.slots_decode[OF en]) (simp_all add: FD_ENTRY_fmt_def region_def)
  then show ?thesis
    using c lf le unpack_from_0_pack[OF x fx, of "concat encoded"]
    by (simp add: decode_fd_batch_def decode_encode_frame[OF fr] control_consts Let_def
        FD_BATCH_TRANSACTIONAL_def fd_count_def FD_BATCH_fmt_def FD_ENTRY_fmt_def)
qed

lemma encode_decode_fd_batch:
  assumes "decode_fd_batch w = Inr (rid, b)"
  shows "encode_fd_batch rid b = Inr w"
proof -
  obtain f v where f: "decode_frame w = Inr f" "kind f = FD_TRANSFER"
    and v: "unpack_from FD_BATCH_fmt (payload f) 0 = Inr v"
    using assms by (auto simp: decode_fd_batch_def err_simps split: if_splits)
  obtain i j k l m n where vs: "v = [VI i, VI j, VI k, VI l, VI m, VI n]"
    using unpack_from_parts(4)[OF v] FD_BATCH_form by metis
  note parts = unpack_from_parts[OF v]
  have x: "fits 8 i" "fits 8 j" "0 \<le> k"
    using parts(1) unfolding vs by (simp_all add: FD_BATCH_fmt_def) (simp_all add: fits_def)
  define c where "c = nat k"
  have es: "emap (\<lambda>i. decode_fd_entry (payload f) (32 + i * calcsize FD_ENTRY_fmt)) [0..<c]
      = Inr (entries b)"
    and len: "length (payload f) = 32 + c * 48" "c \<noteq> 0" "c \<le> 240"
    and fields: "m = 1" "n = 0" "l = int (fd_count b)" "transfer_id b = i" "batch_generation b = j"
    and rid: "rid = request_id f"
    using assms f v unfolding decode_fd_batch_def vs
    by (auto simp: err_simps Let_def control_consts c_def FD_ENTRY_fmt_def FD_BATCH_fmt_def
        FD_BATCH_TRANSACTIONAL_def fd_count_def split: if_splits)
  obtain bss where bss: "emap encode_fd_entry (entries b) = Inr bss"
    "concat bss = region 32 (c * 48) (payload f)"
    using fd_entry_slot.slots_encode[OF es] len by (auto simp: FD_ENTRY_fmt_def)
  have ln: "length (entries b) = c"
    using emap_length[OF es] by simp
  have "region 0 32 (payload f) @ concat bss = payload f"
    using len by (simp add: bss(2) region_def)
  then have "encode_frame FD_TRANSFER rid (region 0 32 (payload f) @ concat bss) = Inr w"
    using encode_frame_of_decoded[OF f refl] rid by simp
  moreover have "pack FD_BATCH_fmt v = Inr (region 0 32 (payload f))"
    using parts(2) by (simp add: FD_BATCH_fmt_def)
  ultimately show ?thesis
    using bss(1) x fields ln len unfolding vs
    by (auto simp: encode_fd_batch_iff c_def)
qed

definition enc_fd_batch :: "int \<times> FdBatch \<Rightarrow> bytes result" where
  "enc_fd_batch m = encode_fd_batch (fst m) (snd m)"

interpretation fd_batch: strict_codec enc_fd_batch decode_fd_batch
proof
  fix m w assume "enc_fd_batch m = Inr w"
  then show "decode_fd_batch w = Inr m"
    using decode_encode_fd_batch[of "fst m" "snd m" w] by (simp add: enc_fd_batch_def)
next
  fix m w assume "decode_fd_batch w = Inr m"
  then show "enc_fd_batch m = Inr w"
    using encode_decode_fd_batch[of w "fst m" "snd m"] by (simp add: enc_fd_batch_def)
qed

section \<open>Acknowledgements and error responses\<close>

lemma FD_ACK_form: "\<exists>a b c d e f. unpack FD_ACK_fmt w = [VI a, VI b, VI c, VI d, VI e, VI f]"
  by (simp add: FD_ACK_fmt_def)

lemma ERROR_form: "\<exists>a b. unpack ERROR_fmt w = [VI a, VI b]"
  by (simp add: ERROR_fmt_def)

lemma encode_fd_ack_iff:
  "encode_fd_ack rid a = Inr w \<longleftrightarrow>
     (\<exists>error fixed. utf8_encode (ack_error a) = Inr error \<and> length error \<le> 1024 \<and>
        pack FD_ACK_fmt [VI (ack_transfer_id a), VI (ack_generation a),
          VI (status_value (ack_status a)), VI 0, VI (int (length error)), VI 0] = Inr fixed \<and>
        encode_frame FD_TRANSFER_ACK rid (fixed @ error) = Inr w)"
  by (cases "utf8_encode (ack_error a)")
     (auto simp: encode_fd_ack_def err_simps control_consts split: if_splits)

lemma decode_encode_fd_ack:
  assumes "encode_fd_ack rid a = Inr w"
  shows "decode_fd_ack w = Inr (rid, a)"
proof -
  obtain error fixed where er: "utf8_encode (ack_error a) = Inr error" "length error \<le> 1024"
    and fx: "pack FD_ACK_fmt [VI (ack_transfer_id a), VI (ack_generation a),
        VI (status_value (ack_status a)), VI 0, VI (int (length error)), VI 0] = Inr fixed"
    and fr: "encode_frame FD_TRANSFER_ACK rid (fixed @ error) = Inr w"
    using assms by (auto simp: encode_fd_ack_iff)
  have x: "exact FD_ACK_fmt [VI (ack_transfer_id a), VI (ack_generation a),
        VI (status_value (ack_status a)), VI 0, VI (int (length error)), VI 0]"
    by (rule pack_imp_exact[OF fx]) (simp add: FD_ACK_fmt_def)
  have "length fixed = 32"
    using pack_length[OF fx] by (simp add: FD_ACK_fmt_def)
  then show ?thesis
    using er unpack_from_0_pack[OF x fx, of error] utf8_decode_encode[OF er(1)]
    by (simp add: decode_fd_ack_def decode_encode_frame[OF fr] control_consts Let_def
        validate_utf8_def Status_of_eq[THEN iffD2] FD_ACK_fmt_def)
qed

lemma encode_decode_fd_ack:
  assumes "decode_fd_ack w = Inr (rid, a)"
  shows "encode_fd_ack rid a = Inr w"
proof -
  obtain f v where f: "decode_frame w = Inr f" "kind f = FD_TRANSFER_ACK"
    and v: "unpack_from FD_ACK_fmt (payload f) 0 = Inr v"
    using assms by (auto simp: decode_fd_ack_def err_simps split: if_splits)
  obtain i j k l m n where vs: "v = [VI i, VI j, VI k, VI l, VI m, VI n]"
    using unpack_from_parts(4)[OF v] FD_ACK_form by metis
  note parts = unpack_from_parts[OF v]
  have m: "0 \<le> m"
    using parts(1) unfolding vs by (simp add: FD_ACK_fmt_def) (simp add: fits_def)
  define error where "error = drop 32 (payload f)"
  have fields: "l = 0" "n = 0" "ack_transfer_id a = i" "ack_generation a = j"
      "status_value (ack_status a) = k" "utf8_decode error = Inr (ack_error a)"
    and len: "length (payload f) = 32 + nat m" "nat m \<le> 1024"
    and rid: "rid = request_id f"
    using assms f v unfolding decode_fd_ack_def vs
    by (auto simp: err_simps Let_def control_consts FD_ACK_fmt_def error_def split: if_splits)
  have "region 0 32 (payload f) @ error = payload f"
    by (simp add: error_def region_def)
  then have "encode_frame FD_TRANSFER_ACK rid (region 0 32 (payload f) @ error) = Inr w"
    using encode_frame_of_decoded[OF f refl] rid by simp
  moreover have "pack FD_ACK_fmt v = Inr (region 0 32 (payload f))"
    using parts(2) by (simp add: FD_ACK_fmt_def)
  moreover have "length error = nat m"
    using len by (simp add: error_def)
  ultimately show ?thesis
    using utf8_encode_decode[OF fields(6)] fields len m unfolding vs
    by (auto simp: encode_fd_ack_iff)
qed

definition enc_fd_ack :: "int \<times> FdAck \<Rightarrow> bytes result" where
  "enc_fd_ack m = encode_fd_ack (fst m) (snd m)"

interpretation fd_ack: strict_codec enc_fd_ack decode_fd_ack
proof
  fix m w assume "enc_fd_ack m = Inr w"
  then show "decode_fd_ack w = Inr m"
    using decode_encode_fd_ack[of "fst m" "snd m" w] by (simp add: enc_fd_ack_def)
next
  fix m w assume "decode_fd_ack w = Inr m"
  then show "enc_fd_ack m = Inr w"
    using encode_decode_fd_ack[of w "fst m" "snd m"] by (simp add: enc_fd_ack_def)
qed

lemma encode_error_iff:
  "encode_error rid e = Inr w \<longleftrightarrow>
     (\<exists>msg fixed. utf8_encode (message e) = Inr msg \<and> error_status e \<noteq> OK \<and> length msg \<le> 1024 \<and>
        pack ERROR_fmt [VI (status_value (error_status e)), VI (int (length msg))] = Inr fixed \<and>
        encode_frame ERROR_RESPONSE rid (fixed @ msg) = Inr w)"
  by (cases "utf8_encode (message e)")
     (auto simp: encode_error_def err_simps control_consts split: if_splits)

lemma status_value_0 [simp]: "status_value s = 0 \<longleftrightarrow> s = OK"
  by (cases s) auto

lemma decode_encode_error:
  assumes "encode_error rid e = Inr w"
  shows "decode_error w = Inr (rid, e)"
proof -
  obtain msg fixed where er: "utf8_encode (message e) = Inr msg" "length msg \<le> 1024"
      "error_status e \<noteq> OK"
    and fx: "pack ERROR_fmt [VI (status_value (error_status e)), VI (int (length msg))] = Inr fixed"
    and fr: "encode_frame ERROR_RESPONSE rid (fixed @ msg) = Inr w"
    using assms by (auto simp: encode_error_iff)
  have x: "exact ERROR_fmt [VI (status_value (error_status e)), VI (int (length msg))]"
    by (rule pack_imp_exact[OF fx]) (simp add: ERROR_fmt_def)
  have "length fixed = 8"
    using pack_length[OF fx] by (simp add: ERROR_fmt_def)
  then show ?thesis
    using er unpack_from_0_pack[OF x fx, of msg] utf8_decode_encode[OF er(1)]
    by (simp add: decode_error_def decode_encode_frame[OF fr] control_consts Let_def
        validate_utf8_def Status_of_eq[THEN iffD2] ERROR_fmt_def)
qed

lemma encode_decode_error:
  assumes "decode_error w = Inr (rid, e)"
  shows "encode_error rid e = Inr w"
proof -
  obtain f v where f: "decode_frame w = Inr f" "kind f = ERROR_RESPONSE"
    and v: "unpack_from ERROR_fmt (payload f) 0 = Inr v"
    using assms by (auto simp: decode_error_def err_simps split: if_splits)
  obtain i j where vs: "v = [VI i, VI j]"
    using unpack_from_parts(4)[OF v] ERROR_form by metis
  note parts = unpack_from_parts[OF v]
  have j: "0 \<le> j"
    using parts(1) unfolding vs by (simp add: ERROR_fmt_def) (simp add: fits_def)
  define msg where "msg = drop 8 (payload f)"
  have fields: "status_value (error_status e) = i" "i \<noteq> 0" "utf8_decode msg = Inr (message e)"
    and len: "length msg = nat j" "nat j \<le> 1024"
    and rid: "rid = request_id f"
    using assms f v unfolding decode_error_def vs
    by (auto simp: err_simps Let_def control_consts ERROR_fmt_def msg_def split: if_splits)
  have "region 0 8 (payload f) @ msg = payload f"
    by (simp add: msg_def region_def)
  then have "encode_frame ERROR_RESPONSE rid (region 0 8 (payload f) @ msg) = Inr w"
    using encode_frame_of_decoded[OF f refl] rid by simp
  moreover have "pack ERROR_fmt v = Inr (region 0 8 (payload f))"
    using parts(2) by (simp add: ERROR_fmt_def)
  ultimately show ?thesis
    using utf8_encode_decode[OF fields(3)] fields len j unfolding vs
    by (auto simp: encode_error_iff)
qed

definition enc_error :: "int \<times> ErrorResponse \<Rightarrow> bytes result" where
  "enc_error m = encode_error (fst m) (snd m)"

interpretation error_response: strict_codec enc_error decode_error
proof
  fix m w assume "enc_error m = Inr w"
  then show "decode_error w = Inr m"
    using decode_encode_error[of "fst m" "snd m" w] by (simp add: enc_error_def)
next
  fix m w assume "decode_error w = Inr m"
  then show "enc_error m = Inr w"
    using encode_decode_error[of w "fst m" "snd m"] by (simp add: enc_error_def)
qed

end
