(* ===== verification/Sdk_Control.thy ===== *)
theory Sdk_Control
  imports Control_Laws
begin

text \<open>
  The plugin SDK's own copy of the control protocol,
  \<open>packages/wmfs-plugin/wmfs_plugin/control.py\<close>. A worker links only this copy, the
  runtime only \<open>control.py\<close> of \<open>wmfs\<close>; the two differ in how checks are grouped and in
  messages. The parity lemmas show that they accept and produce the same packets, so the
  codec laws of the runtime carry over and a session may mix the two sides.
\<close>

definition sdk_uint :: "int \<Rightarrow> string \<Rightarrow> nat \<Rightarrow> unit result" where
  "sdk_uint v name bits = reject (\<not> (0 \<le> v \<and> v < 2 ^ bits)) (ProtocolError (name @ '' is outside uint''))"

definition sdk_utf8 :: "bytes \<Rightarrow> string \<Rightarrow> unit result" where
  "sdk_utf8 value name =
     reject (\<not> ok (utf8_decode value)) (ProtocolError (name @ '' is not valid UTF-8''))"

definition sdk_encode_frame :: "Kind \<Rightarrow> int \<Rightarrow> bytes \<Rightarrow> bytes result" where
  "sdk_encode_frame k rid pl =
     ebind (sdk_uint rid ''request ID'' 64) (\<lambda>_.
     if length pl > MAX_PACKET_BYTES - FRAME_HEADER_SIZE
     then Inl (ProtocolError ''control frame exceeds the packet limit'')
     else ebind (pack FRAME_fmt [VI MAGIC, VI ABI_MAJOR, VI ABI_MINOR, VI (kind_value k), VI 0,
                   VI (int FRAME_HEADER_SIZE), VI (int (length pl)), VI rid])
            (\<lambda>header. Inr (header @ pl)))"

definition sdk_decode_frame :: "bytes \<Rightarrow> Frame result" where
  "sdk_decode_frame packet =
     (if length packet < 32 \<or> length packet > MAX_PACKET_BYTES
      then Inl (ProtocolError ''invalid control packet size'')
      else ebind (unpack_from FRAME_fmt packet 0) (\<lambda>v.
        let magic = vint (v ! 0); major = vint (v ! 1); minor = vint (v ! 2);
            knd = vint (v ! 3); flags = vint (v ! 4); header = vint (v ! 5);
            size = vint (v ! 6); request = vint (v ! 7) in
        if magic \<noteq> MAGIC \<or> major \<noteq> ABI_MAJOR \<or> minor > ABI_MINOR
        then Inl (ProtocolError ''unsupported control frame ABI'')
        else if flags \<noteq> 0 \<or> header \<noteq> 32 \<or> size \<noteq> int (length packet) - 32
        then Inl (ProtocolError ''invalid control frame header or size'')
        else ebind (or_raise (Kind_of knd) (ProtocolError ''unknown control frame kind''))
          (\<lambda>parsed. Inr \<lparr>kind = parsed, request_id = request, payload = drop 32 packet\<rparr>)))"

definition sdk_encode_startup :: "bool \<Rightarrow> int \<Rightarrow> Startup \<Rightarrow> bytes result" where
  "sdk_encode_startup response rid s =
     ebind (sdk_utf8 (config s) ''configuration'') (\<lambda>_.
     if length (config s) > MAX_CONFIG_BYTES \<or> length (interface_fingerprint s) \<noteq> 32
        \<or> length (configuration_fingerprint s) \<noteq> 32
     then Inl (ProtocolError ''invalid startup variable field'')
     else if length (descriptor_roles s) > MAX_DESCRIPTOR_ROLES
     then Inl (ProtocolError ''too many startup descriptor roles'')
     else
     ebind (sdk_uint (session_generation s) ''session generation'' 64) (\<lambda>_.
     ebind (sdk_uint (metadata_fingerprint s) ''metadata fingerprint'' 64) (\<lambda>_.
     ebind (sdk_uint (capabilities s) ''capabilities'' 64) (\<lambda>_.
     ebind (sdk_uint (operation_count s) ''operation count'' 32) (\<lambda>_.
     ebind (sdk_uint (protocol_version s) ''protocol version'' 32) (\<lambda>_.
     ebind (sdk_uint (configuration_schema_version s) ''configuration schema version'' 32) (\<lambda>_.
     ebind (pack STARTUP_fmt
        [VI (session_generation s), VB (interface_fingerprint s), VB (configuration_fingerprint s),
         VI (metadata_fingerprint s), VI (capabilities s), VI (operation_count s),
         VI (protocol_version s), VI (configuration_schema_version s),
         VI (int (length (config s))), VI (int (length (descriptor_roles s))),
         VI (log_mode_value (log_mode s)), VI (status_value (startup_status s))]) (\<lambda>fixed.
     ebind (emap (\<lambda>r. pack ROLE_fmt [VI (role_value r), VI 0, VI 0]) (descriptor_roles s)) (\<lambda>roles.
     sdk_encode_frame (if response then STARTUP_RESPONSE else STARTUP_REQUEST) rid
       (fixed @ concat roles @ config s))))))))))"

definition sdk_decode_role :: "bytes \<Rightarrow> nat \<Rightarrow> DescriptorRole result" where
  "sdk_decode_role pl off =
     ebind (unpack_from ROLE_fmt pl off) (\<lambda>v.
     if vint (v ! 1) \<noteq> 0 \<or> vint (v ! 2) \<noteq> 0
     then Inl (ProtocolError ''invalid descriptor role flags'')
     else or_raise (DescriptorRole_of (vint (v ! 0))) (ProtocolError ''unknown descriptor role''))"

definition sdk_decode_startup :: "bool \<Rightarrow> bytes \<Rightarrow> (int \<times> Startup) result" where
  "sdk_decode_startup response packet =
     ebind (sdk_decode_frame packet) (\<lambda>f.
     let expected = (if response then STARTUP_RESPONSE else STARTUP_REQUEST) in
     if kind f \<noteq> expected \<or> length (payload f) < 112
     then Inl (ProtocolError ''unexpected or truncated startup frame'')
     else ebind (unpack_from STARTUP_fmt (payload f) 0) (\<lambda>v.
     let config_len = nat (vint (v ! 8)); role_count = nat (vint (v ! 9));
         fin = 112 + role_count * 8 in
     if config_len > MAX_CONFIG_BYTES \<or> role_count > MAX_DESCRIPTOR_ROLES
        \<or> fin + config_len \<noteq> length (payload f)
     then Inl (ProtocolError ''startup payload size mismatch'')
     else
     ebind (emap (\<lambda>i. sdk_decode_role (payload f) (112 + i * 8)) [0..<role_count]) (\<lambda>roles.
     let cfg = drop fin (payload f) in
     ebind (sdk_utf8 cfg ''configuration'') (\<lambda>_.
     ebind (or_raise (LogMode_of (vint (v ! 10))) (ProtocolError ''unknown startup enum value'')) (\<lambda>log.
     ebind (or_raise (Status_of (vint (v ! 11))) (ProtocolError ''unknown startup enum value'')) (\<lambda>st.
     Inr (request_id f,
       \<lparr>session_generation = vint (v ! 0), interface_fingerprint = vbytes (v ! 1),
        configuration_fingerprint = vbytes (v ! 2), metadata_fingerprint = vint (v ! 3),
        capabilities = vint (v ! 4), operation_count = vint (v ! 5),
        protocol_version = vint (v ! 6), configuration_schema_version = vint (v ! 7),
        config = cfg, descriptor_roles = roles, log_mode = log, startup_status = st\<rparr>)))))))"

definition sdk_encode_fd_entry :: "FdEntry \<Rightarrow> bytes result" where
  "sdk_encode_fd_entry e =
     (if entry_kind e \<notin> {MAP, RETIRE} then Inl (ProtocolError ''unknown FD entry kind'')
      else let flags = entry_flags e in
      if flags AND NOT 3 \<noteq> 0 \<or> (entry_kind e = RETIRE \<and> flags \<noteq> 0)
      then Inl (ProtocolError ''invalid FD entry flags'')
      else
      ebind (sdk_uint (buffer_id e) ''buffer ID'' 64) (\<lambda>_.
      ebind (sdk_uint (entry_generation e) ''generation'' 64) (\<lambda>_.
      ebind (sdk_uint (allocation_id e) ''allocation ID'' 64) (\<lambda>_.
      ebind (sdk_uint (invocation_id e) ''invocation ID'' 64) (\<lambda>_.
      ebind (sdk_uint (byte_length e) ''byte length'' 64) (\<lambda>_.
      pack FD_ENTRY_fmt [VI (entry_kind_value (entry_kind e)), VI flags, VI (buffer_id e),
        VI (entry_generation e), VI (allocation_id e), VI (invocation_id e),
        VI (byte_length e)]))))))"

definition sdk_encode_fd_batch :: "int \<Rightarrow> FdBatch \<Rightarrow> bytes result" where
  "sdk_encode_fd_batch rid b =
     (if entries b = [] \<or> length (entries b) > MAX_FD_ENTRIES
      then Inl (ProtocolError ''FD batch entry count must be between 1 and 240'')
      else
      ebind (sdk_uint (transfer_id b) ''transfer ID'' 64) (\<lambda>_.
      ebind (sdk_uint (batch_generation b) ''session generation'' 64) (\<lambda>_.
      ebind (emap sdk_encode_fd_entry (entries b)) (\<lambda>encoded.
      ebind (pack FD_BATCH_fmt [VI (transfer_id b), VI (batch_generation b),
               VI (int (length (entries b))), VI (int (fd_count b)), VI 1, VI 0]) (\<lambda>fixed.
      sdk_encode_frame FD_TRANSFER rid (fixed @ concat encoded))))))"

definition sdk_decode_fd_entry :: "bytes \<Rightarrow> nat \<Rightarrow> FdEntry result" where
  "sdk_decode_fd_entry pl off =
     ebind (unpack_from FD_ENTRY_fmt pl off) (\<lambda>v.
     ebind (or_raise (FdEntryKind_of (vint (v ! 0))) (ProtocolError ''unknown FD entry value'')) (\<lambda>k.
     let flags = vint (v ! 1) in
     if flags AND NOT 3 \<noteq> 0 \<or> (k = RETIRE \<and> flags \<noteq> 0)
     then Inl (ProtocolError ''invalid FD entry flags'')
     else Inr \<lparr>entry_kind = k, buffer_id = vint (v ! 2), entry_generation = vint (v ! 3),
                allocation_id = vint (v ! 4), invocation_id = vint (v ! 5),
                byte_length = vint (v ! 6), entry_flags = flags\<rparr>))"

definition sdk_decode_fd_batch :: "bytes \<Rightarrow> (int \<times> FdBatch) result" where
  "sdk_decode_fd_batch packet =
     ebind (sdk_decode_frame packet) (\<lambda>f.
     if kind f \<noteq> FD_TRANSFER \<or> length (payload f) < 32
     then Inl (ProtocolError ''unexpected or truncated FD transfer frame'')
     else ebind (unpack_from FD_BATCH_fmt (payload f) 0) (\<lambda>v.
     let count = nat (vint (v ! 2)) in
     if count = 0 \<or> count > 240 \<or> vint (v ! 4) \<noteq> 1 \<or> vint (v ! 5) \<noteq> 0
        \<or> length (payload f) \<noteq> 32 + count * 48
     then Inl (ProtocolError ''invalid FD batch header'')
     else
     ebind (emap (\<lambda>i. sdk_decode_fd_entry (payload f) (32 + i * 48)) [0..<count]) (\<lambda>es.
     let batch = \<lparr>transfer_id = vint (v ! 0), batch_generation = vint (v ! 1), entries = es\<rparr> in
     if int (fd_count batch) \<noteq> vint (v ! 3)
     then Inl (ProtocolError ''FD count does not match ordered MAP entries'')
     else Inr (request_id f, batch))))"

definition sdk_encode_fd_ack :: "int \<Rightarrow> FdAck \<Rightarrow> bytes result" where
  "sdk_encode_fd_ack rid a =
     ebind (utf8_encode (ack_error a)) (\<lambda>error.
     if length error > MAX_ERROR_BYTES
     then Inl (ProtocolError ''FD acknowledgement error exceeds its limit'')
     else ebind (pack FD_ACK_fmt [VI (ack_transfer_id a), VI (ack_generation a),
                   VI (status_value (ack_status a)), VI 0, VI (int (length error)), VI 0]) (\<lambda>fixed.
     sdk_encode_frame FD_TRANSFER_ACK rid (fixed @ error)))"

definition sdk_decode_fd_ack :: "bytes \<Rightarrow> (int \<times> FdAck) result" where
  "sdk_decode_fd_ack packet =
     ebind (sdk_decode_frame packet) (\<lambda>f.
     if kind f \<noteq> FD_TRANSFER_ACK \<or> length (payload f) < 32
     then Inl (ProtocolError ''unexpected or truncated FD acknowledgement'')
     else ebind (unpack_from FD_ACK_fmt (payload f) 0) (\<lambda>v.
     let len = nat (vint (v ! 4)); error = drop 32 (payload f) in
     if vint (v ! 3) \<noteq> 0 \<or> vint (v ! 5) \<noteq> 0 \<or> len > 1024 \<or> length error \<noteq> len
     then Inl (ProtocolError ''invalid FD acknowledgement'')
     else
     ebind (sdk_utf8 error ''FD acknowledgement error'') (\<lambda>_.
     ebind (or_raise (Status_of (vint (v ! 2))) (ProtocolError ''unknown acknowledgement status'')) (\<lambda>parsed.
     ebind (utf8_decode error) (\<lambda>text.
     Inr (request_id f, \<lparr>ack_transfer_id = vint (v ! 0), ack_generation = vint (v ! 1),
                          ack_status = parsed, ack_error = text\<rparr>))))))"

definition sdk_encode_error :: "int \<Rightarrow> ErrorResponse \<Rightarrow> bytes result" where
  "sdk_encode_error rid e =
     ebind (utf8_encode (message e)) (\<lambda>msg.
     if error_status e = OK \<or> length msg > MAX_ERROR_BYTES
     then Inl (ProtocolError ''invalid error response'')
     else ebind (pack ERROR_fmt [VI (status_value (error_status e)), VI (int (length msg))]) (\<lambda>fixed.
     sdk_encode_frame ERROR_RESPONSE rid (fixed @ msg)))"

definition sdk_decode_error :: "bytes \<Rightarrow> (int \<times> ErrorResponse) result" where
  "sdk_decode_error packet =
     ebind (sdk_decode_frame packet) (\<lambda>f.
     if kind f \<noteq> ERROR_RESPONSE \<or> length (payload f) < 8
     then Inl (ProtocolError ''unexpected or truncated error response'')
     else ebind (unpack_from ERROR_fmt (payload f) 0) (\<lambda>v.
     let len = nat (vint (v ! 1)); msg = drop 8 (payload f) in
     if vint (v ! 0) = 0 \<or> len > 1024 \<or> length msg \<noteq> len
     then Inl (ProtocolError ''invalid error response'')
     else
     ebind (sdk_utf8 msg ''error response'') (\<lambda>_.
     ebind (or_raise (Status_of (vint (v ! 0))) (ProtocolError ''unknown error status'')) (\<lambda>parsed.
     ebind (utf8_decode msg) (\<lambda>text.
     Inr (request_id f, \<lparr>error_status = parsed, message = text\<rparr>))))))"

definition sdk_encode_empty :: "int \<Rightarrow> Kind \<Rightarrow> bytes result" where
  "sdk_encode_empty rid k =
     (if k \<notin> {PING, PONG, SHUTDOWN, SHUTDOWN_ACK}
      then Inl (ProtocolError ''frame kind does not have an empty payload'')
      else sdk_encode_frame k rid [])"

section \<open>Parity with the runtime's copy\<close>

text \<open>Two results agree when they succeed together and with the same value.\<close>

lemma value_of_bind_cong:
  "value_of m = value_of m' \<Longrightarrow> (\<And>x. value_of (f x) = value_of (g x)) \<Longrightarrow>
   value_of (ebind m f) = value_of (ebind m' g)"
  by (cases m; cases m') auto

lemma value_of_if_cong:
  "b = c \<Longrightarrow> (b \<Longrightarrow> value_of x = value_of y) \<Longrightarrow> (\<not> b \<Longrightarrow> value_of x' = value_of y') \<Longrightarrow>
   value_of (if b then x else x') = value_of (if c then y else y')"
  by simp

text \<open>Two checks of one copy may be a single check of the other.\<close>

lemma value_of_checks_cong:
  "b \<longleftrightarrow> c \<or> d \<Longrightarrow> (\<not> b \<Longrightarrow> value_of x = value_of y) \<Longrightarrow>
   value_of (if b then Inl e else x) = value_of (if c then Inl e1 else if d then Inl e2 else y)"
  by simp

lemma value_of_emap_cong:
  "(\<And>x. value_of (f x) = value_of (g x)) \<Longrightarrow> value_of (emap f xs) = value_of (emap g xs)"
  by (induction xs) (auto intro!: Option.bind_cong)

lemma sdk_uint_parity [simp]:
  "value_of (sdk_uint v n 64) = value_of (u64 v n)" "value_of (sdk_uint v n 32) = value_of (u32 v n)"
  by (auto simp: sdk_uint_def u64_def u32_def reject_def)

lemma sdk_utf8_parity [simp]: "sdk_utf8 = validate_utf8"
  by (auto simp: fun_eq_iff sdk_utf8_def validate_utf8_def)

lemmas parity_consts = control_consts control_fmts FLAG_WRITABLE_def FLAG_ARENA_def
  FD_BATCH_TRANSACTIONAL_def startup_kind_def

lemma sdk_encode_frame_parity [simp]:
  "value_of (sdk_encode_frame k rid pl) = value_of (encode_frame k rid pl)"
  unfolding sdk_encode_frame_def encode_frame_def
  by (rule value_of_bind_cong) auto

lemma sdk_decode_frame_parity [simp]:
  "value_of (sdk_decode_frame p) = value_of (decode_frame p)"
  unfolding sdk_decode_frame_def decode_frame_def Let_def
  by (rule value_of_if_cong, simp add: parity_consts, simp, rule value_of_bind_cong)
     (auto simp: parity_consts split: if_splits)

lemma sdk_decode_role_parity [simp]: "sdk_decode_role = decode_role"
  by (simp add: fun_eq_iff sdk_decode_role_def decode_role_def)

lemma sdk_encode_startup_parity:
  "value_of (sdk_encode_startup response rid s) = value_of (encode_startup response rid s)"
  unfolding sdk_encode_startup_def encode_startup_def encode_role_def
  by (rule value_of_bind_cong, simp, rule value_of_checks_cong, simp add: parity_consts disj_assoc)
     (intro value_of_bind_cong value_of_if_cong; simp add: parity_consts)

lemma sdk_decode_startup_parity:
  "value_of (sdk_decode_startup response p) = value_of (decode_startup response p)"
  unfolding sdk_decode_startup_def decode_startup_def Let_def
  by (rule value_of_bind_cong, simp, rule value_of_if_cong, simp add: parity_consts, simp,
      rule value_of_bind_cong, simp add: parity_consts, rule value_of_checks_cong)
     (auto simp: parity_consts mult.commute intro!: Option.bind_cong)

lemma sdk_encode_fd_entry_parity [simp]:
  "value_of (sdk_encode_fd_entry e) = value_of (encode_fd_entry e)"
  unfolding sdk_encode_fd_entry_def encode_fd_entry_def Let_def
  by (auto simp: parity_consts intro!: Option.bind_cong)

lemma sdk_encode_fd_batch_parity:
  "value_of (sdk_encode_fd_batch rid b) = value_of (encode_fd_batch rid b)"
  unfolding sdk_encode_fd_batch_def encode_fd_batch_def Let_def
  by (intro value_of_bind_cong value_of_if_cong value_of_emap_cong) (auto simp: parity_consts)

lemma sdk_decode_fd_entry_parity [simp]:
  "value_of (sdk_decode_fd_entry pl off) = value_of (decode_fd_entry pl off)"
  unfolding sdk_decode_fd_entry_def decode_fd_entry_def Let_def
  by (intro value_of_bind_cong) (auto simp: parity_consts)

lemma sdk_decode_fd_batch_parity:
  "value_of (sdk_decode_fd_batch p) = value_of (decode_fd_batch p)"
  unfolding sdk_decode_fd_batch_def decode_fd_batch_def Let_def fd_count_def
  by (rule value_of_bind_cong, simp, rule value_of_if_cong, simp add: parity_consts, simp,
      rule value_of_bind_cong, simp add: parity_consts, rule value_of_checks_cong)
     (auto simp: parity_consts mult.commute intro!: Option.bind_cong value_of_emap_cong)

lemma sdk_encode_fd_ack_parity:
  "value_of (sdk_encode_fd_ack rid a) = value_of (encode_fd_ack rid a)"
  unfolding sdk_encode_fd_ack_def encode_fd_ack_def
  by (intro value_of_bind_cong value_of_if_cong) auto

lemma sdk_decode_fd_ack_parity:
  "value_of (sdk_decode_fd_ack p) = value_of (decode_fd_ack p)"
  unfolding sdk_decode_fd_ack_def decode_fd_ack_def Let_def
  by (intro value_of_bind_cong value_of_if_cong) (auto simp: parity_consts calcsize_def)

lemma sdk_encode_error_parity:
  "value_of (sdk_encode_error rid e) = value_of (encode_error rid e)"
  unfolding sdk_encode_error_def encode_error_def
  by (intro value_of_bind_cong value_of_if_cong) auto

lemma sdk_decode_error_parity:
  "value_of (sdk_decode_error p) = value_of (decode_error p)"
  unfolding sdk_decode_error_def decode_error_def Let_def
  by (intro value_of_bind_cong value_of_if_cong) (auto simp: parity_consts calcsize_def)

lemma sdk_encode_empty_parity:
  "value_of (sdk_encode_empty rid k) = value_of (encode_empty rid k)"
  by (simp add: sdk_encode_empty_def encode_empty_def)

end
