(* ===== verification/Control_Channel.thy ===== *)
theory Control_Channel
  imports Sdk_Control State_Result
begin

text \<open>
  Packets with descriptors over the control socket: \<open>recvmsg_strict\<close>, \<open>sendmsg_strict\<close> and
  their helpers in \<open>packages/wmfs/wmfs/protocol/control.py\<close> and the SDK's copies in
  \<open>packages/wmfs-plugin/wmfs_plugin/control.py\<close>.

  The state is the process's descriptor table: open descriptors and their descriptor flags.
  The kernel's part of \<open>recvmsg\<close>, which installs the received descriptors and returns the
  packet, the ancillary messages and the flags, is the argument \<open>recv\<close>; the part of
  \<open>sendmsg\<close> is the argument \<open>send\<close>.
\<close>

type_synonym fd_table = "int \<rightharpoonup> int"
type_synonym ancillary = "(int \<times> int \<times> bytes) list"

definition FD_CLOEXEC :: int where "FD_CLOEXEC = 1"
definition SOL_SOCKET :: int where "SOL_SOCKET = 1"
definition SCM_RIGHTS :: int where "SCM_RIGHTS = 1"
definition MSG_CTRUNC :: int where "MSG_CTRUNC = 8"
definition MSG_TRUNC :: int where "MSG_TRUNC = 32"

lemmas socket_consts = FD_CLOEXEC_def SOL_SOCKET_def SCM_RIGHTS_def MSG_CTRUNC_def MSG_TRUNC_def

text \<open>\<open>array.array("i")\<close>: \<open>frombytes\<close> on a multiple of four bytes and the constructor.\<close>

fun i32_list :: "bytes \<Rightarrow> int list" where
  "i32_list (a # b # c # d # r) =
     (let n = le_decode [a, b, c, d]
      in (if n < 2 ^ 31 then n else n - 2 ^ 32) # i32_list r)"
| "i32_list _ = []"

definition i32_bytes :: "int \<Rightarrow> bytes result" where
  "i32_bytes v = (if - (2 ^ 31) \<le> v \<and> v < 2 ^ 31 then Inr (le_encode 4 (v mod 2 ^ 32))
                  else Inl (OverflowError ''array item does not fit a signed int''))"

section \<open>Descriptors\<close>

text \<open>\<open>os.close\<close> in a loop that swallows \<open>OSError\<close>: a descriptor that is not open is skipped.\<close>

fun close_fds :: "int list \<Rightarrow> fd_table \<Rightarrow> fd_table" where
  "close_fds [] t = t"
| "close_fds (d # ds) t = close_fds ds (t(d := None))"

definition getfd :: "int \<Rightarrow> (fd_table, int) st" where
  "getfd d t = (case t d of None \<Rightarrow> (Inl (OSError ''fcntl''), t) | Some f \<Rightarrow> (Inr f, t))"

definition set_cloexec :: "int \<Rightarrow> (fd_table, unit) st" where
  "set_cloexec d =
     sbind (getfd d) (\<lambda>current.
     if current AND FD_CLOEXEC = 0 then smod (\<lambda>t. t(d \<mapsto> current OR FD_CLOEXEC)) else sret ())"

text \<open>The loop of \<open>_extract_fds\<close>; \<open>acc\<close> is the array built so far, closed when it raises.\<close>

fun extract_loop :: "ancillary \<Rightarrow> int list \<Rightarrow> (fd_table, int list) st" where
  "extract_loop [] acc =
     (if length acc > MAX_FD_ENTRIES
      then on_error (sraise (ProtocolError ''too many received file descriptors'')) (close_fds acc)
      else sret acc)"
| "extract_loop ((level, knd, data) # r) acc =
     (if level \<noteq> SOL_SOCKET \<or> knd \<noteq> SCM_RIGHTS
      then on_error (sraise (ProtocolError ''unsupported ancillary control message'')) (close_fds acc)
      else if length data mod 4 \<noteq> 0
      then on_error (sraise (ProtocolError ''malformed SCM_RIGHTS payload'')) (close_fds acc)
      else extract_loop r (acc @ i32_list data))"

definition extract_fds :: "ancillary \<Rightarrow> (fd_table, int list) st" where
  "extract_fds anc =
     (if length anc > 1
      then sraise (ProtocolError ''multiple ancillary control messages are not supported'')
      else extract_loop anc [])"

definition expected_fd_count :: "Frame \<Rightarrow> bytes \<Rightarrow> nat result" where
  "expected_fd_count frame packet =
     (if kind frame = FD_TRANSFER
      then ebind (decode_fd_batch packet) (\<lambda>(_, b). Inr (fd_count b))
      else if kind frame = STARTUP_REQUEST
      then ebind (decode_startup False packet) (\<lambda>(_, s). Inr (length (descriptor_roles s)))
      else if kind frame = STARTUP_RESPONSE
      then ebind (decode_startup True packet) (\<lambda>(_, s). Inr (length (descriptor_roles s)))
      else Inr 0)"

section \<open>Receive and send\<close>

definition check_received :: "bytes \<Rightarrow> int \<Rightarrow> int list \<Rightarrow> (fd_table, bytes \<times> int list) st" where
  "check_received packet flags ds =
     (if flags AND (MSG_TRUNC OR MSG_CTRUNC) \<noteq> 0
      then sraise (ProtocolError ''control datagram or ancillary data was truncated'')
      else if packet = [] then sraise (EOFError ''control socket closed'')
      else
      sbind (slift (decode_frame packet)) (\<lambda>frame.
      sbind (slift (expected_fd_count frame packet)) (\<lambda>expected.
      if length ds \<noteq> expected
      then sraise (ProtocolError ''received FD count does not match the control frame'')
      else sbind (sall set_cloexec ds) (\<lambda>_. sret (packet, ds)))))"

definition recvmsg_strict ::
  "(bytes \<times> ancillary \<times> int) result \<Rightarrow> (fd_table, bytes \<times> int list) st" where
  "recvmsg_strict recv =
     sbind (slift recv) (\<lambda>(packet, anc, flags).
     sbind (extract_fds anc) (\<lambda>ds. on_error (check_received packet flags ds) (close_fds ds)))"

definition sendmsg_strict ::
  "(bytes \<Rightarrow> ancillary \<Rightarrow> nat result) \<Rightarrow> bytes \<Rightarrow> int list \<Rightarrow> unit result" where
  "sendmsg_strict send packet ds =
     ebind (decode_frame packet) (\<lambda>frame.
     ebind (expected_fd_count frame packet) (\<lambda>expected.
     if length ds \<noteq> expected \<or> length ds > MAX_FD_ENTRIES
     then Inl (ProtocolError ''sent FD count does not match the control frame'')
     else
     ebind (if ds = [] then Inr []
            else ebind (emap i32_bytes ds) (\<lambda>bs. Inr [(SOL_SOCKET, SCM_RIGHTS, concat bs)])) (\<lambda>anc.
     ebind (send packet anc) (\<lambda>sent.
     if sent \<noteq> length packet then Inl (RuntimeError ''control packet was not sent atomically'')
     else Inr ()))))"

section \<open>The SDK's copies\<close>

fun sdk_extract_loop :: "ancillary \<Rightarrow> int list \<Rightarrow> (fd_table, int list) st" where
  "sdk_extract_loop [] acc =
     (if length acc > 240
      then on_error (sraise (ProtocolError ''too many received file descriptors'')) (close_fds acc)
      else sret acc)"
| "sdk_extract_loop ((level, knd, data) # r) acc =
     (if level \<noteq> SOL_SOCKET \<or> knd \<noteq> SCM_RIGHTS \<or> length data mod 4 \<noteq> 0
      then on_error (sraise (ProtocolError ''unsupported or malformed ancillary control message''))
             (close_fds acc)
      else sdk_extract_loop r (acc @ i32_list data))"

definition sdk_extract_fds :: "ancillary \<Rightarrow> (fd_table, int list) st" where
  "sdk_extract_fds anc =
     (if length anc > 1
      then sraise (ProtocolError ''multiple ancillary control messages are not supported'')
      else sdk_extract_loop anc [])"

definition sdk_expected_fd_count :: "Frame \<Rightarrow> bytes \<Rightarrow> nat result" where
  "sdk_expected_fd_count frame packet =
     (if kind frame = FD_TRANSFER
      then ebind (sdk_decode_fd_batch packet) (\<lambda>(_, b). Inr (fd_count b))
      else if kind frame = STARTUP_REQUEST
      then ebind (sdk_decode_startup False packet) (\<lambda>(_, s). Inr (length (descriptor_roles s)))
      else if kind frame = STARTUP_RESPONSE
      then ebind (sdk_decode_startup True packet) (\<lambda>(_, s). Inr (length (descriptor_roles s)))
      else Inr 0)"

definition sdk_check_received :: "bytes \<Rightarrow> int \<Rightarrow> int list \<Rightarrow> (fd_table, bytes \<times> int list) st" where
  "sdk_check_received packet flags ds =
     (if flags AND (MSG_TRUNC OR MSG_CTRUNC) \<noteq> 0
      then sraise (ProtocolError ''control datagram or ancillary data was truncated'')
      else if packet = [] then sraise (EOFError ''control socket closed'')
      else
      sbind (slift (sdk_decode_frame packet)) (\<lambda>frame.
      sbind (slift (sdk_expected_fd_count frame packet)) (\<lambda>expected.
      if length ds \<noteq> expected
      then sraise (ProtocolError ''received FD count does not match the control frame'')
      else sbind (sall set_cloexec ds) (\<lambda>_. sret (packet, ds)))))"

definition sdk_recvmsg_strict ::
  "(bytes \<times> ancillary \<times> int) result \<Rightarrow> (fd_table, bytes \<times> int list) st" where
  "sdk_recvmsg_strict recv =
     sbind (slift recv) (\<lambda>(packet, anc, flags).
     sbind (sdk_extract_fds anc) (\<lambda>ds. on_error (sdk_check_received packet flags ds) (close_fds ds)))"

definition sdk_sendmsg_strict ::
  "(bytes \<Rightarrow> ancillary \<Rightarrow> nat result) \<Rightarrow> bytes \<Rightarrow> int list \<Rightarrow> unit result" where
  "sdk_sendmsg_strict send packet ds =
     ebind (sdk_decode_frame packet) (\<lambda>frame.
     ebind (sdk_expected_fd_count frame packet) (\<lambda>expected.
     if length ds \<noteq> expected \<or> length ds > 240
     then Inl (ProtocolError ''sent FD count does not match the control frame'')
     else
     ebind (if ds \<noteq> []
            then ebind (emap i32_bytes ds) (\<lambda>bs. Inr [(SOL_SOCKET, SCM_RIGHTS, concat bs)])
            else Inr []) (\<lambda>anc.
     ebind (send packet anc) (\<lambda>sent.
     if sent \<noteq> length packet then Inl (RuntimeError ''control packet was not sent atomically'')
     else Inr ()))))"

section \<open>Close-on-exec\<close>

definition with_cloexec :: "int list \<Rightarrow> fd_table \<Rightarrow> fd_table" where
  "with_cloexec ds t =
     (\<lambda>d. if d \<in> set ds then map_option (\<lambda>f. f OR FD_CLOEXEC) (t d) else t d)"

lemma close_fds_eq: "close_fds ds t = (\<lambda>d. if d \<in> set ds then None else t d)"
  by (induction ds arbitrary: t) (auto simp: fun_eq_iff)

lemma sall_set_cloexec_Cons:
  "sall set_cloexec (d # ds) t =
   (case t d of None \<Rightarrow> (Inl (OSError ''fcntl''), t)
    | Some f \<Rightarrow> sall set_cloexec ds (t(d \<mapsto> f OR FD_CLOEXEC)))"
proof -
  have "f OR 1 = f" if "f AND 1 \<noteq> 0" for f :: int
    using that by (simp add: and_one_eq or_one_eq mod_2_eq_odd split: if_splits)
  then show ?thesis
    by (auto simp: set_cloexec_def getfd_def st_run socket_consts fun_upd_idem split: option.splits)
qed

lemma sall_set_cloexec_Inr:
  "sall set_cloexec ds t = (Inr u, t') \<longleftrightarrow> set ds \<subseteq> dom t \<and> t' = with_cloexec ds t"
proof (induction ds arbitrary: t)
  case Nil
  then show ?case by (auto simp: st_simps with_cloexec_def)
next
  case (Cons d ds)
  show ?case
  proof (cases "t d")
    case (Some f)
    then have "with_cloexec ds (t(d \<mapsto> f OR FD_CLOEXEC)) = with_cloexec (d # ds) t"
      by (auto simp: with_cloexec_def fun_eq_iff socket_consts or.assoc)
    moreover have "set ds \<subseteq> dom (t(d \<mapsto> f OR FD_CLOEXEC)) \<longleftrightarrow> set (d # ds) \<subseteq> dom t"
      using Some by auto
    moreover have "sall set_cloexec (d # ds) t = sall set_cloexec ds (t(d \<mapsto> f OR FD_CLOEXEC))"
      using Some by (simp only: sall_set_cloexec_Cons option.case)
    ultimately show ?thesis
      by (simp only: Cons.IH)
  qed (auto simp: sall_set_cloexec_Cons simp del: sall.simps)
qed

text \<open>The loop changes only the flags of the received descriptors, also when it raises.\<close>

lemma close_after_cloexec:
  "sall set_cloexec ds t = (r, t') \<Longrightarrow> set ds \<subseteq> set es \<Longrightarrow> close_fds es t' = close_fds es t"
proof (induction ds arbitrary: t)
  case (Cons d ds)
  show ?case
  proof (cases "t d")
    case None
    with Cons.prems show ?thesis by (simp add: sall_set_cloexec_Cons del: sall.simps)
  next
    case (Some f)
    have "sall set_cloexec (d # ds) t = sall set_cloexec ds (t(d \<mapsto> f OR FD_CLOEXEC))"
      using Some by (simp only: sall_set_cloexec_Cons option.case)
    then have "sall set_cloexec ds (t(d \<mapsto> f OR FD_CLOEXEC)) = (r, t')"
      using Cons.prems(1) by (simp only:)
    then have "close_fds es t' = close_fds es (t(d \<mapsto> f OR FD_CLOEXEC))"
      by (rule Cons.IH) (use Cons.prems(2) in simp)
    also have "\<dots> = close_fds es t"
      using Cons.prems(2) by (auto simp: close_fds_eq fun_eq_iff)
    finally show ?thesis .
  qed
qed (auto simp: st_simps)

section \<open>Laws of the receiver\<close>

text \<open>The descriptors the kernel installed: those of every well-formed \<open>SCM_RIGHTS\<close> message.\<close>

definition received_fds :: "ancillary \<Rightarrow> int list" where
  "received_fds anc = concat (map (\<lambda>(l, k, data).
     if l = SOL_SOCKET \<and> k = SCM_RIGHTS \<and> length data mod 4 = 0 then i32_list data else []) anc)"

definition well_formed_rights :: "ancillary \<Rightarrow> bool" where
  "well_formed_rights anc \<longleftrightarrow>
     anc = [] \<or> (\<exists>data. anc = [(SOL_SOCKET, SCM_RIGHTS, data)] \<and> length data mod 4 = 0)"

lemma extract_fds_Inr:
  "extract_fds anc t = (Inr ds, t') \<longleftrightarrow>
   well_formed_rights anc \<and> ds = received_fds anc \<and> length ds \<le> MAX_FD_ENTRIES \<and> t' = t"
  by (cases anc; cases "tl anc")
     (auto simp: extract_fds_def st_inv well_formed_rights_def received_fds_def MAX_FD_ENTRIES_def
        split: if_splits)

lemma extract_fds_Inl:
  "extract_fds anc t = (Inl e, t') \<Longrightarrow> length anc \<le> 1 \<Longrightarrow> t' = close_fds (received_fds anc) t"
  by (cases anc; cases "tl anc")
     (auto simp: extract_fds_def st_inv received_fds_def split: if_splits)

lemma check_received_Inr:
  "check_received packet flags ds t = (Inr r, t') \<longleftrightarrow>
   flags AND (MSG_TRUNC OR MSG_CTRUNC) = 0 \<and> packet \<noteq> [] \<and>
   (\<exists>f. decode_frame packet = Inr f \<and> expected_fd_count f packet = Inr (length ds)) \<and>
   set ds \<subseteq> dom t \<and> r = (packet, ds) \<and> t' = with_cloexec ds t"
  unfolding check_received_def
  by (auto simp: st_inv sall_set_cloexec_Inr split: if_splits)

lemma check_received_Inl:
  "check_received packet flags ds t = (Inl e, t') \<Longrightarrow> close_fds ds t' = close_fds ds t"
  unfolding check_received_def
  by (auto simp: st_inv split: if_splits dest: close_after_cloexec)

lemma recvmsg_strict_Inr:
  "recvmsg_strict (Inr (packet, anc, flags)) t = (Inr r, t') \<longleftrightarrow>
      r = (packet, received_fds anc) \<and>
      well_formed_rights anc \<and> length (received_fds anc) \<le> MAX_FD_ENTRIES \<and>
      flags AND (MSG_TRUNC OR MSG_CTRUNC) = 0 \<and> packet \<noteq> [] \<and>
      (\<exists>f. decode_frame packet = Inr f \<and>
           expected_fd_count f packet = Inr (length (received_fds anc))) \<and>
      set (received_fds anc) \<subseteq> dom t \<and> t' = with_cloexec (received_fds anc) t"
  unfolding recvmsg_strict_def
  by (auto simp: st_inv extract_fds_Inr check_received_Inr)

lemma recvmsg_strict_Inl:
  assumes "recvmsg_strict (Inr (packet, anc, flags)) t = (Inl e, t')" "length anc \<le> 1"
  shows "t' = close_fds (received_fds anc) t"
  using assms unfolding recvmsg_strict_def
  by (auto simp: st_inv extract_fds_Inr dest: extract_fds_Inl check_received_Inl)

section \<open>The SDK's copies behave the same\<close>

text \<open>Two methods agree when they reach the same state, succeed together and return the same.\<close>

definition agrees :: "('s, 'a) st \<Rightarrow> ('s, 'a) st \<Rightarrow> bool" where
  "agrees m n \<longleftrightarrow> (\<forall>s. value_of (fst (m s)) = value_of (fst (n s)) \<and> snd (m s) = snd (n s))"

lemma agrees_refl [simp]: "agrees m m"
  by (simp add: agrees_def)

lemma agrees_sraise [simp]: "agrees (sraise e) (sraise e')"
  by (simp add: agrees_def st_simps)

lemma agrees_slift: "value_of r = value_of r' \<Longrightarrow> agrees (slift r) (slift r')"
  by (simp add: agrees_def st_simps)

lemma agrees_sbind: "agrees m m' \<Longrightarrow> (\<And>x. agrees (f x) (f' x)) \<Longrightarrow> agrees (sbind m f) (sbind m' f')"
  unfolding agrees_def
proof (intro allI)
  fix s assume m: "\<forall>s. value_of (fst (m s)) = value_of (fst (m' s)) \<and> snd (m s) = snd (m' s)"
    and f: "\<And>x. \<forall>s. value_of (fst (f x s)) = value_of (fst (f' x s)) \<and> snd (f x s) = snd (f' x s)"
  obtain r s1 r' where "m s = (r, s1)" "m' s = (r', s1)" "value_of r = value_of r'"
    using m by (metis surjective_pairing)
  then show "value_of (fst (sbind m f s)) = value_of (fst (sbind m' f' s)) \<and>
             snd (sbind m f s) = snd (sbind m' f' s)"
    using f by (cases r; cases r') (auto simp: sbind_def)
qed

lemma agrees_on_error: "agrees m m' \<Longrightarrow> agrees (on_error m h) (on_error m' h)"
  unfolding agrees_def on_error_def
proof (intro allI)
  fix s assume m: "\<forall>s. value_of (fst (m s)) = value_of (fst (m' s)) \<and> snd (m s) = snd (m' s)"
  obtain r s1 r' where "m s = (r, s1)" "m' s = (r', s1)" "value_of r = value_of r'"
    using m by (metis surjective_pairing)
  then show "value_of (fst (case m s of (Inl e, s') \<Rightarrow> (Inl e, h s') | (Inr x, s') \<Rightarrow> (Inr x, s'))) =
    value_of (fst (case m' s of (Inl e, s') \<Rightarrow> (Inl e, h s') | (Inr x, s') \<Rightarrow> (Inr x, s'))) \<and>
    snd (case m s of (Inl e, s') \<Rightarrow> (Inl e, h s') | (Inr x, s') \<Rightarrow> (Inr x, s')) =
    snd (case m' s of (Inl e, s') \<Rightarrow> (Inl e, h s') | (Inr x, s') \<Rightarrow> (Inr x, s'))"
    by (cases r; cases r') auto
qed

lemma agrees_if: "(c \<Longrightarrow> agrees m m') \<Longrightarrow> (\<not> c \<Longrightarrow> agrees n n') \<Longrightarrow>
    agrees (if c then m else n) (if c then m' else n')"
  by simp

lemma sdk_extract_loop_agrees: "agrees (sdk_extract_loop anc acc) (extract_loop anc acc)"
  by (induction anc acc rule: extract_loop.induct)
     (auto simp: MAX_FD_ENTRIES_def intro: agrees_on_error)

lemma sdk_expected_fd_count_parity:
  "value_of (sdk_expected_fd_count f p) = value_of (expected_fd_count f p)"
  unfolding sdk_expected_fd_count_def expected_fd_count_def
  by (intro value_of_if_cong value_of_bind_cong)
     (auto simp: sdk_decode_fd_batch_parity sdk_decode_startup_parity)

lemma sdk_recvmsg_agrees: "agrees (sdk_recvmsg_strict recv) (recvmsg_strict recv)"
  unfolding sdk_recvmsg_strict_def recvmsg_strict_def sdk_extract_fds_def extract_fds_def
    sdk_check_received_def check_received_def
  by (auto intro!: agrees_sbind agrees_if agrees_on_error agrees_slift sdk_extract_loop_agrees
      simp: sdk_expected_fd_count_parity)

lemma sdk_sendmsg_parity:
  "value_of (sdk_sendmsg_strict send p ds) = value_of (sendmsg_strict send p ds)"
  unfolding sdk_sendmsg_strict_def sendmsg_strict_def
  by (cases "ds = []"; intro value_of_bind_cong)
     (simp_all add: sdk_expected_fd_count_parity MAX_FD_ENTRIES_def)

section \<open>A packet sent is a packet received\<close>

lemma sendmsg_strict_Inr:
  "sendmsg_strict send packet ds = Inr () \<longleftrightarrow>
   (\<exists>f bs. decode_frame packet = Inr f \<and> expected_fd_count f packet = Inr (length ds) \<and>
     length ds \<le> MAX_FD_ENTRIES \<and> emap i32_bytes ds = Inr bs \<and>
     send packet (if ds = [] then [] else [(SOL_SOCKET, SCM_RIGHTS, concat bs)]) = Inr (length packet))"
  unfolding sendmsg_strict_def
  by (auto simp: err_simps split: if_splits)

lemma decode_frame_nonempty: "decode_frame packet = Inr f \<Longrightarrow> packet \<noteq> []"
  by (auto simp: decode_frame_def control_consts)

text \<open>
  The kernel hands the receiver one descriptor of its own for each descriptor sent, open in
  its table, and truncates nothing.
\<close>

lemma send_then_receive:
  assumes sent: "sendmsg_strict send packet ds = Inr ()"
    and delivered: "well_formed_rights anc" "length (received_fds anc) = length ds"
      "set (received_fds anc) \<subseteq> dom t"
  shows "recvmsg_strict (Inr (packet, anc, 0)) t =
         (Inr (packet, received_fds anc), with_cloexec (received_fds anc) t)"
  using assms decode_frame_nonempty
  by (auto simp: sendmsg_strict_Inr recvmsg_strict_Inr)

text \<open>The number of descriptors a well-formed packet declares.\<close>

lemma batch_declares:
  assumes "encode_fd_batch rid b = Inr packet"
  obtains f where "decode_frame packet = Inr f" "expected_fd_count f packet = Inr (fd_count b)"
  using decode_encode_fd_batch[OF assms]
  by (auto simp: decode_fd_batch_def expected_fd_count_def err_simps split: if_splits)

lemma startup_declares:
  assumes "encode_startup response rid s = Inr packet"
  obtains f where "decode_frame packet = Inr f"
    "expected_fd_count f packet = Inr (length (descriptor_roles s))"
proof -
  obtain f where "decode_frame packet = Inr f" "kind f = startup_kind response"
    using decode_encode_startup[OF assms] by (auto simp: decode_startup_def err_simps split: if_splits)
  then show thesis
    using that decode_encode_startup[OF assms]
    by (cases response) (auto simp: expected_fd_count_def startup_kind_def)
qed

section \<open>The interface of the channel\<close>

text \<open>
  What the owners of a control socket rely on (the descriptor receiver of the worker, the
  startup handshake of the runtime). \<open>declared\<close> is the number of descriptors a packet
  declares.
\<close>

locale descriptor_channel =
  fixes recvm :: "(bytes \<times> ancillary \<times> int) result \<Rightarrow> (fd_table, bytes \<times> int list) st"
    and declared :: "bytes \<Rightarrow> nat option"
  assumes receive_ok: "recvm (Inr (p, anc, fl)) t = (Inr r, t') \<Longrightarrow>
      r = (p, received_fds anc) \<and> declared p = Some (length (received_fds anc)) \<and>
      set (received_fds anc) \<subseteq> dom t \<and> t' = with_cloexec (received_fds anc) t"
    and receive_fail: "recvm (Inr (p, anc, fl)) t = (Inl e, t') \<Longrightarrow> length anc \<le> 1 \<Longrightarrow>
      t' = close_fds (received_fds anc) t"
begin

lemma others_untouched:
  assumes "recvm (Inr (p, anc, fl)) t = (r, t')" "length anc \<le> 1" "d \<notin> set (received_fds anc)"
  shows "t' d = t d"
  using assms receive_ok[of p anc fl t _ t'] receive_fail[of p anc fl t _ t']
  by (cases r) (auto simp: with_cloexec_def close_fds_eq)

lemma none_left_open:
  assumes "recvm (Inr (p, anc, fl)) t = (Inl e, t')" "length anc \<le> 1"
  shows "dom t' = dom t - set (received_fds anc)"
  using receive_fail[OF assms] by (auto simp: close_fds_eq split: if_splits)

lemma all_close_on_exec:
  assumes "recvm (Inr (p, anc, fl)) t = (Inr (q, ds), t')" "d \<in> set ds"
  shows "\<exists>f. t' d = Some f \<and> f AND FD_CLOEXEC \<noteq> 0"
proof -
  from receive_ok[OF assms(1)] assms(2) obtain f where "t' d = Some (f OR FD_CLOEXEC)"
    by (auto simp: with_cloexec_def)
  moreover have "(f OR 1) AND 1 \<noteq> (0 :: int)" for f
    by (metis bit_or_iff bit_and_iff bit_1_0 bit_0_eq bot_apply bot_bool_def bit_1_iff)
  ultimately show ?thesis
    unfolding FD_CLOEXEC_def by blast
qed

end

definition declared_fds :: "bytes \<Rightarrow> nat option" where
  "declared_fds p = value_of (ebind (decode_frame p) (\<lambda>f. expected_fd_count f p))"

interpretation channel: descriptor_channel recvmsg_strict declared_fds
proof
  fix p anc fl t r t' e
  show "recvmsg_strict (Inr (p, anc, fl)) t = (Inr r, t') \<Longrightarrow>
      r = (p, received_fds anc) \<and> declared_fds p = Some (length (received_fds anc)) \<and>
      set (received_fds anc) \<subseteq> dom t \<and> t' = with_cloexec (received_fds anc) t"
    by (auto simp: recvmsg_strict_Inr declared_fds_def)
  show "recvmsg_strict (Inr (p, anc, fl)) t = (Inl e, t') \<Longrightarrow> length anc \<le> 1 \<Longrightarrow>
      t' = close_fds (received_fds anc) t"
    by (rule recvmsg_strict_Inl)
qed

lemma agrees_Inr: "agrees m n \<Longrightarrow> m s = (Inr x, s') \<longleftrightarrow> n s = (Inr x, s')"
  unfolding agrees_def
  by (metis fst_conv snd_conv surjective_pairing value_of.simps(2) value_of_eq_Some)

lemma agrees_Inl: "agrees m n \<Longrightarrow> m s = (Inl e, s') \<Longrightarrow> \<exists>e'. n s = (Inl e', s')"
  unfolding agrees_def
  by (cases "n s"; cases "fst (n s)") (auto dest!: spec[of _ s])

interpretation sdk_channel: descriptor_channel sdk_recvmsg_strict declared_fds
proof
  fix p anc fl t r t' e
  show "sdk_recvmsg_strict (Inr (p, anc, fl)) t = (Inr r, t') \<Longrightarrow>
      r = (p, received_fds anc) \<and> declared_fds p = Some (length (received_fds anc)) \<and>
      set (received_fds anc) \<subseteq> dom t \<and> t' = with_cloexec (received_fds anc) t"
    unfolding agrees_Inr[OF sdk_recvmsg_agrees] by (rule channel.receive_ok)
  show "sdk_recvmsg_strict (Inr (p, anc, fl)) t = (Inl e, t') \<Longrightarrow> length anc \<le> 1 \<Longrightarrow>
      t' = close_fds (received_fds anc) t"
    using agrees_Inl[OF sdk_recvmsg_agrees] channel.receive_fail by blast
qed

end
