(* ===== verification/Fd_Transport.thy ===== *)
theory Fd_Transport
  imports Control_Channel Buffer_Views
begin

text \<open>
  The worker's side of the descriptor transfer,
  \<open>packages/wmfs-plugin/wmfs_plugin/fd_transport.py\<close>: the cache of mapped buffers, the views
  made from them and the thread that receives batches and acknowledges them.

  The state is the worker's descriptor table and its buffers. The kernel and torch are the
  arguments \<open>host\<close>: \<open>fstat\<close> (the size behind a descriptor), \<open>mmap\<close> (a new mapping or an
  error), \<open>frombuffer\<close> and \<open>as_strided\<close>. Tensors and storages are opaque. A mapping is
  unmapped when its owner and all views are gone, which Python's reference counts decide.
\<close>

definition MAX_CACHED_VIEWS :: nat where "MAX_CACHED_VIEWS = 64"
definition WORKER_MAX_RANK :: nat where "WORKER_MAX_RANK = 16"

type_synonym view_key = "int \<times> int \<times> int \<times> string \<times> int list \<times> int list"

record ('b, 'v) MappedBuffer =
  mb_generation :: int
  mb_allocation_id :: int
  mb_byte_length :: int
  mb_writable :: bool
  mb_arena :: bool
  mb_invocation_id :: int
  mb_owner :: "int option"
  mb_base_tensors :: "string \<rightharpoonup> 'b"
  mb_views :: "(view_key \<times> 'v) list"

record ('b, 'v) Receiver =
  fds :: fd_table
  buffers :: "int \<rightharpoonup> ('b, 'v) MappedBuffer"

record ('b, 'v) Host =
  fstat :: "int \<Rightarrow> int result"
  mmap :: "int \<Rightarrow> int \<Rightarrow> bool \<Rightarrow> int result"
  frombuffer :: "int \<Rightarrow> string \<Rightarrow> 'b result"
  as_strided :: "'b \<Rightarrow> int list \<Rightarrow> int list \<Rightarrow> int \<Rightarrow> 'v result"

section \<open>Mapping and retiring\<close>

text \<open>\<open>os.close\<close>; on a descriptor that is not open it raises.\<close>

definition os_close :: "int \<Rightarrow> (('b, 'v) Receiver, unit) st" where
  "os_close fd =
     sbind sget (\<lambda>s.
     if fds s fd = None then sraise (OSError ''Bad file descriptor'')
     else smod (\<lambda>s. s\<lparr>fds := (fds s)(fd := None)\<rparr>))"

text \<open>\<open>_MappingOwner\<close> and the mapped buffer made from the descriptor.\<close>

definition mapped_buffer :: "FdEntry \<Rightarrow> int \<Rightarrow> ('b, 'v) MappedBuffer" where
  "mapped_buffer e mapping =
     \<lparr>mb_generation = entry_generation e, mb_allocation_id = allocation_id e,
      mb_byte_length = byte_length e, mb_writable = (entry_flags e AND FLAG_WRITABLE \<noteq> 0),
      mb_arena = (entry_flags e AND FLAG_ARENA \<noteq> 0), mb_invocation_id = invocation_id e,
      mb_owner = Some mapping, mb_base_tensors = Map.empty, mb_views = []\<rparr>"

definition same_mapping :: "('b, 'v) MappedBuffer \<Rightarrow> ('b, 'v) MappedBuffer \<Rightarrow> bool" where
  "same_mapping x c \<longleftrightarrow>
     mb_generation x = mb_generation c \<and> mb_allocation_id x = mb_allocation_id c \<and>
     mb_byte_length x = mb_byte_length c \<and> mb_writable x = mb_writable c \<and>
     mb_arena x = mb_arena c \<and> mb_invocation_id x = mb_invocation_id c"

text \<open>The mapping made inside \<open>try: .. finally: os.close(fd)\<close>: an error of \<open>close\<close> replaces
  one raised before it.\<close>

definition map_descriptor :: "('b, 'v) Host \<Rightarrow> int \<Rightarrow> int \<Rightarrow> bool \<Rightarrow> (('b, 'v) Receiver, int) st" where
  "map_descriptor host fd len writable =
     sbind sget (\<lambda>s.
     let mapped = (if fds s fd = None then Inl (OSError ''Bad file descriptor'')
                   else ebind (fstat host fd) (\<lambda>n.
                     if n \<noteq> len then Inl (ValueError ''Transferred FD size does not match its descriptor'')
                     else mmap host fd len writable))
     in sbind (os_close fd) (\<lambda>_. slift mapped))"

definition cache_add :: "('b, 'v) Host \<Rightarrow> FdEntry \<Rightarrow> int \<Rightarrow> (('b, 'v) Receiver, unit) st" where
  "cache_add host e fd =
     sbind (map_descriptor host fd (byte_length e) (entry_flags e AND FLAG_WRITABLE \<noteq> 0)) (\<lambda>mapping.
     let candidate = mapped_buffer e mapping in
     sbind sget (\<lambda>s.
     case buffers s (buffer_id e) of
       Some existing \<Rightarrow>
         if same_mapping existing candidate then sret ()
         else sraise (ValueError ''Existing buffer mapping must be retired before remap'')
     | None \<Rightarrow> smod (\<lambda>s. s\<lparr>buffers := (buffers s)(buffer_id e \<mapsto> candidate)\<rparr>)))"

definition cache_retire :: "FdEntry \<Rightarrow> (('b, 'v) Receiver, unit) st" where
  "cache_retire e =
     sbind sget (\<lambda>s.
     case buffers s (buffer_id e) of
       None \<Rightarrow> sret ()
     | Some existing \<Rightarrow>
         if mb_generation existing \<noteq> entry_generation e \<or> mb_allocation_id existing \<noteq> allocation_id e
         then sraise (ValueError ''Cannot retire a stale buffer generation'')
         else if mb_arena existing then sraise (ValueError ''Cannot retire the shared arena mapping'')
         else smod (\<lambda>s. s\<lparr>buffers := (buffers s)(buffer_id e := None)\<rparr>))"

definition cache_close :: "(('b, 'v) Receiver, unit) st" where
  "cache_close = smod (\<lambda>s. s\<lparr>buffers := Map.empty\<rparr>)"

definition expired :: "int \<Rightarrow> ('b, 'v) MappedBuffer \<Rightarrow> bool" where
  "expired iv b \<longleftrightarrow> mb_writable b \<and> \<not> mb_arena b \<and> mb_invocation_id b = iv"

definition finish_invocation :: "int \<Rightarrow> (('b, 'v) Receiver, unit) st" where
  "finish_invocation iv =
     smod (\<lambda>s. s\<lparr>buffers := (\<lambda>k. case buffers s k of
        Some b \<Rightarrow> if expired iv b then None else Some b | None \<Rightarrow> None)\<rparr>)"

section \<open>Views\<close>

definition validate_view :: "int \<Rightarrow> int \<Rightarrow> int \<Rightarrow> int \<Rightarrow> int list \<Rightarrow> int list \<Rightarrow> unit result" where
  "validate_view buffer_len off len item shape strides =
     (if shape = [] \<or> WORKER_MAX_RANK < length shape \<or> list_ex (\<lambda>d. d \<le> 0) shape
      then Inl (ValueError ''Tensor shape must be non-empty and positive'')
      else if length shape \<noteq> length strides
      then Inl (ValueError ''Tensor shape and strides have different ranks'')
      else if off < 0 \<or> off mod item \<noteq> 0 then Inl (ValueError ''Tensor offset is not dtype-aligned'')
      else if len \<le> 0 \<or> buffer_len < off + len
      then Inl (ValueError ''Tensor byte range exceeds its mapped buffer'')
      else if list_ex (\<lambda>s. s < 0 \<or> s mod item \<noteq> 0) strides
      then Inl (ValueError ''Tensor strides must be non-negative and dtype-aligned'')
      else reject (len < item + sum_list (map (\<lambda>(d, s). (d - 1) * s) (zip shape strides)))
             (ValueError ''Tensor strides exceed its declared byte range''))"

text \<open>The checks of \<open>MappedBufferCache.tensor\<close> on the buffer a descriptor names.\<close>

definition check_access :: "('b, 'v) MappedBuffer \<Rightarrow> TensorDescriptor \<Rightarrow> int \<Rightarrow> bool \<Rightarrow> unit result" where
  "check_access b d iv require_writable =
     (if mb_generation b \<noteq> d_generation d then Inl (ValueError ''Tensor references a stale buffer generation'')
      else if \<not> mb_arena b \<and> mb_allocation_id b \<noteq> d_allocation_id d
      then Inl (ValueError ''Tensor references a stale logical allocation'')
      else if require_writable \<and> \<not> mb_writable b then Inl (ValueError ''Tensor output is not mapped writable'')
      else reject (require_writable \<and> \<not> mb_arena b \<and> mb_invocation_id b \<noteq> iv)
             (ValueError ''Tensor output is outside this invocation''))"

definition view_key_of :: "TensorDescriptor \<Rightarrow> view_key" where
  "view_key_of d = (d_allocation_id d, d_offset d, d_byte_length d, d_dtype d, d_shape d, d_strides d)"

text \<open>The cache of views: \<open>move_to_end\<close>, and insertion with eviction of the oldest.\<close>

definition touch_view :: "view_key \<Rightarrow> 'v \<Rightarrow> (view_key \<times> 'v) list \<Rightarrow> (view_key \<times> 'v) list" where
  "touch_view k v vs = filter (\<lambda>(k', _). k' \<noteq> k) vs @ [(k, v)]"

definition insert_view :: "view_key \<Rightarrow> 'v \<Rightarrow> (view_key \<times> 'v) list \<Rightarrow> (view_key \<times> 'v) list" where
  "insert_view k v vs =
     (let vs' = vs @ [(k, v)] in if MAX_CACHED_VIEWS < length vs' then tl vs' else vs')"

definition set_buffer :: "int \<Rightarrow> ('b, 'v) MappedBuffer \<Rightarrow> ('b, 'v) Receiver \<Rightarrow> ('b, 'v) Receiver" where
  "set_buffer k b s = s\<lparr>buffers := (buffers s)(k \<mapsto> b)\<rparr>"

definition base_tensor ::
  "('b, 'v) Host \<Rightarrow> int \<Rightarrow> string \<Rightarrow> ('b, 'v) MappedBuffer \<Rightarrow> 'b result" where
  "base_tensor host mapping dtype b =
     (case mb_base_tensors b dtype of Some storage \<Rightarrow> Inr storage | None \<Rightarrow> frombuffer host mapping dtype)"

definition cache_tensor ::
  "('b, 'v) Host \<Rightarrow> TensorDescriptor \<Rightarrow> int \<Rightarrow> bool \<Rightarrow> (('b, 'v) Receiver, 'v) st" where
  "cache_tensor host d iv require_writable =
     sbind sget (\<lambda>s.
     case buffers s (d_buffer_id d) of
       None \<Rightarrow> sraise (ValueError ''Tensor references an unmapped buffer'')
     | Some b \<Rightarrow>
     sbind (slift (check_access b d iv require_writable)) (\<lambda>_.
     case map_of ITEM_SIZES (d_dtype d) of
       None \<Rightarrow> sraise (TypeError ''Unsupported tensor dtype'')
     | Some item \<Rightarrow>
     (case map_of (mb_views b) (view_key_of d) of
       Some view \<Rightarrow>
         sbind (smod (set_buffer (d_buffer_id d) (b\<lparr>mb_views := touch_view (view_key_of d) view (mb_views b)\<rparr>))) (\<lambda>_.
         sret view)
     | None \<Rightarrow>
     sbind (slift (validate_view (mb_byte_length b) (d_offset d) (d_byte_length d) item (d_shape d) (d_strides d))) (\<lambda>_.
     case mb_owner b of
       None \<Rightarrow> sraise (RuntimeError ''Buffer mapping was retired during tensor creation'')
     | Some mapping \<Rightarrow>
     sbind (slift (base_tensor host mapping (d_dtype d) b)) (\<lambda>storage.
     let b1 = b\<lparr>mb_base_tensors := (mb_base_tensors b)(d_dtype d \<mapsto> storage)\<rparr> in
     sbind (smod (set_buffer (d_buffer_id d) b1)) (\<lambda>_.
     sbind (slift (as_strided host storage (d_shape d) (map (\<lambda>s. s div item) (d_strides d)) (d_offset d div item))) (\<lambda>view.
     sbind (smod (set_buffer (d_buffer_id d) (b1\<lparr>mb_views := insert_view (view_key_of d) view (mb_views b1)\<rparr>))) (\<lambda>_.
     sret view))))))))"

section \<open>Receiving batches\<close>

text \<open>The loop of \<open>_serve\<close> over a batch: \<open>todo\<close> are the descriptors not yet mapped,
  those before them being set to \<open>-1\<close>. On a failure the descriptors still in the list are returned with
  the exception: the one being mapped is still among them.\<close>

fun apply_entries ::
  "('b, 'v) Host \<Rightarrow> FdEntry list \<Rightarrow> int list \<Rightarrow> ('b, 'v) Receiver \<Rightarrow>
   (pyerr \<times> int list + unit) \<times> ('b, 'v) Receiver" where
  "apply_entries host [] todo s = (Inr (), s)"
| "apply_entries host (e # es) todo s =
     (if entry_kind e = MAP
      then (case todo of [] \<Rightarrow> (Inl (IndexError, []), s)
            | fd # rest \<Rightarrow>
              (case cache_add host e fd s of
                 (Inl err, s') \<Rightarrow> (Inl (err, fd # rest), s')
               | (Inr _, s') \<Rightarrow> apply_entries host es rest s'))
      else (case cache_retire e s of
                 (Inl err, s') \<Rightarrow> (Inl (err, todo), s')
               | (Inr _, s') \<Rightarrow> apply_entries host es todo s'))"

text \<open>Handling one received packet up to its acknowledgement; \<open>str_of\<close> is \<open>str(error)\<close>.\<close>

definition handle_batch ::
  "('b, 'v) Host \<Rightarrow> (pyerr \<Rightarrow> ustr) \<Rightarrow> int \<Rightarrow> bytes \<Rightarrow> int list \<Rightarrow> ('b, 'v) Receiver \<Rightarrow>
   (int \<times> FdAck) \<times> ('b, 'v) Receiver" where
  "handle_batch host str_of generation packet received s =
     (let fail = (\<lambda>rid tid err left s'.
            ((rid, \<lparr>ack_transfer_id = tid, ack_generation = generation, ack_status = INVALID_ARGUMENT,
                    ack_error = take 1024 (str_of err)\<rparr>),
             s'\<lparr>fds := close_fds left (fds s'), buffers := Map.empty\<rparr>))
      in case sdk_decode_fd_batch packet of
           Inl err \<Rightarrow> fail 0 0 err received s
         | Inr (rid, batch) \<Rightarrow>
             if batch_generation batch \<noteq> generation
             then fail rid (transfer_id batch) (ValueError ''FD batch has the wrong session generation'') received s
             else (case apply_entries host (entries batch) received s of
                 (Inl (err, left), s') \<Rightarrow> fail rid (transfer_id batch) err left s'
               | (Inr _, s') \<Rightarrow>
                   ((rid, \<lparr>ack_transfer_id = transfer_id batch, ack_generation = generation,
                           ack_status = OK, ack_error = []\<rparr>), s')))"

text \<open>How one round of \<open>_serve\<close> ends: the thread goes on, returns, or dies of an exception.\<close>

datatype serve_end = Goes_on | Returns | Dies pyerr

definition is_os_error :: "pyerr \<Rightarrow> bool" where
  "is_os_error e \<longleftrightarrow> (case e of OSError _ \<Rightarrow> True | TimeoutError _ \<Rightarrow> True | _ \<Rightarrow> False)"

definition is_eof :: "pyerr \<Rightarrow> bool" where
  "is_eof e \<longleftrightarrow> (case e of EOFError _ \<Rightarrow> True | _ \<Rightarrow> False)"

definition serve_once ::
  "('b, 'v) Host \<Rightarrow> (pyerr \<Rightarrow> ustr) \<Rightarrow> int \<Rightarrow> (bytes \<Rightarrow> ancillary \<Rightarrow> nat result) \<Rightarrow>
   (bytes \<times> ancillary \<times> int) result \<Rightarrow> ('b, 'v) Receiver \<Rightarrow> serve_end \<times> ('b, 'v) Receiver" where
  "serve_once host str_of generation send recv s =
     (case sdk_recvmsg_strict recv (fds s) of
        (Inl (ProtocolError m), t) \<Rightarrow> (Returns, s\<lparr>fds := t, buffers := Map.empty\<rparr>)
      | (Inl err, t) \<Rightarrow>
          (if is_os_error err \<or> is_eof err then Returns else Dies err, s\<lparr>fds := t\<rparr>)
      | (Inr (packet, received), t) \<Rightarrow>
          (case handle_batch host str_of generation packet received (s\<lparr>fds := t\<rparr>) of
             ((rid, ack), s') \<Rightarrow>
               (case ebind (sdk_encode_fd_ack rid ack) (\<lambda>p. sdk_sendmsg_strict send p []) of
                  Inl err \<Rightarrow> (if is_os_error err then Returns else Dies err, s')
                | Inr _ \<Rightarrow> (if ack_status ack = OK then Goes_on else Returns, s'))))"

text \<open>The whole thread, over the messages the kernel delivers.\<close>

fun serve ::
  "('b, 'v) Host \<Rightarrow> (pyerr \<Rightarrow> ustr) \<Rightarrow> int \<Rightarrow> (bytes \<Rightarrow> ancillary \<Rightarrow> nat result) \<Rightarrow>
   (bytes \<times> ancillary \<times> int) result list \<Rightarrow> ('b, 'v) Receiver \<Rightarrow> serve_end \<times> ('b, 'v) Receiver" where
  "serve host str_of generation send [] s = (Goes_on, s)"
| "serve host str_of generation send (recv # recvs) s =
     (case serve_once host str_of generation send recv s of
        (Goes_on, s') \<Rightarrow> serve host str_of generation send recvs s'
      | (stopped, s') \<Rightarrow> (stopped, s'))"

end
