(* ===== verification/Fd_Laws.thy ===== *)
theory Fd_Laws
  imports Fd_Transport
begin

text \<open>
  Laws of the worker's descriptor transfer: the buffers mapped refine a plain map from IDs to
  what was announced; every received descriptor is closed, whatever happens; the views kept
  were made from checked descriptors over the mapping that is still in place.
\<close>

section \<open>What is mapped\<close>

type_synonym identity = "int \<times> int \<times> int \<times> bool \<times> bool \<times> int"

definition identity :: "('b, 'v) MappedBuffer \<Rightarrow> identity" where
  "identity b = (mb_generation b, mb_allocation_id b, mb_byte_length b, mb_writable b, mb_arena b, mb_invocation_id b)"

definition announced :: "FdEntry \<Rightarrow> identity" where
  "announced e = (entry_generation e, allocation_id e, byte_length e, entry_flags e AND FLAG_WRITABLE \<noteq> 0,
     entry_flags e AND FLAG_ARENA \<noteq> 0, invocation_id e)"

definition mapped :: "('b, 'v) Receiver \<Rightarrow> int \<rightharpoonup> identity" where
  "mapped s = (\<lambda>k. map_option identity (buffers s k))"

text \<open>The specification: an announced buffer is new or the same as before; a retired one has the
  generation and allocation named and is not the arena, or is not there.\<close>

definition spec_entry :: "FdEntry \<Rightarrow> (int \<rightharpoonup> identity) \<Rightarrow> (int \<rightharpoonup> identity) option" where
  "spec_entry e m =
     (if entry_kind e = MAP
      then (case m (buffer_id e) of None \<Rightarrow> Some (m(buffer_id e \<mapsto> announced e))
            | Some i \<Rightarrow> if i = announced e then Some m else None)
      else (case m (buffer_id e) of None \<Rightarrow> Some m
            | Some (g, a, _, _, arena, _) \<Rightarrow>
                if g = entry_generation e \<and> a = allocation_id e \<and> \<not> arena then Some (m(buffer_id e := None)) else None))"

fun spec_entries :: "FdEntry list \<Rightarrow> (int \<rightharpoonup> identity) \<Rightarrow> (int \<rightharpoonup> identity) option" where
  "spec_entries [] m = Some m"
| "spec_entries (e # es) m = Option.bind (spec_entry e m) (spec_entries es)"

lemma identity_mapped_buffer: "identity (mapped_buffer e mapping) = announced e"
  by (simp add: identity_def mapped_buffer_def announced_def)

lemma same_mapping_identity: "same_mapping b c \<longleftrightarrow> identity b = identity c"
  by (auto simp: same_mapping_def identity_def)

lemma mapped_simps [simp]:
  "mapped (s\<lparr>fds := t\<rparr>) = mapped s"
  "mapped (s\<lparr>buffers := m\<rparr>) = (\<lambda>k. map_option identity (m k))"
  by (simp_all add: mapped_def)

section \<open>Mapping one descriptor\<close>

lemma os_close_Inr: "os_close fd s = (Inr u, s') \<longleftrightarrow> fds s fd \<noteq> None \<and> s' = s\<lparr>fds := (fds s)(fd := None)\<rparr>"
  by (simp add: os_close_def st_run) blast

lemma os_close_Inl: "os_close fd s = (Inl e, s') \<longleftrightarrow> fds s fd = None \<and> e = OSError ''Bad file descriptor'' \<and> s' = s"
  by (simp add: os_close_def st_run) blast

lemma map_descriptor_state:
  assumes "map_descriptor host fd len w s = (r, s')"
  shows "s' = s\<lparr>fds := (fds s)(fd := None)\<rparr>"
proof (cases "fds s fd")
  case None
  then have "(fds s)(fd := None) = fds s" by auto
  with assms None show ?thesis by (simp add: map_descriptor_def st_run os_close_def Let_def)
next
  case (Some f)
  with assms show ?thesis by (simp add: map_descriptor_def st_run os_close_def Let_def)
qed

lemma map_descriptor_Inr:
  "map_descriptor host fd len w s = (Inr mapping, s') \<longleftrightarrow>
     fds s fd \<noteq> None \<and> fstat host fd = Inr len \<and> mmap host fd len w = Inr mapping \<and>
     s' = s\<lparr>fds := (fds s)(fd := None)\<rparr>"
  unfolding map_descriptor_def
  by (cases "fds s fd"; auto simp: st_run os_close_def Let_def err_simps split: if_splits)

lemma cache_add_fds:
  assumes "cache_add host e fd s = (r, s')"
  shows "fds s' = (fds s)(fd := None)"
proof -
  obtain r1 s1 where m: "map_descriptor host fd (byte_length e) (entry_flags e AND FLAG_WRITABLE \<noteq> 0) s = (r1, s1)"
    by (metis surj_pair)
  have "fds s1 = (fds s)(fd := None)" using map_descriptor_state[OF m] by simp
  with assms m show ?thesis
    unfolding cache_add_def by (cases r1) (auto simp: st_run Let_def split: option.splits if_splits)
qed

lemma cache_add_Inr:
  assumes "cache_add host e fd s = (Inr u, s')" "entry_kind e = MAP"
  shows "spec_entry e (mapped s) = Some (mapped s')"
proof -
  from assms(1) obtain mapping s1 where m: "map_descriptor host fd (byte_length e) (entry_flags e AND FLAG_WRITABLE \<noteq> 0) s = (Inr mapping, s1)"
    unfolding cache_add_def by (auto simp: st_inv)
  have s1: "s1 = s\<lparr>fds := (fds s)(fd := None)\<rparr>" by (rule map_descriptor_state[OF m])
  show ?thesis
  proof (cases "buffers s (buffer_id e)")
    case None
    with assms m s1 have "s' = s1\<lparr>buffers := (buffers s)(buffer_id e \<mapsto> mapped_buffer e mapping)\<rparr>"
      unfolding cache_add_def by (simp add: st_run Let_def)
    with None assms(2) show ?thesis
      by (auto simp: spec_entry_def mapped_def identity_mapped_buffer s1 fun_eq_iff)
  next
    case (Some b)
    with assms m s1 have "same_mapping b (mapped_buffer e mapping)" "s' = s1"
      unfolding cache_add_def by (auto simp: st_run Let_def split: if_splits)
    with Some assms(2) show ?thesis
      by (simp add: spec_entry_def mapped_def same_mapping_identity identity_mapped_buffer s1)
  qed
qed

lemma cache_add_refused:
  assumes "cache_add host e fd s = (Inl err, s')" "entry_kind e = MAP"
    "fds s fd \<noteq> None" "fstat host fd = Inr (byte_length e)"
    "mmap host fd (byte_length e) (entry_flags e AND FLAG_WRITABLE \<noteq> 0) = Inr mapping"
  shows "spec_entry e (mapped s) = None"
proof -
  let ?s1 = "s\<lparr>fds := (fds s)(fd := None)\<rparr>"
  have m: "map_descriptor host fd (byte_length e) (entry_flags e AND FLAG_WRITABLE \<noteq> 0) s = (Inr mapping, ?s1)"
    unfolding map_descriptor_Inr using assms by blast
  show ?thesis
  proof (cases "buffers s (buffer_id e)")
    case None
    with assms m show ?thesis unfolding cache_add_def by (simp add: st_run Let_def)
  next
    case (Some b)
    with assms m have "\<not> same_mapping b (mapped_buffer e mapping)"
      unfolding cache_add_def by (auto simp: st_run Let_def split: if_splits)
    with Some assms(2) show ?thesis
      by (simp add: spec_entry_def mapped_def same_mapping_identity identity_mapped_buffer)
  qed
qed

lemma cache_retire_run:
  assumes "cache_retire e s = (r, s')" "entry_kind e = RETIRE"
  shows "fds s' = fds s"
    "spec_entry e (mapped s) = (case r of Inl _ \<Rightarrow> None | Inr _ \<Rightarrow> Some (mapped s'))"
proof -
  have "fds s' = fds s \<and> spec_entry e (mapped s) = (case r of Inl _ \<Rightarrow> None | Inr _ \<Rightarrow> Some (mapped s'))"
  proof (cases "buffers s (buffer_id e)")
    case None
    with assms show ?thesis by (auto simp: cache_retire_def st_run spec_entry_def mapped_def)
  next
    case (Some b)
    with assms show ?thesis
      by (auto simp: cache_retire_def st_run spec_entry_def mapped_def identity_def fun_eq_iff split: if_splits)
  qed
  then show "fds s' = fds s" "spec_entry e (mapped s) = (case r of Inl _ \<Rightarrow> None | Inr _ \<Rightarrow> Some (mapped s'))"
    by blast+
qed

section \<open>A batch\<close>

definition maps_of :: "FdEntry list \<Rightarrow> FdEntry list" where
  "maps_of es = filter (\<lambda>e. entry_kind e = MAP) es"

lemma not_MAP: "entry_kind e \<noteq> MAP \<longleftrightarrow> entry_kind e = RETIRE"
  by (cases "entry_kind e") auto

lemma apply_entries_Inr:
  assumes "apply_entries host es todo s = (Inr u, s')" "length todo = length (maps_of es)"
  shows "fds s' = close_fds todo (fds s) \<and> spec_entries es (mapped s) = Some (mapped s')"
  using assms
proof (induction es arbitrary: todo s)
  case (Cons e es)
  show ?case
  proof (cases "entry_kind e = MAP")
    case True
    with Cons.prems obtain fd rest where todo: "todo = fd # rest" and len: "length rest = length (maps_of es)"
      by (cases todo) (auto simp: maps_of_def)
    obtain r s1 where a: "cache_add host e fd s = (r, s1)" by (metis surj_pair)
    from Cons.prems True todo a obtain u' where r: "r = Inr u'" and rest: "apply_entries host es rest s1 = (Inr u, s')"
      by (cases r) auto
    show ?thesis
      using Cons.IH[OF rest len] cache_add_fds[OF a] cache_add_Inr[OF a[unfolded r] True] todo by (simp add: fun_upd_def)
  next
    case False
    then have k: "entry_kind e = RETIRE" by (simp add: not_MAP)
    obtain r s1 where a: "cache_retire e s = (r, s1)" by (metis surj_pair)
    from Cons.prems False a obtain u' where r: "r = Inr u'" and rest: "apply_entries host es todo s1 = (Inr u, s')"
      by (cases r) auto
    have len: "length todo = length (maps_of es)" using Cons.prems(2) False by (simp add: maps_of_def)
    show ?thesis
      using Cons.IH[OF rest len] cache_retire_run[OF a k] r by simp
  qed
qed (simp add: maps_of_def)

text \<open>However a batch fails, closing what is left in the list closes every descriptor received.\<close>

lemma apply_entries_Inl:
  assumes "apply_entries host es todo s = (Inl (err, left), s')" "length todo = length (maps_of es)"
  shows "close_fds left (fds s') = close_fds todo (fds s)"
  using assms
proof (induction es arbitrary: todo s)
  case (Cons e es)
  show ?case
  proof (cases "entry_kind e = MAP")
    case True
    with Cons.prems obtain fd rest where todo: "todo = fd # rest" and len: "length rest = length (maps_of es)"
      by (cases todo) (auto simp: maps_of_def)
    obtain r s1 where a: "cache_add host e fd s = (r, s1)" by (metis surj_pair)
    show ?thesis
    proof (cases r)
      case (Inl e')
      with Cons.prems True todo a have "left = todo" "s' = s1" by auto
      then show ?thesis using cache_add_fds[OF a] by (auto simp: close_fds_eq todo)
    next
      case (Inr u')
      with Cons.prems True todo a have rest: "apply_entries host es rest s1 = (Inl (err, left), s')" by auto
      show ?thesis using Cons.IH[OF rest len] cache_add_fds[OF a] todo by (simp add: fun_upd_def)
    qed
  next
    case False
    then have k: "entry_kind e = RETIRE" by (simp add: not_MAP)
    obtain r s1 where a: "cache_retire e s = (r, s1)" by (metis surj_pair)
    have len: "length todo = length (maps_of es)" using Cons.prems(2) False by (simp add: maps_of_def)
    show ?thesis
    proof (cases r)
      case (Inl e')
      with Cons.prems False a show ?thesis using cache_retire_run(1)[OF a k] by auto
    next
      case (Inr u')
      with Cons.prems False a have rest: "apply_entries host es todo s1 = (Inl (err, left), s')" by auto
      show ?thesis using Cons.IH[OF rest len] cache_retire_run(1)[OF a k] by simp
    qed
  qed
qed simp

text \<open>The host accepts a descriptor for an entry.\<close>

definition mappable :: "('b, 'v) Host \<Rightarrow> FdEntry \<Rightarrow> int \<Rightarrow> bool" where
  "mappable host e fd \<longleftrightarrow> fstat host fd = Inr (byte_length e) \<and>
     ok (mmap host fd (byte_length e) (entry_flags e AND FLAG_WRITABLE \<noteq> 0))"

lemma apply_entries_refuses:
  assumes "apply_entries host es todo s = (Inl (err, left), s')"
    "list_all2 (mappable host) (maps_of es) todo" "distinct todo" "set todo \<subseteq> dom (fds s)"
  shows "spec_entries es (mapped s) = None"
  using assms
proof (induction es arbitrary: todo s)
  case (Cons e es)
  show ?case
  proof (cases "entry_kind e = MAP")
    case True
    with Cons.prems(2) obtain fd rest where todo: "todo = fd # rest" and m: "mappable host e fd"
      and ms: "list_all2 (mappable host) (maps_of es) rest"
      by (auto simp: maps_of_def list_all2_Cons1)
    obtain r s1 where a: "cache_add host e fd s = (r, s1)" by (metis surj_pair)
    show ?thesis
    proof (cases r)
      case (Inl e')
      have "fds s fd \<noteq> None" using Cons.prems(4) todo by auto
      moreover obtain mapping where "mmap host fd (byte_length e) (entry_flags e AND FLAG_WRITABLE \<noteq> 0) = Inr mapping"
        "fstat host fd = Inr (byte_length e)"
        using m by (auto simp: mappable_def ok_def)
      ultimately have "spec_entry e (mapped s) = None"
        using cache_add_refused[OF a[unfolded Inl] True] by blast
      then show ?thesis by simp
    next
      case (Inr u')
      with Cons.prems True todo a have rest: "apply_entries host es rest s1 = (Inl (err, left), s')" by auto
      have "set rest \<subseteq> dom (fds s1)" "distinct rest"
        using Cons.prems(3,4) todo cache_add_fds[OF a] by auto
      from Cons.IH[OF rest ms this(2,1)] show ?thesis
        using cache_add_Inr[OF a[unfolded Inr] True] by simp
    qed
  next
    case False
    then have k: "entry_kind e = RETIRE" by (simp add: not_MAP)
    obtain r s1 where a: "cache_retire e s = (r, s1)" by (metis surj_pair)
    have ms: "list_all2 (mappable host) (maps_of es) todo" using Cons.prems(2) False by (simp add: maps_of_def)
    show ?thesis
    proof (cases r)
      case (Inl e')
      then show ?thesis using cache_retire_run(2)[OF a k] by simp
    next
      case (Inr u')
      with Cons.prems False a have rest: "apply_entries host es todo s1 = (Inl (err, left), s')" by auto
      have "set todo \<subseteq> dom (fds s1)" using Cons.prems(4) cache_retire_run(1)[OF a k] by simp
      from Cons.IH[OF rest ms Cons.prems(3) this] show ?thesis
        using cache_retire_run(2)[OF a k] Inr by simp
    qed
  qed
qed simp

text \<open>A descriptor whose mapping failed has been closed already, and is still in the list that is
  closed afterwards: the second \<open>close\<close> hits whatever has taken its number meanwhile.\<close>

lemma failed_mapping_closed_twice:
  assumes "cache_add host e fd s = (Inl err, s')" "entry_kind e = MAP"
  shows "fst (apply_entries host (e # es) (fd # rest) s) = Inl (err, fd # rest) \<and> fds s' fd = None"
  using assms cache_add_fds[OF assms(1)] by simp

section \<open>A message\<close>

text \<open>\<open>received\<close> are the descriptors \<open>recvmsg_strict\<close> returned with the packet: one for each
  entry that maps, when the packet is a batch.\<close>

lemma handle_batch_closes:
  assumes "handle_batch host str_of gen packet received s = ((rid, ack), s')"
    and "\<And>r b. sdk_decode_fd_batch packet = Inr (r, b) \<Longrightarrow> length received = fd_count b"
  shows "fds s' = close_fds received (fds s)"
proof (cases "sdk_decode_fd_batch packet")
  case (Inl err)
  with assms(1) show ?thesis by (auto simp: handle_batch_def Let_def)
next
  case (Inr rb)
  obtain r b where rb: "rb = (r, b)" by (metis surj_pair)
  have len: "length received = length (maps_of (entries b))"
    using assms(2) Inr rb by (simp add: fd_count_def maps_of_def)
  obtain q s1 where a: "apply_entries host (entries b) received s = (q, s1)" by (metis surj_pair)
  show ?thesis
  proof (cases q)
    case (Inl x)
    obtain err left where x: "x = (err, left)" by (metis surj_pair)
    with apply_entries_Inl[OF a[unfolded Inl x]] assms(1) Inr rb a Inl len show ?thesis
      by (auto simp: handle_batch_def Let_def split: if_splits)
  next
    case (Inr u)
    with apply_entries_Inr[OF a[unfolded Inr] len] assms(1) \<open>sdk_decode_fd_batch packet = Inr rb\<close> rb a show ?thesis
      by (auto simp: handle_batch_def Let_def split: if_splits)
  qed
qed

text \<open>An acknowledged batch has been applied as announced; any other answer leaves nothing mapped.\<close>

lemma handle_batch_maps:
  assumes "handle_batch host str_of gen packet received s = ((rid, ack), s')"
    and "\<And>r b. sdk_decode_fd_batch packet = Inr (r, b) \<Longrightarrow> length received = fd_count b"
  shows "if ack_status ack = OK
    then \<exists>b. sdk_decode_fd_batch packet = Inr (rid, b) \<and> batch_generation b = gen \<and>
           ack_transfer_id ack = transfer_id b \<and> spec_entries (entries b) (mapped s) = Some (mapped s')
    else buffers s' = Map.empty"
proof (cases "sdk_decode_fd_batch packet")
  case (Inl err)
  with assms(1) show ?thesis by (auto simp: handle_batch_def Let_def)
next
  case (Inr rb)
  obtain r b where rb: "rb = (r, b)" by (metis surj_pair)
  have len: "length received = length (maps_of (entries b))"
    using assms(2) Inr rb by (simp add: fd_count_def maps_of_def)
  obtain q s1 where a: "apply_entries host (entries b) received s = (q, s1)" by (metis surj_pair)
  show ?thesis
  proof (cases q)
    case (Inl x)
    obtain err left where "x = (err, left)" by (metis surj_pair)
    with assms(1) Inr rb a Inl show ?thesis
      by (auto simp: handle_batch_def Let_def split: if_splits)
  next
    case u: (Inr u)
    show ?thesis
    proof (cases "batch_generation b = gen")
      case True
      with u assms(1) Inr rb a have "rid = r" "s' = s1" "ack_transfer_id ack = transfer_id b" "ack_status ack = OK"
        by (auto simp: handle_batch_def Let_def)
      with apply_entries_Inr[OF a[unfolded u] len] Inr rb True show ?thesis by simp
    next
      case False
      with assms(1) Inr rb show ?thesis by (auto simp: handle_batch_def Let_def)
    qed
  qed
qed

text \<open>A well-formed batch for this session whose descriptors can all be mapped is refused only when
  the specification refuses it.\<close>

lemma handle_batch_accepts:
  assumes "sdk_decode_fd_batch packet = Inr (rid, b)" "batch_generation b = gen"
    "list_all2 (mappable host) (maps_of (entries b)) received" "distinct received" "set received \<subseteq> dom (fds s)"
    "spec_entries (entries b) (mapped s) = Some m"
  shows "\<exists>s'. handle_batch host str_of gen packet received s =
     ((rid, \<lparr>ack_transfer_id = transfer_id b, ack_generation = gen, ack_status = OK, ack_error = []\<rparr>), s') \<and> mapped s' = m"
proof -
  obtain q s1 where a: "apply_entries host (entries b) received s = (q, s1)" by (metis surj_pair)
  have len: "length received = length (maps_of (entries b))" using assms(3) by (simp add: list_all2_lengthD)
  obtain u where q: "q = Inr u"
  proof (cases q)
    case (Inl x)
    obtain err left where x: "x = (err, left)" by (metis surj_pair)
    with apply_entries_refuses[OF a[unfolded Inl x] assms(3-5)] assms(6) show ?thesis by simp
  qed (rule that)
  with apply_entries_Inr[OF a[unfolded q] len] assms(1,2,6) a show ?thesis
    by (simp add: handle_batch_def Let_def)
qed

section \<open>The thread\<close>

lemma sdk_receive_batch:
  assumes "sdk_recvmsg_strict (Inr (packet, anc, flags)) t = (Inr (p, received), t')"
    and "sdk_decode_fd_batch p = Inr (r, b)"
  shows "length received = fd_count b"
proof -
  from assms(1) have "recvmsg_strict (Inr (packet, anc, flags)) t = (Inr (p, received), t')"
    unfolding agrees_Inr[OF sdk_recvmsg_agrees] .
  then obtain f where p: "p = packet" "received = received_fds anc" and f: "decode_frame packet = Inr f"
    "expected_fd_count f packet = Inr (length (received_fds anc))"
    unfolding recvmsg_strict_Inr by blast
  have "value_of (decode_fd_batch p) = Some (r, b)"
    using assms(2) sdk_decode_fd_batch_parity[of p] by simp
  then have d: "decode_fd_batch packet = Inr (r, b)" using p by (simp add: value_of_eq_Some)
  with f(1) have "kind f = FD_TRANSFER"
    by (auto simp: decode_fd_batch_def err_simps split: if_splits)
  with f d p show ?thesis by (auto simp: expected_fd_count_def)
qed

text \<open>After every round the descriptors that came with the message are closed, whatever happened,
  and no other descriptor has changed.\<close>

lemma serve_once_closes:
  assumes "serve_once host str_of gen send (Inr (packet, anc, flags)) s = (r, s')" "length anc \<le> 1"
  shows "fds s' = close_fds (received_fds anc) (fds s)"
proof -
  obtain q t where rc: "sdk_recvmsg_strict (Inr (packet, anc, flags)) (fds s) = (q, t)" by (metis surj_pair)
  show ?thesis
  proof (cases q)
    case (Inl e)
    have "t = close_fds (received_fds anc) (fds s)"
      using sdk_channel.receive_fail[OF rc[unfolded Inl] assms(2)] .
    with assms(1) rc Inl show ?thesis by (cases e) (auto simp: serve_once_def)
  next
    case (Inr pr)
    obtain p received where pr: "pr = (p, received)" by (metis surj_pair)
    obtain ra s1 where h: "handle_batch host str_of gen p received (s\<lparr>fds := t\<rparr>) = (ra, s1)" by (metis surj_pair)
    obtain rid ack where ra: "ra = (rid, ack)" by (metis surj_pair)
    have rec: "recvmsg_strict (Inr (packet, anc, flags)) (fds s) = (Inr (p, received), t)"
      using rc[unfolded Inr pr] unfolding agrees_Inr[OF sdk_recvmsg_agrees] .
    have "fds s1 = close_fds received t"
      using handle_batch_closes[OF h[unfolded ra]] sdk_receive_batch[OF rc[unfolded Inr pr]] by simp
    moreover have "received = received_fds anc" "t = with_cloexec (received_fds anc) (fds s)"
      using rec unfolding recvmsg_strict_Inr by blast+
    moreover have "close_fds ds (with_cloexec ds u) = close_fds ds u" for ds u
      by (auto simp: close_fds_eq with_cloexec_def fun_eq_iff)
    moreover have "s' = s1"
      using assms(1) rc Inr pr h ra by (auto simp: serve_once_def split: sum.splits)
    ultimately show ?thesis by simp
  qed
qed

end
