(* ===== verification/Fd_Views.thy ===== *)
theory Fd_Views
  imports Fd_Laws
begin

text \<open>
  The views a worker makes: every method of \<open>MappedBufferCache\<close> runs under its lock, so the
  cache is a state machine over \<open>add\<close>, \<open>retire\<close>, \<open>tensor\<close>, \<open>finish_invocation\<close> and
  \<open>close\<close> in any order. Its invariant gives that a tensor handed to an operation is the view
  its descriptor declares, over the mapping announced for its buffer, inside its byte range.
\<close>

section \<open>The invariant\<close>

definition view_ok :: "('b, 'v) Host \<Rightarrow> ('b, 'v) MappedBuffer \<Rightarrow> view_key \<Rightarrow> 'v \<Rightarrow> bool" where
  "view_ok host b k v \<longleftrightarrow>
     (case k of (aid, off, len, dtype, shape, strides) \<Rightarrow>
       \<exists>item mapping storage. map_of ITEM_SIZES dtype = Some item \<and>
         validate_view (mb_byte_length b) off len item shape strides = Inr () \<and>
         mb_owner b = Some mapping \<and> frombuffer host mapping dtype = Inr storage \<and>
         as_strided host storage shape (map (\<lambda>s. s div item) strides) (off div item) = Inr v)"

definition buffer_ok :: "('b, 'v) Host \<Rightarrow> ('b, 'v) MappedBuffer \<Rightarrow> bool" where
  "buffer_ok host b \<longleftrightarrow> mb_owner b \<noteq> None \<and>
     (\<forall>mapping dtype storage. mb_owner b = Some mapping \<longrightarrow> mb_base_tensors b dtype = Some storage \<longrightarrow>
        frombuffer host mapping dtype = Inr storage) \<and>
     length (mb_views b) \<le> MAX_CACHED_VIEWS \<and> distinct (map fst (mb_views b)) \<and>
     (\<forall>(k, v) \<in> set (mb_views b). view_ok host b k v)"

definition receiver_ok :: "('b, 'v) Host \<Rightarrow> ('b, 'v) Receiver \<Rightarrow> bool" where
  "receiver_ok host s \<longleftrightarrow> (\<forall>k b. buffers s k = Some b \<longrightarrow> buffer_ok host b)"

inductive receiver_step :: "('b, 'v) Host \<Rightarrow> ('b, 'v) Receiver \<Rightarrow> ('b, 'v) Receiver \<Rightarrow> bool" for host where
  adds: "cache_add host e fd s = (r, s') \<Longrightarrow> receiver_step host s s'"
| retires: "cache_retire e s = (r, s') \<Longrightarrow> receiver_step host s s'"
| views: "cache_tensor host d iv w s = (r, s') \<Longrightarrow> receiver_step host s s'"
| finishes: "finish_invocation iv s = (r, s') \<Longrightarrow> receiver_step host s s'"
| closes: "cache_close s = (r, s') \<Longrightarrow> receiver_step host s s'"
| descriptors: "receiver_step host s (s\<lparr>fds := t\<rparr>)"

inductive receiver_reachable :: "('b, 'v) Host \<Rightarrow> ('b, 'v) Receiver \<Rightarrow> bool" for host where
  start: "receiver_reachable host \<lparr>fds = t, buffers = Map.empty\<rparr>"
| more: "receiver_reachable host s \<Longrightarrow> receiver_step host s s' \<Longrightarrow> receiver_reachable host s'"

lemma receiver_ok_fds [simp]: "receiver_ok host (s\<lparr>fds := t\<rparr>) \<longleftrightarrow> receiver_ok host s"
  by (simp add: receiver_ok_def)

lemma receiver_ok_set_buffer: "receiver_ok host s \<Longrightarrow> buffer_ok host b \<Longrightarrow> receiver_ok host (set_buffer k b s)"
  by (simp add: receiver_ok_def set_buffer_def)

lemma buffer_ok_fresh: "buffer_ok host (mapped_buffer e mapping)"
  by (simp add: buffer_ok_def mapped_buffer_def)

lemma view_ok_views [simp]:
  "view_ok host (b\<lparr>mb_views := vs\<rparr>) k v \<longleftrightarrow> view_ok host b k v"
  "view_ok host (b\<lparr>mb_base_tensors := ts\<rparr>) k v \<longleftrightarrow> view_ok host b k v"
  by (simp_all add: view_ok_def)

lemma buffer_ok_base:
  assumes "buffer_ok host b" "mb_owner b = Some mapping" "frombuffer host mapping dtype = Inr storage"
  shows "buffer_ok host (b\<lparr>mb_base_tensors := (mb_base_tensors b)(dtype \<mapsto> storage)\<rparr>)"
  using assms by (auto simp: buffer_ok_def)

lemma buffer_ok_touch:
  assumes "buffer_ok host b" "map_of (mb_views b) k = Some v"
  shows "buffer_ok host (b\<lparr>mb_views := touch_view k v (mb_views b)\<rparr>)"
proof -
  have kv: "(k, v) \<in> set (mb_views b)" using assms(2) by (rule map_of_SomeD)
  have d: "distinct (map fst (mb_views b))" using assms(1) by (simp add: buffer_ok_def)
  have "length (filter (\<lambda>(k', _). k' \<noteq> k) (mb_views b)) < length (mb_views b)"
    using kv by (intro length_filter_less[where x = "(k, v)"]) auto
  moreover have "distinct (map fst (filter (\<lambda>(k', _). k' \<noteq> k) (mb_views b)))"
    using d by (rule distinct_map_filter)
  ultimately show ?thesis
    using assms(1) kv by (auto simp: buffer_ok_def touch_view_def)
qed

lemma buffer_ok_insert:
  assumes "buffer_ok host b" "map_of (mb_views b) k = None" "view_ok host b k v"
  shows "buffer_ok host (b\<lparr>mb_views := insert_view k v (mb_views b)\<rparr>)"
proof -
  let ?vs = "mb_views b @ [(k, v)]"
  have d: "distinct (map fst ?vs)" "\<forall>(k, v) \<in> set ?vs. view_ok host b k v"
    using assms by (auto simp: buffer_ok_def map_of_eq_None_iff)
  have i: "insert_view k v (mb_views b) = (if MAX_CACHED_VIEWS < length ?vs then tl ?vs else ?vs)"
    by (simp add: insert_view_def Let_def)
  have t: "length (tl ?vs) \<le> MAX_CACHED_VIEWS"
    using assms(1) by (simp add: buffer_ok_def)
  have "length (insert_view k v (mb_views b)) \<le> MAX_CACHED_VIEWS \<and>
    distinct (map fst (insert_view k v (mb_views b))) \<and> set (insert_view k v (mb_views b)) \<subseteq> set ?vs"
    unfolding i using t d(1) by (auto simp: map_tl distinct_tl dest: list.set_sel(2)[rotated])
  with assms(1) d(2) show ?thesis by (auto simp: buffer_ok_def)
qed

section \<open>Preservation\<close>

lemma base_tensor_ok:
  assumes "buffer_ok host b" "mb_owner b = Some mapping" "base_tensor host mapping dtype b = Inr storage"
  shows "frombuffer host mapping dtype = Inr storage"
  using assms by (auto simp: base_tensor_def buffer_ok_def split: option.splits)

text \<open>The two ways a tensor is found, and the one way the state changes on an error.\<close>

lemma cache_tensor_run:
  assumes "receiver_ok host s" "cache_tensor host d iv w s = (r, s')"
  shows "receiver_ok host s' \<and> fds s' = fds s \<and>
    (\<forall>v. r = Inr v \<longrightarrow> (\<exists>b. buffers s (d_buffer_id d) = Some b \<and> check_access b d iv w = Inr () \<and> view_ok host b (view_key_of d) v))"
proof (cases "buffers s (d_buffer_id d)")
  case None
  with assms show ?thesis by (auto simp: cache_tensor_def st_run)
next
  case b: (Some b)
  have ok: "buffer_ok host b" using assms(1) b by (simp add: receiver_ok_def)
  show ?thesis
  proof (cases "check_access b d iv w = Inr () \<and> map_of ITEM_SIZES (d_dtype d) \<noteq> None")
    case False
    with assms b show ?thesis by (cases "check_access b d iv w") (auto simp: cache_tensor_def st_run split: option.splits)
  next
    case True
    then obtain item where c: "check_access b d iv w = Inr ()" and item: "map_of ITEM_SIZES (d_dtype d) = Some item" by blast
    show ?thesis
    proof (cases "map_of (mb_views b) (view_key_of d)")
      case (Some view)
      then have "r = Inr view" "s' = set_buffer (d_buffer_id d) (b\<lparr>mb_views := touch_view (view_key_of d) view (mb_views b)\<rparr>) s"
        using assms(2) b c item by (auto simp: cache_tensor_def st_run)
      moreover have "view_ok host b (view_key_of d) view"
        using map_of_SomeD[OF Some] ok by (auto simp: buffer_ok_def)
      ultimately show ?thesis
        using receiver_ok_set_buffer[OF assms(1) buffer_ok_touch[OF ok Some]] b c by (simp add: set_buffer_def)
    next
      case None
      let ?val = "validate_view (mb_byte_length b) (d_offset d) (d_byte_length d) item (d_shape d) (d_strides d)"
      obtain mapping where m: "mb_owner b = Some mapping" using ok by (auto simp: buffer_ok_def)
      show ?thesis
      proof (cases "ok ?val \<and> ok (base_tensor host mapping (d_dtype d) b)")
        case False
        with assms b c item None m show ?thesis
          by (cases ?val; cases "base_tensor host mapping (d_dtype d) b") (auto simp: cache_tensor_def st_run)
      next
        case True
        then obtain storage where val: "?val = Inr ()" and st: "base_tensor host mapping (d_dtype d) b = Inr storage"
          by (auto simp: ok_def)
        have fb: "frombuffer host mapping (d_dtype d) = Inr storage" by (rule base_tensor_ok[OF ok m st])
        let ?b1 = "b\<lparr>mb_base_tensors := (mb_base_tensors b)(d_dtype d \<mapsto> storage)\<rparr>"
        let ?as = "as_strided host storage (d_shape d) (map (\<lambda>s. s div item) (d_strides d)) (d_offset d div item)"
        have ok1: "buffer_ok host ?b1" by (rule buffer_ok_base[OF ok m fb])
        show ?thesis
        proof (cases ?as)
          case (Inl e)
          then have "s' = set_buffer (d_buffer_id d) ?b1 s" "r = Inl e"
            using assms(2) b c item None m val st by (auto simp: cache_tensor_def st_run Let_def)
          then show ?thesis using receiver_ok_set_buffer[OF assms(1) ok1] by (simp add: set_buffer_def)
        next
          case (Inr view)
          then have s': "s' = set_buffer (d_buffer_id d) (?b1\<lparr>mb_views := insert_view (view_key_of d) view (mb_views ?b1)\<rparr>)
              (set_buffer (d_buffer_id d) ?b1 s)" "r = Inr view"
            using assms(2) b c item None m val st by (auto simp: cache_tensor_def st_run Let_def)
          have v: "view_ok host b (view_key_of d) view"
            using item val m fb Inr by (auto simp: view_ok_def view_key_of_def)
          have "buffer_ok host (?b1\<lparr>mb_views := insert_view (view_key_of d) view (mb_views ?b1)\<rparr>)"
            by (rule buffer_ok_insert[OF ok1]) (simp_all add: None v)
          then have "receiver_ok host s'"
            unfolding s'(1) by (intro receiver_ok_set_buffer assms(1) ok1)
          moreover have "fds s' = fds s" unfolding s'(1) by (simp add: set_buffer_def)
          ultimately show ?thesis using s'(2) v b c by blast
        qed
      qed
    qed
  qed
qed

lemma cache_add_ok:
  assumes "receiver_ok host s" "cache_add host e fd s = (r, s')"
  shows "receiver_ok host s'"
proof -
  obtain q s1 where m: "map_descriptor host fd (byte_length e) (entry_flags e AND FLAG_WRITABLE \<noteq> 0) s = (q, s1)"
    by (metis surj_pair)
  have "receiver_ok host s1" using map_descriptor_state[OF m] assms(1) by simp
  with assms(2) m show ?thesis
    unfolding cache_add_def
    by (cases q) (auto simp: st_run Let_def receiver_ok_def buffer_ok_fresh split: option.splits if_splits)
qed

lemma receiver_step_ok: "receiver_step host s s' \<Longrightarrow> receiver_ok host s \<Longrightarrow> receiver_ok host s'"
proof (induction rule: receiver_step.induct)
  case (adds e fd s r s')
  then show ?case using cache_add_ok by blast
next
  case (retires e s r s')
  then show ?case
    by (auto simp: cache_retire_def st_run receiver_ok_def split: option.splits if_splits)
next
  case (views d iv w s r s')
  then show ?case using cache_tensor_run by blast
next
  case (finishes iv s r s')
  then show ?case
    by (auto simp: finish_invocation_def st_run receiver_ok_def split: option.splits if_splits)
next
  case (closes s r s')
  then show ?case by (auto simp: cache_close_def st_run receiver_ok_def)
qed simp

lemma receiver_reachable_ok: "receiver_reachable host s \<Longrightarrow> receiver_ok host s"
proof (induction rule: receiver_reachable.induct)
  case (start t)
  show ?case by (simp add: receiver_ok_def)
next
  case (more s s')
  then show ?case using receiver_step_ok by blast
qed

section \<open>What a view covers\<close>

lemma validate_view_Inr:
  "validate_view n off len item shape strides = Inr u \<longleftrightarrow>
     shape \<noteq> [] \<and> length shape \<le> WORKER_MAX_RANK \<and> (\<forall>d \<in> set shape. 0 < d) \<and> length strides = length shape \<and>
     0 \<le> off \<and> off mod item = 0 \<and> 0 < len \<and> off + len \<le> n \<and> (\<forall>s \<in> set strides. 0 \<le> s \<and> s mod item = 0) \<and>
     item + sum_list (map (\<lambda>(d, s). (d - 1) * s) (zip shape strides)) \<le> len"
  by (auto simp: validate_view_def err_simps list_ex_iff not_less not_le)

lemma element_offset_items:
  assumes "\<forall>s \<in> set strides. s mod item = 0"
  shows "item * element_offset (map (\<lambda>s. s div item) strides) idx = element_offset strides idx"
  using assms
proof (induction strides arbitrary: idx)
  case Nil
  then show ?case by (cases idx) (simp_all add: element_offset_def)
next
  case (Cons s ss)
  show ?case
  proof (cases idx)
    case Nil
    then show ?thesis by (simp add: element_offset_def)
  next
    case (Cons i js)
    have "item * (s div item) = s" using Cons.prems by auto
    then have "item * (i * (s div item)) = i * s" by (metis mult.left_commute)
    with Cons.IH[of js] Cons.prems show ?thesis
      by (simp add: element_offset_def Cons distrib_left)
  qed
qed

text \<open>In items of its dtype, element \<open>idx\<close> of the view is at the storage index given to
  \<open>as_strided\<close>; in bytes it lies inside the declared range, and that inside the mapping.\<close>

lemma view_ok_covers:
  assumes "view_ok host b (aid, off, len, dtype, shape, strides) v"
  obtains item mapping storage where "map_of ITEM_SIZES dtype = Some item" "mb_owner b = Some mapping"
    "frombuffer host mapping dtype = Inr storage"
    "as_strided host storage shape (map (\<lambda>s. s div item) strides) (off div item) = Inr v"
    "0 \<le> off" "off + len \<le> mb_byte_length b"
    "\<forall>idx. index_in shape idx \<longrightarrow>
       off \<le> item * (off div item + element_offset (map (\<lambda>s. s div item) strides) idx) \<and>
       item * (off div item + element_offset (map (\<lambda>s. s div item) strides) idx) + item \<le> off + len"
proof -
  from assms obtain item mapping storage where o: "map_of ITEM_SIZES dtype = Some item"
    "mb_owner b = Some mapping" "frombuffer host mapping dtype = Inr storage"
    "as_strided host storage shape (map (\<lambda>s. s div item) strides) (off div item) = Inr v"
    and v: "validate_view (mb_byte_length b) off len item shape strides = Inr ()"
    by (auto simp: view_ok_def)
  note V = v[unfolded validate_view_Inr]
  have "off \<le> item * (off div item + element_offset (map (\<lambda>s. s div item) strides) idx) \<and>
       item * (off div item + element_offset (map (\<lambda>s. s div item) strides) idx) + item \<le> off + len"
    if "index_in shape idx" for idx
  proof -
    have "length strides = length shape" "list_all (\<lambda>s. 0 \<le> s) strides" using V by (auto simp: list_all_iff)
    note B = element_offset_bounds[OF that this]
    have "item * (off div item) = off" using V by auto
    then have "item * (off div item + element_offset (map (\<lambda>s. s div item) strides) idx) = off + element_offset strides idx"
      using element_offset_items[of strides item idx] V by (simp add: distrib_left)
    with B V show ?thesis by linarith
  qed
  with o V that show thesis by blast
qed

section \<open>The runtime's descriptors are accepted\<close>

text \<open>A descriptor the runtime makes of a view of positive shape and at most sixteen dimensions
  passes the worker's checks on a mapping of the whole buffer.\<close>

lemma managed_accepted:
  assumes "managed v m = Inr (Some (d, b))" "map_of ITEM_SIZES (v_dtype v) = Some (v_item_size v)"
    and "v_shape v \<noteq> []" "length (v_shape v) \<le> WORKER_MAX_RANK" "\<forall>n \<in> set (v_shape v). 0 < n"
    and "length (v_strides v) = length (v_shape v)" "0 \<le> sb_offset b" "sb_offset b mod v_item_size v = 0"
    and "sb_offset b + sb_byte_length b \<le> n"
  shows "d_dtype d = v_dtype v \<and>
    validate_view n (d_offset d) (d_byte_length d) (v_item_size v) (d_shape d) (d_strides d) = Inr ()"
proof -
  note M = managed_Some[OF assms(1)]
  have pos: "0 < v_item_size v" using assms(2) by (auto simp: ITEM_SIZES_def split: if_splits)
  have d: "d_dtype d = v_dtype v" "d_offset d = sb_offset b + v_storage_offset v * v_item_size v"
    using assms(1) by (auto simp: managed_def Let_def split: if_splits option.splits)
  obtain aid a where f: "d_shape d = v_shape v" "d_strides d = map (\<lambda>s. s * v_item_size v) (v_strides v)"
    "list_all (\<lambda>s. 0 \<le> s) (v_strides v)"
    "d_byte_length d = view_byte_length (v_item_size v) (d_shape d) (d_strides d)"
    "sb_offset b \<le> d_offset d" "d_offset d + d_byte_length d \<le> sb_offset b + sb_byte_length b"
    by (rule M)
  have ne: "prod_list (v_shape v) \<noteq> 0" using assms(5) by (auto simp: prod_list_zero_iff)
  have len: "d_byte_length d = v_item_size v + sum_list (map (\<lambda>(d, s). (d - 1) * s) (zip (d_shape d) (d_strides d)))"
    using f(4) ne by (simp add: view_byte_length_def f(1))
  have nn: "\<forall>s \<in> set (d_strides d). 0 \<le> s \<and> s mod v_item_size v = 0"
    using f(2,3) pos by (auto simp: list_all_iff)
  have "0 \<le> sum_list (map (\<lambda>(d, s). (d - 1) * s) (zip (d_shape d) (d_strides d)))"
  proof (rule sum_list_nonneg)
    fix x assume "x \<in> set (map (\<lambda>(d, s). (d - 1) * s) (zip (d_shape d) (d_strides d)))"
    then obtain p q where pq: "(p, q) \<in> set (zip (v_shape v) (d_strides d))" "x = (p - 1) * q" by (auto simp: f(1))
    have "0 < p" "0 \<le> q" using set_zip_leftD[OF pq(1)] set_zip_rightD[OF pq(1)] assms(5) nn by auto
    then show "0 \<le> x" using pq(2) by simp
  qed
  moreover have "d_offset d mod v_item_size v = 0" using d(2) assms(8) by simp
  ultimately show ?thesis
    unfolding validate_view_Inr using assms f len nn pos d by auto
qed

end
