(* ===== verification/Worker_Invocation.thy ===== *)
theory Worker_Invocation
  imports Fd_Views Sdk_Ring Invocation
begin

text \<open>
  Running commands in the worker: \<open>packages/wmfs-plugin/wmfs_plugin/worker.py\<close> from
  \<open>_ring_worker_loop\<close> to \<open>_decode_scalars\<close>, \<open>invocation.py\<close>'s \<open>InvocationContext\<close> and
  \<open>Record.invocation\<close> of \<open>ring.py\<close>.

  The plugin's handlers and planners are arguments; a handler returns or raises. Torch gives
  the dtype of a tensor and \<open>result_type\<close>. The clock is an argument, indexed by the place of the
  profile it fills. \<open>_OperationFailure\<close> is the exception that wraps what a handler raised.
\<close>

definition COMMAND_INVOKE :: int where "COMMAND_INVOKE = 1"
definition COMMAND_PLAN_OUTPUTS :: int where "COMMAND_PLAN_OUTPUTS = 2"
definition COMMAND_PING :: int where "COMMAND_PING = 3"
definition COMPLETION_INVOKE :: int where "COMPLETION_INVOKE = 257"
definition COMPLETION_PLAN_OUTPUTS :: int where "COMPLETION_PLAN_OUTPUTS = 258"
definition COMPLETION_PONG :: int where "COMPLETION_PONG = 259"
definition STATUS_OK :: int where "STATUS_OK = 1"
definition STATUS_OPERATION_ERROR :: int where "STATUS_OPERATION_ERROR = 4"
definition STATUS_INTERNAL_ERROR :: int where "STATUS_INTERNAL_ERROR = 5"
definition FLAG_PROFILE :: int where "FLAG_PROFILE = 1"

lemmas command_consts = COMMAND_INVOKE_def COMMAND_PLAN_OUTPUTS_def COMMAND_PING_def
  COMPLETION_INVOKE_def COMPLETION_PLAN_OUTPUTS_def COMPLETION_PONG_def
  STATUS_OK_def STATUS_OPERATION_ERROR_def STATUS_INTERNAL_ERROR_def FLAG_PROFILE_def

section \<open>The view of a record\<close>

record InvocationView =
  iv_invocation_id :: int
  iv_operation_id :: int
  iv_inputs :: "TensorDescriptor list"
  iv_outputs :: "TensorDescriptor list"
  iv_scalars :: "Scalar list"

definition tensor_namespace :: "Tensor \<Rightarrow> TensorDescriptor" where
  "tensor_namespace t =
     \<lparr>d_buffer_id = t_buffer_id t, d_generation = t_generation t, d_allocation_id = t_allocation_id t,
      d_offset = t_offset t, d_byte_length = t_byte_length t, d_dtype = t_dtype t,
      d_shape = t_shape t, d_strides = t_strides t\<rparr>"

definition record_invocation :: "bool \<Rightarrow> Record \<Rightarrow> InvocationView" where
  "record_invocation include_outputs r =
     \<lparr>iv_invocation_id = r_invocation_id r, iv_operation_id = r_operation_id r,
      iv_inputs = map tensor_namespace (filter (\<lambda>t. t_kind t = TENSOR_INPUT) (r_tensors r)),
      iv_outputs = (if include_outputs then map tensor_namespace (filter (\<lambda>t. t_kind t = TENSOR_OUTPUT) (r_tensors r)) else []),
      iv_scalars = r_scalars r\<rparr>"

section \<open>The invocation context\<close>

record 'v InvocationContext =
  cx_operation :: OperationMetadata
  cx_invocation_id :: int
  cx_inputs :: "'v list"
  cx_outputs :: "'v list"
  cx_scalars :: "sval list"

record 'v Torch =
  torch_dtype :: "'v \<Rightarrow> string"
  torch_result_type :: "'v \<Rightarrow> sval \<Rightarrow> string"

text \<open>The three checks of \<open>__post_init__\<close>: the inputs' dtypes (the bindings of the dtype
  variables are used again by the third), the enum scalars, the outputs' dtypes.\<close>

fun context_dtypes ::
  "DTypeVariable list \<Rightarrow> (TensorParameter \<times> string) list \<Rightarrow> (string \<rightharpoonup> string) \<Rightarrow> (string \<rightharpoonup> string) result" where
  "context_dtypes variables [] bindings = Inr bindings"
| "context_dtypes variables ((p, dtype) # rest) bindings =
     (case tp_dtype_variable p of
        Some name \<Rightarrow>
          (case find (\<lambda>v. dv_name v = name) (rev variables) of
             None \<Rightarrow> Inl (KeyError ''dtype variable'')
           | Some v \<Rightarrow>
               if dtype \<notin> set (dv_dtypes v) then Inl (TypeError ''Tensor has unsupported dtype'')
               else let previous = (case bindings name of Some d \<Rightarrow> d | None \<Rightarrow> dtype) in
                    if previous \<noteq> dtype then Inl (TypeError ''Tensor violates dtype variable'')
                    else context_dtypes variables rest (bindings(name \<mapsto> previous)))
      | None \<Rightarrow>
          if tp_dtypes p \<noteq> [] \<and> dtype \<notin> set (tp_dtypes p) then Inl (TypeError ''Tensor has unsupported dtype'')
          else context_dtypes variables rest bindings)"

definition context_scalar :: "ScalarParameter \<times> sval \<Rightarrow> unit result" where
  "context_scalar = (\<lambda>(p, v).
     reject (sp_enum_name p \<noteq> None \<and>
        (case v of SInt i \<Rightarrow> \<not> (0 \<le> i \<and> i < int (length (sp_enum_values p))) | _ \<Rightarrow> True))
       (ValueError ''Scalar is outside enum''))"

definition expected_dtype ::
  "'v Torch \<Rightarrow> (string \<rightharpoonup> string) \<Rightarrow> 'v list \<Rightarrow> sval list \<Rightarrow> DTypeExpression \<Rightarrow> string result" where
  "expected_dtype torch bindings inputs scalars e =
     (case e of
        TFixed d \<Rightarrow> Inr d
      | TInput i \<Rightarrow> ebind (py_index inputs i) (\<lambda>t. Inr (torch_dtype torch t))
      | TVariable v \<Rightarrow> or_raise (bindings v) (KeyError ''dtype variable'')
      | TPromote i p \<Rightarrow> ebind (py_index inputs i) (\<lambda>t. ebind (py_index scalars p) (\<lambda>s. Inr (torch_result_type torch t s)))
      | TOther k \<Rightarrow> Inl AttributeError)"

definition context_output ::
  "'v Torch \<Rightarrow> (string \<rightharpoonup> string) \<Rightarrow> 'v list \<Rightarrow> sval list \<Rightarrow> 'v \<times> OutputPlan \<Rightarrow> unit result" where
  "context_output torch bindings inputs scalars = (\<lambda>(out, plan).
     case pl_known plan of
       None \<Rightarrow> Inr ()
     | Some known \<Rightarrow> ebind (expected_dtype torch bindings inputs scalars (ko_dtype known)) (\<lambda>expected.
         reject (torch_dtype torch out \<noteq> expected) (ValueError ''Output has an unexpected dtype'')))"

definition make_context ::
  "'v Torch \<Rightarrow> OperationMetadata \<Rightarrow> int \<Rightarrow> 'v list \<Rightarrow> 'v list \<Rightarrow> sval list \<Rightarrow> 'v InvocationContext result" where
  "make_context torch op i inputs outputs scalars =
     ebind (context_dtypes (dtype_variables op) (zip (tensor_inputs op) (map (torch_dtype torch) inputs)) Map.empty) (\<lambda>bindings.
     ebind (eall context_scalar (zip (scalar_parameters op) scalars)) (\<lambda>_.
     ebind (if length outputs = length (output_plans op)
            then eall (context_output torch bindings inputs scalars) (zip outputs (output_plans op)) else Inr ()) (\<lambda>_.
     Inr \<lparr>cx_operation = op, cx_invocation_id = i, cx_inputs = inputs, cx_outputs = outputs, cx_scalars = scalars\<rparr>)))"

text \<open>\<open>input\<close>, \<open>output\<close> and \<open>scalar\<close>: by name (the last of that name) or by index.\<close>

datatype name_or_index = Name string | Index int

definition last_position :: "string \<Rightarrow> string list \<Rightarrow> int result" where
  "last_position n names =
     (case index_of n (rev names) of
        None \<Rightarrow> Inl (KeyError ''name'')
      | Some i \<Rightarrow> Inr (int (length names) - 1 - int i))"

definition by_name_or_index :: "string list \<Rightarrow> 'a list \<Rightarrow> name_or_index \<Rightarrow> 'a result" where
  "by_name_or_index names xs k =
     (case k of Index i \<Rightarrow> py_index xs i | Name n \<Rightarrow> ebind (last_position n names) (py_index xs))"

definition cx_input :: "'v InvocationContext \<Rightarrow> name_or_index \<Rightarrow> 'v result" where
  "cx_input c = by_name_or_index (map tp_name (tensor_inputs (cx_operation c))) (cx_inputs c)"

definition cx_output :: "'v InvocationContext \<Rightarrow> name_or_index \<Rightarrow> 'v result" where
  "cx_output c = by_name_or_index (map tp_name (tensor_outputs (cx_operation c))) (cx_outputs c)"

definition cx_scalar :: "'v InvocationContext \<Rightarrow> name_or_index \<Rightarrow> sval result" where
  "cx_scalar c = by_name_or_index (map sp_name (scalar_parameters (cx_operation c))) (cx_scalars c)"

section \<open>Scalars\<close>

fun decode_loop :: "string list \<Rightarrow> Scalar list \<Rightarrow> sval option list \<Rightarrow> sval option list result" where
  "decode_loop kinds [] vals = Inr vals"
| "decode_loop kinds (a # rest) vals =
     (if int (length kinds) \<le> s_parameter a then Inl (TypeError ''Scalar argument does not match operation metadata'')
      else ebind (py_index vals (s_parameter a)) (\<lambda>v.
      if v \<noteq> None then Inl (ValueError ''Scalar parameter was supplied more than once'')
      else ebind (py_index kinds (s_parameter a)) (\<lambda>k.
      if k \<noteq> s_kind a then Inl (TypeError ''Scalar argument does not match operation metadata'')
      else decode_loop kinds rest (vals[position vals (s_parameter a) := Some (s_value a)]))))"

definition decode_scalars :: "Scalar list \<Rightarrow> string list \<Rightarrow> sval list result" where
  "decode_scalars args kinds =
     ebind (decode_loop kinds args (replicate (length kinds) None)) (\<lambda>vals.
     if None \<in> set vals then Inl (ValueError ''Invocation is missing a scalar argument'')
     else Inr (map the vals))"

section \<open>Operations\<close>

type_synonym 'v handler = "'v InvocationContext \<Rightarrow> unit result"
type_synonym 'v planner = "'v InvocationContext \<Rightarrow> (string \<times> spec) list result"

record 'v Operation =
  wo_handler :: "'v handler"
  wo_metadata :: OperationMetadata
  wo_input_accesses :: "string list"
  wo_scalar_kinds :: "string list"

definition compiled_operation :: "OperationMetadata \<Rightarrow> 'v handler \<Rightarrow> 'v Operation" where
  "compiled_operation m h =
     \<lparr>wo_handler = h, wo_metadata = m, wo_input_accesses = map tp_access (tensor_inputs m),
      wo_scalar_kinds = map sp_kind (scalar_parameters m)\<rparr>"

fun compile_loop ::
  "(string \<times> 'v handler) list \<Rightarrow> OperationMetadata list \<Rightarrow> (int \<times> 'v Operation) list \<Rightarrow> (int \<times> 'v Operation) list result" where
  "compile_loop handlers [] compiled = Inr compiled"
| "compile_loop handlers (m # ms) compiled =
     (case map_of handlers (om_name m) of
        None \<Rightarrow> Inl (ValueError ''Plugin has no handler for operation'')
      | Some h \<Rightarrow> compile_loop handlers ms (AList.update (om_operation_id m) (compiled_operation m h) compiled))"

definition compile_operations ::
  "OperationMetadata list \<Rightarrow> (string \<times> 'v handler) list \<Rightarrow> (int \<times> 'v Operation) list result" where
  "compile_operations ms handlers =
     ebind (compile_loop handlers ms []) (\<lambda>compiled.
     if fst ` set handlers \<subseteq> om_name ` set ms then Inr compiled
     else Inl (ValueError ''Handlers are not declared in plugin metadata''))"

definition is_dynamic :: "OperationMetadata \<Rightarrow> bool" where
  "is_dynamic m \<longleftrightarrow> list_ex (\<lambda>p. pl_known p = None) (output_plans m)"

definition compile_planners ::
  "OperationMetadata list \<Rightarrow> (string \<times> 'v planner) list \<Rightarrow> (int \<times> 'v planner) list result" where
  "compile_planners ms planners =
     (let dynamic = fold (\<lambda>m. AList.update (om_name m) m) (filter is_dynamic ms) [] in
      if fst ` set planners \<noteq> fst ` set dynamic
      then Inl (ValueError ''Dynamic output planners do not match metadata'')
      else Inr (fold (\<lambda>(n, m). AList.update (om_operation_id m) (the (map_of planners n))) dynamic []))"

section \<open>Running an operation\<close>

text \<open>The part of \<open>_invoke_known_direct\<close> and \<open>_invoke_known_profiled\<close> inside \<open>try\<close>; the two
  differ only in the clock readings.\<close>

definition invoke_body ::
  "('b, 'v) Host \<Rightarrow> 'v Torch \<Rightarrow> (int \<times> 'v Operation) list \<Rightarrow> InvocationView \<Rightarrow> (('b, 'v) Receiver, unit) st" where
  "invoke_body host torch operations iv =
     (case map_of operations (iv_operation_id iv) of
        None \<Rightarrow> sraise (ValueError ''Unknown operation ID'')
      | Some op \<Rightarrow>
     if length (iv_inputs iv) \<noteq> length (wo_input_accesses op)
     then sraise (ValueError ''Invocation has an invalid input count'')
     else if length (iv_outputs iv) \<noteq> length (tensor_outputs (wo_metadata op))
     then sraise (ValueError ''Invocation has an invalid output count'')
     else
     sbind (smap (\<lambda>(d, access). cache_tensor host d (iv_invocation_id iv) (access = ''readWrite''))
              (zip (iv_inputs iv) (wo_input_accesses op))) (\<lambda>inputs.
     sbind (smap (\<lambda>d. cache_tensor host d (iv_invocation_id iv) True) (iv_outputs iv)) (\<lambda>outputs.
     sbind (slift (decode_scalars (iv_scalars iv) (wo_scalar_kinds op))) (\<lambda>scalars.
     sbind (slift (make_context torch (wo_metadata op) (iv_invocation_id iv) inputs outputs scalars)) (\<lambda>cx.
     slift (case wo_handler op cx of Inl e \<Rightarrow> Inl (OperationFailure e) | Inr _ \<Rightarrow> Inr ()))))))"

definition always :: "('s, 'a) st \<Rightarrow> ('s, unit) st \<Rightarrow> ('s, 'a) st" where
  "always m h = (\<lambda>s. case m s of (r, s') \<Rightarrow> (r, snd (h s')))"

definition invoke_known_direct ::
  "('b, 'v) Host \<Rightarrow> 'v Torch \<Rightarrow> (int \<times> 'v Operation) list \<Rightarrow> InvocationView \<Rightarrow> (('b, 'v) Receiver, unit) st" where
  "invoke_known_direct host torch operations iv =
     always (invoke_body host torch operations iv) (finish_invocation (iv_invocation_id iv))"

text \<open>\<open>clock 0\<close> to \<open>clock 7\<close> are the readings of \<open>perf_counter_ns\<close> in the order of the code.\<close>

definition invoke_known_profiled ::
  "('b, 'v) Host \<Rightarrow> 'v Torch \<Rightarrow> (nat \<Rightarrow> int) \<Rightarrow> (int \<times> 'v Operation) list \<Rightarrow> InvocationView
   \<Rightarrow> (('b, 'v) Receiver, int list) st" where
  "invoke_known_profiled host torch clock operations iv =
     sbind (always (invoke_body host torch operations iv) (finish_invocation (iv_invocation_id iv))) (\<lambda>_.
     let input_views = clock 2 - clock 1; output_views = clock 4 - clock 3; kernel = clock 6 - clock 5;
         elapsed = clock 7 - clock 0 in
     sret [input_views, output_views, max 0 (elapsed - input_views - output_views - kernel), kernel])"

definition invoke_known ::
  "('b, 'v) Host \<Rightarrow> 'v Torch \<Rightarrow> (nat \<Rightarrow> int) \<Rightarrow> bool \<Rightarrow> (int \<times> 'v Operation) list \<Rightarrow> InvocationView
   \<Rightarrow> (('b, 'v) Receiver, int list option) st" where
  "invoke_known host torch clock profiled operations iv =
     (if \<not> profiled then sbind (invoke_known_direct host torch operations iv) (\<lambda>_. sret None)
      else sbind (invoke_known_profiled host torch clock operations iv) (\<lambda>m. sret (Some m)))"

definition dynamic_indices :: "OperationMetadata \<Rightarrow> (string \<times> int) list" where
  "dynamic_indices op =
     fold (\<lambda>(i, p). AList.update (tp_name p) i)
       (filter (\<lambda>(i, p). pl_known (output_plans op ! nat i) = None)
          (zip (map int [0..<length (tensor_outputs op)]) (tensor_outputs op))) []"

definition worker_plan_outputs ::
  "('b, 'v) Host \<Rightarrow> 'v Torch \<Rightarrow> (int \<times> 'v Operation) list \<Rightarrow> (int \<times> 'v planner) list \<Rightarrow> InvocationView
   \<Rightarrow> (('b, 'v) Receiver, PlannedOutput list) st" where
  "worker_plan_outputs host torch operations planners iv =
     (case (map_of operations (iv_operation_id iv), map_of planners (iv_operation_id iv)) of
        (Some op, Some planner) \<Rightarrow>
     if length (iv_inputs iv) \<noteq> length (wo_input_accesses op)
     then sraise (ValueError ''Output planning has an invalid input count'')
     else
     sbind (smap (\<lambda>d. cache_tensor host d (iv_invocation_id iv) False) (iv_inputs iv)) (\<lambda>inputs.
     sbind (slift (decode_scalars (iv_scalars iv) (wo_scalar_kinds op))) (\<lambda>scalars.
     sbind (slift (make_context torch (wo_metadata op) (iv_invocation_id iv) inputs [] scalars)) (\<lambda>cx.
     case planner cx of
       Inl e \<Rightarrow> sraise (OperationFailure e)
     | Inr planned \<Rightarrow>
         let indices = dynamic_indices (wo_metadata op) in
         if fst ` set planned \<noteq> fst ` set indices
         then sraise (OperationFailure (ValueError ''Planner returned the wrong dynamic outputs''))
         else sret (map (\<lambda>(n, shape, dtype). \<lparr>o_output = the (map_of indices n), o_shape = shape, o_dtype = dtype\<rparr>) planned))))
      | _ \<Rightarrow> sraise (ValueError ''Operation ID has no dynamic planner''))"

section \<open>The ring thread\<close>

definition completion_kind :: "int \<Rightarrow> int" where
  "completion_kind k =
     (if k = COMMAND_INVOKE then COMPLETION_INVOKE
      else if k = COMMAND_PLAN_OUTPUTS then COMPLETION_PLAN_OUTPUTS
      else if k = COMMAND_PING then COMPLETION_PONG else COMPLETION_INVOKE)"

definition profiled :: "Record \<Rightarrow> bool" where
  "profiled r \<longleftrightarrow> r_flags r AND FLAG_PROFILE \<noteq> 0"

text \<open>The completion as it stands before the command runs; \<open>clock\<close> gives the reading stored at
  each place of the profile, and \<open>clock 8\<close> onwards the readings inside the operation.\<close>

definition fresh_completion :: "(nat \<Rightarrow> int) \<Rightarrow> Record \<Rightarrow> Record" where
  "fresh_completion clock command =
     \<lparr>r_kind = completion_kind (r_kind command), r_generation = r_generation command,
      r_submission_id = r_submission_id command, r_invocation_id = r_invocation_id command,
      r_operation_id = r_operation_id command, r_status = STATUS_OK, r_flags = r_flags command,
      r_tensors = [], r_scalars = [], r_outputs = [],
      r_profile = (let stamp = (\<lambda>i. if profiled command then clock i else 0) in
        [r_profile command ! 0, stamp 1, stamp 2, 0, 0, 0, 0, 0]),
      r_error_type = [], r_error_message = []\<rparr>"

text \<open>What one command computes: the completion with its outputs and measurements.\<close>

definition perform ::
  "('b, 'v) Host \<Rightarrow> 'v Torch \<Rightarrow> (int \<times> 'v Operation) list \<Rightarrow> (int \<times> 'v planner) list \<Rightarrow> (nat \<Rightarrow> int) \<Rightarrow> Record
   \<Rightarrow> Record \<Rightarrow> (('b, 'v) Receiver, Record) st" where
  "perform host torch operations planners clock command c =
     (if r_kind command = COMMAND_INVOKE
      then sbind (invoke_known host torch (\<lambda>i. clock (8 + i)) (profiled command) operations (record_invocation True command)) (\<lambda>measured.
           sret (case measured of None \<Rightarrow> c
                 | Some m \<Rightarrow> c\<lparr>r_profile := take 3 (r_profile c) @ m @ drop 7 (r_profile c)\<rparr>))
      else if r_kind command = COMMAND_PLAN_OUTPUTS
      then sbind (worker_plan_outputs host torch operations planners (record_invocation False command)) (\<lambda>planned.
           sret (c\<lparr>r_outputs := planned\<rparr>))
      else if r_kind command = COMMAND_PING
      then sret (if profiled command then c\<lparr>r_profile := (r_profile c)[6 := clock 9 - clock 8]\<rparr> else c)
      else sraise (ValueError ''Unsupported ring command''))"

record Errors =
  err_type_name :: "pyerr \<Rightarrow> ustr"
  err_str :: "pyerr \<Rightarrow> ustr"

definition completed :: "Errors \<Rightarrow> Record \<Rightarrow> pyerr + Record \<Rightarrow> Record" where
  "completed errs c r =
     (case r of
        Inr c' \<Rightarrow> c'
      | Inl (OperationFailure e) \<Rightarrow>
          c\<lparr>r_status := STATUS_OPERATION_ERROR, r_error_type := err_type_name errs e, r_error_message := err_str errs e\<rparr>
      | Inl e \<Rightarrow>
          c\<lparr>r_status := STATUS_INTERNAL_ERROR, r_error_type := err_type_name errs e, r_error_message := err_str errs e\<rparr>)"

definition answer ::
  "('b, 'v) Host \<Rightarrow> 'v Torch \<Rightarrow> Errors \<Rightarrow> (int \<times> 'v Operation) list \<Rightarrow> (int \<times> 'v planner) list \<Rightarrow> (nat \<Rightarrow> int) \<Rightarrow> Record
   \<Rightarrow> ('b, 'v) Receiver \<Rightarrow> Record \<times> ('b, 'v) Receiver" where
  "answer host torch errs operations planners clock command s =
     (let c = fresh_completion clock command in
      case perform host torch operations planners clock command c s of (r, s') \<Rightarrow>
      let c' = completed errs c r in
      (if profiled c' then c'\<lparr>r_profile := (r_profile c')[7 := clock 7]\<rparr> else c', s'))"

text \<open>\<open>_ring_worker_loop\<close> over the results of \<open>commands.pop\<close>; \<open>push\<close> is \<open>completions.push\<close> after the
  encoding. Only a \<open>RingError\<close> ends the thread quietly.\<close>

definition is_ring_error :: "pyerr \<Rightarrow> bool" where
  "is_ring_error e \<longleftrightarrow> (case e of RingError _ \<Rightarrow> True | _ \<Rightarrow> False)"

fun ring_worker_loop ::
  "('b, 'v) Host \<Rightarrow> 'v Torch \<Rightarrow> Errors \<Rightarrow> (int \<times> 'v Operation) list \<Rightarrow> (int \<times> 'v planner) list \<Rightarrow> (bytes \<Rightarrow> unit result)
   \<Rightarrow> (Record result \<times> (nat \<Rightarrow> int)) list \<Rightarrow> ('b, 'v) Receiver \<Rightarrow> (serve_end \<times> Record list) \<times> ('b, 'v) Receiver" where
  "ring_worker_loop host torch errs operations planners push [] s = ((Goes_on, []), s)"
| "ring_worker_loop host torch errs operations planners push ((popped, clock) # rest) s =
     (case popped of
        Inl e \<Rightarrow> ((if is_ring_error e then Returns else Dies e, []), s)
      | Inr command \<Rightarrow>
          (case answer host torch errs operations planners clock command s of (c, s') \<Rightarrow>
           case ebind (sdk_ring_encode c) push of
             Inl e \<Rightarrow> ((if is_ring_error e then Returns else Dies e, []), s')
           | Inr _ \<Rightarrow>
               (case ring_worker_loop host torch errs operations planners push rest s' of
                  ((how, done), s'') \<Rightarrow> ((how, c # done), s''))))"

end
