(* ===== verification/Worker_Session.thy ===== *)
theory Worker_Session
  imports Buffer_Access Worker_Invocation
begin

text \<open>
  The runtime's session with a worker, \<open>WorkerSession\<close> in
  \<open>packages/wmfs/wmfs/transport/worker_process.py\<close>: its lifecycle and an invocation from the
  arguments to the result.

  The state is the session's flags, the buffer manager and the log of what was asked of the
  native session. What the native session and the worker behind it answer is the argument
  \<open>world\<close>, a function of that log; so are the random numbers of an allocation. Timing metrics
  are left out.
\<close>

section \<open>Lifecycle\<close>

record Lifecycle =
  lc_ready :: bool
  lc_closed :: bool
  lc_close_started :: bool
  lc_invalidated :: bool
  lc_shutdown_requested :: bool
  lc_active_calls :: int

definition started_session :: Lifecycle where
  "started_session = \<lparr>lc_ready = True, lc_closed = False, lc_close_started = False, lc_invalidated = False,
     lc_shutdown_requested = False, lc_active_calls = 0\<rparr>"

definition begin_call :: "(Lifecycle, unit) st" where
  "begin_call =
     sbind sget (\<lambda>l.
     if lc_closed l \<or> lc_close_started l \<or> lc_invalidated l then sraise (RuntimeError ''Worker session is closed'')
     else if \<not> lc_ready l then sraise (RuntimeError ''Worker session is not ready'')
     else smod (\<lambda>l. l\<lparr>lc_active_calls := lc_active_calls l + 1\<rparr>))"

definition end_call :: "Lifecycle \<Rightarrow> Lifecycle" where
  "end_call l = l\<lparr>lc_active_calls := lc_active_calls l - 1\<rparr>"

definition invalidate :: "Lifecycle \<Rightarrow> Lifecycle" where
  "invalidate l = l\<lparr>lc_invalidated := True\<rparr>"

text \<open>\<open>close\<close>: what the caller does next, the section that asks the worker to stop, and the last.\<close>

datatype close_next = Close_returns | Close_waits_for_other | Close_waits_for_calls

definition close_begin :: "Lifecycle \<Rightarrow> close_next \<times> Lifecycle" where
  "close_begin l =
     (if lc_closed l then (Close_returns, l)
      else if lc_close_started l then (Close_waits_for_other, l)
      else (Close_waits_for_calls, l\<lparr>lc_close_started := True\<rparr>))"

definition request_shutdown :: "Lifecycle \<Rightarrow> Lifecycle" where
  "request_shutdown l = l\<lparr>lc_shutdown_requested := True\<rparr>"

definition close_finish :: "Lifecycle \<Rightarrow> Lifecycle" where
  "close_finish l = l\<lparr>lc_closed := True\<rparr>"

text \<open>The threads of a session: \<open>calls\<close> are inside \<open>_begin_call\<close> .. \<open>_end_call\<close>; at most one thread
  is past \<open>close_begin\<close> without having finished, in the phase \<open>closer\<close>.\<close>

datatype closer = No_closer | Draining | Stopping | Finished

record Session_Threads =
  life :: Lifecycle
  calls :: nat
  closer :: closer

inductive session_step :: "Session_Threads \<Rightarrow> Session_Threads \<Rightarrow> bool" where
  call_begins: "begin_call (life s) = (Inr (), l) \<Longrightarrow> session_step s (s\<lparr>life := l, calls := calls s + 1\<rparr>)"
| call_refused: "begin_call (life s) = (Inl e, l) \<Longrightarrow> session_step s (s\<lparr>life := l\<rparr>)"
| call_invalidates: "0 < calls s \<Longrightarrow> session_step s (s\<lparr>life := invalidate (life s)\<rparr>)"
| call_ends: "0 < calls s \<Longrightarrow> session_step s (s\<lparr>life := end_call (life s), calls := calls s - 1\<rparr>)"
| close_starts: "close_begin (life s) = (Close_waits_for_calls, l) \<Longrightarrow> session_step s (s\<lparr>life := l, closer := Draining\<rparr>)"
| close_again: "close_begin (life s) = (n, l) \<Longrightarrow> n \<noteq> Close_waits_for_calls \<Longrightarrow> session_step s (s\<lparr>life := l\<rparr>)"
| close_requests: "closer s = Draining \<Longrightarrow> lc_active_calls (life s) = 0 \<Longrightarrow>
    session_step s (s\<lparr>life := request_shutdown (life s), closer := Stopping\<rparr>)"
| close_finishes: "closer s = Stopping \<Longrightarrow> session_step s (s\<lparr>life := close_finish (life s), closer := Finished\<rparr>)"

inductive session_reachable :: "Session_Threads \<Rightarrow> bool" where
  start: "session_reachable \<lparr>life = started_session, calls = 0, closer = No_closer\<rparr>"
| more: "session_reachable s \<Longrightarrow> session_step s s' \<Longrightarrow> session_reachable s'"

section \<open>Invocation IDs\<close>

definition take_invocation_id :: "int \<Rightarrow> int \<times> int" where
  "take_invocation_id n = (n, if n + 1 > 0xFFFFFFFFFFFFFFFF then 1 else n + 1)"

section \<open>The command record\<close>

definition tensor_from_descriptor :: "TensorDescriptor \<Rightarrow> int \<Rightarrow> int \<Rightarrow> bool \<Rightarrow> Tensor" where
  "tensor_from_descriptor d k p writable =
     \<lparr>t_buffer_id = d_buffer_id d, t_generation = d_generation d, t_allocation_id = d_allocation_id d,
      t_offset = d_offset d, t_byte_length = d_byte_length d, t_dtype = d_dtype d, t_shape = d_shape d,
      t_strides = d_strides d, t_kind = k, t_parameter = p, t_writable = writable\<rparr>"

definition scalar_arguments :: "(int \<times> string \<times> sval) list \<Rightarrow> Scalar list" where
  "scalar_arguments xs = map (\<lambda>(i, k, v). \<lparr>s_parameter = i, s_kind = k, s_value = v\<rparr>) xs"

definition numbered :: "'a list \<Rightarrow> (int \<times> 'a) list" where
  "numbered xs = zip (map int [0..<length xs]) xs"

type_synonym managed_tensor = "SharedBuffer \<times> TensorDescriptor"

text \<open>\<open>zip(.., strict=True)\<close> raises when the lengths differ.\<close>

definition invocation_record ::
  "int \<Rightarrow> int \<Rightarrow> int \<Rightarrow> managed_tensor list \<Rightarrow> managed_tensor list \<Rightarrow> BoundInvocation \<Rightarrow> bool \<Rightarrow> int \<Rightarrow> Record result" where
  "invocation_record generation iid operation_id inputs outputs bi prof k =
     (if length inputs \<noteq> length (bi_tensor_inputs bi) \<or> length (scalar_parameters (bi_operation bi)) \<noteq> length (bi_scalars bi)
      then Inl (ValueError ''zip() argument is shorter'')
      else Inr \<lparr>r_kind = k, r_generation = generation, r_submission_id = 1, r_invocation_id = iid,
        r_operation_id = operation_id, r_status = 0, r_flags = (if prof then FLAG_PROFILE else 0),
        r_tensors = map (\<lambda>(i, (b, d), (t, writable)). tensor_from_descriptor d TENSOR_INPUT i writable)
                      (numbered (zip inputs (bi_tensor_inputs bi)))
                  @ map (\<lambda>(i, (b, d)). tensor_from_descriptor d TENSOR_OUTPUT i True) (numbered outputs),
        r_scalars = scalar_arguments (map (\<lambda>(i, p, v). (i, sp_kind p, v))
                      (numbered (zip (scalar_parameters (bi_operation bi)) (bi_scalars bi)))),
        r_outputs = [], r_profile = replicate 8 0, r_error_type = [], r_error_message = []\<rparr>)"

definition raise_ring_error :: "Record \<Rightarrow> unit result" where
  "raise_ring_error c =
     (if r_status c = STATUS_OK then Inr ()
      else if r_status c = STATUS_OPERATION_ERROR then Inl (OperationError (r_error_type c) (r_error_message c))
      else Inl (RingError ''worker ring failure''))"

section \<open>What a session asks of the outside\<close>

datatype session_event =
    Ensured "(SharedBuffer \<times> bool) list" int
  | Planned Record
  | Marked "managed_tensor list"
  | Submitted Record
  | Aborted int
  | Reserved accesses
  | Released accesses

record Session =
  se_manager :: Manager
  se_life :: Lifecycle
  se_next :: int
  se_log :: "session_event list"

record World =
  w_generation :: int
  w_recipient :: nat
  w_inference :: bool
  w_grad_enabled :: bool
  w_result_type :: result_type
  w_retire :: "nat \<Rightarrow> SharedBuffer list \<Rightarrow> bool"
  w_reset :: "int \<Rightarrow> bool"
  w_numbers :: "session_event list \<Rightarrow> Manager \<Rightarrow> int list \<times> int list"
  w_ensure :: "session_event list \<Rightarrow> bool list result"
  w_plan :: "session_event list \<Rightarrow> Record result"
  w_invoke :: "session_event list \<Rightarrow> (int \<times> ustr \<times> ustr) result"
  w_profiled :: "session_event list \<Rightarrow> Record result"
  w_abort :: "session_event list \<Rightarrow> unit result"

definition on_manager :: "(Manager, 'a) st \<Rightarrow> (Session, 'a) st" where
  "on_manager m = (\<lambda>s. case m (se_manager s) of (r, m') \<Rightarrow> (r, s\<lparr>se_manager := m'\<rparr>))"

definition emit :: "session_event \<Rightarrow> (Session, unit) st" where
  "emit e = smod (\<lambda>s. s\<lparr>se_log := se_log s @ [e]\<rparr>)"

definition ask :: "session_event \<Rightarrow> (session_event list \<Rightarrow> 'a result) \<Rightarrow> (Session, 'a) st" where
  "ask e reply = sbind (emit e) (\<lambda>_. sbind sget (\<lambda>s. slift (reply (se_log s))))"

definition invalidated :: "Session \<Rightarrow> Session" where
  "invalidated s = s\<lparr>se_life := invalidate (se_life s)\<rparr>"

text \<open>\<open>except\<close> for some exceptions only, and \<open>finally\<close> on the exceptional path.\<close>

definition on_some_error :: "(pyerr \<Rightarrow> bool) \<Rightarrow> ('s, 'a) st \<Rightarrow> ('s \<Rightarrow> 's) \<Rightarrow> ('s, 'a) st" where
  "on_some_error P m h = (\<lambda>s. case m s of (Inl e, s') \<Rightarrow> (Inl e, if P e then h s' else s') | (Inr x, s') \<Rightarrow> (Inr x, s'))"

definition after_error :: "('s, 'a) st \<Rightarrow> ('s, unit) st \<Rightarrow> ('s, 'a) st" where
  "after_error m h = (\<lambda>s. case m s of
     (Inl e, s') \<Rightarrow> (case h s' of (Inl e', s'') \<Rightarrow> (Inl e', s'') | (Inr _, s'') \<Rightarrow> (Inl e, s''))
   | (Inr x, s') \<Rightarrow> (Inr x, s'))"

definition is_value_error :: "pyerr \<Rightarrow> bool" where
  "is_value_error e \<longleftrightarrow> (case e of ValueError _ \<Rightarrow> True | UnicodeEncodeError \<Rightarrow> True | UnicodeDecodeError \<Rightarrow> True | _ \<Rightarrow> False)"

section \<open>The native session\<close>

definition ensure_mapped_many :: "World \<Rightarrow> (SharedBuffer \<times> bool) list \<Rightarrow> int \<Rightarrow> (Session, bool list) st" where
  "ensure_mapped_many w bufs iid =
     sbind (ask (Ensured bufs iid) (w_ensure w)) (\<lambda>result.
     sbind (sall (\<lambda>((b, _), mapped). if mapped \<and> \<not> sb_arena b then on_manager (register_recipient (w_recipient w) b) else sret ())
              (zip bufs result)) (\<lambda>_.
     if length bufs \<noteq> length result then sraise (ValueError ''zip() argument is shorter'') else sret result))"

definition abort_invocation :: "World \<Rightarrow> int \<Rightarrow> (Session, unit) st" where
  "abort_invocation w iid = ask (Aborted iid) (w_abort w)"

section \<open>An invocation\<close>

definition next_invocation_id :: "(Session, int) st" where
  "next_invocation_id =
     sbind sget (\<lambda>s. let (iid, n) = take_invocation_id (se_next s) in
     sbind (smod (\<lambda>s. s\<lparr>se_next := n\<rparr>)) (\<lambda>_. sret iid))"

definition share_inputs :: "World \<Rightarrow> BoundInvocation \<Rightarrow> (Session, managed_tensor list) st" where
  "share_inputs w bi =
     smap (\<lambda>(t, _). sbind sget (\<lambda>s.
        let (ids, random) = w_numbers w (se_log s) (se_manager s) in
        sbind (on_manager (share_input (w_retire w) (w_reset w) ids random (at_view t))) (\<lambda>(bd, _). sret bd)))
       (bi_tensor_inputs bi)"

definition materialize_outputs :: "World \<Rightarrow> InvocationOutputPlan \<Rightarrow> (Session, managed_tensor list) st" where
  "materialize_outputs w plan =
     smap (\<lambda>i. sbind sget (\<lambda>s.
        let (ids, random) = w_numbers w (se_log s) (se_manager s) in
        sbind (on_manager (materialize_output (w_retire w) (w_reset w) ids random plan (int i))) (\<lambda>(bd, _). sret bd)))
       [0..<length (specs plan)]"

definition plan_dynamic_outputs ::
  "World \<Rightarrow> BoundInvocation \<Rightarrow> managed_tensor list \<Rightarrow> int \<Rightarrow> (Session, (int \<times> spec) list) st" where
  "plan_dynamic_outputs w bi inputs iid =
     (if \<not> is_dynamic (bi_operation bi) then sret []
      else
      sbind (on_error
        (sbind (slift (invocation_record (w_generation w) iid (om_operation_id (bi_operation bi)) inputs [] bi False
                   COMMAND_PLAN_OUTPUTS)) (\<lambda>command. ask (Planned command) (w_plan w)))
        invalidated) (\<lambda>response.
      sbind (on_some_error is_ring_error (slift (raise_ring_error response)) invalidated) (\<lambda>_.
      sret (map (\<lambda>out. (o_output out, o_shape out, o_dtype out)) (r_outputs response)))))"

text \<open>From the plan to the outputs, mapped and ready: the part of \<open>_invoke_direct\<close> and of
  \<open>_invoke_known_profiled\<close> before the command is dispatched. \<open>extra\<close> are the inputs not yet mapped.\<close>

definition prepare_outputs ::
  "World \<Rightarrow> BoundInvocation \<Rightarrow> managed_tensor list \<Rightarrow> int \<Rightarrow> (SharedBuffer \<times> bool) list \<Rightarrow> (Session, managed_tensor list) st" where
  "prepare_outputs w bi inputs iid extra =
     sbind (plan_dynamic_outputs w bi inputs iid) (\<lambda>dynamic.
     sbind sget (\<lambda>s.
     sbind (on_some_error is_value_error
        (slift (plan_outputs (w_result_type w) (se_manager s) (w_inference w) bi (map snd inputs) dynamic))
        (\<lambda>s. if dynamic \<noteq> [] then invalidated s else s)) (\<lambda>plan.
     sbind (materialize_outputs w plan) (\<lambda>outputs.
     sbind (on_error (ensure_mapped_many w (extra @ map (\<lambda>(b, _). (b, True)) outputs) iid) invalidated) (\<lambda>_.
     sbind (emit (Marked (case reusable_outputs plan of None \<Rightarrow> [] | Some ms \<Rightarrow> map (\<lambda>(d, b). (b, d)) ms))) (\<lambda>_.
     sret outputs))))))"

definition input_mappings :: "BoundInvocation \<Rightarrow> managed_tensor list \<Rightarrow> (SharedBuffer \<times> bool) list" where
  "input_mappings bi inputs = map (\<lambda>((b, _), (_, writable)). (b, writable)) (zip inputs (bi_tensor_inputs bi))"

definition invoke_direct :: "World \<Rightarrow> BoundInvocation \<Rightarrow> (Session, managed_tensor list) st" where
  "invoke_direct w bi =
     sbind next_invocation_id (\<lambda>iid.
     sbind (share_inputs w bi) (\<lambda>inputs.
     let mappings = input_mappings bi inputs; dynamic_required = is_dynamic (bi_operation bi) in
     sbind (if dynamic_required
            then sbind (on_error (ensure_mapped_many w mappings iid) invalidated) (\<lambda>_. sret ()) else sret ()) (\<lambda>_.
     sbind (after_error (prepare_outputs w bi inputs iid (if dynamic_required then [] else mappings))
              (abort_invocation w iid)) (\<lambda>outputs.
     sbind (on_error
        (sbind (slift (invocation_record (w_generation w) iid (om_operation_id (bi_operation bi)) inputs outputs bi False
                   COMMAND_INVOKE)) (\<lambda>command. ask (Submitted command) (w_invoke w)))
        invalidated) (\<lambda>(status, error_type, error_message).
     if status = STATUS_OPERATION_ERROR then sraise (OperationError error_type error_message)
     else if status \<noteq> STATUS_OK
     then sbind (smod invalidated) (\<lambda>_. sraise (RingError ''worker ring failure''))
     else sret outputs)))))"

definition invoke_profiled :: "World \<Rightarrow> BoundInvocation \<Rightarrow> (Session, managed_tensor list) st" where
  "invoke_profiled w bi =
     sbind next_invocation_id (\<lambda>iid.
     sbind (share_inputs w bi) (\<lambda>inputs.
     sbind (on_error (ensure_mapped_many w (input_mappings bi inputs) iid) invalidated) (\<lambda>_.
     sbind (after_error (prepare_outputs w bi inputs iid []) (abort_invocation w iid)) (\<lambda>outputs.
     sbind (on_error
        (sbind (slift (invocation_record (w_generation w) iid (om_operation_id (bi_operation bi)) inputs outputs bi True
                   COMMAND_INVOKE)) (\<lambda>command. ask (Submitted command) (w_profiled w)))
        invalidated) (\<lambda>response.
     sbind (on_some_error is_ring_error (slift (raise_ring_error response)) invalidated) (\<lambda>_.
     sret outputs))))))"

section \<open>Reservation and submission\<close>

definition managed_view :: "Manager \<Rightarrow> TorchView \<Rightarrow> (TorchView \<times> TensorDescriptor) list result" where
  "managed_view m v = ebind (managed v m) (\<lambda>r. Inr (case r of None \<Rightarrow> [] | Some (d, _) \<Rightarrow> [(v, d)]))"

definition output_values :: "py_out option \<Rightarrow> py_out list" where
  "output_values out = (case out of None \<Rightarrow> [] | Some (OTuple xs) \<Rightarrow> xs | Some x \<Rightarrow> [x])"

definition invocation_lists ::
  "Manager \<Rightarrow> BoundInvocation \<Rightarrow> ((TorchView \<times> TensorDescriptor) list \<times> (TorchView \<times> TensorDescriptor) list) result" where
  "invocation_lists m bi =
     ebind (emap (\<lambda>(t, writable). ebind (managed_view m (at_view t)) (\<lambda>vs. Inr (writable, vs))) (bi_tensor_inputs bi)) (\<lambda>ins.
     ebind (emap (\<lambda>x. case x of OTensor v _ _ \<Rightarrow> managed_view m v | _ \<Rightarrow> Inr []) (output_values (bi_out bi))) (\<lambda>outs.
     Inr (concat (map snd (filter (\<lambda>(w, _). \<not> w) ins)), concat (map snd (filter fst ins)) @ concat outs)))"

text \<open>The lease is taken before and released after the invocation, whatever happens; waiting for it
  is Buffer_Access.\<close>

definition with_access :: "BoundInvocation \<Rightarrow> (Session, 'a) st \<Rightarrow> (Session, 'a) st" where
  "with_access bi body =
     sbind sget (\<lambda>s.
     sbind (slift (invocation_lists (se_manager s) bi)) (\<lambda>(reads, writes).
     if m_closed (se_manager s) then sraise (RuntimeError ''Buffer manager is closed'')
     else
     sbind (slift (collect_accesses (se_manager s) reads writes)) (\<lambda>a.
     sbind (emit (Reserved a)) (\<lambda>_. always body (emit (Released a))))))"

definition bind_and_invoke ::
  "World \<Rightarrow> bool \<Rightarrow> (string \<times> OperationMetadata) list \<Rightarrow> string \<Rightarrow> py_arg list \<Rightarrow> kwargs \<Rightarrow> py_out option
   \<Rightarrow> (Session, managed_tensor list) st" where
  "bind_and_invoke w prof ops name args kwargs out =
     sbind (slift (or_raise (map_of ops name) (KeyError ''operation''))) (\<lambda>op.
     sbind (slift (bind_invocation (w_grad_enabled w) op args kwargs out)) (\<lambda>bi.
     with_access bi (if prof then invoke_profiled w bi else invoke_direct w bi)))"

text \<open>\<open>close\<close> as its caller finds the session when it returns.\<close>

definition close_session :: "Lifecycle \<Rightarrow> Lifecycle" where
  "close_session l = (case close_begin l of
      (Close_waits_for_calls, l') \<Rightarrow> close_finish (request_shutdown l') | (_, l') \<Rightarrow> l')"

definition submit_invocation ::
  "World \<Rightarrow> bool \<Rightarrow> (string \<times> OperationMetadata) list \<Rightarrow> string \<Rightarrow> py_arg list \<Rightarrow> kwargs \<Rightarrow> py_out option
   \<Rightarrow> (Session, managed_tensor list) st" where
  "submit_invocation w prof ops name args kwargs out =
     (\<lambda>s. case begin_call (se_life s) of
        (Inl e, l) \<Rightarrow> (Inl e, s\<lparr>se_life := l\<rparr>)
      | (Inr _, l) \<Rightarrow>
          (case bind_and_invoke w prof ops name args kwargs out (s\<lparr>se_life := l\<rparr>) of
             (Inr outs, s1) \<Rightarrow> (Inr outs, s1\<lparr>se_life := end_call (se_life s1)\<rparr>)
           | (Inl e, s1) \<Rightarrow>
               if lc_invalidated (se_life s1)
               then (Inl (WorkerTransportError e), s1\<lparr>se_life := close_session (end_call (se_life s1))\<rparr>)
               else (Inl e, s1\<lparr>se_life := end_call (se_life s1)\<rparr>)))"

end
