(* ===== verification/Isolated_Backend.thy ===== *)
theory Isolated_Backend
  imports Autograd Worker_Session
begin

text \<open>
  The isolated backend, \<open>packages/wmfs/wmfs/backends/isolated.py\<close>: one worker session per
  plugin, made on demand, shared by the threads that call operations, taken away when it breaks
  and closed with the backend.

  Each function below is one section under the condition variable; \<open>backend_step\<close> puts them in
  the order of the methods, for any number of threads. A session is a number given when its
  \<open>WorkerSession\<close> is made; \<open>alive\<close> are the sessions whose \<open>close\<close> has not run.
\<close>

datatype backend_state = Backend_open | Backend_closing | Backend_closed

record Backend =
  be_sessions :: "(string \<times> nat) list"
  be_creating :: "string set"
  be_inflight :: int
  be_state :: backend_state

definition new_backend :: Backend where
  "new_backend = \<lparr>be_sessions = [], be_creating = {}, be_inflight = 0, be_state = Backend_open\<rparr>"

section \<open>Acquiring a session\<close>

text \<open>One turn of the loop of \<open>_acquire_session\<close>.\<close>

datatype acquire_next = Acquired nat | Must_create | Must_wait | Not_acquired pyerr

definition acquire_session :: "string \<Rightarrow> Backend \<Rightarrow> acquire_next \<times> Backend" where
  "acquire_session p b =
     (if be_state b \<noteq> Backend_open then (Not_acquired (RuntimeError ''Isolated backend is closed''), b)
      else case map_of (be_sessions b) p of
        Some s \<Rightarrow> (Acquired s, b\<lparr>be_inflight := be_inflight b + 1\<rparr>)
      | None \<Rightarrow> if p \<notin> be_creating b then (Must_create, b\<lparr>be_creating := insert p (be_creating b)\<rparr>) else (Must_wait, b))"

definition creation_over :: "string \<Rightarrow> Backend \<Rightarrow> Backend" where
  "creation_over p b = b\<lparr>be_creating := be_creating b - {p}\<rparr>"

text \<open>After \<open>_new_session\<close>: the session is published, or must be closed.\<close>

definition publish_session :: "string \<Rightarrow> nat \<Rightarrow> Backend \<Rightarrow> bool \<times> Backend" where
  "publish_session p s b =
     (if be_state b = Backend_open
      then (True, b\<lparr>be_sessions := AList.update p s (be_sessions b), be_creating := be_creating b - {p},
                    be_inflight := be_inflight b + 1\<rparr>)
      else (False, b))"

section \<open>Using, evicting, constructing\<close>

definition release_call :: "Backend \<Rightarrow> Backend" where
  "release_call b = b\<lparr>be_inflight := be_inflight b - 1\<rparr>"

definition evict_session :: "string \<Rightarrow> nat \<Rightarrow> Backend \<Rightarrow> Backend" where
  "evict_session p s b =
     (if map_of (be_sessions b) p = Some s then b\<lparr>be_sessions := AList.delete p (be_sessions b)\<rparr> else b)"

definition enter_construction :: "(Backend, unit) st" where
  "enter_construction =
     sbind sget (\<lambda>b.
     if be_state b \<noteq> Backend_open then sraise (RuntimeError ''Isolated backend is closed'')
     else smod (\<lambda>b. b\<lparr>be_inflight := be_inflight b + 1\<rparr>))"

section \<open>Closing\<close>

definition backend_close_begin :: "Backend \<Rightarrow> close_next \<times> Backend" where
  "backend_close_begin b =
     (case be_state b of
        Backend_closed \<Rightarrow> (Close_returns, b)
      | Backend_closing \<Rightarrow> (Close_waits_for_other, b)
      | Backend_open \<Rightarrow> (Close_waits_for_calls, b\<lparr>be_state := Backend_closing\<rparr>))"

definition backend_drained :: "Backend \<Rightarrow> bool" where
  "backend_drained b \<longleftrightarrow> be_inflight b = 0 \<and> be_creating b = {}"

definition take_sessions :: "Backend \<Rightarrow> nat list \<times> Backend" where
  "take_sessions b = (map snd (be_sessions b), b\<lparr>be_sessions := []\<rparr>)"

definition backend_close_finish :: "Backend \<Rightarrow> Backend" where
  "backend_close_finish b = b\<lparr>be_state := Backend_closed\<rparr>"

section \<open>The threads of a backend\<close>

text \<open>What a thread inside the backend is doing. A session whose \<open>close\<close> raises counts as closed,
  as the code goes on after it.\<close>

datatype phase =
    Creating string | Created string nat | Discarding string nat
  | Using string nat | Evicting nat | Constructing
  | Close_drains | Close_sessions "nat list"

record Backend_World =
  be :: Backend
  phases :: "phase multiset"
  alive :: "nat set"
  made :: nat
  buffers_closed :: bool

definition into :: "phase multiset \<Rightarrow> phase multiset \<Rightarrow> Backend_World \<Rightarrow> Backend_World" where
  "into old new w = w\<lparr>phases := phases w - old + new\<rparr>"

inductive backend_step :: "Backend_World \<Rightarrow> Backend_World \<Rightarrow> bool" where
  finds: "acquire_session p (be w) = (Acquired s, b) \<Longrightarrow> backend_step w (into {#} {#Using p s#} (w\<lparr>be := b\<rparr>))"
| creates: "acquire_session p (be w) = (Must_create, b) \<Longrightarrow> backend_step w (into {#} {#Creating p#} (w\<lparr>be := b\<rparr>))"
| create_fails: "Creating p \<in># phases w \<Longrightarrow>
    backend_step w (into {#Creating p#} {#} (w\<lparr>be := creation_over p (be w)\<rparr>))"
| create_works: "Creating p \<in># phases w \<Longrightarrow>
    backend_step w (into {#Creating p#} {#Created p (made w)#} (w\<lparr>alive := insert (made w) (alive w), made := made w + 1\<rparr>))"
| publishes: "Created p s \<in># phases w \<Longrightarrow> publish_session p s (be w) = (True, b) \<Longrightarrow>
    backend_step w (into {#Created p s#} {#Using p s#} (w\<lparr>be := b\<rparr>))"
| too_late: "Created p s \<in># phases w \<Longrightarrow> publish_session p s (be w) = (False, b) \<Longrightarrow>
    backend_step w (into {#Created p s#} {#Discarding p s#} (w\<lparr>be := b\<rparr>))"
| discards: "Discarding p s \<in># phases w \<Longrightarrow>
    backend_step w (into {#Discarding p s#} {#} (w\<lparr>be := creation_over p (be w), alive := alive w - {s}\<rparr>))"
| returns: "Using p s \<in># phases w \<Longrightarrow> backend_step w (into {#Using p s#} {#} (w\<lparr>be := release_call (be w)\<rparr>))"
| breaks: "Using p s \<in># phases w \<Longrightarrow>
    backend_step w (into {#Using p s#} {#Evicting s#} (w\<lparr>be := evict_session p s (be w)\<rparr>))"
| evicts: "Evicting s \<in># phases w \<Longrightarrow>
    backend_step w (into {#Evicting s#} {#} (w\<lparr>be := release_call (be w), alive := alive w - {s}\<rparr>))"
| ends_itself: "backend_step w (w\<lparr>alive := alive w - {s}\<rparr>)"
| constructs: "enter_construction (be w) = (Inr (), b) \<Longrightarrow> backend_step w (into {#} {#Constructing#} (w\<lparr>be := b\<rparr>))"
| constructed: "Constructing \<in># phases w \<Longrightarrow>
    backend_step w (into {#Constructing#} {#} (w\<lparr>be := release_call (be w)\<rparr>))"
| close_begins: "backend_close_begin (be w) = (Close_waits_for_calls, b) \<Longrightarrow>
    backend_step w (into {#} {#Close_drains#} (w\<lparr>be := b\<rparr>))"
| close_takes: "Close_drains \<in># phases w \<Longrightarrow> backend_drained (be w) \<Longrightarrow> take_sessions (be w) = (ss, b) \<Longrightarrow>
    backend_step w (into {#Close_drains#} {#Close_sessions ss#} (w\<lparr>be := b\<rparr>))"
| close_one: "Close_sessions (s # ss) \<in># phases w \<Longrightarrow>
    backend_step w (into {#Close_sessions (s # ss)#} {#Close_sessions ss#} (w\<lparr>alive := alive w - {s}\<rparr>))"
| close_ends: "Close_sessions [] \<in># phases w \<Longrightarrow>
    backend_step w (into {#Close_sessions []#} {#} (w\<lparr>be := backend_close_finish (be w), buffers_closed := True\<rparr>))"

section \<open>Discovery\<close>

text \<open>The loop of \<open>discover\<close> over the plugins: a session each, until one cannot be made.\<close>

fun open_sessions :: "(string \<Rightarrow> unit result) \<Rightarrow> string list \<Rightarrow> Backend_World \<Rightarrow> unit result \<times> Backend_World" where
  "open_sessions starts [] w = (Inr (), w)"
| "open_sessions starts (p # ps) w =
     (case starts p of
        Inl e \<Rightarrow> (Inl e, w)
      | Inr _ \<Rightarrow> open_sessions starts ps (w\<lparr>be := (be w)\<lparr>be_sessions := AList.update p (made w) (be_sessions (be w))\<rparr>,
          alive := insert (made w) (alive w), made := made w + 1\<rparr>))"

text \<open>\<open>close\<close> when no other thread has the backend.\<close>

definition close_alone :: "Backend_World \<Rightarrow> Backend_World" where
  "close_alone w =
     (case backend_close_begin (be w) of
        (Close_waits_for_calls, b) \<Rightarrow>
          (case take_sessions b of (ss, b') \<Rightarrow>
             w\<lparr>be := backend_close_finish b', alive := alive w - set ss, buffers_closed := True\<rparr>)
      | _ \<Rightarrow> w)"

fun register_all :: "PluginMetadata list \<Rightarrow> (Registry, unit) st" where
  "register_all [] = sret ()"
| "register_all (m # ms) = sbind (register m) (\<lambda>_. register_all ms)"

definition fresh_world :: Backend_World where
  "fresh_world = \<lparr>be = new_backend, phases = {#}, alive = {}, made = 0, buffers_closed = False\<rparr>"

definition discover :: "(string \<Rightarrow> unit result) \<Rightarrow> PluginMetadata list \<Rightarrow> Registry result \<times> Backend_World" where
  "discover starts ms =
     (case register_all ms new_registry of
        (Inl e, r) \<Rightarrow> (Inl e, close_alone fresh_world)
      | (Inr _, r) \<Rightarrow>
          (case open_sessions starts (map pm_name ms) fresh_world of
             (Inl e, w) \<Rightarrow> (Inl e, close_alone w)
           | (Inr _, w) \<Rightarrow> (Inr r, w)))"

text \<open>The backends discovery hands out, and what becomes of them.\<close>

inductive backend_reachable :: "Backend_World \<Rightarrow> bool" where
  discovered: "discover starts ms = (Inr r, w) \<Longrightarrow> backend_reachable w"
| goes_on: "backend_reachable w \<Longrightarrow> backend_step w w' \<Longrightarrow> backend_reachable w'"

section \<open>Dispatch\<close>

datatype route = To_plugin string string | Through_vjp string OperationMetadata OperationMetadata

definition invoke_route ::
  "Registry \<Rightarrow> bool \<Rightarrow> string \<Rightarrow> py_arg list \<Rightarrow> py_out option \<Rightarrow> route result" where
  "invoke_route r grad_enabled name args out =
     (case plugin_for_operation r name of
        Inl e \<Rightarrow> Inl (ValueError ''Unknown operation'')
      | Inr p \<Rightarrow>
     ebind (operation r name) (\<lambda>m.
     if internal m then Inl (ValueError ''Operation is internal to its plugin'')
     else if grad_enabled \<and> list_ex at_requires_grad (tensors_of args)
     then (if out \<noteq> None then Inl (RuntimeError ''Isolated out does not support autograd inputs'')
           else case vjp m of
             None \<Rightarrow> Inl (RuntimeError ''Isolated operation does not advertise a VJP'')
           | Some v \<Rightarrow> ebind (operation_by_id r p (vjp_operation_id v)) (\<lambda>o'. Inr (Through_vjp p m o')))
     else Inr (To_plugin p (om_name m))))"

end
