(* ===== verification/Backend_Laws.thy ===== *)
theory Backend_Laws
  imports Isolated_Backend
begin

text \<open>
  The invariant of the isolated backend over all interleavings of its threads, what holds once it
  is closed, and that closing can always finish.
\<close>

section \<open>What a phase stands for\<close>

fun busy :: "phase \<Rightarrow> bool" where
  "busy (Using p s) \<longleftrightarrow> True"
| "busy (Evicting s) \<longleftrightarrow> True"
| "busy Constructing \<longleftrightarrow> True"
| "busy _ \<longleftrightarrow> False"

fun making :: "phase \<Rightarrow> string option" where
  "making (Creating p) = Some p"
| "making (Created p s) = Some p"
| "making (Discarding p s) = Some p"
| "making _ = None"

fun owned :: "phase \<Rightarrow> nat set" where
  "owned (Created p s) = {s}"
| "owned (Discarding p s) = {s}"
| "owned (Evicting s) = {s}"
| "owned (Close_sessions ss) = set ss"
| "owned _ = {}"

fun closing :: "phase \<Rightarrow> bool" where
  "closing Close_drains \<longleftrightarrow> True"
| "closing (Close_sessions ss) \<longleftrightarrow> True"
| "closing _ \<longleftrightarrow> False"

definition number_of :: "(phase \<Rightarrow> bool) \<Rightarrow> phase multiset \<Rightarrow> int" where
  "number_of P M = int (size (filter_mset P M))"

lemma number_of_simps [simp]:
  "number_of P {#} = 0" "number_of P (add_mset x M) = (if P x then 1 else 0) + number_of P M"
  by (simp_all add: number_of_def)

lemma number_of_nonneg: "0 \<le> number_of P M"
  by (simp add: number_of_def)

lemma into_simps [simp]:
  "be (into o' n w) = be w" "alive (into o' n w) = alive w" "made (into o' n w) = made w"
  "buffers_closed (into o' n w) = buffers_closed w"
  by (simp_all add: into_def)

section \<open>The invariant\<close>

definition creating_ok :: "string set \<Rightarrow> phase multiset \<Rightarrow> bool" where
  "creating_ok C M \<longleftrightarrow> (\<forall>p. number_of (\<lambda>ph. making ph = Some p) M = (if p \<in> C then 1 else 0))"

definition closing_ok :: "backend_state \<Rightarrow> phase multiset \<Rightarrow> bool" where
  "closing_ok st M \<longleftrightarrow> number_of closing M = (if st = Backend_closing then 1 else 0)"

definition counts_inv :: "Backend \<Rightarrow> phase multiset \<Rightarrow> bool" where
  "counts_inv b M \<longleftrightarrow> be_inflight b = number_of busy M \<and> creating_ok (be_creating b) M \<and> closing_ok (be_state b) M"

lemma creating_ok_simps [simp]:
  "making x = None \<Longrightarrow> creating_ok C (add_mset x M) \<longleftrightarrow> creating_ok C M"
  "making x = Some p \<Longrightarrow> creating_ok C (add_mset x M) \<longleftrightarrow> p \<in> C \<and> creating_ok (C - {p}) M"
proof -
  show "creating_ok C (add_mset x M) \<longleftrightarrow> creating_ok C M" if "making x = None"
    using that by (simp add: creating_ok_def)
  assume x: "making x = Some p"
  have "((if q = p then 1 else 0) + number_of (\<lambda>ph. making ph = Some q) M = (if q \<in> C then 1 else 0)) \<longleftrightarrow>
      (q = p \<longrightarrow> p \<in> C) \<and> number_of (\<lambda>ph. making ph = Some q) M = (if q \<in> C - {p} then 1 else 0)" for q
    using number_of_nonneg[of "\<lambda>ph. making ph = Some q" M] by (cases "q \<in> C"; cases "q = p"; force)
  then have "(\<forall>q. (if q = p then 1 else 0) + number_of (\<lambda>ph. making ph = Some q) M = (if q \<in> C then 1 else 0)) \<longleftrightarrow>
      p \<in> C \<and> (\<forall>q. number_of (\<lambda>ph. making ph = Some q) M = (if q \<in> C - {p} then 1 else 0))" by metis
  with x show "creating_ok C (add_mset x M) \<longleftrightarrow> p \<in> C \<and> creating_ok (C - {p}) M"
    unfolding creating_ok_def by (simp add: eq_commute[of p])
qed

lemma closing_ok_simps [simp]:
  "\<not> closing x \<Longrightarrow> closing_ok st (add_mset x M) \<longleftrightarrow> closing_ok st M"
  "closing x \<Longrightarrow> closing_ok st (add_mset x M) \<longleftrightarrow> st = Backend_closing \<and> number_of closing M = 0"
  using number_of_nonneg[of closing M] by (auto simp: closing_ok_def)

lemma closing_ok_not: "st \<noteq> Backend_closing \<Longrightarrow> closing_ok st M \<longleftrightarrow> number_of closing M = 0"
  by (simp add: closing_ok_def)

lemmas backend_sections = acquire_session_def creation_over_def publish_session_def release_call_def evict_session_def
  enter_construction_def backend_close_begin_def take_sessions_def backend_close_finish_def

lemma acquire_cases:
  "acquire_session p b = (Acquired s, b') \<longleftrightarrow>
     be_state b = Backend_open \<and> map_of (be_sessions b) p = Some s \<and> b' = b\<lparr>be_inflight := be_inflight b + 1\<rparr>"
  "acquire_session p b = (Must_create, b') \<longleftrightarrow> be_state b = Backend_open \<and> map_of (be_sessions b) p = None \<and>
     p \<notin> be_creating b \<and> b' = b\<lparr>be_creating := insert p (be_creating b)\<rparr>"
  "enter_construction b = (Inr (), b') \<longleftrightarrow> be_state b = Backend_open \<and> b' = b\<lparr>be_inflight := be_inflight b + 1\<rparr>"
  "backend_close_begin b = (Close_waits_for_calls, b') \<longleftrightarrow> be_state b = Backend_open \<and> b' = b\<lparr>be_state := Backend_closing\<rparr>"
  "publish_session p s b = (True, b') \<longleftrightarrow> be_state b = Backend_open \<and>
     b' = b\<lparr>be_sessions := AList.update p s (be_sessions b), be_creating := be_creating b - {p}, be_inflight := be_inflight b + 1\<rparr>"
  "publish_session p s b = (False, b') \<longleftrightarrow> be_state b \<noteq> Backend_open \<and> b' = b"
  by (auto simp: acquire_session_def enter_construction_def st_run backend_close_begin_def publish_session_def
      split: option.splits backend_state.splits if_splits)

lemma counts_starts:
  assumes "counts_inv b M"
  shows "acquire_session p b = (Acquired s, b') \<Longrightarrow> counts_inv b' (add_mset (Using q s) M)"
    "acquire_session p b = (Must_create, b') \<Longrightarrow> counts_inv b' (add_mset (Creating p) M)"
    "enter_construction b = (Inr (), b') \<Longrightarrow> counts_inv b' (add_mset Constructing M)"
    "backend_close_begin b = (Close_waits_for_calls, b') \<Longrightarrow> counts_inv b' (add_mset Close_drains M)"
  using assms by (auto simp: acquire_cases counts_inv_def closing_ok_not)

lemma counts_ends:
  shows "counts_inv b (add_mset (Creating p) M) \<Longrightarrow> counts_inv (creation_over p b) M"
    "counts_inv b (add_mset (Discarding p s) M) \<Longrightarrow> counts_inv (creation_over p b) M"
    "counts_inv b (add_mset (Using p s) M) \<Longrightarrow> counts_inv (release_call b) M"
    "counts_inv b (add_mset (Evicting s) M) \<Longrightarrow> counts_inv (release_call b) M"
    "counts_inv b (add_mset Constructing M) \<Longrightarrow> counts_inv (release_call b) M"
    "counts_inv b (add_mset (Close_sessions []) M) \<Longrightarrow> counts_inv (backend_close_finish b) M"
  by (simp_all add: counts_inv_def backend_sections closing_ok_not)

lemma counts_becomes:
  shows "counts_inv b (add_mset (Creating p) M) \<Longrightarrow> counts_inv b (add_mset (Created p s) M)"
    "counts_inv b (add_mset (Created p s) M) \<Longrightarrow> publish_session p s b = (True, b') \<Longrightarrow> counts_inv b' (add_mset (Using p s) M)"
    "counts_inv b (add_mset (Created p s) M) \<Longrightarrow> publish_session p s b = (False, b') \<Longrightarrow> counts_inv b' (add_mset (Discarding p s) M)"
    "counts_inv b (add_mset (Using p s) M) \<Longrightarrow> counts_inv (evict_session p s b) (add_mset (Evicting s) M)"
    "counts_inv b (add_mset Close_drains M) \<Longrightarrow> take_sessions b = (ss, b') \<Longrightarrow> counts_inv b' (add_mset (Close_sessions ss) M)"
    "counts_inv b (add_mset (Close_sessions ss) M) \<Longrightarrow> counts_inv b (add_mset (Close_sessions ss') M)"
  by (auto simp: counts_inv_def acquire_cases evict_session_def take_sessions_def)

lemma counts_step: "backend_step w w' \<Longrightarrow> counts_inv (be w) (phases w) \<Longrightarrow> counts_inv (be w') (phases w')"
proof (induction rule: backend_step.induct)
  case (publishes p s w b)
  then show ?case using counts_becomes(2) by (auto simp: into_def dest!: multi_member_split)
next
  case (too_late p s w b)
  then show ?case using counts_becomes(3) by (auto simp: into_def dest!: multi_member_split)
next
  case (finds p w s b)
  then show ?case using counts_starts(1) by (simp add: into_def)
next
  case (creates p w b)
  then show ?case using counts_starts(2) by (simp add: into_def)
next
  case (constructs w b)
  then show ?case using counts_starts(3) by (simp add: into_def)
next
  case (close_begins w b)
  then show ?case using counts_starts(4) by (simp add: into_def)
next
  case (close_takes w ss b)
  then show ?case using counts_becomes(5) by (auto simp: into_def dest!: multi_member_split)
qed (auto simp: into_def counts_ends counts_becomes dest!: multi_member_split)

text \<open>The table of sessions, and what holds once the closer has taken it.\<close>

definition taken_over :: "Backend \<Rightarrow> phase multiset \<Rightarrow> bool" where
  "taken_over b M \<longleftrightarrow> be_state b = Backend_closed \<or> (\<exists>ss. Close_sessions ss \<in># M)"

definition table_inv :: "Backend \<Rightarrow> phase multiset \<Rightarrow> bool" where
  "table_inv b M \<longleftrightarrow> distinct (map fst (be_sessions b)) \<and>
     (\<forall>p \<in> be_creating b. map_of (be_sessions b) p = None) \<and>
     (taken_over b M \<longrightarrow> be_state b \<noteq> Backend_open \<and> backend_drained b \<and> be_sessions b = [])"

lemma number_of_member: "x \<in># M \<Longrightarrow> P x \<Longrightarrow> 0 < number_of P M"
  by (auto simp: number_of_def dest!: multi_member_split)

lemma drained_quiet:
  assumes "counts_inv b M" "backend_drained b" "x \<in># M"
  shows "\<not> busy x" "making x = None"
proof -
  show "\<not> busy x" using assms number_of_member[OF assms(3), of busy] by (auto simp: counts_inv_def backend_drained_def)
  have "\<not> 0 < number_of (\<lambda>ph. making ph = Some p) M" for p
    using assms by (simp add: counts_inv_def backend_drained_def creating_ok_def)
  with number_of_member[OF assms(3)] show "making x = None" by (metis (mono_tags, lifting) not_None_eq)
qed

lemma taken_over_add [simp]: "taken_over b (add_mset x M) \<longleftrightarrow> taken_over b M \<or> (\<exists>ss. x = Close_sessions ss)"
  by (auto simp: taken_over_def)

lemma taken_over_state [simp]:
  "taken_over (b\<lparr>be_inflight := i\<rparr>) M = taken_over b M" "taken_over (b\<lparr>be_creating := c\<rparr>) M = taken_over b M"
  "taken_over (b\<lparr>be_sessions := ss\<rparr>) M = taken_over b M"
  by (simp_all add: taken_over_def)

lemma table_step:
  assumes "backend_step w w'" "counts_inv (be w) (phases w)" "table_inv (be w) (phases w)"
  shows "table_inv (be w') (phases w')"
  using assms
proof (induction rule: backend_step.induct)
  case (finds p w s b)
  then show ?case by (auto simp: table_inv_def backend_sections into_def split: if_splits option.splits)
next
  case (creates p w b)
  then show ?case by (auto simp: table_inv_def backend_sections into_def split: if_splits option.splits)
next
  case (constructs w b)
  then show ?case by (auto simp: table_inv_def backend_sections st_run into_def split: if_splits)
next
  case (close_begins w b)
  then show ?case by (auto simp: table_inv_def backend_sections into_def taken_over_def split: backend_state.splits)
next
  case (create_fails p w)
  then show ?case using drained_quiet(2)[OF create_fails(2) _ create_fails(1)]
    by (auto simp: table_inv_def backend_sections into_def dest!: multi_member_split)
next
  case (create_works p w)
  then show ?case by (auto simp: table_inv_def into_def dest!: multi_member_split)
next
  case (publishes p s w b)
  then show ?case using drained_quiet(2)[OF publishes(3) _ publishes(1)]
    by (auto simp: table_inv_def backend_sections into_def distinct_update update_conv' dest!: multi_member_split split: if_splits)
next
  case (too_late p s w b)
  then show ?case by (auto simp: table_inv_def backend_sections into_def dest!: multi_member_split split: if_splits)
next
  case (discards p s w)
  then show ?case using drained_quiet(2)[OF discards(2) _ discards(1)]
    by (auto simp: table_inv_def backend_sections into_def dest!: multi_member_split)
next
  case (returns p s w)
  then show ?case using drained_quiet(1)[OF returns(2) _ returns(1)]
    by (auto simp: table_inv_def backend_sections into_def dest!: multi_member_split)
next
  case (breaks p s w)
  then show ?case using drained_quiet(1)[OF breaks(2) _ breaks(1)]
    by (auto simp: table_inv_def backend_sections into_def distinct_delete delete_conv' dest!: multi_member_split)
next
  case (evicts s w)
  then show ?case using drained_quiet(1)[OF evicts(2) _ evicts(1)]
    by (auto simp: table_inv_def backend_sections into_def dest!: multi_member_split)
next
  case (constructed w)
  then show ?case using drained_quiet(1)[OF constructed(2) _ constructed(1)]
    by (auto simp: table_inv_def backend_sections into_def dest!: multi_member_split)
next
  case (close_takes w ss b)
  then have "number_of closing (phases w) > 0" using number_of_member[of Close_drains "phases w" closing] by simp
  then have "be_state (be w) = Backend_closing" using close_takes(4) by (auto simp: counts_inv_def closing_ok_def split: if_splits)
  with close_takes show ?case by (auto simp: table_inv_def backend_sections into_def backend_drained_def dest!: multi_member_split)
next
  case (close_one s ss w)
  then show ?case by (auto simp: table_inv_def into_def dest!: multi_member_split)
next
  case (close_ends w)
  then show ?case by (auto simp: table_inv_def backend_sections into_def backend_drained_def dest!: multi_member_split)
next
  case (ends_itself w s)
  then show ?case by simp
qed

text \<open>Every live session is in the table, or in the hands of one thread.\<close>

definition in_hands :: "nat \<Rightarrow> phase multiset \<Rightarrow> bool" where
  "in_hands s M \<longleftrightarrow> (\<exists>ph. ph \<in># M \<and> s \<in> owned ph)"

lemma in_hands_simps [simp]: "\<not> in_hands s {#}" "in_hands s (add_mset x M) \<longleftrightarrow> s \<in> owned x \<or> in_hands s M"
  by (auto simp: in_hands_def)

definition owned_inv :: "Backend_World \<Rightarrow> bool" where
  "owned_inv w \<longleftrightarrow> (\<forall>s. s \<in> alive w \<longrightarrow> s \<in> snd ` set (be_sessions (be w)) \<or> in_hands s (phases w)) \<and>
     (be_state (be w) = Backend_closed \<longrightarrow> buffers_closed w)"

lemma update_other: "map_of xs p = None \<Longrightarrow> snd ` set (AList.update p s xs) = insert s (snd ` set xs)"
  by (induction xs) (auto split: if_splits)

lemma delete_other: "map_of xs p = Some s \<Longrightarrow> distinct (map fst xs) \<Longrightarrow> snd ` set xs \<subseteq> insert s (snd ` set (AList.delete p xs))"
  by (induction xs) (auto split: if_splits)

lemma owned_step:
  assumes "backend_step w w'" "counts_inv (be w) (phases w)" "table_inv (be w) (phases w)" "owned_inv w"
  shows "owned_inv w'"
  using assms
proof (induction rule: backend_step.induct)
  case (publishes p s w b)
  from publishes(2) have "map_of (be_sessions (be w)) p = None" if "p \<in> be_creating (be w)" for p
    using publishes(4) that by (simp add: table_inv_def)
  moreover obtain M where M: "phases w = add_mset (Created p s) M" using publishes(1) by (auto dest: multi_member_split)
  then have "p \<in> be_creating (be w)" using publishes(3) by (simp add: counts_inv_def)
  ultimately have "snd ` set (AList.update p s (be_sessions (be w))) = insert s (snd ` set (be_sessions (be w)))"
    by (simp add: update_other)
  with publishes M show ?case by (auto simp: owned_inv_def acquire_cases into_def)
next
  case (breaks p s w)
  obtain M where M: "phases w = add_mset (Using p s) M" using breaks(1) by (auto dest: multi_member_split)
  let ?b = "evict_session p s (be w)"
  have "distinct (map fst (be_sessions (be w)))" using breaks(3) by (simp add: table_inv_def)
  then have sub: "snd ` set (be_sessions (be w)) \<subseteq> insert s (snd ` set (be_sessions ?b))"
    using delete_other[of "be_sessions (be w)" p s] by (cases "map_of (be_sessions (be w)) p = Some s") (auto simp: evict_session_def)
  have st: "be_state ?b = be_state (be w)" by (simp add: evict_session_def)
  from breaks(4) have o: "\<forall>x \<in> alive w. x \<in> snd ` set (be_sessions (be w)) \<or> in_hands x M"
    by (auto simp: owned_inv_def M)
  have "x \<in> snd ` set (be_sessions ?b) \<or> in_hands x (add_mset (Evicting s) M)" if "x \<in> alive w" for x
    using o sub that by auto
  with breaks(4) M st show ?case unfolding owned_inv_def by (simp add: into_def)
next
  case (finds p w s b)
  then show ?case by (auto simp: owned_inv_def into_def acquire_cases)
next
  case (creates p w b)
  then show ?case by (auto simp: owned_inv_def into_def acquire_cases)
next
  case (constructs w b)
  then show ?case by (auto simp: owned_inv_def into_def acquire_cases)
next
  case (close_begins w b)
  then show ?case by (auto simp: owned_inv_def into_def acquire_cases)
next
  case (ends_itself w s)
  then show ?case by (auto simp: owned_inv_def into_def )
next
  case (create_fails p w)
  then show ?case by (auto simp: owned_inv_def into_def creation_over_def dest!: multi_member_split)
next
  case (discards p s w)
  then show ?case by (auto simp: owned_inv_def into_def creation_over_def dest!: multi_member_split)
next
  case (create_works p w)
  then show ?case by (auto simp: owned_inv_def into_def  dest!: multi_member_split)
next
  case (too_late p s w b)
  then show ?case by (auto simp: owned_inv_def into_def acquire_cases dest!: multi_member_split)
next
  case (returns p s w)
  then show ?case by (auto simp: owned_inv_def into_def release_call_def dest!: multi_member_split)
next
  case (evicts s w)
  then show ?case by (auto simp: owned_inv_def into_def release_call_def dest!: multi_member_split)
next
  case (constructed w)
  then show ?case by (auto simp: owned_inv_def into_def release_call_def dest!: multi_member_split)
next
  case (close_takes w ss b)
  then show ?case by (auto simp: owned_inv_def into_def take_sessions_def dest!: multi_member_split)
next
  case (close_one s ss w)
  then show ?case by (auto simp: owned_inv_def into_def  dest!: multi_member_split)
next
  case (close_ends w)
  then show ?case by (auto simp: owned_inv_def into_def backend_close_finish_def dest!: multi_member_split)
qed

section \<open>Discovery\<close>

lemma register_all_distinct:
  assumes "register_all ms r = (Inr (), r')"
  shows "distinct (map pm_name ms) \<and> (\<forall>m \<in> set ms. map_of (plugins r) (pm_name m) = None) \<and>
    (\<forall>n. map_of (plugins r') n = (if n \<in> pm_name ` set ms then map_of (map (\<lambda>m. (pm_name m, m)) ms) n else map_of (plugins r) n))"
  using assms
proof (induction ms arbitrary: r)
  case Nil
  then show ?case by (simp add: st_run)
next
  case (Cons m ms)
  from Cons.prems obtain r1 where 1: "register m r = (Inr (), r1)" "register_all ms r1 = (Inr (), r')"
    by (auto simp: st_inv)
  note A = register_Inr[OF 1(1)] and B = Cons.IH[OF 1(2)]
  from A B have n: "pm_name m \<notin> pm_name ` set ms" by auto
  then have "pm_name m' \<noteq> pm_name m" if "m' \<in> set ms" for m' using that by (metis imageI)
  with A(1,2) B n show ?case by auto
qed

lemma open_sessions_run:
  assumes "open_sessions starts ps w = (r, w')" "be_state (be w) = Backend_open" "phases w = {#}"
    "distinct ps" "\<forall>p \<in> set ps. map_of (be_sessions (be w)) p = None" "distinct (map fst (be_sessions (be w)))"
    "alive w \<subseteq> snd ` set (be_sessions (be w))"
  shows "be_state (be w') = Backend_open \<and> phases w' = {#} \<and> be_creating (be w') = be_creating (be w) \<and>
    be_inflight (be w') = be_inflight (be w) \<and> distinct (map fst (be_sessions (be w'))) \<and>
    alive w' \<subseteq> snd ` set (be_sessions (be w')) \<and>
    (r = Inr () \<longrightarrow> fst ` set (be_sessions (be w')) = fst ` set (be_sessions (be w)) \<union> set ps)"
  using assms
proof (induction ps arbitrary: w)
  case Nil
  then show ?case by simp
next
  case (Cons p ps)
  show ?case
  proof (cases "starts p")
    case (Inl e)
    with Cons.prems show ?thesis by auto
  next
    case (Inr u)
    let ?w = "w\<lparr>be := (be w)\<lparr>be_sessions := AList.update p (made w) (be_sessions (be w))\<rparr>,
          alive := insert (made w) (alive w), made := made w + 1\<rparr>"
    from Cons.prems Inr have run: "open_sessions starts ps ?w = (r, w')" by simp
    have "\<forall>q \<in> set ps. map_of (be_sessions (be ?w)) q = None" using Cons.prems(4,5) by (auto simp: update_conv')
    moreover have "alive ?w \<subseteq> snd ` set (be_sessions (be ?w))"
      using Cons.prems(5,7) by (simp add: update_other) blast
    ultimately show ?thesis
      using Cons.IH[OF run] Cons.prems(2,3,4,6) by (simp add: distinct_update dom_update)
  qed
qed

definition backend_inv :: "Backend_World \<Rightarrow> bool" where
  "backend_inv w \<longleftrightarrow> counts_inv (be w) (phases w) \<and> table_inv (be w) (phases w) \<and> owned_inv w"

lemma discover_inv:
  assumes "discover starts ms = (Inr r, w)"
  shows "backend_inv w \<and> fst ` set (be_sessions (be w)) = pm_name ` set ms \<and> be_state (be w) = Backend_open"
proof -
  from assms obtain r1 where r: "register_all ms new_registry = (Inr (), r1)"
    and o: "open_sessions starts (map pm_name ms) fresh_world = (Inr (), w)"
    by (auto simp: discover_def split: prod.splits sum.splits)
  from open_sessions_run[OF o] register_all_distinct[OF r] show ?thesis
    by (auto simp: backend_inv_def counts_inv_def table_inv_def owned_inv_def creating_ok_def closing_ok_def
        taken_over_def fresh_world_def new_backend_def)
qed

text \<open>When discovery fails, every session it had opened has been closed.\<close>

lemma close_alone_alive:
  assumes "be_state (be w) = Backend_open" "alive w \<subseteq> snd ` set (be_sessions (be w))"
  shows "alive (close_alone w) = {} \<and> be_state (be (close_alone w)) = Backend_closed \<and> buffers_closed (close_alone w)"
  using assms by (auto simp: close_alone_def backend_sections)

lemma discover_fails:
  assumes "discover starts ms = (Inl e, w)"
  shows "alive w = {} \<and> be_state (be w) = Backend_closed \<and> buffers_closed w"
proof (cases "register_all ms new_registry")
  case (Pair q r1)
  show ?thesis
  proof (cases q)
    case (Inl e')
    with assms Pair have "w = close_alone fresh_world" by (simp add: discover_def)
    then show ?thesis using close_alone_alive[of fresh_world] by (simp add: fresh_world_def new_backend_def)
  next
    case (Inr u)
    obtain q2 w2 where o: "open_sessions starts (map pm_name ms) fresh_world = (q2, w2)" by (metis surj_pair)
    with assms Pair Inr have w: "w = close_alone w2" by (auto simp: discover_def split: sum.splits)
    have "register_all ms new_registry = (Inr (), r1)" using Pair Inr by simp
    from open_sessions_run[OF o] register_all_distinct[OF this] w close_alone_alive[of w2] show ?thesis
      by (simp add: fresh_world_def new_backend_def)
  qed
qed

lemma backend_reachable_inv: "backend_reachable w \<Longrightarrow> backend_inv w"
proof (induction rule: backend_reachable.induct)
  case (discovered starts ms r w)
  then show ?case using discover_inv by blast
next
  case (goes_on w w')
  then show ?case using counts_step table_step owned_step unfolding backend_inv_def by blast
qed

section \<open>A closed backend\<close>

lemma phase_kinds: "busy ph \<or> making ph \<noteq> None \<or> closing ph"
  by (cases ph) simp_all

lemma closed_backend:
  assumes "backend_inv w" "be_state (be w) = Backend_closed"
  shows "phases w = {#}" "alive w = {}" "buffers_closed w" "be_inflight (be w) = 0" "be_creating (be w) = {}"
proof -
  from assms have t: "backend_drained (be w)" "be_sessions (be w) = []"
    by (auto simp: backend_inv_def table_inv_def taken_over_def)
  have "ph \<notin># phases w" for ph
  proof
    assume ph: "ph \<in># phases w"
    have c: "counts_inv (be w) (phases w)" using assms by (simp add: backend_inv_def)
    have "\<not> closing ph" using c assms(2) number_of_member[OF ph, of closing] by (auto simp: counts_inv_def closing_ok_def)
    with phase_kinds[of ph] drained_quiet[OF c t(1) ph] show False by simp
  qed
  then show p: "phases w = {#}" by (simp add: multiset_eqI count_eq_zero_iff)
  with t assms show "alive w = {}" "buffers_closed w" "be_inflight (be w) = 0" "be_creating (be w) = {}"
    by (auto simp: backend_inv_def owned_inv_def backend_drained_def)
qed

section \<open>Closing can finish\<close>

fun weight :: "phase \<Rightarrow> nat" where
  "weight (Creating p) = 3"
| "weight (Created p s) = 2"
| "weight (Discarding p s) = 1"
| "weight (Using p s) = 2"
| "weight (Evicting s) = 1"
| "weight Constructing = 1"
| "weight Close_drains = 2"
| "weight (Close_sessions ss) = 1 + length ss"

definition rank :: "Backend_World \<Rightarrow> nat" where
  "rank w = sum_mset (image_mset weight (phases w)) + length (be_sessions (be w))"

inductive backend_steps :: "nat \<Rightarrow> Backend_World \<Rightarrow> Backend_World \<Rightarrow> bool" where
  none: "backend_steps 0 w w"
| one_more: "backend_step w w' \<Longrightarrow> backend_steps n w' w'' \<Longrightarrow> backend_steps (Suc n) w w''"

lemma rank_into: "x \<in># phases w \<Longrightarrow> phases w' = phases w \<Longrightarrow>
    rank (into {#x#} {#y#} w') + weight x = sum_mset (image_mset weight (phases w)) + weight y + length (be_sessions (be w'))"
  "x \<in># phases w \<Longrightarrow> phases w' = phases w \<Longrightarrow>
    rank (into {#x#} {#} w') + weight x = sum_mset (image_mset weight (phases w)) + length (be_sessions (be w'))"
  by (auto simp: rank_def into_def dest!: multi_member_split)

text \<open>While a close is under way some thread can go on, and it brings the close nearer.\<close>

lemma number_of_exists: "0 < number_of P M \<Longrightarrow> \<exists>x. x \<in># M \<and> P x"
proof (rule ccontr)
  assume "0 < number_of P M" "\<nexists>x. x \<in># M \<and> P x"
  moreover from this(2) have "filter_mset P M = {#}" by (auto simp: filter_mset_eq_conv)
  ultimately show False by (simp add: number_of_def)
qed

lemma closing_progress:
  assumes "backend_inv w" "be_state (be w) = Backend_closing"
  shows "\<exists>w'. backend_step w w' \<and> rank w' < rank w \<and> be_state (be w') \<noteq> Backend_open"
proof -
  have c: "counts_inv (be w) (phases w)" using assms(1) by (simp add: backend_inv_def)
  then have "0 < number_of closing (phases w)" using assms(2) by (simp add: counts_inv_def closing_ok_def)
  then obtain x where x: "x \<in># phases w" "closing x" using number_of_exists by blast
  have go: "\<exists>w'. backend_step w w' \<and> rank w' < rank w \<and> be_state (be w') \<noteq> Backend_open"
    if "backend_step w (into {#y#} {#z#} v)" "y \<in># phases w" "phases v = phases w" "weight z < weight y"
       "be_sessions (be v) = be_sessions (be w)" "be_state (be v) \<noteq> Backend_open" for y z v
    using that rank_into(1)[of y w v z] by (intro exI[of _ "into {#y#} {#z#} v"]) (simp add: rank_def)
  have stop: "\<exists>w'. backend_step w w' \<and> rank w' < rank w \<and> be_state (be w') \<noteq> Backend_open"
    if "backend_step w (into {#y#} {#} v)" "y \<in># phases w" "phases v = phases w" "0 < weight y"
       "be_sessions (be v) = be_sessions (be w)" "be_state (be v) \<noteq> Backend_open" for y v
    using that rank_into(2)[of y w v] by (intro exI[of _ "into {#y#} {#} v"]) (simp add: rank_def)
  show ?thesis
  proof (cases x)
    case (Close_sessions ss)
    show ?thesis
    proof (cases ss)
      case Nil
      with x Close_sessions show ?thesis
        by (intro stop[OF close_ends]) (simp_all add: backend_close_finish_def)
    next
      case (Cons s rest)
      with x Close_sessions assms(2) show ?thesis by (intro go[OF close_one]) simp_all
    qed
  next
    case Close_drains
    show ?thesis
    proof (cases "backend_drained (be w)")
      case True
      obtain ss b where t: "take_sessions (be w) = (ss, b)" by (metis surj_pair)
      let ?w = "into {#Close_drains#} {#Close_sessions ss#} (w\<lparr>be := b\<rparr>)"
      have "backend_step w ?w" using close_takes x Close_drains True t by blast
      moreover have "rank ?w < rank w" "be_state (be ?w) = Backend_closing"
        using rank_into(1)[of Close_drains w "w\<lparr>be := b\<rparr>" "Close_sessions ss"] x Close_drains t assms(2)
        by (auto simp: take_sessions_def rank_def)
      ultimately show ?thesis by auto
    next
      case False
      show ?thesis
      proof (cases "be_creating (be w) = {}")
        case True
        with False c number_of_nonneg[of busy "phases w"] have "0 < number_of busy (phases w)"
          by (simp add: counts_inv_def backend_drained_def)
        then obtain y where y: "y \<in># phases w" "busy y" using number_of_exists by blast
        show ?thesis
        proof (cases y)
          case (Using p s)
          with y assms(2) show ?thesis by (intro stop[OF returns]) (simp_all add: release_call_def)
        next
          case (Evicting s)
          with y assms(2) show ?thesis by (intro stop[OF evicts]) (simp_all add: release_call_def)
        next
          case Constructing
          with y assms(2) show ?thesis by (intro stop[OF constructed]) (simp_all add: release_call_def)
        qed (use y in simp_all)
      next
        case False
        then obtain p where "p \<in> be_creating (be w)" by blast
        then have "0 < number_of (\<lambda>ph. making ph = Some p) (phases w)" using c by (simp add: counts_inv_def creating_ok_def)
        then obtain y where y: "y \<in># phases w" "making y = Some p" using number_of_exists by blast
        show ?thesis
        proof (cases y)
          case (Creating q)
          with y assms(2) show ?thesis by (intro stop[OF create_fails]) (simp_all add: creation_over_def)
        next
          case (Created q s)
          with y assms(2) show ?thesis
            by (intro go[OF too_late[of q s w "be w"]]) (simp_all add: publish_session_def)
        next
          case (Discarding q s)
          with y assms(2) show ?thesis by (intro stop[OF discards]) (simp_all add: creation_over_def)
        qed (use y in simp_all)
      qed
    qed
  qed (use x in simp_all)
qed

text \<open>Once no new call is let in every step of a thread brings the close nearer.\<close>

lemma rank_steps:
  "phases w = add_mset x M \<Longrightarrow> phases w' = add_mset y M \<Longrightarrow> weight y + length (be_sessions (be w')) < weight x + length (be_sessions (be w))
     \<Longrightarrow> rank w' < rank w"
  "phases w = add_mset x M \<Longrightarrow> phases w' = M \<Longrightarrow> length (be_sessions (be w')) < weight x + length (be_sessions (be w))
     \<Longrightarrow> rank w' < rank w"
  by (simp_all add: rank_def)

lemma evict_shorter: "length (be_sessions (evict_session p s b)) \<le> length (be_sessions b)"
  by (simp add: evict_session_def length_delete_le)

lemma closing_decreases:
  assumes "backend_step w w'" "be_state (be w) \<noteq> Backend_open"
  shows "rank w' < rank w \<or> be w' = be w \<and> phases w' = phases w"
  using assms
proof (induction rule: backend_step.induct)
  case (breaks p s w)
  then obtain M where "phases w = add_mset (Using p s) M" by (auto dest: multi_member_split)
  with evict_shorter[of p s "be w"] show ?case by (intro disjI1 rank_steps(1)[of _ "Using p s" M _ "Evicting s"]) (simp_all add: into_def)
next
  case (close_takes w ss b)
  then obtain M where "phases w = add_mset Close_drains M" by (auto dest: multi_member_split)
  with close_takes show ?case
    by (intro disjI1 rank_steps(1)[of _ Close_drains M _ "Close_sessions ss"]) (auto simp: into_def take_sessions_def)
qed (auto simp: acquire_cases into_def creation_over_def release_call_def backend_close_finish_def rank_def dest!: multi_member_split)

lemma closing_finishes:
  "backend_reachable w \<Longrightarrow> be_state (be w) = Backend_closing \<Longrightarrow>
   \<exists>n w'. n \<le> rank w \<and> backend_steps n w w' \<and> be_state (be w') = Backend_closed"
proof (induction "rank w" arbitrary: w rule: less_induct)
  case less
  from closing_progress[OF backend_reachable_inv[OF less(2)] less(3)] obtain w1 where
    1: "backend_step w w1" "rank w1 < rank w" "be_state (be w1) \<noteq> Backend_open" by blast
  show ?case
  proof (cases "be_state (be w1) = Backend_closing")
    case True
    from less(1)[OF 1(2) goes_on[OF less(2) 1(1)] True] obtain n w' where
      "n \<le> rank w1" "backend_steps n w1 w'" "be_state (be w') = Backend_closed" by blast
    with 1 show ?thesis by (intro exI[of _ "Suc n"] exI[of _ w']) (simp add: one_more)
  next
    case False
    with 1 have "be_state (be w1) = Backend_closed" by (cases "be_state (be w1)") auto
    with 1 show ?thesis by (intro exI[of _ 1] exI[of _ w1]) (simp add: one_more[OF 1(1) none, simplified])
  qed
qed

text \<open>No session of the table is closed by the backend while a thread uses it: the closer has the
  sessions only after every call has ended.\<close>

lemma closer_excludes_users:
  assumes "backend_inv w" "Close_sessions ss \<in># phases w"
  shows "Using p s \<notin># phases w" "Created p s \<notin># phases w"
proof -
  have c: "counts_inv (be w) (phases w)" and d: "backend_drained (be w)"
    using assms by (auto simp: backend_inv_def table_inv_def taken_over_def)
  from drained_quiet[OF c d, of "Using p s"] drained_quiet[OF c d, of "Created p s"]
  show "Using p s \<notin># phases w" "Created p s \<notin># phases w" by auto
qed

end
