(* ===== verification/Worker_Laws.thy ===== *)
theory Worker_Laws
  imports Worker_Invocation
begin

text \<open>
  The lemmas on the worker's ring thread: the scalars it decodes are the ones that were encoded,
  every tensor it takes is the view its descriptor declares, an invocation leaves no mapping that
  was private to it, and the completions answer the commands one by one.
\<close>

section \<open>Scalars\<close>

lemma py_index_nat: "i < length xs \<Longrightarrow> py_index xs (int i) = Inr (xs ! i)"
  by (simp add: py_index_def)

lemma position_nat [simp]: "position xs (int i) = i"
  by (simp add: position_def)

definition scalar_records :: "nat \<Rightarrow> (string \<times> sval) list \<Rightarrow> Scalar list" where
  "scalar_records k kvs = map (\<lambda>(i, t, v). \<lparr>s_parameter = i, s_kind = t, s_value = v\<rparr>)
     (zip (map int [k..<k + length kvs]) kvs)"

lemma scalar_records_Cons:
  "scalar_records k ((t, v) # kvs) = \<lparr>s_parameter = int k, s_kind = t, s_value = v\<rparr> # scalar_records (Suc k) kvs"
  by (simp add: scalar_records_def upt_conv_Cons del: upt_Suc)

lemma decode_loop_records:
  "length dn = k \<Longrightarrow> kinds = ks @ map fst kvs \<Longrightarrow> length ks = k \<Longrightarrow>
   decode_loop kinds (scalar_records k kvs) (map Some dn @ replicate (length kvs) None) = Inr (map Some (dn @ map snd kvs))"
proof (induction kvs arbitrary: dn k ks)
  case Nil
  then show ?case by (simp add: scalar_records_def)
next
  case (Cons kv kvs)
  obtain t v where kv: "kv = (t, v)" by (metis surj_pair)
  have "decode_loop kinds (scalar_records (Suc k) kvs) (map Some (dn @ [v]) @ replicate (length kvs) None)
      = Inr (map Some ((dn @ [v]) @ map snd kvs))"
    using Cons.prems by (intro Cons.IH[of _ _ "ks @ [t]"]) (simp_all add: kv)
  moreover have "py_index (map Some dn @ None # replicate (length kvs) None) (int k) = Inr None"
    "py_index kinds (int k) = Inr t" "(map Some dn @ None # replicate (length kvs) None)[k := Some v]
       = map Some (dn @ [v]) @ replicate (length kvs) None"
    using Cons.prems by (simp_all add: py_index_nat nth_append kv list_update_append)
  ultimately show ?case using Cons.prems by (simp add: scalar_records_Cons kv)
qed

lemma decode_scalar_records: "decode_scalars (scalar_records 0 kvs) (map fst kvs) = Inr (map snd kvs)"
  using decode_loop_records[of "[]" 0 "map fst kvs" "[]" kvs] by (auto simp: decode_scalars_def comp_def)

section \<open>Tensors\<close>

text \<open>What a cached view may change of a buffer is left out.\<close>

definition bare :: "('b, 'v) MappedBuffer \<Rightarrow> ('b, 'v) MappedBuffer" where
  "bare b = b\<lparr>mb_base_tensors := Map.empty, mb_views := []\<rparr>"

definition bare_buffers :: "('b, 'v) Receiver \<Rightarrow> int \<Rightarrow> ('b, 'v) MappedBuffer option" where
  "bare_buffers s = (\<lambda>k. map_option bare (buffers s k))"

text \<open>A tensor taken for a descriptor: the buffer is mapped, the descriptor and the access are
  accepted on it and the tensor is the declared view.\<close>

definition viewed :: "('b, 'v) Host \<Rightarrow> (int \<Rightarrow> ('b, 'v) MappedBuffer option) \<Rightarrow> int \<Rightarrow> TensorDescriptor \<times> bool \<Rightarrow> 'v \<Rightarrow> bool" where
  "viewed host bufs iv = (\<lambda>(d, w) v. \<exists>b. bufs (d_buffer_id d) = Some b \<and> check_access b d iv w = Inr () \<and>
     view_ok host b (view_key_of d) v)"

lemma bare_simps [simp]:
  "bare (b\<lparr>mb_base_tensors := t\<rparr>) = bare b" "bare (b\<lparr>mb_views := vs\<rparr>) = bare b"
  "view_ok host (bare b) k v \<longleftrightarrow> view_ok host b k v" "check_access (bare b) d iv w = check_access b d iv w"
  "expired iv (bare b) \<longleftrightarrow> expired iv b"
  by (simp_all add: bare_def check_access_def expired_def)

lemma bare_buffers_set: "buffers s k = Some b \<Longrightarrow> bare c = bare b \<Longrightarrow> bare_buffers (set_buffer k c s) = bare_buffers s"
  by (auto simp: bare_buffers_def set_buffer_def)

lemma set_buffer_buffers [simp]: "buffers (set_buffer k c s) k = Some c"
  by (simp add: set_buffer_def)

lemma cache_tensor_bare: "cache_tensor host d iv w s = (r, s') \<Longrightarrow> bare_buffers s' = bare_buffers s"
  by (auto simp: cache_tensor_def st_run Let_def bare_buffers_set
      split: option.splits sum.splits prod.splits if_splits)

text \<open>A loop of the cache.\<close>

definition holds_buffers :: "('b, 'v) Host \<Rightarrow> (int \<Rightarrow> ('b, 'v) MappedBuffer option) \<Rightarrow> ('b, 'v) Receiver \<Rightarrow> bool" where
  "holds_buffers host bufs s \<longleftrightarrow> receiver_ok host s \<and> bare_buffers s = bufs"

lemma cache_tensor_holds:
  assumes "holds_buffers host bufs s" "cache_tensor host d iv w s = (r, s')"
  shows "holds_buffers host bufs s' \<and> (\<forall>v. r = Inr v \<longrightarrow> viewed host bufs iv (d, w) v)"
proof (intro conjI allI impI)
  from assms cache_tensor_run[OF _ assms(2)] cache_tensor_bare[OF assms(2)] show "holds_buffers host bufs s'"
    by (simp add: holds_buffers_def)
  fix v assume "r = Inr v"
  with assms cache_tensor_run[OF _ assms(2)] obtain b where
    "buffers s (d_buffer_id d) = Some b" "check_access b d iv w = Inr ()" "view_ok host b (view_key_of d) v"
    by (auto simp: holds_buffers_def)
  then have "bufs (d_buffer_id d) = Some (bare b) \<and> check_access (bare b) d iv w = Inr () \<and>
      view_ok host (bare b) (view_key_of d) v"
    using assms(1) by (auto simp: holds_buffers_def bare_buffers_def)
  then show "viewed host bufs iv (d, w) v" by (auto simp: viewed_def)
qed

lemma smap_holds:
  assumes "\<And>x s r s'. holds_buffers host bufs s \<Longrightarrow> f x s = (r, s') \<Longrightarrow>
      holds_buffers host bufs s' \<and> (\<forall>v. r = Inr v \<longrightarrow> viewed host bufs iv (g x) v)"
    and "holds_buffers host bufs s" "smap f xs s = (r, s')"
  shows "holds_buffers host bufs s' \<and> (\<forall>vs. r = Inr vs \<longrightarrow> list_all2 (viewed host bufs iv) (map g xs) vs)"
  using assms(2,3)
proof (induction xs arbitrary: s r s')
  case Nil
  then show ?case by (auto simp: st_run)
next
  case (Cons x xs)
  obtain r1 s1 where 1: "f x s = (r1, s1)" by (metis surj_pair)
  note A = assms(1)[OF Cons.prems(1) 1]
  show ?case
  proof (cases r1)
    case (Inl e)
    with Cons.prems 1 A show ?thesis by (auto simp: st_run)
  next
    case (Inr v)
    obtain r2 s2 where 2: "smap f xs s1 = (r2, s2)" by (metis surj_pair)
    note B = Cons.IH[OF A[THEN conjunct1] 2]
    with A Inr Cons.prems 1 2 show ?thesis by (cases r2) (auto simp: st_run)
  qed
qed

lemma cache_tensors_holds:
  assumes "holds_buffers host bufs s" "smap (\<lambda>x. cache_tensor host (d x) iv (w x)) xs s = (r, s')"
  shows "holds_buffers host bufs s' \<and>
    (\<forall>vs. r = Inr vs \<longrightarrow> list_all2 (viewed host bufs iv) (map (\<lambda>x. (d x, w x)) xs) vs)"
  by (rule smap_holds[OF _ assms]) (rule cache_tensor_holds)

section \<open>An invocation\<close>

lemma sbind_return: "sbind (sret x) f = f x"
  by (simp add: fun_eq_iff st_run)

lemma sraise_bind: "sbind (sraise e) f = sraise e"
  by (simp add: fun_eq_iff st_run)

text \<open>What \<open>invoke_body\<close> does before it calls the handler: the operation and its context.\<close>

definition prepare_context ::
  "('b, 'v) Host \<Rightarrow> 'v Torch \<Rightarrow> (int \<times> 'v Operation) list \<Rightarrow> InvocationView
   \<Rightarrow> (('b, 'v) Receiver, 'v Operation \<times> 'v InvocationContext) st" where
  "prepare_context host torch ops iv =
     (case map_of ops (iv_operation_id iv) of
        None \<Rightarrow> sraise (ValueError ''Unknown operation ID'')
      | Some op \<Rightarrow>
     if length (iv_inputs iv) \<noteq> length (wo_input_accesses op)
     then sraise (ValueError ''Invocation has an invalid input count'')
     else if length (iv_outputs iv) \<noteq> length (tensor_outputs (wo_metadata op))
     then sraise (ValueError ''Invocation has an invalid output count'')
     else
     sbind (smap (\<lambda>x. cache_tensor host (fst x) (iv_invocation_id iv) (snd x = ''readWrite''))
              (zip (iv_inputs iv) (wo_input_accesses op))) (\<lambda>inputs.
     sbind (smap (\<lambda>d. cache_tensor host d (iv_invocation_id iv) True) (iv_outputs iv)) (\<lambda>outputs.
     sbind (slift (decode_scalars (iv_scalars iv) (wo_scalar_kinds op))) (\<lambda>scalars.
     sbind (slift (make_context torch (wo_metadata op) (iv_invocation_id iv) inputs outputs scalars)) (\<lambda>cx.
     sret (op, cx))))))"

lemma invoke_body_split:
  "invoke_body host torch ops iv = sbind (prepare_context host torch ops iv)
     (\<lambda>(op, cx). slift (case wo_handler op cx of Inl e \<Rightarrow> Inl (OperationFailure e) | Inr _ \<Rightarrow> Inr ()))"
  unfolding invoke_body_def prepare_context_def
  by (simp add: sbind_assoc sbind_return case_prod_unfold if_distrib[where f = "\<lambda>m. sbind m _"]
      sraise_bind split: option.split)

text \<open>The context of an invocation: the declared views and the decoded scalars.\<close>

definition context_of ::
  "('b, 'v) Host \<Rightarrow> 'v Torch \<Rightarrow> (int \<Rightarrow> ('b, 'v) MappedBuffer option) \<Rightarrow> (int \<times> 'v Operation) list \<Rightarrow> InvocationView
   \<Rightarrow> 'v Operation \<Rightarrow> 'v InvocationContext \<Rightarrow> bool" where
  "context_of host torch bufs ops iv op cx \<longleftrightarrow>
     map_of ops (iv_operation_id iv) = Some op \<and>
     list_all2 (viewed host bufs (iv_invocation_id iv))
       (map (\<lambda>x. (fst x, snd x = ''readWrite'')) (zip (iv_inputs iv) (wo_input_accesses op))) (cx_inputs cx) \<and>
     list_all2 (viewed host bufs (iv_invocation_id iv)) (map (\<lambda>d. (d, True)) (iv_outputs iv)) (cx_outputs cx) \<and>
     length (iv_inputs iv) = length (wo_input_accesses op) \<and>
     length (iv_outputs iv) = length (tensor_outputs (wo_metadata op)) \<and>
     decode_scalars (iv_scalars iv) (wo_scalar_kinds op) = Inr (cx_scalars cx) \<and>
     make_context torch (wo_metadata op) (iv_invocation_id iv) (cx_inputs cx) (cx_outputs cx) (cx_scalars cx) = Inr cx"

lemma make_context_Inr:
  "make_context torch op i ins outs ss = Inr cx \<Longrightarrow>
   cx = \<lparr>cx_operation = op, cx_invocation_id = i, cx_inputs = ins, cx_outputs = outs, cx_scalars = ss\<rparr>"
  by (auto simp: make_context_def err_simps split: if_splits)

lemma prepare_context_keeps: "keeps (holds_buffers host bufs) (prepare_context host torch ops iv)"
proof -
  have [keeps_rules]: "keeps (holds_buffers host bufs) (cache_tensor host d iv w)" for d iv w
    by (rule keepsI) (use cache_tensor_holds in blast)
  show ?thesis unfolding prepare_context_def by (intro keeps_rules)
qed

lemma prepare_context_run:
  assumes h: "holds_buffers host bufs s" and run: "prepare_context host torch ops iv s = (r, s')"
  shows "holds_buffers host bufs s' \<and> (\<forall>op cx. r = Inr (op, cx) \<longrightarrow> context_of host torch bufs ops iv op cx)"
proof (intro conjI allI impI)
  show "holds_buffers host bufs s'" by (rule keepsD[OF prepare_context_keeps h run])
  fix op cx assume "r = Inr (op, cx)"
  with run have "prepare_context host torch ops iv s = (Inr (op, cx), s')" by simp
  then obtain ins s1 outs s2 ss where m: "map_of ops (iv_operation_id iv) = Some op"
    "length (iv_inputs iv) = length (wo_input_accesses op)"
    "length (iv_outputs iv) = length (tensor_outputs (wo_metadata op))"
    and 1: "smap (\<lambda>x. cache_tensor host (fst x) (iv_invocation_id iv) (snd x = ''readWrite''))
        (zip (iv_inputs iv) (wo_input_accesses op)) s = (Inr ins, s1)"
    and 2: "smap (\<lambda>d. cache_tensor host d (iv_invocation_id iv) True) (iv_outputs iv) s1 = (Inr outs, s2)"
    and ss: "decode_scalars (iv_scalars iv) (wo_scalar_kinds op) = Inr ss"
    and c: "make_context torch (wo_metadata op) (iv_invocation_id iv) ins outs ss = Inr cx"
    unfolding prepare_context_def by (auto simp: st_inv split: option.splits if_splits)
  note A = cache_tensors_holds[OF h 1] and B = cache_tensors_holds[OF cache_tensors_holds[OF h 1, THEN conjunct1] 2]
  from A B m ss c show "context_of host torch bufs ops iv op cx"
    by (simp add: context_of_def make_context_Inr[OF c])
qed

lemma invoke_body_run:
  assumes "holds_buffers host bufs s" "invoke_body host torch ops iv s = (r, s')"
  shows "holds_buffers host bufs s'"
    and "r = Inr () \<Longrightarrow> \<exists>op cx. context_of host torch bufs ops iv op cx \<and> wo_handler op cx = Inr ()"
proof -
  obtain r1 s1 where p: "prepare_context host torch ops iv s = (r1, s1)" by (metis surj_pair)
  note P = prepare_context_run[OF assms(1) p]
  show "holds_buffers host bufs s'" using P assms(2) p by (cases r1) (auto simp: invoke_body_split st_run)
  show "\<exists>op cx. context_of host torch bufs ops iv op cx \<and> wo_handler op cx = Inr ()" if "r = Inr ()"
  proof -
    from assms(2) that p obtain op cx where "r1 = Inr (op, cx)" "wo_handler op cx = Inr ()"
      by (cases r1) (auto simp: invoke_body_split st_run split: sum.splits)
    with P show ?thesis by blast
  qed
qed

text \<open>Whatever happens in an invocation, no mapping private to it is left, and only those go.\<close>

definition without_expired :: "int \<Rightarrow> (int \<Rightarrow> ('b, 'v) MappedBuffer option) \<Rightarrow> int \<Rightarrow> ('b, 'v) MappedBuffer option" where
  "without_expired iv bufs = (\<lambda>k. case bufs k of Some b \<Rightarrow> if expired iv b then None else Some b | None \<Rightarrow> None)"

lemma finish_holds:
  assumes "holds_buffers host bufs s"
  shows "holds_buffers host (without_expired iv bufs) (snd (finish_invocation iv s))"
proof -
  have "bare_buffers (snd (finish_invocation iv s)) k = without_expired iv (bare_buffers s) k" for k
    by (cases "buffers s k") (simp_all add: finish_invocation_def st_run bare_buffers_def without_expired_def)
  moreover have "receiver_ok host (snd (finish_invocation iv s))" using assms
    by (auto simp: holds_buffers_def finish_invocation_def st_run receiver_ok_def split: option.splits if_splits)
  ultimately show ?thesis using assms by (auto simp: holds_buffers_def)
qed

section \<open>Answers\<close>

lemma always_run: "always m h s = (r, s') \<longleftrightarrow> (\<exists>s1. m s = (r, s1) \<and> s' = snd (h s1))"
  by (auto simp: always_def split: prod.splits)

lemma invoke_known_run:
  assumes "holds_buffers host bufs s" "invoke_known host torch clock prof ops iv s = (r, s')"
  shows "holds_buffers host (without_expired (iv_invocation_id iv) bufs) s' \<and>
    (\<forall>m. r = Inr m \<longrightarrow> (\<exists>op cx. context_of host torch bufs ops iv op cx \<and> wo_handler op cx = Inr ()) \<and>
       (prof \<longrightarrow> (\<exists>xs. m = Some xs \<and> length xs = 4)) \<and> (\<not> prof \<longrightarrow> m = None))"
proof -
  obtain r1 s1 where b: "invoke_body host torch ops iv s = (r1, s1)" by (metis surj_pair)
  note B = invoke_body_run[OF assms(1) b]
  have "s' = snd (finish_invocation (iv_invocation_id iv) s1) \<and> (\<forall>m. r = Inr m \<longrightarrow> r1 = Inr () \<and>
      (prof \<longrightarrow> (\<exists>xs. m = Some xs \<and> length xs = 4)) \<and> (\<not> prof \<longrightarrow> m = None))"
    using assms(2) b
    by (cases r1) (auto simp: invoke_known_def invoke_known_direct_def invoke_known_profiled_def always_def st_run Let_def
        split: if_splits)
  with finish_holds[OF B(1)] B(2) show ?thesis by auto
qed

lemma worker_plan_outputs_keeps: "keeps (holds_buffers host bufs) (worker_plan_outputs host torch ops planners iv)"
proof -
  have [keeps_rules]: "keeps (holds_buffers host bufs) (cache_tensor host d i w)" for d i w
    by (rule keepsI) (use cache_tensor_holds in blast)
  have [keeps_rules]: "keeps P (case r of Inl e \<Rightarrow> f e | Inr x \<Rightarrow> g x)"
    if "\<And>e. keeps P (f e)" "\<And>x. keeps P (g x)" for P and f :: "pyerr \<Rightarrow> ('s, 'c) st" and g :: "'d \<Rightarrow> ('s, 'c) st" and r
    using that by (cases r) auto
  show ?thesis unfolding worker_plan_outputs_def
    by (auto simp: Let_def split: option.split intro!: keeps_rules)
qed

text \<open>The buffers after a command: without the mappings private to the invocation it ran.\<close>

definition buffers_after :: "Record \<Rightarrow> (int \<Rightarrow> ('b, 'v) MappedBuffer option) \<Rightarrow> int \<Rightarrow> ('b, 'v) MappedBuffer option" where
  "buffers_after command bufs =
     (if r_kind command = COMMAND_INVOKE then without_expired (r_invocation_id command) bufs else bufs)"

definition same_command :: "Record \<Rightarrow> Record \<Rightarrow> bool" where
  "same_command command c \<longleftrightarrow> r_kind c = completion_kind (r_kind command) \<and> r_generation c = r_generation command \<and>
     r_submission_id c = r_submission_id command \<and> r_invocation_id c = r_invocation_id command \<and>
     r_operation_id c = r_operation_id command \<and> r_flags c = r_flags command"

lemma same_command_fresh: "same_command command (fresh_completion clock command)"
  by (simp add: same_command_def fresh_completion_def)

lemma same_command_updates [simp]:
  "same_command command (c\<lparr>r_profile := p\<rparr>) = same_command command c"
  "same_command command (c\<lparr>r_outputs := os\<rparr>) = same_command command c"
  "same_command command (c\<lparr>r_status := st\<rparr>) = same_command command c"
  "same_command command (c\<lparr>r_error_type := a\<rparr>) = same_command command c"
  "same_command command (c\<lparr>r_error_message := b\<rparr>) = same_command command c"
  by (simp_all add: same_command_def)

lemma perform_run:
  assumes "holds_buffers host bufs s" "perform host torch ops planners clock command c s = (r, s')"
  shows "holds_buffers host (buffers_after command bufs) s' \<and>
    (\<forall>c'. r = Inr c' \<longrightarrow> r_status c' = r_status c \<and> (same_command command c \<longrightarrow> same_command command c') \<and>
      (r_kind command = COMMAND_INVOKE \<longrightarrow> (\<exists>op cx. context_of host torch bufs ops (record_invocation True command) op cx \<and>
         wo_handler op cx = Inr ())))"
proof (cases "r_kind command = COMMAND_INVOKE")
  case True
  let ?iv = "record_invocation True command"
  obtain r1 s1 where k: "invoke_known host torch (\<lambda>i. clock (8 + i)) (profiled command) ops ?iv s = (r1, s1)"
    by (metis surj_pair)
  have "iv_invocation_id ?iv = r_invocation_id command" by (simp add: record_invocation_def)
  with invoke_known_run[OF assms(1) k] True assms(2) k show ?thesis
    by (cases r1) (auto simp: perform_def st_run buffers_after_def split: option.splits)
next
  case False
  have "keeps (holds_buffers host bufs) (perform host torch ops planners clock command c)"
    using False worker_plan_outputs_keeps by (auto simp: perform_def intro!: keeps_rules)
  with assms False have "holds_buffers host (buffers_after command bufs) s'"
    by (auto simp: buffers_after_def dest: keepsD)
  moreover have "r_status c' = r_status c \<and> (same_command command c \<longrightarrow> same_command command c')" if "r = Inr c'" for c'
    using assms(2) False that by (auto simp: perform_def st_inv split: if_splits)
  ultimately show ?thesis using False by blast
qed

lemma completed_run:
  "same_command command c \<Longrightarrow> (\<And>c'. r = Inr c' \<Longrightarrow> same_command command c') \<Longrightarrow> same_command command (completed errs c r)"
  by (auto simp: completed_def split: sum.split pyerr.split)

lemma completed_status:
  "r_status (completed errs c r) = (case r of Inr c' \<Rightarrow> r_status c'
     | Inl (OperationFailure e) \<Rightarrow> STATUS_OPERATION_ERROR | Inl e \<Rightarrow> STATUS_INTERNAL_ERROR)"
  by (auto simp: completed_def split: sum.split pyerr.split)

lemma answer_run:
  assumes h: "holds_buffers host bufs s" and a: "answer host torch errs ops planners clock command s = (c, s')"
  shows "holds_buffers host (buffers_after command bufs) s'" "same_command command c"
    and "r_status c = (case fst (perform host torch ops planners clock command (fresh_completion clock command) s) of
       Inr _ \<Rightarrow> STATUS_OK | Inl (OperationFailure e) \<Rightarrow> STATUS_OPERATION_ERROR | Inl e \<Rightarrow> STATUS_INTERNAL_ERROR)"
    and "r_status c = STATUS_OK \<Longrightarrow> r_kind command = COMMAND_INVOKE \<Longrightarrow>
       \<exists>op cx. context_of host torch bufs ops (record_invocation True command) op cx \<and> wo_handler op cx = Inr ()"
proof -
  let ?c = "fresh_completion clock command"
  obtain r1 s1 where p: "perform host torch ops planners clock command ?c s = (r1, s1)" by (metis surj_pair)
  note P = perform_run[OF h p]
  have c: "s' = s1" "r_status c = r_status (completed errs ?c r1)"
    "same_command command c \<longleftrightarrow> same_command command (completed errs ?c r1)"
    using a p by (auto simp: answer_def Let_def split: if_splits)
  then show "holds_buffers host (buffers_after command bufs) s'" using P by simp
  show "same_command command c" unfolding c(3)
    by (rule completed_run[OF same_command_fresh]) (use P same_command_fresh in blast)
  have ok: "r_status ?c = STATUS_OK" by (simp add: fresh_completion_def)
  show st: "r_status c = (case fst (perform host torch ops planners clock command ?c s) of
       Inr _ \<Rightarrow> STATUS_OK | Inl (OperationFailure e) \<Rightarrow> STATUS_OPERATION_ERROR | Inl e \<Rightarrow> STATUS_INTERNAL_ERROR)"
    unfolding c(2) completed_status p fst_conv using P ok by (cases r1) (auto split: pyerr.split)
  show "\<exists>op cx. context_of host torch bufs ops (record_invocation True command) op cx \<and> wo_handler op cx = Inr ()"
    if "r_status c = STATUS_OK" "r_kind command = COMMAND_INVOKE"
  proof (cases r1)
    case (Inl e)
    with that(1) st p show ?thesis by (auto simp: command_consts split: pyerr.splits)
  next
    case (Inr c')
    with P that(2) show ?thesis by blast
  qed
qed

text \<open>The loop answers the commands in the order it takes them, each once; it stops at the first
  command it cannot take or answer.\<close>

lemma ring_worker_loop_run:
  assumes "holds_buffers host bufs s" "ring_worker_loop host torch errs ops planners push items s = ((how, answered), s')"
  shows "\<exists>commands rest. map fst items = map Inr commands @ rest \<and> list_all2 same_command (take (length answered) commands) answered \<and>
    length answered \<le> length commands \<and> length commands \<le> Suc (length answered) \<and>
    (how = Goes_on \<longleftrightarrow> rest = [] \<and> length answered = length commands) \<and>
    holds_buffers host (fold buffers_after commands bufs) s'"
  using assms
proof (induction items arbitrary: s bufs answered how s')
  case Nil
  then show ?case by (auto intro!: exI[of _ "[]"])
next
  case (Cons item items)
  obtain popped clock where item: "item = (popped, clock)" by (metis surj_pair)
  show ?case
  proof (cases popped)
    case (Inl e)
    with Cons.prems item show ?thesis by (intro exI[of _ "[]"] exI[of _ "map fst (item # items)"]) (auto split: if_splits)
  next
    case (Inr command)
    obtain c s1 where a: "answer host torch errs ops planners clock command s = (c, s1)" by (metis surj_pair)
    note A = answer_run(1,2)[OF Cons.prems(1) a]
    show ?thesis
    proof (cases "ebind (sdk_ring_encode c) push")
      case (Inl e)
      with Cons.prems item Inr a have "how = (if is_ring_error e then Returns else Dies e)" "answered = []" "s' = s1" by auto
      with A(1) item \<open>popped = Inr command\<close> show ?thesis
        by (intro exI[of _ "[command]"] exI[of _ "map fst items"]) auto
    next
      case (Inr u)
      obtain how' answered' s2 where l: "ring_worker_loop host torch errs ops planners push items s1 = ((how', answered'), s2)"
        by (metis surj_pair)
      from Cons.prems item \<open>popped = Inr command\<close> a Inr l have r: "how = how'" "answered = c # answered'" "s' = s2" by auto
      from Cons.IH[OF A(1) l] obtain commands rest where
        c: "map fst items = map Inr commands @ rest" "list_all2 same_command (take (length answered') commands) answered'"
          "length answered' \<le> length commands" "length commands \<le> Suc (length answered')"
          "how' = Goes_on \<longleftrightarrow> rest = [] \<and> length answered' = length commands"
          "holds_buffers host (fold buffers_after commands (buffers_after command bufs)) s2" by blast
      then show ?thesis unfolding r
        by (intro exI[of _ "command # commands"] exI[of _ rest]) (simp add: item \<open>popped = Inr command\<close> A(2))
    qed
  qed
qed

section \<open>Compiled operations\<close>

lemma compile_loop_Inr:
  assumes "compile_loop handlers ms compiled = Inr ops" "distinct (map om_operation_id ms)"
  shows "(\<forall>m \<in> set ms. \<exists>h. map_of handlers (om_name m) = Some h \<and> map_of ops (om_operation_id m) = Some (compiled_operation m h)) \<and>
    (\<forall>k. k \<notin> om_operation_id ` set ms \<longrightarrow> map_of ops k = map_of compiled k)"
  using assms
proof (induction ms arbitrary: compiled)
  case (Cons m ms)
  then obtain h where h: "map_of handlers (om_name m) = Some h"
    "compile_loop handlers ms (AList.update (om_operation_id m) (compiled_operation m h) compiled) = Inr ops"
    by (auto split: option.splits)
  from Cons.IH[OF h(2)] Cons.prems(2) h(1) show ?case by (auto simp: update_conv')
qed simp

lemma compile_operations_Inr:
  assumes "compile_operations ms handlers = Inr ops" "distinct (map om_operation_id ms)" "m \<in> set ms"
  obtains h where "map_of handlers (om_name m) = Some h" "map_of ops (om_operation_id m) = Some (compiled_operation m h)"
  using assms compile_loop_Inr[of handlers ms "[]"] unfolding compile_operations_def
  by (auto simp: err_simps split: if_splits)

end
