(* ===== verification/Session_Laws.thy ===== *)
theory Session_Laws
  imports Worker_Session
begin

text \<open>
  Laws of a session: the lifecycle's invariant over all interleavings of calls and closers, and
  how an invocation can end. \<open>frames A m\<close>: the method only adds events of \<open>A\<close> to the log, keeps
  the lifecycle when it returns, and at most invalidates the session when it raises.
\<close>

named_theorems frames_rules \<open>what a method adds to the log, by the structure of the code\<close>

section \<open>Lifecycle\<close>

definition session_inv :: "Session_Threads \<Rightarrow> bool" where
  "session_inv s \<longleftrightarrow> lc_ready (life s) \<and> lc_active_calls (life s) = int (calls s) \<and>
     (lc_close_started (life s) \<longleftrightarrow> closer s \<noteq> No_closer) \<and>
     (lc_closed (life s) \<longleftrightarrow> closer s = Finished) \<and>
     (lc_shutdown_requested (life s) \<longleftrightarrow> closer s \<in> {Stopping, Finished}) \<and>
     (lc_shutdown_requested (life s) \<longrightarrow> calls s = 0)"

lemmas lifecycle_defs = begin_call_def end_call_def invalidate_def close_begin_def request_shutdown_def close_finish_def

lemma session_step_inv: "session_step s s' \<Longrightarrow> session_inv s \<Longrightarrow> session_inv s'"
  by (induction rule: session_step.induct)
    (auto simp: session_inv_def lifecycle_defs st_run of_nat_diff split: if_splits)

lemma session_reachable_inv: "session_reachable s \<Longrightarrow> session_inv s"
proof (induction rule: session_reachable.induct)
  case start
  show ?case by (simp add: session_inv_def started_session_def)
next
  case (more s s')
  then show ?case using session_step_inv by blast
qed

inductive session_steps :: "Session_Threads \<Rightarrow> Session_Threads \<Rightarrow> bool" where
  none: "session_steps s s"
| then_step: "session_steps s s' \<Longrightarrow> session_step s' s'' \<Longrightarrow> session_steps s s''"

lemma session_flags_stay:
  assumes "session_steps s s'"
  shows "(lc_closed (life s) \<or> lc_close_started (life s) \<or> lc_invalidated (life s)) \<longrightarrow>
    (lc_closed (life s') \<or> lc_close_started (life s') \<or> lc_invalidated (life s'))"
  using assms
proof (induction rule: session_steps.induct)
  case (then_step s s' s'')
  from then_step.hyps(2) show ?case
    using then_step.IH by cases (auto simp: lifecycle_defs st_run split: if_splits)
qed simp

section \<open>Frames\<close>

definition frames :: "session_event set \<Rightarrow> (Session, 'a) st \<Rightarrow> bool" where
  "frames A m \<longleftrightarrow> (\<forall>s r s'. m s = (r, s') \<longrightarrow>
     (\<exists>d. se_log s' = se_log s @ d \<and> set d \<subseteq> A) \<and>
     (se_life s' = se_life s \<or> se_life s' = invalidate (se_life s) \<and> (\<exists>e. r = Inl e)))"

lemma framesI:
  "(\<And>s r s'. m s = (r, s') \<Longrightarrow> \<exists>d. se_log s' = se_log s @ d \<and> set d \<subseteq> A) \<Longrightarrow>
   (\<And>s r s'. m s = (r, s') \<Longrightarrow> se_life s' = se_life s \<or> se_life s' = invalidate (se_life s) \<and> (\<exists>e. r = Inl e)) \<Longrightarrow> frames A m"
  by (auto simp: frames_def)

lemma framesD:
  assumes "frames A m" "m s = (r, s')"
  obtains d where "se_log s' = se_log s @ d" "set d \<subseteq> A"
    "se_life s' = se_life s \<or> se_life s' = invalidate (se_life s) \<and> (\<exists>e. r = Inl e)"
  using assms unfolding frames_def by blast

lemma framesD_Inr:
  assumes "frames A m" "m s = (Inr x, s')"
  obtains d where "se_log s' = se_log s @ d" "set d \<subseteq> A" "se_life s' = se_life s"
  using assms unfolding frames_def by blast

lemma invalidate_idem [simp]: "invalidate (invalidate l) = invalidate l"
  by (simp add: invalidate_def)

lemma frames_pure [frames_rules]:
  "frames A (sret x)" "frames A (sraise e)" "frames A sget" "frames A (slift r)" "frames A (sreject c e)"
  by (auto simp: frames_def st_simps)

lemma frames_sbind [frames_rules]:
  assumes m: "frames A m" and f: "\<And>x. frames A (f x)"
  shows "frames A (sbind m f)"
  unfolding frames_def
proof (intro allI impI)
  fix s r s' assume b: "sbind m f s = (r, s')"
  obtain r1 s1 where m1: "m s = (r1, s1)" by (metis surj_pair)
  from framesD[OF m m1] obtain d where d: "se_log s1 = se_log s @ d" "set d \<subseteq> A"
    "se_life s1 = se_life s \<or> se_life s1 = invalidate (se_life s) \<and> (\<exists>e. r1 = Inl e)" .
  show "(\<exists>d. se_log s' = se_log s @ d \<and> set d \<subseteq> A) \<and>
     (se_life s' = se_life s \<or> se_life s' = invalidate (se_life s) \<and> (\<exists>e. r = Inl e))"
  proof (cases r1)
    case (Inl e)
    with b m1 d show ?thesis by (auto simp: sbind_run)
  next
    case (Inr x)
    with b m1 have fx: "f x s1 = (r, s')" by (simp add: sbind_run)
    from framesD[OF f fx] obtain d' where "se_log s' = se_log s1 @ d'" "set d' \<subseteq> A"
      "se_life s' = se_life s1 \<or> se_life s' = invalidate (se_life s1) \<and> (\<exists>e. r = Inl e)" .
    moreover have "se_life s1 = se_life s" using d(3) Inr by auto
    ultimately show ?thesis using d(1,2) by auto
  qed
qed

lemma frames_if [frames_rules]: "(c \<Longrightarrow> frames A m) \<Longrightarrow> (\<not> c \<Longrightarrow> frames A n) \<Longrightarrow> frames A (if c then m else n)"
  by simp

lemma frames_pair [frames_rules]: "(\<And>a b. frames A (f a b)) \<Longrightarrow> frames A (case x of (a, b) \<Rightarrow> f a b)"
  by (cases x) simp

lemma frames_pair_app [frames_rules]: "(\<And>a b. frames A (f a b y)) \<Longrightarrow> frames A ((case x of (a, b) \<Rightarrow> f a b) y)"
  by (cases x) simp

lemma frames_let [frames_rules]: "(\<And>x. frames A (f x)) \<Longrightarrow> frames A (Let x f)"
  by (simp add: Let_def)

lemma frames_smap [frames_rules]: "(\<And>x. frames A (f x)) \<Longrightarrow> frames A (smap f xs)"
  by (induction xs) (auto intro!: frames_rules)

lemma frames_sall [frames_rules]: "(\<And>x. frames A (f x)) \<Longrightarrow> frames A (sall f xs)"
  by (induction xs) (auto intro!: frames_rules)

lemma frames_on_manager [frames_rules]: "frames A (on_manager m)"
  by (auto simp: frames_def on_manager_def split: prod.splits)

lemma frames_emit [frames_rules]: "e \<in> A \<Longrightarrow> frames A (emit e)"
  by (auto simp: frames_def emit_def st_simps)

lemma frames_ask [frames_rules]: "e \<in> A \<Longrightarrow> frames A (ask e reply)"
  unfolding ask_def by (intro frames_rules)

lemma frames_on_some_error [frames_rules]:
  assumes m: "frames A m" and h: "\<And>s. h s = invalidated s \<or> h s = s"
  shows "frames A (on_some_error P m h)"
  unfolding frames_def
proof (intro allI impI)
  fix s r s' assume b: "on_some_error P m h s = (r, s')"
  obtain r1 s1 where m1: "m s = (r1, s1)" by (metis surj_pair)
  from framesD[OF m m1] obtain d where d: "se_log s1 = se_log s @ d" "set d \<subseteq> A"
    "se_life s1 = se_life s \<or> se_life s1 = invalidate (se_life s) \<and> (\<exists>e. r1 = Inl e)" .
  show "(\<exists>d. se_log s' = se_log s @ d \<and> set d \<subseteq> A) \<and>
     (se_life s' = se_life s \<or> se_life s' = invalidate (se_life s) \<and> (\<exists>e. r = Inl e))"
    using b m1 d h[of s1] by (cases r1) (auto simp: on_some_error_def invalidated_def)
qed

lemma on_error_some: "on_error m h = on_some_error (\<lambda>_. True) m h"
  by (auto simp: on_error_def on_some_error_def fun_eq_iff split: sum.split prod.split)

lemma frames_on_error [frames_rules]: "frames A m \<Longrightarrow> frames A (on_error m invalidated)"
  unfolding on_error_some by (rule frames_on_some_error) auto

lemma frames_smod_next [frames_rules]: "frames A (smod (\<lambda>s. s\<lparr>se_next := n\<rparr>))"
  by (auto simp: frames_def st_simps)

lemma frames_mono: "frames A m \<Longrightarrow> A \<subseteq> B \<Longrightarrow> frames B m"
  unfolding frames_def by (meson order_trans)

section \<open>The parts of an invocation\<close>

abbreviation preparing :: "session_event set" where
  "preparing \<equiv> {e. case e of Ensured _ _ \<Rightarrow> True | Planned _ \<Rightarrow> True | Marked _ \<Rightarrow> True | _ \<Rightarrow> False}"

lemma frames_next_invocation_id: "frames {} next_invocation_id"
  unfolding next_invocation_id_def by (intro frames_rules)

lemma frames_share_inputs: "frames {} (share_inputs w bi)"
  unfolding share_inputs_def by (intro frames_rules)

lemma frames_ensure: "frames preparing (ensure_mapped_many w bufs iid)"
  unfolding ensure_mapped_many_def by (intro frames_rules) simp

lemma frames_prepare: "frames preparing (prepare_outputs w bi inputs iid extra)"
  unfolding prepare_outputs_def plan_dynamic_outputs_def materialize_outputs_def
  by (intro frames_rules frames_ensure) auto

section \<open>How an invocation ends\<close>

text \<open>The log of one invocation: what prepared it, and the command sent or the invocation aborted.\<close>

definition ends_well :: "World \<Rightarrow> int \<Rightarrow> BoundInvocation \<Rightarrow> bool \<Rightarrow> session_event list \<Rightarrow> session_event list \<Rightarrow> managed_tensor list \<Rightarrow> bool" where
  "ends_well w iid bi prof before d outs \<longleftrightarrow>
     (\<exists>pre command inputs. d = pre @ [Submitted command] \<and> set pre \<subseteq> preparing \<and>
        invocation_record (w_generation w) iid (om_operation_id (bi_operation bi)) inputs outs bi prof COMMAND_INVOKE = Inr command \<and>
        (if prof then \<exists>response. w_profiled w (before @ d) = Inr response \<and> r_status response = STATUS_OK
         else \<exists>et em. w_invoke w (before @ d) = Inr (STATUS_OK, et, em)))"

definition ends_usable :: "int \<Rightarrow> session_event list \<Rightarrow> pyerr \<Rightarrow> bool" where
  "ends_usable iid d e \<longleftrightarrow>
     d = [] \<or> (\<exists>pre. set pre \<subseteq> preparing \<and>
       (d = pre @ [Aborted iid] \<or> (\<exists>command et em. d = pre @ [Submitted command] \<and> e = OperationError et em)))"

text \<open>The second half, from the prepared outputs on.\<close>

lemma ask_run: "ask e reply s = (reply (se_log s @ [e]), s\<lparr>se_log := se_log s @ [e]\<rparr>)"
  by (simp add: ask_def emit_def st_run split: sum.split)

lemma invalidated_life [simp]: "se_life (invalidated s) = invalidate (se_life s)" "se_log (invalidated s) = se_log s"
  by (simp_all add: invalidated_def)

lemma submit_command_run:
  assumes "on_error (sbind (slift rec) (\<lambda>command. ask (Submitted command) reply)) invalidated s = (r, s')"
  shows "case r of
      Inl e \<Rightarrow> se_life s' = invalidate (se_life s) \<and> (\<exists>d. se_log s' = se_log s @ d)
    | Inr x \<Rightarrow> se_life s' = se_life s \<and> (\<exists>command. rec = Inr command \<and> se_log s' = se_log s @ [Submitted command] \<and>
        reply (se_log s') = Inr x)"
  using assms by (cases rec) (auto simp: on_error_run sbind_run st_simps ask_run split: sum.splits)

text \<open>A failed preparation is followed by the abort.\<close>

lemma after_abort_run:
  assumes "frames preparing m" "after_error m (abort_invocation w iid) s = (r, s')"
  shows "case r of
      Inr x \<Rightarrow> m s = (Inr x, s') \<and> se_life s' = se_life s \<and> (\<exists>d. se_log s' = se_log s @ d \<and> set d \<subseteq> preparing)
    | Inl e \<Rightarrow> (se_life s' = se_life s \<or> se_life s' = invalidate (se_life s)) \<and>
        (\<exists>d. se_log s' = se_log s @ d @ [Aborted iid] \<and> set d \<subseteq> preparing)"
proof -
  obtain r1 s1 where m1: "m s = (r1, s1)" by (metis surj_pair)
  from framesD[OF assms(1) m1] obtain d where d: "se_log s1 = se_log s @ d" "set d \<subseteq> preparing"
    "se_life s1 = se_life s \<or> se_life s1 = invalidate (se_life s) \<and> (\<exists>e. r1 = Inl e)" .
  show ?thesis
  proof (cases r1)
    case (Inl e)
    then obtain e' where "r = Inl e'" "s' = s1\<lparr>se_log := se_log s1 @ [Aborted iid]\<rparr>"
      using assms(2) m1 by (auto simp: after_error_def abort_invocation_def ask_run split: sum.splits)
    with d show ?thesis by auto
  next
    case (Inr x)
    then have "r = Inr x" "s' = s1" using assms(2) m1 by (auto simp: after_error_def)
    with d Inr m1 show ?thesis by auto
  qed
qed

lemma first_part_run:
  assumes "sbind m f s = (r, s')" "frames {} m"
  obtains (failed) e where "r = Inl e" "se_log s' = se_log s" "se_life s' = se_life s \<or> se_life s' = invalidate (se_life s)"
  | (on) x s1 where "m s = (Inr x, s1)" "f x s1 = (r, s')" "se_log s1 = se_log s" "se_life s1 = se_life s"
proof -
  obtain r1 s1 where m1: "m s = (r1, s1)" by (metis surj_pair)
  from framesD[OF assms(2) m1] obtain d where d: "se_log s1 = se_log s @ d" "set d \<subseteq> {}"
    "se_life s1 = se_life s \<or> se_life s1 = invalidate (se_life s) \<and> (\<exists>e. r1 = Inl e)" .
  then have log: "se_log s1 = se_log s" by simp
  show thesis
  proof (cases r1)
    case (Inl e)
    then have "r = Inl e" "s' = s1" using assms(1) m1 by (simp_all add: sbind_run)
    with log d(3) failed show thesis by auto
  next
    case (Inr x)
    then have "f x s1 = (r, s')" using assms(1) m1 by (simp add: sbind_run)
    with log d(3) Inr m1 on show thesis by auto
  qed
qed

lemma on_error_invalidated_run:
  assumes "frames A m" "on_error m invalidated s = (r, s')"
  obtains d where "se_log s' = se_log s @ d" "set d \<subseteq> A"
    "case r of Inl e \<Rightarrow> se_life s' = invalidate (se_life s) | Inr x \<Rightarrow> se_life s' = se_life s \<and> m s = (Inr x, s')"
proof -
  obtain r1 s1 where m1: "m s = (r1, s1)" by (metis surj_pair)
  from framesD[OF assms(1) m1] obtain d where d: "se_log s1 = se_log s @ d" "set d \<subseteq> A"
    "se_life s1 = se_life s \<or> se_life s1 = invalidate (se_life s) \<and> (\<exists>e. r1 = Inl e)" .
  show thesis
    using assms(2) m1 d by (cases r1) (auto simp: on_error_run intro: that[of d])
qed

lemma next_invocation_id_run: "next_invocation_id s = (Inr (se_next s), s\<lparr>se_next := snd (take_invocation_id (se_next s))\<rparr>)"
  by (simp add: next_invocation_id_def st_run take_invocation_id_def Let_def)

text \<open>The outcome of an invocation that has its inputs.\<close>

definition outcome ::
  "World \<Rightarrow> int \<Rightarrow> BoundInvocation \<Rightarrow> bool \<Rightarrow> Session \<Rightarrow> pyerr + managed_tensor list \<Rightarrow> Session \<Rightarrow> bool" where
  "outcome w iid bi prof s r s' \<longleftrightarrow> (\<exists>d. se_log s' = se_log s @ d \<and> (case r of
     Inr outs \<Rightarrow> se_life s' = se_life s \<and> ends_well w iid bi prof (se_log s) d outs
   | Inl e \<Rightarrow> se_life s' = invalidate (se_life s) \<or> se_life s' = se_life s \<and> ends_usable iid d e))"

lemma outcome_failed:
  "se_log s' = se_log s @ d \<Longrightarrow> se_life s' = invalidate (se_life s) \<Longrightarrow> outcome w iid bi prof s (Inl e) s'"
  by (simp add: outcome_def)

text \<open>Preparing and dispatching, given the events \<open>before\<close> of the same invocation.\<close>

lemma dispatch_outcome:
  assumes prep: "frames preparing m" and log: "se_log s1 = se_log s @ d0" "set d0 \<subseteq> preparing" "se_life s1 = se_life s"
    and run: "sbind (after_error m (abort_invocation w iid)) (\<lambda>outputs.
       sbind (on_error (sbind (slift (invocation_record (w_generation w) iid (om_operation_id (bi_operation bi)) inputs outputs bi prof COMMAND_INVOKE))
           (\<lambda>command. ask (Submitted command) reply)) invalidated) (finish outputs)) s1 = (r, s')"
    and finish: "\<And>outputs x s3 r s'. finish outputs x s3 = (r, s') \<Longrightarrow>
       good x \<and> r = Inr outputs \<and> s' = s3 \<or> (\<exists>et em. r = Inl (OperationError et em) \<and> s' = s3) \<or>
       (\<exists>e. r = Inl e \<and> s' = invalidated s3)"
    and good: "\<And>history x. reply history = Inr x \<Longrightarrow> good x \<Longrightarrow>
       (if prof then \<exists>response. w_profiled w history = Inr response \<and> r_status response = STATUS_OK
        else \<exists>et em. w_invoke w history = Inr (STATUS_OK, et, em))"
  shows "outcome w iid bi prof s r s'"
proof -
  obtain r2 s2 where a: "after_error m (abort_invocation w iid) s1 = (r2, s2)" by (metis surj_pair)
  note A = after_abort_run[OF prep a]
  show ?thesis
  proof (cases r2)
    case (Inl e)
    with A obtain d where d: "se_log s2 = se_log s1 @ d @ [Aborted iid]" "set d \<subseteq> preparing"
      "se_life s2 = se_life s1 \<or> se_life s2 = invalidate (se_life s1)" by auto
    have "r = Inl e" "s' = s2" using run a Inl by (simp_all add: sbind_run)
    moreover have "ends_usable iid (d0 @ d @ [Aborted iid]) e"
      unfolding ends_usable_def using d(2) log(2) by (metis append_assoc le_sup_iff set_append)
    ultimately show ?thesis using d log by (auto simp: outcome_def)
  next
    case (Inr outputs)
    with A obtain d where d: "se_log s2 = se_log s1 @ d" "set d \<subseteq> preparing" "se_life s2 = se_life s1" by auto
    let ?rec = "invocation_record (w_generation w) iid (om_operation_id (bi_operation bi)) inputs outputs bi prof COMMAND_INVOKE"
    obtain r3 s3 where b: "on_error (sbind (slift ?rec) (\<lambda>command. ask (Submitted command) reply)) invalidated s2 = (r3, s3)"
      by (metis surj_pair)
    note B = submit_command_run[OF b]
    have pre: "set (d0 @ d) \<subseteq> preparing" using d(2) log(2) by simp
    show ?thesis
    proof (cases r3)
      case (Inl e)
      then have "r = Inl e" "s' = s3" using run a \<open>r2 = Inr outputs\<close> b by (simp_all add: sbind_run)
      with B Inl d log show ?thesis by (auto simp: outcome_def)
    next
      case ok: (Inr x)
      from B ok obtain command where c: "?rec = Inr command" "se_log s3 = se_log s2 @ [Submitted command]"
        "reply (se_log s3) = Inr x" "se_life s3 = se_life s2" by auto
      have log3: "se_log s3 = se_log s @ (d0 @ d) @ [Submitted command]" using c(2) d(1) log(1) by simp
      have life3: "se_life s3 = se_life s" using c(4) d(3) log(3) by simp
      have rest: "finish outputs x s3 = (r, s')" using run a b ok \<open>r2 = Inr outputs\<close> by (simp add: sbind_run)
      consider (well) "good x" "r = Inr outputs" "s' = s3" | (op) et em where "r = Inl (OperationError et em)" "s' = s3"
        | (bad) e where "r = Inl e" "s' = invalidated s3" using finish[OF rest] by blast
      then show ?thesis
      proof cases
        case well
        have "ends_well w iid bi prof (se_log s) ((d0 @ d) @ [Submitted command]) outputs"
          unfolding ends_well_def
          by (intro exI[of _ "d0 @ d"] exI[of _ command] exI[of _ inputs] conjI)
            (rule refl, rule pre, rule c(1), rule good[OF c(3) well(1), unfolded log3])
        with well log3 life3 show ?thesis by (auto simp: outcome_def)
      next
        case op
        have "ends_usable iid ((d0 @ d) @ [Submitted command]) (OperationError et em)"
          unfolding ends_usable_def using pre by blast
        with op log3 life3 show ?thesis by (auto simp: outcome_def)
      next
        case bad
        with log3 life3 show ?thesis by (auto simp: outcome_def)
      qed
    qed
  qed
qed

lemma ensure_if_run:
  assumes "(if c then sbind (on_error (ensure_mapped_many w bufs iid) invalidated) (\<lambda>_. sret ()) else sret ()) s = (r, s')"
  shows "\<exists>d. se_log s' = se_log s @ d \<and> set d \<subseteq> preparing \<and>
    (case r of Inl _ \<Rightarrow> se_life s' = invalidate (se_life s) | Inr _ \<Rightarrow> se_life s' = se_life s)"
proof (cases c)
  case True
  obtain r1 s1 where e: "on_error (ensure_mapped_many w bufs iid) invalidated s = (r1, s1)" by (metis surj_pair)
  from on_error_invalidated_run[OF frames_ensure e] obtain d where d: "se_log s1 = se_log s @ d" "set d \<subseteq> preparing"
    "case r1 of Inl e \<Rightarrow> se_life s1 = invalidate (se_life s) | Inr x \<Rightarrow> se_life s1 = se_life s \<and> ensure_mapped_many w bufs iid s = (Inr x, s1)" .
  have "s' = s1 \<and> (case r of Inl _ \<Rightarrow> \<exists>e. r1 = Inl e | Inr _ \<Rightarrow> \<exists>x. r1 = Inr x)"
    using assms e True by (cases r1) (auto simp: sbind_run st_simps)
  with d show ?thesis by (cases r1; cases r) auto
next
  case False
  with assms show ?thesis by (auto simp: st_simps)
qed

lemma invoke_direct_outcome:
  assumes "invoke_direct w bi s = (r, s')"
  shows "outcome w (se_next s) bi False s r s'"
proof -
  define iid where "iid = se_next s"
  let ?s0 = "s\<lparr>se_next := snd (take_invocation_id iid)\<rparr>"
  from assms have "sbind (share_inputs w bi) (\<lambda>inputs.
     let mappings = input_mappings bi inputs; dynamic_required = is_dynamic (bi_operation bi) in
     sbind (if dynamic_required then sbind (on_error (ensure_mapped_many w mappings iid) invalidated) (\<lambda>_. sret ()) else sret ()) (\<lambda>_.
     sbind (after_error (prepare_outputs w bi inputs iid (if dynamic_required then [] else mappings)) (abort_invocation w iid)) (\<lambda>outputs.
     sbind (on_error
        (sbind (slift (invocation_record (w_generation w) iid (om_operation_id (bi_operation bi)) inputs outputs bi False COMMAND_INVOKE))
           (\<lambda>command. ask (Submitted command) (w_invoke w))) invalidated) (\<lambda>(status, error_type, error_message).
     if status = STATUS_OPERATION_ERROR then sraise (OperationError error_type error_message)
     else if status \<noteq> STATUS_OK then sbind (smod invalidated) (\<lambda>_. sraise (RingError ''worker ring failure''))
     else sret outputs)))) ?s0 = (r, s')"
    unfolding invoke_direct_def sbind_run[of next_invocation_id] next_invocation_id_run iid_def by simp
  then show ?thesis
  proof (cases rule: first_part_run[OF _ frames_share_inputs, consumes 1, case_names failed on])
    case (failed e)
    then show ?thesis by (auto simp: outcome_def ends_usable_def)
  next
    case (on inputs s1)
    let ?mappings = "input_mappings bi inputs" and ?dyn = "is_dynamic (bi_operation bi)"
    let ?ens = "if ?dyn then sbind (on_error (ensure_mapped_many w ?mappings iid) invalidated) (\<lambda>_. sret ()) else sret ()"
    obtain r2 s2 where e: "?ens s1 = (r2, s2)" by (metis surj_pair)
    have before: "se_log s1 = se_log s" "se_life s1 = se_life s" using on(3,4) by simp_all
    obtain d0 where d0: "se_log s2 = se_log s @ d0" "set d0 \<subseteq> preparing"
      "case r2 of Inl _ \<Rightarrow> se_life s2 = invalidate (se_life s) | Inr _ \<Rightarrow> se_life s2 = se_life s"
      using ensure_if_run[OF e] unfolding before by blast
    show ?thesis
    proof (cases r2)
      case (Inl err)
      then have "r = Inl err" "s' = s2" using on(2) e by (simp_all add: Let_def sbind_run[of ?ens])
      with d0 Inl show ?thesis by (auto simp: outcome_def)
    next
      case (Inr u)
      then have "se_life s2 = se_life s" using d0(3) by simp
      moreover have "sbind (after_error (prepare_outputs w bi inputs iid (if ?dyn then [] else ?mappings)) (abort_invocation w iid)) (\<lambda>outputs.
         sbind (on_error
            (sbind (slift (invocation_record (w_generation w) iid (om_operation_id (bi_operation bi)) inputs outputs bi False COMMAND_INVOKE))
               (\<lambda>command. ask (Submitted command) (w_invoke w))) invalidated) (\<lambda>(status, error_type, error_message).
         if status = STATUS_OPERATION_ERROR then sraise (OperationError error_type error_message)
         else if status \<noteq> STATUS_OK then sbind (smod invalidated) (\<lambda>_. sraise (RingError ''worker ring failure''))
         else sret outputs)) s2 = (r, s')"
        using on(2) e Inr by (simp add: Let_def sbind_run[of ?ens])
      ultimately show ?thesis unfolding iid_def[symmetric]
        by (rule dispatch_outcome[OF frames_prepare d0(1,2), where good = "\<lambda>(status, _, _). status = STATUS_OK"])
          (auto simp: st_run split: if_splits)
    qed
  qed
qed

lemma invoke_profiled_outcome:
  assumes "invoke_profiled w bi s = (r, s')"
  shows "outcome w (se_next s) bi True s r s'"
proof -
  define iid where "iid = se_next s"
  let ?s0 = "s\<lparr>se_next := snd (take_invocation_id iid)\<rparr>"
  let ?rest = "\<lambda>inputs. sbind (after_error (prepare_outputs w bi inputs iid []) (abort_invocation w iid)) (\<lambda>outputs.
     sbind (on_error
        (sbind (slift (invocation_record (w_generation w) iid (om_operation_id (bi_operation bi)) inputs outputs bi True COMMAND_INVOKE))
           (\<lambda>command. ask (Submitted command) (w_profiled w))) invalidated) (\<lambda>response.
     sbind (on_some_error is_ring_error (slift (raise_ring_error response)) invalidated) (\<lambda>_. sret outputs)))"
  from assms have "sbind (share_inputs w bi) (\<lambda>inputs.
     sbind (on_error (ensure_mapped_many w (input_mappings bi inputs) iid) invalidated) (\<lambda>_. ?rest inputs)) ?s0 = (r, s')"
    unfolding invoke_profiled_def sbind_run[of next_invocation_id] next_invocation_id_run iid_def by simp
  then show ?thesis
  proof (cases rule: first_part_run[OF _ frames_share_inputs, consumes 1, case_names failed on])
    case (failed e)
    then show ?thesis by (auto simp: outcome_def ends_usable_def)
  next
    case (on inputs s1)
    let ?ens = "on_error (ensure_mapped_many w (input_mappings bi inputs) iid) invalidated"
    obtain r2 s2 where e: "?ens s1 = (r2, s2)" by (metis surj_pair)
    from on_error_invalidated_run[OF frames_ensure e] obtain d0 where d0: "se_log s2 = se_log s1 @ d0" "set d0 \<subseteq> preparing"
      "case r2 of Inl e \<Rightarrow> se_life s2 = invalidate (se_life s1)
       | Inr x \<Rightarrow> se_life s2 = se_life s1 \<and> ensure_mapped_many w (input_mappings bi inputs) iid s1 = (Inr x, s2)" .
    have log: "se_log s2 = se_log s @ d0" using d0(1) on(3) by simp
    show ?thesis
    proof (cases r2)
      case (Inl err)
      then have "r = Inl err" "s' = s2" using on(2) e by (simp_all add: sbind_run[of ?ens])
      with log d0(3) on(4) Inl show ?thesis by (auto simp: outcome_def)
    next
      case (Inr u)
      then have "se_life s2 = se_life s" using d0(3) on(4) by simp
      moreover have "?rest inputs s2 = (r, s')" using on(2) e Inr by (simp add: sbind_run[of ?ens])
      ultimately show ?thesis unfolding iid_def[symmetric]
        by (rule dispatch_outcome[OF frames_prepare log d0(2), where good = "\<lambda>response. r_status response = STATUS_OK"])
          (auto simp: st_run on_some_error_def raise_ring_error_def is_ring_error_def split: if_splits)
    qed
  qed
qed

section \<open>A submitted invocation\<close>

lemma with_access_run:
  assumes "with_access bi body s = (r, s')"
  obtains (refused) e where "r = Inl e" "s' = s"
  | (ran) a s1 where "body (s\<lparr>se_log := se_log s @ [Reserved a]\<rparr>) = (r, s1)" "s' = s1\<lparr>se_log := se_log s1 @ [Released a]\<rparr>"
proof -
  obtain q where q: "invocation_lists (se_manager s) bi = q" by simp
  show thesis
  proof (cases q)
    case (Inl e)
    with assms q refused[of e] show thesis by (simp add: with_access_def st_run)
  next
    case (Inr rw)
    obtain reads writes where rw: "rw = (reads, writes)" by (metis surj_pair)
    show thesis
    proof (cases "m_closed (se_manager s)")
      case True
      with assms q Inr rw refused[of "RuntimeError ''Buffer manager is closed''"] show thesis by (simp add: with_access_def st_run)
    next
      case False
      show thesis
      proof (cases "collect_accesses (se_manager s) reads writes")
        case (Inl e)
        with assms q \<open>q = Inr rw\<close> rw False refused[of e] show thesis by (simp add: with_access_def st_run)
      next
        case (Inr a)
        obtain r1 s1 where "body (s\<lparr>se_log := se_log s @ [Reserved a]\<rparr>) = (r1, s1)" by (metis surj_pair)
        with assms q \<open>q = Inr rw\<close> rw False Inr ran[of a s1] show thesis
          by (simp add: with_access_def st_run always_def emit_def)
      qed
    qed
  qed
qed

text \<open>What a caller of \<open>submit_invocation\<close> sees, in terms of the events of the invocation itself.\<close>

lemma submit_invocation_outcome:
  assumes run: "submit_invocation w prof ops name args kwargs out s = (r, s')"
  obtains (refused) e where "r = Inl e" "e = RuntimeError ''Worker session is closed'' \<or> e = RuntimeError ''Worker session is not ready''" "s' = s"
  | (unbound) e where "r = Inl e" "se_log s' = se_log s" "se_life s' = se_life s"
  | (returned) op bi outs a d where "r = Inr outs" "map_of ops name = Some op" "bind_invocation (w_grad_enabled w) op args kwargs out = Inr bi"
      "se_log s' = se_log s @ [Reserved a] @ d @ [Released a]" "ends_well w (se_next s) bi prof (se_log s @ [Reserved a]) d outs" "se_life s' = se_life s"
  | (raised) e a d where "r = Inl e" "se_log s' = se_log s @ [Reserved a] @ d @ [Released a]" "ends_usable (se_next s) d e" "se_life s' = se_life s"
  | (broken) e a d where "r = Inl (WorkerTransportError e)" "se_log s' = se_log s @ [Reserved a] @ d @ [Released a]" "lc_closed (se_life s')" "lc_invalidated (se_life s')"
proof -
  obtain b l where b: "begin_call (se_life s) = (b, l)" by (metis surj_pair)
  show thesis
  proof (cases b)
    case (Inl e)
    then have "l = se_life s" "e = RuntimeError ''Worker session is closed'' \<or> e = RuntimeError ''Worker session is not ready''"
      using b by (auto simp: begin_call_def st_run split: if_splits)
    moreover have "r = Inl e" "s' = s\<lparr>se_life := l\<rparr>" using run b Inl by (simp_all add: submit_invocation_def)
    ultimately show thesis using refused[of e] by simp
  next
    case (Inr u)
    have l: "l = (se_life s)\<lparr>lc_active_calls := lc_active_calls (se_life s) + 1\<rparr>"
      and flags: "\<not> lc_closed (se_life s)" "\<not> lc_close_started (se_life s)" "\<not> lc_invalidated (se_life s)"
      using b Inr by (auto simp: begin_call_def st_run split: if_splits)
    have ended: "end_call l = se_life s" by (simp add: l end_call_def)
    let ?s0 = "s\<lparr>se_life := l\<rparr>"
    obtain r1 s1 where body: "bind_and_invoke w prof ops name args kwargs out ?s0 = (r1, s1)" by (metis surj_pair)
    have top: "(r, s') = (case r1 of Inr outs \<Rightarrow> (Inr outs, s1\<lparr>se_life := end_call (se_life s1)\<rparr>)
      | Inl e \<Rightarrow> if lc_invalidated (se_life s1) then (Inl (WorkerTransportError e), s1\<lparr>se_life := close_session (end_call (se_life s1))\<rparr>)
          else (Inl e, s1\<lparr>se_life := end_call (se_life s1)\<rparr>))"
      using run b Inr body by (simp add: submit_invocation_def)
    have plain: "thesis" if "r1 = Inl e" "s1 = ?s0" for e
      using top that ended l flags(3) unbound[of e] by simp
    show thesis
    proof (cases "map_of ops name")
      case None
      then have "r1 = Inl (KeyError ''operation'')" "s1 = ?s0" using body by (simp_all add: bind_and_invoke_def st_run)
      then show thesis by (rule plain)
    next
      case op: (Some op)
      show thesis
      proof (cases "bind_invocation (w_grad_enabled w) op args kwargs out")
        case (Inl e)
        then have "r1 = Inl e" "s1 = ?s0" using body op by (simp_all add: bind_and_invoke_def st_run)
        then show thesis by (rule plain)
      next
        case bi: (Inr bi)
        have "with_access bi (if prof then invoke_profiled w bi else invoke_direct w bi) ?s0 = (r1, s1)"
          using body op bi by (simp add: bind_and_invoke_def st_run)
        then show thesis
        proof (cases rule: with_access_run[consumes 1, case_names refused ran])
          case (refused e)
          then show thesis by (rule plain)
        next
          case (ran a s2)
          let ?s1 = "?s0\<lparr>se_log := se_log s @ [Reserved a]\<rparr>"
          have "(if prof then invoke_profiled w bi else invoke_direct w bi) ?s1 = (r1, s2)" using ran(1) by simp
          then have "outcome w (se_next ?s1) bi prof ?s1 r1 s2"
            using invoke_profiled_outcome[of w bi ?s1 r1 s2] invoke_direct_outcome[of w bi ?s1 r1 s2] by (cases prof) auto
          then obtain d where d: "se_log s2 = se_log s @ [Reserved a] @ d" and c: "case r1 of
              Inr outs \<Rightarrow> se_life s2 = l \<and> ends_well w (se_next s) bi prof (se_log s @ [Reserved a]) d outs
            | Inl e \<Rightarrow> se_life s2 = invalidate l \<or> se_life s2 = l \<and> ends_usable (se_next s) d e"
            by (cases r1) (auto simp: outcome_def)
          have log: "se_log s1 = se_log s @ [Reserved a] @ d @ [Released a]" "se_life s1 = se_life s2" using ran(2) d by simp_all
          show thesis
          proof (cases r1)
            case (Inr outs)
            with c log top ended returned[of outs op bi a d] op bi show thesis by simp
          next
            case (Inl e)
            with c consider "se_life s2 = invalidate l" | "se_life s2 = l" "ends_usable (se_next s) d e" by auto
            then show thesis
            proof cases
              case 1
              then have "lc_closed (close_session (end_call (se_life s1)))" "lc_invalidated (close_session (end_call (se_life s1)))"
                "lc_invalidated (se_life s1)"
                using log flags by (simp_all add: close_session_def lifecycle_defs l)
              with top Inl log(1) broken[of e a d] show thesis by simp
            next
              case 2
              with top Inl log ended l flags(3) raised[of e a d] show thesis by simp
            qed
          qed
        qed
      qed
    qed
  qed
qed

end
