(* ===== verification/Invocation_Path.thy ===== *)
theory Invocation_Path
  imports Worker_Laws Session_Laws
begin

text \<open>
  The two ends of an invocation together: the record a \<open>WorkerSession\<close> builds and the context in
  which the worker calls the handler for it.
\<close>

section \<open>The command as the worker reads it\<close>

lemma filter_inputs [simp]:
  "filter (\<lambda>t. t_kind t = k) (map (\<lambda>x. tensor_from_descriptor (f x) k' (g x) (w x)) xs)
     = (if k = k' then map (\<lambda>x. tensor_from_descriptor (f x) k' (g x) (w x)) xs else [])"
  by (induction xs) (simp_all add: tensor_from_descriptor_def)

lemma namespace_of_descriptor [simp]: "tensor_namespace (tensor_from_descriptor d k i w) = d"
  by (simp add: tensor_namespace_def tensor_from_descriptor_def)

lemma map_snd_numbered: "map (\<lambda>x. f (snd x)) (numbered xs) = map f xs"
proof -
  have "map (\<lambda>x. f (snd x)) (numbered xs) = map f (map snd (numbered xs))" by simp
  also have "map snd (numbered xs) = xs" by (simp add: numbered_def)
  finally show ?thesis .
qed

lemma scalar_arguments_numbered:
  fixes ps :: "ScalarParameter list"
  shows "scalar_arguments (map (\<lambda>(i, p, v). (i, sp_kind p, v)) (numbered (zip ps vs)))
     = scalar_records 0 (zip (map sp_kind ps) vs)"
proof -
  have "scalar_records 0 (map (\<lambda>(p, v). (sp_kind p, v)) xs)
      = scalar_arguments (map (\<lambda>(i, p, v). (i, sp_kind p, v)) (numbered xs))" for xs :: "(ScalarParameter \<times> sval) list"
    by (simp add: scalar_records_def scalar_arguments_def numbered_def zip_map2 case_prod_unfold)
  from this[of "zip ps vs"] show ?thesis by (simp add: zip_map1 case_prod_unfold)
qed

lemma record_of_invocation:
  assumes "invocation_record g iid oid inputs outputs bi prof k = Inr command"
  shows "record_invocation True command = \<lparr>iv_invocation_id = iid, iv_operation_id = oid, iv_inputs = map snd inputs,
      iv_outputs = map snd outputs,
      iv_scalars = scalar_records 0 (zip (map sp_kind (scalar_parameters (bi_operation bi))) (bi_scalars bi))\<rparr>"
    and "r_kind command = k" "r_invocation_id command = iid" "r_generation command = g" "r_operation_id command = oid"
    and "length inputs = length (bi_tensor_inputs bi)"
    and "length (scalar_parameters (bi_operation bi)) = length (bi_scalars bi)"
proof -
  have ne: "TENSOR_INPUT \<noteq> TENSOR_OUTPUT" by (simp add: TENSOR_INPUT_def TENSOR_OUTPUT_def)
  from assms show "r_kind command = k" "r_invocation_id command = iid" "r_generation command = g" "r_operation_id command = oid"
    and l: "length inputs = length (bi_tensor_inputs bi)"
    and "length (scalar_parameters (bi_operation bi)) = length (bi_scalars bi)"
    by (auto simp: invocation_record_def split: if_splits)
  have ins: "map (\<lambda>x. snd (fst (snd x))) (numbered (zip inputs (bi_tensor_inputs bi))) = map snd inputs"
    using map_snd_numbered[of "\<lambda>y. snd (fst y)" "zip inputs (bi_tensor_inputs bi)"] l
    by (simp add: map_fst_zip flip: map_map[of snd fst, unfolded comp_def])
  have outs: "map (\<lambda>x. snd (snd x)) (numbered outputs) = map snd outputs"
    by (rule map_snd_numbered)
  from assms ins outs ne show "record_invocation True command = \<lparr>iv_invocation_id = iid, iv_operation_id = oid,
      iv_inputs = map snd inputs, iv_outputs = map snd outputs,
      iv_scalars = scalar_records 0 (zip (map sp_kind (scalar_parameters (bi_operation bi))) (bi_scalars bi))\<rparr>"
    by (auto simp: invocation_record_def record_invocation_def scalar_arguments_numbered[unfolded case_prod_unfold] case_prod_unfold comp_def
        split: if_splits)
qed

lemma receiver_holds: "receiver_reachable host s \<Longrightarrow> holds_buffers host (bare_buffers s) s"
  by (simp add: holds_buffers_def receiver_reachable_ok)

text \<open>The context of a session's command.\<close>

lemma context_of_session:
  assumes r: "invocation_record g iid (om_operation_id (bi_operation bi)) inputs outputs bi prof k = Inr command"
    and ops: "map_of ops (om_operation_id (bi_operation bi)) = Some (compiled_operation (bi_operation bi) h)"
    and c: "context_of host torch bufs ops (record_invocation True command) op cx"
  shows "wo_handler op = h \<and> cx_operation cx = bi_operation bi \<and> cx_invocation_id cx = iid \<and> cx_scalars cx = bi_scalars bi \<and>
    list_all2 (viewed host bufs iid)
      (map (\<lambda>(d, p). (d, tp_access p = ''readWrite'')) (zip (map snd inputs) (tensor_inputs (bi_operation bi)))) (cx_inputs cx) \<and>
    list_all2 (viewed host bufs iid) (map (\<lambda>d. (d, True)) (map snd outputs)) (cx_outputs cx)"
proof -
  note R = record_of_invocation[OF r]
  have op: "op = compiled_operation (bi_operation bi) h"
    using c ops R(1) by (simp add: context_of_def)
  have "decode_scalars (scalar_records 0 (zip (map sp_kind (scalar_parameters (bi_operation bi))) (bi_scalars bi)))
      (map sp_kind (scalar_parameters (bi_operation bi))) = Inr (bi_scalars bi)"
    using decode_scalar_records[of "zip (map sp_kind (scalar_parameters (bi_operation bi))) (bi_scalars bi)"] R(7) by simp
  with c R(1) op have s: "cx_scalars cx = bi_scalars bi" by (simp add: context_of_def compiled_operation_def)
  have "make_context torch (bi_operation bi) iid (cx_inputs cx) (cx_outputs cx) (cx_scalars cx) = Inr cx"
    using c R(1) op by (simp add: context_of_def compiled_operation_def)
  from arg_cong[OF make_context_Inr[OF this], of cx_operation] arg_cong[OF make_context_Inr[OF this], of cx_invocation_id]
  have "cx_operation cx = bi_operation bi" "cx_invocation_id cx = iid" by simp_all
  with s c R(1) op show ?thesis
    by (auto simp: context_of_def compiled_operation_def zip_map2 case_prod_unfold comp_def)
qed

end
