(* ===== verification/Json.thy ===== *)
theory Json
  imports Utf8 "HOL-Library.List_Lexorder"
begin

text \<open>
  JSON values as Python holds them, and \<open>json.dumps\<close> with \<open>allow_nan=False\<close>,
  \<open>separators=(",", ":")\<close> and \<open>sort_keys=True\<close>, the form in which configurations and metadata are
  hashed and sent. Text is a list of code points.

  \<open>JList\<close> is a list or tuple and \<open>JObject\<close> a dict or other mapping, in insertion order;
  \<open>KOther\<close> is a key that is not a string and \<open>JOther\<close> any other object. The \<open>repr\<close> of a float is an
  argument. Python's limit on the depth of recursion is not modelled.
\<close>

datatype jkey = KStr ustr | KOther int

datatype jval =
    JNull | JBool bool | JInt int | JFloat "64 word" | JStr ustr
  | JList "jval list" | JObject "(jkey \<times> jval) list" | JOther nat

definition text_of :: "string \<Rightarrow> ustr" where
  "text_of s = map of_char s"

section \<open>Numbers\<close>

text \<open>Finiteness and the exact value of a binary64, for comparisons.\<close>

definition float_exponent :: "64 word \<Rightarrow> nat" where
  "float_exponent w = unat w div 2 ^ 52 mod 2048"

definition float_finite :: "64 word \<Rightarrow> bool" where
  "float_finite w \<longleftrightarrow> float_exponent w < 2047"

text \<open>The value in units of \<open>2 ^ -1075\<close>.\<close>

definition float_scaled :: "64 word \<Rightarrow> int" where
  "float_scaled w =
     (let m = int (unat w) mod 2 ^ 52; e = float_exponent w;
          v = (if e = 0 then m * 2 else (2 ^ 52 + m) * 2 ^ e)
      in if 2 ^ 63 \<le> unat w then - v else v)"

definition int_scaled :: "int \<Rightarrow> int" where
  "int_scaled i = i * 2 ^ 1075"

fun decimal :: "nat \<Rightarrow> ustr" where
  "decimal n = (if n < 10 then [48 + n] else decimal (n div 10) @ [48 + n mod 10])"

declare decimal.simps [simp del]

definition int_repr :: "int \<Rightarrow> ustr" where
  "int_repr i = (if i < 0 then 45 # decimal (nat (- i)) else decimal (nat i))"

text \<open>\<open>int.__repr__\<close> refuses more than 4300 digits.\<close>

definition int_text :: "int \<Rightarrow> ustr result" where
  "int_text i =
     (if 4300 < length (decimal (nat \<bar>i\<bar>)) then Inl (ValueError ''Exceeds the limit for integer string conversion'')
      else Inr (int_repr i))"

section \<open>Strings\<close>

definition hex_digit :: "nat \<Rightarrow> nat" where
  "hex_digit n = (if n < 10 then 48 + n else 87 + n)"

definition u_escape :: "nat \<Rightarrow> ustr" where
  "u_escape n = [92, 117, hex_digit (n div 4096 mod 16), hex_digit (n div 256 mod 16), hex_digit (n div 16 mod 16), hex_digit (n mod 16)]"

text \<open>The two encoders of a string: all but printable ASCII escaped, or only what must be.\<close>

definition escape_char :: "bool \<Rightarrow> nat \<Rightarrow> ustr" where
  "escape_char ascii c =
     (if c = 34 then [92, 34] else if c = 92 then [92, 92] else if c = 10 then [92, 110] else if c = 13 then [92, 114]
      else if c = 9 then [92, 116] else if c = 12 then [92, 102] else if c = 8 then [92, 98]
      else if c < 32 then u_escape c
      else if ascii \<and> 126 < c
      then (if c < 0x10000 then u_escape c
            else u_escape (0xD800 + (c - 0x10000) div 1024 mod 1024) @ u_escape (0xDC00 + (c - 0x10000) mod 1024))
      else [c])"

definition quote :: "bool \<Rightarrow> ustr \<Rightarrow> ustr" where
  "quote ascii s = [34] @ concat (map (escape_char ascii) s) @ [34]"

section \<open>Values\<close>

fun commas :: "ustr list \<Rightarrow> ustr" where
  "commas [] = []"
| "commas [s] = s"
| "commas (s # ss) = s @ [44] @ commas ss"

text \<open>The items are encoded in insertion order here and sorted after; only which of two errors is
  raised could differ.\<close>

fun dumps :: "(64 word \<Rightarrow> ustr) \<Rightarrow> bool \<Rightarrow> jval \<Rightarrow> ustr result" where
  "dumps fr ascii JNull = Inr (text_of ''null'')"
| "dumps fr ascii (JBool b) = Inr (if b then text_of ''true'' else text_of ''false'')"
| "dumps fr ascii (JInt i) = int_text i"
| "dumps fr ascii (JFloat w) =
     (if float_finite w then Inr (fr w) else Inl (ValueError ''Out of range float values are not JSON compliant''))"
| "dumps fr ascii (JStr s) = Inr (quote ascii s)"
| "dumps fr ascii (JList vs) = ebind (emap (dumps fr ascii) vs) (\<lambda>ss. Inr ([91] @ commas ss @ [93]))"
| "dumps fr ascii (JObject kvs) =
     ebind (emap (\<lambda>(k, v). case k of
         KOther _ \<Rightarrow> Inl OutsideModel
       | KStr t \<Rightarrow> ebind (dumps fr ascii v) (\<lambda>s. Inr (t, s))) kvs) (\<lambda>ts.
     Inr ([123] @ commas (map (\<lambda>(t, s). quote ascii t @ [58] @ s) (sort_key fst ts)) @ [125]))"
| "dumps fr ascii (JOther n) = Inl (TypeError ''Object is not JSON serializable'')"

end
