(* ===== verification/Json_Laws.thy ===== *)
theory Json_Laws
  imports Json
begin

text \<open>
  The canonical text of a JSON value determines the value: two values have the same text exactly
  when they are the same up to the order of the keys of their objects.
\<close>

section \<open>Strings\<close>

definition unhex :: "nat \<Rightarrow> nat" where
  "unhex n = (if n < 58 then n - 48 else n - 87)"

definition hex4 :: "nat \<Rightarrow> nat \<Rightarrow> nat \<Rightarrow> nat \<Rightarrow> nat" where
  "hex4 a b c d = unhex a * 4096 + unhex b * 256 + unhex c * 16 + unhex d"

text \<open>Reading back one escaped character.\<close>

fun read_u :: "ustr \<Rightarrow> nat \<times> ustr" where
  "read_u (a # b # c # d # r) = (hex4 a b c d, r)"
| "read_u r = (0, r)"

definition next_char :: "ustr \<Rightarrow> nat \<times> ustr" where
  "next_char s =
     (if hd s \<noteq> 92 then (hd s, tl s)
      else let e = hd (tl s); r = tl (tl s) in
        if e = 110 then (10, r) else if e = 114 then (13, r) else if e = 116 then (9, r) else if e = 102 then (12, r)
        else if e = 98 then (8, r) else if e \<noteq> 117 then (e, r)
        else let (n, r') = read_u r in
          if 0xD800 \<le> n \<and> n < 0xDC00
          then let (m, r'') = read_u (tl (tl r')) in (0x10000 + (n - 0xD800) * 1024 + (m - 0xDC00), r'')
          else (n, r'))"

lemma unhex_digit: "n < 16 \<Longrightarrow> unhex (hex_digit n) = n"
  by (simp add: unhex_def hex_digit_def)

lemma hex_join:
  assumes "(n :: nat) < 65536"
  shows "n div 4096 mod 16 * 4096 + n div 256 mod 16 * 256 + n div 16 mod 16 * 16 + n mod 16 = n"
proof -
  have "n div 256 = n div 16 div 16" "n div 4096 = n div 16 div 16 div 16" by (simp_all flip: div_mult2_eq)
  moreover have "n div 4096 mod 16 = n div 4096" using assms by (simp add: less_mult_imp_div_less)
  moreover have "z * 4096 + a * 256 + b * 16 + c = ((z * 16 + a) * 16 + b) * 16 + c" for z a b c :: nat by simp
  ultimately show ?thesis by (simp only: div_mult_mod_eq)
qed

lemma read_u_escape: "n < 65536 \<Longrightarrow> read_u (tl (tl (u_escape n @ r))) = (n, r)"
  using hex_join[of n] by (simp add: u_escape_def hex4_def unhex_digit)

definition encodable :: "bool \<Rightarrow> nat \<Rightarrow> bool" where
  "encodable ascii c \<longleftrightarrow> c < 0x110000 \<and> (ascii \<longrightarrow> \<not> (0xD800 \<le> c \<and> c < 0xE000))"

lemma next_char_u:
  "n < 65536 \<Longrightarrow> \<not> (0xD800 \<le> n \<and> n < 0xDC00) \<Longrightarrow> next_char (u_escape n @ r) = (n, r)"
  "n < 65536 \<Longrightarrow> m < 65536 \<Longrightarrow> 0xD800 \<le> n \<Longrightarrow> n < 0xDC00 \<Longrightarrow>
     next_char (u_escape n @ u_escape m @ r) = (0x10000 + (n - 0xD800) * 1024 + (m - 0xDC00), r)"
proof -
  have e: "hd (u_escape n @ x) = 92" "hd (tl (u_escape n @ x)) = 117" for n x by (simp_all add: u_escape_def)
  show "next_char (u_escape n @ r) = (n, r)" if "n < 65536" "\<not> (0xD800 \<le> n \<and> n < 0xDC00)"
    using that e read_u_escape[OF that(1), of r] by (auto simp: next_char_def Let_def simp del: tl_append2)
  show "next_char (u_escape n @ u_escape m @ r) = (0x10000 + (n - 0xD800) * 1024 + (m - 0xDC00), r)"
    if "n < 65536" "m < 65536" "0xD800 \<le> n" "n < 0xDC00"
    using that e read_u_escape[OF that(1), of "u_escape m @ r"] read_u_escape[OF that(2), of r]
    by (simp add: next_char_def Let_def del: tl_append2)
qed

lemma next_char_escape:
  assumes "encodable ascii c"
  shows "next_char (escape_char ascii c @ r) = (c, r)"
proof -
  have pair: "next_char (u_escape (0xD800 + (c - 0x10000) div 1024 mod 1024) @ u_escape (0xDC00 + (c - 0x10000) mod 1024) @ r) = (c, r)"
    if "0x10000 \<le> c" "c < 0x110000"
  proof -
    define a b where "a = (c - 0x10000) div 1024 mod 1024" and "b = (c - 0x10000) mod 1024"
    have ab: "a < 1024" "b < 1024" by (simp_all add: a_def b_def)
    have "(c - 0x10000) div 1024 < 1024" using that by (simp add: less_mult_imp_div_less)
    then have "a * 1024 + b = c - 0x10000" by (simp add: a_def b_def)
    then have c: "0x10000 + a * 1024 + b = c" using that by linarith
    have "next_char (u_escape (0xD800 + a) @ u_escape (0xDC00 + b) @ r)
        = (0x10000 + (0xD800 + a - 0xD800) * 1024 + (0xDC00 + b - 0xDC00), r)"
      by (rule next_char_u(2)) (use ab in linarith)+
    then show ?thesis unfolding a_def[symmetric] b_def[symmetric] by (simp only: add_diff_cancel_left' c)
  qed
  consider "c \<in> {34, 92, 10, 13, 9, 12, 8}" | "c \<notin> {34, 92, 10, 13, 9, 12, 8}" "c < 32"
    | "c \<notin> {34, 92, 10, 13, 9, 12, 8}" "\<not> c < 32" "ascii \<and> 126 < c" | "c \<notin> {34, 92, 10, 13, 9, 12, 8}" "\<not> c < 32" "\<not> (ascii \<and> 126 < c)"
    by blast
  then show ?thesis
  proof cases
    case 1
    then show ?thesis by (elim insertE emptyE; hypsubst; simp add: escape_char_def next_char_def)
  next
    case 2
    then have "escape_char ascii c = u_escape c" by (simp add: escape_char_def)
    then show ?thesis using 2 next_char_u(1)[of c r] by simp
  next
    case 3
    then have "escape_char ascii c = (if c < 0x10000 then u_escape c
        else u_escape (0xD800 + (c - 0x10000) div 1024 mod 1024) @ u_escape (0xDC00 + (c - 0x10000) mod 1024))"
      by (simp add: escape_char_def)
    then show ?thesis using 3 assms next_char_u(1)[of c r] pair by (auto simp: encodable_def)
  next
    case 4
    then have "escape_char ascii c = [c]" by (auto simp: escape_char_def)
    with 4 show ?thesis by (simp add: next_char_def)
  qed
qed

lemma escape_char_not_quote: "\<exists>x xs. escape_char ascii c = x # xs \<and> x \<noteq> 34"
  by (auto simp: escape_char_def u_escape_def)

lemma quote_prefix:
  assumes "list_all (encodable ascii) s" "list_all (encodable ascii) t" "quote ascii s @ r = quote ascii t @ r'"
  shows "s = t \<and> r = r'"
proof -
  have "concat (map (escape_char ascii) s) @ 34 # r = concat (map (escape_char ascii) t) @ 34 # r' \<Longrightarrow> s = t \<and> r = r'"
    if "list_all (encodable ascii) s" "list_all (encodable ascii) t" for s t
    using that
  proof (induction s arbitrary: t)
    case Nil
    then show ?case
    proof (cases t)
      case (Cons c t')
      with Nil escape_char_not_quote[of ascii c] show ?thesis by auto
    qed simp
  next
    case (Cons c s)
    show ?case
    proof (cases t)
      case Nil
      with Cons.prems escape_char_not_quote[of ascii c] show ?thesis by auto
    next
      case t: (Cons d t')
      with Cons.prems have eq: "escape_char ascii c @ concat (map (escape_char ascii) s) @ 34 # r
          = escape_char ascii d @ concat (map (escape_char ascii) t') @ 34 # r'" by simp
      have ok: "encodable ascii c" "encodable ascii d" using Cons.prems t by simp_all
      from arg_cong[OF eq, of next_char, unfolded next_char_escape[OF ok(1)] next_char_escape[OF ok(2)]]
      have "c = d" "concat (map (escape_char ascii) s) @ 34 # r = concat (map (escape_char ascii) t') @ 34 # r'"
        by simp_all
      with Cons.IH[of t'] Cons.prems t show ?thesis by simp
    qed
  qed
  with assms show ?thesis by (simp add: quote_def)
qed

section \<open>Numbers\<close>

definition number_char :: "nat \<Rightarrow> bool" where
  "number_char c \<longleftrightarrow> (48 \<le> c \<and> c \<le> 57) \<or> c \<in> {43, 45, 46, 101}"

text \<open>What is used of \<open>float.__repr__\<close> on finite floats: its characters, that it shows a fraction or
  an exponent, and that it determines the float.\<close>

definition float_repr_ok :: "(64 word \<Rightarrow> ustr) \<Rightarrow> bool" where
  "float_repr_ok fr \<longleftrightarrow> inj_on fr {w. float_finite w} \<and>
     (\<forall>w. float_finite w \<longrightarrow> fr w \<noteq> [] \<and> list_all number_char (fr w) \<and> (46 \<in> set (fr w) \<or> 101 \<in> set (fr w)))"

definition undecimal :: "ustr \<Rightarrow> nat" where
  "undecimal s = foldl (\<lambda>n c. n * 10 + (c - 48)) 0 s"

lemma undecimal_decimal: "undecimal (decimal n) = n"
proof (induction n rule: decimal.induct)
  case (1 n)
  show ?case
  proof (cases "n < 10")
    case False
    with 1 have "undecimal (decimal (n div 10)) = n div 10" by blast
    with False show ?thesis by (simp add: undecimal_def decimal.simps[of n])
  qed (simp add: undecimal_def decimal.simps[of n])
qed

lemma decimal_chars: "decimal n \<noteq> [] \<and> list_all (\<lambda>c. 48 \<le> c \<and> c \<le> 57) (decimal n)"
proof (induction n rule: decimal.induct)
  case (1 n)
  then show ?case by (cases "n < 10") (simp_all add: decimal.simps[of n])
qed

lemma int_repr_chars: "int_repr i \<noteq> [] \<and> list_all (\<lambda>c. (48 \<le> c \<and> c \<le> 57) \<or> c = 45) (int_repr i)"
proof -
  have "list_all (\<lambda>c. (48 \<le> c \<and> c \<le> 57) \<or> c = 45) (decimal n)" for n
    using decimal_chars[of n] by (auto simp: list_all_iff)
  then show ?thesis using decimal_chars by (simp add: int_repr_def)
qed

lemma int_repr_inj: "int_repr i = int_repr j \<Longrightarrow> i = j"
proof -
  have hd: "hd (decimal n) \<noteq> 45" for n
    using decimal_chars[of n] by (cases "decimal n") auto
  have neq: "45 # xs \<noteq> decimal n" for xs n using hd[of n] by (metis list.sel(1))
  have dec: "decimal m = decimal n \<Longrightarrow> m = n" for m n using undecimal_decimal by metis
  assume eq: "int_repr i = int_repr j"
  show "i = j"
  proof (cases "i < 0"; cases "j < 0")
    assume "i < 0" "j < 0"
    with eq dec[of "nat (- i)" "nat (- j)"] show ?thesis by (simp add: int_repr_def)
  next
    assume "\<not> i < 0" "\<not> j < 0"
    with eq dec[of "nat i" "nat j"] show ?thesis by (simp add: int_repr_def)
  qed (use eq neq neq[symmetric] in \<open>simp_all add: int_repr_def\<close>)
qed

section \<open>Texts are a prefix code\<close>

definition delimited :: "ustr \<Rightarrow> bool" where
  "delimited r \<longleftrightarrow> r = [] \<or> hd r \<in> {44, 93, 125}"

lemma number_run:
  assumes "list_all number_char a" "list_all number_char b" "delimited r" "delimited r'" "a @ r = b @ r'"
  shows "a = b"
proof -
  have "takeWhile number_char (x @ y) = x" if "list_all number_char x" "delimited y" for x y
  proof -
    have "takeWhile number_char y = []" using that(2) by (cases y) (auto simp: delimited_def number_char_def)
    with that(1) show ?thesis by (simp add: takeWhile_append2 list_all_iff)
  qed
  from this[OF assms(1,3)] this[OF assms(2,4)] show ?thesis using assms(5) by simp
qed

text \<open>Lists of items between brackets.\<close>

lemma commas_prefix:
  assumes "\<And>a b r r'. a \<in> set as \<Longrightarrow> b \<in> set bs \<Longrightarrow> delimited r \<Longrightarrow> delimited r' \<Longrightarrow> a @ r = b @ r' \<Longrightarrow> a = b"
    and "\<And>a. a \<in> set as \<union> set bs \<Longrightarrow> a \<noteq> [] \<and> hd a \<noteq> c" and "c \<in> {93, 125}"
    and "commas as @ c # r = commas bs @ c # r'"
  shows "as = bs"
  using assms
proof (induction as arbitrary: bs rule: commas.induct)
  case 1
  then show ?case
  proof (cases bs rule: commas.cases)
    case (2 b)
    with 1 have "b \<noteq> [] \<and> hd b \<noteq> c" "[c] @ r = b @ c # r'" by auto
    then show ?thesis by (cases b) auto
  next
    case (3 b b' bs')
    with 1 have "b \<noteq> [] \<and> hd b \<noteq> c" "[c] @ r = b @ 44 # commas (b' # bs') @ c # r'" by auto
    then show ?thesis by (cases b) auto
  qed simp
next
  case (2 a)
  have d: "delimited (c # x)" "delimited (44 # x)" for x using 2 by (auto simp: delimited_def)
  show ?case
  proof (cases bs rule: commas.cases)
    case 1
    with 2 have "a \<noteq> [] \<and> hd a \<noteq> c" "a @ c # r = c # r'" by auto
    then show ?thesis by (cases a) auto
  next
    case (2 b)
    with "2.prems" d have "a = b" by (metis commas.simps(2) list.set_intros(1))
    with 2 show ?thesis by simp
  next
    case (3 b b' bs')
    then have eq: "a @ c # r = b @ 44 # commas (b' # bs') @ c # r'" using "2.prems"(4) by simp
    have "a = b" by (rule "2.prems"(1)[OF _ _ d(1) d(2) eq]) (simp_all add: 3)
    with eq "2.prems"(3) show ?thesis by auto
  qed
next
  case (3 a a' as)
  have d: "delimited (c # x)" "delimited (44 # x)" for x using "3.prems"(3) by (auto simp: delimited_def)
  show ?case
  proof (cases bs rule: commas.cases)
    case 1
    with "3.prems"(2)[of a] "3.prems"(4) have "a \<noteq> [] \<and> hd a \<noteq> c" "a @ 44 # commas (a' # as) @ c # r = c # r'" by simp_all
    then show ?thesis by (cases a) auto
  next
    case (2 b)
    then have eq: "a @ 44 # commas (a' # as) @ c # r = b @ c # r'" using "3.prems"(4) by simp
    have "a = b" by (rule "3.prems"(1)[OF _ _ d(2) d(1) eq]) (simp_all add: 2)
    with eq "3.prems"(3) show ?thesis by auto
  next
    case (3 b b' bs')
    then have eq: "a @ 44 # commas (a' # as) @ c # r = b @ 44 # commas (b' # bs') @ c # r'" using "3.prems"(4) by simp
    have ab: "a = b" by (rule "3.prems"(1)[OF _ _ d(2) d(2) eq]) (simp_all add: 3)
    with eq have "commas (a' # as) @ c # r = commas (b' # bs') @ c # r'" by simp
    then have "a' # as = b' # bs'"
    proof (rule "3.IH"[rotated 3])
      show "c \<in> {93, 125}" by (rule "3.prems"(3))
      show "x \<noteq> [] \<and> hd x \<noteq> c" if "x \<in> set (a' # as) \<union> set (b' # bs')" for x
        by (rule "3.prems"(2)) (use that 3 in auto)
      show "x = y" if "x \<in> set (a' # as)" "y \<in> set (b' # bs')" "delimited s" "delimited s'" "x @ s = y @ s'" for x y s s'
        by (rule "3.prems"(1)[OF _ _ that(3-5)]) (use that 3 in auto)
    qed
    with ab 3 show ?thesis by simp
  qed
qed

section \<open>Values\<close>

text \<open>What Python's dicts and strings guarantee: no key twice, code points that can be encoded.\<close>

fun well :: "bool \<Rightarrow> jval \<Rightarrow> bool" where
  "well ascii (JStr s) \<longleftrightarrow> list_all (encodable ascii) s"
| "well ascii (JList vs) \<longleftrightarrow> (\<forall>v \<in> set vs. well ascii v)"
| "well ascii (JObject kvs) \<longleftrightarrow> distinct (map fst kvs) \<and>
     (\<forall>(k, v) \<in> set kvs. (case k of KStr t \<Rightarrow> list_all (encodable ascii) t | KOther _ \<Rightarrow> False) \<and> well ascii v)"
| "well ascii _ \<longleftrightarrow> True"

text \<open>The same value up to the order of keys; numbers of different types differ.\<close>

fun same_json :: "jval \<Rightarrow> jval \<Rightarrow> bool" where
  "same_json (JList vs) w \<longleftrightarrow> (case w of JList ws \<Rightarrow> list_all2 same_json vs ws | _ \<Rightarrow> False)"
| "same_json (JObject kvs) w \<longleftrightarrow> (case w of
     JObject lws \<Rightarrow> fst ` set kvs = fst ` set lws \<and>
       (\<forall>(k, v) \<in> set kvs. \<forall>(l, w) \<in> set lws. k = l \<longrightarrow> same_json v w)
   | _ \<Rightarrow> False)"
| "same_json v w \<longleftrightarrow> v = w"

definition item_text :: "bool \<Rightarrow> ustr \<times> ustr \<Rightarrow> ustr" where
  "item_text ascii = (\<lambda>(t, s). quote ascii t @ [58] @ s)"

lemma dumps_list: "dumps fr ascii (JList vs) = Inr s \<longleftrightarrow>
    (\<exists>ss. list_all2 (\<lambda>v s. dumps fr ascii v = Inr s) vs ss \<and> s = [91] @ commas ss @ [93])"
  by (auto simp: err_simps emap_eq_Inr)

lemma dumps_object: "dumps fr ascii (JObject kvs) = Inr s \<longleftrightarrow>
    (\<exists>ts. list_all2 (\<lambda>(k, v) (t, s). k = KStr t \<and> dumps fr ascii v = Inr s) kvs ts \<and>
       s = [123] @ commas (map (item_text ascii) (sort_key fst ts)) @ [125])"
proof -
  have "(case k of KOther n \<Rightarrow> Inl OutsideModel | KStr t \<Rightarrow> ebind (dumps fr ascii v) (\<lambda>s. Inr (t, s))) = Inr p \<longleftrightarrow>
      (case p of (t, s) \<Rightarrow> k = KStr t \<and> dumps fr ascii v = Inr s)" for k v p
    by (cases p; cases k) (auto simp: err_simps)
  then show ?thesis by (auto simp: err_simps emap_eq_Inr item_text_def case_prod_unfold)
qed

lemma dumps_shape:
  assumes "float_repr_ok fr" "dumps fr ascii v = Inr s"
  shows "s \<noteq> [] \<and> (case v of JNull \<Rightarrow> s = text_of ''null'' | JBool b \<Rightarrow> s = (if b then text_of ''true'' else text_of ''false'')
     | JInt i \<Rightarrow> s = int_repr i \<and> list_all number_char s | JFloat w \<Rightarrow> float_finite w \<and> s = fr w \<and> list_all number_char s
     | JStr t \<Rightarrow> hd s = 34 | JList vs \<Rightarrow> hd s = 91 | JObject kvs \<Rightarrow> hd s = 123 | JOther n \<Rightarrow> False)"
proof (cases v)
  case (JInt i)
  then show ?thesis using assms(2) int_repr_chars[of i]
    by (auto simp: int_text_def number_char_def list_all_iff split: if_splits)
next
  case (JFloat w)
  then show ?thesis using assms by (auto simp: float_repr_ok_def split: if_splits)
next
  case (JList vs)
  then show ?thesis using assms(2) unfolding JList dumps_list by auto
next
  case (JObject kvs)
  then show ?thesis using assms(2) unfolding JObject dumps_object by auto
qed (use assms(2) in \<open>auto simp: text_of_def quote_def split: if_splits\<close>)

lemma first_char: "s @ r = s' @ r' \<Longrightarrow> s \<noteq> [] \<Longrightarrow> s' \<noteq> [] \<Longrightarrow> hd s = hd s'"
  by (metis hd_append2)

lemma number_first: "s \<noteq> [] \<Longrightarrow> list_all number_char s \<Longrightarrow> number_char (hd s)"
  by (cases s) auto

lemma scalar_prefix:
  assumes "float_repr_ok fr" "dumps fr ascii v = Inr s" "dumps fr ascii w = Inr s'" "well ascii v" "well ascii w"
    and "delimited r" "delimited r'" "s @ r = s' @ r'"
    and "\<forall>vs. v \<noteq> JList vs" "\<forall>kvs. v \<noteq> JObject kvs"
  shows "v = w \<and> s = s'"
proof -
  note S = dumps_shape[OF assms(1,2)] and T = dumps_shape[OF assms(1,3)]
  have h: "hd s = hd s'" using first_char[OF assms(8)] S T by simp
  have n: "\<not> number_char 110" "\<not> number_char 116" "\<not> number_char 102" "\<not> number_char 34" "\<not> number_char 91" "\<not> number_char 123"
    by (simp_all add: number_char_def)
  have num: "s = s'" if "list_all number_char s" "list_all number_char s'"
    by (rule number_run[OF that assms(6-8)])
  have mixed: "int_repr i \<noteq> fr x" if "float_finite x" for i x
  proof
    assume eq: "int_repr i = fr x"
    have "46 \<in> set (int_repr i) \<or> 101 \<in> set (int_repr i)" using assms(1) that by (simp add: float_repr_ok_def eq)
    with int_repr_chars[of i] show False by (auto simp: list_all_iff)
  qed
  have inj: "x = y" if "fr x = fr y" "float_finite x" "float_finite y" for x y
    using assms(1) that by (auto simp: float_repr_ok_def inj_on_def)
  show ?thesis
  proof (cases v)
    case (JInt i)
    then show ?thesis using S T h n num mixed int_repr_inj[of i] number_first[of s] by (cases w) (auto simp: text_of_def split: if_splits)
  next
    case (JFloat x)
    then show ?thesis using S T h n num mixed[of x, THEN not_sym] inj[of x] number_first[of s] by (cases w) (auto simp: text_of_def split: if_splits)
  next
    case (JStr t)
    then have "hd s' = 34" using S h by simp
    then obtain t' where w: "w = JStr t'"
      using T n number_first[of s'] by (cases w) (auto simp: text_of_def split: if_splits)
    have "s = quote ascii t" "s' = quote ascii t'" using assms(2,3) JStr w by simp_all
    with quote_prefix[of ascii t t' r r'] assms(4,5,8) JStr w show ?thesis by simp
  qed (use S T h n number_first[of s'] assms(9,10) in \<open>cases w; auto simp: text_of_def split: if_splits\<close>)+
qed

lemma scalar_same:
  assumes "float_repr_ok fr" "dumps fr ascii v = Inr s" "dumps fr ascii w = Inr s'" "well ascii v" "well ascii w"
    and "delimited r" "delimited r'" "s @ r = s' @ r'"
    and "\<forall>vs. v \<noteq> JList vs" "\<forall>kvs. v \<noteq> JObject kvs"
  shows "same_json v w \<and> s = s'"
  using scalar_prefix[OF assms] assms(9,10) by (cases v) auto

lemma list_all2_member: "list_all2 P xs ys \<Longrightarrow> y \<in> set ys \<Longrightarrow> \<exists>x \<in> set xs. P x y"
  by (induction rule: list_all2_induct) auto

lemma list_all2_member': "list_all2 P xs ys \<Longrightarrow> x \<in> set xs \<Longrightarrow> \<exists>y \<in> set ys. P x y"
  by (induction rule: list_all2_induct) auto

lemma item_text_prefix:
  assumes "list_all (encodable ascii) t" "list_all (encodable ascii) t'" "item_text ascii (t, s) @ r = item_text ascii (t', s') @ r'"
  shows "t = t' \<and> s @ r = s' @ r'"
  using assms quote_prefix[of ascii t t' "[58] @ s @ r" "[58] @ s' @ r'"] by (simp add: item_text_def)

lemma sort_fst_unique:
  assumes "set xs = set ys" "distinct (map fst xs)" "distinct (map fst ys)"
  shows "sort_key fst xs = sort_key fst ys"
proof -
  have "distinct (map fst (sort_key fst xs))" "distinct (map fst (sort_key fst ys))"
    using assms(2,3) by (simp_all add: distinct_map)
  moreover have "inj_on fst (set (sort_key fst xs) \<union> set (sort_key fst ys))" using assms by (simp add: distinct_map)
  ultimately show ?thesis
    using map_sorted_distinct_set_unique[of fst "sort_key fst xs" "sort_key fst ys"] assms(1) by simp
qed

lemma dumps_prefix:
  assumes fr: "float_repr_ok fr"
  shows "\<lbrakk>dumps fr ascii v = Inr s; dumps fr ascii w = Inr s'; well ascii v; well ascii w; delimited r; delimited r'; s @ r = s' @ r'\<rbrakk>
    \<Longrightarrow> same_json v w \<and> s = s'"
proof (induction v arbitrary: w s s' r r')
  case (JList vs)
  note S = dumps_shape[OF fr JList.prems(1)] and T = dumps_shape[OF fr JList.prems(2)]
  have "hd s = hd s'" using first_char[OF JList.prems(7)] S T by simp
  then obtain ws where w: "w = JList ws"
    using S T number_first[of s'] by (cases w) (auto simp: number_char_def text_of_def split: if_splits)
  obtain ss where ss: "list_all2 (\<lambda>v s. dumps fr ascii v = Inr s) vs ss" "s = [91] @ commas ss @ [93]"
    using JList.prems(1) unfolding dumps_list by blast
  obtain ss' where ss': "list_all2 (\<lambda>v s. dumps fr ascii v = Inr s) ws ss'" "s' = [91] @ commas ss' @ [93]"
    using JList.prems(2) unfolding w dumps_list by blast
  have at: "\<exists>v \<in> set vs. dumps fr ascii v = Inr a" if "a \<in> set ss" for a
    by (rule list_all2_member[OF ss(1) that])
  have at': "\<exists>v \<in> set ws. dumps fr ascii v = Inr a" if "a \<in> set ss'" for a
    by (rule list_all2_member[OF ss'(1) that])
  have eq: "ss = ss'"
  proof (rule commas_prefix)
    show "commas ss @ 93 # r = commas ss' @ 93 # r'" using JList.prems(7) ss(2) ss'(2) by simp
    show "(93::nat) \<in> {93, 125}" by simp
    show "a \<noteq> [] \<and> hd a \<noteq> 93" if "a \<in> set ss \<union> set ss'" for a
    proof -
      from that at at' obtain v where "dumps fr ascii v = Inr a" by blast
      from dumps_shape[OF fr this] number_first[of a] show ?thesis
        by (cases v) (auto simp: number_char_def text_of_def split: if_splits)
    qed
    show "a = b" if ab: "a \<in> set ss" "b \<in> set ss'" "delimited q" "delimited q'" "a @ q = b @ q'" for a b q q'
    proof -
      from at[OF ab(1)] at'[OF ab(2)] obtain v v' where
        "v \<in> set vs" "dumps fr ascii v = Inr a" "v' \<in> set ws" "dumps fr ascii v' = Inr b" by blast
      then show ?thesis using JList.IH[of v a v' b q q'] JList.prems(3,4) ab w by simp
    qed
  qed
  have "same_json (vs ! i) (ws ! i)" if "i < length vs" for i
  proof -
    have "dumps fr ascii (vs ! i) = Inr (ss ! i)" "dumps fr ascii (ws ! i) = Inr (ss ! i)" "length ws = length vs"
      using ss(1) ss'(1) eq that by (auto simp: list_all2_conv_all_nth)
    then show ?thesis
      using JList.IH[of "vs ! i" "ss ! i" "ws ! i" "ss ! i" "[]" "[]"] JList.prems(3,4) w that by (simp add: delimited_def)
  qed
  then have "list_all2 same_json vs ws" using ss(1) ss'(1) eq by (auto simp: list_all2_conv_all_nth)
  then show ?case using w eq ss(2) ss'(2) by simp
next
  case (JObject kvs)
  note S = dumps_shape[OF fr JObject.prems(1)] and T = dumps_shape[OF fr JObject.prems(2)]
  have "hd s = hd s'" using first_char[OF JObject.prems(7)] S T by simp
  then obtain lws where w: "w = JObject lws"
    using S T number_first[of s'] by (cases w) (auto simp: number_char_def text_of_def split: if_splits)
  let ?of = "\<lambda>(k, v) (t, s). k = KStr t \<and> dumps fr ascii v = Inr s"
  obtain ts where ts: "list_all2 ?of kvs ts" "s = [123] @ commas (map (item_text ascii) (sort_key fst ts)) @ [125]"
    using JObject.prems(1) unfolding dumps_object by blast
  obtain ts' where ts': "list_all2 ?of lws ts'" "s' = [123] @ commas (map (item_text ascii) (sort_key fst ts')) @ [125]"
    using JObject.prems(2) unfolding w dumps_object by blast
  have at: "\<exists>v. (KStr t, v) \<in> set kvs \<and> dumps fr ascii v = Inr x" if "(t, x) \<in> set ts" for t x
    using list_all2_member[OF ts(1) that] by auto
  have at': "\<exists>v. (KStr t, v) \<in> set lws \<and> dumps fr ascii v = Inr x" if "(t, x) \<in> set ts'" for t x
    using list_all2_member[OF ts'(1) that] by auto
  have wk: "list_all (encodable ascii) t" "well ascii v" if "(KStr t, v) \<in> set kvs" for t v
    using JObject.prems(3) that by auto
  have wl: "list_all (encodable ascii) t" "well ascii v" if "(KStr t, v) \<in> set lws" for t v
    using JObject.prems(4) w that by auto
  have item: "t = t' \<and> x = x'"
    if ab: "(t, x) \<in> set ts" "(t', x') \<in> set ts'" "delimited q" "delimited q'"
      "item_text ascii (t, x) @ q = item_text ascii (t', x') @ q'" for t x t' x' q q'
  proof -
    from at[OF ab(1)] at'[OF ab(2)] obtain v v' where
      v: "(KStr t, v) \<in> set kvs" "dumps fr ascii v = Inr x" "(KStr t', v') \<in> set lws" "dumps fr ascii v' = Inr x'" by blast
    from item_text_prefix[OF wk(1)[OF v(1)] wl(1)[OF v(3)] ab(5)] have "t = t'" "x @ q = x' @ q'" by simp_all
    with JObject.IH[OF v(1) _ v(2) v(4) wk(2)[OF v(1)] wl(2)[OF v(3)] ab(3,4)] show ?thesis by simp
  qed
  have eq: "map (item_text ascii) (sort_key fst ts) = map (item_text ascii) (sort_key fst ts')"
  proof (rule commas_prefix)
    show "commas (map (item_text ascii) (sort_key fst ts)) @ 125 # r = commas (map (item_text ascii) (sort_key fst ts')) @ 125 # r'"
      using JObject.prems(7) ts(2) ts'(2) by simp
    show "(125::nat) \<in> {93, 125}" by simp
    show "a \<noteq> [] \<and> hd a \<noteq> 125"
      if "a \<in> set (map (item_text ascii) (sort_key fst ts)) \<union> set (map (item_text ascii) (sort_key fst ts'))" for a
      using that by (auto simp: item_text_def quote_def)
    show "a = b" if "a \<in> set (map (item_text ascii) (sort_key fst ts))" "b \<in> set (map (item_text ascii) (sort_key fst ts'))"
      "delimited q" "delimited q'" "a @ q = b @ q'" for a b q q'
      using that item by force
  qed
  have "set ts = set ts'"
  proof -
    have m: "item_text ascii ` set ts = item_text ascii ` set ts'" using arg_cong[OF eq, of set] by simp
    have "x = y" if "x \<in> set ts" "y \<in> set ts'" "item_text ascii x = item_text ascii y" for x y
      using item[of "fst x" "snd x" "fst y" "snd y" "[]" "[]"] that by (simp add: delimited_def prod_eq_iff)
    then show ?thesis
    proof (intro set_eqI iffI)
      fix x assume x: "x \<in> set ts"
      then have "item_text ascii x \<in> item_text ascii ` set ts'" using m by (metis imageI)
      with x \<open>\<And>x y. x \<in> set ts \<Longrightarrow> y \<in> set ts' \<Longrightarrow> item_text ascii x = item_text ascii y \<Longrightarrow> x = y\<close>
      show "x \<in> set ts'" by (metis imageE)
    next
      fix y assume y: "y \<in> set ts'"
      then have "item_text ascii y \<in> item_text ascii ` set ts" using m by (metis imageI)
      with y \<open>\<And>x y. x \<in> set ts \<Longrightarrow> y \<in> set ts' \<Longrightarrow> item_text ascii x = item_text ascii y \<Longrightarrow> x = y\<close>
      show "y \<in> set ts" by (metis imageE)
    qed
  qed
  moreover have "fst ` set kvs = KStr ` fst ` set ts" if "list_all2 ?of kvs ts" for kvs ts
    using that by (induction rule: list_all2_induct) auto
  ultimately have keys: "fst ` set kvs = fst ` set lws" using ts(1) ts'(1) by metis
  have dk: "distinct (map fst ts')" if "distinct (map fst lws)" "list_all2 ?of lws ts'" for lws ts'
    using that(2,1) by (induction rule: list_all2_induct) (force dest!: list_all2_member)+
  have "same_json v v'" if v: "(k, v) \<in> set kvs" "(k, v') \<in> set lws" for k v v'
  proof -
    obtain t x where x: "k = KStr t" "(t, x) \<in> set ts" "dumps fr ascii v = Inr x"
      using list_all2_member'[OF ts(1) v(1)] by auto
    obtain x' where x': "(t, x') \<in> set ts'" "dumps fr ascii v' = Inr x'"
      using list_all2_member'[OF ts'(1) v(2)] x(1) by auto
    have "distinct (map fst ts')" using dk[OF _ ts'(1)] JObject.prems(4) w by simp
    with x(2) x'(1) \<open>set ts = set ts'\<close> have "x = x'" by (metis eq_key_imp_eq_value)
    with JObject.IH[of "(k, v)" v x v' x' "[]" "[]"] v x x' wk(2) wl(2) show ?thesis by (simp add: delimited_def)
  qed
  with keys have "same_json (JObject kvs) w" using w by auto
  with eq ts(2) ts'(2) show ?case by simp
next
  case (JBool b)
  then show ?case by (intro scalar_same[OF fr JBool.prems]) simp_all
next
  case (JInt i)
  then show ?case by (intro scalar_same[OF fr JInt.prems]) simp_all
next
  case (JFloat x)
  then show ?case by (intro scalar_same[OF fr JFloat.prems]) simp_all
next
  case (JStr t)
  then show ?case by (intro scalar_same[OF fr JStr.prems]) simp_all
next
  case (JOther n)
  then show ?case by (intro scalar_same[OF fr JOther.prems]) simp_all
next
  case JNull
  then show ?case by (intro scalar_same[OF fr JNull.prems]) simp_all
qed

lemma same_json_scalar: "same_json v w \<Longrightarrow> \<forall>vs. v \<noteq> JList vs \<Longrightarrow> \<forall>kvs. v \<noteq> JObject kvs \<Longrightarrow> w = v"
  by (cases v) auto

lemma list_all2_choice: "(\<And>x. x \<in> set xs \<Longrightarrow> \<exists>y. P x y) \<Longrightarrow> \<exists>ys. list_all2 P xs ys"
proof (induction xs)
  case (Cons x xs)
  obtain y where "P x y" using Cons.prems[of x] by auto
  moreover obtain ys where "list_all2 P xs ys" using Cons.IH Cons.prems by (metis list.set_intros(2))
  ultimately show ?case by (intro exI[of _ "y # ys"]) simp
qed (auto intro: exI[of _ "[]"])

lemma dumps_same: "dumps fr ascii v = Inr s \<Longrightarrow> same_json v w \<Longrightarrow> well ascii v \<Longrightarrow> well ascii w \<Longrightarrow> dumps fr ascii w = Inr s"
proof (induction v arbitrary: w s)
  case (JList vs)
  from JList.prems(2) obtain ws where w: "w = JList ws" "list_all2 same_json vs ws" by (cases w) auto
  from JList.prems(1) obtain ss where ss: "list_all2 (\<lambda>v s. dumps fr ascii v = Inr s) vs ss" "s = [91] @ commas ss @ [93]"
    unfolding dumps_list by blast
  have "dumps fr ascii (ws ! i) = Inr (ss ! i)" if "i < length ws" for i
    using JList.IH[of "vs ! i" "ss ! i" "ws ! i"] JList.prems(3,4) w ss(1) that by (simp add: list_all2_conv_all_nth)
  then have "list_all2 (\<lambda>v s. dumps fr ascii v = Inr s) ws ss" using w(2) ss(1) by (simp add: list_all2_conv_all_nth)
  with w(1) ss(2) show ?case unfolding w(1) dumps_list by blast
next
  case (JObject kvs)
  from JObject.prems(2) obtain lws where w: "w = JObject lws" "fst ` set kvs = fst ` set lws" by (cases w) auto
  have same: "same_json v v'" if "(k, v) \<in> set kvs" "(k, v') \<in> set lws" for k v v'
    using JObject.prems(2) that unfolding w(1) by fastforce
  let ?of = "\<lambda>(k, v) (t, s). k = KStr t \<and> dumps fr ascii v = Inr s"
  from JObject.prems(1) obtain ts where ts: "list_all2 ?of kvs ts" "s = [123] @ commas (map (item_text ascii) (sort_key fst ts)) @ [125]"
    unfolding dumps_object by blast
  have one: "\<exists>t x. l = KStr t \<and> (t, x) \<in> set ts \<and> dumps fr ascii v' = Inr x" if l: "(l, v') \<in> set lws" for l v'
  proof -
    from l w(2) obtain v where v: "(l, v) \<in> set kvs" by (metis (no_types, lifting) fst_conv image_iff surj_pair)
    from list_all2_member'[OF ts(1) v] obtain t x where x: "l = KStr t" "(t, x) \<in> set ts" "dumps fr ascii v = Inr x" by auto
    have "well ascii v" "well ascii v'" using JObject.prems(3,4) v l w(1) by auto
    with JObject.IH[OF v _ x(3) same[OF v l]] x show ?thesis by simp
  qed
  then have "\<exists>p. ?of q p \<and> p \<in> set ts" if "q \<in> set lws" for q using that by (cases q) fastforce
  from list_all2_choice[of lws "\<lambda>q p. ?of q p \<and> p \<in> set ts", OF this] obtain ts' where
    ts': "list_all2 (\<lambda>q p. ?of q p \<and> p \<in> set ts) lws ts'" by blast
  then have of': "list_all2 ?of lws ts'" by (rule list_all2_mono) blast
  have keys: "map fst kvs = map (KStr \<circ> fst) ts" if "list_all2 ?of kvs ts" for kvs ts
    using that by (induction rule: list_all2_induct) auto
  have d: "distinct (map fst ts)" "distinct (map fst ts')"
    using JObject.prems(3,4) w(1) keys[OF ts(1)] keys[OF of'] by (auto simp: distinct_map inj_on_def)
  have sub: "set ts' \<subseteq> set ts" using list_all2_member[OF ts'] by blast
  have "KStr ` fst ` set ts = KStr ` fst ` set ts'"
    using w(2) arg_cong[OF keys[OF ts(1)], of set] arg_cong[OF keys[OF of'], of set] by (simp add: image_comp comp_def)
  then have f: "fst ` set ts = fst ` set ts'" by (simp add: inj_image_eq_iff inj_def)
  have "set ts \<subseteq> set ts'"
  proof
    fix p assume p: "p \<in> set ts"
    with f obtain q where "q \<in> set ts'" "fst q = fst p" by (metis imageE imageI)
    with sub p d(1) show "p \<in> set ts'" by (metis distinct_map inj_onD subsetD)
  qed
  with sub have "set ts = set ts'" by blast
  from sort_fst_unique[OF this d] ts(2) of' show ?case unfolding w(1) dumps_object by auto
qed (auto dest: same_json_scalar)

lemma canonical_text:
  assumes "float_repr_ok fr" "well ascii v" "well ascii w" "dumps fr ascii v = Inr s"
  shows "dumps fr ascii w = Inr s \<longleftrightarrow> same_json v w"
  using dumps_prefix[OF assms(1,4) _ assms(2,3), of s "[]" "[]"] dumps_same[OF assms(4) _ assms(2,3)]
  by (auto simp: delimited_def)

end
