(* ===== verification/Configuration.thy ===== *)
theory Configuration
  imports Json_Laws
begin

text \<open>
  Plugin configuration: \<open>packages/wmfs/wmfs/configuration.py\<close>. A schema is itself a JSON object;
  it is checked once when a manifest is read and then interpreted on every configuration.

  \<open>sha\<close> is the hexadecimal SHA-256 digest. \<open>_freeze\<close> makes tuples of lists and read-only views
  of dicts, which are the same \<open>jval\<close>s here. Error messages are templates.
\<close>

definition EMPTY_CONFIGURATION_BYTES :: bytes where
  "EMPTY_CONFIGURATION_BYTES = [123, 125]"

definition MAX_CONFIGURATION_BYTES :: nat where
  "MAX_CONFIGURATION_BYTES = 65536"

definition ENCODING :: ustr where
  "ENCODING = text_of ''wmfs-configuration-schema-v1''"

definition SCALAR_TYPES :: "ustr set" where
  "SCALAR_TYPES = {text_of ''boolean'', text_of ''integer'', text_of ''number'', text_of ''string''}"

definition SCHEMA_TYPES :: "ustr set" where
  "SCHEMA_TYPES = SCALAR_TYPES \<union> {text_of ''array'', text_of ''object''}"

type_synonym fields = "(jkey \<times> jval) list"

record ConfigurationMetadata =
  cf_plugin :: string
  cf_schema_version :: int
  cf_fingerprint :: ustr
  cf_schema :: fields
  cf_examples :: fields

section \<open>Access\<close>

definition key :: "string \<Rightarrow> jkey" where
  "key s = KStr (text_of s)"

text \<open>\<open>schema.get(name)\<close>, where an absent entry and \<open>None\<close> are the same, and \<open>schema[name]\<close>.\<close>

definition get :: "fields \<Rightarrow> string \<Rightarrow> jval" where
  "get d name = (case map_of d (key name) of None \<Rightarrow> JNull | Some v \<Rightarrow> v)"

definition item_of :: "fields \<Rightarrow> string \<Rightarrow> jval result" where
  "item_of d name = or_raise (map_of d (key name)) (KeyError name)"

definition object_of :: "jval \<Rightarrow> fields result" where
  "object_of v = (case v of JObject d \<Rightarrow> Inr d | _ \<Rightarrow> Inl (ValueError ''must be an object''))"

text \<open>Subscripting something that is not a mapping.\<close>

definition mapping_of :: "jval \<Rightarrow> fields result" where
  "mapping_of v = (case v of JObject d \<Rightarrow> Inr d | _ \<Rightarrow> Inl (TypeError ''object is not subscriptable''))"

definition keys_optional :: "fields \<Rightarrow> jkey set \<Rightarrow> jkey set \<Rightarrow> unit result" where
  "keys_optional d allowed required =
     reject (\<not> required \<subseteq> fst ` set d \<or> \<not> fst ` set d \<subseteq> allowed) (ValueError ''fields are invalid'')"

section \<open>Scalars\<close>

definition scalar_valid :: "jval \<Rightarrow> ustr \<Rightarrow> bool" where
  "scalar_valid v kind \<longleftrightarrow>
     (if kind = text_of ''boolean'' then (case v of JBool _ \<Rightarrow> True | _ \<Rightarrow> False)
      else if kind = text_of ''integer'' then (case v of JInt i \<Rightarrow> - (2 ^ 63) \<le> i \<and> i \<le> 2 ^ 63 - 1 | _ \<Rightarrow> False)
      else if kind = text_of ''number'' then (case v of JInt _ \<Rightarrow> True | JFloat w \<Rightarrow> float_finite w | _ \<Rightarrow> False)
      else (case v of JStr _ \<Rightarrow> True | _ \<Rightarrow> False))"

definition validate_scalar_value :: "jval \<Rightarrow> ustr \<Rightarrow> unit result" where
  "validate_scalar_value v kind =
     (if kind \<notin> SCALAR_TYPES then Inl (KeyError ''kind'')
      else reject (\<not> scalar_valid v kind) (ValueError ''must be of its kind''))"

text \<open>A finite number in units of \<open>2 ^ -1075\<close>.\<close>

definition numeric :: "jval \<Rightarrow> int option" where
  "numeric v = (case v of JInt i \<Rightarrow> Some (int_scaled i) | JFloat w \<Rightarrow> if float_finite w then Some (float_scaled w) else None | _ \<Rightarrow> None)"

definition json_equal :: "jval \<Rightarrow> jval \<Rightarrow> bool" where
  "json_equal a b \<longleftrightarrow> (case (numeric a, numeric b) of (Some x, Some y) \<Rightarrow> x = y | _ \<Rightarrow> a = b)"

text \<open>\<open>a < b\<close>, of numbers.\<close>

definition json_less :: "jval \<Rightarrow> jval \<Rightarrow> bool result" where
  "json_less a b =
     (case (numeric a, numeric b) of (Some x, Some y) \<Rightarrow> Inr (x < y) | _ \<Rightarrow> Inl (TypeError ''not supported between instances''))"

definition json_len :: "jval \<Rightarrow> jval result" where
  "json_len v = (case v of JStr s \<Rightarrow> Inr (JInt (int (length s))) | JList vs \<Rightarrow> Inr (JInt (int (length vs)))
     | JObject d \<Rightarrow> Inr (JInt (int (length d))) | _ \<Rightarrow> Inl (TypeError ''object has no len()''))"

section \<open>Values\<close>

text \<open>The checks after the kind: the enum and the six bounds.\<close>

definition enum_check :: "jval \<Rightarrow> fields \<Rightarrow> unit result" where
  "enum_check v schema =
     (case get schema ''enum'' of
        JNull \<Rightarrow> Inr ()
      | JList cs \<Rightarrow> reject (\<not> list_ex (json_equal v) cs) (ValueError ''is not a member of its enum'')
      | _ \<Rightarrow> Inl OutsideModel)"

definition bound_check :: "fields \<Rightarrow> string \<Rightarrow> (jval \<Rightarrow> bool result) \<Rightarrow> unit result" where
  "bound_check schema name violates =
     (let b = get schema name in
      if b = JNull then Inr () else ebind (violates b) (\<lambda>bad. reject bad (ValueError ''is outside its bound'')))"

definition constraints :: "jval \<Rightarrow> fields \<Rightarrow> unit result" where
  "constraints v schema =
     ebind (enum_check v schema) (\<lambda>_.
     ebind (bound_check schema ''minimum'' (\<lambda>b. json_less v b)) (\<lambda>_.
     ebind (bound_check schema ''maximum'' (\<lambda>b. json_less b v)) (\<lambda>_.
     ebind (bound_check schema ''minLength'' (\<lambda>b. ebind (json_len v) (\<lambda>n. json_less n b))) (\<lambda>_.
     ebind (bound_check schema ''maxLength'' (\<lambda>b. ebind (json_len v) (\<lambda>n. json_less b n))) (\<lambda>_.
     ebind (bound_check schema ''minItems'' (\<lambda>b. ebind (json_len v) (\<lambda>n. json_less n b))) (\<lambda>_.
            bound_check schema ''maxItems'' (\<lambda>b. ebind (json_len v) (\<lambda>n. json_less b n))))))))"

definition required_names :: "jval \<Rightarrow> jkey list result" where
  "required_names v =
     (case v of JList rs \<Rightarrow> emap (\<lambda>r. case r of JStr s \<Rightarrow> Inr (KStr s) | _ \<Rightarrow> Inl OutsideModel) rs
      | _ \<Rightarrow> Inl OutsideModel)"

text \<open>The unknown and the missing fields of an object; joining names that are not text raises.\<close>

definition object_fields :: "fields \<Rightarrow> fields \<Rightarrow> fields result" where
  "object_fields d schema =
     ebind (item_of schema ''properties'') (\<lambda>p. ebind (mapping_of p) (\<lambda>properties.
     let unknown = filter (\<lambda>k. k \<notin> fst ` set properties) (map fst d) in
     if unknown \<noteq> []
     then Inl (if list_all (\<lambda>k. case k of KStr _ \<Rightarrow> True | _ \<Rightarrow> False) unknown
               then ValueError ''has unknown fields'' else TypeError ''sequence item: expected str instance'')
     else
     ebind (item_of schema ''required'') (\<lambda>q. ebind (required_names q) (\<lambda>required.
     if \<not> set required \<subseteq> fst ` set d then Inl (ValueError ''is missing required fields'')
     else Inr properties))))"

fun validate_value :: "jval \<Rightarrow> fields \<Rightarrow> unit result" where
  "validate_value v schema =
     ebind (item_of schema ''type'') (\<lambda>kind.
     ebind
       (if kind = JStr (text_of ''object'')
        then (case v of
            JObject d \<Rightarrow> ebind (object_fields d schema) (\<lambda>properties.
              eall (\<lambda>(k, x). ebind (or_raise (map_of properties k) (KeyError ''property'')) (\<lambda>c.
                ebind (mapping_of c) (\<lambda>child. validate_value x child))) d)
          | _ \<Rightarrow> Inl (ValueError ''must be an object''))
        else if kind = JStr (text_of ''array'')
        then (case v of
            JList vs \<Rightarrow> eall (\<lambda>x. ebind (item_of schema ''items'') (\<lambda>c. ebind (mapping_of c) (\<lambda>child. validate_value x child))) vs
          | _ \<Rightarrow> Inl (ValueError ''must be an array''))
        else (case kind of JStr t \<Rightarrow> validate_scalar_value v t | _ \<Rightarrow> Inl OutsideModel)) (\<lambda>_.
     constraints v schema))"

declare validate_value.simps [simp del]

section \<open>Schemas\<close>

definition allowed_fields :: "ustr \<Rightarrow> jkey set" where
  "allowed_fields kind =
     key ` ({''type'', ''description'', ''default'', ''enum''} \<union>
       (if kind \<in> {text_of ''integer'', text_of ''number''} then {''minimum'', ''maximum''}
        else if kind = text_of ''string'' then {''minLength'', ''maxLength''}
        else if kind = text_of ''array'' then {''items'', ''minItems'', ''maxItems''}
        else if kind = text_of ''object'' then {''additionalProperties'', ''properties'', ''required''} else {}))"

text \<open>\<open>kind not in _TYPES\<close>: a list or object cannot be looked up in a set.\<close>

definition kind_of :: "fields \<Rightarrow> ustr result" where
  "kind_of schema =
     (case get schema ''type'' of
        JStr t \<Rightarrow> if t \<in> SCHEMA_TYPES then Inr t else Inl (ValueError ''type is unsupported'')
      | JList _ \<Rightarrow> Inl (TypeError ''unhashable type'')
      | JObject _ \<Rightarrow> Inl (TypeError ''unhashable type'')
      | _ \<Rightarrow> Inl (ValueError ''type is unsupported''))"

definition required_field :: "fields \<Rightarrow> fields \<Rightarrow> jkey list result" where
  "required_field schema properties =
     (case get schema ''required'' of
        JList rs \<Rightarrow>
          (if list_ex (\<lambda>r. case r of JStr s \<Rightarrow> s = [] | _ \<Rightarrow> True) rs
           then Inl (ValueError ''required must be an array of property names'')
           else let names = map (\<lambda>r. case r of JStr s \<Rightarrow> KStr s | _ \<Rightarrow> KStr []) rs in
             if \<not> distinct names \<or> \<not> set names \<subseteq> fst ` set properties
             then Inl (ValueError ''required contains invalid property names'')
             else Inr names)
      | _ \<Rightarrow> Inl (ValueError ''required must be an array of property names''))"

fun no_duplicates :: "jval list \<Rightarrow> bool" where
  "no_duplicates [] \<longleftrightarrow> True"
| "no_duplicates (c # cs) \<longleftrightarrow> list_all (\<lambda>d. \<not> json_equal d c) cs \<and> no_duplicates cs"

definition schema_enum :: "fields \<Rightarrow> ustr \<Rightarrow> unit result" where
  "schema_enum schema kind =
     (case map_of schema (key ''enum'') of
        None \<Rightarrow> Inr ()
      | Some (JList cs) \<Rightarrow>
          (if kind \<notin> SCALAR_TYPES \<or> cs = [] then Inl (ValueError ''enum is invalid'')
           else ebind (eall (\<lambda>c. validate_scalar_value c kind) cs) (\<lambda>_.
             reject (\<not> no_duplicates cs) (ValueError ''enum contains duplicate values'')))
      | Some _ \<Rightarrow> Inl (ValueError ''enum is invalid''))"

definition schema_bound :: "ustr \<Rightarrow> string \<Rightarrow> jval \<Rightarrow> unit result" where
  "schema_bound kind lower_name b =
     (if b = JNull then Inr ()
      else if lower_name = ''minimum'' then validate_scalar_value b kind
      else reject (case b of JInt i \<Rightarrow> i < 0 | _ \<Rightarrow> True) (ValueError ''must be a non-negative integer''))"

definition schema_bounds :: "fields \<Rightarrow> ustr \<Rightarrow> string \<times> string \<Rightarrow> unit result" where
  "schema_bounds schema kind = (\<lambda>(lower_name, upper_name).
     let lower = get schema lower_name; upper = get schema upper_name in
     ebind (schema_bound kind lower_name lower) (\<lambda>_.
     ebind (schema_bound kind lower_name upper) (\<lambda>_.
     if lower \<noteq> JNull \<and> upper \<noteq> JNull
     then ebind (json_less upper lower) (\<lambda>bad. reject bad (ValueError ''has inconsistent bounds'')) else Inr ())))"

definition schema_default :: "fields \<Rightarrow> bool \<Rightarrow> unit result" where
  "schema_default schema root =
     (case map_of schema (key ''default'') of
        None \<Rightarrow> Inr ()
      | Some v \<Rightarrow> if root \<or> v = JNull then Inl (ValueError ''default is invalid'') else validate_value v schema)"

lemma size_object_of:
  assumes "object_of (get schema name) = Inr d"
  shows "size (JObject d) < size (JObject schema)"
proof -
  from assms obtain "map_of schema (key name) = Some (JObject d)"
    by (auto simp: object_of_def get_def split: jval.splits option.splits)
  then have "(key name, JObject d) \<in> set schema" by (rule map_of_SomeD)
  then have "size_prod (\<lambda>x. 0) size (key name, JObject d) \<le> size_list (size_prod (\<lambda>x. 0) size) schema" by (rule size_list_estimation') simp
  then show ?thesis by simp
qed

lemma size_member:
  assumes "(k, c) \<in> set d" "object_of c = Inr e"
  shows "size (JObject e) < size (JObject d)"
proof -
  from assms(2) have c: "c = JObject e" by (auto simp: object_of_def split: jval.splits)
  have "size_prod (\<lambda>x. 0) size (k, c) \<le> size_list (size_prod (\<lambda>x. 0) size) d" by (rule size_list_estimation'[OF assms(1)]) simp
  with c show ?thesis by simp
qed

function validate_schema :: "fields \<Rightarrow> bool \<Rightarrow> unit result" where
  "validate_schema schema root =
     ebind (kind_of schema) (\<lambda>kind.
     ebind (keys_optional schema (allowed_fields kind) {key ''type''}) (\<lambda>_.
     if root \<and> kind \<noteq> text_of ''object'' then Inl (ValueError ''must describe an object'')
     else if (case get schema ''description'' of JNull \<Rightarrow> False | JStr s \<Rightarrow> s = [] | _ \<Rightarrow> True)
     then Inl (ValueError ''description must be a non-empty string'')
     else
     ebind
       (if kind = text_of ''object''
        then (if get schema ''additionalProperties'' \<noteq> JBool False then Inl (ValueError ''additionalProperties must be false'')
              else
              ebind (object_of (get schema ''properties'')) (\<lambda>properties.
              ebind (required_field schema properties) (\<lambda>required.
              eall (\<lambda>(name, c).
                if (case name of KStr s \<Rightarrow> s = [] | KOther _ \<Rightarrow> True) then Inl (ValueError ''properties contains an invalid name'')
                else
                ebind (object_of c) (\<lambda>child.
                ebind (validate_schema child False) (\<lambda>_.
                reject (name \<in> set required \<and> key ''default'' \<in> fst ` set child) (ValueError ''default is invalid for a required property'')))) properties)))
        else if kind = text_of ''array''
        then ebind (object_of (get schema ''items'')) (\<lambda>items. validate_schema items False)
        else Inr ()) (\<lambda>_.
     ebind (schema_enum schema kind) (\<lambda>_.
     ebind (eall (schema_bounds schema kind) [(''minimum'', ''maximum''), (''minLength'', ''maxLength''), (''minItems'', ''maxItems'')]) (\<lambda>_.
     schema_default schema root)))))"
  by pat_completeness auto
termination
proof (relation "measure (\<lambda>(schema, _). size (JObject schema))", goal_cases)
  case 1
  then show ?case by simp
next
  case (2 schema root kind u properties required p name c child)
  then have "size (JObject child) < size (JObject properties)" "size (JObject properties) < size (JObject schema)"
    using size_member size_object_of by blast+
  then show ?case by simp
next
  case (3 schema root kind u items)
  then show ?case using size_object_of by simp
qed

declare validate_schema.simps [simp del]

section \<open>Metadata\<close>

definition fingerprint_syntax :: "ustr \<Rightarrow> bool" where
  "fingerprint_syntax s \<longleftrightarrow> length s = 71 \<and> take 7 s = text_of ''sha256:'' \<and>
     list_all (\<lambda>c. (48 \<le> c \<and> c \<le> 57) \<or> (97 \<le> c \<and> c \<le> 102)) (drop 7 s)"

definition schema_text :: "(64 word \<Rightarrow> ustr) \<Rightarrow> fields \<Rightarrow> ustr result" where
  "schema_text fr schema = dumps fr True (JObject [(key ''encoding'', JStr ENCODING), (key ''schema'', JObject schema)])"

definition parse_configuration_metadata ::
  "(64 word \<Rightarrow> ustr) \<Rightarrow> (bytes \<Rightarrow> ustr) \<Rightarrow> string \<Rightarrow> jval \<Rightarrow> ConfigurationMetadata option result" where
  "parse_configuration_metadata fr sha plugin v =
     (if v = JNull then Inr None
      else
      ebind (object_of v) (\<lambda>document.
      let names = key ` {''encoding'', ''examples'', ''fingerprint'', ''schema'', ''schemaVersion''} in
      ebind (keys_optional document names names) (\<lambda>_.
      if get document ''encoding'' \<noteq> JStr ENCODING then Inl (ValueError ''encoding is unsupported'')
      else if get document ''schemaVersion'' \<noteq> JInt 1 then Inl (ValueError ''schemaVersion must be 1'')
      else case get document ''fingerprint'' of
        JStr fingerprint \<Rightarrow>
          (if \<not> fingerprint_syntax fingerprint then Inl (ValueError ''fingerprint must be a lowercase SHA-256 fingerprint'')
           else
           ebind (object_of (get document ''schema'')) (\<lambda>schema.
           ebind (validate_schema schema True) (\<lambda>_.
           ebind (schema_text fr schema) (\<lambda>canonical.
           ebind (utf8_encode canonical) (\<lambda>data.
           if fingerprint \<noteq> text_of ''sha256:'' @ sha data then Inl (ValueError ''fingerprint is not the expected one'')
           else
           ebind (object_of (get document ''examples'')) (\<lambda>examples.
           ebind (eall (\<lambda>(name, x).
               if (case name of KStr s \<Rightarrow> s = [] | KOther _ \<Rightarrow> True) then Inl (ValueError ''examples names must be non-empty strings'')
               else validate_value x schema) examples) (\<lambda>_.
           Inr (Some \<lparr>cf_plugin = plugin, cf_schema_version = 1, cf_fingerprint = fingerprint,
             cf_schema = schema, cf_examples = examples\<rparr>))))))))
      | _ \<Rightarrow> Inl (ValueError ''fingerprint must be a lowercase SHA-256 fingerprint''))))"

section \<open>Canonical configurations\<close>

text \<open>\<open>_plain_json\<close> copies mappings and sequences and leaves everything else.\<close>

fun plain_json :: "jval \<Rightarrow> jval result" where
  "plain_json (JObject d) = ebind (emap (\<lambda>(k, v).
     case k of KOther _ \<Rightarrow> Inl (ValueError ''contains a non-string field name'')
     | KStr s \<Rightarrow> ebind (plain_json v) (\<lambda>w. Inr (KStr s, w))) d) (\<lambda>d'. Inr (JObject d'))"
| "plain_json (JList vs) = ebind (emap plain_json vs) (\<lambda>ws. Inr (JList ws))"
| "plain_json v = Inr v"

definition validate_and_canonicalize ::
  "(64 word \<Rightarrow> ustr) \<Rightarrow> jval \<Rightarrow> ConfigurationMetadata option \<Rightarrow> bytes result" where
  "validate_and_canonicalize fr config metadata =
     (if config = JNull then Inr EMPTY_CONFIGURATION_BYTES
      else case config of
        JObject d \<Rightarrow>
          (case metadata of
             None \<Rightarrow> if d \<noteq> [] then Inl (ValueError ''plugin does not accept configuration'') else Inr EMPTY_CONFIGURATION_BYTES
           | Some m \<Rightarrow>
               ebind (validate_value config (cf_schema m)) (\<lambda>_.
               ebind (plain_json config) (\<lambda>plain.
               if plain = JObject [] then Inr EMPTY_CONFIGURATION_BYTES
               else case ebind (dumps fr False plain) utf8_encode of
                 Inl e \<Rightarrow> Inl (ValueError ''configuration is not canonical JSON'')
               | Inr encoded \<Rightarrow>
                   (if MAX_CONFIGURATION_BYTES < length encoded then Inl (ValueError ''configuration exceeds the byte limit'')
                    else Inr encoded))))
      | _ \<Rightarrow> Inl (ValueError ''configuration must be an object''))"

end
