(* ===== verification/Configuration_Laws.thy ===== *)
theory Configuration_Laws
  imports Configuration
begin

text \<open>
  An accepted schema makes validation total: a value is accepted or refused with a \<open>ValueError\<close>,
  or, if one of its keys is not a string, with a \<open>TypeError\<close>. The canonical bytes of two accepted configurations are equal exactly when the
  configurations are.
\<close>

section \<open>Validation is total\<close>

text \<open>How a check may end; a \<open>TypeError\<close> only when \<open>joined\<close>, for values with a key that is no string.\<close>

definition refused_or :: "bool \<Rightarrow> unit result \<Rightarrow> bool" where
  "refused_or joined r \<longleftrightarrow> r = Inr () \<or> (\<exists>m. r = Inl (ValueError m)) \<or>
     joined \<and> r = Inl (TypeError ''sequence item: expected str instance'')"

lemma refused_or_simps [simp]:
  "refused_or joined (Inr ())" "refused_or joined (Inl (ValueError m))" "refused_or joined (reject c (ValueError m))"
  by (auto simp: refused_or_def reject_eq)

lemma refused_or_ebind: "refused_or joined m \<Longrightarrow> (m = Inr () \<Longrightarrow> refused_or joined (f ())) \<Longrightarrow> refused_or joined (ebind m f)"
  by (auto simp: refused_or_def)

lemma refused_or_eall: "(\<And>x. x \<in> set xs \<Longrightarrow> refused_or joined (f x)) \<Longrightarrow> refused_or joined (eall f xs)"
  by (induction xs) (auto intro!: refused_or_ebind)

fun string_keys :: "jval \<Rightarrow> bool" where
  "string_keys (JList vs) \<longleftrightarrow> (\<forall>v \<in> set vs. string_keys v)"
| "string_keys (JObject d) \<longleftrightarrow> (\<forall>(k, v) \<in> set d. (\<exists>s. k = KStr s) \<and> string_keys v)"
| "string_keys _ \<longleftrightarrow> True"

lemma key_inj [simp]: "key s = key t \<longleftrightarrow> s = t"
proof -
  have "inj (map (of_char :: char \<Rightarrow> nat))" by (rule inj_mapI) (simp add: inj_on_def)
  then show ?thesis by (auto simp: key_def text_of_def inj_on_def)
qed

lemma text_of_inj [simp]: "text_of s = text_of t \<longleftrightarrow> s = t"
  using key_inj[of s t] by (simp add: key_def)

lemmas kind_sets = SCALAR_TYPES_def SCHEMA_TYPES_def

text \<open>What an accepted schema guarantees.\<close>

definition schema_children :: "fields \<Rightarrow> ustr \<Rightarrow> unit result" where
  "schema_children schema kind =
     (if kind = text_of ''object''
      then (if get schema ''additionalProperties'' \<noteq> JBool False then Inl (ValueError ''additionalProperties must be false'')
            else
            ebind (object_of (get schema ''properties'')) (\<lambda>properties.
            ebind (required_field schema properties) (\<lambda>required.
            eall (\<lambda>(name, c).
              if (case name of KStr s \<Rightarrow> s = [] | KOther _ \<Rightarrow> True) then Inl (ValueError ''properties contains an invalid name'')
              else
              ebind (object_of c) (\<lambda>child.
              ebind (validate_schema child False) (\<lambda>_.
              reject (name \<in> set required \<and> key ''default'' \<in> fst ` set child) (ValueError ''default is invalid for a required property'')))) properties)))
      else if kind = text_of ''array''
      then ebind (object_of (get schema ''items'')) (\<lambda>items. validate_schema items False)
      else Inr ())"

lemma schema_Inr:
  assumes "validate_schema schema root = Inr ()"
  obtains kind where "kind_of schema = Inr kind" "keys_optional schema (allowed_fields kind) {key ''type''} = Inr ()"
    "schema_children schema kind = Inr ()" "schema_enum schema kind = Inr ()"
    "eall (schema_bounds schema kind) [(''minimum'', ''maximum''), (''minLength'', ''maxLength''), (''minItems'', ''maxItems'')] = Inr ()"
    "schema_default schema root = Inr ()"
proof -
  note S = validate_schema.simps[of schema root, folded schema_children_def]
  from assms show thesis unfolding S ebind_eq_Inr
    by (elim exE conjE) (simp only: ebind_eq_Inr split: if_split_asm; (elim exE conjE)?; rule that; simp)
qed

lemma schema_kind:
  assumes "validate_schema schema root = Inr ()"
  obtains kind where "map_of schema (key ''type'') = Some (JStr kind)" "kind \<in> SCHEMA_TYPES"
    "fst ` set schema \<subseteq> allowed_fields kind" "schema_enum schema kind = Inr ()" "schema_children schema kind = Inr ()"
    "eall (schema_bounds schema kind) [(''minimum'', ''maximum''), (''minLength'', ''maxLength''), (''minItems'', ''maxItems'')] = Inr ()"
proof -
  obtain kind where k: "kind_of schema = Inr kind" "keys_optional schema (allowed_fields kind) {key ''type''} = Inr ()"
    "schema_children schema kind = Inr ()" "schema_enum schema kind = Inr ()"
    "eall (schema_bounds schema kind) [(''minimum'', ''maximum''), (''minLength'', ''maxLength''), (''minItems'', ''maxItems'')] = Inr ()"
    by (rule schema_Inr[OF assms])
  from k(1) have "map_of schema (key ''type'') = Some (JStr kind)" "kind \<in> SCHEMA_TYPES"
    by (auto simp: kind_of_def get_def split: jval.splits option.splits if_splits)
  moreover have "fst ` set schema \<subseteq> allowed_fields kind" using k(2) by (simp add: keys_optional_def reject_eq split: if_splits)
  ultimately show thesis using k(3-5) that by blast
qed

lemma schema_children_at:
  assumes "validate_schema schema root = Inr ()" "map_of schema (key ''type'') = Some (JStr kind)"
  shows "schema_children schema kind = Inr ()"
  by (rule schema_kind[OF assms(1)]) (use assms(2) in simp)

lemma object_of_get: "object_of (get schema name) = Inr d \<Longrightarrow> map_of schema (key name) = Some (JObject d)"
  by (auto simp: object_of_def get_def split: jval.splits option.splits)

lemma object_of_Inr: "object_of c = Inr d \<longleftrightarrow> c = JObject d"
  by (cases c) (auto simp: object_of_def)

lemma schema_object:
  assumes "validate_schema schema root = Inr ()" "map_of schema (key ''type'') = Some (JStr (text_of ''object''))"
  obtains properties required where "map_of schema (key ''properties'') = Some (JObject properties)"
    "item_of schema ''required'' = Inr (JList required)" "\<forall>r \<in> set required. \<exists>s. r = JStr s"
    "\<forall>(name, c) \<in> set properties. \<exists>child. c = JObject child \<and> validate_schema child False = Inr ()"
proof -
  have ap: "get schema ''additionalProperties'' = JBool False"
    by (rule ccontr) (use schema_children_at[OF assms] in \<open>simp add: schema_children_def\<close>)
  from schema_children_at[OF assms] obtain properties names where p: "object_of (get schema ''properties'') = Inr properties"
    "required_field schema properties = Inr names"
    and c: "eall (\<lambda>(name, c).
              if (case name of KStr s \<Rightarrow> s = [] | KOther _ \<Rightarrow> True) then Inl (ValueError ''properties contains an invalid name'')
              else
              ebind (object_of c) (\<lambda>child.
              ebind (validate_schema child False) (\<lambda>_.
              reject (name \<in> set names \<and> key ''default'' \<in> fst ` set child) (ValueError ''default is invalid for a required property'')))) properties = Inr ()"
    unfolding schema_children_def by (simp only: ap simp_thms if_True if_False ebind_eq_Inr) (elim exE conjE, rule that, assumption+)
  have "map_of schema (key ''properties'') = Some (JObject properties)" by (rule object_of_get[OF p(1)])
  moreover obtain required where "map_of schema (key ''required'') = Some (JList required)" "\<forall>r \<in> set required. \<exists>s. r = JStr s"
    using p(2) by (auto simp: required_field_def get_def list_ex_iff split: jval.splits option.splits if_splits)
  moreover have "\<exists>child. c = JObject child \<and> validate_schema child False = Inr ()" if "(name, c) \<in> set properties" for name c
    using c that by (fastforce simp: eall_eq_Inr ebind_eq_Inr object_of_Inr split: if_splits)
  ultimately show thesis by (intro that[of properties required]) (auto simp: item_of_def)
qed

lemma schema_array:
  assumes "validate_schema schema root = Inr ()" "map_of schema (key ''type'') = Some (JStr (text_of ''array''))"
  obtains items where "map_of schema (key ''items'') = Some (JObject items)" "validate_schema items False = Inr ()"
proof -
  from schema_children_at[OF assms] obtain items where p: "object_of (get schema ''items'') = Inr items" "validate_schema items False = Inr ()"
    by (auto simp: schema_children_def ebind_eq_Inr)
  have "map_of schema (key ''items'') = Some (JObject items)"
    using p(1) by (auto simp: object_of_def get_def split: jval.splits option.splits)
  with p(2) that show thesis by blast
qed

lemma get_allowed:
  assumes "get schema name \<noteq> JNull" "fst ` set schema \<subseteq> allowed_fields kind"
  shows "key name \<in> allowed_fields kind"
proof -
  from assms(1) obtain v where "map_of schema (key name) = Some v" by (auto simp: get_def split: option.splits)
  then have "key name \<in> fst ` set schema" by (metis domI dom_map_of_conv_image_fst)
  with assms(2) show ?thesis by blast
qed

lemma bound_kinds:
  assumes "get schema name \<noteq> JNull" "fst ` set schema \<subseteq> allowed_fields kind"
  shows "name \<in> {''minimum'', ''maximum''} \<Longrightarrow> kind \<in> {text_of ''integer'', text_of ''number''}"
    "name \<in> {''minLength'', ''maxLength''} \<Longrightarrow> kind = text_of ''string''"
    "name \<in> {''minItems'', ''maxItems''} \<Longrightarrow> kind = text_of ''array''"
  using get_allowed[OF assms] by (auto simp: allowed_fields_def split: if_splits)

lemma schema_bound_get:
  assumes "eall (schema_bounds schema kind) [(''minimum'', ''maximum''), (''minLength'', ''maxLength''), (''minItems'', ''maxItems'')] = Inr ()"
  shows "name \<in> {''minimum'', ''maximum''} \<Longrightarrow> schema_bound kind ''minimum'' (get schema name) = Inr ()"
    "name \<in> {''minLength'', ''maxLength''} \<Longrightarrow> schema_bound kind ''minLength'' (get schema name) = Inr ()"
    "name \<in> {''minItems'', ''maxItems''} \<Longrightarrow> schema_bound kind ''minItems'' (get schema name) = Inr ()"
  using assms by (auto simp: schema_bounds_def Let_def ebind_eq_Inr)

lemma numeric_valid:
  assumes "scalar_valid v kind" "kind \<in> {text_of ''integer'', text_of ''number''}"
  shows "numeric v \<noteq> None"
  using assms by (auto simp: scalar_valid_def numeric_def split: jval.splits if_splits)

lemma scalar_valid_string: "scalar_valid v (text_of ''string'') \<longleftrightarrow> (\<exists>s. v = JStr s)"
  by (cases v) (simp_all add: scalar_valid_def)

lemma json_less_total: "numeric a \<noteq> None \<Longrightarrow> numeric b \<noteq> None \<Longrightarrow> \<exists>x. json_less a b = Inr x"
  by (auto simp: json_less_def)

lemma bound_total:
  assumes "get schema name \<noteq> JNull \<Longrightarrow> \<exists>x. violates (get schema name) = Inr x"
  shows "refused_or joined (bound_check schema name violates)"
  using assms by (cases "get schema name = JNull") (auto simp: bound_check_def)

text \<open>What the check of the kind has established of the value.\<close>

definition kind_checked :: "jval \<Rightarrow> ustr \<Rightarrow> bool" where
  "kind_checked v kind \<longleftrightarrow>
     (if kind = text_of ''object'' then (\<exists>d. v = JObject d) else if kind = text_of ''array'' then (\<exists>vs. v = JList vs)
      else scalar_valid v kind)"

lemma constraints_total:
  assumes s: "validate_schema schema root = Inr ()" and k: "map_of schema (key ''type'') = Some (JStr kind)"
    and v: "kind_checked v kind"
  shows "refused_or joined (constraints v schema)"
proof -
  obtain kind' where "map_of schema (key ''type'') = Some (JStr kind')" "kind' \<in> SCHEMA_TYPES"
    and S': "fst ` set schema \<subseteq> allowed_fields kind'" "schema_enum schema kind' = Inr ()"
    "eall (schema_bounds schema kind') [(''minimum'', ''maximum''), (''minLength'', ''maxLength''), (''minItems'', ''maxItems'')] = Inr ()"
    by (rule schema_kind[OF s])
  with k have S: "fst ` set schema \<subseteq> allowed_fields kind" "schema_enum schema kind = Inr ()"
    "eall (schema_bounds schema kind) [(''minimum'', ''maximum''), (''minLength'', ''maxLength''), (''minItems'', ''maxItems'')] = Inr ()"
    by simp_all
  have ob: "kind \<noteq> text_of ''object'' \<and> kind \<noteq> text_of ''array''" if "kind \<in> {text_of ''integer'', text_of ''number'', text_of ''string''}"
    using that by auto
  have number: "\<exists>x. json_less v (get schema name) = Inr x" "\<exists>x. json_less (get schema name) v = Inr x"
    if "get schema name \<noteq> JNull" "name \<in> {''minimum'', ''maximum''}" for name
  proof -
    have n: "kind \<in> {text_of ''integer'', text_of ''number''}" by (rule bound_kinds(1)[OF that(1) S(1) that(2)])
    then have "scalar_valid v kind" using v ob by (auto simp: kind_checked_def)
    moreover have "scalar_valid (get schema name) kind"
      using schema_bound_get(1)[OF S(3) that(2)] that(1)
      by (simp add: schema_bound_def validate_scalar_value_def reject_eq split: if_splits)
    ultimately show "\<exists>x. json_less v (get schema name) = Inr x" "\<exists>x. json_less (get schema name) v = Inr x"
      using numeric_valid n json_less_total by blast+
  qed
  have len: "\<exists>x. ebind (json_len v) (\<lambda>n. json_less n (get schema name)) = Inr x"
    "\<exists>x. ebind (json_len v) (\<lambda>n. json_less (get schema name) n) = Inr x"
    if "get schema name \<noteq> JNull" "name \<in> {''minLength'', ''maxLength'', ''minItems'', ''maxItems''}" for name
  proof -
    note nn = that(1) and names = that(2)
    consider (texts) "name \<in> {''minLength'', ''maxLength''}" | (items) "name \<in> {''minItems'', ''maxItems''}"
      using names by blast
    then have "((\<exists>s. v = JStr s) \<or> (\<exists>vs. v = JList vs)) \<and> (\<exists>i. get schema name = JInt i)"
    proof cases
      case texts
      then have "kind = text_of ''string''" by (rule bound_kinds(2)[OF nn S(1)])
      moreover have "schema_bound kind ''minLength'' (get schema name) = Inr ()" by (rule schema_bound_get(2)[OF S(3) texts])
      ultimately show ?thesis using v scalar_valid_string[of v] nn
        by (cases "get schema name") (simp_all add: kind_checked_def schema_bound_def)
    next
      case items
      then have "kind = text_of ''array''" by (rule bound_kinds(3)[OF nn S(1)])
      moreover have "schema_bound kind ''minItems'' (get schema name) = Inr ()" by (rule schema_bound_get(3)[OF S(3) items])
      ultimately show ?thesis using v nn
        by (cases "get schema name") (simp_all add: kind_checked_def schema_bound_def)
    qed
    then obtain n i where n: "json_len v = Inr (JInt n)" "get schema name = JInt i" by (auto simp: json_len_def)
    then show "\<exists>x. ebind (json_len v) (\<lambda>n. json_less n (get schema name)) = Inr x"
      "\<exists>x. ebind (json_len v) (\<lambda>n. json_less (get schema name) n) = Inr x"
      by (simp_all add: json_less_def numeric_def)
  qed
  have "refused_or joined (enum_check v schema)"
  proof (cases "map_of schema (key ''enum'')")
    case None
    then show ?thesis by (simp add: enum_check_def get_def)
  next
    case (Some e)
    with S(2) obtain cs where "e = JList cs" by (auto simp: schema_enum_def split: jval.splits)
    with Some show ?thesis by (simp add: enum_check_def get_def)
  qed
  then show ?thesis unfolding constraints_def
    by (intro refused_or_ebind bound_total number len) simp_all
qed

lemma validate_value_total:
  "validate_schema schema root = Inr () \<Longrightarrow> joined \<or> string_keys v \<Longrightarrow> refused_or joined (validate_value v schema)"
proof (induction v schema arbitrary: root rule: validate_value.induct)
  case (1 v schema)
  obtain kind where k: "map_of schema (key ''type'') = Some (JStr kind)" "kind \<in> SCHEMA_TYPES"
    by (rule schema_kind[OF 1(3)])
  then have ki: "item_of schema ''type'' = Inr (JStr kind)" by (simp add: item_of_def)
  have fin: "refused_or joined (ebind m (\<lambda>_. constraints v schema))" if "refused_or joined m" "m = Inr () \<Longrightarrow> kind_checked v kind" for m
    using that constraints_total[OF 1(3) k(1)] by (intro refused_or_ebind) auto
  show ?case
  proof (cases "kind = text_of ''object''")
    case True
    obtain properties required where p: "map_of schema (key ''properties'') = Some (JObject properties)"
      "item_of schema ''required'' = Inr (JList required)" "\<forall>r \<in> set required. \<exists>s. r = JStr s"
      "\<forall>(name, c) \<in> set properties. \<exists>child. c = JObject child \<and> validate_schema child False = Inr ()"
      by (rule schema_object[OF 1(3) k(1)[unfolded True]])
    obtain names where names: "required_names (JList required) = Inr names"
      using emap_total[of required "\<lambda>r. case r of JStr s \<Rightarrow> Inr (KStr s) | _ \<Rightarrow> Inl OutsideModel"] p(3)
      by (fastforce simp: required_names_def)
    show ?thesis
    proof (cases v)
      case (JObject d)
      have keys: "joined \<or> (\<forall>(k, x) \<in> set d. (\<exists>s. k = KStr s) \<and> string_keys x)" using 1(4) JObject by simp
      show ?thesis
      proof (cases "object_fields d schema")
        case (Inl e)
        have "joined \<or> list_all (\<lambda>k. case k of KStr _ \<Rightarrow> True | KOther _ \<Rightarrow> False) (filter P (map fst d))" for P
          using keys by (fastforce simp: list_all_iff)
        then have "(\<exists>m. e = ValueError m) \<or> joined \<and> e = TypeError ''sequence item: expected str instance''" using Inl p names
          by (auto simp: object_fields_def item_of_def mapping_of_def Let_def split: if_splits)
        then show ?thesis using Inl JObject True ki by (subst validate_value.simps) (auto simp: refused_or_def)
      next
        case (Inr q)
        have q: "q = properties" "\<forall>k \<in> fst ` set d. k \<in> fst ` set properties"
          using Inr p names
          by (auto simp: object_fields_def item_of_def mapping_of_def Let_def filter_empty_conv split: if_splits)
        have one: "refused_or joined (ebind (or_raise (map_of q k) (KeyError ''property'')) (\<lambda>c. ebind (mapping_of c) (\<lambda>child. validate_value x child)))"
          if kx: "(k, x) \<in> set d" for k x
        proof -
          from q kx obtain c where c: "map_of properties k = Some c"
            by (metis domD dom_map_of_conv_image_fst fst_conv imageI)
          from map_of_SomeD[OF this] p(4) obtain child where ch: "c = JObject child" "validate_schema child False = Inr ()" by auto
          have "refused_or joined (validate_value x child)"
            by (rule 1(1)[OF ki _ JObject Inr kx refl _ _ ch(2)]) (use True keys kx c ch q(1) in \<open>auto simp: mapping_of_def\<close>)
          then show ?thesis using q(1) c ch(1) by (simp add: mapping_of_def)
        qed
        have "validate_value v schema = ebind (eall (\<lambda>(k, x). ebind (or_raise (map_of q k) (KeyError ''property''))
            (\<lambda>c. ebind (mapping_of c) (\<lambda>child. validate_value x child))) d) (\<lambda>_. constraints v schema)"
          using Inr JObject True ki by (subst validate_value.simps) simp
        also have "refused_or joined \<dots>"
          by (rule fin) (use one JObject True in \<open>auto intro!: refused_or_eall simp: kind_checked_def\<close>)
        finally show ?thesis .
      qed
    qed (use True ki in \<open>subst validate_value.simps; simp\<close>)+
  next
    case nobj: False
    show ?thesis
    proof (cases "kind = text_of ''array''")
      case True
      obtain items where it: "map_of schema (key ''items'') = Some (JObject items)" "validate_schema items False = Inr ()"
        by (rule schema_array[OF 1(3) k(1)[unfolded True]])
      show ?thesis
      proof (cases v)
        case (JList vs)
        have one: "refused_or joined (validate_value x items)" if x: "x \<in> set vs" for x
          by (rule 1(2)[OF ki _ _ JList x _ _ it(2)])
            (use True 1(4) JList x it(1) in \<open>auto simp: item_of_def mapping_of_def\<close>)
        have "validate_value v schema = ebind (eall (\<lambda>x. validate_value x items) vs) (\<lambda>_. constraints v schema)"
          using JList True ki it(1) by (subst validate_value.simps) (simp add: item_of_def[of _ "''items''"] mapping_of_def)
        also have "refused_or joined \<dots>"
          by (rule fin) (use one JList True in \<open>auto intro!: refused_or_eall simp: kind_checked_def\<close>)
        finally show ?thesis .
      qed (use True ki in \<open>subst validate_value.simps; simp\<close>)+
    next
      case False
      with k(2) nobj have sc: "kind \<in> SCALAR_TYPES" by (auto simp: SCHEMA_TYPES_def)
      have "validate_value v schema = ebind (validate_scalar_value v kind) (\<lambda>_. constraints v schema)"
        using False nobj ki by (subst validate_value.simps) simp
      also have "refused_or joined \<dots>"
        by (rule fin) (use sc False nobj in \<open>auto simp: validate_scalar_value_def kind_checked_def reject_eq split: if_splits\<close>)
      finally show ?thesis .
    qed
  qed
qed

section \<open>Canonical configurations\<close>

lemma plain_json_Inr: "plain_json v = Inr w \<Longrightarrow> w = v"
proof (induction v arbitrary: w)
  case (JList vs)
  then obtain ws where w: "w = JList ws" "list_all2 (\<lambda>v w. plain_json v = Inr w) vs ws" by (auto simp: err_simps emap_eq_Inr)
  have "ws ! i = vs ! i" if "i < length vs" for i
    using JList.IH[of "vs ! i"] w(2) that by (simp add: list_all2_conv_all_nth)
  with w show ?case by (auto simp: list_all2_conv_all_nth intro: nth_equalityI)
next
  case (JObject d)
  have one: "p = (k, v)" if "(k, v) \<in> set d" "(case k of KOther _ \<Rightarrow> Inl (ValueError ''contains a non-string field name'')
     | KStr s \<Rightarrow> ebind (plain_json v) (\<lambda>w. Inr (KStr s, w))) = Inr p" for k v p
    using JObject.IH[OF that(1)] that(2) by (cases k) (auto simp: err_simps)
  from JObject.prems obtain e where w: "w = JObject e" "list_all2 (\<lambda>(k, v) p. (case k of KOther _ \<Rightarrow> Inl (ValueError ''contains a non-string field name'')
     | KStr s \<Rightarrow> ebind (plain_json v) (\<lambda>w. Inr (KStr s, w))) = Inr p) d e"
    by (auto simp: err_simps emap_eq_Inr case_prod_unfold)
  have "e ! i = d ! i" if "i < length d" for i
    using one[of "fst (d ! i)" "snd (d ! i)" "e ! i"] w(2) that by (auto simp: list_all2_conv_all_nth case_prod_unfold)
  with w show ?case by (auto simp: list_all2_conv_all_nth intro: nth_equalityI)
qed simp_all

lemma canonicalize_Inr:
  assumes "validate_and_canonicalize fr c (Some m) = Inr data" "c \<noteq> JNull"
  obtains s where "dumps fr False c = Inr s" "utf8_encode s = Inr data" "validate_value c (cf_schema m) = Inr ()" "\<exists>d. c = JObject d"
proof -
  from assms obtain d where d: "c = JObject d" by (auto simp: validate_and_canonicalize_def split: jval.splits)
  from assms d obtain p where p: "validate_value c (cf_schema m) = Inr ()" "plain_json c = Inr p"
    by (auto simp: validate_and_canonicalize_def err_simps)
  then have pc: "p = c" by (intro plain_json_Inr)
  show thesis
  proof (cases "c = JObject []")
    case True
    then have "data = [123, 125]" using assms p pc
      by (auto simp: validate_and_canonicalize_def EMPTY_CONFIGURATION_BYTES_def err_simps)
    moreover have "utf8_encode [123, 125] = Inr [123, 125]" by (simp add: utf8_char_def byte_of_def)
    moreover have "dumps fr False c = Inr [123, 125]" using True by simp
    ultimately show thesis using p(1) d that by blast
  next
    case False
    then have "ebind (dumps fr False c) utf8_encode = Inr data"
      using assms p pc d by (auto simp: validate_and_canonicalize_def err_simps split: sum.splits if_splits)
    then show thesis using p(1) d that by (auto simp: err_simps)
  qed
qed

lemma canonical_bytes:
  assumes "float_repr_ok fr" "well False c" "well False c'" "c \<noteq> JNull" "c' \<noteq> JNull"
    and "validate_and_canonicalize fr c (Some m) = Inr data" "validate_and_canonicalize fr c' (Some m') = Inr data'"
  shows "data = data' \<longleftrightarrow> same_json c c'"
proof -
  obtain s where s: "dumps fr False c = Inr s" "utf8_encode s = Inr data" by (rule canonicalize_Inr[OF assms(6,4)])
  obtain s' where s': "dumps fr False c' = Inr s'" "utf8_encode s' = Inr data'" by (rule canonicalize_Inr[OF assms(7,5)])
  have "data = data' \<longleftrightarrow> s = s'"
    using utf8_decode_encode[OF s(2)] utf8_decode_encode[OF s'(2)] s(2) s'(2) by auto
  with canonical_text[OF assms(1-3) s(1)] s'(1) show ?thesis by auto
qed

section \<open>What canonicalization raises\<close>

lemma emap_refused: "emap f xs = Inl e \<Longrightarrow> \<exists>x \<in> set xs. f x = Inl e"
  by (induction xs) (auto simp: ebind_eq_Inl)

lemma plain_json_refused: "plain_json v = Inl e \<Longrightarrow> \<exists>s. e = ValueError s"
proof (induction v rule: plain_json.induct)
  case (1 d)
  then obtain k v where kv: "(k, v) \<in> set d" "(case k of KOther _ \<Rightarrow> Inl (ValueError ''contains a non-string field name'')
     | KStr s \<Rightarrow> ebind (plain_json v) (\<lambda>w. Inr (KStr s, w))) = Inl e"
    by (fastforce simp: ebind_eq_Inl dest!: emap_refused)
  then show ?case using 1(1)[OF kv(1) refl] by (auto simp: err_simps split: jkey.splits)
next
  case (2 vs)
  then show ?case by (fastforce simp: ebind_eq_Inl dest!: emap_refused)
qed simp_all

lemma parsed_schema:
  assumes "parse_configuration_metadata fr sha p document = Inr (Some m)"
  shows "validate_schema (cf_schema m) True = Inr ()"
proof (cases "document = JNull")
  case True
  then show ?thesis using assms by (simp add: parse_configuration_metadata_def)
next
  case False
  note a = assms[unfolded parse_configuration_metadata_def if_not_P[OF False] Let_def ebind_eq_Inr]
  from a obtain d where "object_of document = Inr d" by blast
  with a show ?thesis
    by (auto simp: ebind_eq_Inr split: jval.split_asm if_split_asm)
qed

end
