(* ===== verification/Runtime.thy ===== *)
theory Runtime
  imports Isolated_Backend Configuration
begin

text \<open>
  The runtime: \<open>packages/wmfs/wmfs/runtime.py\<close>, with \<open>transport/deadlines.py\<close>. Each method is a
  function on the state for every section it runs under its lock; \<open>runtime_step\<close> puts the
  sections of the concurrent methods in order.

  Backends are values of type \<open>'b\<close>; making, initializing, naming and closing them are arguments
  (the isolated backend is Isolated_Backend). Logging options are values of type \<open>'l\<close>. Finding the
  manifests is the argument of the methods that load plugins.
\<close>

section \<open>Manifests and names\<close>

record 'l Manifest =
  mf_name :: string
  mf_metadata :: PluginMetadata
  mf_configuration :: "ConfigurationMetadata option"
  mf_configuration_bytes :: bytes
  mf_python_provider :: "string option"
  mf_bundled_namespace :: "string option"
  mf_has_initialize :: bool
  mf_has_shutdown :: bool
  mf_logging :: 'l

text \<open>\<open>str.isidentifier\<close>, up to code point 255.\<close>

definition id_start :: "char \<Rightarrow> bool" where
  "id_start c \<longleftrightarrow> (let n = of_char c :: nat in (65 \<le> n \<and> n \<le> 90) \<or> (97 \<le> n \<and> n \<le> 122) \<or> n \<in> {95, 170, 181, 186} \<or>
     (192 \<le> n \<and> n \<noteq> 215 \<and> n \<noteq> 247))"

definition id_continue :: "char \<Rightarrow> bool" where
  "id_continue c \<longleftrightarrow> (let n = of_char c :: nat in id_start c \<or> (48 \<le> n \<and> n \<le> 57) \<or> n = 183)"

definition is_identifier :: "string \<Rightarrow> bool" where
  "is_identifier s \<longleftrightarrow> (case s of [] \<Rightarrow> False | c # cs \<Rightarrow> id_start c \<and> list_all id_continue cs)"

definition KEYWORDS :: "string list" where
  "KEYWORDS = [''False'', ''None'', ''True'', ''and'', ''as'', ''assert'', ''async'', ''await'', ''break'', ''class'',
     ''continue'', ''def'', ''del'', ''elif'', ''else'', ''except'', ''finally'', ''for'', ''from'', ''global'', ''if'',
     ''import'', ''in'', ''is'', ''lambda'', ''nonlocal'', ''not'', ''or'', ''pass'', ''raise'', ''return'', ''try'',
     ''while'', ''with'', ''yield'']"

definition RESERVED_OPERATION_NAMES :: "string list" where
  "RESERVED_OPERATION_NAMES = [''ConfigurationMetadata'', ''__version__'', ''api'', ''empty'', ''list_configurable'',
     ''ones'', ''ops'', ''randn'', ''runtime'', ''zeros'']"

definition public_name :: "string \<Rightarrow> bool" where
  "public_name s \<longleftrightarrow> is_identifier s \<and> s \<notin> set KEYWORDS \<and> hd s \<noteq> CHR ''_''"

definition local_name :: "string \<Rightarrow> string" where
  "local_name q = tl (dropWhile (\<lambda>c. c \<noteq> CHR ''.'') q)"

definition validate_public_operations :: "Registry \<Rightarrow> unit result" where
  "validate_public_operations r =
     ebind (eall (\<lambda>p. reject (\<not> public_name p) (ValueError ''Plugin name cannot be used as an API namespace'')) (plugin_names r)) (\<lambda>_.
     eall (\<lambda>q.
       let name = local_name q in
       ebind (if public_name name \<and> name \<in> set RESERVED_OPERATION_NAMES
              then ebind (operation_names r) (\<lambda>ns. Inr (name \<in> set ns)) else Inr False) (\<lambda>taken.
       if \<not> public_name name \<or> taken then Inl (ValueError ''Plugin operation name cannot be published'')
       else
       ebind (operation r q) (\<lambda>o'.
       let params = map python_parameter_name (map tp_name (tensor_inputs o') @ map sp_name (scalar_parameters o')) in
       reject (list_ex (\<lambda>p. \<not> is_identifier p \<or> p \<in> set KEYWORDS \<or> p = ''out'') params \<or> \<not> distinct params)
         (ValueError ''Plugin operation has parameters that cannot be published'')))) (qualified_operation_names r))"

section \<open>Deadlines\<close>

record TransportDeadlines =
  dl_startup :: "64 word"
  dl_request :: "64 word"
  dl_fd_transfer :: "64 word"
  dl_shutdown :: "64 word"
  dl_kill_grace :: "64 word"

definition positive_float :: "64 word \<Rightarrow> bool" where
  "positive_float w \<longleftrightarrow> float_finite w \<and> 0 < float_scaled w"

definition make_deadlines :: "64 word \<Rightarrow> 64 word \<Rightarrow> 64 word \<Rightarrow> 64 word \<Rightarrow> 64 word \<Rightarrow> TransportDeadlines result" where
  "make_deadlines a b c d e =
     (if list_all positive_float [a, b, c, d, e]
      then Inr \<lparr>dl_startup = a, dl_request = b, dl_fd_transfer = c, dl_shutdown = d, dl_kill_grace = e\<rparr>
      else Inl (ValueError ''deadline must be a finite positive number''))"

text \<open>30.0 and 5.0.\<close>

definition DEFAULT_TRANSPORT_DEADLINES :: TransportDeadlines where
  "DEFAULT_TRANSPORT_DEADLINES = \<lparr>dl_startup = 0x403E000000000000, dl_request = 0x403E000000000000,
     dl_fd_transfer = 0x4014000000000000, dl_shutdown = 0x403E000000000000, dl_kill_grace = 0x403E000000000000\<rparr>"

section \<open>State\<close>

record ('b, 'l) Runtime =
  rt_open :: bool
  rt_active_work :: int
  rt_close_generation :: int
  rt_backends :: "(string \<times> 'b) list"
  rt_backend_name :: "string option"
  rt_registry :: Registry
  rt_manifests :: "(string \<times> 'l Manifest) list"
  rt_plugin_configurations :: "(string \<times> bytes) list"
  rt_plugin_logging :: "(string \<times> 'l) list"
  rt_initialized_plugins :: "string set"
  rt_operation_generation :: int
  rt_memory_mode :: string
  rt_arena_bytes :: "int option"
  rt_bundled_implementation :: string
  rt_deadlines :: TransportDeadlines

text \<open>What the runtime asks of backends, and the value of disabled logging.\<close>

record ('b, 'l) Backends =
  bk_bundled :: "string \<Rightarrow> 'b"
  bk_initialize :: "'b \<Rightarrow> 'l Manifest list \<Rightarrow> Registry \<Rightarrow> unit result \<times> 'b"
  bk_operation_names :: "'b \<Rightarrow> string list"
  bk_disabled :: 'l

definition initial_backends :: "('b, 'l) Backends \<Rightarrow> (string \<times> 'b) list" where
  "initial_backends k = [(''bundled'', bk_bundled k ''auto'')]"

definition new_runtime :: "('b, 'l) Backends \<Rightarrow> ('b, 'l) Runtime" where
  "new_runtime k = \<lparr>rt_open = True, rt_active_work = 0, rt_close_generation = 0, rt_backends = initial_backends k,
     rt_backend_name = None, rt_registry = new_registry, rt_manifests = [], rt_plugin_configurations = [],
     rt_plugin_logging = [], rt_initialized_plugins = {}, rt_operation_generation = 0, rt_memory_mode = ''pooled'',
     rt_arena_bytes = None, rt_bundled_implementation = ''auto'', rt_deadlines = DEFAULT_TRANSPORT_DEADLINES\<rparr>"

section \<open>Under the lock\<close>

definition ensure_open :: "(('b, 'l) Runtime, unit) st" where
  "ensure_open = sbind sget (\<lambda>s. sreject (\<not> rt_open s) (RuntimeError ''Runtime is closing''))"

definition accept_work :: "(('b, 'l) Runtime, unit) st" where
  "accept_work = sbind ensure_open (\<lambda>_. smod (\<lambda>s. s\<lparr>rt_active_work := rt_active_work s + 1\<rparr>))"

definition finish_work :: "('b, 'l) Runtime \<Rightarrow> ('b, 'l) Runtime" where
  "finish_work s = s\<lparr>rt_active_work := rt_active_work s - 1\<rparr>"

definition operation_names_locked :: "('b, 'l) Backends \<Rightarrow> ('b, 'l) Runtime \<Rightarrow> string list result" where
  "operation_names_locked k s =
     ebind (operation_names (rt_registry s)) (\<lambda>names.
     case rt_backend_name s of
       None \<Rightarrow> Inr (sorted_list_of_set (set names))
     | Some b \<Rightarrow> ebind (or_raise (map_of (rt_backends s) b) (KeyError ''backend'')) (\<lambda>backend.
         Inr (sorted_list_of_set (set names \<union> set (bk_operation_names k backend)))))"

definition visible_operation_names_locked :: "('b, 'l) Backends \<Rightarrow> ('b, 'l) Runtime \<Rightarrow> string list result" where
  "visible_operation_names_locked k s =
     ebind (operation_names_locked k s) (\<lambda>names.
     Inr (sorted_list_of_set (set names \<union> set (qualified_operation_names (rt_registry s)))))"

definition selected_backend_locked :: "('b, 'l) Runtime \<Rightarrow> 'b result" where
  "selected_backend_locked s =
     (case rt_backend_name s of
        None \<Rightarrow> Inl (RuntimeError ''No execution backend is selected'')
      | Some b \<Rightarrow> or_raise (map_of (rt_backends s) b) (KeyError ''backend''))"

definition manifest_locked :: "('b, 'l) Runtime \<Rightarrow> string \<Rightarrow> 'l Manifest result" where
  "manifest_locked s p = or_raise (map_of (rt_manifests s) p) (KeyError ''Plugin is not loaded'')"

definition mark_operation_plugin_initialized_locked :: "string \<Rightarrow> ('b, 'l) Runtime \<Rightarrow> ('b, 'l) Runtime" where
  "mark_operation_plugin_initialized_locked name s =
     (case plugin_for_operation (rt_registry s) name of
        Inl e \<Rightarrow> s
      | Inr p \<Rightarrow> s\<lparr>rt_initialized_plugins := insert p (rt_initialized_plugins s)\<rparr>)"

text \<open>Readers wait until the runtime is open; \<open>None\<close> is a reader that waits.\<close>

definition when_open :: "(('b, 'l) Runtime \<Rightarrow> 'a) \<Rightarrow> ('b, 'l) Runtime \<Rightarrow> 'a option" where
  "when_open f s = (if rt_open s then Some (f s) else None)"

definition resolve_operation ::
  "('b, 'l) Backends \<Rightarrow> string \<Rightarrow> ('b, 'l) Runtime \<Rightarrow> (int \<times> OperationMetadata option) result option" where
  "resolve_operation k name = when_open (\<lambda>s.
     ebind (visible_operation_names_locked k s) (\<lambda>names.
     if name \<notin> set names then Inl (KeyError ''Operation is not registered'')
     else Inr (rt_operation_generation s, case operation (rt_registry s) name of Inl e \<Rightarrow> None | Inr m \<Rightarrow> Some m)))"

definition list_configurable ::
  "string option \<Rightarrow> ('b, 'l) Runtime \<Rightarrow> ConfigurationMetadata list result option" where
  "list_configurable which = when_open (\<lambda>s.
     case which of
       Some p \<Rightarrow> ebind (manifest_locked s p) (\<lambda>m.
         ebind (or_raise (mf_configuration m) (ValueError ''Plugin is not configurable'')) (\<lambda>c. Inr [c]))
     | None \<Rightarrow> Inr (concat (map (\<lambda>(n, m). case mf_configuration m of None \<Rightarrow> [] | Some c \<Rightarrow> [c]) (sort_key fst (rt_manifests s)))))"

definition validate_config ::
  "(64 word \<Rightarrow> ustr) \<Rightarrow> string \<Rightarrow> jval \<Rightarrow> ('b, 'l) Runtime \<Rightarrow> bytes result option" where
  "validate_config fr p given = when_open (\<lambda>s.
     ebind (manifest_locked s p) (\<lambda>m. validate_and_canonicalize fr given (mf_configuration m)))"

section \<open>Loading\<close>

text \<open>The registry of the manifests, refused when its names cannot be published.\<close>

definition checked_registry :: "'l Manifest list \<Rightarrow> Registry result" where
  "checked_registry ms =
     (case register_all (map mf_metadata ms) new_registry of
        (Inl e, r) \<Rightarrow> Inl e
      | (Inr _, r) \<Rightarrow> ebind (validate_public_operations r) (\<lambda>_. Inr r))"

definition by_name :: "'l Manifest list \<Rightarrow> (string \<times> 'l Manifest) list" where
  "by_name ms = fold (\<lambda>m. AList.update (mf_name m) m) ms []"

definition initialize_backend ::
  "('b, 'l) Backends \<Rightarrow> string \<Rightarrow> 'l Manifest list \<Rightarrow> Registry \<Rightarrow> (('b, 'l) Runtime, unit) st" where
  "initialize_backend k name ms r = sbind sget (\<lambda>s.
     case map_of (rt_backends s) name of
       None \<Rightarrow> sraise (KeyError ''backend'')
     | Some b \<Rightarrow> (case bk_initialize k b ms r of (res, b') \<Rightarrow>
         sbind (smod (\<lambda>s. s\<lparr>rt_backends := AList.update name b' (rt_backends s)\<rparr>)) (\<lambda>_. slift res)))"

definition install_loaded ::
  "('b, 'l) Backends \<Rightarrow> 'l Manifest list \<Rightarrow> Registry \<Rightarrow> ('b, 'l) Runtime \<Rightarrow> ('b, 'l) Runtime" where
  "install_loaded k ms r s = s\<lparr>rt_registry := r, rt_manifests := by_name ms,
     rt_plugin_configurations := map (\<lambda>(n, m). (n, EMPTY_CONFIGURATION_BYTES)) (by_name ms),
     rt_plugin_logging := map (\<lambda>(n, m). (n, bk_disabled k)) (by_name ms),
     rt_initialized_plugins := {}, rt_operation_generation := rt_operation_generation s + 1\<rparr>"

definition load_plugins ::
  "('b, 'l) Backends \<Rightarrow> 'l Manifest list result \<Rightarrow> (('b, 'l) Runtime, unit) st" where
  "load_plugins k found =
     sbind (slift found) (\<lambda>ms.
     sbind (slift (checked_registry ms)) (\<lambda>r.
     sbind ensure_open (\<lambda>_.
     sbind sget (\<lambda>s.
     sbind (if rt_backend_name s = Some ''bundled''
            then initialize_backend k ''bundled'' (map (\<lambda>m. m\<lparr>mf_configuration_bytes := EMPTY_CONFIGURATION_BYTES\<rparr>) ms) r
            else sret ()) (\<lambda>_.
     smod (install_loaded k ms r))))))"

section \<open>Configuring\<close>

datatype 'l py_logging = Keep_logging | Logging 'l | Not_logging

definition configure_plugin ::
  "(64 word \<Rightarrow> ustr) \<Rightarrow> string \<Rightarrow> jval \<Rightarrow> 'l py_logging \<Rightarrow> (('b, 'l) Runtime, unit) st" where
  "configure_plugin fr p given logging =
     sbind ensure_open (\<lambda>_.
     sbind sget (\<lambda>s.
     sbind (slift (manifest_locked s p)) (\<lambda>m.
     sbind (sreject (p \<in> rt_initialized_plugins s) (RuntimeError ''Configure plugin before it is initialized'')) (\<lambda>_.
     sbind (slift (validate_and_canonicalize fr given (mf_configuration m))) (\<lambda>encoded.
     sbind (smod (\<lambda>s. s\<lparr>rt_plugin_configurations := AList.update p encoded (rt_plugin_configurations s)\<rparr>)) (\<lambda>_.
     case logging of
       Keep_logging \<Rightarrow> sret ()
     | Not_logging \<Rightarrow> sraise (TypeError ''logging must be a LoggingOptions value'')
     | Logging l \<Rightarrow> smod (\<lambda>s. s\<lparr>rt_plugin_logging := AList.update p l (rt_plugin_logging s)\<rparr>)))))))"

definition configure_memory :: "string \<Rightarrow> int option \<Rightarrow> (('b, 'l) Runtime, unit) st" where
  "configure_memory mode arena =
     sbind ensure_open (\<lambda>_.
     sbind sget (\<lambda>s.
     sbind (sreject (map_of (rt_backends s) ''isolated'' \<noteq> None) (RuntimeError ''Configure memory before discovering plugins'')) (\<lambda>_.
     sbind (sreject (mode \<notin> {''pooled'', ''arena''}) (ValueError ''Memory mode must be pooled or arena'')) (\<lambda>_.
     smod (\<lambda>s. s\<lparr>rt_memory_mode := mode, rt_arena_bytes := arena\<rparr>)))))"

definition configure_bundled :: "('b, 'l) Backends \<Rightarrow> string \<Rightarrow> (('b, 'l) Runtime, unit) st" where
  "configure_bundled k implementation =
     sbind ensure_open (\<lambda>_.
     sbind sget (\<lambda>s.
     sbind (sreject (rt_backend_name s = Some ''bundled'' \<or> rt_initialized_plugins s \<noteq> {})
       (RuntimeError ''Configure bundled providers before initialization'')) (\<lambda>_.
     sbind (sreject (implementation \<notin> {''auto'', ''python'', ''native''})
       (ValueError ''Bundled implementation must be auto, python, or native'')) (\<lambda>_.
     smod (\<lambda>s. s\<lparr>rt_bundled_implementation := implementation,
       rt_backends := AList.update ''bundled'' (bk_bundled k implementation) (rt_backends s)\<rparr>)))))"

definition configure_deadlines ::
  "64 word \<Rightarrow> 64 word \<Rightarrow> 64 word \<Rightarrow> 64 word \<Rightarrow> 64 word \<Rightarrow> (('b, 'l) Runtime, unit) st" where
  "configure_deadlines a b c d e =
     sbind ensure_open (\<lambda>_.
     sbind sget (\<lambda>s.
     sbind (sreject (map_of (rt_backends s) ''isolated'' \<noteq> None) (RuntimeError ''Configure deadlines before discovering plugins'')) (\<lambda>_.
     sbind (slift (make_deadlines a b c d e)) (\<lambda>dl.
     smod (\<lambda>s. s\<lparr>rt_deadlines := dl\<rparr>)))))"

section \<open>Selecting a backend\<close>

definition found_or :: "'a \<Rightarrow> 'a option \<Rightarrow> 'a" where
  "found_or d x = (case x of None \<Rightarrow> d | Some y \<Rightarrow> y)"

definition configured_manifests :: "('b, 'l) Backends \<Rightarrow> ('b, 'l) Runtime \<Rightarrow> 'l Manifest list" where
  "configured_manifests k s =
     map (\<lambda>(n, m). m\<lparr>mf_configuration_bytes := found_or EMPTY_CONFIGURATION_BYTES (map_of (rt_plugin_configurations s) (mf_name m)),
       mf_logging := found_or (bk_disabled k) (map_of (rt_plugin_logging s) (mf_name m))\<rparr>) (rt_manifests s)"

definition initialize_in_process :: "('b, 'l) Backends \<Rightarrow> string \<Rightarrow> (('b, 'l) Runtime, unit) st" where
  "initialize_in_process k name =
     sbind sget (\<lambda>s.
     sbind (initialize_backend k name (configured_manifests k s) (rt_registry s)) (\<lambda>_.
     smod (\<lambda>s'. s'\<lparr>rt_initialized_plugins := rt_initialized_plugins s' \<union> mf_name ` set (configured_manifests k s)\<rparr>)))"

definition use_backend :: "('b, 'l) Backends \<Rightarrow> string \<Rightarrow> (('b, 'l) Runtime, unit) st" where
  "use_backend k name =
     sbind ensure_open (\<lambda>_.
     sbind sget (\<lambda>s.
     sbind (sreject (map_of (rt_backends s) name = None) (ValueError ''Unknown backend'')) (\<lambda>_.
     sbind (slift (operation_names_locked k s)) (\<lambda>previous_names.
     sbind (if name = ''bundled'' then initialize_in_process k name else sret ()) (\<lambda>_.
     sbind (smod (\<lambda>s. s\<lparr>rt_backend_name := Some name\<rparr>)) (\<lambda>_.
     sbind sget (\<lambda>s'.
     sbind (slift (operation_names_locked k s')) (\<lambda>names.
     if names \<noteq> previous_names then smod (\<lambda>s. s\<lparr>rt_operation_generation := rt_operation_generation s + 1\<rparr>)
     else sret ()))))))))"

section \<open>Invoking\<close>

text \<open>The locked section of \<open>invoke\<close>: what it returns is the backend that runs the operation.\<close>

definition choose_backend :: "string \<Rightarrow> (('b, 'l) Runtime, 'b) st" where
  "choose_backend name = on_error (
     sbind sget (\<lambda>s. sbind (slift (selected_backend_locked s)) (\<lambda>b.
     sbind (smod (mark_operation_plugin_initialized_locked name)) (\<lambda>_. sret b)))) finish_work"

definition begin_invoke :: "string \<Rightarrow> (('b, 'l) Runtime, 'b) st" where
  "begin_invoke name = sbind accept_work (\<lambda>_. choose_backend name)"

definition begin_invoke_registered ::
  "('b, 'l) Backends \<Rightarrow> string \<Rightarrow> int \<Rightarrow> (('b, 'l) Runtime, 'b) st" where
  "begin_invoke_registered k name generation =
     sbind accept_work (\<lambda>_.
     sbind sget (\<lambda>s.
     if generation \<noteq> rt_operation_generation s
     then sbind (smod finish_work) (\<lambda>_. sraise (RuntimeError ''Operation belongs to a stale plugin catalog''))
     else
     sbind (slift (visible_operation_names_locked k s)) (\<lambda>names.
     if name \<notin> set names
     then sbind (smod finish_work) (\<lambda>_. sraise (RuntimeError ''Operation is no longer registered''))
     else choose_backend name)))"

definition begin_construct :: "(('b, 'l) Runtime, 'b) st" where
  "begin_construct = sbind accept_work (\<lambda>_.
     on_error (sbind sget (\<lambda>s. slift (selected_backend_locked s))) finish_work)"

section \<open>Discovering\<close>

definition configuration_for_manifest ::
  "'l Manifest \<Rightarrow> 'l Manifest option \<Rightarrow> (string \<times> bytes) list \<Rightarrow> bytes" where
  "configuration_for_manifest m loaded configurations =
     (let encoded = found_or EMPTY_CONFIGURATION_BYTES (map_of configurations (mf_name m)) in
      case loaded of
        None \<Rightarrow> EMPTY_CONFIGURATION_BYTES
      | Some l \<Rightarrow>
          if encoded = EMPTY_CONFIGURATION_BYTES then EMPTY_CONFIGURATION_BYTES
          else case (mf_configuration l, mf_configuration m) of
            (Some a, Some b) \<Rightarrow> if cf_fingerprint a \<noteq> cf_fingerprint b then EMPTY_CONFIGURATION_BYTES else encoded
          | _ \<Rightarrow> EMPTY_CONFIGURATION_BYTES)"

definition discovered_manifests ::
  "('b, 'l) Backends \<Rightarrow> 'l Manifest list \<Rightarrow> ('b, 'l) Runtime \<Rightarrow> 'l Manifest list" where
  "discovered_manifests k ms s =
     map (\<lambda>m. m\<lparr>mf_configuration_bytes := configuration_for_manifest m (map_of (rt_manifests s) (mf_name m)) (rt_plugin_configurations s),
       mf_logging := found_or (bk_disabled k) (map_of (rt_plugin_logging s) (mf_name m))\<rparr>) ms"

definition install_discovered ::
  "'l Manifest list \<Rightarrow> Registry \<Rightarrow> 'b \<Rightarrow> ('b, 'l) Runtime \<Rightarrow> ('b, 'l) Runtime" where
  "install_discovered ms r replacement s = s\<lparr>rt_registry := r, rt_manifests := by_name ms,
     rt_plugin_configurations := map (\<lambda>(n, m). (n, mf_configuration_bytes m)) (by_name ms),
     rt_plugin_logging := map (\<lambda>(n, m). (n, mf_logging m)) (by_name ms),
     rt_initialized_plugins := fst ` set (by_name ms),
     rt_backends := AList.update ''isolated'' replacement (rt_backends s),
     rt_backend_name := (if rt_backend_name s = Some ''isolated'' then None else rt_backend_name s),
     rt_operation_generation := rt_operation_generation s + 1\<rparr>"

section \<open>Closing\<close>

datatype close_turn = Close_is_mine | Close_waits int

definition begin_close :: "('b, 'l) Runtime \<Rightarrow> close_turn \<times> ('b, 'l) Runtime" where
  "begin_close s =
     (if rt_open s then (Close_is_mine, s\<lparr>rt_open := False\<rparr>) else (Close_waits (rt_close_generation s), s))"

definition finish_close :: "('b, 'l) Backends \<Rightarrow> ('b, 'l) Runtime \<Rightarrow> ('b, 'l) Runtime" where
  "finish_close k s = s\<lparr>rt_backends := initial_backends k, rt_backend_name := None, rt_registry := new_registry,
     rt_manifests := [], rt_plugin_configurations := [], rt_plugin_logging := [], rt_initialized_plugins := {},
     rt_operation_generation := rt_operation_generation s + 1, rt_memory_mode := ''pooled'', rt_arena_bytes := None,
     rt_bundled_implementation := ''auto'', rt_deadlines := DEFAULT_TRANSPORT_DEADLINES, rt_open := True,
     rt_close_generation := rt_close_generation s + 1\<rparr>"

section \<open>Threads\<close>

text \<open>The methods that run under the lock from beginning to end.\<close>

datatype 'l runtime_call =
    Load "'l Manifest list result"
  | Configure string jval "'l py_logging"
  | Configure_memory string "int option"
  | Configure_bundled string
  | Configure_deadlines "64 word" "64 word" "64 word" "64 word" "64 word"
  | Use string

fun perform_call :: "('b, 'l) Backends \<Rightarrow> (64 word \<Rightarrow> ustr) \<Rightarrow> 'l runtime_call \<Rightarrow> (('b, 'l) Runtime, unit) st" where
  "perform_call k fr (Load found) = load_plugins k found"
| "perform_call k fr (Configure p given l) = configure_plugin fr p given l"
| "perform_call k fr (Configure_memory mode n) = configure_memory mode n"
| "perform_call k fr (Configure_bundled i) = configure_bundled k i"
| "perform_call k fr (Configure_deadlines a b c d e) = configure_deadlines a b c d e"
| "perform_call k fr (Use name) = use_backend k name"

text \<open>The methods that hand work to a backend.\<close>

datatype runtime_entry = Invoke string | Invoke_registered string int | Construct

fun begin_work :: "('b, 'l) Backends \<Rightarrow> runtime_entry \<Rightarrow> (('b, 'l) Runtime, 'b) st" where
  "begin_work k (Invoke name) = begin_invoke name"
| "begin_work k (Invoke_registered name g) = begin_invoke_registered k name g"
| "begin_work k Construct = begin_construct"

text \<open>Where a thread is between two locked sections: \<open>Running b\<close> has handed work to the backend
  \<open>b\<close>; a discovery has found its manifests, has looked up their configurations, and has installed
  the new backend and closes the old one; \<open>Closing_waits\<close> waits for the work, \<open>Closing bs\<close> closes
  the backends \<open>bs\<close>, and \<open>Joining g\<close> waits for the thread that closes.\<close>

datatype ('b, 'l) task =
    Running 'b
  | Discovering "'l Manifest list"
  | Discovered "'l Manifest list"
  | Replaced "'b option"
  | Closing_waits
  | Closing "'b list"
  | Joining int

record ('b, 'l) Runtime_World =
  rt_state :: "('b, 'l) Runtime"
  tasks :: "('b, 'l) task multiset"
  shut :: "'b list"

definition trade :: "('b, 'l) task multiset \<Rightarrow> ('b, 'l) task multiset \<Rightarrow> ('b, 'l) Runtime_World \<Rightarrow> ('b, 'l) Runtime_World" where
  "trade old new w = w\<lparr>tasks := tasks w - old + new\<rparr>"

definition finished :: "('b, 'l) task \<Rightarrow> ('b, 'l) Runtime_World \<Rightarrow> ('b, 'l) Runtime_World" where
  "finished t w = trade {#t#} {#} (w\<lparr>rt_state := finish_work (rt_state w)\<rparr>)"

inductive runtime_step ::
  "('b, 'l) Backends \<Rightarrow> (64 word \<Rightarrow> ustr) \<Rightarrow> ('b, 'l) Runtime_World \<Rightarrow> ('b, 'l) Runtime_World \<Rightarrow> bool"
  for k :: "('b, 'l) Backends" and fr :: "64 word \<Rightarrow> ustr" where
  call: "perform_call k fr c (rt_state w) = (r, s) \<Longrightarrow> runtime_step k fr w (w\<lparr>rt_state := s\<rparr>)"
| work_begins: "begin_work k how (rt_state w) = (Inr b, s) \<Longrightarrow>
    runtime_step k fr w (trade {#} {#Running b#} (w\<lparr>rt_state := s\<rparr>))"
| work_refused: "begin_work k how (rt_state w) = (Inl e, s) \<Longrightarrow> runtime_step k fr w (w\<lparr>rt_state := s\<rparr>)"
| work_ends: "Running b \<in># tasks w \<Longrightarrow> runtime_step k fr w (finished (Running b) w)"
| discovery_begins: "accept_work (rt_state w) = (Inr (), s) \<Longrightarrow>
    runtime_step k fr w (trade {#} {#Discovering ms#} (w\<lparr>rt_state := s\<rparr>))"
| discovery_refused: "accept_work (rt_state w) = (Inl e, s) \<Longrightarrow> runtime_step k fr w (w\<lparr>rt_state := s\<rparr>)"
| discovery_looks: "Discovering ms \<in># tasks w \<Longrightarrow>
    runtime_step k fr w (trade {#Discovering ms#} {#Discovered (discovered_manifests k ms (rt_state w))#} w)"
| discovery_fails: "Discovering ms \<in># tasks w \<Longrightarrow> runtime_step k fr w (finished (Discovering ms) w)"
| discovery_refuses: "Discovered ms \<in># tasks w \<Longrightarrow> runtime_step k fr w (finished (Discovered ms) w)"
| discovery_installs: "Discovered ms \<in># tasks w \<Longrightarrow> checked_registry ms = Inr r \<Longrightarrow>
    runtime_step k fr w (trade {#Discovered ms#} {#Replaced (map_of (rt_backends (rt_state w)) ''isolated'')#}
      (w\<lparr>rt_state := install_discovered ms r b (rt_state w)\<rparr>))"
| discovery_ends: "Replaced old \<in># tasks w \<Longrightarrow>
    runtime_step k fr w (finished (Replaced old) (w\<lparr>shut := shut w @ (case old of None \<Rightarrow> [] | Some b \<Rightarrow> [b])\<rparr>))"
| close_begins: "begin_close (rt_state w) = (Close_is_mine, s) \<Longrightarrow>
    runtime_step k fr w (trade {#} {#Closing_waits#} (w\<lparr>rt_state := s\<rparr>))"
| close_joins: "begin_close (rt_state w) = (Close_waits g, s) \<Longrightarrow>
    runtime_step k fr w (trade {#} {#Joining g#} (w\<lparr>rt_state := s\<rparr>))"
| close_interrupted: "Closing_waits \<in># tasks w \<Longrightarrow> runtime_step k fr w (trade {#Closing_waits#} {#} w)"
| close_drained: "Closing_waits \<in># tasks w \<Longrightarrow> rt_active_work (rt_state w) = 0 \<Longrightarrow>
    runtime_step k fr w (trade {#Closing_waits#} {#Closing (map snd (rt_backends (rt_state w)))#} w)"
| close_one: "Closing (b # bs) \<in># tasks w \<Longrightarrow>
    runtime_step k fr w (trade {#Closing (b # bs)#} {#Closing bs#} (w\<lparr>shut := shut w @ [b]\<rparr>))"
| close_ends: "Closing [] \<in># tasks w \<Longrightarrow>
    runtime_step k fr w (trade {#Closing []#} {#} (w\<lparr>rt_state := finish_close k (rt_state w)\<rparr>))"
| joined: "Joining g \<in># tasks w \<Longrightarrow> rt_close_generation (rt_state w) \<noteq> g \<Longrightarrow>
    runtime_step k fr w (trade {#Joining g#} {#} w)"

definition runtime_start :: "('b, 'l) Backends \<Rightarrow> ('b, 'l) Runtime_World" where
  "runtime_start k = \<lparr>rt_state = new_runtime k, tasks = {#}, shut = []\<rparr>"

definition runtime_steps ::
  "('b, 'l) Backends \<Rightarrow> (64 word \<Rightarrow> ustr) \<Rightarrow> ('b, 'l) Runtime_World \<Rightarrow> ('b, 'l) Runtime_World \<Rightarrow> bool" where
  "runtime_steps k fr = (runtime_step k fr)\<^sup>*\<^sup>*"

end
