(* ===== verification/Runtime_Laws.thy ===== *)
theory Runtime_Laws
  imports Runtime
begin

text \<open>
  What the runtime keeps. The count of accepted work is the number of threads that have handed work
  to a backend or discover plugins; one thread at most closes, and it closes backends only when no
  work is left (\<open>runtime_ok\<close>). The catalog is that of the loaded manifests and can be published
  (\<open>catalog_ok\<close>), and what a generation of it publishes never changes (\<open>same_catalog\<close>).
\<close>

section \<open>Invariants of the lock\<close>

fun working :: "('b, 'l) task \<Rightarrow> bool" where
  "working (Running b) = True"
| "working (Discovering ms) = True"
| "working (Discovered ms) = True"
| "working (Replaced old) = True"
| "working t = False"

fun closes :: "('b, 'l) task \<Rightarrow> bool" where
  "closes Closing_waits = True"
| "closes (Closing bs) = True"
| "closes t = False"

definition work_count :: "('b, 'l) task multiset \<Rightarrow> int" where
  "work_count T = int (size (filter_mset working T))"

definition closers :: "('b, 'l) task multiset \<Rightarrow> nat" where
  "closers T = size (filter_mset closes T)"

definition runtime_ok :: "('b, 'l) Runtime_World \<Rightarrow> bool" where
  "runtime_ok w \<longleftrightarrow> rt_active_work (rt_state w) = work_count (tasks w) \<and>
     closers (tasks w) \<le> (if rt_open (rt_state w) then 0 else 1) \<and>
     ((\<exists>bs. Closing bs \<in># tasks w) \<longrightarrow> work_count (tasks w) = 0) \<and>
     (\<forall>g. Joining g \<in># tasks w \<longrightarrow> g \<le> rt_close_generation (rt_state w))"

lemma work_count_simps [simp]:
  "work_count {#} = 0"
  "work_count (add_mset t T) = (if working t then 1 else 0) + work_count T"
  by (auto simp: work_count_def)

lemma closers_simps [simp]:
  "closers {#} = 0"
  "closers (add_mset t T) = (if closes t then 1 else 0) + closers T"
  by (auto simp: closers_def)

text \<open>A method that is one section keeps the part of the state the threads' bookkeeping is in.\<close>

definition bookkeeping :: "('b, 'l) Runtime \<Rightarrow> bool \<times> int \<times> int" where
  "bookkeeping s = (rt_open s, rt_active_work s, rt_close_generation s)"

definition keeps_books :: "(('b, 'l) Runtime, 'a) st \<Rightarrow> bool" where
  "keeps_books m \<longleftrightarrow> (\<forall>s r s'. m s = (r, s') \<longrightarrow> bookkeeping s' = bookkeeping s)"

named_theorems books \<open>methods that keep the bookkeeping\<close>

lemma keeps_booksI: "(\<And>s. bookkeeping (snd (m s)) = bookkeeping s) \<Longrightarrow> keeps_books m"
  by (auto simp: keeps_books_def) (metis snd_conv)

lemma books_sbind [books]: "keeps_books m \<Longrightarrow> (\<And>x. keeps_books (f x)) \<Longrightarrow> keeps_books (sbind m f)"
  by (fastforce simp: keeps_books_def sbind_def split: prod.splits sum.splits)

lemma books_plain [books]:
  "keeps_books (sret x)" "keeps_books (sraise e)" "keeps_books sget" "keeps_books (slift r)" "keeps_books (sreject c e)"
  by (auto simp: keeps_books_def st_simps)

lemma books_smod [books]: "(\<And>s. bookkeeping (f s) = bookkeeping s) \<Longrightarrow> keeps_books (smod f)"
  by (auto simp: keeps_books_def st_simps)

lemma books_if [books]: "keeps_books m \<Longrightarrow> keeps_books n \<Longrightarrow> keeps_books (if c then m else n)"
  by simp

lemma books_initialize [books]: "keeps_books (initialize_backend k name ms r)"
  unfolding initialize_backend_def
  by (intro books_sbind books_plain) (auto split: option.split prod.split simp: bookkeeping_def intro!: books)

lemma books_in_process [books]: "keeps_books (initialize_in_process k name)"
  unfolding initialize_in_process_def by (intro books) (simp add: bookkeeping_def)

lemma books_logging [books]:
  "keeps_books (case l of Keep_logging \<Rightarrow> sret () | Not_logging \<Rightarrow> sraise e
     | Logging x \<Rightarrow> smod (\<lambda>s. s\<lparr>rt_plugin_logging := AList.update p x (rt_plugin_logging s)\<rparr>))"
  by (cases l) (auto intro!: books simp: bookkeeping_def)

lemma books_ensure_open [books]: "keeps_books ensure_open"
  unfolding ensure_open_def by (intro books)

lemma books_call: "keeps_books (perform_call k fr c)"
  by (cases c; simp only: perform_call.simps load_plugins_def configure_plugin_def configure_memory_def
      configure_bundled_def configure_deadlines_def use_backend_def; intro books)
    (simp_all add: bookkeeping_def install_loaded_def)

lemma call_books: "perform_call k fr c s = (r, s') \<Longrightarrow>
   rt_open s' = rt_open s \<and> rt_active_work s' = rt_active_work s \<and> rt_close_generation s' = rt_close_generation s"
  using books_call[of k fr c] by (auto simp: keeps_books_def bookkeeping_def)

section \<open>The catalog\<close>

lemma update_subset: "set (AList.update n x xs) \<subseteq> insert (n, x) (set xs)"
  by (induction xs) auto

text \<open>Every alias names an operation the registry has, so listing the operations never fails.\<close>

definition aliases_found :: "Registry \<Rightarrow> bool" where
  "aliases_found r \<longleftrightarrow> (\<forall>n q. (n, Some q) \<in> set (aliases r) \<longrightarrow> map_of (operations r) q \<noteq> None)"

lemma aliases_found_new: "aliases_found new_registry"
  by (simp add: aliases_found_def new_registry_def)

lemma register_operation_found: "aliases_found r \<Longrightarrow> aliases_found (register_operation p o' r)"
  unfolding aliases_found_def register_operation_def Let_def
  by (auto simp: update_conv' dest!: subsetD[OF update_subset] split: if_splits)

lemma fold_found: "aliases_found r \<Longrightarrow> aliases_found (fold (register_operation p) os r)"
  by (induction os arbitrary: r) (simp_all add: register_operation_found)

lemma register_found: "aliases_found r \<Longrightarrow> register p r = (x, r') \<Longrightarrow> aliases_found r'"
  using fold_found[of "r\<lparr>plugins := AList.update (pm_name p) p (plugins r)\<rparr>" "pm_name p" "pm_operations p"]
  by (auto simp: register_def st_run aliases_found_def split: if_splits)

lemma register_all_found: "aliases_found r \<Longrightarrow> register_all ms r = (x, r') \<Longrightarrow> aliases_found r'"
  by (induction ms arbitrary: r)
    (auto simp: st_run split: prod.splits sum.splits dest: register_found)

lemma checked_registry_found: "checked_registry ms = Inr r \<Longrightarrow> aliases_found r"
  using register_all_found[OF aliases_found_new, of "map mf_metadata ms"]
  by (auto simp: checked_registry_def ebind_eq_Inr split: prod.splits sum.splits)

lemma operation_names_found: "aliases_found r \<Longrightarrow> \<exists>ns. operation_names r = Inr ns"
proof -
  assume "aliases_found r"
  then show ?thesis unfolding operation_names_def
    using emap_total[of "aliases r" "\<lambda>(name, a). case a of None \<Rightarrow> Inr []
       | Some q \<Rightarrow> ebind (or_raise (map_of (operations r) q) (KeyError ''operation'')) (\<lambda>o'.
           Inr (if internal o' then [] else [name]))"]
    by (fastforce simp: aliases_found_def split: option.split)
qed

text \<open>The catalog is the registry of the loaded manifests, and the selected backend is there.\<close>

definition catalog_ok :: "('b, 'l) Runtime \<Rightarrow> bool" where
  "catalog_ok s \<longleftrightarrow> (\<exists>ms. checked_registry ms = Inr (rt_registry s) \<and> rt_manifests s = by_name ms) \<and>
     (\<forall>b. rt_backend_name s = Some b \<longrightarrow> map_of (rt_backends s) b \<noteq> None)"

lemma catalog_ok_names:
  fixes s :: "('b, 'l) Runtime"
  assumes "catalog_ok s"
  obtains ns vs where "operation_names_locked k s = Inr ns" "visible_operation_names_locked k s = Inr vs"
proof -
  obtain ms :: "'l Manifest list" where "checked_registry ms = Inr (rt_registry s)" using assms by (auto simp: catalog_ok_def)
  then obtain ns where "operation_names (rt_registry s) = Inr ns"
    using operation_names_found[OF checked_registry_found] by blast
  moreover have "rt_backend_name s = Some b \<Longrightarrow> \<exists>x. map_of (rt_backends s) b = Some x" for b
    using assms by (auto simp: catalog_ok_def)
  ultimately obtain ns' where "operation_names_locked k s = Inr ns'"
    by (cases "rt_backend_name s") (auto simp: operation_names_locked_def)
  with that show thesis by (simp add: visible_operation_names_locked_def)
qed

lemma validate_new: "validate_public_operations new_registry = Inr ()"
  by (simp add: validate_public_operations_def new_registry_def plugin_names_def qualified_operation_names_def)

lemma catalog_ok_new: "catalog_ok (new_runtime k)"
  by (auto simp: catalog_ok_def new_runtime_def checked_registry_def sret_run by_name_def validate_new intro!: exI[of _ "[]"])

text \<open>What a generation of the catalog publishes.\<close>

definition published :: "('b, 'l) Backends \<Rightarrow> ('b, 'l) Runtime \<Rightarrow> Registry \<times> string list result" where
  "published k s = (rt_registry s, operation_names_locked k s)"

lemma published_visible:
  "published k s' = published k s \<Longrightarrow> visible_operation_names_locked k s' = visible_operation_names_locked k s"
  by (simp add: published_def visible_operation_names_locked_def)

definition catalog_step :: "('b, 'l) Backends \<Rightarrow> ('b, 'l) Runtime \<Rightarrow> ('b, 'l) Runtime \<Rightarrow> bool" where
  "catalog_step k s s' \<longleftrightarrow> (catalog_ok s \<longrightarrow> catalog_ok s' \<and>
     (rt_operation_generation s < rt_operation_generation s' \<or>
      rt_operation_generation s' = rt_operation_generation s \<and> published k s' = published k s))"

lemma catalog_step_refl [simp]: "catalog_step k s s"
  by (simp add: catalog_step_def)

lemma catalog_step_trans: "catalog_step k s s' \<Longrightarrow> catalog_step k s' s'' \<Longrightarrow> catalog_step k s s''"
  by (auto simp: catalog_step_def)

definition keeps_catalog :: "('b, 'l) Backends \<Rightarrow> (('b, 'l) Runtime, 'a) st \<Rightarrow> bool" where
  "keeps_catalog k m \<longleftrightarrow> (\<forall>s r s'. m s = (r, s') \<longrightarrow> catalog_step k s s')"

named_theorems catalog \<open>methods that keep the catalog of a generation\<close>

lemma catalog_sbind [catalog]:
  "keeps_catalog k m \<Longrightarrow> (\<And>x. keeps_catalog k (f x)) \<Longrightarrow> keeps_catalog k (sbind m f)"
  unfolding keeps_catalog_def sbind_def by (fastforce split: prod.splits sum.splits intro: catalog_step_trans)

lemma catalog_plain [catalog]:
  "keeps_catalog k (sret x)" "keeps_catalog k (sraise e)" "keeps_catalog k sget" "keeps_catalog k (slift r)"
  "keeps_catalog k (sreject c e)"
  by (auto simp: keeps_catalog_def st_simps)

lemma catalog_smod [catalog]: "(\<And>s. catalog_step k s (f s)) \<Longrightarrow> keeps_catalog k (smod f)"
  by (auto simp: keeps_catalog_def st_simps)

lemma catalog_on_error [catalog]:
  "keeps_catalog k m \<Longrightarrow> (\<And>s. catalog_step k s (h s)) \<Longrightarrow> keeps_catalog k (on_error m h)"
  by (auto simp: keeps_catalog_def on_error_def split: prod.splits sum.splits) (metis catalog_step_trans)+

lemma catalog_if [catalog]: "keeps_catalog k m \<Longrightarrow> keeps_catalog k n \<Longrightarrow> keeps_catalog k (if c then m else n)"
  by simp

text \<open>A change of the rest of the state.\<close>

lemma catalog_step_other:
  "rt_registry s' = rt_registry s \<Longrightarrow> rt_manifests s' = rt_manifests s \<Longrightarrow> rt_backends s' = rt_backends s \<Longrightarrow>
   rt_backend_name s' = rt_backend_name s \<Longrightarrow> rt_operation_generation s' = rt_operation_generation s \<Longrightarrow>
   catalog_step k s s'"
  by (cases "rt_backend_name s") (simp_all add: catalog_step_def catalog_ok_def published_def operation_names_locked_def)

lemma catalog_ensure_open [catalog]: "keeps_catalog k ensure_open"
  unfolding ensure_open_def by (intro catalog)

lemma catalog_accept [catalog]: "keeps_catalog k accept_work"
  unfolding accept_work_def by (intro catalog) (simp add: catalog_step_other)

lemma catalog_finish: "catalog_step k s (finish_work s)"
  by (simp add: catalog_step_other finish_work_def)

lemma catalog_mark: "catalog_step k s (mark_operation_plugin_initialized_locked name s)"
  by (cases "plugin_for_operation (rt_registry s) name")
    (simp_all add: mark_operation_plugin_initialized_locked_def catalog_step_other)

lemma catalog_choose [catalog]: "keeps_catalog k (choose_backend name)"
  unfolding choose_backend_def by (intro catalog catalog_finish catalog_mark)

lemma catalog_begin: "keeps_catalog k (begin_work k' how)"
  by (cases how; simp only: begin_work.simps begin_invoke_def begin_invoke_registered_def begin_construct_def;
      intro catalog catalog_finish)

lemma catalog_logging [catalog]:
  "keeps_catalog k (case l of Keep_logging \<Rightarrow> sret () | Not_logging \<Rightarrow> sraise e
     | Logging x \<Rightarrow> smod (\<lambda>s. s\<lparr>rt_plugin_logging := AList.update p x (rt_plugin_logging s)\<rparr>))"
  by (cases l) (auto intro!: catalog simp: catalog_step_other)

text \<open>Replacing a backend that is not the selected one.\<close>

lemma catalog_step_backend:
  assumes "rt_backend_name s \<noteq> Some n"
  shows "catalog_step k s (s\<lparr>rt_backends := AList.update n b (rt_backends s)\<rparr>)"
  using assms by (cases "rt_backend_name s")
    (simp_all add: catalog_step_def catalog_ok_def published_def operation_names_locked_def update_conv')

lemma initialize_backend_run:
  assumes "initialize_backend k name ms r s = (res, s')"
  obtains (absent) e where "res = Inl e" "s' = s"
    | (tried) b b' where "map_of (rt_backends s) name = Some b" "bk_initialize k b ms r = (res, b')"
        "s' = s\<lparr>rt_backends := AList.update name b' (rt_backends s)\<rparr>"
proof (cases "map_of (rt_backends s) name")
  case None
  then show thesis using assms absent by (auto simp: initialize_backend_def st_run)
next
  case (Some b)
  obtain res' b' where b': "bk_initialize k b ms r = (res', b')" by fastforce
  then show thesis using assms Some tried[OF Some, of b'] by (auto simp: initialize_backend_def st_run)
qed

text \<open>The next generation of the catalog may be anything that is one.\<close>

lemma catalog_step_next:
  "checked_registry ms = Inr (rt_registry s') \<Longrightarrow> rt_manifests s' = by_name ms \<Longrightarrow>
   (\<And>b. catalog_ok s \<Longrightarrow> rt_backend_name s' = Some b \<Longrightarrow> map_of (rt_backends s') b \<noteq> None) \<Longrightarrow>
   rt_operation_generation s' = rt_operation_generation s + 1 \<Longrightarrow> catalog_step k s s'"
  by (auto simp: catalog_step_def catalog_ok_def)

text \<open>What the catalog needs of the backends: one whose initialization fails publishes what it did.\<close>

locale runtime_backends =
  fixes k :: "('b, 'l) Backends"
  assumes failed_initialize: "bk_initialize k b ms r = (Inl e, b') \<Longrightarrow> bk_operation_names k b' = bk_operation_names k b"
begin

lemma catalog_step_failed:
  assumes "map_of (rt_backends s) name = Some b" "bk_initialize k b ms r = (Inl e, b')"
  shows "catalog_step k s (s\<lparr>rt_backends := AList.update name b' (rt_backends s)\<rparr>)"
proof (cases "rt_backend_name s = Some name")
  case True
  then show ?thesis using assms(1) failed_initialize[OF assms(2)]
    by (simp add: catalog_step_def catalog_ok_def published_def operation_names_locked_def update_conv')
qed (simp add: catalog_step_backend)

lemma catalog_load: "keeps_catalog k (load_plugins k found)"
proof -
  have "catalog_step k s s'" if l: "load_plugins k found s = (res, s')" for s res s'
  proof (cases "\<exists>ms r. found = Inr ms \<and> checked_registry ms = Inr r \<and> rt_open s")
    case False
    then show ?thesis using l
      by (cases found; cases "checked_registry (projr found)")
        (auto simp: load_plugins_def ensure_open_def st_run split: if_splits)
  next
    case True
    then obtain ms r where f: "found = Inr ms" "checked_registry ms = Inr r" "rt_open s" by blast
    show ?thesis
    proof (cases "rt_backend_name s = Some ''bundled''")
      case False
      then have "s' = install_loaded k ms r s"
        using l f by (simp add: load_plugins_def ensure_open_def st_run)
      then show ?thesis using f by (intro catalog_step_next[of ms]) (auto simp: install_loaded_def catalog_ok_def)
    next
      case True
      let ?ms = "map (\<lambda>m. m\<lparr>mf_configuration_bytes := EMPTY_CONFIGURATION_BYTES\<rparr>) ms"
      obtain x t where i: "initialize_backend k ''bundled'' ?ms r s = (x, t)" by fastforce
      have s': "s' = (case x of Inl e \<Rightarrow> t | Inr _ \<Rightarrow> install_loaded k ms r t)"
        using l f True i by (auto simp: load_plugins_def ensure_open_def st_run split: sum.splits)
      from i show ?thesis
      proof (cases rule: initialize_backend_run)
        case absent
        then show ?thesis using s' by simp
      next
        case (tried b b')
        then show ?thesis
        proof (cases x)
          case (Inl e)
          then show ?thesis using s' tried catalog_step_failed by simp
        next
          case (Inr u)
          then show ?thesis using s' tried f True
            by (intro catalog_step_next[of ms]) (auto simp: install_loaded_def update_conv')
        qed
      qed
    qed
  qed
  then show ?thesis by (auto simp: keeps_catalog_def)
qed

lemma in_process_ok:
  assumes "catalog_ok s" "initialize_in_process k name s = (x, t)" "map_of (rt_backends s) name \<noteq> None"
  shows "catalog_ok t \<and> rt_registry t = rt_registry s \<and> map_of (rt_backends t) name \<noteq> None \<and>
    rt_operation_generation t = rt_operation_generation s \<and> (\<forall>e. x = Inl e \<longrightarrow> catalog_step k s t)"
proof -
  obtain y u where i: "initialize_backend k name (configured_manifests k s) (rt_registry s) s = (y, u)" by fastforce
  then have t: "(x, t) = (case y of Inl e \<Rightarrow> (Inl e, u) | Inr _ \<Rightarrow> (Inr (),
      u\<lparr>rt_initialized_plugins := rt_initialized_plugins u \<union> mf_name ` set (configured_manifests k s)\<rparr>))"
    using assms(2) by (cases y) (auto simp: initialize_in_process_def st_run)
  from i show ?thesis
  proof (cases rule: initialize_backend_run)
    case absent
    then show ?thesis using t assms by simp
  next
    case (tried b b')
    moreover have "catalog_ok u" using assms(1) tried by (simp add: catalog_ok_def update_conv')
    ultimately show ?thesis using t catalog_step_failed[OF tried(1)]
      by (cases y) (auto simp: catalog_ok_def update_conv')
  qed
qed

lemma catalog_use: "keeps_catalog k (use_backend k name)"
proof -
  have "catalog_step k s s'" if u: "use_backend k name s = (res, s')" and ok: "catalog_ok s" for s res s'
  proof (cases "rt_open s \<and> map_of (rt_backends s) name \<noteq> None")
    case False
    then show ?thesis using u by (auto simp: use_backend_def ensure_open_def st_run split: if_splits)
  next
    case True
    obtain ns where ns: "operation_names_locked k s = Inr ns" using catalog_ok_names[OF ok] by blast
    define t where "t = (if name = ''bundled'' then initialize_in_process k name s else (Inr (), s))"
    show ?thesis
    proof (cases t)
      case (Pair x t1)
      have ok1: "catalog_ok t1 \<and> rt_registry t1 = rt_registry s \<and> map_of (rt_backends t1) name \<noteq> None \<and>
          rt_operation_generation t1 = rt_operation_generation s \<and> (\<forall>e. x = Inl e \<longrightarrow> catalog_step k s t1)"
        using in_process_ok[OF ok] ok True Pair unfolding t_def by (cases "name = ''bundled''") auto
      let ?t2 = "t1\<lparr>rt_backend_name := Some name\<rparr>"
      have ok2: "catalog_ok ?t2" using ok1 by (auto simp: catalog_ok_def)
      obtain ns' where ns': "operation_names_locked k ?t2 = Inr ns'" using catalog_ok_names[OF ok2] by blast
      have "s' = (case x of Inl e \<Rightarrow> t1 | Inr _ \<Rightarrow>
          if ns' \<noteq> ns then ?t2\<lparr>rt_operation_generation := rt_operation_generation s + 1\<rparr> else ?t2)"
        using u True ns ns' Pair ok1 unfolding t_def
        by (auto simp: use_backend_def ensure_open_def st_run split: sum.splits if_splits)
      then show ?thesis using ok1 ok2 ns ns'
        by (auto simp: catalog_step_def published_def catalog_ok_def split: sum.splits)
    qed
  qed
  then show ?thesis unfolding keeps_catalog_def catalog_step_def by blast
qed

lemma catalog_bundled: "keeps_catalog k (configure_bundled k i)"
proof -
  have "catalog_step k s (s\<lparr>rt_bundled_implementation := i, rt_backends := AList.update ''bundled'' (bk_bundled k i) (rt_backends s)\<rparr>)"
    if "rt_backend_name s \<noteq> Some ''bundled''" for s
  proof (rule catalog_step_trans)
    show "catalog_step k s (s\<lparr>rt_bundled_implementation := i\<rparr>)" by (simp add: catalog_step_other)
    show "catalog_step k (s\<lparr>rt_bundled_implementation := i\<rparr>)
        (s\<lparr>rt_bundled_implementation := i, rt_backends := AList.update ''bundled'' (bk_bundled k i) (rt_backends s)\<rparr>)"
      using catalog_step_backend[of "s\<lparr>rt_bundled_implementation := i\<rparr>" "''bundled''" k "bk_bundled k i"] that by simp
  qed
  then show ?thesis
    by (auto simp: keeps_catalog_def configure_bundled_def ensure_open_def st_run split: if_splits)
qed

lemma catalog_call: "keeps_catalog k (perform_call k fr c)"
proof (cases c)
  case (Configure p given l)
  show ?thesis unfolding Configure perform_call.simps configure_plugin_def
    by (intro catalog) (simp add: catalog_step_other)
next
  case (Configure_memory mode n)
  show ?thesis unfolding Configure_memory perform_call.simps configure_memory_def
    by (intro catalog) (simp add: catalog_step_other)
next
  case (Configure_deadlines a b c d e)
  show ?thesis unfolding Configure_deadlines perform_call.simps configure_deadlines_def
    by (intro catalog) (simp add: catalog_step_other)
qed (simp_all add: catalog_load catalog_use catalog_bundled)

text \<open>No step of any thread changes what a generation publishes.\<close>

lemma catalog_of_discovery:
  "checked_registry ms = Inr r \<Longrightarrow> catalog_step k s (install_discovered ms r b s)"
  by (rule catalog_step_next[of ms]) (auto simp: install_discovered_def catalog_ok_def update_conv' split: if_splits)

lemma catalog_of_close: "catalog_step k s (finish_close k s)"
  by (rule catalog_step_next[of "[]"])
    (auto simp: finish_close_def checked_registry_def sret_run by_name_def validate_new)

lemma catalog_runtime_step: "runtime_step k fr w w' \<Longrightarrow> catalog_step k (rt_state w) (rt_state w')"
proof (induction rule: runtime_step.induct)
  case (call c w r s)
  then show ?case using catalog_call by (auto simp: keeps_catalog_def)
next
  case (work_begins how w b s)
  then show ?case using catalog_begin by (fastforce simp: keeps_catalog_def trade_def)
next
  case (work_refused how w e s)
  then show ?case using catalog_begin by (fastforce simp: keeps_catalog_def)
next
  case (discovery_begins w s ms)
  then show ?case using catalog_accept by (fastforce simp: keeps_catalog_def trade_def)
next
  case (discovery_refused w e s)
  then show ?case using catalog_accept by (fastforce simp: keeps_catalog_def)
next
  case (close_begins w s)
  then show ?case by (auto simp: begin_close_def trade_def catalog_step_other split: if_splits)
next
  case (close_joins w g s)
  then show ?case by (auto simp: begin_close_def trade_def catalog_step_other split: if_splits)
qed (simp_all add: trade_def finished_def catalog_finish catalog_of_discovery catalog_of_close)

lemma catalog_runtime_steps: "runtime_steps k fr w w' \<Longrightarrow> catalog_step k (rt_state w) (rt_state w')"
  unfolding runtime_steps_def
  by (induction rule: rtranclp_induct) (auto intro: catalog_step_trans catalog_runtime_step)

end

section \<open>The lock and the threads\<close>

lemma mark_other [simp]:
  "bookkeeping (mark_operation_plugin_initialized_locked name s) = bookkeeping s"
  "rt_backends (mark_operation_plugin_initialized_locked name s) = rt_backends s"
  "rt_registry (mark_operation_plugin_initialized_locked name s) = rt_registry s"
  by (simp_all add: mark_operation_plugin_initialized_locked_def bookkeeping_def split: sum.split)

lemma choose_backend_run:
  "choose_backend name s = (case selected_backend_locked s of
     Inl e \<Rightarrow> (Inl e, finish_work s) | Inr b \<Rightarrow> (Inr b, mark_operation_plugin_initialized_locked name s))"
  by (simp add: choose_backend_def st_run split: sum.split)

lemma accept_work_run:
  "accept_work s = (if rt_open s then (Inr (), s\<lparr>rt_active_work := rt_active_work s + 1\<rparr>)
     else (Inl (RuntimeError ''Runtime is closing''), s))"
  by (simp add: accept_work_def ensure_open_def st_run)

lemma selected_accepted [simp]:
  "selected_backend_locked (s\<lparr>rt_active_work := n\<rparr>) = selected_backend_locked s"
  "visible_operation_names_locked k (s\<lparr>rt_active_work := n\<rparr>) = visible_operation_names_locked k s"
  by (cases "rt_backend_name s";
      simp add: selected_backend_locked_def visible_operation_names_locked_def operation_names_locked_def)+

lemma bookkeeping_accepted [simp]:
  "bookkeeping (s\<lparr>rt_active_work := n\<rparr>) = (rt_open s, n, rt_close_generation s)"
  "bookkeeping (finish_work s) = (rt_open s, rt_active_work s - 1, rt_close_generation s)"
  by (simp_all add: bookkeeping_def finish_work_def)

lemma begin_work_run:
  assumes "catalog_ok s" "begin_work k how s = (res, s')"
  obtains (refused) e where "res = Inl e" "bookkeeping s' = bookkeeping s"
    | (begun) b where "res = Inr b" "rt_open s" "selected_backend_locked s = Inr b" "rt_backends s' = rt_backends s"
        "bookkeeping s' = (True, rt_active_work s + 1, rt_close_generation s)"
        "\<forall>name g. how = Invoke_registered name g \<longrightarrow> g = rt_operation_generation s \<and>
           (\<exists>vs. visible_operation_names_locked k s = Inr vs \<and> name \<in> set vs)"
proof -
  obtain vs where vs: "visible_operation_names_locked k s = Inr vs" using catalog_ok_names[OF assms(1)] by blast
  have two: "(\<exists>e. res = Inl e) \<and> bookkeeping s' = bookkeeping s \<or>
    (\<exists>b. res = Inr b \<and> rt_open s \<and> selected_backend_locked s = Inr b \<and> rt_backends s' = rt_backends s \<and>
        bookkeeping s' = (True, rt_active_work s + 1, rt_close_generation s) \<and>
        (\<forall>name g. how = Invoke_registered name g \<longrightarrow> g = rt_operation_generation s \<and>
           (\<exists>vs. visible_operation_names_locked k s = Inr vs \<and> name \<in> set vs)))"
  proof (cases "rt_open s")
    case False
    then show ?thesis using assms(2)
      by (cases how) (auto simp: begin_invoke_def begin_invoke_registered_def begin_construct_def sbind_run accept_work_run)
  next
    case True
    note sections = begin_invoke_def begin_invoke_registered_def begin_construct_def st_run accept_work_run
      choose_backend_run True vs
    show ?thesis
    proof (cases "selected_backend_locked s")
      case (Inl a)
      show ?thesis using assms(2)
        by (cases how) (auto simp: sections Inl bookkeeping_def[of s] split: if_splits)
    next
      case (Inr b)
      show ?thesis using assms(2)
        by (cases how) (auto simp: sections Inr bookkeeping_def[of s] split: if_splits)
    qed
  qed
  then show thesis using that by blast
qed

lemma work_count_nonneg: "0 \<le> work_count T"
  by (simp add: work_count_def)

lemma work_count_member: "t \<in># T \<Longrightarrow> working t \<Longrightarrow> 0 < work_count T"
  by (auto dest!: multi_member_split simp: add_pos_nonneg work_count_nonneg)

lemma closer_member: "t \<in># T \<Longrightarrow> closes t \<Longrightarrow> 0 < closers T"
  by (auto dest!: multi_member_split)

lemma trade_simps [simp]:
  "tasks (trade old new w) = tasks w - old + new" "rt_state (trade old new w) = rt_state w" "shut (trade old new w) = shut w"
  by (simp_all add: trade_def)

lemma finished_simps [simp]:
  "tasks (finished t w) = tasks w - {#t#}" "rt_state (finished t w) = finish_work (rt_state w)"
  by (simp_all add: finished_def)

lemma finish_work_simps [simp]:
  "rt_open (finish_work s) = rt_open s" "rt_active_work (finish_work s) = rt_active_work s - 1"
  "rt_close_generation (finish_work s) = rt_close_generation s"
  by (simp_all add: finish_work_def)

lemma runtime_ok_finished:
  assumes "runtime_ok w" "t \<in># tasks w" "working t"
  shows "runtime_ok (finished t w)"
proof -
  obtain T where T: "tasks w = add_mset t T" using assms(2) by (blast dest: multi_member_split)
  have "\<not> closes t" using assms(3) by (cases t) auto
  moreover have "\<not> (\<exists>bs. Closing bs \<in># tasks w)"
    using assms work_count_member[OF assms(2,3)] by (auto simp: runtime_ok_def)
  ultimately show ?thesis using assms T by (simp add: runtime_ok_def)
qed

lemma runtime_ok_books:
  "runtime_ok w \<Longrightarrow> bookkeeping s = bookkeeping (rt_state w) \<Longrightarrow> runtime_ok (w\<lparr>rt_state := s\<rparr>)"
  by (simp add: runtime_ok_def bookkeeping_def)

lemma runtime_ok_begins:
  assumes "runtime_ok w" "rt_open (rt_state w)" "working t"
    and "bookkeeping s = (True, rt_active_work (rt_state w) + 1, rt_close_generation (rt_state w))"
  shows "runtime_ok (trade {#} {#t#} (w\<lparr>rt_state := s\<rparr>))"
proof -
  have "\<not> closes t \<and> (\<forall>g. t \<noteq> Joining g) \<and> (\<forall>bs. t \<noteq> Closing bs)" using assms(3) by (cases t) auto
  moreover have "\<not> (\<exists>bs. Closing bs \<in># tasks w)"
    using assms closer_member[of _ "tasks w"] by (fastforce simp: runtime_ok_def)
  ultimately show ?thesis using assms by (auto simp: runtime_ok_def bookkeeping_def)
qed

lemma runtime_ok_shut [simp]: "runtime_ok (w\<lparr>shut := x\<rparr>) = runtime_ok w"
  by (simp add: runtime_ok_def)

lemma runtime_ok_step:
  "runtime_step k fr w w' \<Longrightarrow> catalog_ok (rt_state w) \<Longrightarrow> runtime_ok w \<Longrightarrow> runtime_ok w'"
proof (induction rule: runtime_step.induct)
  case (call c w r s)
  then show ?case by (auto intro!: runtime_ok_books dest!: call_books simp: bookkeeping_def)
next
  case (work_begins how w b s)
  from work_begins.prems(1) work_begins.hyps show ?case
  proof (cases rule: begin_work_run)
    case (begun b')
    then show ?thesis using work_begins.prems by (intro runtime_ok_begins) auto
  qed auto
next
  case (work_refused how w e s)
  from work_refused.prems(1) work_refused.hyps show ?case
    by (cases rule: begin_work_run) (use work_refused.prems in \<open>auto intro: runtime_ok_books\<close>)
next
  case (discovery_begins w s ms)
  then show ?case by (intro runtime_ok_begins) (auto simp: accept_work_run split: if_splits)
next
  case (discovery_refused w e s)
  then show ?case by (auto simp: accept_work_run split: if_splits)
next
  case (discovery_ends old w)
  then show ?case by (intro runtime_ok_finished) auto
next
  case (discovery_installs ms w r b)
  then show ?case by (auto dest!: multi_member_split simp: runtime_ok_def install_discovered_def split: if_splits)
next
  case (close_begins w s)
  then show ?case by (auto simp: runtime_ok_def begin_close_def split: if_splits)
next
  case (close_joins w g s)
  then show ?case by (auto simp: runtime_ok_def begin_close_def split: if_splits)
next
  case (close_ends w)
  then show ?case by (fastforce dest!: multi_member_split simp: runtime_ok_def finish_close_def split: if_splits)
next
  case (close_drained w)
  then show ?case by (auto dest!: multi_member_split simp: runtime_ok_def split: if_splits)
next
  case (close_one b bs w)
  then show ?case by (auto dest!: multi_member_split simp: runtime_ok_def split: if_splits)
next
  case (discovery_looks ms w)
  then show ?case by (auto dest!: multi_member_split simp: runtime_ok_def split: if_splits)
next
  case (close_interrupted w)
  then show ?case by (auto dest!: multi_member_split simp: runtime_ok_def split: if_splits)
next
  case (joined g w)
  then show ?case by (auto dest!: multi_member_split simp: runtime_ok_def split: if_splits)
qed (auto intro: runtime_ok_finished)

section \<open>Closing\<close>

lemma closed_call: "perform_call k fr c s = (r, s') \<Longrightarrow> \<not> rt_open s \<Longrightarrow> s' = s"
proof (cases c)
  case (Load found)
  then show "perform_call k fr c s = (r, s') \<Longrightarrow> \<not> rt_open s \<Longrightarrow> s' = s"
    by (auto simp: load_plugins_def ensure_open_def sbind_run st_simps split: sum.splits)
qed (auto simp: configure_plugin_def configure_memory_def configure_bundled_def configure_deadlines_def use_backend_def
    ensure_open_def sbind_run st_simps)

lemma closed_begin: "\<not> rt_open s \<Longrightarrow> begin_work k how s = (Inl (RuntimeError ''Runtime is closing''), s)"
  by (cases how) (simp_all add: begin_invoke_def begin_invoke_registered_def begin_construct_def sbind_run accept_work_run)

text \<open>A thread that closes has closed the backends it does not have left.\<close>

definition closing_order :: "('b, 'l) Runtime_World \<Rightarrow> bool" where
  "closing_order w \<longleftrightarrow> (\<forall>bs. Closing bs \<in># tasks w \<longrightarrow>
     (\<exists>pre done'. shut w = pre @ done' \<and> done' @ bs = map snd (rt_backends (rt_state w))))"

lemma one_closer:
  assumes "runtime_ok w" "Closing bs \<in># tasks w"
  shows "\<not> rt_open (rt_state w)" "t \<in># tasks w \<Longrightarrow> \<not> working t" "Closing_waits \<notin># tasks w"
    "Closing bs' \<in># tasks w \<Longrightarrow> bs' = bs" "rt_active_work (rt_state w) = 0"
proof -
  obtain T where T: "tasks w = add_mset (Closing bs) T" using assms(2) by (blast dest: multi_member_split)
  have one: "closers T = 0" "\<not> rt_open (rt_state w)" using assms(1) T by (auto simp: runtime_ok_def split: if_splits)
  show "\<not> rt_open (rt_state w)" by (rule one)
  show "rt_active_work (rt_state w) = 0" using assms by (auto simp: runtime_ok_def)
  show "t \<in># tasks w \<Longrightarrow> \<not> working t" using assms work_count_member[of t "tasks w"] by (auto simp: runtime_ok_def)
  show "Closing_waits \<notin># tasks w" "Closing bs' \<in># tasks w \<Longrightarrow> bs' = bs"
    using one(1) closer_member[of Closing_waits T] closer_member[of "Closing bs'" T] by (auto simp: T)
qed

lemma closing_order_other:
  assumes "closing_order w"
    "\<And>bs. Closing bs \<in># tasks w' \<Longrightarrow> Closing bs \<in># tasks w \<and> rt_backends (rt_state w') = rt_backends (rt_state w) \<and> shut w' = shut w"
  shows "closing_order w'"
  using assms unfolding closing_order_def by (metis (no_types, lifting))

lemma closing_order_step:
  "runtime_step k fr w w' \<Longrightarrow> runtime_ok w \<Longrightarrow> closing_order w \<Longrightarrow> closing_order w'"
proof (induction rule: runtime_step.induct)
  case (call c w r s)
  then show ?case
    by (intro closing_order_other[OF call.prems(2)]) (auto dest!: closed_call dest: one_closer(1))
next
  case (work_begins how w b s)
  then show ?case
    by (intro closing_order_other[OF work_begins.prems(2)])
      (auto simp: closed_begin dest: one_closer(1))
next
  case (work_refused how w e s)
  then show ?case
    by (intro closing_order_other[OF work_refused.prems(2)]) (auto simp: closed_begin dest: one_closer(1))
next
  case (work_ends b w)
  then show ?case by (intro closing_order_other[OF work_ends.prems(2)]) (auto dest: in_diffD one_closer(2))
next
  case (discovery_begins w s ms)
  then show ?case by (intro closing_order_other[OF discovery_begins.prems(2)]) (auto simp: accept_work_run split: if_splits)
next
  case (discovery_refused w e s)
  then show ?case by (intro closing_order_other[OF discovery_refused.prems(2)]) (auto simp: accept_work_run split: if_splits)
next
  case (discovery_looks ms w)
  then show ?case by (intro closing_order_other[OF discovery_looks.prems(2)]) (auto dest: in_diffD one_closer(2))
next
  case (discovery_fails ms w)
  then show ?case by (intro closing_order_other[OF discovery_fails.prems(2)]) (auto dest: in_diffD one_closer(2))
next
  case (discovery_refuses ms w)
  then show ?case by (intro closing_order_other[OF discovery_refuses.prems(2)]) (auto dest: in_diffD one_closer(2))
next
  case (discovery_installs ms w r b)
  then show ?case by (intro closing_order_other[OF discovery_installs.prems(2)]) (auto dest: in_diffD one_closer(2))
next
  case (discovery_ends old w)
  then show ?case by (intro closing_order_other[OF discovery_ends.prems(2)]) (auto dest: in_diffD one_closer(2))
next
  case (close_begins w s)
  then show ?case by (intro closing_order_other[OF close_begins.prems(2)]) (auto simp: begin_close_def split: if_splits)
next
  case (close_joins w g s)
  then show ?case by (intro closing_order_other[OF close_joins.prems(2)]) (auto simp: begin_close_def split: if_splits)
next
  case (close_interrupted w)
  then show ?case by (intro closing_order_other[OF close_interrupted.prems(2)]) (auto dest: in_diffD)
next
  case (joined g w)
  then show ?case by (intro closing_order_other[OF joined.prems(2)]) (auto dest: in_diffD)
next
  case (close_drained w)
  have "Closing bs \<notin># tasks w" for bs using one_closer(3)[OF close_drained.prems(1)] close_drained.hyps(1) by blast
  then show ?case by (auto simp: closing_order_def dest: in_diffD)
next
  case (close_one b bs w)
  have "Closing bs' \<in># tasks w - {#Closing (b # bs)#} \<Longrightarrow> False" for bs'
  proof -
    assume m: "Closing bs' \<in># tasks w - {#Closing (b # bs)#}"
    obtain T where T: "tasks w = add_mset (Closing (b # bs)) T" using close_one.hyps by (blast dest: multi_member_split)
    then have "Closing bs' \<in># T" using m by simp
    then show False using close_one.prems(1) T closer_member[of "Closing bs'" T] by (auto simp: runtime_ok_def split: if_splits)
  qed
  moreover obtain pre done' where "shut w = pre @ done'" "done' @ b # bs = map snd (rt_backends (rt_state w))"
    using close_one by (auto simp: closing_order_def)
  ultimately show ?case
    by (fastforce simp: closing_order_def intro: exI[of "\<lambda>p. \<exists>d. pre @ done' @ [b] = p @ d \<and> d @ bs = done' @ b # bs" pre])
next
  case (close_ends w)
  have "Closing bs \<notin># tasks w - {#Closing []#}" for bs
  proof
    assume m: "Closing bs \<in># tasks w - {#Closing []#}"
    obtain T where T: "tasks w = add_mset (Closing []) T" using close_ends.hyps by (blast dest: multi_member_split)
    then show False using m close_ends.prems(1) closer_member[of "Closing bs" T] by (auto simp: runtime_ok_def split: if_splits)
  qed
  then show ?case by (simp add: closing_order_def)
qed

section \<open>Reachable states\<close>

definition runtime_reachable :: "('b, 'l) Backends \<Rightarrow> (64 word \<Rightarrow> ustr) \<Rightarrow> ('b, 'l) Runtime_World \<Rightarrow> bool" where
  "runtime_reachable k fr w \<longleftrightarrow> runtime_steps k fr (runtime_start k) w"

lemma runtime_steps_trans: "runtime_steps k fr w w' \<Longrightarrow> runtime_steps k fr w' w'' \<Longrightarrow> runtime_steps k fr w w''"
  by (simp add: runtime_steps_def)

lemma runtime_steps_one: "runtime_step k fr w w' \<Longrightarrow> runtime_steps k fr w w'"
  by (simp add: runtime_steps_def)

lemma runtime_reachable_steps: "runtime_reachable k fr w \<Longrightarrow> runtime_steps k fr w w' \<Longrightarrow> runtime_reachable k fr w'"
  unfolding runtime_reachable_def by (rule runtime_steps_trans)

context runtime_backends
begin

lemma reachable_inv:
  assumes "runtime_reachable k fr w"
  shows "catalog_ok (rt_state w) \<and> runtime_ok w \<and> closing_order w"
proof -
  have "(runtime_step k fr)\<^sup>*\<^sup>* (runtime_start k) w" using assms by (simp add: runtime_reachable_def runtime_steps_def)
  then show ?thesis
  proof (induction rule: rtranclp_induct)
    case base
    show ?case using catalog_ok_new
      by (simp add: runtime_start_def runtime_ok_def closing_order_def) (simp add: new_runtime_def)
  next
    case (step w w')
    then show ?case using runtime_ok_step closing_order_step catalog_runtime_step
      by (metis (no_types, lifting) catalog_step_def)
  qed
qed

text \<open>While the backends are closed there is no work and no other thread that closes, and nothing is
  accepted; at the end every backend has been closed, in order, and the state is that of the constructor.\<close>

lemma closing_is_exclusive:
  assumes "runtime_reachable k fr w" "Closing bs \<in># tasks w"
  shows "t \<in># tasks w \<Longrightarrow> \<not> working t" "begin_work k how (rt_state w) = (Inl (RuntimeError ''Runtime is closing''), rt_state w)"
    "perform_call k fr c (rt_state w) = (r, s) \<Longrightarrow> s = rt_state w" "\<exists>pre done'. shut w = pre @ done' \<and> done' @ bs = map snd (rt_backends (rt_state w))"
proof -
  note inv = reachable_inv[OF assms(1)]
  show "t \<in># tasks w \<Longrightarrow> \<not> working t" using one_closer(2) inv assms(2) by blast
  have c: "\<not> rt_open (rt_state w)" using one_closer(1) inv assms(2) by blast
  then show "begin_work k how (rt_state w) = (Inl (RuntimeError ''Runtime is closing''), rt_state w)" by (rule closed_begin)
  show "perform_call k fr c (rt_state w) = (r, s) \<Longrightarrow> s = rt_state w" using c by (rule closed_call[rotated])
  show "\<exists>pre done'. shut w = pre @ done' \<and> done' @ bs = map snd (rt_backends (rt_state w))"
    using inv assms(2) by (auto simp: closing_order_def)
qed

lemma closed_is_new:
  assumes "runtime_reachable k fr w" "Closing bs \<in># tasks w"
  shows "finish_close k (rt_state w) = (new_runtime k)\<lparr>rt_operation_generation := rt_operation_generation (rt_state w) + 1,
    rt_close_generation := rt_close_generation (rt_state w) + 1\<rparr>"
  using one_closer(5)[of w bs] reachable_inv[OF assms(1)] assms(2) by (simp add: finish_close_def new_runtime_def)

text \<open>A handle that is still accepted names what it named when it was made.\<close>

lemma accepted_handle:
  assumes "runtime_reachable k fr w" "runtime_steps k fr w w'"
    "resolve_operation k name (rt_state w) = Some (Inr (g, m))" "begin_work k (Invoke_registered name g) (rt_state w') = (Inr b, s)"
  shows "resolve_operation k name (rt_state w') = Some (Inr (g, m))" "rt_registry (rt_state w') = rt_registry (rt_state w)"
    "selected_backend_locked (rt_state w') = Inr b" "g = rt_operation_generation (rt_state w')"
proof -
  have ok: "catalog_ok (rt_state w)" "catalog_ok (rt_state w')"
    using reachable_inv assms(1) runtime_reachable_steps[OF assms(1,2)] by blast+
  have g: "g = rt_operation_generation (rt_state w)"
    using assms(3) by (auto simp: resolve_operation_def when_open_def ebind_eq_Inr split: if_splits)
  from ok(2) assms(4) show "selected_backend_locked (rt_state w') = Inr b" "g = rt_operation_generation (rt_state w')"
    by (cases rule: begin_work_run; simp)+
  have "rt_open (rt_state w')" using ok(2) assms(4) by (cases rule: begin_work_run; simp)
  moreover have p: "published k (rt_state w') = published k (rt_state w)"
    using catalog_runtime_steps[OF assms(2)] ok(1) g \<open>g = rt_operation_generation (rt_state w')\<close> by (auto simp: catalog_step_def)
  then show "rt_registry (rt_state w') = rt_registry (rt_state w)" by (simp add: published_def)
  ultimately show "resolve_operation k name (rt_state w') = Some (Inr (g, m))"
    using assms(3) published_visible[OF p] g \<open>g = rt_operation_generation (rt_state w')\<close>
    by (cases "visible_operation_names_locked k (rt_state w)") (simp_all add: resolve_operation_def when_open_def split: if_splits)
qed

end

section \<open>The end of closing\<close>

lemma work_or_none: "0 < work_count T \<Longrightarrow> \<exists>t. t \<in># T \<and> working t"
  by (induction T) (auto split: if_splits)

lemma working_finishes:
  assumes "t \<in># tasks w" "working t"
  shows "\<exists>w'. runtime_step k fr w w' \<and> tasks w' = tasks w - {#t#} \<and> rt_active_work (rt_state w') = rt_active_work (rt_state w) - 1 \<and>
    rt_close_generation (rt_state w') = rt_close_generation (rt_state w)"
proof -
  have into: "\<exists>w'. runtime_step k fr w w' \<and> tasks w' = tasks w - {#t#} \<and> rt_active_work (rt_state w') = rt_active_work (rt_state w) - 1 \<and>
      rt_close_generation (rt_state w') = rt_close_generation (rt_state w)"
    if "runtime_step k fr w (finished t v)" "tasks v = tasks w" "rt_state v = rt_state w" for v
    using that by (intro exI[of _ "finished t v"]) simp
  show ?thesis
  proof (cases t)
    case (Running b)
    then show ?thesis using runtime_step.work_ends[of b w k fr] assms(1) into[of w] by simp
  next
    case (Discovering ms)
    then show ?thesis using runtime_step.discovery_fails[of ms w k fr] assms(1) into[of w] by simp
  next
    case (Discovered ms)
    then show ?thesis using runtime_step.discovery_refuses[of ms w k fr] assms(1) into[of w] by simp
  next
    case (Replaced old)
    then show ?thesis using runtime_step.discovery_ends[of old w k fr] assms(1) into by simp
  qed (use assms(2) in auto)
qed

lemma closing_ends_steps:
  assumes "Closing bs \<in># tasks w"
  shows "\<exists>w'. runtime_steps k fr w w' \<and> rt_open (rt_state w') \<and> rt_close_generation (rt_state w') = rt_close_generation (rt_state w) + 1"
  using assms
proof (induction bs arbitrary: w)
  case Nil
  then show ?case using runtime_steps_one[OF runtime_step.close_ends[of w k fr]]
    by (intro exI conjI) (auto simp: finish_close_def)
next
  case (Cons b bs)
  note one = runtime_steps_one[OF runtime_step.close_one[OF Cons.prems]]
  from Cons.IH[of "trade {#Closing (b # bs)#} {#Closing bs#} (w\<lparr>shut := shut w @ [b]\<rparr>)"]
  show ?case using runtime_steps_trans[OF one] by auto
qed

lemma waiting_ends:
  assumes "runtime_ok w" "catalog_ok (rt_state w)" "Closing_waits \<in># tasks w" "runtime_backends k"
  shows "\<exists>w'. runtime_steps k fr w w' \<and> rt_open (rt_state w') \<and> rt_close_generation (rt_state w') = rt_close_generation (rt_state w) + 1"
  using assms(1-3)
proof (induction "nat (work_count (tasks w))" arbitrary: w rule: less_induct)
  case less
  show ?case
  proof (cases "work_count (tasks w) = 0")
    case True
    then have a: "rt_active_work (rt_state w) = 0" using less.prems(1) by (simp add: runtime_ok_def)
    let ?v = "trade {#Closing_waits#} {#Closing (map snd (rt_backends (rt_state w)))#} w"
    have "runtime_steps k fr w ?v" by (rule runtime_steps_one[OF runtime_step.close_drained[OF less.prems(3) a]])
    moreover obtain w' where "runtime_steps k fr ?v w'" "rt_open (rt_state w')" "rt_close_generation (rt_state w') = rt_close_generation (rt_state ?v) + 1"
      using closing_ends_steps[of "map snd (rt_backends (rt_state w))" ?v] by auto
    ultimately show ?thesis using runtime_steps_trans[of k fr w ?v w'] by auto
  next
    case False
    then have "0 < work_count (tasks w)" using work_count_nonneg[of "tasks w"] by simp
    then obtain t where t: "t \<in># tasks w" "working t" using work_or_none by blast
    from working_finishes[OF t, of k fr] obtain v where v: "runtime_step k fr w v" "tasks v = tasks w - {#t#}"
      "rt_close_generation (rt_state v) = rt_close_generation (rt_state w)" by blast
    have "work_count (tasks v) = work_count (tasks w) - 1"
      using t v(2) by (auto dest!: multi_member_split)
    then have "nat (work_count (tasks v)) < nat (work_count (tasks w))"
      using False work_count_nonneg[of "tasks w"] by simp
    moreover have "runtime_ok v" by (rule runtime_ok_step[OF v(1) less.prems(2,1)])
    moreover have "catalog_ok (rt_state v)"
      using runtime_backends.catalog_runtime_step[OF assms(4) v(1)] less.prems(2) by (simp add: catalog_step_def)
    moreover have "Closing_waits \<in># tasks v"
      using v(2) t less.prems(3) by (metis insert_DiffM insert_noteq_member working.simps(5))
    ultimately obtain w' where "runtime_steps k fr v w'" "rt_open (rt_state w')" "rt_close_generation (rt_state w') = rt_close_generation (rt_state v) + 1"
      using less.hyps by blast
    then show ?thesis using runtime_steps_trans[OF runtime_steps_one[OF v(1)]] v(3) by auto
  qed
qed

text \<open>Interrupted while it waits, \<open>close\<close> leaves the runtime closing with no thread that closes it:
  nothing opens it again, and every thread that closes it later waits for ever.\<close>

lemma interrupted_close_is_final:
  assumes "runtime_ok w" "catalog_ok (rt_state w)" "\<not> rt_open (rt_state w)" "closers (tasks w) = 0" "runtime_step k fr w w'"
  shows "\<not> rt_open (rt_state w') \<and> closers (tasks w') = 0 \<and> rt_close_generation (rt_state w') = rt_close_generation (rt_state w)"
proof -
  have none: "\<not> closes t" if "t \<in># tasks w" for t using that assms(4) closer_member by fastforce
  from assms(5) show ?thesis
  proof cases
    case (call c r s)
    then show ?thesis using assms closed_call[OF call(2) assms(3)] by simp
  next
    case (work_begins how b s)
    then show ?thesis using closed_begin[OF assms(3), of k how] assms by simp
  next
    case (work_refused how e s)
    then show ?thesis using closed_begin[OF assms(3), of k how] assms by simp
  next
    case (close_interrupted)
    then show ?thesis using none by fastforce
  next
    case (close_drained)
    then show ?thesis using none by fastforce
  next
    case (close_one b bs)
    then show ?thesis using none by fastforce
  next
    case (close_ends)
    then show ?thesis using none by fastforce
  qed (use assms in \<open>auto simp: accept_work_run begin_close_def install_discovered_def dest!: multi_member_split split: if_splits\<close>)
qed

section \<open>What configuring promises\<close>

text \<open>A configuration accepted while plugins are discovered is not in the state discovery leaves.\<close>

lemma discovery_forgets:
  "rt_plugin_configurations (install_discovered ms r b (s\<lparr>rt_plugin_configurations := x\<rparr>)) =
   rt_plugin_configurations (install_discovered ms r b s)"
  by (simp add: install_discovered_def)

text \<open>Loading with the in-process backend selected initializes the plugins and then counts them as not
  initialized, so that they can be configured although they already run.\<close>

lemma load_forgets_initialized:
  "load_plugins k found s = (Inr (), s') \<Longrightarrow> rt_initialized_plugins s' = {}"
  by (auto simp: load_plugins_def install_loaded_def sbind_Inr st_simps)

end
