(* ===== verification/Bundled.thy ===== *)
theory Bundled
  imports Runtime_Laws
begin

text \<open>
  The in-process backend, \<open>packages/wmfs/wmfs/backends/bundled.py\<close>: resolving the providers of the
  plugins, starting them with rollback, shutting them down, and dispatch. Importing a provider,
  its hooks and the compiled module are arguments (\<open>Providers\<close>); \<open>bd_history\<close> is the order in which
  providers are started and shut down. The runtime's contract with its backends
  (\<open>runtime_backends\<close>) is proved for the two kinds there are.
\<close>

section \<open>State\<close>

record BundledOperation =
  bo_metadata :: OperationMetadata
  bo_native :: bool

record InitializedProvider =
  ip_configuration :: bytes
  ip_has_shutdown :: bool
  ip_native :: bool

datatype provider_event = Started string | Shut_down string

record Bundled =
  bd_implementation :: string
  bd_operations :: "(string \<times> BundledOperation) list"
  bd_initialized :: "(string \<times> InitializedProvider) list"
  bd_history :: "provider_event list"

definition new_bundled :: "string \<Rightarrow> Bundled" where
  "new_bundled implementation =
     \<lparr>bd_implementation = implementation, bd_operations = [], bd_initialized = [], bd_history = []\<rparr>"

definition make_bundled :: "string \<Rightarrow> Bundled result" where
  "make_bundled implementation =
     (if implementation \<notin> {''auto'', ''python'', ''native''}
      then Inl (ValueError ''Bundled implementation must be auto, python, or native'')
      else Inr (new_bundled implementation))"

definition bundled_operation_names :: "Bundled \<Rightarrow> string list" where
  "bundled_operation_names d = sort (map fst (filter (\<lambda>(name, x). dot_free name) (bd_operations d)))"

text \<open>\<open>compiled\<close>: the plugins of the compiled module, if there is one; \<open>native_operation\<close>: looking an
  operation up in its namespace; \<open>import_provider\<close>: the names a Python provider implements;
  \<open>native_initialize\<close>, \<open>python_initialize\<close> and the shutdowns: the hooks, \<open>None\<close> where a Python
  provider has none; \<open>make_logger\<close>: the logger of a plugin, \<open>None\<close> where logging is disabled.\<close>

record 'l Providers =
  compiled :: "string list option"
  native_operation :: "string \<Rightarrow> string \<Rightarrow> unit result"
  import_provider :: "string \<Rightarrow> (string \<Rightarrow> bool) result"
  make_logger :: "string \<Rightarrow> 'l \<Rightarrow> unit result"
  native_initialize :: "string \<Rightarrow> bytes \<Rightarrow> unit result"
  python_initialize :: "string \<Rightarrow> (bytes \<Rightarrow> unit result) option"
  native_shutdown :: "string \<Rightarrow> unit result"
  python_shutdown :: "string \<Rightarrow> (unit result) option"

section \<open>Resolving providers\<close>

definition public_operations :: "'l Manifest \<Rightarrow> OperationMetadata list" where
  "public_operations m = filter (\<lambda>o'. \<not> internal o') (pm_operations (mf_metadata m))"

definition load_native_module :: "'l Providers \<Rightarrow> string \<Rightarrow> string list" where
  "load_native_module env implementation =
     (if implementation = ''python'' then [] else case compiled env of None \<Rightarrow> [] | Some ps \<Rightarrow> ps)"

definition resolve_provider :: "'l Providers \<Rightarrow> string \<Rightarrow> 'l Manifest \<Rightarrow> bool result" where
  "resolve_provider env implementation m =
     (if implementation \<noteq> ''python'' \<and> mf_name m \<in> set (load_native_module env implementation) \<and> mf_bundled_namespace m \<noteq> None
      then ebind (eall (\<lambda>o'. native_operation env (the (mf_bundled_namespace m)) (om_name o')) (public_operations m)) (\<lambda>_. Inr True)
      else if implementation = ''native'' then Inl (RuntimeError ''Plugin has no compiled bundled provider'')
      else case mf_python_provider m of
        None \<Rightarrow> Inl (RuntimeError ''Plugin has no in-process Python provider'')
      | Some p \<Rightarrow> ebind (import_provider env p) (\<lambda>implements.
          ebind (eall (\<lambda>o'. reject (\<not> implements (om_name o')) (RuntimeError ''Python provider does not implement operation''))
            (public_operations m)) (\<lambda>_. Inr False)))"

definition operations_of :: "'l Manifest \<Rightarrow> bool \<Rightarrow> (string \<times> BundledOperation) list" where
  "operations_of m native =
     map (\<lambda>o'. (qualified_name (mf_name m) (om_name o'), \<lparr>bo_metadata = o', bo_native = native\<rparr>)) (public_operations m)"

fun resolve_providers ::
  "'l Providers \<Rightarrow> string \<Rightarrow> 'l Manifest list \<Rightarrow> (string \<times> bool) list \<Rightarrow> (string \<times> BundledOperation) list \<Rightarrow>
   ((string \<times> bool) list \<times> (string \<times> BundledOperation) list) result" where
  "resolve_providers env i [] ps os = Inr (ps, os)"
| "resolve_providers env i (m # ms) ps os =
     ebind (resolve_provider env i m) (\<lambda>native.
     resolve_providers env i ms (AList.update (mf_name m) native ps)
       (fold (\<lambda>(n, x). AList.update n x) (operations_of m native) os))"

text \<open>The unqualified names of the registry, for the operations there are.\<close>

fun add_aliases :: "Registry \<Rightarrow> string list \<Rightarrow> (string \<times> BundledOperation) list \<Rightarrow> (string \<times> BundledOperation) list result" where
  "add_aliases r [] os = Inr os"
| "add_aliases r (name # names) os =
     ebind (plugin_for_operation r name) (\<lambda>p.
     add_aliases r names (case map_of os (qualified_name p name) of None \<Rightarrow> os | Some x \<Rightarrow> AList.update name x os))"

section \<open>Starting and shutting down\<close>

definition started :: "'l Manifest \<Rightarrow> bool \<Rightarrow> Bundled \<Rightarrow> Bundled" where
  "started m native d = d\<lparr>bd_initialized := AList.update (mf_name m)
       \<lparr>ip_configuration = mf_configuration_bytes m, ip_has_shutdown = mf_has_shutdown m, ip_native = native\<rparr> (bd_initialized d),
     bd_history := bd_history d @ [Started (mf_name m)]\<rparr>"

definition run_initialize :: "'l Providers \<Rightarrow> bool \<Rightarrow> 'l Manifest \<Rightarrow> unit result" where
  "run_initialize env native m =
     ebind (make_logger env (mf_name m) (mf_logging m)) (\<lambda>_.
     if native then native_initialize env (mf_name m) (mf_configuration_bytes m)
     else if \<not> mf_has_initialize m then Inr ()
     else case python_initialize env (mf_name m) of
       None \<Rightarrow> Inl (RuntimeError ''Python provider has no initialize hook'')
     | Some hook \<Rightarrow> hook (mf_configuration_bytes m))"

text \<open>The loop of \<open>initialize\<close>, and the names it has started so far.\<close>

fun start_providers ::
  "'l Providers \<Rightarrow> (string \<times> bool) list \<Rightarrow> 'l Manifest list \<Rightarrow> string list \<Rightarrow> Bundled \<Rightarrow> unit result \<times> string list \<times> Bundled" where
  "start_providers env ps [] now d = (Inr (), now, d)"
| "start_providers env ps (m # ms) now d =
     (case map_of ps (mf_name m) of
        None \<Rightarrow> (Inl (KeyError ''provider''), now, d)
      | Some native \<Rightarrow>
     (case map_of (bd_initialized d) (mf_name m) of
        Some existing \<Rightarrow>
          if ip_configuration existing \<noteq> mf_configuration_bytes m
          then (Inl (RuntimeError ''Plugin is already initialized with different configuration''), now, d)
          else start_providers env ps ms now d
      | None \<Rightarrow>
     (case run_initialize env native m of
        Inl e \<Rightarrow> (Inl e, now, d)
      | Inr _ \<Rightarrow> start_providers env ps ms (now @ [mf_name m]) (started m native d))))"

definition shutdown_provider :: "'l Providers \<Rightarrow> string \<Rightarrow> InitializedProvider \<Rightarrow> unit result" where
  "shutdown_provider env name p =
     (if ip_native p then native_shutdown env name
      else if ip_has_shutdown p then (case python_shutdown env name of None \<Rightarrow> Inr () | Some r \<Rightarrow> r)
      else Inr ())"

definition shut_down :: "string \<Rightarrow> Bundled \<Rightarrow> Bundled" where
  "shut_down name d = d\<lparr>bd_initialized := AList.delete name (bd_initialized d), bd_history := bd_history d @ [Shut_down name]\<rparr>"

text \<open>The handler of \<open>initialize\<close>: a shutdown that raises ends it, and its exception is raised instead.\<close>

fun roll_back :: "'l Providers \<Rightarrow> string list \<Rightarrow> (Bundled, unit) st" where
  "roll_back env [] d = (Inr (), d)"
| "roll_back env (n # ns) d =
     (case map_of (bd_initialized d) n of
        None \<Rightarrow> (Inl (KeyError n), d)
      | Some p \<Rightarrow>
          (case shutdown_provider env n p of
             Inl e \<Rightarrow> (Inl e, shut_down n d)
           | Inr _ \<Rightarrow> roll_back env ns (shut_down n d)))"

definition bundled_initialize :: "'l Providers \<Rightarrow> 'l Manifest list \<Rightarrow> Registry \<Rightarrow> (Bundled, unit) st" where
  "bundled_initialize env ms r d =
     (case ebind (resolve_providers env (bd_implementation d) ms [] []) (\<lambda>(ps, os).
             ebind (operation_names r) (\<lambda>names. ebind (add_aliases r names os) (\<lambda>os'. Inr (ps, os')))) of
        Inl e \<Rightarrow> (Inl e, d)
      | Inr (ps, os) \<Rightarrow>
          (case start_providers env ps ms [] d of
             (Inl e, now, d') \<Rightarrow> (case roll_back env (rev now) d' of (Inl e', d'') \<Rightarrow> (Inl e', d'') | (Inr _, d'') \<Rightarrow> (Inl e, d''))
           | (Inr _, now, d') \<Rightarrow> (Inr (), d'\<lparr>bd_operations := os\<rparr>)))"

text \<open>\<open>close\<close>: every provider is shut down, the last first; the first failure is raised.\<close>

fun shut_all :: "'l Providers \<Rightarrow> (string \<times> InitializedProvider) list \<Rightarrow> pyerr list \<Rightarrow> Bundled \<Rightarrow> pyerr list \<times> Bundled" where
  "shut_all env [] es d = (es, d)"
| "shut_all env ((n, p) # ps) es d =
     (let d' = d\<lparr>bd_history := bd_history d @ [Shut_down n]\<rparr> in
      case shutdown_provider env n p of Inl e \<Rightarrow> shut_all env ps (es @ [e]) d' | Inr _ \<Rightarrow> shut_all env ps es d')"

definition bundled_close :: "'l Providers \<Rightarrow> (Bundled, unit) st" where
  "bundled_close env d =
     (case shut_all env (rev (bd_initialized d)) [] (d\<lparr>bd_initialized := [], bd_operations := []\<rparr>) of
        (es, d') \<Rightarrow> (case es of [] \<Rightarrow> Inr () | e # _ \<Rightarrow> Inl e, d'))"

section \<open>Dispatch\<close>

datatype 'v scalar_kwarg = Given 'v | Enum_index nat

datatype ('v, 't) bundled_call =
    Call_python
  | Call_native "(string \<times> 'v scalar_kwarg) list"
  | Call_native_out "(string \<times> 'v scalar_kwarg) list" "(string \<times> 't) list"

fun scalar_kwargs ::
  "('v scalar_kwarg \<Rightarrow> ustr) \<Rightarrow> ScalarParameter list \<Rightarrow> (string \<times> 'v scalar_kwarg) list \<Rightarrow> (string \<times> 'v scalar_kwarg) list result" where
  "scalar_kwargs str [] kw = Inr kw"
| "scalar_kwargs str (p # ps) kw =
     (let n = python_parameter_name (sp_name p) in
      case (sp_enum_name p, map_of kw n) of
        (Some e, Some v) \<Rightarrow>
          (case index_of (str v) (sp_enum_values p) of
             None \<Rightarrow> Inl (ValueError ''Scalar is outside enum'')
           | Some i \<Rightarrow> scalar_kwargs str ps (AList.update n (Enum_index i) kw))
      | _ \<Rightarrow> scalar_kwargs str ps kw)"

text \<open>\<open>out\<close> is one tensor or a tuple of them; a single output is the argument \<open>out\<close> of the native call.\<close>

definition bundled_invoke ::
  "('v scalar_kwarg \<Rightarrow> ustr) \<Rightarrow> Bundled \<Rightarrow> string \<Rightarrow> (string \<times> 'v) list \<Rightarrow> 't list option \<Rightarrow> ('v, 't) bundled_call result" where
  "bundled_invoke str d name kwargs out =
     (case map_of (bd_operations d) name of
        None \<Rightarrow> Inl (ValueError ''Unknown operation'')
      | Some x \<Rightarrow>
          let m = bo_metadata x; kw = map (\<lambda>(n, v). (n, Given v)) kwargs in
          if \<not> bo_native x then Inr Call_python
          else case out of
            None \<Rightarrow> ebind (scalar_kwargs str (scalar_parameters m) kw) (\<lambda>s. Inr (Call_native s))
          | Some ts \<Rightarrow>
              if length ts \<noteq> length (tensor_outputs m) then Inl (ValueError ''Operation requires output tensors'')
              else ebind (scalar_kwargs str (scalar_parameters m) kw) (\<lambda>s.
                Inr (Call_native_out s (case ts of [t] \<Rightarrow> [(''out'', t)] | _ \<Rightarrow> zip (map tp_name (tensor_outputs m)) ts))))"

section \<open>What a failed initialization leaves\<close>

lemma update_new: "n \<notin> fst ` set xs \<Longrightarrow> AList.update n x xs = xs @ [(n, x)]"
  by (induction xs) auto

lemma delete_append: "AList.delete n (xs @ ys) = AList.delete n xs @ AList.delete n ys"
  by (induction xs) auto

lemma delete_unknown: "n \<notin> fst ` set xs \<Longrightarrow> AList.delete n xs = xs"
  by (induction xs) auto

lemma start_providers_run:
  "start_providers env ps ms now d = (res, now', d') \<Longrightarrow>
   \<exists>xs. now' = now @ map fst xs \<and> bd_operations d' = bd_operations d \<and> bd_implementation d' = bd_implementation d \<and>
     bd_history d' = bd_history d @ map (Started \<circ> fst) xs \<and> bd_initialized d' = bd_initialized d @ xs \<and>
     distinct (map fst xs) \<and> fst ` set xs \<inter> fst ` set (bd_initialized d) = {}"
proof (induction ms arbitrary: now d)
  case (Cons m ms)
  show ?case
  proof (cases "\<exists>native. map_of ps (mf_name m) = Some native \<and> map_of (bd_initialized d) (mf_name m) = None \<and>
      run_initialize env native m = Inr ()")
    case True
    then obtain native where n: "map_of ps (mf_name m) = Some native" "map_of (bd_initialized d) (mf_name m) = None"
      "run_initialize env native m = Inr ()" by blast
    have new: "mf_name m \<notin> fst ` set (bd_initialized d)" using n(2) by (simp add: map_of_eq_None_iff)
    have "start_providers env ps ms (now @ [mf_name m]) (started m native d) = (res, now', d')"
      using Cons.prems n by simp
    from Cons.IH[OF this] new obtain xs where "now' = now @ mf_name m # map fst xs"
      "bd_operations d' = bd_operations d" "bd_implementation d' = bd_implementation d"
      "bd_history d' = bd_history d @ Started (mf_name m) # map (Started \<circ> fst) xs"
      "bd_initialized d' = bd_initialized d @ (mf_name m, \<lparr>ip_configuration = mf_configuration_bytes m,
         ip_has_shutdown = mf_has_shutdown m, ip_native = native\<rparr>) # xs"
      "distinct (map fst xs)" "mf_name m \<notin> fst ` set xs" "fst ` set xs \<inter> fst ` set (bd_initialized d) = {}"
      by (auto simp: started_def update_new)
    then show ?thesis using new
      by (intro exI[of _ "(mf_name m, \<lparr>ip_configuration = mf_configuration_bytes m,
         ip_has_shutdown = mf_has_shutdown m, ip_native = native\<rparr>) # xs"]) auto
  next
    case False
    then show ?thesis using Cons.prems Cons.IH
      by (auto split: option.splits sum.splits if_splits)
  qed
qed simp

lemma roll_back_all:
  assumes "\<forall>n p. shutdown_provider env n p = Inr ()" "distinct (map fst xs)"
    "fst ` set xs \<inter> fst ` set ys = {}" "bd_initialized d = ys @ xs"
  shows "roll_back env (rev (map fst xs)) d =
    (Inr (), d\<lparr>bd_initialized := ys, bd_history := bd_history d @ map Shut_down (rev (map fst xs))\<rparr>)"
  using assms(2-4)
proof (induction xs arbitrary: d rule: rev_induct)
  case (snoc x xs)
  obtain n p where x: "x = (n, p)" by (cases x)
  have new: "n \<notin> fst ` set ys" "n \<notin> fst ` set xs" using snoc.prems x by auto
  then have "map_of ys n = None" "map_of xs n = None" by (simp_all add: map_of_eq_None_iff)
  then have n: "map_of (bd_initialized d) n = Some p" using snoc.prems(3) x by (simp add: map_add_def)
  have del: "AList.delete n (ys @ xs @ [(n, p)]) = ys @ xs"
    using new by (simp add: delete_unknown delete_append)
  have s: "shut_down n d = d\<lparr>bd_initialized := ys @ xs, bd_history := bd_history d @ [Shut_down n]\<rparr>"
    using snoc.prems x del by (simp add: shut_down_def)
  show ?case using snoc.IH[of "shut_down n d"] snoc.prems assms(1) n by (simp add: x s)
qed simp

text \<open>Initialization is all or nothing when shutting down does not fail.\<close>

theorem failed_bundled_initialize:
  assumes "\<forall>n p. shutdown_provider env n p = Inr ()" "bundled_initialize env ms r d = (Inl e, d')"
  shows "\<exists>ns. d' = d\<lparr>bd_history := bd_history d @ map Started ns @ map Shut_down (rev ns)\<rparr>"
proof (cases "ebind (resolve_providers env (bd_implementation d) ms [] []) (\<lambda>(ps, os).
             ebind (operation_names r) (\<lambda>names. ebind (add_aliases r names os) (\<lambda>os'. Inr (ps, os'))))")
  case (Inl e')
  then show ?thesis using assms(2) by (auto simp: bundled_initialize_def intro!: exI[of _ "[]"])
next
  case (Inr x)
  obtain ps os where x: "x = (ps, os)" by (cases x)
  obtain res now d1 where s: "start_providers env ps ms [] d = (res, now, d1)" by (metis prod_cases3)
  from start_providers_run[OF s] obtain xs where xs: "now = map fst xs"
    "bd_operations d1 = bd_operations d" "bd_implementation d1 = bd_implementation d"
    "bd_history d1 = bd_history d @ map (Started \<circ> fst) xs" "bd_initialized d1 = bd_initialized d @ xs"
    "distinct (map fst xs)" "fst ` set xs \<inter> fst ` set (bd_initialized d) = {}" by auto
  have "d' = snd (roll_back env (rev now) d1)"
    using assms(2) Inr x s by (auto simp: bundled_initialize_def split: sum.splits prod.splits)
  then have "d' = d1\<lparr>bd_initialized := bd_initialized d, bd_history := bd_history d1 @ map Shut_down (rev now)\<rparr>"
    using roll_back_all[OF assms(1) xs(6,7,5)] by (simp add: xs(1))
  then show ?thesis using xs(1-4) by (intro exI[of _ now]) (simp add: comp_def)
qed

section \<open>No provider is lost\<close>

definition running :: "provider_event list \<Rightarrow> string set" where
  "running h = foldl (\<lambda>R e. case e of Started n \<Rightarrow> insert n R | Shut_down n \<Rightarrow> R - {n}) {} h"

lemma running_simps [simp]:
  "running [] = {}" "running (h @ [Started n]) = insert n (running h)" "running (h @ [Shut_down n]) = running h - {n}"
  by (simp_all add: running_def)

lemma running_started: "running (h @ map Started ns) = running h \<union> set ns"
  by (induction ns rule: rev_induct) (simp_all add: append_assoc[symmetric] del: append_assoc)

lemma running_shut: "running (h @ map Shut_down ns) = running h - set ns"
  by (induction ns rule: rev_induct) (auto simp: append_assoc[symmetric] simp del: append_assoc)

text \<open>The providers that run are the ones the backend has.\<close>

definition accounted :: "Bundled \<Rightarrow> bool" where
  "accounted d \<longleftrightarrow> running (bd_history d) = fst ` set (bd_initialized d) \<and> distinct (map fst (bd_initialized d))"

lemma accounted_new: "accounted (new_bundled i)"
  by (simp add: accounted_def new_bundled_def)

lemma accounted_operations [simp]: "accounted (d\<lparr>bd_operations := os\<rparr>) = accounted d"
  by (simp add: accounted_def)

lemma delete_names: "fst ` set (AList.delete n xs) = fst ` set xs - {n}"
  by (induction xs) auto

lemma accounted_shut_down: "accounted d \<Longrightarrow> accounted (shut_down n d)"
  by (simp add: accounted_def shut_down_def delete_names distinct_delete)

lemma roll_back_keeps:
  "roll_back env ns d = (x, d') \<Longrightarrow> (accounted d \<longrightarrow> accounted d') \<and> bd_operations d' = bd_operations d"
proof (induction ns arbitrary: d)
  case (Cons n ns)
  then show ?case using accounted_shut_down[of d n]
    by (fastforce simp: shut_down_def split: option.splits sum.splits)
qed simp

lemma start_providers_accounted:
  assumes "start_providers env ps ms now d = (res, now', d')" "accounted d"
  shows "accounted d'"
proof -
  from start_providers_run[OF assms(1)] obtain xs where "bd_history d' = bd_history d @ map Started (map fst xs)"
    "bd_initialized d' = bd_initialized d @ xs" "distinct (map fst xs)" "fst ` set xs \<inter> fst ` set (bd_initialized d) = {}" by auto
  with assms(2) show ?thesis by (auto simp: accounted_def running_started simp del: map_map)
qed

lemma bundled_initialize_keeps:
  assumes "bundled_initialize env ms r d = (res, d')"
  shows "(accounted d \<longrightarrow> accounted d') \<and> (\<forall>e. res = Inl e \<longrightarrow> bd_operations d' = bd_operations d)"
proof (cases "ebind (resolve_providers env (bd_implementation d) ms [] []) (\<lambda>(ps, os).
             ebind (operation_names r) (\<lambda>names. ebind (add_aliases r names os) (\<lambda>os'. Inr (ps, os'))))")
  case (Inl e')
  then show ?thesis using assms by (auto simp: bundled_initialize_def)
next
  case (Inr x)
  obtain ps os where x: "x = (ps, os)" by (cases x)
  obtain res1 now d1 where s: "start_providers env ps ms [] d = (res1, now, d1)" by (metis prod_cases3)
  have ops: "bd_operations d1 = bd_operations d" using start_providers_run[OF s] by auto
  have acc: "accounted d \<Longrightarrow> accounted d1" by (rule start_providers_accounted[OF s])
  show ?thesis
  proof (cases res1)
    case (Inl e)
    obtain y d2 where "roll_back env (rev now) d1 = (y, d2)" by fastforce
    then show ?thesis using roll_back_keeps[of env "rev now" d1 y d2] assms Inl Inr x s ops acc
      by (auto simp: bundled_initialize_def split: sum.splits)
  next
    case (Inr u)
    then show ?thesis using \<open>ebind _ _ = Inr x\<close> assms x s acc by (auto simp: bundled_initialize_def)
  qed
qed

text \<open>Closing shuts every provider down, the last started first, whatever their hooks do.\<close>

lemma shut_all_run:
  "shut_all env ps es d = (es', d') \<Longrightarrow>
   d' = d\<lparr>bd_history := bd_history d @ map (Shut_down \<circ> fst) ps\<rparr> \<and>
   es' = es @ concat (map (\<lambda>(n, p). case shutdown_provider env n p of Inl e \<Rightarrow> [e] | Inr _ \<Rightarrow> []) ps)"
proof (induction ps arbitrary: es d)
  case (Cons a ps)
  obtain n p where a: "a = (n, p)" by (cases a)
  show ?case
  proof (cases "shutdown_provider env n p")
    case (Inl e)
    with Cons.IH[of "es @ [e]" "d\<lparr>bd_history := bd_history d @ [Shut_down n]\<rparr>"] Cons.prems show ?thesis by (auto simp: a Let_def)
  next
    case (Inr u)
    with Cons.IH[of es "d\<lparr>bd_history := bd_history d @ [Shut_down n]\<rparr>"] Cons.prems show ?thesis by (auto simp: a Let_def)
  qed
qed simp

theorem bundled_close_shuts_down:
  assumes "accounted d" "bundled_close env d = (res, d')"
  shows "bd_initialized d' = []" "bd_operations d' = []" "running (bd_history d') = {}"
    "bd_history d' = bd_history d @ map Shut_down (rev (map fst (bd_initialized d)))"
    "res = Inr () \<longleftrightarrow> (\<forall>(n, p) \<in> set (bd_initialized d). ok (shutdown_provider env n p))"
proof -
  obtain es d1 where s: "shut_all env (rev (bd_initialized d)) [] (d\<lparr>bd_initialized := [], bd_operations := []\<rparr>) = (es, d1)"
    by fastforce
  have d': "d' = d1" and res: "res = (case es of [] \<Rightarrow> Inr () | e # _ \<Rightarrow> Inl e)"
    using assms(2) s by (auto simp: bundled_close_def)
  note run = shut_all_run[OF s]
  show "bd_initialized d' = []" "bd_operations d' = []" using run by (simp_all add: d')
  show h: "bd_history d' = bd_history d @ map Shut_down (rev (map fst (bd_initialized d)))"
    using run by (simp add: d' rev_map comp_def)
  show "running (bd_history d') = {}" using assms(1) unfolding h running_shut by (simp add: accounted_def)
  have "res = Inr () \<longleftrightarrow> es = []" by (simp add: res split: list.split)
  also have "\<dots> \<longleftrightarrow> (\<forall>(n, p) \<in> set (bd_initialized d). ok (shutdown_provider env n p))"
    using run by (fastforce split: sum.splits)
  finally show "res = Inr () \<longleftrightarrow> (\<forall>(n, p) \<in> set (bd_initialized d). ok (shutdown_provider env n p))" .
qed

section \<open>The backends of the runtime\<close>

text \<open>The isolated backend publishes the operations of its registry; it is not initialized by the runtime.\<close>

datatype any_backend = In_process Bundled | Isolated Registry

definition initialize_any :: "'l Providers \<Rightarrow> any_backend \<Rightarrow> 'l Manifest list \<Rightarrow> Registry \<Rightarrow> unit result \<times> any_backend" where
  "initialize_any env b ms r =
     (case b of
        In_process d \<Rightarrow> (case bundled_initialize env ms r d of (res, d') \<Rightarrow> (res, In_process d'))
      | Isolated r' \<Rightarrow> (Inl AttributeError, b))"

definition names_of_backend :: "any_backend \<Rightarrow> string list" where
  "names_of_backend b =
     (case b of In_process d \<Rightarrow> bundled_operation_names d
      | Isolated r \<Rightarrow> (case operation_names r of Inl e \<Rightarrow> [] | Inr ns \<Rightarrow> ns))"

definition backends_of :: "'l Providers \<Rightarrow> 'l \<Rightarrow> (any_backend, 'l) Backends" where
  "backends_of env disabled = \<lparr>bk_bundled = (\<lambda>i. In_process (new_bundled i)), bk_initialize = initialize_any env,
     bk_operation_names = names_of_backend, bk_disabled = disabled\<rparr>"

interpretation wmfs: runtime_backends "backends_of env disabled" for env :: "'l Providers" and disabled :: 'l
proof
  fix b :: any_backend and ms :: "'l Manifest list" and r e b'
  assume "bk_initialize (backends_of env disabled) b ms r = (Inl e, b')"
  then show "bk_operation_names (backends_of env disabled) b' = bk_operation_names (backends_of env disabled) b"
    using bundled_initialize_keeps[of env ms r]
    by (cases b) (auto simp: backends_of_def initialize_any_def names_of_backend_def bundled_operation_names_def split: prod.splits)
qed

end
