(* ===== verification/Log_Codec.thy ===== *)
theory Log_Codec
  imports Utf8 Json
begin

unbundle bit_operations_syntax

text \<open>
  The packets of structured log records: \<open>packages/wmfs/wmfs/logging.py\<close> and the worker's copy
  \<open>packages/wmfs-plugin/wmfs_plugin/log_codec.py\<close>. The two encoders differ in the room they leave
  for the text of a field, the argument \<open>spent\<close> of the shared functions. \<open>LogProtocolError\<close> is a
  subclass of \<open>ValueError\<close>. Strings are lists of code points, floats their bits.
\<close>

section \<open>Constants\<close>

definition LOG_MAGIC :: int where "LOG_MAGIC = 0x31474F4C53464D57"
definition LOG_ABI_MAJOR :: int where "LOG_ABI_MAJOR = 1"
definition LOG_ABI_MINOR :: int where "LOG_ABI_MINOR = 0"
definition LOG_HEADER_SIZE :: nat where "LOG_HEADER_SIZE = 100"
definition LOG_FIELD_SIZE :: nat where "LOG_FIELD_SIZE = 24"
definition MAX_LOG_RECORD_BYTES :: nat where "MAX_LOG_RECORD_BYTES = 65536"
definition MAX_LOG_FIELDS :: nat where "MAX_LOG_FIELDS = 32"
definition MAX_LOG_MESSAGE_BYTES :: nat where "MAX_LOG_MESSAGE_BYTES = 32768"
definition MAX_LOG_CATEGORY_BYTES :: nat where "MAX_LOG_CATEGORY_BYTES = 1024"
definition MAX_LOG_NAME_BYTES :: nat where "MAX_LOG_NAME_BYTES = 255"
definition FLAG_TRUNCATED :: int where "FLAG_TRUNCATED = 1"
definition FLAG_SYNTHETIC :: int where "FLAG_SYNTHETIC = 2"
definition KNOWN_FLAGS :: int where "KNOWN_FLAGS = FLAG_TRUNCATED OR FLAG_SYNTHETIC"

definition LOG_LEVELS :: "int set" where "LOG_LEVELS = {10, 20, 30, 40, 50}"

definition LOG_HEADER_fmt :: "fmt list" where
  "LOG_HEADER_fmt = [FQ, FH, FH, FI, FI, FI, FI, FI, FI, FI, FI, FQ, FQ, FQ, FQ, FQ, FQ, FQ]"

definition LOG_FIELD_fmt :: "fmt list" where
  "LOG_FIELD_fmt = [FH, FH, FI, FI, FQ, FI]"

lemmas log_consts = LOG_MAGIC_def LOG_ABI_MAJOR_def LOG_ABI_MINOR_def LOG_HEADER_SIZE_def LOG_FIELD_SIZE_def
  MAX_LOG_RECORD_BYTES_def MAX_LOG_FIELDS_def MAX_LOG_MESSAGE_BYTES_def MAX_LOG_CATEGORY_BYTES_def MAX_LOG_NAME_BYTES_def
  FLAG_TRUNCATED_def FLAG_SYNTHETIC_def KNOWN_FLAGS_def LOG_LEVELS_def

section \<open>Records\<close>

datatype LogValue = LBool bool | LInt int | LFloat "64 word" | LText ustr | LUnsupported

record LogContext =
  lc_session :: int
  lc_submission :: int
  lc_invocation :: int
  lc_operation :: int

record LogRecord =
  lr_level :: int
  lr_message :: ustr
  lr_category :: ustr
  lr_fields :: "(ustr \<times> LogValue) list"
  lr_sequence :: int
  lr_time_ns :: int
  lr_context :: LogContext
  lr_flags :: int
  lr_dropped_before :: int

section \<open>Encoding\<close>

text \<open>The UTF-8 of a string, or the whole characters in its first \<open>limit\<close> bytes, and whether it was cut.\<close>

definition utf8_prefix :: "ustr \<Rightarrow> nat \<Rightarrow> (bytes \<times> bool) result" where
  "utf8_prefix s limit =
     ebind (utf8_encode s) (\<lambda>encoded.
     if length encoded \<le> limit then Inr (encoded, False)
     else ebind (utf8_encode (utf8_decode_ignore (take limit encoded))) (\<lambda>cut. Inr (cut, True)))"

definition field_bits :: "LogValue \<Rightarrow> (int \<times> int) result" where
  "field_bits v =
     (case v of
        LBool b \<Rightarrow> Inr (1, if b then 1 else 0)
      | LInt i \<Rightarrow>
          (if i < - (2 ^ 63) \<or> 2 ^ 64 - 1 < i then Inl (ValueError ''integer log field is out of range'')
           else Inr (if i < 0 then 2 else 3, i mod 2 ^ 64))
      | LFloat w \<Rightarrow> (if float_finite w then Inr (4, uint w) else Inl (ValueError ''float log fields must be finite''))
      | LText s \<Rightarrow> Inr (5, 0)
      | LUnsupported \<Rightarrow> Inl (ValueError ''unsupported structured log field''))"

fun encoded_size :: "bytes list \<Rightarrow> nat" where
  "encoded_size es = sum_list (map length es)"

definition field_text :: "LogValue \<Rightarrow> nat \<Rightarrow> (bytes \<times> bool) result" where
  "field_text v room = (case v of LText s \<Rightarrow> utf8_prefix s room | _ \<Rightarrow> Inr ([], False))"

text \<open>A field, and the loop over the fields: \<open>used\<close> bytes of header, category and message, the fields encoded
  so far.\<close>

definition encode_field :: "nat \<Rightarrow> ustr \<times> LogValue \<Rightarrow> (bytes \<times> bool) result" where
  "encode_field room = (\<lambda>(name, v).
     ebind (utf8_prefix name MAX_LOG_NAME_BYTES) (\<lambda>(name_bytes, cut1).
     ebind (field_bits v) (\<lambda>(kind, bits).
     ebind (field_text v (room - LOG_FIELD_SIZE - length name_bytes)) (\<lambda>(text, cut2).
     ebind (pack LOG_FIELD_fmt [VI kind, VI 0, VI (int (length name_bytes)), VI (int (length text)), VI bits, VI 0]) (\<lambda>head.
     Inr (head @ name_bytes @ text, cut1 \<or> cut2))))))"

fun encode_fields ::
  "(bytes list \<Rightarrow> nat) \<Rightarrow> nat \<Rightarrow> nat \<Rightarrow> (ustr \<times> LogValue) list \<Rightarrow> bytes list \<Rightarrow> bool \<Rightarrow> (bytes list \<times> bool) result" where
  "encode_fields spent limit used [] es truncated = Inr (es, truncated)"
| "encode_fields spent limit used (item # items) es truncated =
     ebind (encode_field (limit - used - spent es) item) (\<lambda>(part, cut).
     if limit < used + encoded_size es + length part then Inr (es, True)
     else encode_fields spent limit used items (es @ [part]) (truncated \<or> cut))"

definition log_header :: "LogRecord \<Rightarrow> int \<Rightarrow> nat \<Rightarrow> nat \<Rightarrow> nat \<Rightarrow> nat \<Rightarrow> fval list" where
  "log_header r flags packet_size field_count category_size message_size =
     [VI LOG_MAGIC, VI LOG_ABI_MAJOR, VI LOG_ABI_MINOR, VI (int LOG_HEADER_SIZE), VI (int packet_size), VI flags, VI (lr_level r),
      VI (int field_count), VI (int category_size), VI (int message_size), VI 0, VI (lr_sequence r), VI (lr_time_ns r),
      VI (lc_session (lr_context r)), VI (lc_submission (lr_context r)), VI (lc_invocation (lr_context r)),
      VI (lc_operation (lr_context r)), VI (lr_dropped_before r)]"

definition encode_log :: "(bytes list \<Rightarrow> nat) \<Rightarrow> LogRecord \<Rightarrow> nat \<Rightarrow> bytes result" where
  "encode_log spent r limit =
     (if lr_level r \<notin> LOG_LEVELS then Inl (ValueError ''invalid log level'')
      else if limit < LOG_HEADER_SIZE \<or> MAX_LOG_RECORD_BYTES < limit then Inl (ValueError ''invalid log record limit'')
      else
      ebind (utf8_prefix (lr_category r) (min MAX_LOG_CATEGORY_BYTES (limit - LOG_HEADER_SIZE))) (\<lambda>(category, cut1).
      ebind (utf8_prefix (lr_message r) (min MAX_LOG_MESSAGE_BYTES (limit - LOG_HEADER_SIZE - length category))) (\<lambda>(message, cut2).
      ebind (encode_fields spent limit (LOG_HEADER_SIZE + length category + length message) (take MAX_LOG_FIELDS (lr_fields r)) []
        (MAX_LOG_FIELDS < length (lr_fields r) \<or> cut1 \<or> cut2)) (\<lambda>(es, truncated).
      let flags = lr_flags r OR (if truncated then FLAG_TRUNCATED else 0);
          body = category @ message @ concat es in
      if flags AND NOT KNOWN_FLAGS \<noteq> 0 then Inl (ValueError ''unknown log flags'')
      else ebind (pack LOG_HEADER_fmt (log_header r flags (LOG_HEADER_SIZE + length body) (length es) (length category) (length message)))
        (\<lambda>header. Inr (header @ body))))))"

definition encode_log_record :: "LogRecord \<Rightarrow> nat \<Rightarrow> bytes result" where
  "encode_log_record = encode_log (\<lambda>es. length es * LOG_FIELD_SIZE)"

definition sdk_encode_log_record :: "LogRecord \<Rightarrow> nat \<Rightarrow> bytes result" where
  "sdk_encode_log_record = encode_log encoded_size"

section \<open>Decoding\<close>

definition field_value :: "int \<Rightarrow> int \<Rightarrow> ustr \<Rightarrow> LogValue result" where
  "field_value kind bits text =
     (if kind = 1 then (if bits \<notin> {0, 1} then Inl (ValueError ''invalid Boolean log field'') else Inr (LBool (bits = 1)))
      else if kind = 2 then Inr (LInt (if 2 ^ 63 \<le> bits then bits - 2 ^ 64 else bits))
      else if kind = 3 then Inr (LInt bits)
      else if kind = 4 then
        (if \<not> float_finite (word_of_int bits) then Inl (ValueError ''non-finite float log field'') else Inr (LFloat (word_of_int bits)))
      else Inr (LText text))"

text \<open>\<open>decode\<close> with its handler.\<close>

definition log_text :: "bytes \<Rightarrow> ustr result" where
  "log_text bs = (case utf8_decode bs of Inl e \<Rightarrow> Inl (ValueError ''log text is not UTF-8'') | Inr s \<Rightarrow> Inr s)"

definition decode_field ::
  "bytes \<Rightarrow> nat \<Rightarrow> (ustr \<times> LogValue) list \<Rightarrow> ((ustr \<times> LogValue) \<times> nat) result" where
  "decode_field packet offset found =
     (if length packet < offset + LOG_FIELD_SIZE then Inl (ValueError ''truncated log field'')
      else
      ebind (unpack_from LOG_FIELD_fmt packet offset) (\<lambda>v.
      let kind = vint (v ! 0); name_size = nat (vint (v ! 2)); text_size = nat (vint (v ! 3)); bits = vint (v ! 4);
          start = offset + LOG_FIELD_SIZE; end' = start + name_size + text_size in
      if vint (v ! 1) \<noteq> 0 \<or> vint (v ! 5) \<noteq> 0 \<or> name_size = 0 \<or> MAX_LOG_NAME_BYTES < name_size \<or> length packet < end' \<or>
         kind \<notin> {1, 2, 3, 4, 5}
      then Inl (ValueError ''invalid log field'')
      else
      ebind (log_text (region start name_size packet)) (\<lambda>name.
      ebind (log_text (region (start + name_size) text_size packet)) (\<lambda>text.
      if name \<in> fst ` set found \<or> (kind \<noteq> 5 \<and> text_size \<noteq> 0) \<or> (kind = 5 \<and> bits \<noteq> 0)
      then Inl (ValueError ''inconsistent log field'')
      else ebind (field_value kind bits text) (\<lambda>value. Inr ((name, value), end'))))))"

fun decode_fields ::
  "nat \<Rightarrow> bytes \<Rightarrow> nat \<Rightarrow> (ustr \<times> LogValue) list \<Rightarrow> ((ustr \<times> LogValue) list \<times> nat) result" where
  "decode_fields 0 packet offset found = Inr (found, offset)"
| "decode_fields (Suc n) packet offset found =
     ebind (decode_field packet offset found) (\<lambda>(item, end'). decode_fields n packet end' (found @ [item]))"

definition decode_log_record :: "bytes \<Rightarrow> LogRecord result" where
  "decode_log_record packet =
     (if length packet < LOG_HEADER_SIZE \<or> MAX_LOG_RECORD_BYTES < length packet then Inl (ValueError ''invalid log packet size'')
      else
      ebind (unpack_from LOG_HEADER_fmt packet 0) (\<lambda>v.
      if vint (v ! 0) \<noteq> LOG_MAGIC \<or> vint (v ! 1) \<noteq> LOG_ABI_MAJOR \<or> LOG_ABI_MINOR < vint (v ! 2)
      then Inl (ValueError ''unsupported log ABI'')
      else if vint (v ! 3) \<noteq> int LOG_HEADER_SIZE \<or> vint (v ! 4) \<noteq> int (length packet) \<or> vint (v ! 5) AND NOT KNOWN_FLAGS \<noteq> 0
      then Inl (ValueError ''invalid log header'')
      else
      let level = vint (v ! 6); count' = nat (vint (v ! 7)); category_size = nat (vint (v ! 8)); message_size = nat (vint (v ! 9));
          variable_end = LOG_HEADER_SIZE + category_size + message_size in
      if level \<notin> LOG_LEVELS \<or> MAX_LOG_FIELDS < count' \<or> vint (v ! 10) \<noteq> 0 then Inl (ValueError ''invalid log header value'')
      else if MAX_LOG_CATEGORY_BYTES < category_size \<or> MAX_LOG_MESSAGE_BYTES < message_size \<or> length packet < variable_end
      then Inl (ValueError ''invalid log text bounds'')
      else
      ebind (log_text (region LOG_HEADER_SIZE category_size packet)) (\<lambda>category.
      ebind (log_text (region (LOG_HEADER_SIZE + category_size) message_size packet)) (\<lambda>message.
      ebind (decode_fields count' packet variable_end []) (\<lambda>(found, offset).
      if offset \<noteq> length packet then Inl (ValueError ''trailing log packet data'')
      else Inr \<lparr>lr_level = level, lr_message = message, lr_category = category, lr_fields = found, lr_sequence = vint (v ! 11),
        lr_time_ns = vint (v ! 12), lr_context = \<lparr>lc_session = vint (v ! 13), lc_submission = vint (v ! 14),
          lc_invocation = vint (v ! 15), lc_operation = vint (v ! 16)\<rparr>,
        lr_flags = vint (v ! 5), lr_dropped_before = vint (v ! 17)\<rparr>)))))"

text \<open>The SDK's copy checks the header in another order; the fields it reads the same way.\<close>

definition sdk_decode_log_record :: "bytes \<Rightarrow> LogRecord result" where
  "sdk_decode_log_record packet =
     (if length packet < LOG_HEADER_SIZE \<or> MAX_LOG_RECORD_BYTES < length packet then Inl (ValueError ''invalid log packet size'')
      else
      ebind (unpack_from LOG_HEADER_fmt packet 0) (\<lambda>v.
      if vint (v ! 0) \<noteq> LOG_MAGIC \<or> vint (v ! 1) \<noteq> 1 \<or> 0 < vint (v ! 2) \<or> vint (v ! 3) \<noteq> int LOG_HEADER_SIZE \<or>
         vint (v ! 4) \<noteq> int (length packet)
      then Inl (ValueError ''unsupported or invalid log header'')
      else if vint (v ! 5) AND NOT (FLAG_TRUNCATED OR FLAG_SYNTHETIC) \<noteq> 0 \<or> vint (v ! 6) \<notin> LOG_LEVELS \<or>
         MAX_LOG_FIELDS < nat (vint (v ! 7)) \<or> vint (v ! 10) \<noteq> 0
      then Inl (ValueError ''invalid log header value'')
      else
      let category_size = nat (vint (v ! 8)); message_size = nat (vint (v ! 9)); end' = LOG_HEADER_SIZE + category_size + message_size in
      if MAX_LOG_CATEGORY_BYTES < category_size \<or> MAX_LOG_MESSAGE_BYTES < message_size \<or> length packet < end'
      then Inl (ValueError ''invalid log text bounds'')
      else
      ebind (log_text (region LOG_HEADER_SIZE category_size packet)) (\<lambda>category.
      ebind (log_text (region (LOG_HEADER_SIZE + category_size) message_size packet)) (\<lambda>message.
      ebind (decode_fields (nat (vint (v ! 7))) packet end' []) (\<lambda>(found, offset).
      if offset \<noteq> length packet then Inl (ValueError ''trailing log packet data'')
      else Inr \<lparr>lr_level = vint (v ! 6), lr_message = message, lr_category = category, lr_fields = found, lr_sequence = vint (v ! 11),
        lr_time_ns = vint (v ! 12), lr_context = \<lparr>lc_session = vint (v ! 13), lc_submission = vint (v ! 14),
          lc_invocation = vint (v ! 15), lc_operation = vint (v ! 16)\<rparr>,
        lr_flags = vint (v ! 5), lr_dropped_before = vint (v ! 17)\<rparr>)))))"

end
