(* ===== verification/Log_Laws.thy ===== *)
theory Log_Laws
  imports Log_Codec "HOL-Library.Sublist"
begin

text \<open>
  A packet of either encoder is decoded to the record it was made from, with what did not fit cut
  off at character boundaries; a record that arrives without the truncated flag is the record sent.
\<close>

section \<open>Cutting UTF-8\<close>

lemma ignore_continuation: "list_all cont bs \<Longrightarrow> utf8_decode_ignore bs = []"
proof (induction bs)
  case (Cons b bs)
  then have "utf8_next (b # bs) = None" by (simp add: utf8_next.simps(2) cont_def Let_def)
  with Cons show ?case by (subst utf8_decode_ignore.simps) simp
qed simp

lemma cont_byte: "n < 64 \<Longrightarrow> cont (byte_of (128 + n))"
  by (simp add: cont_def unat_byte)

lemma next_short:
  "0xC0 \<le> unat b \<Longrightarrow> utf8_next [b] = None" "0xE0 \<le> unat b \<Longrightarrow> utf8_next [b, c1] = None"
  "0xF0 \<le> unat b \<Longrightarrow> utf8_next [b, c1, c2] = None"
  by (simp_all add: utf8_next.simps(2) Let_def)

lemma utf8_char_shape:
  assumes "utf8_char c = Inr a"
  obtains b cs where "a = b # cs" "list_all cont cs" "length cs < 4"
    "\<And>m. m < length cs \<Longrightarrow> utf8_next (b # take m cs) = None"
proof -
  consider "a = [byte_of c]" "c < 0x80"
    | "a = [byte_of (0xC0 + c div 64), byte_of (0x80 + c mod 64)]" "0x80 \<le> c" "c < 0x800"
    | "a = [byte_of (0xE0 + c div 4096), byte_of (0x80 + c div 64 mod 64), byte_of (0x80 + c mod 64)]" "c < 0x10000"
    | "a = [byte_of (0xF0 + c div 262144), byte_of (0x80 + c div 4096 mod 64), byte_of (0x80 + c div 64 mod 64), byte_of (0x80 + c mod 64)]" "c < 0x110000"
    using assms by (auto simp: utf8_char_def split: if_splits)
  then show thesis
  proof cases
    case 1
    then show thesis by (intro that[of "byte_of c" "[]"]) simp_all
  next
    case 2
    have "c div 64 < 64" using 2 by (simp add: div_less_iff_less_mult)
    then have "0xC0 \<le> unat (byte_of (0xC0 + c div 64))" by (simp add: unat_byte)
    then show thesis using 2(1) by (intro that[OF 2(1)]) (simp_all add: cont_byte next_short)
  next
    case 3
    have "c div 4096 < 16" using 3 by (simp add: div_less_iff_less_mult)
    then have "0xE0 \<le> unat (byte_of (0xE0 + c div 4096))" by (simp add: unat_byte)
    then show thesis by (intro that[OF 3(1)]) (auto simp: cont_byte next_short less_Suc_eq numeral_2_eq_2)
  next
    case 4
    have "c div 262144 < 8" using 4 by (simp add: div_less_iff_less_mult)
    then have "0xF0 \<le> unat (byte_of (0xF0 + c div 262144))" by (simp add: unat_byte)
    then show thesis by (intro that[OF 4(1)]) (auto simp: cont_byte next_short less_Suc_eq numeral_2_eq_2 numeral_3_eq_3)
  qed
qed

lemma ignore_part: "utf8_char c = Inr a \<Longrightarrow> n < length a \<Longrightarrow> utf8_decode_ignore (take n a) = []"
proof (erule utf8_char_shape)
  fix b cs assume a: "a = b # cs" "list_all cont cs" "\<And>m. m < length cs \<Longrightarrow> utf8_next (b # take m cs) = None" and n: "n < length a"
  show "utf8_decode_ignore (take n a) = []"
  proof (cases n)
    case (Suc m)
    then have "utf8_next (b # take m cs) = None" using a n by simp
    moreover have "list_all cont (take m cs)" using a(2) by (auto simp: list_all_iff dest: in_set_takeD)
    ultimately show ?thesis using Suc by (subst utf8_decode_ignore.simps) (simp add: a(1) ignore_continuation)
  qed simp
qed

text \<open>The characters whose UTF-8 fits.\<close>

lemma ignore_prefix:
  assumes "utf8_encode s = Inr e"
  shows "\<exists>bs. prefix (utf8_decode_ignore (take n e)) s \<and> utf8_encode (utf8_decode_ignore (take n e)) = Inr bs \<and> length bs \<le> n \<and>
    (4 \<le> n \<longrightarrow> s \<noteq> [] \<longrightarrow> utf8_decode_ignore (take n e) \<noteq> [])"
  using assms
proof (induction s arbitrary: n e)
  case (Cons c s)
  then obtain a b where ab: "utf8_char c = Inr a" "utf8_encode s = Inr b" "e = a @ b" by (auto simp: err_simps)
  show ?case
  proof (cases "length a \<le> n")
    case False
    then have "utf8_decode_ignore (take n e) = []" using ab by (simp add: ignore_part)
    moreover have "length a \<le> 4" using ab(1) by (rule utf8_char_shape) simp
    ultimately show ?thesis using False by simp
  next
    case True
    have "take n e = a @ take (n - length a) b" using True ab(3) by simp
    moreover have "utf8_decode_ignore (a @ r) = c # utf8_decode_ignore r" for r
      using utf8_char_next[OF ab(1), of r] ab(1) by (subst utf8_decode_ignore.simps) (auto elim: utf8_char_shape)
    ultimately have "utf8_decode_ignore (take n e) = c # utf8_decode_ignore (take (n - length a) b)" by simp
    with Cons.IH[OF ab(2), of "n - length a"] ab(1) True show ?thesis by (auto simp: err_simps)
  qed
qed simp

definition cut_to :: "ustr \<Rightarrow> nat \<Rightarrow> ustr" where
  "cut_to s limit = (case utf8_encode s of Inl e \<Rightarrow> s | Inr e \<Rightarrow> if length e \<le> limit then s else utf8_decode_ignore (take limit e))"

lemma utf8_prefix_cut:
  assumes "utf8_prefix s limit = Inr (bs, was_cut)"
  shows "utf8_encode (cut_to s limit) = Inr bs" "length bs \<le> limit" "prefix (cut_to s limit) s" "\<not> was_cut \<Longrightarrow> cut_to s limit = s"
    "4 \<le> limit \<Longrightarrow> s \<noteq> [] \<Longrightarrow> cut_to s limit \<noteq> []"
proof -
  obtain e where e: "utf8_encode s = Inr e" using assms by (auto simp: utf8_prefix_def err_simps)
  show "utf8_encode (cut_to s limit) = Inr bs" "length bs \<le> limit" "prefix (cut_to s limit) s" "\<not> was_cut \<Longrightarrow> cut_to s limit = s"
    "4 \<le> limit \<Longrightarrow> s \<noteq> [] \<Longrightarrow> cut_to s limit \<noteq> []"
    using assms e ignore_prefix[OF e, of limit] by (auto simp: utf8_prefix_def cut_to_def err_simps split: if_splits)
qed

section \<open>A field\<close>

definition shorter_value :: "LogValue \<Rightarrow> LogValue \<Rightarrow> bool" where
  "shorter_value v v' \<longleftrightarrow> v' = v \<or> (\<exists>s s'. v = LText s \<and> v' = LText s' \<and> prefix s' s)"

lemma log_text_encode: "utf8_encode s = Inr bs \<Longrightarrow> log_text bs = Inr s"
  by (simp add: log_text_def utf8_decode_encode)

lemma negative_wraps: "- (2 ^ 63) \<le> i \<Longrightarrow> i < 0 \<Longrightarrow> i mod 2 ^ 64 = i + 2 ^ 64" for i :: int
proof -
  assume "- (2 ^ 63) \<le> i" "i < 0"
  then have "(i + 2 ^ 64) mod 2 ^ 64 = i + 2 ^ 64" by (intro mod_pos_pos_trivial) simp_all
  then show ?thesis by (simp only: mod_add_self2)
qed

lemma field_bits_value:
  assumes "field_bits v = Inr (kind, bits)"
  shows "kind \<in> {1, 2, 3, 4, 5} \<and> (kind = 5 \<longrightarrow> bits = 0 \<and> (\<exists>s. v = LText s)) \<and>
    (kind \<noteq> 5 \<longrightarrow> (\<forall>s. field_value kind bits s = Inr v) \<and> (\<forall>s. v \<noteq> LText s))"
proof (cases v)
  case (LFloat w)
  have "kind = 4" "bits = uint w" "float_finite w" using assms LFloat by (auto simp: field_bits_def split: if_splits)
  then show ?thesis using LFloat by (simp add: field_value_def)
next
  case (LInt i)
  show ?thesis
  proof (cases "i < 0")
    case True
    then have "kind = 2" "bits = i + 2 ^ 64" "- (2 ^ 63) \<le> i"
      using assms LInt negative_wraps[of i] by (auto simp: field_bits_def split: if_splits)
    then show ?thesis using LInt True by (simp add: field_value_def)
  next
    case False
    then have "kind = 3" "bits = i" using assms LInt by (auto simp: field_bits_def split: if_splits)
    then show ?thesis using LInt by (simp add: field_value_def)
  qed
qed (use assms in \<open>auto simp: field_bits_def field_value_def split: if_splits\<close>)

lemma encoded_field:
  assumes "encode_field room (name, v) = Inr (part, was_cut)"
  obtains name_bytes tb kind bits head cut1 cut2 where "utf8_prefix name MAX_LOG_NAME_BYTES = Inr (name_bytes, cut1)"
    "field_bits v = Inr (kind, bits)" "field_text v (room - LOG_FIELD_SIZE - length name_bytes) = Inr (tb, cut2)"
    "pack LOG_FIELD_fmt [VI kind, VI 0, VI (int (length name_bytes)), VI (int (length tb)), VI bits, VI 0] = Inr head"
    "part = head @ name_bytes @ tb" "was_cut \<longleftrightarrow> cut1 \<or> cut2"
proof -
  from assms obtain nb c1 where 1: "utf8_prefix name MAX_LOG_NAME_BYTES = Inr (nb, c1)" by (auto simp: encode_field_def ebind_eq_Inr)
  from assms 1 obtain kind bits where 2: "field_bits v = Inr (kind, bits)" by (auto simp: encode_field_def ebind_eq_Inr)
  from assms 1 2 obtain tb c2 where 3: "field_text v (room - LOG_FIELD_SIZE - length nb) = Inr (tb, c2)"
    by (auto simp: encode_field_def ebind_eq_Inr)
  from assms obtain head where 4: "pack LOG_FIELD_fmt [VI kind, VI 0, VI (int (length nb)), VI (int (length tb)), VI bits, VI 0] = Inr head"
    "part = head @ nb @ tb" "was_cut \<longleftrightarrow> c1 \<or> c2"
    by (auto simp: encode_field_def ebind_eq_Inr 1 2 3[unfolded diff_diff_left])
  from that[OF 1 2 3 4] show thesis .
qed

lemma decode_encoded_field:
  assumes "encode_field room (name, v) = Inr (part, was_cut)" "name \<noteq> []" "cut_to name MAX_LOG_NAME_BYTES \<notin> fst ` set found"
  shows "\<exists>v'. shorter_value v v' \<and> (\<not> was_cut \<longrightarrow> v' = v \<and> cut_to name MAX_LOG_NAME_BYTES = name) \<and>
    (\<forall>pre post. decode_field (pre @ part @ post) (length pre) found = Inr ((cut_to name MAX_LOG_NAME_BYTES, v'), length pre + length part))"
proof -
  obtain name_bytes tb kind bits head cut1 cut2 where e: "utf8_prefix name MAX_LOG_NAME_BYTES = Inr (name_bytes, cut1)"
    "field_bits v = Inr (kind, bits)" "field_text v (room - LOG_FIELD_SIZE - length name_bytes) = Inr (tb, cut2)"
    "pack LOG_FIELD_fmt [VI kind, VI 0, VI (int (length name_bytes)), VI (int (length tb)), VI bits, VI 0] = Inr head"
    "part = head @ name_bytes @ tb" "was_cut \<longleftrightarrow> cut1 \<or> cut2"
    using assms(1) by (rule encoded_field)
  note name = utf8_prefix_cut[OF e(1)]
  have nonempty: "name_bytes \<noteq> []"
    using name(1) name(5)[OF _ assms(2)] by (cases "cut_to name MAX_LOG_NAME_BYTES")
      (auto simp: err_simps MAX_LOG_NAME_BYTES_def elim!: utf8_char_shape)
  have exact: "exact LOG_FIELD_fmt [VI kind, VI 0, VI (int (length name_bytes)), VI (int (length tb)), VI bits, VI 0]"
    using e(4) by (rule pack_imp_exact) (simp add: LOG_FIELD_fmt_def)
  have head: "length head = 24" using pack_length[OF e(4)] by (simp add: LOG_FIELD_fmt_def)
  have unpacked: "unpack_from LOG_FIELD_fmt (pre @ part @ post) (length pre) =
      Inr [VI kind, VI 0, VI (int (length name_bytes)), VI (int (length tb)), VI bits, VI 0]" for pre post
    using unpack_pack[OF exact e(4), of "name_bytes @ tb @ post"] head
    by (simp add: unpack_from_def e(5) LOG_FIELD_fmt_def)
  note b = field_bits_value[OF e(2)]
  have kinds: "(kind \<noteq> 1 \<and> kind \<noteq> 2 \<and> kind \<noteq> 3 \<and> kind \<noteq> 4 \<and> kind \<noteq> 5) = False" using b by auto
  have name_region: "region (length pre + 24) (length name_bytes) (pre @ part @ post) = name_bytes" for pre post
    using head by (simp add: e(5) region_def)
  have text_region: "region (length pre + 24 + length name_bytes) (length tb) (pre @ part @ post) = tb" for pre post
    using head by (simp add: e(5) region_def)
  obtain s v' where s: "utf8_encode s = Inr tb" "kind = 5 \<or> tb = []" "field_value kind bits s = Inr v'" "shorter_value v v'"
    "\<not> cut2 \<longrightarrow> v' = v"
  proof (cases "kind = 5")
    case True
    then obtain t where t: "v = LText t" using b by blast
    note c = utf8_prefix_cut[of t "room - LOG_FIELD_SIZE - length name_bytes" tb cut2]
    have p: "utf8_prefix t (room - LOG_FIELD_SIZE - length name_bytes) = Inr (tb, cut2)" using e(3) t by (simp add: field_text_def)
    show thesis using c[OF p] True t b that[of "cut_to t (room - LOG_FIELD_SIZE - length name_bytes)" "LText (cut_to t (room - LOG_FIELD_SIZE - length name_bytes))"]
      by (auto simp: field_value_def shorter_value_def)
  next
    case False
    then show thesis using b e(3) that[of "[]" v] by (cases v) (auto simp: field_text_def shorter_value_def)
  qed
  have "decode_field (pre @ part @ post) (length pre) found = Inr ((cut_to name MAX_LOG_NAME_BYTES, v'), length pre + length part)" for pre post
    using b nonempty name(2) s(2,3) assms(3) head name_region[of pre post] text_region[of pre post] unfolding decode_field_def unpacked
    by (simp add: Let_def kinds log_text_encode[OF name(1)] log_text_encode[OF s(1)] e(5) LOG_FIELD_SIZE_def)
  then show ?thesis using s(4,5) e(6) name(4) by blast
qed

section \<open>The fields\<close>

definition shorter_item :: "ustr \<times> LogValue \<Rightarrow> ustr \<times> LogValue \<Rightarrow> bool" where
  "shorter_item p q \<longleftrightarrow> fst q = cut_to (fst p) MAX_LOG_NAME_BYTES \<and> shorter_value (snd p) (snd q)"

text \<open>Names that are still there, and still different, when they are cut to the limit.\<close>

definition names_survive :: "(ustr \<times> LogValue) list \<Rightarrow> bool" where
  "names_survive items \<longleftrightarrow> (\<forall>p \<in> set items. fst p \<noteq> []) \<and> distinct (map (\<lambda>p. cut_to (fst p) MAX_LOG_NAME_BYTES) items)"

lemma encoded_fields:
  assumes "encode_fields spent limit used items es tr = Inr (es', tr')" "names_survive items"
    and "\<forall>p \<in> set items. cut_to (fst p) MAX_LOG_NAME_BYTES \<notin> fst ` set found"
  shows "\<exists>parts fs. es' = es @ parts \<and> length parts = length fs \<and> length fs \<le> length items \<and>
    list_all2 shorter_item (take (length fs) items) fs \<and> (\<not> tr' \<longrightarrow> \<not> tr \<and> fs = items) \<and>
    (\<forall>pre post. decode_fields (length fs) (pre @ concat parts @ post) (length pre) found = Inr (found @ fs, length pre + length (concat parts))) \<and>
    (used + encoded_size es \<le> limit \<longrightarrow> used + encoded_size es' \<le> limit)"
  using assms
proof (induction items arbitrary: es tr found)
  case Nil
  then show ?case by (intro exI[of _ "[]"]) auto
next
  case (Cons item items)
  obtain name v where item: "item = (name, v)" by (cases item)
  obtain part was_cut where part: "encode_field (limit - used - spent es) (name, v) = Inr (part, was_cut)"
    using Cons.prems(1) item by (auto simp: ebind_eq_Inr)
  show ?case
  proof (cases "limit < used + encoded_size es + length part")
    case True
    then have "es' = es" "tr'" using Cons.prems(1) part item by simp_all
    then show ?thesis by (intro exI[of _ "[]"]) auto
  next
    case False
    have rest: "encode_fields spent limit used items (es @ [part]) (tr \<or> was_cut) = Inr (es', tr')"
      using Cons.prems(1) part item False by simp
    have name: "name \<noteq> []" "cut_to name MAX_LOG_NAME_BYTES \<notin> fst ` set found" using Cons.prems(2,3) item by (auto simp: names_survive_def)
    obtain v' where v': "shorter_value v v'" "\<not> was_cut \<longrightarrow> v' = v \<and> cut_to name MAX_LOG_NAME_BYTES = name"
      and f: "\<And>pre post. decode_field (pre @ part @ post) (length pre) found = Inr ((cut_to name MAX_LOG_NAME_BYTES, v'), length pre + length part)"
      using decode_encoded_field[OF part name] by blast
    let ?found = "found @ [(cut_to name MAX_LOG_NAME_BYTES, v')]"
    have "\<forall>p \<in> set items. cut_to (fst p) MAX_LOG_NAME_BYTES \<notin> fst ` set ?found"
      using Cons.prems(2,3) item by (force simp: names_survive_def image_iff)
    moreover have "names_survive items" using Cons.prems(2) by (simp add: names_survive_def)
    ultimately obtain parts fs where r: "es' = (es @ [part]) @ parts" "length parts = length fs" "length fs \<le> length items"
      "list_all2 shorter_item (take (length fs) items) fs" "\<not> tr' \<longrightarrow> \<not> (tr \<or> was_cut) \<and> fs = items"
      "used + encoded_size (es @ [part]) \<le> limit \<longrightarrow> used + encoded_size es' \<le> limit"
      and d: "\<And>pre post. decode_fields (length fs) (pre @ concat parts @ post) (length pre) ?found =
        Inr (?found @ fs, length pre + length (concat parts))"
      using Cons.IH[OF rest] by blast
    have "decode_fields (length ((cut_to name MAX_LOG_NAME_BYTES, v') # fs)) (pre @ concat (part # parts) @ post) (length pre) found =
        Inr (found @ (cut_to name MAX_LOG_NAME_BYTES, v') # fs, length pre + length (concat (part # parts)))" for pre post
      using f[of pre "concat parts @ post"] d[of "pre @ part" post] by simp
    moreover have "shorter_item item (cut_to name MAX_LOG_NAME_BYTES, v')" using v'(1) item by (simp add: shorter_item_def)
    ultimately show ?thesis
      using r v'(2) item False
      by (intro exI[of _ "part # parts"] exI[of _ "(cut_to name MAX_LOG_NAME_BYTES, v') # fs"]) auto
  qed
qed

section \<open>Records\<close>

definition shortened :: "LogRecord \<Rightarrow> LogRecord \<Rightarrow> bool" where
  "shortened r r' \<longleftrightarrow> lr_level r' = lr_level r \<and> lr_sequence r' = lr_sequence r \<and> lr_time_ns r' = lr_time_ns r \<and>
     lr_context r' = lr_context r \<and> lr_dropped_before r' = lr_dropped_before r \<and>
     prefix (lr_message r') (lr_message r) \<and> prefix (lr_category r') (lr_category r) \<and>
     list_all2 shorter_item (take (length (lr_fields r')) (lr_fields r)) (lr_fields r') \<and>
     (lr_flags r' = lr_flags r \<or> lr_flags r' = lr_flags r OR FLAG_TRUNCATED) \<and>
     (lr_flags r' AND FLAG_TRUNCATED = 0 \<longrightarrow> r' = r)"

lemma truncated_flag: "(x OR FLAG_TRUNCATED) AND FLAG_TRUNCATED \<noteq> 0"
  by (simp add: FLAG_TRUNCATED_def bit.conj_disj_distrib2 or_eq_0_iff)

theorem decode_encoded_log:
  assumes "encode_log spent r limit = Inr packet" "names_survive (take MAX_LOG_FIELDS (lr_fields r))"
  shows "length packet \<le> limit \<and> (\<exists>r'. decode_log_record packet = Inr r' \<and> shortened r r')"
proof -
  have lv: "lr_level r \<in> LOG_LEVELS" and lim: "100 \<le> limit" "limit \<le> 65536"
    using assms(1) by (auto simp: encode_log_def log_consts split: if_splits)
  note e = assms(1)[unfolded encode_log_def]
  from e lv lim obtain cb c1 where c: "utf8_prefix (lr_category r) (min MAX_LOG_CATEGORY_BYTES (limit - LOG_HEADER_SIZE)) = Inr (cb, c1)"
    by (auto simp: ebind_eq_Inr split: if_splits)
  from e lv lim c obtain mb c2 where m: "utf8_prefix (lr_message r) (min MAX_LOG_MESSAGE_BYTES (limit - LOG_HEADER_SIZE - length cb)) = Inr (mb, c2)"
    by (auto simp: ebind_eq_Inr split: if_splits)
  from e lv lim c m obtain es tr where f: "encode_fields spent limit (LOG_HEADER_SIZE + length cb + length mb) (take MAX_LOG_FIELDS (lr_fields r)) []
        (MAX_LOG_FIELDS < length (lr_fields r) \<or> c1 \<or> c2) = Inr (es, tr)"
    by (auto simp: ebind_eq_Inr split: if_splits)
  define flags where "flags = lr_flags r OR (if tr then FLAG_TRUNCATED else 0)"
  define body where "body = cb @ mb @ concat es"
  from e lv lim c m f have known: "flags AND NOT KNOWN_FLAGS = 0"
    by (auto simp: ebind_eq_Inr Let_def flags_def[symmetric] split: if_splits)
  from e lv lim c m f known obtain header where
    h: "pack LOG_HEADER_fmt (log_header r flags (LOG_HEADER_SIZE + length body) (length es) (length cb) (length mb)) = Inr header"
    and packet: "packet = header @ body"
    by (auto simp: ebind_eq_Inr Let_def flags_def[symmetric] body_def split: if_splits)
  have hl: "length header = 100" using pack_length[OF h] by (simp add: LOG_HEADER_fmt_def)
  note cc = utf8_prefix_cut[OF c] and mm = utf8_prefix_cut[OF m]
  have budget: "length cb \<le> limit - 100" "length cb \<le> 1024" "length mb \<le> limit - 100 - length cb" "length mb \<le> 32768"
    using cc(2) mm(2) by (simp_all add: log_consts)
  let ?items = "take MAX_LOG_FIELDS (lr_fields r)"
  have "\<forall>p \<in> set ?items. cut_to (fst p) MAX_LOG_NAME_BYTES \<notin> fst ` set ([] :: (ustr \<times> LogValue) list)" by simp
  from encoded_fields[OF f assms(2) this] obtain parts fs where fs0: "es = [] @ parts" "length parts = length fs" "length fs \<le> length ?items"
    "list_all2 shorter_item (take (length fs) ?items) fs"
    "\<not> tr \<longrightarrow> \<not> (MAX_LOG_FIELDS < length (lr_fields r) \<or> c1 \<or> c2) \<and> fs = ?items"
    "\<forall>pre post. decode_fields (length fs) (pre @ concat parts @ post) (length pre) [] = Inr ([] @ fs, length pre + length (concat parts))"
    "LOG_HEADER_SIZE + length cb + length mb + encoded_size [] \<le> limit \<longrightarrow> LOG_HEADER_SIZE + length cb + length mb + encoded_size es \<le> limit"
    by blast
  have used: "100 + length cb + length mb + encoded_size [] \<le> limit" using budget lim by simp
  have fs: "length es = length fs" "length fs \<le> 32" "list_all2 shorter_item (take (length fs) (lr_fields r)) fs"
    "\<not> tr \<longrightarrow> length (lr_fields r) \<le> 32 \<and> \<not> c1 \<and> \<not> c2 \<and> fs = lr_fields r"
    "\<forall>pre post. decode_fields (length fs) (pre @ concat es @ post) (length pre) [] = Inr (fs, length pre + length (concat es))"
    "100 + length cb + length mb + encoded_size es \<le> limit"
    using fs0 used by (simp_all add: log_consts min_def split: if_splits)
  have size: "length packet \<le> limit" using fs(6) hl by (simp add: packet body_def length_concat)
  have exact: "exact LOG_HEADER_fmt (log_header r flags (LOG_HEADER_SIZE + length body) (length es) (length cb) (length mb))"
    using h by (rule pack_imp_exact) (simp add: LOG_HEADER_fmt_def log_header_def)
  have unpacked: "unpack_from LOG_HEADER_fmt packet 0 = Inr (log_header r flags (LOG_HEADER_SIZE + length body) (length es) (length cb) (length mb))"
    using unpack_from_0_pack[OF exact h] by (simp add: packet)
  have cr: "region 100 (length cb) packet = cb" "region (100 + length cb) (length mb) packet = mb"
    using hl by (simp_all add: packet body_def region_def)
  have bl: "length body = length cb + length mb + length (concat es)" and pl: "length packet = 100 + length body"
    using hl by (simp_all add: packet body_def)
  have df: "decode_fields (length fs) packet (100 + length cb + length mb) [] = Inr (fs, length packet)"
    using fs(5)[rule_format, of "header @ cb @ mb" "[]"] hl fs(1) by (simp add: packet body_def add.assoc)
  define r' where "r' = \<lparr>lr_level = lr_level r, lr_message = cut_to (lr_message r) (min MAX_LOG_MESSAGE_BYTES (limit - LOG_HEADER_SIZE - length cb)),
    lr_category = cut_to (lr_category r) (min MAX_LOG_CATEGORY_BYTES (limit - LOG_HEADER_SIZE)), lr_fields = fs, lr_sequence = lr_sequence r,
    lr_time_ns = lr_time_ns r, lr_context = lr_context r, lr_flags = flags, lr_dropped_before = lr_dropped_before r\<rparr>"
  have "decode_log_record packet = Inr r'"
    using lv known size lim hl fs(1,2) budget log_text_encode[OF cc(1)] log_text_encode[OF mm(1)]
    unfolding decode_log_record_def unpacked
    by (simp add: log_header_def log_consts Let_def cr df r'_def pl bl)
  moreover have "shortened r r'"
  proof -
    have "\<not> tr" if "flags AND FLAG_TRUNCATED = 0" using truncated_flag[of "lr_flags r"] that by (auto simp: flags_def)
    then have "r' = r" if "flags AND FLAG_TRUNCATED = 0" using fs(4) cc(4) mm(4) that by (simp add: r'_def flags_def)
    moreover have "flags = lr_flags r \<or> flags = lr_flags r OR FLAG_TRUNCATED" by (simp add: flags_def)
    moreover have "lr_flags r' = flags" "lr_fields r' = fs" by (simp_all add: r'_def)
    ultimately show ?thesis unfolding shortened_def using fs(3) cc(3) mm(3) by (simp add: r'_def)
  qed
  ultimately show ?thesis using size by blast
qed

section \<open>The SDK's decoder\<close>

lemma sdk_decode_log_parity: "sdk_decode_log_record packet = Inr r \<longleftrightarrow> decode_log_record packet = Inr r"
proof (cases "length packet < LOG_HEADER_SIZE \<or> MAX_LOG_RECORD_BYTES < length packet")
  case False
  then show ?thesis
  proof (cases "unpack_from LOG_HEADER_fmt packet 0")
    case (Inr v)
    then show ?thesis using False
      by (simp add: sdk_decode_log_record_def decode_log_record_def Let_def KNOWN_FLAGS_def LOG_ABI_MAJOR_def LOG_ABI_MINOR_def del: not_less)
  qed (simp add: sdk_decode_log_record_def decode_log_record_def)
qed (simp add: sdk_decode_log_record_def decode_log_record_def)

end
