(* ===== verification/Logger.thy ===== *)
theory Logger
  imports Log_Codec "HOL-Library.AList"
begin

text \<open>
  The bounded asynchronous loggers: \<open>AsyncLogger\<close> of \<open>packages/wmfs-plugin/wmfs_plugin/logging.py\<close> and
  \<open>InProcessLogger\<close> of \<open>packages/wmfs/wmfs/logging.py\<close>. The queue is shared by a logger and the loggers
  bound from it; the counters are not, since \<open>bind\<close> copies the attributes. The sender thread is that
  of the first logger, handle 0. Delivering may raise, which is the steps' choice; \<open>lg_sent\<close> is what
  was delivered. A message or context value whose \<open>str\<close> raises is not modelled.
\<close>

section \<open>The queue\<close>

fun lowest_level :: "LogRecord list \<Rightarrow> nat option" where
  "lowest_level [] = None"
| "lowest_level (r # rs) =
     (case lowest_level rs of
        None \<Rightarrow> Some 0
      | Some i \<Rightarrow> if lr_level (rs ! i) < lr_level r then Some (Suc i) else Some 0)"

text \<open>What \<open>log\<close> does with a record at the queue; the count of dropped records is increased by the
  second component. \<open>None\<close>: \<open>min\<close> of an empty queue raises, and the exception is swallowed.\<close>

definition enqueue :: "nat \<Rightarrow> LogRecord \<Rightarrow> LogRecord list \<Rightarrow> (LogRecord list \<times> int) option" where
  "enqueue capacity r queue =
     (if capacity \<le> length queue
      then map_option (\<lambda>i. (if lr_level (queue ! i) \<le> lr_level r then take i queue @ drop (Suc i) queue @ [r] else queue, 1))
        (lowest_level queue)
      else Some (queue @ [r], 0))"

text \<open>The runtime's copy compares with \<open>==\<close>.\<close>

definition in_process_enqueue :: "nat \<Rightarrow> LogRecord \<Rightarrow> LogRecord list \<Rightarrow> (LogRecord list \<times> int) option" where
  "in_process_enqueue capacity r queue =
     (if length queue = capacity
      then map_option (\<lambda>i. (if lr_level (queue ! i) \<le> lr_level r then take i queue @ drop (Suc i) queue @ [r] else queue, 1))
        (lowest_level queue)
      else Some (queue @ [r], 0))"

section \<open>State\<close>

record LogHandle =
  lh_bound :: "(ustr \<times> LogValue) list"
  lh_sequence :: int
  lh_dropped :: int

record Logger =
  lg_level :: int
  lg_capacity :: nat
  lg_queue :: "LogRecord list"
  lg_handles :: "LogHandle list"
  lg_taken :: "(LogRecord \<times> int) option"
  lg_sent :: "LogRecord list"
  lg_reported :: int
  lg_closing :: bool

definition new_logger :: "int \<Rightarrow> nat \<Rightarrow> (ustr \<times> LogValue) list \<Rightarrow> Logger" where
  "new_logger level capacity bound = \<lparr>lg_level = level, lg_capacity = capacity, lg_queue = [],
     lg_handles = [\<lparr>lh_bound = bound, lh_sequence = 0, lh_dropped = 0\<rparr>], lg_taken = None, lg_sent = [], lg_reported = 0,
     lg_closing = False\<rparr>"

section \<open>Logging\<close>

definition log_enabled :: "Logger \<Rightarrow> int \<Rightarrow> bool" where
  "log_enabled l level \<longleftrightarrow> lg_level l \<le> level"

definition merged :: "(ustr \<times> LogValue) list \<Rightarrow> (ustr \<times> LogValue) list \<Rightarrow> (ustr \<times> LogValue) list" where
  "merged bound given = fold (\<lambda>(n, v). AList.update n v) given bound"

definition new_record ::
  "LogHandle \<Rightarrow> int \<Rightarrow> ustr \<Rightarrow> ustr \<Rightarrow> (ustr \<times> LogValue) list \<Rightarrow> int \<Rightarrow> LogContext \<Rightarrow> LogRecord" where
  "new_record h level message' category given now ctx =
     \<lparr>lr_level = level, lr_message = message', lr_category = category, lr_fields = merged (lh_bound h) given,
      lr_sequence = lh_sequence h + 1, lr_time_ns = now, lr_context = ctx, lr_flags = 0, lr_dropped_before = 0\<rparr>"

definition logger_log ::
  "nat \<Rightarrow> int \<Rightarrow> ustr \<Rightarrow> ustr \<Rightarrow> (ustr \<times> LogValue) list \<Rightarrow> int \<Rightarrow> LogContext \<Rightarrow> Logger \<Rightarrow> Logger" where
  "logger_log i level message' category given now ctx l =
     (if \<not> log_enabled l level then l
      else
      let h = lg_handles l ! i; r = new_record h level message' category given now ctx;
          h' = h\<lparr>lh_sequence := lh_sequence h + 1\<rparr> in
      case enqueue (lg_capacity l) r (lg_queue l) of
        None \<Rightarrow> l\<lparr>lg_handles := (lg_handles l)[i := h']\<rparr>
      | Some (queue, d) \<Rightarrow>
          l\<lparr>lg_queue := queue, lg_handles := (lg_handles l)[i := h'\<lparr>lh_dropped := lh_dropped h' + d\<rparr>]\<rparr>)"

definition logger_bind :: "nat \<Rightarrow> (ustr \<times> LogValue) list \<Rightarrow> Logger \<Rightarrow> Logger" where
  "logger_bind i given l =
     (let h = lg_handles l ! i in l\<lparr>lg_handles := lg_handles l @ [h\<lparr>lh_bound := merged (lh_bound h) given\<rparr>]\<rparr>)"

section \<open>Sending\<close>

definition lg_root :: "Logger \<Rightarrow> LogHandle" where
  "lg_root l = lg_handles l ! 0"

definition set_root_dropped :: "int \<Rightarrow> Logger \<Rightarrow> Logger" where
  "set_root_dropped d l = l\<lparr>lg_handles := (lg_handles l)[0 := (lg_root l)\<lparr>lh_dropped := d\<rparr>]\<rparr>"

definition logger_take :: "Logger \<Rightarrow> Logger option" where
  "logger_take l =
     (case lg_queue l of
        [] \<Rightarrow> None
      | r # rs \<Rightarrow> Some (set_root_dropped 0 (l\<lparr>lg_queue := rs, lg_taken := Some (r, lh_dropped (lg_root l))\<rparr>)))"

definition dropped_notice :: "(int \<Rightarrow> ustr) \<Rightarrow> int \<Rightarrow> LogRecord \<Rightarrow> int \<Rightarrow> LogRecord" where
  "dropped_notice notice now r d =
     \<lparr>lr_level = 30, lr_message = notice d, lr_category = text_of ''wmfs.logging'', lr_fields = [], lr_sequence = lr_sequence r,
      lr_time_ns = now, lr_context = lr_context r, lr_flags = FLAG_SYNTHETIC, lr_dropped_before = d\<rparr>"

definition to_deliver :: "(int \<Rightarrow> ustr) \<Rightarrow> int \<Rightarrow> LogRecord \<Rightarrow> int \<Rightarrow> LogRecord list" where
  "to_deliver notice now r d = (if d \<noteq> 0 then [dropped_notice notice now r d] else []) @ [r]"

text \<open>Delivering stops at the first record that raises, after \<open>n\<close> records; what was dropped before is
  counted again then, with the record.\<close>

definition logger_deliver :: "(int \<Rightarrow> ustr) \<Rightarrow> int \<Rightarrow> nat \<Rightarrow> Logger \<Rightarrow> Logger" where
  "logger_deliver notice now n l =
     (case lg_taken l of
        None \<Rightarrow> l
      | Some (r, d) \<Rightarrow>
          let all = to_deliver notice now r d; l' = l\<lparr>lg_taken := None, lg_sent := lg_sent l @ take n all\<rparr> in
          if length all \<le> n then l'\<lparr>lg_reported := lg_reported l + d\<rparr>
          else set_root_dropped (lh_dropped (lg_root l') + d + 1) l')"

definition logger_close :: "Logger \<Rightarrow> Logger" where
  "logger_close l = l\<lparr>lg_closing := True\<rparr>"

text \<open>The runtime's copy sends the record with the count; a record that cannot be emitted is lost.\<close>

definition in_process_deliver :: "(int \<Rightarrow> ustr) \<Rightarrow> int \<Rightarrow> nat \<Rightarrow> Logger \<Rightarrow> Logger" where
  "in_process_deliver notice now n l =
     (case lg_taken l of
        None \<Rightarrow> l
      | Some (r, d) \<Rightarrow>
          let r' = r\<lparr>lr_dropped_before := d\<rparr> in
          l\<lparr>lg_taken := None, lg_sent := lg_sent l @ take n ((if d \<noteq> 0 then [dropped_notice notice now r' d] else []) @ [r'])\<rparr>)"

section \<open>Threads\<close>

inductive logger_step :: "(int \<Rightarrow> ustr) \<Rightarrow> Logger \<Rightarrow> Logger \<Rightarrow> bool" for notice :: "int \<Rightarrow> ustr" where
  logs: "i < length (lg_handles l) \<Longrightarrow> logger_step notice l (logger_log i level message' category given now ctx l)"
| binds: "i < length (lg_handles l) \<Longrightarrow> logger_step notice l (logger_bind i given l)"
| takes: "lg_taken l = None \<Longrightarrow> logger_take l = Some l' \<Longrightarrow> logger_step notice l l'"
| delivers: "lg_taken l \<noteq> None \<Longrightarrow> logger_step notice l (logger_deliver notice now n l)"
| closes: "logger_step notice l (logger_close l)"

end
