(* ===== verification/Logger_Laws.thy ===== *)
theory Logger_Laws
  imports Logger "HOL-Library.Multiset"
begin

text \<open>
  What a bounded logger keeps: the queue's limit, the order of the records, and an exact account of
  every record logged. A full queue gives up a record of the lowest level. With a bound logger the
  account is lost: its drops are in counters the sender never reads.
\<close>

section \<open>Eviction\<close>

lemma lowest_level_least:
  "lowest_level rs = Some i \<Longrightarrow> i < length rs \<and> (\<forall>r \<in> set rs. lr_level (rs ! i) \<le> lr_level r)"
proof (induction rs arbitrary: i)
  case (Cons r rs)
  show ?case
  proof (cases "lowest_level rs")
    case None
    then have "rs = []" by (cases rs) (auto split: option.splits if_splits)
    then show ?thesis using Cons.prems None by simp
  next
    case (Some j)
    from Cons.IH[OF Some] Cons.prems Some show ?thesis by (auto split: if_splits)
  qed
qed simp

lemma lowest_level_exists: "rs \<noteq> [] \<Longrightarrow> \<exists>i. lowest_level rs = Some i"
  by (cases rs) (auto split: option.splits if_splits)

lemma remove_nth: "i < length xs \<Longrightarrow> add_mset (xs ! i) (mset (take i xs @ drop (Suc i) xs)) = mset xs"
  by (metis id_take_nth_drop mset.simps(2) mset_append union_mset_add_mset_right)

lemma enqueue_cases:
  assumes "0 < capacity" "length queue \<le> capacity"
  obtains (room) "length queue < capacity" "enqueue capacity r queue = Some (queue @ [r], 0)"
    | (full) i where "i < length queue" "length queue = capacity" "\<forall>x \<in> set queue. lr_level (queue ! i) \<le> lr_level x"
      "enqueue capacity r queue = Some (if lr_level (queue ! i) \<le> lr_level r then take i queue @ drop (Suc i) queue @ [r] else queue, 1)"
proof (cases "length queue < capacity")
  case True
  then show thesis using room by (simp add: enqueue_def)
next
  case False
  then have l: "length queue = capacity" using assms(2) by simp
  then obtain i where i: "lowest_level queue = Some i" using lowest_level_exists[of queue] assms(1) by auto
  have least: "i < length queue" "\<forall>x \<in> set queue. lr_level (queue ! i) \<le> lr_level x" using lowest_level_least[OF i] by blast+
  have "enqueue capacity r queue = Some (if lr_level (queue ! i) \<le> lr_level r then take i queue @ drop (Suc i) queue @ [r] else queue, 1)"
    using l i by (simp add: enqueue_def)
  from full[OF least(1) l least(2) this] show thesis .
qed

text \<open>What is dropped is at most one record, and none that stays has a lower level.\<close>

lemma enqueue_drops:
  assumes "0 < capacity" "length queue \<le> capacity"
  shows "\<exists>queue' lost. enqueue capacity r queue = Some (queue', int (size lost)) \<and> mset queue' + lost = add_mset r (mset queue) \<and>
    length queue' \<le> capacity \<and> (\<forall>x \<in># lost. \<forall>y \<in> set queue'. lr_level x \<le> lr_level y)"
  using assms
proof (cases rule: enqueue_cases[where r = r])
  case room
  then show ?thesis by (intro exI[of _ "queue @ [r]"] exI[of _ "{#}"]) auto
next
  case (full i)
  show ?thesis
  proof (cases "lr_level (queue ! i) \<le> lr_level r")
    case True
    have "set (take i queue @ drop (Suc i) queue) \<subseteq> set queue" by (auto dest: in_set_takeD in_set_dropD)
    then show ?thesis using full True remove_nth[OF full(1)]
      by (intro exI[of _ "take i queue @ drop (Suc i) queue @ [r]"] exI[of _ "{#queue ! i#}"]) auto
  next
    case False
    then have "\<forall>y \<in> set queue. lr_level r \<le> lr_level y" using full(3) by fastforce
    then show ?thesis using full False
      by (intro exI[of _ queue] exI[of _ "{#r#}"]) auto
  qed
qed

lemma in_process_enqueue_same:
  "length queue \<le> capacity \<Longrightarrow> in_process_enqueue capacity r queue = enqueue capacity r queue"
  by (auto simp: in_process_enqueue_def enqueue_def)

section \<open>The account\<close>

definition genuine :: "LogRecord list \<Rightarrow> LogRecord list" where
  "genuine rs = filter (\<lambda>r. lr_flags r = 0) rs"

definition in_order :: "int \<Rightarrow> LogRecord list \<Rightarrow> bool" where
  "in_order n rs \<longleftrightarrow> sorted_wrt (<) (map lr_sequence rs) \<and> (\<forall>r \<in> set rs. lr_sequence r \<le> n)"

definition taken_records :: "Logger \<Rightarrow> LogRecord list" where
  "taken_records l = (case lg_taken l of None \<Rightarrow> [] | Some (r, d) \<Rightarrow> [r])"

definition taken_drops :: "Logger \<Rightarrow> int" where
  "taken_drops l = (case lg_taken l of None \<Rightarrow> 0 | Some (r, d) \<Rightarrow> d)"

text \<open>The records of one logger, delivered, being delivered and waiting.\<close>

definition pipeline :: "Logger \<Rightarrow> LogRecord list" where
  "pipeline l = genuine (lg_sent l) @ taken_records l @ lg_queue l"

definition logger_ok :: "Logger \<Rightarrow> bool" where
  "logger_ok l \<longleftrightarrow> length (lg_queue l) \<le> lg_capacity l \<and> (\<forall>r \<in> set (taken_records l @ lg_queue l). lr_flags r = 0) \<and>
     in_order (lh_sequence (lg_root l)) (pipeline l) \<and>
     lh_sequence (lg_root l) = int (length (pipeline l)) + lh_dropped (lg_root l) + taken_drops l + lg_reported l"

lemma logger_ok_order: "logger_ok l \<Longrightarrow> in_order (lh_sequence (lg_root l)) (pipeline l)"
  unfolding logger_ok_def by blast

lemma logger_ok_account:
  "logger_ok l \<Longrightarrow> lh_sequence (lg_root l) = int (length (pipeline l)) + lh_dropped (lg_root l) + taken_drops l + lg_reported l"
  unfolding logger_ok_def by blast

lemma in_order_subseq:
  assumes "in_order n (xs @ ys)" "i < length ys"
  shows "in_order n (xs @ take i ys @ drop (Suc i) ys)"
proof -
  have ys: "ys = take i ys @ ys ! i # drop (Suc i) ys" using assms(2) by (rule id_take_nth_drop)
  have "in_order n (xs @ take i ys @ ys ! i # drop (Suc i) ys)" using assms(1) ys by simp
  then show ?thesis by (auto simp: in_order_def sorted_wrt_append)
qed

lemma in_order_snoc: "in_order n rs \<Longrightarrow> lr_sequence r = n + 1 \<Longrightarrow> in_order (n + 1) (rs @ [r])"
  by (force simp: in_order_def sorted_wrt_append)

lemma in_order_mono: "in_order n rs \<Longrightarrow> n \<le> m \<Longrightarrow> in_order m rs"
  by (force simp: in_order_def)

lemma single_handle: "length hs = 1 \<Longrightarrow> hs = [hs ! 0]"
  by (cases hs) auto

lemma new_logger_ok: "logger_ok (new_logger level capacity bound)"
  by (simp add: logger_ok_def new_logger_def pipeline_def genuine_def taken_records_def taken_drops_def in_order_def lg_root_def)

lemma log_keeps_ok:
  assumes ok: "logger_ok l" and one: "length (lg_handles l) = 1" and cap: "0 < lg_capacity l"
  shows "logger_ok (logger_log 0 level m category given now ctx l)"
proof (cases "log_enabled l level")
  case True
  define r where "r = new_record (lg_handles l ! 0) level m category given now ctx"
  have seq: "lr_sequence r = lh_sequence (lg_root l) + 1" and flags: "lr_flags r = 0" by (simp_all add: r_def new_record_def lg_root_def)
  have len: "length (lg_queue l) \<le> lg_capacity l" using ok by (simp add: logger_ok_def)
  have ne: "lg_handles l \<noteq> []" using one by auto
  from cap len show ?thesis
  proof (cases rule: enqueue_cases[where r = r])
    case room
    have "in_order (lh_sequence (lg_root l) + 1) (pipeline l @ [r])" using logger_ok_order[OF ok] seq by (rule in_order_snoc)
    then show ?thesis using room ok True flags ne
      by (auto simp: logger_ok_def logger_log_def r_def[symmetric] Let_def pipeline_def taken_records_def taken_drops_def lg_root_def)
  next
    case (full i)
    have kept: "in_order (lh_sequence (lg_root l)) ((genuine (lg_sent l) @ taken_records l) @ take i (lg_queue l) @ drop (Suc i) (lg_queue l))"
      using logger_ok_order[OF ok] full(1) by (intro in_order_subseq) (simp_all add: pipeline_def)
    show ?thesis
    proof (cases "lr_level (lg_queue l ! i) \<le> lr_level r")
      case fits: True
      have "in_order (lh_sequence (lg_root l) + 1) (((genuine (lg_sent l) @ taken_records l) @ take i (lg_queue l) @ drop (Suc i) (lg_queue l)) @ [r])"
        using kept seq by (rule in_order_snoc)
      then show ?thesis using full fits ok True flags ne
        by (auto simp: logger_ok_def logger_log_def r_def[symmetric] Let_def pipeline_def taken_records_def taken_drops_def lg_root_def
            dest: in_set_takeD in_set_dropD)
    next
      case False
      have "in_order (lh_sequence (lg_root l) + 1) (pipeline l)" using logger_ok_order[OF ok] by (rule in_order_mono) simp
      then show ?thesis using full False ok True flags ne
        by (auto simp: logger_ok_def logger_log_def r_def[symmetric] Let_def pipeline_def taken_records_def taken_drops_def lg_root_def)
    qed
  qed
qed (use ok in \<open>simp add: logger_log_def\<close>)

lemma take_keeps_ok:
  assumes "logger_ok l" "length (lg_handles l) = 1" "lg_taken l = None" "logger_take l = Some l'"
  shows "logger_ok l'"
proof -
  have "lg_handles l \<noteq> []" using assms(2) by auto
  then show ?thesis using assms
    by (auto simp: logger_take_def logger_ok_def set_root_dropped_def pipeline_def taken_records_def taken_drops_def lg_root_def split: list.splits)
qed

lemma in_order_drop_middle: "in_order n (xs @ r # ys) \<Longrightarrow> in_order n (xs @ ys)"
  by (auto simp: in_order_def sorted_wrt_append)

lemma genuine_append: "genuine (xs @ ys) = genuine xs @ genuine ys"
  by (simp add: genuine_def)

lemma genuine_notice: "genuine (dropped_notice notice now r d # rs) = genuine rs"
  by (simp add: genuine_def dropped_notice_def FLAG_SYNTHETIC_def)

lemma deliver_keeps_ok:
  assumes ok: "logger_ok l" and one: "length (lg_handles l) = 1"
  shows "logger_ok (logger_deliver notice now n l)"
proof (cases "lg_taken l")
  case (Some rd)
  obtain r d where rd: "rd = (r, d)" by (cases rd)
  define all where "all = to_deliver notice now r d"
  have ne: "lg_handles l \<noteq> []" using one by auto
  have r: "lr_flags r = 0" using ok Some rd by (simp add: logger_ok_def taken_records_def)
  have pipe: "pipeline l = genuine (lg_sent l) @ r # lg_queue l" using Some rd by (simp add: pipeline_def taken_records_def)
  show ?thesis
  proof (cases "length all \<le> n")
    case True
    have "genuine all = [r]" using r by (simp add: all_def to_deliver_def genuine_notice) (simp add: genuine_def)
    then have same: "pipeline (logger_deliver notice now n l) = pipeline l" using True Some rd pipe
      by (simp add: logger_deliver_def all_def[symmetric] Let_def pipeline_def taken_records_def genuine_append)
    show ?thesis unfolding logger_ok_def same using True ok Some rd logger_ok_order[OF ok] logger_ok_account[OF ok]
      by (simp add: logger_ok_def logger_deliver_def all_def[symmetric] Let_def taken_records_def taken_drops_def lg_root_def)
  next
    case False
    have "genuine (take n all) = []" using False
      by (cases n) (auto simp: all_def to_deliver_def genuine_notice split: if_splits; simp add: genuine_def)+
    moreover have "in_order (lh_sequence (lg_root l)) (genuine (lg_sent l) @ lg_queue l)"
      using logger_ok_order[OF ok] unfolding pipe by (rule in_order_drop_middle)
    ultimately show ?thesis using False ok Some rd pipe ne
      by (simp add: logger_ok_def logger_deliver_def all_def[symmetric] Let_def pipeline_def taken_records_def taken_drops_def lg_root_def genuine_append
          set_root_dropped_def)
  qed
qed (use ok in \<open>simp add: logger_deliver_def\<close>)

section \<open>Reachable states\<close>

abbreviation logger_reaches :: "(int \<Rightarrow> ustr) \<Rightarrow> Logger \<Rightarrow> Logger \<Rightarrow> bool" where
  "logger_reaches notice \<equiv> (logger_step notice)\<^sup>*\<^sup>*"

definition logger_inv :: "nat \<Rightarrow> Logger \<Rightarrow> bool" where
  "logger_inv capacity l \<longleftrightarrow> lg_capacity l = capacity \<and> lg_handles l \<noteq> [] \<and> length (lg_queue l) \<le> capacity \<and>
     (length (lg_handles l) = 1 \<longrightarrow> logger_ok l)"

lemma logger_bind_inv: "logger_inv c l \<Longrightarrow> logger_inv c (logger_bind i given l)"
  by (auto simp: logger_inv_def logger_bind_def Let_def)

lemma logger_close_inv: "logger_inv c l \<Longrightarrow> logger_inv c (logger_close l)"
  by (auto simp: logger_inv_def logger_close_def logger_ok_def pipeline_def taken_records_def taken_drops_def lg_root_def)

lemma logger_log_frame:
  "lg_capacity (logger_log i level m category given now ctx l) = lg_capacity l \<and>
   length (lg_handles (logger_log i level m category given now ctx l)) = length (lg_handles l)"
  by (auto simp: logger_log_def Let_def split: option.splits)

lemma logger_log_limit:
  assumes "0 < lg_capacity l" "length (lg_queue l) \<le> lg_capacity l"
  shows "length (lg_queue (logger_log i level m category given now ctx l)) \<le> lg_capacity l"
  using assms
  by (rule enqueue_cases[where r = "new_record (lg_handles l ! i) level m category given now ctx"]) (auto simp: logger_log_def Let_def)

lemma logger_log_inv:
  assumes "logger_inv c l" "0 < c" "i < length (lg_handles l)"
  shows "logger_inv c (logger_log i level m category given now ctx l)"
  using assms logger_log_frame[of i level m category given now ctx l] logger_log_limit[of l i level m category given now ctx]
    log_keeps_ok[of l level m category given now ctx]
  by (auto simp: logger_inv_def)

lemma logger_take_frame:
  "logger_take l = Some l' \<Longrightarrow> lg_capacity l' = lg_capacity l \<and> length (lg_handles l') = length (lg_handles l) \<and>
     length (lg_queue l') \<le> length (lg_queue l)"
  by (auto simp: logger_take_def set_root_dropped_def split: list.splits)

lemma logger_deliver_frame:
  "lg_capacity (logger_deliver notice now n l) = lg_capacity l \<and> length (lg_handles (logger_deliver notice now n l)) = length (lg_handles l) \<and>
     lg_queue (logger_deliver notice now n l) = lg_queue l"
  by (auto simp: logger_deliver_def set_root_dropped_def Let_def split: option.splits)

lemma logger_step_inv:
  assumes "logger_step notice l l'" "logger_inv c l" "0 < c"
  shows "logger_inv c l'"
  using assms
proof cases
  case (takes)
  then have "length (lg_handles l') = 1 \<Longrightarrow> logger_ok l'" using assms(2) logger_take_frame[of l l'] take_keeps_ok[of l l']
    by (simp add: logger_inv_def)
  then show ?thesis using takes assms(2) logger_take_frame[of l l'] by (auto simp: logger_inv_def)
next
  case (delivers now n)
  then show ?thesis using assms(2) logger_deliver_frame[of notice now n l] deliver_keeps_ok[of l notice now n] by (auto simp: logger_inv_def)
qed (simp_all add: logger_log_inv logger_bind_inv logger_close_inv)

lemma logger_inv_reaches:
  assumes "logger_reaches notice (new_logger level c bound) l" "0 < c"
  shows "logger_inv c l"
  using assms(1)
proof (induction rule: rtranclp_induct)
  case base
  show ?case using new_logger_ok[of level c bound] by (simp add: logger_inv_def new_logger_def)
next
  case (step l l')
  then show ?case using logger_step_inv assms(2) by blast
qed

section \<open>Bound loggers\<close>

text \<open>A drop at a bound logger is in its own counter: the sender's is unchanged.\<close>

lemma bound_drop_unseen:
  assumes "0 < i" "0 < length (lg_handles l)"
  shows "lg_root (logger_log i level m category given now ctx l) = lg_root l \<and>
    lg_reported (logger_log i level m category given now ctx l) = lg_reported l"
  using assms by (auto simp: logger_log_def Let_def lg_root_def split: option.splits)

text \<open>A logger and one bound from it give two records the same sequence number.\<close>

theorem bound_logger_repeats_sequence:
  assumes "1 < capacity" "level \<le> severity"
  shows "map lr_sequence (lg_queue (logger_log 1 severity m category given now ctx (logger_log 0 severity m category given now ctx
    (logger_bind 0 fs (new_logger level capacity bound))))) = [1, 1]"
  using assms by (simp add: logger_log_def logger_bind_def new_logger_def log_enabled_def enqueue_def new_record_def Let_def)

section \<open>The runtime's copy\<close>

text \<open>Its sender gives the record to the callback with the count of those dropped before it.\<close>

lemma in_process_sends_count:
  assumes "lg_taken l = Some (r, d)" "2 \<le> n"
  shows "lg_sent (in_process_deliver notice now n l) =
    lg_sent l @ (if d \<noteq> 0 then [dropped_notice notice now (r\<lparr>lr_dropped_before := d\<rparr>) d] else []) @ [r\<lparr>lr_dropped_before := d\<rparr>]"
  using assms by (cases n; cases "n - 1") (simp_all add: in_process_deliver_def Let_def)

text \<open>A record it cannot emit is gone, and the count with it.\<close>

lemma in_process_loses_count:
  assumes "lg_taken l = Some (r, d)"
  shows "lg_sent (in_process_deliver notice now 0 l) = lg_sent l \<and> lg_taken (in_process_deliver notice now 0 l) = None \<and>
    lg_handles (in_process_deliver notice now 0 l) = lg_handles l"
  using assms by (simp add: in_process_deliver_def Let_def)

end
