(* ===== verification/Metadata_Document.thy ===== *)
theory Metadata_Document
  imports Metadata Configuration
begin

text \<open>
  The canonical bytes and the fingerprint of plugin metadata, \<open>canonical_metadata_bytes\<close> and
  \<open>metadata_fingerprint\<close> of \<open>packages/wmfs/wmfs/protocol/metadata.py\<close>: the JSON document of the
  dataclasses and the first eight bytes of its SHA-256. Expressions of a kind outside the schema, which
  validation has refused before, are written without a value. SHA-256 is an argument.
\<close>

section \<open>Documents\<close>

definition obj :: "(string \<times> jval) list \<Rightarrow> jval" where
  "obj items = JObject (map (\<lambda>(n, v). (key n, v)) items)"

definition jstr :: "string \<Rightarrow> jval" where
  "jstr s = JStr (text_of s)"

definition jopt :: "('a \<Rightarrow> jval) \<Rightarrow> 'a option \<Rightarrow> jval" where
  "jopt f x = (case x of None \<Rightarrow> JNull | Some y \<Rightarrow> f y)"

definition jlist :: "('a \<Rightarrow> jval) \<Rightarrow> 'a list \<Rightarrow> jval" where
  "jlist f xs = JList (map f xs)"

fun sval_json :: "sval \<Rightarrow> jval" where
  "sval_json (SBool b) = JBool b"
| "sval_json (SInt i) = JInt i"
| "sval_json (SFloat w) = JFloat w"
| "sval_json (SText s) = JStr s"

definition tensor_document :: "int \<Rightarrow> TensorParameter \<Rightarrow> jval" where
  "tensor_document version t =
     obj ([(''name'', jstr (tp_name t)), (''access'', jstr (tp_access t))] @
       (if version = 1 then [] else [(''dtype_variable'', jopt jstr (tp_dtype_variable t)), (''dtypes'', jlist jstr (tp_dtypes t))]))"

definition scalar_document :: "int \<Rightarrow> ScalarParameter \<Rightarrow> jval" where
  "scalar_document version s =
     obj ([(''name'', jstr (sp_name s)), (''kind'', jstr (sp_kind s)), (''required'', JBool (sp_required s)),
         (''default'', jopt sval_json (sp_default s))] @
       (if version = 1 then [] else [(''enum_name'', jopt jstr (sp_enum_name s)), (''enum_values'', jlist JStr (sp_enum_values s))]))"

fun dimension_document :: "DimensionExpression \<Rightarrow> jval" where
  "dimension_document (DConstant n) = obj [(''kind'', jstr ''constant''), (''value'', JInt n)]"
| "dimension_document (DInputAxis i a) =
     obj [(''kind'', jstr ''inputAxis''), (''value'', obj [(''input'', JInt i), (''axis'', JInt a)])]"
| "dimension_document (DMinimum xs) = obj [(''kind'', jstr ''minimum''), (''value'', JList (map dimension_document xs))]"
| "dimension_document (DSelect p a b) =
     obj [(''kind'', jstr ''select''), (''value'', obj [(''scalar_parameter'', JInt p), (''when_true'', dimension_document a),
       (''when_false'', dimension_document b)])]"
| "dimension_document (DOther k) = obj [(''kind'', jstr k), (''value'', JNull)]"

fun dtype_document :: "DTypeExpression \<Rightarrow> jval" where
  "dtype_document (TFixed d) = obj [(''kind'', jstr ''fixed''), (''value'', jstr d)]"
| "dtype_document (TInput i) = obj [(''kind'', jstr ''input''), (''value'', JInt i)]"
| "dtype_document (TVariable v) = obj [(''kind'', jstr ''variable''), (''value'', jstr v)]"
| "dtype_document (TPromote i p) =
     obj [(''kind'', jstr ''promoteTensorScalar''), (''value'', obj [(''tensor_input'', JInt i), (''scalar_parameter'', JInt p)])]"
| "dtype_document (TOther k) = obj [(''kind'', jstr k), (''value'', JNull)]"

fun shape_fields :: "ShapeExpression \<Rightarrow> (string \<times> jval) list" where
  "shape_fields (SameShapeAsInput i) = [(''shape_kind'', jstr ''sameShapeAsInput''), (''shape'', JInt i)]"
| "shape_fields (Dimensions ds) = [(''shape_kind'', jstr ''dimensions''), (''shape'', jlist dimension_document ds)]"
| "shape_fields (ShapeOther k) = [(''shape_kind'', jstr k), (''shape'', JNull)]"

definition known_document :: "KnownOutput \<Rightarrow> jval" where
  "known_document k = obj (shape_fields (ko_shape k) @ [(''dtype'', dtype_document (ko_dtype k))])"

definition plan_document :: "OutputPlan \<Rightarrow> jval" where
  "plan_document p = obj [(''name'', jstr (pl_name p)), (''known'', jopt known_document (pl_known p))]"

definition vjp_document :: "VjpMetadata \<Rightarrow> jval" where
  "vjp_document v =
     obj [(''operation_id'', JInt (vjp_operation_id v)), (''saved_inputs'', jlist JInt (saved_inputs v)),
       (''saved_outputs'', jlist JInt (saved_outputs v)), (''output_cotangents'', jlist JInt (output_cotangents v)),
       (''input_gradients'', jlist JInt (input_gradients v)), (''scalar_parameters'', jlist JInt (vjp_scalar_parameters v))]"

definition variable_document :: "DTypeVariable \<Rightarrow> jval" where
  "variable_document v = obj [(''name'', jstr (dv_name v)), (''dtypes'', jlist jstr (dv_dtypes v))]"

definition operation_document :: "int \<Rightarrow> OperationMetadata \<Rightarrow> jval" where
  "operation_document version op =
     obj ([(''name'', jstr (om_name op)), (''tensor_inputs'', jlist (tensor_document version) (tensor_inputs op)),
         (''tensor_outputs'', jlist (tensor_document version) (tensor_outputs op)),
         (''scalar_parameters'', jlist (scalar_document version) (scalar_parameters op)),
         (''operation_id'', JInt (om_operation_id op)), (''output_plans'', jlist plan_document (output_plans op)),
         (''vjp'', jopt vjp_document (vjp op)), (''internal'', JBool (internal op))] @
       (if version = 1 then [] else [(''dtype_variables'', jlist variable_document (dtype_variables op))]))"

definition metadata_document :: "PluginMetadata \<Rightarrow> jval" where
  "metadata_document p =
     obj ([(''name'', jstr (pm_name p)), (''version'', jstr (pm_version p)), (''protocol_version'', JInt (pm_protocol_version p)),
         (''operations'', jlist (operation_document (pm_metadata_version p)) (pm_operations p))] @
       (if pm_metadata_version p = 1 then [] else [(''metadata_version'', JInt (pm_metadata_version p))]))"

section \<open>The fingerprint\<close>

definition envelope :: "string \<Rightarrow> jval \<Rightarrow> jval" where
  "envelope encoding metadata = obj [(''encoding'', jstr encoding), (''metadata'', metadata)]"

definition encoding_of :: "int \<Rightarrow> string" where
  "encoding_of version = (if version = 1 then ''wmfs-plugin-metadata-v1'' else ''wmfs-plugin-metadata-v2'')"

definition canonical_metadata_bytes :: "(64 word \<Rightarrow> ustr) \<Rightarrow> PluginMetadata \<Rightarrow> bytes result" where
  "canonical_metadata_bytes fr p =
     ebind (dumps fr True (envelope (encoding_of (pm_metadata_version p)) (metadata_document p))) utf8_encode"

definition from_big_endian :: "bytes \<Rightarrow> int" where
  "from_big_endian bs = foldl (\<lambda>n b. n * 256 + uint b) 0 bs"

definition plugin_fingerprint :: "(64 word \<Rightarrow> ustr) \<Rightarrow> (bytes \<Rightarrow> bytes) \<Rightarrow> PluginMetadata \<Rightarrow> int result" where
  "plugin_fingerprint fr sha p = ebind (canonical_metadata_bytes fr p) (\<lambda>data. Inr (from_big_endian (take 8 (sha data))))"

text \<open>\<open>validate_plugin_metadata\<close> with the fingerprint it computes after the other checks.\<close>

definition validate_plugin :: "(64 word \<Rightarrow> ustr) \<Rightarrow> (bytes \<Rightarrow> bytes) \<Rightarrow> PluginMetadata \<Rightarrow> unit result" where
  "validate_plugin fr sha p =
     ebind (validate_plugin_metadata (\<lambda>_. 0) False p) (\<lambda>_.
     ebind (plugin_fingerprint fr sha p) (\<lambda>expected.
     validate_plugin_metadata (\<lambda>_. expected) True p))"

end
