(* ===== verification/Plugin_Manifest.thy ===== *)
theory Plugin_Manifest
  imports Runtime Metadata_Document
begin

text \<open>
  Plugin manifests: \<open>packages/wmfs/wmfs/plugins.py\<close>, on the document \<open>json.loads\<close> returns, and the canonical
  bytes and fingerprint of plugin metadata, \<open>packages/wmfs/wmfs/protocol/metadata.py\<close>. The digest of
  SHA-256, the \<open>repr\<close> of floats and the questions whether a path is a directory or a file are arguments;
  paths are kept as declared, relative to the directory of the manifest. Names are \<open>string\<close>, as in
  Metadata: a name beyond Latin-1 is \<open>OutsideModel\<close>, and so is a scalar default that is an array or an
  object, which validation would refuse.
\<close>

section \<open>Fields\<close>

definition exact_keys :: "fields \<Rightarrow> string set \<Rightarrow> unit result" where
  "exact_keys d names = reject (fst ` set d \<noteq> key ` names) (ValueError ''fields do not match the manifest format'')"

definition keys_with_optional :: "fields \<Rightarrow> string set \<Rightarrow> string set \<Rightarrow> unit result" where
  "keys_with_optional d required optional =
     reject (\<not> key ` required \<subseteq> fst ` set d \<or> \<not> fst ` set d \<subseteq> key ` (required \<union> optional))
       (ValueError ''fields do not match the manifest format'')"

definition read_field :: "(jval \<Rightarrow> 'a result) \<Rightarrow> fields \<Rightarrow> string \<Rightarrow> 'a result" where
  "read_field f d name = ebind (item_of d name) f"

definition plain_name :: "ustr \<Rightarrow> string result" where
  "plain_name s = (if list_all (\<lambda>c. c < 256) s then Inr (map char_of s) else Inl OutsideModel)"

definition string_at :: "jval \<Rightarrow> ustr result" where
  "string_at v = (case v of JStr s \<Rightarrow> if s = [] then Inl (ValueError ''must be a non-empty string'') else Inr s
     | _ \<Rightarrow> Inl (ValueError ''must be a non-empty string''))"

definition name_at :: "jval \<Rightarrow> string result" where
  "name_at v = ebind (string_at v) plain_name"

definition array_at :: "jval \<Rightarrow> jval list result" where
  "array_at v = (case v of JList vs \<Rightarrow> Inr vs | _ \<Rightarrow> Inl (ValueError ''must be an array''))"

definition integer_at :: "jval \<Rightarrow> int result" where
  "integer_at v = (case v of JInt i \<Rightarrow> Inr i | _ \<Rightarrow> Inl (ValueError ''must be an integer''))"

definition uint64_at :: "jval \<Rightarrow> int result" where
  "uint64_at v = ebind (integer_at v) (\<lambda>i.
     if i < 0 \<or> 0xFFFFFFFFFFFFFFFF < i then Inl (ValueError ''must be an unsigned 64-bit integer'') else Inr i)"

definition boolean_at :: "jval \<Rightarrow> bool result" where
  "boolean_at v = (case v of JBool b \<Rightarrow> Inr b | _ \<Rightarrow> Inl (ValueError ''must be a boolean''))"

definition array_of :: "(jval \<Rightarrow> 'a result) \<Rightarrow> jval \<Rightarrow> 'a list result" where
  "array_of f v = ebind (array_at v) (emap f)"

definition optional_at :: "(jval \<Rightarrow> 'a result) \<Rightarrow> jval \<Rightarrow> 'a option result" where
  "optional_at f v = (if v = JNull then Inr None else ebind (f v) (\<lambda>x. Inr (Some x)))"

definition truthy :: "jval \<Rightarrow> bool" where
  "truthy v = (case v of JNull \<Rightarrow> False | JBool b \<Rightarrow> b | JInt i \<Rightarrow> i \<noteq> 0 | JFloat w \<Rightarrow> uint w mod 2 ^ 63 \<noteq> 0
     | JStr s \<Rightarrow> s \<noteq> [] | JList vs \<Rightarrow> vs \<noteq> [] | JObject d \<Rightarrow> d \<noteq> [] | JOther n \<Rightarrow> True)"

definition require_equal :: "fields \<Rightarrow> string \<Rightarrow> jval \<Rightarrow> unit result" where
  "require_equal d name expected = read_field (\<lambda>v. reject (v \<noteq> expected) (ValueError ''Manifest field is not what the runtime requires'')) d name"

section \<open>Operations\<close>

definition manifest_access :: "ustr \<Rightarrow> string result" where
  "manifest_access s =
     (if s = text_of ''read_only'' then Inr ''readOnly'' else if s = text_of ''read_write'' then Inr ''readWrite''
      else Inl (ValueError ''access has unsupported value''))"

definition manifest_tensor :: "int \<Rightarrow> jval \<Rightarrow> TensorParameter result" where
  "manifest_tensor version v =
     ebind (object_of v) (\<lambda>d.
     ebind (exact_keys d ({''access'', ''name''} \<union> (if version = 2 then {''dtype_variable'', ''dtypes''} else {}))) (\<lambda>_.
     ebind (read_field string_at d ''access'') (\<lambda>access.
     ebind (manifest_access access) (\<lambda>decoded.
     if version = 1
     then ebind (read_field name_at d ''name'') (\<lambda>name.
          Inr \<lparr>tp_name = name, tp_access = decoded, tp_dtype_variable = None, tp_dtypes = []\<rparr>)
     else
     ebind (item_of d ''dtype_variable'') (\<lambda>variable.
     ebind (read_field name_at d ''name'') (\<lambda>name.
     ebind (optional_at name_at variable) (\<lambda>variable'.
     ebind (read_field (array_of name_at) d ''dtypes'') (\<lambda>dtypes.
     Inr \<lparr>tp_name = name, tp_access = decoded, tp_dtype_variable = variable', tp_dtypes = dtypes\<rparr>))))))))"

definition default_at :: "jval \<Rightarrow> sval option result" where
  "default_at v =
     (case v of
        JNull \<Rightarrow> Inr None
      | JBool b \<Rightarrow> Inr (Some (SBool b))
      | JInt i \<Rightarrow> Inr (Some (SInt i))
      | JFloat w \<Rightarrow> Inr (Some (SFloat w))
      | JStr s \<Rightarrow> Inr (Some (SText s))
      | _ \<Rightarrow> Inl OutsideModel)"

definition manifest_scalar :: "int \<Rightarrow> jval \<Rightarrow> ScalarParameter result" where
  "manifest_scalar version v =
     ebind (object_of v) (\<lambda>d.
     ebind (exact_keys d ({''default'', ''kind'', ''name'', ''required''} \<union> (if version = 2 then {''enum'', ''enum_values''} else {}))) (\<lambda>_.
     ebind (read_field name_at d ''name'') (\<lambda>name.
     ebind (read_field name_at d ''kind'') (\<lambda>kind.
     ebind (read_field boolean_at d ''required'') (\<lambda>required.
     ebind (read_field default_at d ''default'') (\<lambda>default.
     ebind (if version = 2 then read_field (optional_at name_at) d ''enum'' else Inr None) (\<lambda>enum.
     ebind (if version = 2 then read_field (array_of string_at) d ''enum_values'' else Inr []) (\<lambda>enum_values.
     Inr \<lparr>sp_name = name, sp_kind = kind, sp_required = required, sp_default = default, sp_enum_name = enum,
       sp_enum_values = enum_values\<rparr>))))))))"

definition read_dtype_variable :: "jval \<Rightarrow> DTypeVariable result" where
  "read_dtype_variable v =
     ebind (object_of v) (\<lambda>d.
     ebind (exact_keys d {''dtypes'', ''name''}) (\<lambda>_.
     ebind (read_field name_at d ''name'') (\<lambda>name.
     ebind (read_field (array_of name_at) d ''dtypes'') (\<lambda>dtypes.
     Inr \<lparr>dv_name = name, dv_dtypes = dtypes\<rparr>))))"

text \<open>What a field holds is smaller than the object, for the recursion over dimensions.\<close>

lemma size_item_of: "item_of d name = Inr v \<Longrightarrow> size v < size (JObject d)"
proof -
  assume "item_of d name = Inr v"
  then have "(key name, v) \<in> set d" by (auto simp: item_of_def or_raise_eq dest: map_of_SomeD)
  then have "size_prod (\<lambda>x. 0) size (key name, v) \<le> size_list (size_prod (\<lambda>x. 0) size) d" by (rule size_list_estimation') simp
  then show ?thesis by simp
qed

lemma size_array_at: "array_at v = Inr vs \<Longrightarrow> x \<in> set vs \<Longrightarrow> size x < size v"
  by (auto simp: array_at_def split: jval.splits if_splits dest: size_list_estimation'[where f = size and y = "size x", OF _ order_refl])

lemma size_items: "item_of d name = Inr w \<Longrightarrow> array_at w = Inr vs \<Longrightarrow> x \<in> set vs \<Longrightarrow> size x < size (JObject d)"
  using size_item_of size_array_at less_trans by blast

lemma object_of_JObject: "object_of v = Inr d \<longleftrightarrow> v = JObject d"
  by (cases v) (auto simp: object_of_def)

definition DIMENSION_FIELDS :: "string set" where
  "DIMENSION_FIELDS = {''axis'', ''input'', ''kind'', ''operands'', ''scalar'', ''when_false'', ''when_true''}"

function read_dimension :: "jval \<Rightarrow> DimensionExpression result" where
  "read_dimension v =
     ebind (object_of v) (\<lambda>d.
     ebind (exact_keys d DIMENSION_FIELDS) (\<lambda>_.
     ebind (read_field string_at d ''kind'') (\<lambda>kind.
     if kind = text_of ''constant'' then ebind (read_field integer_at d ''axis'') (\<lambda>n. Inr (DConstant n))
     else if kind = text_of ''input_axis''
     then ebind (read_field integer_at d ''input'') (\<lambda>i. ebind (read_field integer_at d ''axis'') (\<lambda>a. Inr (DInputAxis i a)))
     else if kind = text_of ''minimum''
     then ebind (item_of d ''operands'') (\<lambda>w. ebind (array_at w) (\<lambda>vs. ebind (emap read_dimension vs) (\<lambda>xs. Inr (DMinimum xs))))
     else if kind = text_of ''select''
     then ebind (read_field integer_at d ''scalar'') (\<lambda>p.
          ebind (item_of d ''when_true'') (\<lambda>w. ebind (read_dimension w) (\<lambda>a.
          ebind (item_of d ''when_false'') (\<lambda>w. ebind (read_dimension w) (\<lambda>b. Inr (DSelect p a b))))))
     else Inl (ValueError ''unsupported dimension kind''))))"
  by pat_completeness auto
termination
  by (relation "measure size") (auto simp: object_of_JObject dest: size_item_of size_items)

declare read_dimension.simps [simp del]

definition read_dtype :: "jval \<Rightarrow> DTypeExpression result" where
  "read_dtype v =
     ebind (object_of v) (\<lambda>d.
     ebind (exact_keys d ({''input'', ''kind'', ''scalar'', ''value''} \<union>
       (if key ''variable'' \<in> fst ` set d then {''variable''} else {}))) (\<lambda>_.
     ebind (read_field string_at d ''kind'') (\<lambda>kind.
     if kind = text_of ''input'' then ebind (read_field integer_at d ''input'') (\<lambda>i. Inr (TInput i))
     else if kind = text_of ''fixed'' then ebind (read_field name_at d ''value'') (\<lambda>t. Inr (TFixed t))
     else if kind = text_of ''promote_tensor_scalar''
     then ebind (read_field integer_at d ''input'') (\<lambda>i. ebind (read_field integer_at d ''scalar'') (\<lambda>p. Inr (TPromote i p)))
     else if kind = text_of ''variable'' then ebind (read_field name_at d ''variable'') (\<lambda>t. Inr (TVariable t))
     else Inl (ValueError ''unsupported dtype kind''))))"

definition OUTPUT_FIELDS :: "string set" where
  "OUTPUT_FIELDS = {''allocation'', ''dimensions'', ''dtype'', ''name'', ''same_shape_as_input''}"

text \<open>After the keys have been checked, \<open>item[name]\<close> is what \<open>get\<close> returns.\<close>

definition read_shape :: "fields \<Rightarrow> ShapeExpression result" where
  "read_shape d =
     (if get d ''same_shape_as_input'' \<noteq> JNull
      then if truthy (get d ''dimensions'') then Inl (ValueError ''declares two output shapes'')
           else ebind (read_field integer_at d ''same_shape_as_input'') (\<lambda>i. Inr (SameShapeAsInput i))
      else ebind (read_field (array_of read_dimension) d ''dimensions'') (\<lambda>ds. Inr (Dimensions ds)))"

definition manifest_output :: "jval \<Rightarrow> OutputPlan result" where
  "manifest_output v =
     ebind (object_of v) (\<lambda>d.
     ebind (exact_keys d OUTPUT_FIELDS) (\<lambda>_.
     ebind (read_field name_at d ''name'') (\<lambda>name.
     ebind (read_field string_at d ''allocation'') (\<lambda>allocation.
     if allocation = text_of ''dynamic''
     then if truthy (get d ''dimensions'') \<or> get d ''dtype'' \<noteq> JNull \<or> get d ''same_shape_as_input'' \<noteq> JNull
          then Inl (ValueError ''dynamic output contains known-output metadata'')
          else Inr \<lparr>pl_name = name, pl_known = None\<rparr>
     else if allocation \<noteq> text_of ''known'' \<or> get d ''dtype'' = JNull then Inl (ValueError ''unsupported allocation'')
     else ebind (read_shape d) (\<lambda>shape.
          ebind (read_field read_dtype d ''dtype'') (\<lambda>dtype.
          Inr \<lparr>pl_name = name, pl_known = Some \<lparr>ko_shape = shape, ko_dtype = dtype\<rparr>\<rparr>))))))"

definition VJP_FIELDS :: "string set" where
  "VJP_FIELDS = {''input_gradients'', ''operation_id'', ''output_cotangents'', ''saved_inputs'', ''saved_outputs'', ''scalar_parameters''}"

definition read_vjp :: "jval \<Rightarrow> VjpMetadata option result" where
  "read_vjp v =
     (if v = JNull then Inr None
      else
      ebind (object_of v) (\<lambda>d.
      ebind (exact_keys d VJP_FIELDS) (\<lambda>_.
      ebind (read_field integer_at d ''operation_id'') (\<lambda>target.
      ebind (read_field (array_of integer_at) d ''saved_inputs'') (\<lambda>si.
      ebind (read_field (array_of integer_at) d ''saved_outputs'') (\<lambda>so.
      ebind (read_field (array_of integer_at) d ''output_cotangents'') (\<lambda>oc.
      ebind (read_field (array_of integer_at) d ''input_gradients'') (\<lambda>ig.
      ebind (read_field (array_of integer_at) d ''scalar_parameters'') (\<lambda>sp.
      Inr (Some \<lparr>vjp_operation_id = target, saved_inputs = si, saved_outputs = so, output_cotangents = oc,
        input_gradients = ig, vjp_scalar_parameters = sp\<rparr>))))))))))"

definition OPERATION_FIELDS :: "string set" where
  "OPERATION_FIELDS = {''id'', ''inputs'', ''internal'', ''name'', ''outputs'', ''scalars'', ''vjp''}"

text \<open>The names of the outputs are read before their fields are checked.\<close>

definition output_name :: "jval \<Rightarrow> string result" where
  "output_name v = ebind (object_of v) (\<lambda>d. read_field name_at d ''name'')"

definition manifest_operation :: "int \<Rightarrow> jval \<Rightarrow> OperationMetadata result" where
  "manifest_operation version v =
     ebind (object_of v) (\<lambda>d.
     ebind (exact_keys d (OPERATION_FIELDS \<union> (if version = 2 then {''dtype_variables''} else {}))) (\<lambda>_.
     ebind (read_field array_at d ''inputs'') (\<lambda>inputs.
     ebind (read_field array_at d ''outputs'') (\<lambda>outputs.
     ebind (read_field array_at d ''scalars'') (\<lambda>scalars.
     ebind (emap output_name outputs) (\<lambda>output_names.
     ebind (read_field name_at d ''name'') (\<lambda>name.
     ebind (emap (manifest_tensor version) inputs) (\<lambda>tensors.
     ebind (emap (manifest_scalar version) scalars) (\<lambda>parameters.
     ebind (read_field integer_at d ''id'') (\<lambda>ident.
     ebind (emap manifest_output outputs) (\<lambda>plans.
     ebind (read_field read_vjp d ''vjp'') (\<lambda>vjp'.
     ebind (read_field boolean_at d ''internal'') (\<lambda>internal'.
     ebind (if version = 2 then read_field (array_of read_dtype_variable) d ''dtype_variables'' else Inr []) (\<lambda>variables.
     Inr \<lparr>om_name = name, tensor_inputs = tensors,
       tensor_outputs = map (\<lambda>n. \<lparr>tp_name = n, tp_access = ''readOnly'', tp_dtype_variable = None, tp_dtypes = []\<rparr>) output_names,
       scalar_parameters = parameters, om_operation_id = ident, output_plans = plans, vjp = vjp', internal = internal',
       dtype_variables = variables\<rparr>))))))))))))))"

section \<open>Fingerprints\<close>

definition hex_of :: "bytes \<Rightarrow> ustr" where
  "hex_of bs = concat (map (\<lambda>b. [hex_digit (unat b div 16), hex_digit (unat b mod 16)]) bs)"

definition FINGERPRINT_EXCLUDED :: "string set" where
  "FINGERPRINT_EXCLUDED = {''deployment'', ''generator'', ''interfaceFingerprint'', ''metadataFingerprint'', ''operationCount'',
     ''configuration'', ''controlAbiVersion'', ''startupCapabilities''}"

definition interface_source :: "fields \<Rightarrow> jval" where
  "interface_source d = JObject (filter (\<lambda>(k, v). k \<notin> key ` FINGERPRINT_EXCLUDED) d)"

definition validate_interface_fingerprint :: "(64 word \<Rightarrow> ustr) \<Rightarrow> (bytes \<Rightarrow> bytes) \<Rightarrow> fields \<Rightarrow> bytes result" where
  "validate_interface_fingerprint fr sha d =
     ebind (read_field string_at d ''interfaceFingerprint'') (\<lambda>declared.
     if \<not> fingerprint_syntax declared then Inl (ValueError ''must be a lowercase SHA-256 fingerprint'')
     else
     ebind (dumps fr True (interface_source d)) (\<lambda>text.
     ebind (utf8_encode text) (\<lambda>canonical.
     if drop 7 declared \<noteq> hex_of (sha canonical) then Inl (ValueError ''Manifest interface fingerprint'')
     else Inr (sha canonical))))"

definition hex_char :: "nat \<Rightarrow> bool" where
  "hex_char c \<longleftrightarrow> (48 \<le> c \<and> c \<le> 57) \<or> (97 \<le> c \<and> c \<le> 102)"

definition hex_value :: "ustr \<Rightarrow> int" where
  "hex_value s = foldl (\<lambda>n c. n * 16 + int (if c \<le> 57 then c - 48 else c - 87)) 0 s"

definition metadata_fingerprint_at :: "jval \<Rightarrow> int result" where
  "metadata_fingerprint_at v =
     ebind (string_at v) (\<lambda>s.
     if length s = 18 \<and> take 2 s = text_of ''0x'' \<and> list_all hex_char (drop 2 s) then Inr (hex_value (drop 2 s))
     else Inl (ValueError ''must be a lowercase 64-bit hexadecimal value''))"

section \<open>The manifest\<close>

definition ABI_VERSION :: int where "ABI_VERSION = 1"
definition PROTOCOL_VERSION :: int where "PROTOCOL_VERSION = 11"

record 'l PluginManifest = "'l Manifest" +
  pf_version :: ustr
  pf_schema_path :: "ustr option"
  pf_interface :: "ustr option"
  pf_worker :: ustr
  pf_root :: ustr
  pf_entry_symbol :: "ustr option"
  pf_interface_fingerprint :: bytes
  pf_startup_capabilities :: int
  pf_format_version :: int
  pf_control_abi_version :: int

definition MANIFEST_FIELDS :: "string set" where
  "MANIFEST_FIELDS = {''abiVersion'', ''deployment'', ''formatVersion'', ''generator'', ''interfaceFingerprint'', ''metadataFingerprint'',
     ''operationCount'', ''operations'', ''plugin'', ''protocolVersion''}"

definition read_lifecycle :: "fields \<Rightarrow> (bool \<times> bool) result" where
  "read_lifecycle d =
     (if key ''lifecycle'' \<notin> fst ` set d then Inr (False, False)
      else
      ebind (read_field object_of d ''lifecycle'') (\<lambda>l.
      ebind (exact_keys l {''initialize'', ''shutdown''}) (\<lambda>_.
      ebind (read_field boolean_at l ''initialize'') (\<lambda>i.
      ebind (read_field boolean_at l ''shutdown'') (\<lambda>s. Inr (i, s))))))"

text \<open>The checks on the manifest itself: versions, keys, the count of operations and the interface's
  fingerprint. The result is the lifecycle, the control ABI, the operations, the digest and the
  capabilities.\<close>

definition check_header ::
  "(64 word \<Rightarrow> ustr) \<Rightarrow> (bytes \<Rightarrow> bytes) \<Rightarrow> int \<Rightarrow> fields \<Rightarrow> ((bool \<times> bool) \<times> int \<times> jval list \<times> bytes \<times> int) result" where
  "check_header fr sha version d =
     ebind (keys_with_optional d (MANIFEST_FIELDS \<union> (if version = 2 then {''controlAbiVersion'', ''enums''} else {}))
       (if version = 2 then {''configuration'', ''lifecycle'', ''startupCapabilities''} else {})) (\<lambda>_.
     ebind (read_lifecycle d) (\<lambda>lifecycle.
     ebind (require_equal d ''abiVersion'' (JInt ABI_VERSION)) (\<lambda>_.
     ebind (require_equal d ''protocolVersion'' (JInt PROTOCOL_VERSION)) (\<lambda>_.
     ebind (require_equal d ''generator'' (JStr (text_of ''wmfs-tool/'' @ int_repr version))) (\<lambda>_.
     ebind (if version = 2 then read_field integer_at d ''controlAbiVersion'' else Inr 0) (\<lambda>control.
     ebind (reject (version = 2 \<and> control \<noteq> 1) (ValueError ''Manifest control ABI is unsupported'')) (\<lambda>_.
     ebind (read_field array_at d ''operations'') (\<lambda>items.
     ebind (read_field integer_at d ''operationCount'') (\<lambda>count.
     ebind (reject (count \<noteq> int (length items)) (ValueError ''Manifest operationCount'')) (\<lambda>_.
     ebind (validate_interface_fingerprint fr sha d) (\<lambda>digest.
     ebind (if key ''startupCapabilities'' \<in> fst ` set d then read_field uint64_at d ''startupCapabilities'' else Inr 0) (\<lambda>capabilities.
     Inr (lifecycle, control, items, digest, capabilities)))))))))))))"

definition read_metadata ::
  "(64 word \<Rightarrow> ustr) \<Rightarrow> (bytes \<Rightarrow> bytes) \<Rightarrow> int \<Rightarrow> fields \<Rightarrow> jval list \<Rightarrow> PluginMetadata result" where
  "read_metadata fr sha version d items =
     ebind (read_field object_of d ''plugin'') (\<lambda>p.
     ebind (exact_keys p {''name'', ''namespace'', ''pythonModule'', ''version''}) (\<lambda>_.
     ebind (read_field name_at p ''name'') (\<lambda>name.
     ebind (read_field name_at p ''version'') (\<lambda>plugin_version.
     ebind (read_field metadata_fingerprint_at d ''metadataFingerprint'') (\<lambda>fingerprint.
     ebind (emap (manifest_operation version) items) (\<lambda>ops.
     let metadata = \<lparr>pm_name = name, pm_version = plugin_version, pm_protocol_version = PROTOCOL_VERSION, pm_operations = ops,
       pm_fingerprint = fingerprint, pm_metadata_version = version\<rparr> in
     ebind (validate_plugin fr sha metadata) (\<lambda>_. Inr metadata)))))))"

definition optional_field :: "(jval \<Rightarrow> 'a result) \<Rightarrow> fields \<Rightarrow> string \<Rightarrow> 'a option result" where
  "optional_field f d name = (if key name \<in> fst ` set d then ebind (read_field f d name) (\<lambda>x. Inr (Some x)) else Inr None)"

definition load_manifest ::
  "(64 word \<Rightarrow> ustr) \<Rightarrow> (bytes \<Rightarrow> bytes) \<Rightarrow> (ustr \<Rightarrow> bool) \<Rightarrow> (ustr \<Rightarrow> bool) \<Rightarrow> 'l \<Rightarrow> jval \<Rightarrow> 'l PluginManifest result" where
  "load_manifest fr sha is_dir is_file disabled document =
     ebind (object_of document) (\<lambda>d.
     ebind (integer_at (get d ''formatVersion'')) (\<lambda>version.
     if version \<noteq> 1 \<and> version \<noteq> 2 then Inl (ValueError ''Manifest formatVersion'')
     else
     ebind (check_header fr sha version d) (\<lambda>(lifecycle, control, items, digest, capabilities).
     ebind (read_metadata fr sha version d items) (\<lambda>metadata.
     ebind (if version = 2 then parse_configuration_metadata fr (\<lambda>b. hex_of (sha b)) (pm_name metadata) (get d ''configuration'') else Inr None)
       (\<lambda>configuration.
     ebind (read_field object_of d ''deployment'') (\<lambda>e.
     ebind (keys_with_optional e ({''root'', ''worker''} \<union> (if version = 2 then {} else {''interface'', ''schema''}))
       (if version = 2 then {''localProvider'', ''bundledNamespace'', ''entrySymbol''} else {})) (\<lambda>_.
     ebind (read_field string_at e ''root'') (\<lambda>root.
     ebind (if version = 1 then ebind (read_field string_at e ''schema'') (\<lambda>s. Inr (Some s)) else Inr None) (\<lambda>schema.
     if \<not> is_dir root then Inl (ValueError ''Plugin deployment root does not exist'')
     else if (case schema of None \<Rightarrow> False | Some s \<Rightarrow> \<not> is_file s) then Inl (ValueError ''Plugin deployment schema does not exist'')
     else
     ebind (if version = 1 then ebind (read_field string_at e ''interface'') (\<lambda>s. Inr (Some s)) else Inr None) (\<lambda>interface.
     ebind (read_field string_at e ''worker'') (\<lambda>worker.
     ebind (optional_field name_at e ''localProvider'') (\<lambda>provider.
     ebind (optional_field name_at e ''bundledNamespace'') (\<lambda>namespace.
     ebind (optional_field string_at e ''entrySymbol'') (\<lambda>symbol.
     Inr \<lparr>mf_name = pm_name metadata, mf_metadata = metadata, mf_configuration = configuration,
       mf_configuration_bytes = EMPTY_CONFIGURATION_BYTES, mf_python_provider = provider, mf_bundled_namespace = namespace,
       mf_has_initialize = fst lifecycle, mf_has_shutdown = snd lifecycle, mf_logging = disabled,
       pf_version = text_of (pm_version metadata), pf_schema_path = schema, pf_interface = interface, pf_worker = worker,
       pf_root = root, pf_entry_symbol = symbol, pf_interface_fingerprint = digest, pf_startup_capabilities = capabilities,
       pf_format_version = version, pf_control_abi_version = control\<rparr>))))))))))))))"

text \<open>Discovery reads the manifests found, in the order of their paths, and registers their metadata.\<close>

definition find_manifests ::
  "(64 word \<Rightarrow> ustr) \<Rightarrow> (bytes \<Rightarrow> bytes) \<Rightarrow> (ustr \<Rightarrow> bool) \<Rightarrow> (ustr \<Rightarrow> bool) \<Rightarrow> 'l \<Rightarrow> jval list \<Rightarrow> 'l PluginManifest list result" where
  "find_manifests fr sha is_dir is_file disabled = emap (load_manifest fr sha is_dir is_file disabled)"

fun register_manifests :: "'l PluginManifest list \<Rightarrow> (Registry, unit) st" where
  "register_manifests [] = sret ()"
| "register_manifests (m # ms) = sbind (register (mf_metadata m)) (\<lambda>_. register_manifests ms)"

definition discover_plugin_manifests ::
  "(64 word \<Rightarrow> ustr) \<Rightarrow> (bytes \<Rightarrow> bytes) \<Rightarrow> (ustr \<Rightarrow> bool) \<Rightarrow> (ustr \<Rightarrow> bool) \<Rightarrow> 'l \<Rightarrow> jval list \<Rightarrow>
     (Registry \<times> 'l PluginManifest list) result" where
  "discover_plugin_manifests fr sha is_dir is_file disabled documents =
     ebind (find_manifests fr sha is_dir is_file disabled documents) (\<lambda>ms.
     case register_manifests ms new_registry of (Inl e, r) \<Rightarrow> Inl e | (Inr _, r) \<Rightarrow> Inr (r, ms))"

end
