(* ===== verification/Interface.thy ===== *)
theory Interface
  imports Plugin_Manifest
begin

text \<open>
  The interface of a plugin as the tool holds it, \<open>packages/wmfs-tool/wmfs_tool/model.py\<close>, and what the
  generator derives from it besides code, \<open>packages/wmfs-tool/wmfs_tool/generator.py\<close>: the interface
  document and its fingerprint, the fingerprint of the metadata, the configuration schema and the
  manifest. The names of the dataclasses carry an \<open>I\<close>, since the runtime has its own of the same names.
\<close>

section \<open>The model\<close>

record ITensorParameter =
  it_name :: string
  it_access :: string
  it_dtype_variable :: "string option"
  it_dtypes :: "string list"

record IDTypeVariable =
  iv_name :: string
  iv_dtypes :: "string list"

record IEnum =
  ie_name :: string
  ie_values :: "ustr list"

record IScalarParameter =
  is_name :: string
  is_kind :: string
  is_required :: bool
  is_default :: "sval option"
  is_enum :: "string option"
  is_enum_values :: "ustr list"

datatype IDimension =
  IDimension (di_kind: string) (di_input: "int option") (di_axis: "int option") (di_scalar: "int option")
    (di_operands: "IDimension list") (di_when_true: "IDimension option") (di_when_false: "IDimension option")

record IDType =
  dt_kind :: string
  dt_input :: "int option"
  dt_scalar :: "int option"
  dt_value :: "string option"
  dt_variable :: "string option"

record IOutput =
  io_name :: string
  io_allocation :: string
  io_dimensions :: "IDimension list"
  io_same_shape :: "int option"
  io_dtype :: "IDType option"

record IVjp =
  iy_operation_id :: int
  iy_saved_inputs :: "int list"
  iy_saved_outputs :: "int list"
  iy_output_cotangents :: "int list"
  iy_input_gradients :: "int list"
  iy_scalar_parameters :: "int list"

record IOperation =
  ip_operation_id :: int
  ip_name :: string
  ip_internal :: bool
  ip_inputs :: "ITensorParameter list"
  ip_outputs :: "IOutput list"
  ip_scalars :: "IScalarParameter list"
  ip_vjp :: "IVjp option"
  ip_dtype_variables :: "IDTypeVariable list"

datatype IConfigurationProperty =
  IConfigurationProperty (cp_name: string) (cp_kind: string) (cp_required: bool) (cp_description: "ustr option")
    (cp_has_default: bool) (cp_default: jval) (cp_enum: "jval list") (cp_minimum: "jval option") (cp_maximum: "jval option")
    (cp_min_length: "int option") (cp_max_length: "int option") (cp_min_items: "int option") (cp_max_items: "int option")
    (cp_properties: "IConfigurationProperty list") (cp_items: "IConfigurationProperty option")

record IConfiguration =
  ic_schema_version :: int
  ic_description :: "ustr option"
  ic_properties :: "IConfigurationProperty list"
  ic_examples :: "(string \<times> jval) list"

record ILifecycle =
  il_initialize :: bool
  il_shutdown :: bool

record IPlugin =
  ig_format_version :: int
  ig_abi_version :: int
  ig_protocol_version :: int
  ig_name :: string
  ig_version :: string
  ig_namespace :: string
  ig_python_module :: string
  ig_worker :: ustr
  ig_deployment_root :: ustr
  ig_python_provider :: "string option"
  ig_bundled_namespace :: "string option"
  ig_operations :: "IOperation list"
  ig_enums :: "IEnum list"
  ig_configuration :: "IConfiguration option"
  ig_lifecycle :: ILifecycle

section \<open>The interface document\<close>

text \<open>\<open>asdict\<close> of each dataclass.\<close>

definition tensor_dict :: "ITensorParameter \<Rightarrow> jval" where
  "tensor_dict t =
     obj [(''name'', jstr (it_name t)), (''access'', jstr (it_access t)), (''dtype_variable'', jopt jstr (it_dtype_variable t)),
       (''dtypes'', jlist jstr (it_dtypes t))]"

definition variable_dict :: "IDTypeVariable \<Rightarrow> jval" where
  "variable_dict v = obj [(''name'', jstr (iv_name v)), (''dtypes'', jlist jstr (iv_dtypes v))]"

definition enum_dict :: "IEnum \<Rightarrow> jval" where
  "enum_dict e = obj [(''name'', jstr (ie_name e)), (''values'', jlist JStr (ie_values e))]"

definition scalar_dict :: "IScalarParameter \<Rightarrow> jval" where
  "scalar_dict s =
     obj [(''name'', jstr (is_name s)), (''kind'', jstr (is_kind s)), (''required'', JBool (is_required s)),
       (''default'', jopt sval_json (is_default s)), (''enum'', jopt jstr (is_enum s)),
       (''enum_values'', jlist JStr (is_enum_values s))]"

fun dimension_dict :: "IDimension \<Rightarrow> jval" where
  "dimension_dict (IDimension k i a p ds t f) =
     obj [(''kind'', jstr k), (''input'', jopt JInt i), (''axis'', jopt JInt a), (''scalar'', jopt JInt p),
       (''operands'', JList (map dimension_dict ds)),
       (''when_true'', case map_option dimension_dict t of None \<Rightarrow> JNull | Some v \<Rightarrow> v),
       (''when_false'', case map_option dimension_dict f of None \<Rightarrow> JNull | Some v \<Rightarrow> v)]"

definition dtype_dict :: "IDType \<Rightarrow> jval" where
  "dtype_dict d =
     obj [(''kind'', jstr (dt_kind d)), (''input'', jopt JInt (dt_input d)), (''scalar'', jopt JInt (dt_scalar d)),
       (''value'', jopt jstr (dt_value d)), (''variable'', jopt jstr (dt_variable d))]"

definition output_dict :: "IOutput \<Rightarrow> jval" where
  "output_dict x =
     obj [(''name'', jstr (io_name x)), (''allocation'', jstr (io_allocation x)),
       (''dimensions'', jlist dimension_dict (io_dimensions x)), (''same_shape_as_input'', jopt JInt (io_same_shape x)),
       (''dtype'', jopt dtype_dict (io_dtype x))]"

definition vjp_dict :: "IVjp \<Rightarrow> jval" where
  "vjp_dict v =
     obj [(''operation_id'', JInt (iy_operation_id v)), (''saved_inputs'', jlist JInt (iy_saved_inputs v)),
       (''saved_outputs'', jlist JInt (iy_saved_outputs v)), (''output_cotangents'', jlist JInt (iy_output_cotangents v)),
       (''input_gradients'', jlist JInt (iy_input_gradients v)), (''scalar_parameters'', jlist JInt (iy_scalar_parameters v))]"

definition operation_dict :: "IOperation \<Rightarrow> jval" where
  "operation_dict p =
     obj [(''name'', jstr (ip_name p)), (''internal'', JBool (ip_internal p)), (''inputs'', jlist tensor_dict (ip_inputs p)),
       (''outputs'', jlist output_dict (ip_outputs p)), (''scalars'', jlist scalar_dict (ip_scalars p)),
       (''vjp'', jopt vjp_dict (ip_vjp p)), (''dtype_variables'', jlist variable_dict (ip_dtype_variables p)),
       (''id'', JInt (ip_operation_id p))]"

definition lifecycle_dict :: "ILifecycle \<Rightarrow> jval" where
  "lifecycle_dict l = obj [(''initialize'', JBool (il_initialize l)), (''shutdown'', JBool (il_shutdown l))]"

definition interface_items :: "IPlugin \<Rightarrow> (string \<times> jval) list" where
  "interface_items g =
     [(''abiVersion'', JInt (ig_abi_version g)), (''formatVersion'', JInt (ig_format_version g)),
      (''operations'', jlist operation_dict (ig_operations g)), (''enums'', jlist enum_dict (ig_enums g)),
      (''plugin'', obj [(''name'', jstr (ig_name g)), (''namespace'', jstr (ig_namespace g)),
         (''pythonModule'', jstr (ig_python_module g)), (''version'', jstr (ig_version g))]),
      (''protocolVersion'', JInt (ig_protocol_version g)), (''lifecycle'', lifecycle_dict (ig_lifecycle g))]"

definition interface_document :: "IPlugin \<Rightarrow> jval" where
  "interface_document g = obj (interface_items g)"

section \<open>The fingerprint of the metadata\<close>

text \<open>The generator writes the document the runtime will hash from its own model; attributes of
  \<open>None\<close> raise.\<close>

definition metadata_access :: "string \<Rightarrow> string result" where
  "metadata_access a =
     (if a = ''read_only'' then Inr ''readOnly'' else if a = ''read_write'' then Inr ''readWrite'' else Inl (KeyError ''access''))"

fun tool_dimension :: "IDimension \<Rightarrow> jval result" where
  "tool_dimension (IDimension k i a p ds t f) =
     ebind (if k = ''constant'' then Inr (jopt JInt a)
            else if k = ''input_axis'' then Inr (obj [(''axis'', jopt JInt a), (''input'', jopt JInt i)])
            else if k = ''minimum'' then ebind (emap tool_dimension ds) (\<lambda>vs. Inr (JList vs))
            else ebind (case f of None \<Rightarrow> Inl AttributeError | Some x \<Rightarrow> tool_dimension x) (\<lambda>no.
                 ebind (case t of None \<Rightarrow> Inl AttributeError | Some x \<Rightarrow> tool_dimension x) (\<lambda>yes.
                 Inr (obj [(''scalar_parameter'', jopt JInt p), (''when_false'', no), (''when_true'', yes)]))))
       (\<lambda>v. Inr (obj [(''kind'', jstr (if k = ''input_axis'' then ''inputAxis'' else k)), (''value'', v)]))"

definition tool_dtype :: "IDType \<Rightarrow> jval" where
  "tool_dtype d =
     obj [(''kind'', jstr (if dt_kind d = ''promote_tensor_scalar'' then ''promoteTensorScalar'' else dt_kind d)),
       (''value'',
          if dt_kind d = ''input'' then jopt JInt (dt_input d)
          else if dt_kind d = ''fixed'' then jopt jstr (dt_value d)
          else if dt_kind d = ''variable'' then jopt jstr (dt_variable d)
          else obj [(''scalar_parameter'', jopt JInt (dt_scalar d)), (''tensor_input'', jopt JInt (dt_input d))])]"

definition tool_output :: "IOutput \<Rightarrow> jval result" where
  "tool_output x =
     ebind
       (if io_allocation x = ''known''
        then ebind (case io_same_shape x of
                 Some i \<Rightarrow> Inr (''sameShapeAsInput'', JInt i)
               | None \<Rightarrow> ebind (emap tool_dimension (io_dimensions x)) (\<lambda>vs. Inr (''dimensions'', JList vs))) (\<lambda>(kind, shape).
             case io_dtype x of None \<Rightarrow> Inl AttributeError
             | Some d \<Rightarrow> Inr (obj [(''dtype'', tool_dtype d), (''shape'', shape), (''shape_kind'', jstr kind)]))
        else Inr JNull)
       (\<lambda>known. Inr (obj [(''known'', known), (''name'', jstr (io_name x))]))"

definition tool_scalar :: "IScalarParameter \<Rightarrow> jval" where
  "tool_scalar s =
     obj [(''default'', jopt sval_json (is_default s)), (''enum_name'', jopt jstr (is_enum s)),
       (''enum_values'', jlist JStr (is_enum_values s)), (''kind'', jstr (is_kind s)), (''name'', jstr (is_name s)),
       (''required'', JBool (is_required s))]"

definition tool_tensor :: "ITensorParameter \<Rightarrow> jval result" where
  "tool_tensor t =
     ebind (metadata_access (it_access t)) (\<lambda>access.
     Inr (obj [(''access'', jstr access), (''dtype_variable'', jopt jstr (it_dtype_variable t)),
       (''dtypes'', jlist jstr (it_dtypes t)), (''name'', jstr (it_name t))]))"

definition tool_output_tensor :: "IOutput \<Rightarrow> jval" where
  "tool_output_tensor x = obj [(''access'', jstr ''readOnly''), (''dtype_variable'', JNull), (''dtypes'', JList []), (''name'', jstr (io_name x))]"

definition tool_operation :: "IOperation \<Rightarrow> jval result" where
  "tool_operation p =
     ebind (emap tool_output (ip_outputs p)) (\<lambda>plans.
     ebind (emap tool_tensor (ip_inputs p)) (\<lambda>inputs.
     Inr (obj [(''internal'', JBool (ip_internal p)), (''name'', jstr (ip_name p)), (''operation_id'', JInt (ip_operation_id p)),
       (''output_plans'', JList plans), (''scalar_parameters'', jlist tool_scalar (ip_scalars p)), (''tensor_inputs'', JList inputs),
       (''tensor_outputs'', jlist tool_output_tensor (ip_outputs p)), (''vjp'', jopt vjp_dict (ip_vjp p)),
       (''dtype_variables'', jlist variable_dict (ip_dtype_variables p))])))"

definition tool_envelope :: "IPlugin \<Rightarrow> jval list \<Rightarrow> jval" where
  "tool_envelope g ops =
     obj [(''encoding'', jstr ''wmfs-plugin-metadata-v2''),
       (''metadata'', obj [(''name'', jstr (ig_name g)), (''operations'', JList ops), (''protocol_version'', JInt (ig_protocol_version g)),
          (''version'', jstr (ig_version g)), (''metadata_version'', JInt 2)])]"

definition tool_metadata_fingerprint :: "(64 word \<Rightarrow> ustr) \<Rightarrow> (bytes \<Rightarrow> bytes) \<Rightarrow> IPlugin \<Rightarrow> int result" where
  "tool_metadata_fingerprint fr sha g =
     ebind (emap tool_operation (ig_operations g)) (\<lambda>ops.
     ebind (dumps fr True (tool_envelope g ops)) (\<lambda>text.
     ebind (utf8_encode text) (\<lambda>canonical.
     Inr (from_big_endian (take 8 (sha canonical))))))"

section \<open>The configuration\<close>

text \<open>A dict comprehension: a key that comes again keeps its place and takes the later value.\<close>

definition dict_of :: "(string \<times> jval) list \<Rightarrow> jval" where
  "dict_of items = JObject (fold (\<lambda>(n, v). AList.update (key n) v) items [])"

definition present :: "string \<Rightarrow> ('a \<Rightarrow> jval) \<Rightarrow> 'a option \<Rightarrow> (string \<times> jval) list" where
  "present n f x = (case x of None \<Rightarrow> [] | Some y \<Rightarrow> [(n, f y)])"

fun property_document :: "IConfigurationProperty \<Rightarrow> jval result" where
  "property_document (IConfigurationProperty n k r desc hasd dflt en mn mx mnl mxl mni mxi ps it) =
     ebind
       (if k = ''object''
        then ebind (emap (\<lambda>p. ebind (property_document p) (\<lambda>v. Inr (cp_name p, v))) ps) (\<lambda>children.
             Inr [(''additionalProperties'', JBool False), (''properties'', dict_of children),
               (''required'', jlist jstr (map cp_name (filter cp_required ps)))])
        else if k = ''array''
        then case it of None \<Rightarrow> Inl AssertionError | Some x \<Rightarrow> ebind (property_document x) (\<lambda>v. Inr [(''items'', v)])
        else Inr [])
       (\<lambda>more.
     Inr (obj ([(''type'', jstr k)] @ present ''description'' JStr desc @ (if hasd then [(''default'', dflt)] else []) @
       (if en \<noteq> [] then [(''enum'', JList en)] else []) @ present ''minimum'' (\<lambda>v. v) mn @ present ''maximum'' (\<lambda>v. v) mx @
       present ''minLength'' JInt mnl @ present ''maxLength'' JInt mxl @ present ''minItems'' JInt mni @ present ''maxItems'' JInt mxi @ more)))"

definition configuration_schema :: "IConfiguration \<Rightarrow> jval result" where
  "configuration_schema c =
     ebind (emap (\<lambda>p. ebind (property_document p) (\<lambda>v. Inr (cp_name p, v))) (ic_properties c)) (\<lambda>children.
     Inr (obj ([(''additionalProperties'', JBool False), (''properties'', dict_of children),
       (''required'', jlist jstr (map cp_name (filter cp_required (ic_properties c)))), (''type'', jstr ''object'')] @
       present ''description'' JStr (ic_description c))))"

definition tool_configuration_fingerprint :: "(64 word \<Rightarrow> ustr) \<Rightarrow> (bytes \<Rightarrow> bytes) \<Rightarrow> IConfiguration \<Rightarrow> ustr result" where
  "tool_configuration_fingerprint fr sha c =
     ebind (configuration_schema c) (\<lambda>schema.
     ebind (dumps fr True (obj [(''encoding'', JStr ENCODING), (''schema'', schema)])) (\<lambda>text.
     ebind (utf8_encode text) (\<lambda>canonical.
     Inr (text_of ''sha256:'' @ hex_of (sha canonical)))))"

definition configuration_manifest :: "(64 word \<Rightarrow> ustr) \<Rightarrow> (bytes \<Rightarrow> bytes) \<Rightarrow> IConfiguration option \<Rightarrow> jval result" where
  "configuration_manifest fr sha c =
     (case c of None \<Rightarrow> Inr JNull | Some c \<Rightarrow>
      ebind (configuration_schema c) (\<lambda>schema.
      ebind (tool_configuration_fingerprint fr sha c) (\<lambda>fingerprint.
      Inr (obj [(''encoding'', JStr ENCODING), (''examples'', dict_of (ic_examples c)), (''fingerprint'', JStr fingerprint),
        (''schema'', schema), (''schemaVersion'', JInt (ic_schema_version c))]))))"

section \<open>The manifest\<close>

definition startup_capabilities :: "IPlugin \<Rightarrow> int" where
  "startup_capabilities g =
     1 OR 2 OR 4 OR (if ig_configuration g \<noteq> None then 8 else 0) OR 16 OR 32 OR
     (if il_initialize (ig_lifecycle g) then 64 else 0) OR (if il_shutdown (ig_lifecycle g) then 128 else 0)"

fun hex_digits :: "nat \<Rightarrow> nat \<Rightarrow> ustr" where
  "hex_digits 0 n = []"
| "hex_digits (Suc k) n = hex_digits k (n div 16) @ [hex_digit (n mod 16)]"

text \<open>\<open>str.lower\<close> of an ASCII name.\<close>

definition lower :: "string \<Rightarrow> string" where
  "lower s = map (\<lambda>c. if CHR ''A'' \<le> c \<and> c \<le> CHR ''Z'' then char_of (of_char c + 32 :: nat) else c) s"

definition deployment_document :: "IPlugin \<Rightarrow> jval" where
  "deployment_document g =
     obj ([(''entrySymbol'', jstr (''wmfs_'' @ lower (ig_namespace g) @ ''_plugin_get_api'')), (''root'', JStr (ig_deployment_root g)),
         (''worker'', JStr (ig_worker g))] @ present ''localProvider'' jstr (ig_python_provider g) @
       present ''bundledNamespace'' jstr (ig_bundled_namespace g))"

text \<open>\<open>_manifest\<close>: the fingerprint of the interface is the caller's. The text is written with indentation,
  which raises exactly when the compact text does.\<close>

definition manifest_document :: "(64 word \<Rightarrow> ustr) \<Rightarrow> (bytes \<Rightarrow> bytes) \<Rightarrow> IPlugin \<Rightarrow> ustr \<Rightarrow> jval result" where
  "manifest_document fr sha g fingerprint =
     ebind (tool_metadata_fingerprint fr sha g) (\<lambda>metadata.
     ebind (configuration_manifest fr sha (ig_configuration g)) (\<lambda>configuration.
     let document = obj (interface_items g @
       [(''deployment'', deployment_document g), (''generator'', jstr ''wmfs-tool/2''), (''controlAbiVersion'', JInt 1),
        (''interfaceFingerprint'', JStr (text_of ''sha256:'' @ fingerprint)),
        (''metadataFingerprint'', JStr (text_of ''0x'' @ hex_digits 16 (nat metadata))),
        (''operationCount'', JInt (int (length (ig_operations g)))), (''startupCapabilities'', JInt (startup_capabilities g)),
        (''configuration'', configuration)]) in
     ebind (dumps fr True document) (\<lambda>_. Inr document)))"

text \<open>What \<open>generate\<close> writes as the manifest.\<close>

definition generate :: "(64 word \<Rightarrow> ustr) \<Rightarrow> (bytes \<Rightarrow> bytes) \<Rightarrow> IPlugin \<Rightarrow> jval result" where
  "generate fr sha g =
     ebind (dumps fr True (interface_document g)) (\<lambda>text.
     ebind (utf8_encode text) (\<lambda>canonical.
     manifest_document fr sha g (hex_of (sha canonical))))"

end
