(* ===== verification/Interface_Laws.thy ===== *)
theory Interface_Laws
  imports Interface Configuration_Laws
begin

text \<open>
  What the generator writes the runtime accepts: the manifest of an interface, read back in any order of
  its keys, gives the metadata of the interface, and both fingerprints in it are those the runtime
  computes. Two metadata have the same canonical bytes only when they are the same.
\<close>

section \<open>Objects up to the order of their keys\<close>

lemma key_mem: "key n \<in> key ` A \<longleftrightarrow> n \<in> A"
  by (auto simp: key_inj)

lemma same_obj:
  assumes "same_json (obj items) w"
  obtains d g where "w = JObject d" "fst ` set d = key ` fst ` set items"
    "\<forall>(n, v) \<in> set items. item_of d n = Inr (g n) \<and> get d n = g n \<and> same_json v (g n)"
proof -
  from assms obtain d where w: "w = JObject d" and keys: "(\<lambda>(n, v). key n) ` set items = fst ` set d"
    and same: "\<forall>(n, v) \<in> set items. \<forall>(l, x) \<in> set d. key n = l \<longrightarrow> same_json v x"
    by (cases w) (auto simp: obj_def image_image case_prod_unfold)
  let ?g = "\<lambda>n. the (map_of d (key n))"
  have "item_of d n = Inr (?g n) \<and> get d n = ?g n \<and> same_json v (?g n)" if "(n, v) \<in> set items" for n v
  proof -
    have "key n \<in> fst ` set d" using that keys by force
    then obtain x where x: "map_of d (key n) = Some x" by (cases "map_of d (key n)") (auto simp: map_of_eq_None_iff)
    then have "(key n, x) \<in> set d" by (rule map_of_SomeD)
    then show ?thesis using same that x by (force simp: item_of_def get_def)
  qed
  moreover have "fst ` set d = key ` fst ` set items" using keys by (auto simp: image_image case_prod_unfold)
  ultimately show thesis using w by (intro that[of d ?g]) auto
qed

lemma same_jstr: "same_json (jstr s) w \<longleftrightarrow> w = jstr s"
  by (auto simp: jstr_def)

lemma same_jlist: "same_json (jlist f xs) w \<longleftrightarrow> (\<exists>ws. w = JList ws \<and> list_all2 (\<lambda>x. same_json (f x)) xs ws)"
  by (cases w) (auto simp: jlist_def list_all2_map1)

lemma same_jopt: "same_json (jopt f x) w \<longleftrightarrow> (case x of None \<Rightarrow> w = JNull | Some y \<Rightarrow> same_json (f y) w)"
  by (auto simp: jopt_def split: option.splits)

lemma list_all2_eq_map: "list_all2 (\<lambda>x w. w = f x) xs ws \<longleftrightarrow> ws = map f xs"
  by (induction xs arbitrary: ws) (auto simp: list_all2_Cons1)

lemma same_obj_objI:
  assumes "fst ` set xs = fst ` set ys" "\<forall>(n, v) \<in> set xs. \<forall>(m, w) \<in> set ys. n = m \<longrightarrow> same_json v w"
  shows "same_json (obj xs) (obj ys)"
proof -
  have "fst ` set (map (\<lambda>(n, v). (key n, v)) zs) = key ` fst ` set zs" for zs :: "(string \<times> jval) list"
    by (auto simp: image_image case_prod_unfold)
  then have keys: "fst ` set (map (\<lambda>(n, v). (key n, v)) xs) = fst ` set (map (\<lambda>(n, v). (key n, v)) ys)"
    by (simp only: assms(1))
  have "\<forall>(k, v) \<in> set (map (\<lambda>(n, v). (key n, v)) xs). \<forall>(l, w) \<in> set (map (\<lambda>(n, v). (key n, v)) ys). k = l \<longrightarrow> same_json v w"
    using assms(2) by (simp add: key_inj case_prod_unfold)
  with keys show ?thesis by (simp only: obj_def same_json.simps jval.case)
qed

lemma emap_list_all2:
  assumes "list_all2 P xs ws" "\<And>x w. x \<in> set xs \<Longrightarrow> P x w \<Longrightarrow> f w = Inr (g x)"
  shows "emap f ws = Inr (map g xs)"
  using assms
proof (induction rule: list_all2_induct)
  case (Cons x xs w ws)
  have "f w = Inr (g x)" using Cons.prems Cons.hyps(1) by simp
  moreover have "emap f ws = Inr (map g xs)" using Cons.prems by (intro Cons.IH) simp
  ultimately show ?case by simp
qed simp

lemma exact_keysI: "fst ` set d = key ` A \<Longrightarrow> A = names \<Longrightarrow> exact_keys d names = Inr ()"
  by (simp add: exact_keys_def reject_def)

section \<open>Names\<close>

lemma plain_name_text: "plain_name (text_of s) = Inr s"
  by (simp add: plain_name_def text_of_def list_all_iff comp_def)

lemma text_of_Nil: "text_of s = [] \<longleftrightarrow> s = []"
  by (simp add: text_of_def)

lemma string_at_jstr: "s \<noteq> [] \<Longrightarrow> string_at (jstr s) = Inr (text_of s)"
  by (simp add: string_at_def jstr_def text_of_Nil)

lemma name_at_jstr: "s \<noteq> [] \<Longrightarrow> name_at (jstr s) = Inr s"
  by (simp add: name_at_def string_at_jstr plain_name_text)

lemma names_at: "[] \<notin> set ss \<Longrightarrow> array_of name_at (JList (map jstr ss)) = Inr ss"
  by (induction ss) (auto simp: array_of_def array_at_def name_at_jstr)

lemma strings_at: "[] \<notin> set ss \<Longrightarrow> array_of string_at (JList (map JStr ss)) = Inr ss"
  by (induction ss) (auto simp: array_of_def array_at_def string_at_def)

lemma integers_at: "array_of integer_at (JList (map JInt ns)) = Inr ns"
  by (induction ns) (auto simp: array_of_def array_at_def integer_at_def)

lemma optional_name_at: "x \<noteq> Some [] \<Longrightarrow> optional_at name_at (jopt jstr x) = Inr x"
  by (cases x) (simp_all add: optional_at_def jopt_def name_at_jstr jstr_def[THEN arg_cong, of "\<lambda>v. v = JNull"])

lemma default_at_sval: "default_at (jopt sval_json x) = Inr x"
  by (cases x; cases "the x") (auto simp: default_at_def jopt_def)

lemma same_leaves:
  assumes "\<And>x w. same_json (f x) w \<longleftrightarrow> w = f x"
  shows "same_json (jlist f xs) w \<longleftrightarrow> w = JList (map f xs)"
  unfolding same_jlist assms list_all2_eq_map by blast

lemma same_names: "same_json (jlist jstr ss) w \<longleftrightarrow> w = JList (map jstr ss)"
  by (rule same_leaves) (rule same_jstr)

lemma same_texts: "same_json (jlist JStr ss) w \<longleftrightarrow> w = JList (map JStr ss)"
  by (rule same_leaves) auto

lemma same_integers: "same_json (jlist JInt ns) w \<longleftrightarrow> w = JList (map JInt ns)"
  by (rule same_leaves) auto

lemma same_optional_name: "same_json (jopt jstr x) w \<longleftrightarrow> w = jopt jstr x"
  by (cases x) (auto simp: jopt_def same_jstr)

lemma same_optional_integer: "same_json (jopt JInt x) w \<longleftrightarrow> w = jopt JInt x"
  by (cases x) (auto simp: jopt_def)

lemma same_default: "same_json (jopt sval_json x) w \<longleftrightarrow> w = jopt sval_json x"
  by (cases x; cases "the x") (auto simp: jopt_def)

lemma same_scalar: "same_json (JInt i) w \<longleftrightarrow> w = JInt i" "same_json (JBool b) w \<longleftrightarrow> w = JBool b" "same_json (JStr s) w \<longleftrightarrow> w = JStr s"
    "same_json JNull w \<longleftrightarrow> w = JNull"
  by auto

lemmas same_leaf = same_scalar same_jstr same_names same_texts same_integers same_optional_name same_optional_integer same_default

section \<open>The metadata of an interface\<close>

definition tensor_of :: "ITensorParameter \<Rightarrow> TensorParameter" where
  "tensor_of t = \<lparr>tp_name = it_name t, tp_access = if it_access t = ''read_write'' then ''readWrite'' else ''readOnly'',
     tp_dtype_variable = it_dtype_variable t, tp_dtypes = it_dtypes t\<rparr>"

definition tensor_ok :: "ITensorParameter \<Rightarrow> bool" where
  "tensor_ok t \<longleftrightarrow> it_name t \<noteq> [] \<and> it_access t \<in> {''read_only'', ''read_write''} \<and> it_dtype_variable t \<noteq> Some [] \<and> [] \<notin> set (it_dtypes t)"

lemma read_tensor_dict:
  assumes "same_json (tensor_dict t) w" "tensor_ok t"
  shows "manifest_tensor 2 w = Inr (tensor_of t)"
proof (rule same_obj[OF assms(1)[unfolded tensor_dict_def]], goal_cases)
  case (1 d g)
  have "exact_keys d ({''access'', ''name''} \<union> (if (2::int) = 2 then {''dtype_variable'', ''dtypes''} else {})) = Inr ()"
    by (rule exact_keysI[OF 1(2)]) auto
  then show ?case using 1(3) assms(2)
    by (auto simp: manifest_tensor_def 1(1) object_of_def same_leaf read_field_def string_at_jstr name_at_jstr names_at optional_name_at
        tensor_ok_def tensor_of_def manifest_access_def text_of_inj)
qed

definition scalar_of :: "IScalarParameter \<Rightarrow> ScalarParameter" where
  "scalar_of s = \<lparr>sp_name = is_name s, sp_kind = is_kind s, sp_required = is_required s, sp_default = is_default s,
     sp_enum_name = is_enum s, sp_enum_values = is_enum_values s\<rparr>"

definition scalar_ok :: "IScalarParameter \<Rightarrow> bool" where
  "scalar_ok s \<longleftrightarrow> is_name s \<noteq> [] \<and> is_kind s \<noteq> [] \<and> is_enum s \<noteq> Some [] \<and> [] \<notin> set (is_enum_values s) \<and>
     list_all (list_all (encodable True)) (is_enum_values s) \<and>
     (case is_default s of Some (SText t) \<Rightarrow> list_all (encodable True) t | _ \<Rightarrow> True)"

lemma read_scalar_dict:
  assumes "same_json (scalar_dict s) w" "scalar_ok s"
  shows "manifest_scalar 2 w = Inr (scalar_of s)"
proof (rule same_obj[OF assms(1)[unfolded scalar_dict_def]], goal_cases)
  case (1 d g)
  have "exact_keys d ({''default'', ''kind'', ''name'', ''required''} \<union> (if (2::int) = 2 then {''enum'', ''enum_values''} else {})) = Inr ()"
    by (rule exact_keysI[OF 1(2)]) auto
  then show ?case using 1(3) assms(2)
    by (auto simp: manifest_scalar_def 1(1) object_of_def same_leaf read_field_def name_at_jstr strings_at optional_name_at boolean_at_def
        default_at_sval scalar_ok_def scalar_of_def simp del: same_json.simps)
qed

definition variable_of :: "IDTypeVariable \<Rightarrow> DTypeVariable" where
  "variable_of v = \<lparr>dv_name = iv_name v, dv_dtypes = iv_dtypes v\<rparr>"

definition variable_ok :: "IDTypeVariable \<Rightarrow> bool" where
  "variable_ok v \<longleftrightarrow> iv_name v \<noteq> [] \<and> [] \<notin> set (iv_dtypes v)"

lemma read_variable_dict:
  assumes "same_json (variable_dict v) w" "variable_ok v"
  shows "read_dtype_variable w = Inr (variable_of v)"
proof (rule same_obj[OF assms(1)[unfolded variable_dict_def]], goal_cases)
  case (1 d g)
  have "exact_keys d {''dtypes'', ''name''} = Inr ()" by (rule exact_keysI[OF 1(2)]) auto
  then show ?case using 1(3) assms(2)
    by (auto simp: read_dtype_variable_def 1(1) object_of_def same_leaf read_field_def name_at_jstr names_at variable_ok_def variable_of_def)
qed

definition vjp_of :: "IVjp \<Rightarrow> VjpMetadata" where
  "vjp_of v = \<lparr>vjp_operation_id = iy_operation_id v, saved_inputs = iy_saved_inputs v, saved_outputs = iy_saved_outputs v,
     output_cotangents = iy_output_cotangents v, input_gradients = iy_input_gradients v, vjp_scalar_parameters = iy_scalar_parameters v\<rparr>"

lemma read_vjp_dict:
  assumes "same_json (vjp_dict v) w"
  shows "read_vjp w = Inr (Some (vjp_of v))"
proof (rule same_obj[OF assms(1)[unfolded vjp_dict_def]], goal_cases)
  case (1 d g)
  have "exact_keys d VJP_FIELDS = Inr ()" by (rule exact_keysI[OF 1(2)]) (auto simp: VJP_FIELDS_def)
  then show ?case using 1(3)
    by (simp add: read_vjp_def 1(1) object_of_def same_leaf read_field_def integer_at_def integers_at vjp_of_def del: same_json.simps)
qed

lemma read_optional_vjp: "same_json (jopt vjp_dict x) w \<Longrightarrow> read_vjp w = Inr (map_option vjp_of x)"
  by (cases x) (auto simp: same_jopt read_vjp_dict, simp add: read_vjp_def)

section \<open>Expressions\<close>

text \<open>A dimension of the tool whose kind has the fields it needs.\<close>

fun dimension_ok :: "IDimension \<Rightarrow> bool" where
  "dimension_ok (IDimension k i a p ds t f) \<longleftrightarrow>
     (k = ''constant'' \<and> a \<noteq> None) \<or> (k = ''input_axis'' \<and> i \<noteq> None \<and> a \<noteq> None) \<or> (k = ''minimum'' \<and> list_all dimension_ok ds) \<or>
     (k = ''select'' \<and> p \<noteq> None \<and> (case map_option dimension_ok t of Some b \<Rightarrow> b | None \<Rightarrow> False) \<and>
       (case map_option dimension_ok f of Some b \<Rightarrow> b | None \<Rightarrow> False))"

fun dimension_of :: "IDimension \<Rightarrow> DimensionExpression" where
  "dimension_of (IDimension k i a p ds t f) =
     (if k = ''constant'' then DConstant (the a)
      else if k = ''input_axis'' then DInputAxis (the i) (the a)
      else if k = ''minimum'' then DMinimum (map dimension_of ds)
      else DSelect (the p) (the (map_option dimension_of t)) (the (map_option dimension_of f)))"

lemma read_dimension_dict:
  "same_json (dimension_dict d) w \<Longrightarrow> dimension_ok d \<Longrightarrow> read_dimension w = Inr (dimension_of d)"
proof (induction d arbitrary: w)
  case (IDimension k i a p ds t f)
  show ?case
  proof (rule same_obj[OF IDimension.prems(1)[unfolded dimension_dict.simps]], goal_cases)
    case (1 d g)
    have keys: "exact_keys d DIMENSION_FIELDS = Inr ()" by (rule exact_keysI[OF 1(2)]) (auto simp: DIMENSION_FIELDS_def)
    have items: "item_of d ''kind'' = Inr (jstr k)" "item_of d ''input'' = Inr (jopt JInt i)" "item_of d ''axis'' = Inr (jopt JInt a)"
      "item_of d ''scalar'' = Inr (jopt JInt p)"
      using 1(3) by (simp_all add: same_leaf del: same_json.simps)
    have nested: "item_of d ''operands'' = Inr (g ''operands'')" "same_json (jlist dimension_dict ds) (g ''operands'')"
      "item_of d ''when_true'' = Inr (g ''when_true'')" "same_json (jopt dimension_dict t) (g ''when_true'')"
      "item_of d ''when_false'' = Inr (g ''when_false'')" "same_json (jopt dimension_dict f) (g ''when_false'')"
      using 1(3) by (simp_all add: jlist_def jopt_def comp_def del: same_json.simps split: option.splits)
    consider (const) n where "k = ''constant''" "a = Some n"
      | (axis) m n where "k = ''input_axis''" "i = Some m" "a = Some n"
      | (minimum) "k = ''minimum''" "list_all dimension_ok ds"
      | (select) m x y where "k = ''select''" "p = Some m" "t = Some x" "f = Some y" "dimension_ok x" "dimension_ok y"
      using IDimension.prems(2) by (auto split: option.splits)
    then show ?case
    proof cases
      case const
      then show ?thesis using keys items
        by (simp add: read_dimension.simps 1(1) object_of_def read_field_def string_at_jstr integer_at_def jopt_def)
    next
      case axis
      then show ?thesis using keys items
        by (simp add: read_dimension.simps 1(1) object_of_def read_field_def string_at_jstr integer_at_def jopt_def text_of_inj)
    next
      case minimum
      obtain ws where ws: "g ''operands'' = JList ws" "list_all2 (\<lambda>x. same_json (dimension_dict x)) ds ws"
        using nested(2) by (auto simp: same_jlist)
      have "emap read_dimension ws = Inr (map dimension_of ds)"
        by (rule emap_list_all2[OF ws(2)]) (use IDimension.IH(1) minimum(2) in \<open>auto simp: list_all_iff\<close>)
      then show ?thesis using keys items nested(1) ws(1) minimum(1)
        by (simp add: read_dimension.simps[of "JObject d"] 1(1) object_of_def read_field_def string_at_jstr array_at_def text_of_inj)
    next
      case select
      have "read_dimension (g ''when_true'') = Inr (dimension_of x)" "read_dimension (g ''when_false'') = Inr (dimension_of y)"
        using IDimension.IH(2,3) nested(4,6) select by (simp_all add: same_jopt)
      then show ?thesis using keys items nested(3,5) select
        by (simp add: read_dimension.simps[of "JObject d"] 1(1) object_of_def read_field_def string_at_jstr integer_at_def jopt_def text_of_inj)
    qed
  qed
qed

definition dtype_ok :: "IDType \<Rightarrow> bool" where
  "dtype_ok d \<longleftrightarrow>
     (dt_kind d = ''input'' \<and> dt_input d \<noteq> None) \<or> (dt_kind d = ''fixed'' \<and> dt_value d \<noteq> None \<and> dt_value d \<noteq> Some []) \<or>
     (dt_kind d = ''promote_tensor_scalar'' \<and> dt_input d \<noteq> None \<and> dt_scalar d \<noteq> None) \<or>
     (dt_kind d = ''variable'' \<and> dt_variable d \<noteq> None \<and> dt_variable d \<noteq> Some [])"

definition dtype_of :: "IDType \<Rightarrow> DTypeExpression" where
  "dtype_of d =
     (if dt_kind d = ''input'' then TInput (the (dt_input d))
      else if dt_kind d = ''fixed'' then TFixed (the (dt_value d))
      else if dt_kind d = ''promote_tensor_scalar'' then TPromote (the (dt_input d)) (the (dt_scalar d))
      else TVariable (the (dt_variable d)))"

lemma read_dtype_dict:
  assumes "same_json (dtype_dict d) w" "dtype_ok d"
  shows "read_dtype w = Inr (dtype_of d)"
proof (rule same_obj[OF assms(1)[unfolded dtype_dict_def]], goal_cases)
  case (1 e g)
  have var: "key ''variable'' \<in> fst ` set e" by (simp add: 1(2) key_inj)
  have keys: "exact_keys e {''input'', ''kind'', ''scalar'', ''value'', ''variable''} = Inr ()"
    by (rule exact_keysI[OF 1(2)]) auto
  have items: "item_of e ''kind'' = Inr (jstr (dt_kind d))" "item_of e ''input'' = Inr (jopt JInt (dt_input d))"
    "item_of e ''scalar'' = Inr (jopt JInt (dt_scalar d))" "item_of e ''value'' = Inr (jopt jstr (dt_value d))"
    "item_of e ''variable'' = Inr (jopt jstr (dt_variable d))"
    using 1(3) by (simp_all add: same_leaf del: same_json.simps)
  consider i where "dt_kind d = ''input''" "dt_input d = Some i" | t where "dt_kind d = ''fixed''" "dt_value d = Some t" "t \<noteq> []"
    | i j where "dt_kind d = ''promote_tensor_scalar''" "dt_input d = Some i" "dt_scalar d = Some j"
    | t where "dt_kind d = ''variable''" "dt_variable d = Some t" "t \<noteq> []"
    using assms(2) by (auto simp: dtype_ok_def)
  then show ?case
    by cases (use var keys items in \<open>simp_all add: read_dtype_def 1(1) object_of_def read_field_def string_at_jstr integer_at_def
        name_at_jstr jopt_def text_of_inj dtype_of_def\<close>)
qed

definition output_ok :: "IOutput \<Rightarrow> bool" where
  "output_ok x \<longleftrightarrow> io_name x \<noteq> [] \<and>
     ((io_allocation x = ''dynamic'' \<and> io_dimensions x = [] \<and> io_same_shape x = None \<and> io_dtype x = None) \<or>
      (io_allocation x = ''known'' \<and> (case io_dtype x of None \<Rightarrow> False | Some d \<Rightarrow> dtype_ok d) \<and>
       (if io_same_shape x = None then list_all dimension_ok (io_dimensions x) else io_dimensions x = [])))"

definition output_of :: "IOutput \<Rightarrow> OutputPlan" where
  "output_of x = \<lparr>pl_name = io_name x, pl_known =
     if io_allocation x = ''dynamic'' then None
     else Some \<lparr>ko_shape = (case io_same_shape x of Some i \<Rightarrow> SameShapeAsInput i | None \<Rightarrow> Dimensions (map dimension_of (io_dimensions x))),
       ko_dtype = dtype_of (the (io_dtype x))\<rparr>\<rparr>"

lemma read_dimensions: "list_all2 (\<lambda>x. same_json (dimension_dict x)) ds ws \<Longrightarrow> list_all dimension_ok ds \<Longrightarrow>
    emap read_dimension ws = Inr (map dimension_of ds)"
  by (erule emap_list_all2) (auto simp: list_all_iff intro: read_dimension_dict)

lemma read_output_dict:
  assumes "same_json (output_dict x) w" "output_ok x"
  shows "manifest_output w = Inr (output_of x)"
proof (rule same_obj[OF assms(1)[unfolded output_dict_def]], goal_cases)
  case (1 d g)
  have keys: "exact_keys d OUTPUT_FIELDS = Inr ()" by (rule exact_keysI[OF 1(2)]) (auto simp: OUTPUT_FIELDS_def)
  have items: "item_of d ''name'' = Inr (jstr (io_name x))" "item_of d ''allocation'' = Inr (jstr (io_allocation x))"
    "item_of d ''same_shape_as_input'' = Inr (jopt JInt (io_same_shape x))" "get d ''same_shape_as_input'' = jopt JInt (io_same_shape x)"
    "item_of d ''dtype'' = Inr (g ''dtype'')" "get d ''dtype'' = g ''dtype''" "same_json (jopt dtype_dict (io_dtype x)) (g ''dtype'')"
    using 1(3) by (simp_all add: same_leaf del: same_json.simps)
  obtain ws where ws: "item_of d ''dimensions'' = Inr (JList ws)" "get d ''dimensions'' = JList ws"
      "list_all2 (\<lambda>x. same_json (dimension_dict x)) (io_dimensions x) ws"
    using 1(3) by (auto simp: same_jlist simp del: same_json.simps)
  show ?case
  proof (cases "io_allocation x = ''dynamic''")
    case True
    then show ?thesis using assms(2) items ws
      by (auto simp: manifest_output_def 1(1) object_of_def keys read_field_def name_at_jstr string_at_jstr truthy_def same_jopt jopt_def
          output_ok_def output_of_def)
  next
    case False
    then obtain e where e: "io_dtype x = Some e" "dtype_ok e" "io_allocation x = ''known''"
      using assms(2) by (auto simp: output_ok_def split: option.splits)
    have dt: "read_dtype (g ''dtype'') = Inr (dtype_of e)" "g ''dtype'' \<noteq> JNull"
      using items(7) e by (auto simp: same_jopt read_dtype_dict dtype_dict_def obj_def)
    have shape: "read_shape d = Inr (case io_same_shape x of Some i \<Rightarrow> SameShapeAsInput i | None \<Rightarrow> Dimensions (map dimension_of (io_dimensions x)))"
    proof (cases "io_same_shape x")
      case None
      then have "list_all dimension_ok (io_dimensions x)" using assms(2) e by (simp add: output_ok_def)
      from read_dimensions[OF ws(3) this] None show ?thesis using items(4) ws
        by (simp add: read_shape_def read_field_def array_of_def array_at_def jopt_def)
    next
      case (Some i)
      then have "io_dimensions x = []" using assms(2) e by (simp add: output_ok_def)
      then show ?thesis using Some items ws by (simp add: read_shape_def read_field_def integer_at_def jopt_def truthy_def)
    qed
    show ?thesis using assms(2) items dt e shape
      by (simp add: manifest_output_def 1(1) object_of_def keys read_field_def name_at_jstr string_at_jstr text_of_inj output_ok_def output_of_def)
  qed
qed

lemma output_name_dict:
  assumes "same_json (output_dict x) w" "output_ok x"
  shows "output_name w = Inr (io_name x)"
proof (rule same_obj[OF assms(1)[unfolded output_dict_def]], goal_cases)
  case (1 d g)
  then show ?case using assms(2)
    by (auto simp: output_name_def 1(1) object_of_def read_field_def same_leaf name_at_jstr output_ok_def simp del: same_json.simps)
qed

section \<open>Operations\<close>

definition operation_ok :: "IOperation \<Rightarrow> bool" where
  "operation_ok p \<longleftrightarrow> ip_name p \<noteq> [] \<and> list_all tensor_ok (ip_inputs p) \<and> list_all output_ok (ip_outputs p) \<and>
     list_all scalar_ok (ip_scalars p) \<and> list_all variable_ok (ip_dtype_variables p)"

definition operation_of :: "IOperation \<Rightarrow> OperationMetadata" where
  "operation_of p = \<lparr>om_name = ip_name p, tensor_inputs = map tensor_of (ip_inputs p),
     tensor_outputs = map (\<lambda>x. \<lparr>tp_name = io_name x, tp_access = ''readOnly'', tp_dtype_variable = None, tp_dtypes = []\<rparr>) (ip_outputs p),
     scalar_parameters = map scalar_of (ip_scalars p), om_operation_id = ip_operation_id p, output_plans = map output_of (ip_outputs p),
     vjp = map_option vjp_of (ip_vjp p), internal = ip_internal p, dtype_variables = map variable_of (ip_dtype_variables p)\<rparr>"

lemma emap_dicts:
  assumes "list_all2 (\<lambda>x. same_json (f x)) xs ws" "list_all P xs" "\<And>x w. same_json (f x) w \<Longrightarrow> P x \<Longrightarrow> r w = Inr (g x)"
  shows "emap r ws = Inr (map g xs)"
  by (rule emap_list_all2[OF assms(1)]) (use assms(2,3) in \<open>simp add: list_all_iff\<close>)

lemma read_operation_dict:
  assumes "same_json (operation_dict p) w" "operation_ok p"
  shows "manifest_operation 2 w = Inr (operation_of p)"
proof (rule same_obj[OF assms(1)[unfolded operation_dict_def]], goal_cases)
  case (1 d g)
  have keys: "exact_keys d (OPERATION_FIELDS \<union> (if (2::int) = 2 then {''dtype_variables''} else {})) = Inr ()"
    by (rule exact_keysI[OF 1(2)]) (auto simp: OPERATION_FIELDS_def)
  have items: "item_of d ''name'' = Inr (jstr (ip_name p))" "item_of d ''internal'' = Inr (JBool (ip_internal p))"
    "item_of d ''id'' = Inr (JInt (ip_operation_id p))" "item_of d ''vjp'' = Inr (g ''vjp'')" "same_json (jopt vjp_dict (ip_vjp p)) (g ''vjp'')"
    using 1(3) by (simp_all add: same_leaf del: same_json.simps)
  obtain is' where i: "item_of d ''inputs'' = Inr (JList is')" "list_all2 (\<lambda>x. same_json (tensor_dict x)) (ip_inputs p) is'"
    using 1(3) by (auto simp: same_jlist simp del: same_json.simps)
  obtain os where o: "item_of d ''outputs'' = Inr (JList os)" "list_all2 (\<lambda>x. same_json (output_dict x)) (ip_outputs p) os"
    using 1(3) by (auto simp: same_jlist simp del: same_json.simps)
  obtain ss where s: "item_of d ''scalars'' = Inr (JList ss)" "list_all2 (\<lambda>x. same_json (scalar_dict x)) (ip_scalars p) ss"
    using 1(3) by (auto simp: same_jlist simp del: same_json.simps)
  obtain vs where v: "item_of d ''dtype_variables'' = Inr (JList vs)" "list_all2 (\<lambda>x. same_json (variable_dict x)) (ip_dtype_variables p) vs"
    using 1(3) by (auto simp: same_jlist simp del: same_json.simps)
  note ok = assms(2)[unfolded operation_ok_def]
  have "emap (manifest_tensor 2) is' = Inr (map tensor_of (ip_inputs p))" by (rule emap_dicts[OF i(2) _ read_tensor_dict]) (use ok in simp_all)
  moreover have "emap output_name os = Inr (map io_name (ip_outputs p))" by (rule emap_dicts[OF o(2) _ output_name_dict]) (use ok in simp_all)
  moreover have "emap manifest_output os = Inr (map output_of (ip_outputs p))" by (rule emap_dicts[OF o(2) _ read_output_dict]) (use ok in simp_all)
  moreover have "emap (manifest_scalar 2) ss = Inr (map scalar_of (ip_scalars p))" by (rule emap_dicts[OF s(2) _ read_scalar_dict]) (use ok in simp_all)
  moreover have "emap read_dtype_variable vs = Inr (map variable_of (ip_dtype_variables p))"
    by (rule emap_dicts[OF v(2) _ read_variable_dict]) (use ok in simp_all)
  ultimately show ?case using ok items read_optional_vjp[OF items(5)] i(1) o(1) s(1) v(1) keys
    by (simp add: manifest_operation_def 1(1) object_of_def read_field_def array_of_def array_at_def name_at_jstr integer_at_def boolean_at_def
        operation_of_def comp_def)
qed

definition metadata_of :: "IPlugin \<Rightarrow> int \<Rightarrow> PluginMetadata" where
  "metadata_of g fingerprint = \<lparr>pm_name = ig_name g, pm_version = ig_version g, pm_protocol_version = ig_protocol_version g,
     pm_operations = map operation_of (ig_operations g), pm_fingerprint = fingerprint, pm_metadata_version = 2\<rparr>"

end
