(* ===== verification/Manifest_Laws.thy ===== *)
theory Manifest_Laws
  imports Interface_Laws
begin

text \<open>
  The manifest the generator writes is one the runtime loads: both fingerprints in it are those the
  runtime computes from what it has read.
\<close>

section \<open>The fingerprint of the metadata\<close>

text \<open>Two documents with the same canonical text.\<close>

definition same_document :: "jval \<Rightarrow> jval \<Rightarrow> bool" where
  "same_document v w \<longleftrightarrow> same_json v w \<and> well True v \<and> well True w"

lemma encodable_text: "list_all (encodable True) (text_of s)"
proof -
  have "encodable True (of_char c)" for c :: char
  proof -
    have "(of_char c :: nat) < 256" by simp
    then show ?thesis unfolding encodable_def by linarith
  qed
  then show ?thesis by (simp add: text_of_def list_all_iff)
qed

lemma well_obj: "well True (obj items) \<longleftrightarrow> distinct (map fst items) \<and> (\<forall>(n, v) \<in> set items. well True v)"
proof -
  have "map fst (map (\<lambda>(n, v). (key n, v)) items) = map key (map fst items)" by (simp add: case_prod_unfold)
  moreover have "distinct (map key (map fst items)) \<longleftrightarrow> distinct (map fst items)"
    by (simp add: distinct_map inj_on_def key_inj)
  ultimately have "distinct (map fst (map (\<lambda>(n, v). (key n, v)) items)) \<longleftrightarrow> distinct (map fst items)" by (simp only:)
  then show ?thesis using encodable_text unfolding obj_def well.simps by (simp add: key_def case_prod_unfold)
qed

lemma agrees_obj:
  assumes "distinct (map fst xs)" "distinct (map fst ys)" "fst ` set xs = fst ` set ys"
    and "\<forall>(n, v) \<in> set xs. \<forall>(m, w) \<in> set ys. n = m \<longrightarrow> same_document v w"
  shows "same_document (obj xs) (obj ys)"
proof -
  have "well True v" if "(n, v) \<in> set xs" for n v
  proof -
    have "n \<in> fst ` set ys" using that assms(3) by force
    then show ?thesis using that assms(4) by (force simp: same_document_def)
  qed
  moreover have "well True w" if "(n, w) \<in> set ys" for n w
  proof -
    have "n \<in> fst ` set xs" using that assms(3) by force
    then show ?thesis using that assms(4) by (force simp: same_document_def)
  qed
  moreover have "same_json (obj xs) (obj ys)" using assms(3,4) by (intro same_obj_objI) (auto simp: same_document_def)
  ultimately show ?thesis using assms(1,2) by (auto simp: same_document_def well_obj)
qed

lemma agrees_list: "list_all2 same_document vs ws \<Longrightarrow> same_document (JList vs) (JList ws)"
  by (auto simp: same_document_def list_all2_conv_all_nth in_set_conv_nth)

lemma agrees_leaf:
  "same_document (jstr s) (jstr s)" "same_document (JInt i) (JInt i)" "same_document (JBool b) (JBool b)" "same_document JNull JNull"
  by (simp_all add: same_document_def jstr_def encodable_text)

lemma agrees_jlist: "(\<And>x. x \<in> set xs \<Longrightarrow> same_document (f x) (g x)) \<Longrightarrow> same_document (jlist f xs) (jlist g xs)"
  unfolding jlist_def by (rule agrees_list) (simp add: list_all2_conv_all_nth)

lemma agrees_jopt: "(\<And>y. x = Some y \<Longrightarrow> same_document (f y) (g y)) \<Longrightarrow> same_document (jopt f x) (jopt g x)"
  by (cases x) (simp_all add: jopt_def agrees_leaf)

lemma agrees_strings: "same_document (jlist jstr ss) (jlist jstr ss)" "same_document (jopt jstr x) (jopt jstr x)" "same_document (jlist JInt ns) (jlist JInt ns)"
    "same_document (jopt JInt y) (jopt JInt y)"
  by (simp_all add: agrees_jlist agrees_jopt agrees_leaf)

lemma agrees_texts: "list_all (list_all (encodable True)) ss \<Longrightarrow> same_document (jlist JStr ss) (jlist JStr ss)"
  by (rule agrees_jlist) (simp add: same_document_def list_all_iff)

lemma agrees_default:
  "(case x of Some (SText t) \<Rightarrow> list_all (encodable True) t | _ \<Rightarrow> True) \<Longrightarrow> same_document (jopt sval_json x) (jopt sval_json x)"
  by (cases x; cases "the x") (simp_all add: jopt_def same_document_def)

lemma scalar_agrees: "scalar_ok s \<Longrightarrow> same_document (tool_scalar s) (scalar_document 2 (scalar_of s))"
  unfolding tool_scalar_def scalar_document_def
  by (rule agrees_obj) (auto simp: scalar_of_def scalar_ok_def agrees_strings agrees_texts agrees_default agrees_leaf)

lemma tensor_agrees: "tensor_ok t \<Longrightarrow> \<exists>v. tool_tensor t = Inr v \<and> same_document v (tensor_document 2 (tensor_of t))"
  unfolding tool_tensor_def tensor_document_def
  by (auto simp: tensor_ok_def metadata_access_def tensor_of_def agrees_strings agrees_leaf intro!: agrees_obj)

lemma vjp_agrees: "same_document (vjp_dict v) (vjp_document (vjp_of v))"
  unfolding vjp_dict_def vjp_document_def
  by (rule agrees_obj) (auto simp: vjp_of_def agrees_strings agrees_leaf)

lemma variable_agrees: "same_document (variable_dict v) (variable_document (variable_of v))"
  unfolding variable_dict_def variable_document_def
  by (rule agrees_obj) (auto simp: variable_of_def agrees_strings agrees_leaf)

lemma output_tensor_agrees:
  "same_document (tool_output_tensor x) (tensor_document 2 \<lparr>tp_name = io_name x, tp_access = ''readOnly'', tp_dtype_variable = None, tp_dtypes = []\<rparr>)"
  unfolding tool_output_tensor_def tensor_document_def
  by (rule agrees_obj) (auto simp: agrees_leaf jopt_def jlist_def intro: agrees_list)

lemma dtype_agrees: "dtype_ok d \<Longrightarrow> same_document (tool_dtype d) (dtype_document (dtype_of d))"
  unfolding tool_dtype_def dtype_ok_def
  by (auto simp: dtype_of_def jopt_def agrees_leaf intro!: agrees_obj)

lemma emap_agrees:
  assumes "\<And>x. x \<in> set xs \<Longrightarrow> \<exists>v. f x = Inr v \<and> same_document v (g x)"
  shows "\<exists>vs. emap f xs = Inr vs \<and> same_document (JList vs) (jlist g xs)"
proof -
  have "\<exists>vs. emap f xs = Inr vs \<and> list_all2 (\<lambda>v x. same_document v (g x)) vs xs" using assms
  proof (induction xs)
    case (Cons x xs)
    from Cons.prems[of x] obtain v where "f x = Inr v" "same_document v (g x)" by auto
    moreover obtain vs where "emap f xs = Inr vs" "list_all2 (\<lambda>v x. same_document v (g x)) vs xs" using Cons by auto
    ultimately show ?case by (intro exI[of _ "v # vs"]) simp
  qed simp
  then show ?thesis unfolding jlist_def by (auto intro!: agrees_list simp: list_all2_map2)
qed

lemma dimension_agrees: "dimension_ok d \<Longrightarrow> \<exists>v. tool_dimension d = Inr v \<and> same_document v (dimension_document (dimension_of d))"
proof (induction d)
  case (IDimension k i a p ds t f)
  consider (const) n where "k = ''constant''" "a = Some n"
    | (axis) m n where "k = ''input_axis''" "i = Some m" "a = Some n"
    | (minimum) "k = ''minimum''" "list_all dimension_ok ds"
    | (select) m x y where "k = ''select''" "p = Some m" "t = Some x" "f = Some y" "dimension_ok x" "dimension_ok y"
    using IDimension.prems by (auto split: option.splits)
  then show ?case
  proof cases
    case const
    then show ?thesis by (auto simp: jopt_def agrees_leaf intro!: agrees_obj)
  next
    case axis
    have "same_document (obj [(''axis'', JInt n), (''input'', JInt m)]) (obj [(''input'', JInt m), (''axis'', JInt n)])"
      by (rule agrees_obj) (auto simp: agrees_leaf)
    then show ?thesis using axis by (auto simp: jopt_def agrees_leaf intro!: agrees_obj)
  next
    case minimum
    have "\<exists>v. tool_dimension x = Inr v \<and> same_document v (dimension_document (dimension_of x))" if "x \<in> set ds" for x
      using IDimension.IH(1) that minimum(2) by (simp add: list_all_iff)
    from emap_agrees[where g = "\<lambda>x. dimension_document (dimension_of x)", OF this]
    obtain vs where "emap tool_dimension ds = Inr vs" "same_document (JList vs) (jlist (\<lambda>x. dimension_document (dimension_of x)) ds)" by blast
    then show ?thesis using minimum(1) by (auto simp: jlist_def comp_def agrees_leaf intro!: agrees_obj)
  next
    case select
    from IDimension.IH(2) select obtain yes where yes: "tool_dimension x = Inr yes" "same_document yes (dimension_document (dimension_of x))" by auto
    from IDimension.IH(3) select obtain no where no: "tool_dimension y = Inr no" "same_document no (dimension_document (dimension_of y))" by auto
    have "same_document (obj [(''scalar_parameter'', JInt m), (''when_false'', no), (''when_true'', yes)])
        (obj [(''scalar_parameter'', JInt m), (''when_true'', dimension_document (dimension_of x)), (''when_false'', dimension_document (dimension_of y))])"
      by (rule agrees_obj) (use yes no in \<open>auto simp: agrees_leaf\<close>)
    then show ?thesis using select yes no by (auto simp: jopt_def agrees_leaf intro!: agrees_obj)
  qed
qed

lemma output_agrees:
  assumes "output_ok x"
  shows "\<exists>v. tool_output x = Inr v \<and> same_document v (plan_document (output_of x))"
proof (cases "io_allocation x = ''dynamic''")
  case True
  then show ?thesis by (auto simp: tool_output_def plan_document_def output_of_def jopt_def agrees_leaf intro!: agrees_obj)
next
  case False
  then obtain e where e: "io_dtype x = Some e" "dtype_ok e" "io_allocation x = ''known''"
    using assms by (auto simp: output_ok_def split: option.splits)
  have known: "same_document shape s \<Longrightarrow> same_document (obj [(''known'', obj [(''dtype'', tool_dtype e), (''shape'', shape), (''shape_kind'', jstr kind)]), (''name'', jstr n)])
      (obj [(''name'', jstr n), (''known'', obj [(''shape_kind'', jstr kind), (''shape'', s), (''dtype'', dtype_document (dtype_of e))])])"
    for shape s kind n
    using dtype_agrees[OF e(2)] by (intro agrees_obj) (auto simp: agrees_leaf intro!: agrees_obj)
  show ?thesis
  proof (cases "io_same_shape x")
    case (Some i)
    then show ?thesis using False e known[OF agrees_leaf(2)]
      by (auto simp: tool_output_def plan_document_def output_of_def known_document_def jopt_def)
  next
    case None
    then have "\<exists>v. tool_dimension d = Inr v \<and> same_document v (dimension_document (dimension_of d))" if "d \<in> set (io_dimensions x)" for d
      using that assms e dimension_agrees by (simp add: output_ok_def list_all_iff)
    from emap_agrees[where g = "\<lambda>x. dimension_document (dimension_of x)", OF this]
    obtain vs where "emap tool_dimension (io_dimensions x) = Inr vs"
        "same_document (JList vs) (jlist (\<lambda>x. dimension_document (dimension_of x)) (io_dimensions x))" by blast
    then show ?thesis using None False e known
      by (auto simp: tool_output_def plan_document_def output_of_def known_document_def jopt_def jlist_def comp_def)
  qed
qed

lemma operation_agrees:
  assumes "operation_ok p"
  shows "\<exists>v. tool_operation p = Inr v \<and> same_document v (operation_document 2 (operation_of p))"
proof -
  note ok = assms[unfolded operation_ok_def list_all_iff]
  obtain plans where plans: "emap tool_output (ip_outputs p) = Inr plans" "same_document (JList plans) (jlist (\<lambda>x. plan_document (output_of x)) (ip_outputs p))"
    using emap_agrees[of "ip_outputs p" tool_output "\<lambda>x. plan_document (output_of x)"] ok output_agrees by blast
  obtain ts where ts: "emap tool_tensor (ip_inputs p) = Inr ts" "same_document (JList ts) (jlist (\<lambda>t. tensor_document 2 (tensor_of t)) (ip_inputs p))"
    using emap_agrees[of "ip_inputs p" tool_tensor "\<lambda>t. tensor_document 2 (tensor_of t)"] ok tensor_agrees by blast
  have ss: "same_document (jlist tool_scalar (ip_scalars p)) (jlist (\<lambda>s. scalar_document 2 (scalar_of s)) (ip_scalars p))"
    using ok by (intro agrees_jlist scalar_agrees) blast
  have os: "same_document (jlist tool_output_tensor (ip_outputs p))
      (jlist (\<lambda>x. tensor_document 2 \<lparr>tp_name = io_name x, tp_access = ''readOnly'', tp_dtype_variable = None, tp_dtypes = []\<rparr>) (ip_outputs p))"
    by (rule agrees_jlist) (rule output_tensor_agrees)
  have vs: "same_document (jlist variable_dict (ip_dtype_variables p)) (jlist (\<lambda>v. variable_document (variable_of v)) (ip_dtype_variables p))"
    by (rule agrees_jlist) (rule variable_agrees)
  have y: "same_document (jopt vjp_dict (ip_vjp p)) (jopt vjp_document (map_option vjp_of (ip_vjp p)))"
    by (cases "ip_vjp p") (simp_all add: jopt_def agrees_leaf vjp_agrees)
  show ?thesis
    unfolding tool_operation_def operation_document_def
    using plans(1) ts(1) by (simp, intro agrees_obj)
      (use plans(2) ts(2) ss os vs y in \<open>auto simp: operation_of_def agrees_leaf jlist_def comp_def\<close>)
qed

lemma envelope_agrees:
  assumes "list_all operation_ok (ig_operations g)"
  shows "\<exists>ops. emap tool_operation (ig_operations g) = Inr ops \<and>
    same_document (tool_envelope g ops) (envelope (encoding_of 2) (metadata_document (metadata_of g n)))"
proof -
  obtain ops where ops: "emap tool_operation (ig_operations g) = Inr ops"
      "same_document (JList ops) (jlist (\<lambda>p. operation_document 2 (operation_of p)) (ig_operations g))"
    using emap_agrees[of "ig_operations g" tool_operation "\<lambda>p. operation_document 2 (operation_of p)"] assms operation_agrees
    by (auto simp: list_all_iff)
  have "same_document (tool_envelope g ops) (envelope (encoding_of 2) (metadata_document (metadata_of g n)))"
    unfolding tool_envelope_def envelope_def metadata_document_def encoding_of_def
    using ops(2) by (intro agrees_obj) (auto simp: agrees_leaf metadata_of_def jlist_def comp_def intro!: agrees_obj)
  with ops(1) show ?thesis by blast
qed

lemma fingerprint_agrees:
  assumes "tool_metadata_fingerprint fr sha g = Inr n" "list_all operation_ok (ig_operations g)"
  shows "plugin_fingerprint fr sha (metadata_of g m) = Inr n"
proof -
  obtain ops where ops: "emap tool_operation (ig_operations g) = Inr ops"
      "same_document (tool_envelope g ops) (envelope (encoding_of 2) (metadata_document (metadata_of g m)))"
    using envelope_agrees[OF assms(2), of m] by blast
  from assms(1) ops(1) obtain t data where t: "dumps fr True (tool_envelope g ops) = Inr t" "utf8_encode t = Inr data"
      "n = from_big_endian (take 8 (sha data))"
    by (auto simp: tool_metadata_fingerprint_def ebind_eq_Inr)
  have "dumps fr True (envelope (encoding_of 2) (metadata_document (metadata_of g m))) = Inr t"
    using dumps_same[OF t(1)] ops(2) by (simp add: same_document_def)
  then show ?thesis using t(2,3) by (simp add: plugin_fingerprint_def canonical_metadata_bytes_def metadata_of_def)
qed

section \<open>Hexadecimal\<close>

lemma hex_digit_char: "n < 16 \<Longrightarrow> hex_char (hex_digit n)"
  by (auto simp: hex_char_def hex_digit_def)

lemma hex_digits_chars: "length (hex_digits k n) = k \<and> list_all hex_char (hex_digits k n)"
  by (induction k arbitrary: n) (simp_all add: hex_digit_char)

lemma hex_value_digits: "hex_value (hex_digits k n) = int (n mod 16 ^ k)"
proof (induction k arbitrary: n)
  case (Suc k)
  have digit: "int (if hex_digit d \<le> 57 then hex_digit d - 48 else hex_digit d - 87) = int d" if "d < 16" for d
    using that by (simp add: hex_digit_def)
  have "hex_value (hex_digits (Suc k) n) = hex_value (hex_digits k (n div 16)) * 16 + int (n mod 16)"
    using digit[of "n mod 16"] by (simp add: hex_value_def)
  also have "\<dots> = int (n div 16 mod 16 ^ k) * 16 + int (n mod 16)" by (simp only: Suc)
  also have "\<dots> = int (n mod 16 ^ Suc k)" by (simp add: mod_mult2_eq)
  finally show ?case .
qed (simp add: hex_value_def)

lemma from_big_endian_bound: "0 \<le> from_big_endian bs \<and> from_big_endian bs < 256 ^ length bs"
proof (induction bs rule: rev_induct)
  case (snoc b bs)
  have "0 \<le> uint b \<and> uint b < 256" using uint_lt2p[of b] by simp
  with snoc show ?case by (simp add: from_big_endian_def)
qed (simp add: from_big_endian_def)

lemma metadata_fingerprint_text:
  assumes "n = from_big_endian (take 8 bs)"
  shows "metadata_fingerprint_at (JStr (text_of ''0x'' @ hex_digits 16 (nat n))) = Inr n"
proof -
  have "n < 256 ^ length (take 8 bs)" "0 \<le> n" using from_big_endian_bound[of "take 8 bs"] assms by simp_all
  moreover have "(256::int) ^ length (take 8 bs) \<le> 256 ^ 8" by (intro power_increasing) auto
  ultimately have "nat n mod 16 ^ 16 = nat n" "0 \<le> n" by simp_all
  then show ?thesis using hex_digits_chars[of 16 "nat n"] hex_value_digits[of 16 "nat n"]
    by (simp add: metadata_fingerprint_at_def string_at_def text_of_def)
qed

lemma hex_of_syntax:
  assumes "length bs = 32"
  shows "fingerprint_syntax (text_of ''sha256:'' @ hex_of bs)"
proof -
  have "length (hex_of bs) = 2 * length bs" by (induction bs) (simp_all add: hex_of_def)
  moreover have "hex_digit (unat b div 16) \<in> {48..57} \<union> {97..102}" "hex_digit (unat b mod 16) \<in> {48..57} \<union> {97..102}" for b :: byte
  proof -
    have "unat b < 2 ^ LENGTH(8)" by (rule unsigned_less)
    then have "unat b div 16 < 16" by (simp add: div_less_iff_less_mult)
    then show "hex_digit (unat b div 16) \<in> {48..57} \<union> {97..102}" by (auto simp: hex_digit_def)
    have "unat b mod 16 < 16" by simp
    then show "hex_digit (unat b mod 16) \<in> {48..57} \<union> {97..102}" by (auto simp: hex_digit_def)
  qed
  then have "list_all (\<lambda>c. (48 \<le> c \<and> c \<le> 57) \<or> (97 \<le> c \<and> c \<le> 102)) (hex_of bs)"
    by (induction bs) (simp_all add: hex_of_def)
  ultimately show ?thesis using assms by (simp add: fingerprint_syntax_def text_of_def)
qed

section \<open>Reading a generated manifest\<close>

lemma same_filtered:
  assumes "same_json (obj (xs @ ys)) (JObject d)" "fst ` set xs \<inter> E = {}" "fst ` set ys \<subseteq> E"
  shows "same_json (obj xs) (JObject (filter (\<lambda>(k, v). k \<notin> key ` E) d))"
proof -
  have keys: "fst ` set d = key ` (fst ` set xs \<union> fst ` set ys)"
    using assms(1) by (simp add: obj_def image_image case_prod_unfold image_Un)
  have all: "\<forall>(k, v) \<in> set (map (\<lambda>(n, v). (key n, v)) (xs @ ys)). \<forall>(l, x) \<in> set d. k = l \<longrightarrow> same_json v x"
    using assms(1) unfolding obj_def by simp
  have same: "same_json v x" if "(n, v) \<in> set xs" "(key n, x) \<in> set d" for n v x
  proof -
    have "(key n, v) \<in> set (map (\<lambda>(n, v). (key n, v)) (xs @ ys))" using that(1) by force
    then show ?thesis using all that(2) by blast
  qed
  have "fst ` set (filter (\<lambda>(k, v). k \<notin> key ` E) d) = {k \<in> fst ` set d. k \<notin> key ` E}" by force
  also have "\<dots> = key ` fst ` set xs" unfolding keys using assms(2,3) by (auto simp: key_inj)
  finally have "fst ` set (filter (\<lambda>(k, v). k \<notin> key ` E) d) = key ` fst ` set xs" .
  then show ?thesis using same by (auto simp: obj_def image_image case_prod_unfold)
qed

lemma well_filtered: "well True (JObject d) \<Longrightarrow> well True (JObject (filter P d))"
  by (auto simp: distinct_map_filter)

lemma well_part: "well True (obj (xs @ ys)) \<Longrightarrow> well True (obj xs)"
  by (auto simp: well_obj)

lemma keys_with_optionalI:
  "fst ` set d = key ` A \<Longrightarrow> required \<subseteq> A \<Longrightarrow> A \<subseteq> required \<union> optional \<Longrightarrow> keys_with_optional d required optional = Inr ()"
  by (auto simp: keys_with_optional_def reject_def)

lemma read_lifecycle_dict:
  assumes "item_of d ''lifecycle'' = Inr v" "same_json (lifecycle_dict l) v" "key ''lifecycle'' \<in> fst ` set d"
  shows "read_lifecycle d = Inr (il_initialize l, il_shutdown l)"
proof (rule same_obj[OF assms(2)[unfolded lifecycle_dict_def]], goal_cases)
  case (1 e g)
  have "exact_keys e {''initialize'', ''shutdown''} = Inr ()" by (rule exact_keysI[OF 1(2)]) auto
  then show ?case using 1(3) assms(1,3)
    by (simp add: read_lifecycle_def 1(1) read_field_def object_of_def boolean_at_def same_leaf del: same_json.simps)
qed

lemma capabilities_fit: "uint64_at (JInt (startup_capabilities g)) = Inr (startup_capabilities g)"
  by (simp add: startup_capabilities_def uint64_at_def integer_at_def)

lemma unchecked_validation:
  "validate_plugin_metadata e False (metadata_of g n) = validate_plugin_metadata e' False (metadata_of g m)"
  by (simp add: validate_plugin_metadata_def metadata_of_def Let_def)

lemma checked_validation:
  assumes "validate_plugin_metadata e False (metadata_of g n) = Inr ()"
  shows "validate_plugin_metadata (\<lambda>_. n) True (metadata_of g n) = Inr ()"
  using assms by (auto simp: validate_plugin_metadata_def metadata_of_def Let_def reject_def ebind_eq_Inr split: if_splits)

lemma validated_metadata:
  assumes "validate_plugin_metadata (\<lambda>_. 0) False (metadata_of g 0) = Inr ()" "plugin_fingerprint fr sha (metadata_of g n) = Inr n"
  shows "validate_plugin fr sha (metadata_of g n) = Inr ()"
proof -
  have "validate_plugin_metadata (\<lambda>_. 0) False (metadata_of g n) = Inr ()" using assms(1) unchecked_validation by metis
  with checked_validation[OF this] assms(2) show ?thesis by (simp add: validate_plugin_def)
qed

definition interface_ok :: "IPlugin \<Rightarrow> bool" where
  "interface_ok g \<longleftrightarrow> ig_format_version g = 2 \<and> ig_abi_version g = ABI_VERSION \<and> ig_protocol_version g = PROTOCOL_VERSION \<and>
     ig_name g \<noteq> [] \<and> ig_version g \<noteq> [] \<and> ig_worker g \<noteq> [] \<and> ig_deployment_root g \<noteq> [] \<and>
     ig_python_provider g \<noteq> Some [] \<and> ig_bundled_namespace g \<noteq> Some [] \<and> list_all operation_ok (ig_operations g) \<and>
     (case ig_configuration g of None \<Rightarrow> True | Some c \<Rightarrow> ic_schema_version c = 1)"

definition manifest_items :: "IPlugin \<Rightarrow> ustr \<Rightarrow> int \<Rightarrow> jval \<Rightarrow> (string \<times> jval) list" where
  "manifest_items g fingerprint metadata configuration =
     [(''deployment'', deployment_document g), (''generator'', jstr ''wmfs-tool/2''), (''controlAbiVersion'', JInt 1),
      (''interfaceFingerprint'', JStr (text_of ''sha256:'' @ fingerprint)),
      (''metadataFingerprint'', JStr (text_of ''0x'' @ hex_digits 16 (nat metadata))),
      (''operationCount'', JInt (int (length (ig_operations g)))), (''startupCapabilities'', JInt (startup_capabilities g)),
      (''configuration'', configuration)]"

lemma generate_Inr:
  assumes "generate fr sha g = Inr document"
  obtains t data n c where "dumps fr True (interface_document g) = Inr t" "utf8_encode t = Inr data"
    "tool_metadata_fingerprint fr sha g = Inr n" "configuration_manifest fr sha (ig_configuration g) = Inr c"
    "document = obj (interface_items g @ manifest_items g (hex_of (sha data)) n c)"
  using assms by (auto simp: generate_def manifest_document_def manifest_items_def ebind_eq_Inr Let_def)

lemma interface_digest:
  assumes "same_json (obj (interface_items g @ manifest_items g f n c)) (JObject d)" "well True (obj (interface_items g @ manifest_items g f n c))"
    and "well True (JObject d)" "dumps fr True (interface_document g) = Inr t" "utf8_encode t = Inr data"
    and "item_of d ''interfaceFingerprint'' = Inr (JStr (text_of ''sha256:'' @ hex_of (sha data)))" "length (sha data) = 32"
  shows "validate_interface_fingerprint fr sha d = Inr (sha data)"
proof -
  have "same_json (interface_document g) (interface_source d)" unfolding interface_document_def interface_source_def
    by (rule same_filtered[OF assms(1)]) (auto simp: interface_items_def manifest_items_def FINGERPRINT_EXCLUDED_def)
  moreover have "well True (interface_document g)" unfolding interface_document_def using assms(2) by (rule well_part)
  moreover have "well True (interface_source d)" unfolding interface_source_def using assms(3) by (rule well_filtered)
  ultimately have "dumps fr True (interface_source d) = Inr t" by (rule dumps_same[OF assms(4)])
  moreover have "text_of ''sha256:'' @ hex_of (sha data) \<noteq> []" "drop 7 (text_of ''sha256:'' @ hex_of (sha data)) = hex_of (sha data)"
    by (simp_all add: text_of_def)
  ultimately show ?thesis using assms(5,6) hex_of_syntax[OF assms(7)]
    by (simp add: validate_interface_fingerprint_def read_field_def string_at_def)
qed

lemma generated_header:
  assumes "same_json (obj (interface_items g @ manifest_items g f n c)) (JObject d)" "interface_ok g"
    and "validate_interface_fingerprint fr sha d = Inr digest"
  obtains items where "list_all2 (\<lambda>x. same_json (operation_dict x)) (ig_operations g) items" 
    "check_header fr sha 2 d = Inr ((il_initialize (ig_lifecycle g), il_shutdown (ig_lifecycle g)), 1, items, digest, startup_capabilities g)"
proof (rule same_obj[OF assms(1)], goal_cases)
  case (1 d' v)
  then have d': "d' = d" by simp
  note keys = 1(3)[unfolded d' interface_items_def manifest_items_def]
  note items = 1(4)[unfolded d' interface_items_def manifest_items_def]
  obtain ops where ops: "item_of d ''operations'' = Inr (JList ops)" "list_all2 (\<lambda>x. same_json (operation_dict x)) (ig_operations g) ops"
    using items by (auto simp: same_jlist simp del: same_json.simps)
  have leaves: "item_of d ''abiVersion'' = Inr (JInt ABI_VERSION)" "item_of d ''protocolVersion'' = Inr (JInt PROTOCOL_VERSION)"
    "item_of d ''generator'' = Inr (jstr ''wmfs-tool/2'')" "item_of d ''controlAbiVersion'' = Inr (JInt 1)"
    "item_of d ''operationCount'' = Inr (JInt (int (length ops)))" "item_of d ''startupCapabilities'' = Inr (JInt (startup_capabilities g))"
    "item_of d ''lifecycle'' = Inr (v ''lifecycle'')" "same_json (lifecycle_dict (ig_lifecycle g)) (v ''lifecycle'')"
    using items assms(2) list_all2_lengthD[OF ops(2)] by (simp_all add: interface_ok_def same_leaf del: same_json.simps)
  have "keys_with_optional d (MANIFEST_FIELDS \<union> {''controlAbiVersion'', ''enums''}) {''configuration'', ''lifecycle'', ''startupCapabilities''} = Inr ()"
    by (rule keys_with_optionalI[OF keys]) (auto simp: MANIFEST_FIELDS_def)
  moreover have "key ''lifecycle'' \<in> fst ` set d" "key ''startupCapabilities'' \<in> fst ` set d" by (simp_all add: keys)
  moreover have "jstr ''wmfs-tool/2'' = JStr (text_of ''wmfs-tool/'' @ int_repr 2)"
    by (simp add: jstr_def text_of_def int_repr_def decimal.simps)
  ultimately show thesis using leaves ops(1) read_lifecycle_dict[OF leaves(7,8)] assms(3) capabilities_fit[of g]
    by (intro 1(1)[OF ops(2)]) (simp add: check_header_def require_equal_def read_field_def integer_at_def array_at_def reject_def)
qed

lemma generated_metadata:
  assumes "same_json (obj (interface_items g @ manifest_items g f n c)) (JObject d)" "interface_ok g"
    and "list_all2 (\<lambda>x. same_json (operation_dict x)) (ig_operations g) items"
    and "tool_metadata_fingerprint fr sha g = Inr n" "validate_plugin_metadata (\<lambda>_. 0) False (metadata_of g 0) = Inr ()"
  shows "read_metadata fr sha 2 d items = Inr (metadata_of g n)"
proof (rule same_obj[OF assms(1)], goal_cases)
  case (1 d' v)
  then have d': "d' = d" by simp
  note top = 1(3)[unfolded d' interface_items_def manifest_items_def]
  have ops: "emap (manifest_operation 2) items = Inr (map operation_of (ig_operations g))"
    by (rule emap_dicts[OF assms(3) _ read_operation_dict]) (use assms(2) in \<open>simp_all add: interface_ok_def\<close>)
  obtain data where n: "n = from_big_endian (take 8 (sha data))" using assms(4) by (auto simp: tool_metadata_fingerprint_def ebind_eq_Inr)
  have fp: "read_field metadata_fingerprint_at d ''metadataFingerprint'' = Inr n"
    using top metadata_fingerprint_text[OF n] by (simp add: read_field_def same_leaf del: same_json.simps)
  have valid: "validate_plugin fr sha (metadata_of g n) = Inr ()"
    using validated_metadata[OF assms(5)] fingerprint_agrees[OF assms(4)] assms(2) by (simp add: interface_ok_def)
  have plugin: "item_of d ''plugin'' = Inr (v ''plugin'')"
    "same_json (obj [(''name'', jstr (ig_name g)), (''namespace'', jstr (ig_namespace g)), (''pythonModule'', jstr (ig_python_module g)),
       (''version'', jstr (ig_version g))]) (v ''plugin'')"
    using top by (simp_all del: same_json.simps)
  show ?case
  proof (rule same_obj[OF plugin(2)], goal_cases)
    case (1 p q)
    have "exact_keys p {''name'', ''namespace'', ''pythonModule'', ''version''} = Inr ()" by (rule exact_keysI[OF 1(2)]) auto
    moreover have "read_field name_at p ''name'' = Inr (ig_name g)" "read_field name_at p ''version'' = Inr (ig_version g)"
      using 1(3) assms(2) by (simp_all add: read_field_def same_leaf name_at_jstr interface_ok_def del: same_json.simps)
    ultimately show ?case using ops fp valid plugin(1) 1(1) assms(2)
      by (simp add: read_metadata_def read_field_def[of object_of] object_of_def metadata_of_def interface_ok_def Let_def)
  qed
qed

lemma optional_field_present:
  assumes "fst ` set e = key ` A" "name \<in> A \<longleftrightarrow> x \<noteq> None" "\<And>y. x = Some y \<Longrightarrow> item_of e name = Inr (f y)" "\<And>y. x = Some y \<Longrightarrow> r (f y) = Inr y"
  shows "optional_field r e name = Inr x"
  using assms by (cases x) (auto simp: optional_field_def key_mem read_field_def)

lemma generated_deployment:
  assumes "same_json (deployment_document g) w" "interface_ok g"
  obtains e where "w = JObject e" "keys_with_optional e {''root'', ''worker''} {''localProvider'', ''bundledNamespace'', ''entrySymbol''} = Inr ()"
    "read_field string_at e ''root'' = Inr (ig_deployment_root g)" "read_field string_at e ''worker'' = Inr (ig_worker g)"
    "optional_field name_at e ''localProvider'' = Inr (ig_python_provider g)"
    "optional_field name_at e ''bundledNamespace'' = Inr (ig_bundled_namespace g)"
    "optional_field string_at e ''entrySymbol'' = Inr (Some (text_of (''wmfs_'' @ lower (ig_namespace g) @ ''_plugin_get_api'')))"
proof (rule same_obj[OF assms(1)[unfolded deployment_document_def]], goal_cases)
  case (1 e v)
  note keys = 1(3) and items = 1(4)
  have ok: "ig_deployment_root g \<noteq> []" "ig_worker g \<noteq> []" "ig_python_provider g \<noteq> Some []" "ig_bundled_namespace g \<noteq> Some []"
    using assms(2) by (simp_all add: interface_ok_def)
  have symbol: "item_of e ''entrySymbol'' = Inr (jstr (''wmfs_'' @ lower (ig_namespace g) @ ''_plugin_get_api''))"
    "item_of e ''root'' = Inr (JStr (ig_deployment_root g))" "item_of e ''worker'' = Inr (JStr (ig_worker g))"
    using items by (simp_all add: same_leaf del: same_json.simps)
  have "keys_with_optional e {''root'', ''worker''} {''localProvider'', ''bundledNamespace'', ''entrySymbol''} = Inr ()"
    by (rule keys_with_optionalI[OF keys]) (auto simp: present_def split: option.splits)
  moreover have "optional_field name_at e ''localProvider'' = Inr (ig_python_provider g)"
  proof (rule optional_field_present[OF keys, where f = jstr])
    show "item_of e ''localProvider'' = Inr (jstr y)" if "ig_python_provider g = Some y" for y
      using items that by (simp add: present_def same_leaf del: same_json.simps)
  qed (use ok in \<open>cases "ig_python_provider g"; cases "ig_bundled_namespace g"; simp add: present_def name_at_jstr\<close>)+
  moreover have "optional_field name_at e ''bundledNamespace'' = Inr (ig_bundled_namespace g)"
  proof (rule optional_field_present[OF keys, where f = jstr])
    show "item_of e ''bundledNamespace'' = Inr (jstr y)" if "ig_bundled_namespace g = Some y" for y
      using items that by (simp add: present_def same_leaf del: same_json.simps)
  qed (use ok in \<open>cases "ig_python_provider g"; cases "ig_bundled_namespace g"; simp add: present_def name_at_jstr\<close>)+
  moreover have "key ''entrySymbol'' \<in> fst ` set e" by (simp add: keys)
  ultimately show thesis using ok symbol
    by (intro 1(1)[OF 1(2)]) (simp_all add: read_field_def string_at_def[of "JStr _"] optional_field_def string_at_jstr)
qed

section \<open>Its configuration\<close>

text \<open>The runtime accepts the schema and its examples; the fingerprint is not part of it.\<close>

definition configuration_accepted :: "jval \<Rightarrow> bool" where
  "configuration_accepted w \<longleftrightarrow>
     (case w of JObject e \<Rightarrow>
        (case (get e ''schema'', get e ''examples'') of
           (JObject s, JObject x) \<Rightarrow> validate_schema s True = Inr () \<and> (\<forall>(k, v) \<in> set x. k \<noteq> KStr [] \<and> validate_value v s = Inr ())
         | _ \<Rightarrow> True)
      | _ \<Rightarrow> True)"

lemma well_get: "well True (JObject d) \<Longrightarrow> item_of d n = Inr v \<Longrightarrow> well True v"
  by (auto simp: item_of_def or_raise_eq dest!: map_of_SomeD)

lemma well_item: "well True (obj items) \<Longrightarrow> (n, v) \<in> set items \<Longrightarrow> well True v"
  by (auto simp: well_obj)

lemma generated_configuration:
  assumes gen: "configuration_manifest fr sha (Some c) = Inr doc" and same: "same_json doc w" and wells: "well True doc" "well True w"
    and version: "ic_schema_version c = 1" and accepted: "configuration_accepted w" and digest: "\<forall>b. length (sha b) = 32"
  shows "\<exists>r. parse_configuration_metadata fr (\<lambda>b. hex_of (sha b)) name w = Inr (Some r)"
proof -
  obtain schema t data where s: "configuration_schema c = Inr schema"
      and t: "dumps fr True (obj [(''encoding'', JStr ENCODING), (''schema'', schema)]) = Inr t" "utf8_encode t = Inr data"
      and doc: "doc = obj [(''encoding'', JStr ENCODING), (''examples'', dict_of (ic_examples c)),
        (''fingerprint'', JStr (text_of ''sha256:'' @ hex_of (sha data))), (''schema'', schema), (''schemaVersion'', JInt (ic_schema_version c))]"
    using gen by (auto simp: configuration_manifest_def tool_configuration_fingerprint_def ebind_eq_Inr)
  show ?thesis
  proof (rule same_obj[OF same[unfolded doc]], goal_cases)
    case (1 e v)
    have leaves: "get e ''encoding'' = JStr ENCODING" "get e ''schemaVersion'' = JInt 1"
      "get e ''fingerprint'' = JStr (text_of ''sha256:'' @ hex_of (sha data))"
      "item_of e ''schema'' = Inr (v ''schema'')" "get e ''schema'' = v ''schema''" "same_json schema (v ''schema'')"
      "get e ''examples'' = v ''examples''" "same_json (dict_of (ic_examples c)) (v ''examples'')"
      "item_of e ''examples'' = Inr (v ''examples'')"
      using 1(3) version by (simp_all add: same_leaf del: same_json.simps)
    obtain items where items: "schema = obj items" using s by (auto simp: configuration_schema_def ebind_eq_Inr)
    then obtain sf where sf: "v ''schema'' = JObject sf" using leaves(6) by (cases "v ''schema''") (auto simp: obj_def)
    obtain x where x: "v ''examples'' = JObject x" using leaves(8) by (cases "v ''examples''") (auto simp: dict_of_def)
    have valid: "validate_schema sf True = Inr ()" "\<forall>(k, u) \<in> set x. k \<noteq> KStr [] \<and> validate_value u sf = Inr ()"
      using accepted leaves(5,7) sf x by (simp_all add: configuration_accepted_def 1(1))
    have wx: "well True (JObject x)" "well True (JObject sf)"
      using wells(2) leaves(4,9) x sf well_get unfolding 1(1) by metis+
    have wsch: "well True schema" using wells(1) unfolding doc by (rule well_item[where n = "''schema''"]) simp
    have enc: "well True (JStr ENCODING)" by (simp add: ENCODING_def encodable_text)
    have "same_json (obj [(''encoding'', JStr ENCODING), (''schema'', schema)]) (obj [(''encoding'', JStr ENCODING), (''schema'', JObject sf)])"
      using leaves(6) sf by (intro same_obj_objI) auto
    moreover have "well True (obj [(''encoding'', JStr ENCODING), (''schema'', schema)])"
        "well True (obj [(''encoding'', JStr ENCODING), (''schema'', JObject sf)])"
      using enc wsch wx(2) by (simp_all add: well_obj del: well.simps)
    ultimately have "dumps fr True (obj [(''encoding'', JStr ENCODING), (''schema'', JObject sf)]) = Inr t"
      by (rule dumps_same[OF t(1)])
    then have canonical: "schema_text fr sf = Inr t" by (simp only: schema_text_def obj_def list.map prod.case)
    have named: "eall (\<lambda>(name, u). if (case name of KStr s \<Rightarrow> s = [] | KOther _ \<Rightarrow> True) then Inl (ValueError ''examples names must be non-empty strings'')
        else validate_value u sf) x = Inr ()"
      using valid(2) wx(1) by (fastforce simp: eall_eq_Inr split: jkey.splits)
    have keys: "keys_optional e (key ` {''encoding'', ''examples'', ''fingerprint'', ''schema'', ''schemaVersion''})
        (key ` {''encoding'', ''examples'', ''fingerprint'', ''schema'', ''schemaVersion''}) = Inr ()"
      using 1(2) by (simp add: keys_optional_def reject_def)
    show ?case using leaves sf x valid(1) canonical t(2) named keys hex_of_syntax[of "sha data"] digest
      by (simp add: parse_configuration_metadata_def 1(1) object_of_def Let_def del: eall.simps)
  qed
qed

section \<open>Loading\<close>

text \<open>What the runtime reads from the manifest of an interface.\<close>

definition manifest_of :: "'l \<Rightarrow> IPlugin \<Rightarrow> int \<Rightarrow> bytes \<Rightarrow> ConfigurationMetadata option \<Rightarrow> 'l PluginManifest" where
  "manifest_of disabled g fingerprint digest configuration =
     \<lparr>mf_name = ig_name g, mf_metadata = metadata_of g fingerprint, mf_configuration = configuration,
      mf_configuration_bytes = EMPTY_CONFIGURATION_BYTES, mf_python_provider = ig_python_provider g,
      mf_bundled_namespace = ig_bundled_namespace g, mf_has_initialize = il_initialize (ig_lifecycle g),
      mf_has_shutdown = il_shutdown (ig_lifecycle g), mf_logging = disabled, pf_version = text_of (ig_version g), pf_schema_path = None,
      pf_interface = None, pf_worker = ig_worker g, pf_root = ig_deployment_root g,
      pf_entry_symbol = Some (text_of (''wmfs_'' @ lower (ig_namespace g) @ ''_plugin_get_api'')), pf_interface_fingerprint = digest,
      pf_startup_capabilities = startup_capabilities g, pf_format_version = 2, pf_control_abi_version = 1\<rparr>"

lemma generated_manifest:
  assumes gen: "generate fr sha g = Inr document" and same: "same_json document (JObject d)"
    and wells: "well True document" "well True (JObject d)"
    and ok: "interface_ok g" and valid: "validate_plugin_metadata (\<lambda>_. 0) False (metadata_of g 0) = Inr ()"
    and accepted: "configuration_accepted (get d ''configuration'')"
    and digest: "\<forall>b. length (sha b) = 32" and root: "is_dir (ig_deployment_root g)"
  shows "\<exists>fingerprint digest configuration. load_manifest fr sha is_dir is_file disabled (JObject d) =
    Inr (manifest_of disabled g fingerprint digest configuration) \<and> (configuration = None \<longleftrightarrow> ig_configuration g = None) \<and>
    plugin_fingerprint fr sha (metadata_of g fingerprint) = Inr fingerprint"
proof -
  obtain t data n c where t: "dumps fr True (interface_document g) = Inr t" "utf8_encode t = Inr data"
    and n: "tool_metadata_fingerprint fr sha g = Inr n" and c: "configuration_manifest fr sha (ig_configuration g) = Inr c"
    and doc: "document = obj (interface_items g @ manifest_items g (hex_of (sha data)) n c)"
    by (rule generate_Inr[OF gen])
  note same' = same[unfolded doc]
  have top: "get d ''formatVersion'' = JInt 2" "get d ''configuration'' = v ''configuration''" "same_json c (v ''configuration'')"
      "item_of d ''configuration'' = Inr (v ''configuration'')"
      "item_of d ''interfaceFingerprint'' = Inr (JStr (text_of ''sha256:'' @ hex_of (sha data)))"
      "item_of d ''deployment'' = Inr (v ''deployment'')" "same_json (deployment_document g) (v ''deployment'')"
    if "\<forall>(n, x) \<in> set (interface_items g @ manifest_items g (hex_of (sha data)) n c). item_of d n = Inr (v n) \<and> get d n = v n \<and> same_json x (v n)" for v
    using that ok by (simp_all add: interface_items_def manifest_items_def interface_ok_def same_leaf del: same_json.simps)
  show ?thesis
  proof (rule same_obj[OF same'], goal_cases)
    case (1 d' v)
    then have v: "\<forall>(n, x) \<in> set (interface_items g @ manifest_items g (hex_of (sha data)) n c). item_of d n = Inr (v n) \<and> get d n = v n \<and> same_json x (v n)"
      by simp
    note top = top[OF v]
    have wells': "well True (obj (interface_items g @ manifest_items g (hex_of (sha data)) n c))" using wells(1) by (simp only: doc)
    have fp: "validate_interface_fingerprint fr sha d = Inr (sha data)"
      using interface_digest[where sha = sha, OF same' wells' wells(2) t top(5)] digest by blast
    obtain items where items: "list_all2 (\<lambda>x. same_json (operation_dict x)) (ig_operations g) items"
      and header: "check_header fr sha 2 d = Inr ((il_initialize (ig_lifecycle g), il_shutdown (ig_lifecycle g)), 1, items, sha data, startup_capabilities g)"
      by (rule generated_header[OF same' ok fp])
    have metadata: "read_metadata fr sha 2 d items = Inr (metadata_of g n)" by (rule generated_metadata[OF same' ok items n valid])
    obtain r where r: "parse_configuration_metadata fr (\<lambda>b. hex_of (sha b)) (ig_name g) (v ''configuration'') = Inr r"
      "r = None \<longleftrightarrow> ig_configuration g = None"
    proof (cases "ig_configuration g")
      case None
      then have "v ''configuration'' = JNull" using c top(3) by (simp add: configuration_manifest_def)
      then show ?thesis using None by (intro that[of None]) (simp_all add: parse_configuration_metadata_def)
    next
      case (Some k)
      have "well True c" using wells' by (rule well_item[where n = "''configuration''"]) (simp add: manifest_items_def)
      moreover have "well True (v ''configuration'')" using well_get[OF wells(2) top(4)] .
      ultimately obtain r' where "parse_configuration_metadata fr (\<lambda>b. hex_of (sha b)) (ig_name g) (v ''configuration'') = Inr (Some r')"
        using generated_configuration[of fr sha k c "v ''configuration''" "ig_name g"] c Some top(2,3) accepted digest ok
        by (auto simp: interface_ok_def)
      then show ?thesis using Some by (intro that[of "Some r'"]) simp_all
    qed
    obtain e where e: "v ''deployment'' = JObject e" "keys_with_optional e {''root'', ''worker''} {''localProvider'', ''bundledNamespace'', ''entrySymbol''} = Inr ()"
      "read_field string_at e ''root'' = Inr (ig_deployment_root g)" "read_field string_at e ''worker'' = Inr (ig_worker g)"
      "optional_field name_at e ''localProvider'' = Inr (ig_python_provider g)"
      "optional_field name_at e ''bundledNamespace'' = Inr (ig_bundled_namespace g)"
      "optional_field string_at e ''entrySymbol'' = Inr (Some (text_of (''wmfs_'' @ lower (ig_namespace g) @ ''_plugin_get_api'')))"
      by (rule generated_deployment[OF top(7) ok])
    have "load_manifest fr sha is_dir is_file disabled (JObject d) = Inr (manifest_of disabled g n (sha data) r)"
      using header metadata r(1) e root top(1,2,6)
      by (simp add: load_manifest_def object_of_def[of "JObject _"] integer_at_def manifest_of_def metadata_of_def read_field_def[of object_of])
    moreover have "plugin_fingerprint fr sha (metadata_of g n) = Inr n"
      using fingerprint_agrees[OF n] ok by (simp add: interface_ok_def)
    ultimately show ?case using r(2) by (intro exI[of _ n] exI[of _ "sha data"] exI[of _ r] conjI)
  qed
qed

section \<open>Documents that can be written\<close>

fun dumpable :: "jval \<Rightarrow> bool" where
  "dumpable (JInt i) \<longleftrightarrow> length (decimal (nat \<bar>i\<bar>)) \<le> 4300"
| "dumpable (JFloat w) \<longleftrightarrow> float_finite w"
| "dumpable (JList vs) \<longleftrightarrow> (\<forall>v \<in> set vs. dumpable v)"
| "dumpable (JObject kvs) \<longleftrightarrow> (\<forall>(k, v) \<in> set kvs. (case k of KStr t \<Rightarrow> True | KOther _ \<Rightarrow> False) \<and> dumpable v)"
| "dumpable (JOther n) \<longleftrightarrow> False"
| "dumpable v \<longleftrightarrow> True"

definition is_ascii :: "ustr \<Rightarrow> bool" where
  "is_ascii s \<longleftrightarrow> list_all (\<lambda>c. c < 128) s"

lemma ascii_simps [simp]: "is_ascii []" "is_ascii (c # s) \<longleftrightarrow> c < 128 \<and> is_ascii s" "is_ascii (s @ t) \<longleftrightarrow> is_ascii s \<and> is_ascii t"
  by (simp_all add: is_ascii_def)

lemma hex_digit_ascii: "hex_digit (n mod 16) < 128"
  by (simp add: hex_digit_def) (use mod_less_divisor[of 16 n] in linarith)

lemma u_escape_ascii: "is_ascii (u_escape n)"
  unfolding u_escape_def ascii_simps using hex_digit_ascii by simp

lemma escape_ascii: "is_ascii (escape_char True c)"
  by (auto simp: escape_char_def u_escape_ascii)

lemma quote_ascii: "is_ascii (quote True s)"
  by (induction s) (simp_all add: quote_def escape_ascii)

lemma commas_ascii: "\<forall>s \<in> set ss. is_ascii s \<Longrightarrow> is_ascii (commas ss)"
  by (induction ss rule: commas.induct) auto

lemma int_repr_ascii: "is_ascii (int_repr i)"
  using int_repr_chars[of i] by (auto simp: is_ascii_def list_all_iff)

lemma emap_ascii: "\<forall>x \<in> set xs. \<exists>y. f x = Inr y \<and> P y \<Longrightarrow> \<exists>ys. emap f xs = Inr ys \<and> (\<forall>y \<in> set ys. P y)"
  by (induction xs) fastforce+

lemma dumps_total:
  assumes "\<forall>w. float_finite w \<longrightarrow> is_ascii (fr w)"
  shows "dumpable v \<Longrightarrow> \<exists>s. dumps fr True v = Inr s \<and> is_ascii s"
proof (induction v)
  case (JInt i)
  then show ?case by (simp add: int_text_def int_repr_ascii)
next
  case (JList vs)
  then have "\<exists>ss. emap (dumps fr True) vs = Inr ss \<and> (\<forall>s \<in> set ss. is_ascii s)" by (intro emap_ascii) auto
  then show ?case using commas_ascii by auto
next
  case (JObject kvs)
  define item where "item = (\<lambda>(k, v). case k of KOther _ \<Rightarrow> Inl OutsideModel | KStr t \<Rightarrow> ebind (dumps fr True v) (\<lambda>s. Inr (t, s)))"
  have "\<exists>p. item x = Inr p \<and> is_ascii (snd p)" if mem: "x \<in> set kvs" for x
  proof -
    obtain k v where x: "x = (k, v)" by (cases x)
    then have "dumpable v" using JObject.prems mem by auto
    then obtain s where "dumps fr True v = Inr s" "is_ascii s" using JObject.IH[OF mem, of v] x by auto
    moreover obtain t where "k = KStr t" using JObject.prems mem x by (cases k) auto
    ultimately show ?thesis by (simp add: item_def x)
  qed
  then obtain ts where ts: "emap item kvs = Inr ts" "\<forall>p \<in> set ts. is_ascii (snd p)" using emap_ascii[of kvs item "\<lambda>p. is_ascii (snd p)"] by blast
  have "\<forall>s \<in> set (map (\<lambda>(t, s). quote True t @ [58] @ s) (sort_key fst ts)). is_ascii s" using ts(2) by (auto simp: quote_ascii)
  then have "is_ascii (commas (map (\<lambda>(t, s). quote True t @ [58] @ s) (sort_key fst ts)))" by (rule commas_ascii)
  then show ?case using ts(1) by (simp add: item_def)
qed (use assms in \<open>simp_all add: quote_ascii, simp_all add: text_of_def\<close>)

lemma utf8_ascii: "is_ascii s \<Longrightarrow> \<exists>data. utf8_encode s = Inr data"
  by (induction s) (auto simp: utf8_char_def)

lemma written:
  assumes "\<forall>w. float_finite w \<longrightarrow> is_ascii (fr w)" "dumpable v"
  obtains s data where "dumps fr True v = Inr s" "utf8_encode s = Inr data"
  using dumps_total[OF assms] utf8_ascii by blast

lemma dumpable_obj: "dumpable (obj items) \<longleftrightarrow> (\<forall>(n, v) \<in> set items. dumpable v)"
  by (auto simp: obj_def key_def)

lemma same_json_refl: "well True v \<Longrightarrow> same_json v v"
proof (induction v)
  case (JObject kvs)
  have "same_json v w" if "(k, v) \<in> set kvs" "(k, w) \<in> set kvs" for k v w
  proof -
    have "w = v" using JObject.prems that by (auto dest: eq_key_imp_eq_value)
    then show ?thesis using JObject that(1) by fastforce
  qed
  then show ?case by auto
qed (auto simp: list_all2_conv_all_nth)

lemma ascii_encodable: "is_ascii s \<Longrightarrow> list_all (encodable True) s"
  by (auto simp: is_ascii_def list_all_iff encodable_def)

lemma hex_ascii: "is_ascii (hex_of bs)" "is_ascii (hex_digits k n)"
proof -
  show "is_ascii (hex_of bs)"
  proof (induction bs)
    case (Cons b bs)
    have "unat b < 2 ^ LENGTH(8)" by (rule unsigned_less)
    then have "unat b div 16 mod 16 = unat b div 16" by (simp add: div_less_iff_less_mult)
    then show ?case using Cons hex_digit_ascii[of "unat b div 16"] hex_digit_ascii[of "unat b"] by (simp add: hex_of_def)
  qed (simp add: hex_of_def)
  show "is_ascii (hex_digits k n)" by (induction k arbitrary: n) (simp_all add: hex_digit_ascii)
qed

end
