(* ===== verification/Spec2Isabelle.thy ===== *)
theory Spec2Isabelle
  imports Ring_Fifo Ring_Protocol Backend_Laws Invocation_Path Configuration_Laws Bundled Log_Laws Logger_Laws Manifest_Laws
begin

text \<open>
  WMFS runs operations on tensors in worker processes. The runtime (\<open>src/packages/wmfs/wmfs\<close>)
  keeps tensors in shared memory, sends a worker the descriptors of that memory over a control
  socket and the invocations over a pair of shared-memory rings; the worker's side is the SDK
  (\<open>src/packages/wmfs-plugin/wmfs_plugin\<close>). This development models the program as Isabelle
  functions and step relations and proves what each part promises the others.

  \<^bold>\<open>Conventions.\<close> An exception is a value of \<open>pyerr\<close>, a fallible function returns
  \<open>pyerr + 'a\<close> (\<open>result\<close>), a method that changes state is a function of type \<open>('s, 'a) st\<close>
  from the state to the result and the new state (State_Result): a raise keeps the state reached.
  Python's integers are \<open>int\<close>; numbers in packets and records are encoded at their width by
  Struct_Format, which raises outside the range as \<open>struct\<close> does. Dictionaries are maps, or
  association lists where their order is visible. Threads are the steps of a step relation at
  the granularity of the source's locks. The kernel, torch, SHA-256, the plugins' providers and the
  native extension are arguments. Messages of exceptions are templates without the interpolated parts.

  \<^bold>\<open>Bytes and values.\<close> Prelude (results, byte buffers), Struct_Format (\<open>struct\<close>: little-endian
  packing, round trips, exact inverses), Utf8 (\<open>str.encode\<close> and \<open>bytes.decode\<close>), Json and Json_Laws
  (JSON values and \<open>json.dumps\<close>: the text determines the value).

  \<^bold>\<open>Control protocol.\<close> Control_Protocol and Control_Laws are \<open>wmfs/protocol/control.py\<close>: frame, startup,
  descriptor batch, acknowledgement and error packets; encoder and decoder are exact inverses
  (C1, C2). Sdk_Control is the worker's copy \<open>wmfs_plugin/control.py\<close>
  (C3). Control_Channel is \<open>recvmsg_strict\<close>/\<open>sendmsg_strict\<close> over the process's
  descriptor table (C4, C5, and theorem second_ancillary_message_leaks).

  \<^bold>\<open>Ring.\<close> Ring_Record and Ring_Laws are the 16 KiB record of \<open>wmfs/transport/ring.py\<close>
  (C6), Sdk_Ring the worker's copy (C3). Ring_Channel is
  \<open>RingOwner\<close> and \<open>RingEndpoint\<close> on the bytes of the mapping; Ring_Fifo shows they are a FIFO
  (C7, C8). Ring_Protocol is the same protocol as a step relation of
  two processes and a closer, one step per access to shared memory (C9,
  C10).

  \<^bold>\<open>Memory.\<close> Arena (the free list), Buffer_Manager (\<open>wmfs/memory/buffers.py\<close>: regions, handles,
  allocation, collection, retirement, caching), with invariants over all reachable states in
  Buffer_Pool and Buffer_Arena, retirement in Buffer_Retire and views in Buffer_Views
  (C11-C16). Buffer_Access is the queue of access
  reservations with the threads that wait in it (C17, C18); an
  interrupted waiter removes the first equal one, which can strand another thread (C19). Fd_Transport is the worker's
  \<open>fd_transport.py\<close>: mapped buffers and the descriptor thread; Fd_Laws and Fd_Views are its laws
  (C26, C27).

  \<^bold>\<open>Invocation.\<close> Metadata (\<open>protocol/metadata.py\<close> and its validation), Output_Planning
  (\<open>output_metadata.py\<close>, C20-C21), Invocation
  (\<open>invocation.py\<close>, C22, C23), Autograd (\<open>autograd.py\<close>,
  C24), Registry (\<open>registry.py\<close>, C25).

  \<^bold>\<open>Workers and sessions.\<close> Worker_Invocation is the worker's ring thread (\<open>worker.py\<close>,
  \<open>invocation.py\<close> of the SDK): compiled handlers, the context of an operation, the completion of each
  command; Worker_Laws are its laws. Worker_Session is \<open>WorkerSession\<close> of \<open>worker_process.py\<close>: lifecycle and
  invocation; Session_Laws say how an invocation ends (C29) and Invocation_Path joins the two
  ends (C28). Isolated_Backend is \<open>backends/isolated.py\<close> as a step relation of its
  threads, with Backend_Laws (C30, C31).

  \<^bold>\<open>Configuration and runtime.\<close> Configuration is \<open>configuration.py\<close>: the interpreter of configuration
  schemas and canonical bytes, with Configuration_Laws (C35,
  C36). Runtime is \<open>runtime.py\<close>: each locked section as a function on the state and
  the threads as a step relation; Runtime_Laws keep the count of work, the catalog and its generation
  (C32) and the order of closing (C33, C34).
  Their contract with the backends is the locale \<open>runtime_backends\<close>; Bundled is
  \<open>backends/bundled.py\<close> (C37) and interprets it.

  \<^bold>\<open>Logging.\<close> Log_Codec is the packet of a log record, of \<open>logging.py\<close> and of the SDK's \<open>log_codec.py\<close>, with
  Log_Laws (C38). Logger is \<open>AsyncLogger\<close> and \<open>InProcessLogger\<close> as a step relation of callers and
  sender, with Logger_Laws (C39).

  \<^bold>\<open>Manifests.\<close> Metadata_Document is the canonical form of metadata and its fingerprint
  (\<open>protocol/metadata.py\<close>), Plugin_Manifest is \<open>plugins.py\<close>: the reader of manifests and discovery. Interface
  is the tool's model (\<open>wmfs_tool/model.py\<close>) and the documents its generator writes. Interface_Laws reads each
  document back, and Manifest_Laws compares the documents the two programs hash
  (C40).

  \<^bold>\<open>Bounds.\<close> The loops that wait (\<open>push\<close>, \<open>pop\<close>) take the list of memories the peer leaves at each
  wait and return \<open>None\<close> only when the list ends; everything else is structural recursion or has a
  size measure. Closing a backend is bounded by the measure \<open>rank\<close> of its threads. Python's limit on
  the depth of recursion is not modelled.

  \<^bold>\<open>Not modelled.\<close> \<open>benchmark.py\<close> (measurement only), the C++ and Python texts of
  \<open>wmfs_tool/generator.py\<close> (templates whose meaning is that of the code they make), \<open>wmfs_tool/parser.py\<close>
  (what it ensures is the predicate \<open>interface_ok\<close>), the SDK's \<open>metadata.py\<close>, the public functions of
  \<open>api.py\<close>, \<open>operations.py\<close> and \<open>tensors.py\<close>, the sinks and the collector of log records, the native extension, the start of worker processes (\<open>spawn\<close>,
  sockets and process reaping), timing metrics, reference counting of mappings, and \<open>mmap\<close>,
  \<open>eventfd\<close>, sockets and torch beyond what the arguments state.
\<close>

section \<open>Control protocol\<close>

text \<open>C1: A startup packet is accepted exactly when it is the encoding of the message returned:
  the decoder inverts the encoder and accepts no other packet.\<close>

theorem startup_codec:
  "decode_startup response packet = Inr (rid, s) \<longleftrightarrow> encode_startup response rid s = Inr packet"
  using startup.dec_iff_enc[of response packet "(rid, s)"] by (simp add: enc_startup_def)

text \<open>The same for a batch of descriptor entries, the message that maps and retires shared
  buffers.\<close>

theorem fd_batch_codec:
  "decode_fd_batch packet = Inr (rid, batch) \<longleftrightarrow> encode_fd_batch rid batch = Inr packet"
  using fd_batch.dec_iff_enc[of packet "(rid, batch)"] by (simp add: enc_fd_batch_def)

text \<open>C2: The same for a batch of descriptor entries, the message that maps and retires shared
  buffers, for its acknowledgement and for the error response.\<close>

theorem reply_codecs:
  "(decode_fd_batch packet'' = Inr (rid'', batch) \<longleftrightarrow> encode_fd_batch rid'' batch = Inr packet'') \<and>
   (decode_fd_ack packet = Inr (rid, a) \<longleftrightarrow> encode_fd_ack rid a = Inr packet) \<and>
   (decode_error packet' = Inr (rid', e) \<longleftrightarrow> encode_error rid' e = Inr packet')"
  using fd_ack.dec_iff_enc[of packet "(rid, a)"] error_response.dec_iff_enc[of packet' "(rid', e)"]
  by (simp add: enc_fd_ack_def enc_error_def fd_batch_codec)

text \<open>C3: The SDK's copies of the control protocol and of the ring record codec accept and produce the
  same packets and records as the runtime's.\<close>

theorem sdk_control_parity:
  "value_of (sdk_encode_startup response rid s) = value_of (encode_startup response rid s) \<and>
   value_of (sdk_decode_startup response packet) = value_of (decode_startup response packet) \<and>
   value_of (sdk_encode_fd_batch rid b) = value_of (encode_fd_batch rid b) \<and>
   value_of (sdk_decode_fd_batch packet) = value_of (decode_fd_batch packet) \<and>
   value_of (sdk_encode_fd_ack rid a) = value_of (encode_fd_ack rid a) \<and>
   value_of (sdk_decode_fd_ack packet) = value_of (decode_fd_ack packet) \<and>
   value_of (sdk_encode_error rid e) = value_of (encode_error rid e) \<and>
   value_of (sdk_decode_error packet) = value_of (decode_error packet) \<and>
   sdk_ring_encode record = ring_encode record \<and> sdk_ring_decode data generation = ring_decode data generation"
  using sdk_encode_startup_parity sdk_decode_startup_parity sdk_encode_fd_batch_parity
    sdk_decode_fd_batch_parity sdk_encode_fd_ack_parity sdk_decode_fd_ack_parity
    sdk_encode_error_parity sdk_decode_error_parity
  by (simp add: sdk_ring_encode_eq sdk_ring_decode_eq)

text \<open>C4: When receiving a packet with at most one ancillary message fails, for whatever reason, every
  descriptor the kernel installed is closed and no other descriptor changes, in both copies. (With a
  second ancillary message they stay open: theorem second_ancillary_message_leaks.)\<close>

theorem failed_receive_leaks_nothing:
  assumes "length anc \<le> 1"
    and "recvmsg_strict (Inr (packet, anc, flags)) t = (Inl e, t') \<or>
         sdk_recvmsg_strict (Inr (packet, anc, flags)) t = (Inl e, t')"
  shows "dom t' = dom t - set (received_fds anc) \<and> (\<forall>d. d \<notin> set (received_fds anc) \<longrightarrow> t' d = t d)"
proof -
  from assms(2) show ?thesis
  proof
    assume r: "recvmsg_strict (Inr (packet, anc, flags)) t = (Inl e, t')"
    show ?thesis
      using channel.none_left_open[OF r assms(1)] channel.others_untouched[OF r assms(1)] by blast
  next
    assume r: "sdk_recvmsg_strict (Inr (packet, anc, flags)) t = (Inl e, t')"
    show ?thesis
      using sdk_channel.none_left_open[OF r assms(1)] sdk_channel.others_untouched[OF r assms(1)] by blast
  qed
qed

theorem failed_receive_leaks_nothing_witness:
  defines "anc \<equiv> [(SOL_SOCKET, SCM_RIGHTS, [7, 0, 0, 0, 9, 0, 0, 0])]"
  shows "\<exists>t'. recvmsg_strict (Inr ([1], anc, 0)) [3 \<mapsto> 1, 7 \<mapsto> 0, 9 \<mapsto> 0] = (Inl (ProtocolError ''invalid control packet size''), t') \<and>
    dom t' = dom [3 \<mapsto> 1, 7 \<mapsto> 0, 9 \<mapsto> 0 :: int] - set (received_fds anc) \<and> received_fds anc = [7, 9]"
proof -
  have fds: "received_fds anc = [7, 9]"
    by (simp add: anc_def received_fds_def)
  let ?t = "[3 \<mapsto> 1, 7 \<mapsto> 0, 9 \<mapsto> 0 :: int]"
  obtain t' where r: "recvmsg_strict (Inr ([1], anc, 0)) ?t
      = (Inl (ProtocolError ''invalid control packet size''), t')"
    by (simp add: recvmsg_strict_def st_run extract_fds_def anc_def check_received_def
        decode_frame_def control_consts)
  have "length anc \<le> 1" by (simp add: anc_def)
  from failed_receive_leaks_nothing[OF this, of "[1]" 0 ?t _ t'] r fds show ?thesis by blast
qed

text \<open>C5: A packet sent with its descriptors is received as sent: when the kernel delivers one
  open descriptor per descriptor sent and truncates nothing, receiving returns the packet
  and the delivered descriptors, all close-on-exec, and leaves the others alone.\<close>

theorem sent_is_received:
  assumes "sendmsg_strict send packet ds = Inr ()"
    and "well_formed_rights anc" "length (received_fds anc) = length ds" "set (received_fds anc) \<subseteq> dom t"
  shows "recvmsg_strict (Inr (packet, anc, 0)) t =
         (Inr (packet, received_fds anc), with_cloexec (received_fds anc) t)"
  using assms by (rule send_then_receive)

theorem sent_is_received_witness:
  defines "b \<equiv> \<lparr>transfer_id = 9, batch_generation = 3, entries = [\<lparr>entry_kind = MAP, buffer_id = 4,
      entry_generation = 1, allocation_id = 0, invocation_id = 0, byte_length = 4096, entry_flags = 1\<rparr>]\<rparr>"
    and "anc \<equiv> [(SOL_SOCKET, SCM_RIGHTS, [9, 0, 0, 0])]"
  shows "\<exists>packet. encode_fd_batch 1 b = Inr packet \<and>
    recvmsg_strict (Inr (packet, anc, 0)) [9 \<mapsto> 0] = (Inr (packet, [9]), with_cloexec [9] [9 \<mapsto> 0])"
proof -
  obtain packet where p: "encode_fd_batch 1 b = Inr packet"
    by (simp add: b_def encode_fd_batch_def encode_fd_entry_def u64_def control_consts control_fmts
        fd_count_def encode_frame_def flag_defs fits_def err_simps)
  have one: "fd_count b = 1" by (simp add: b_def fd_count_def)
  obtain f where f: "decode_frame packet = Inr f" "expected_fd_count f packet = Inr 1"
    using batch_declares[OF p] one by metis
  have fds: "well_formed_rights anc" "received_fds anc = [9]"
    by (simp_all add: anc_def well_formed_rights_def received_fds_def)
  have s: "sendmsg_strict (\<lambda>p a. Inr (length p)) packet [5] = Inr ()"
    using f by (simp add: sendmsg_strict_def i32_bytes_def control_consts)
  have l: "length (received_fds anc) = length [5 :: int]" "set (received_fds anc) \<subseteq> dom [9 \<mapsto> 0 :: int]"
    by (simp_all add: fds)
  show ?thesis
    using p sent_is_received[OF s fds(1) l] fds(2) by auto
qed

section \<open>Shared ring\<close>

text \<open>A small invocation record, used by the instances below.\<close>

definition sample_record :: Record where
  "sample_record = \<lparr>r_kind = 1, r_generation = 7, r_submission_id = 12, r_invocation_id = 3, r_operation_id = 5,
      r_status = 0, r_flags = 1, r_tensors = [], r_scalars = [\<lparr>s_parameter = 2, s_kind = ''int64'', s_value = SInt (-5)\<rparr>],
      r_outputs = [\<lparr>o_output = 0, o_shape = [2, 3], o_dtype = ''float32''\<rparr>],
      r_profile = [0, 0, 0, 0, 0, 0, 0, 0], r_error_type = [], r_error_message = []\<rparr>"

lemma sample_record_facts: "canonical_record sample_record" "r_generation sample_record = 7"
  by (simp_all add: sample_record_def canonical_record_def sfits_def)

lemma sample_record_encodes:
  obtains data where "ring_encode sample_record = Inr data"
proof -
  obtain dims where dims: "pack DIMS_fmt (dims16 [2, 3]) = Inr dims" "length dims = 128"
    using dims_pack[of "[2, 3]"] by (auto simp: sfits_def)
  obtain prof where prof: "pack PROFILE_fmt (map VI [0, 0, 0, 0, 0, 0, 0, 0]) = Inr prof" "length prof = 64"
    using profile_pack[of "[0, 0, 0, 0, 0, 0, 0, 0]"] by (auto simp: fits_def)
  show thesis
    using dims prof that
    by (simp add: sample_record_def ring_encode_def pack_into_eq RECORD_HEADER_fmt_def ring_consts write_scalar_def
        scalar_payload_def SCALAR_TO_ID_def SCALAR_HEAD_fmt_def write_output_def DTYPE_TO_ID_def
        OUTPUT_HEAD_fmt_def write_error_def ERROR_HEAD_fmt_def fits_def Let_def)
qed

text \<open>C6: Decoding an encoded ring record under its own generation returns the record, when its
  scalars hold values of their kinds and its error text fits the record.\<close>

theorem ring_record_roundtrip:
  assumes "ring_encode r = Inr data" "canonical_record r"
  shows "ring_decode data (r_generation r) = Inr r"
  using assms by (rule ring_decode_encode)

theorem ring_record_roundtrip_witness:
  "\<exists>data. ring_encode sample_record = Inr data \<and> ring_decode data 7 = Inr sample_record"
proof -
  obtain data where d: "ring_encode sample_record = Inr data" by (rule sample_record_encodes)
  show ?thesis using ring_record_roundtrip[OF d sample_record_facts(1)] sample_record_facts(2) d by auto
qed

text \<open>The SDK's copy of the record codec encodes and decodes exactly as the runtime's does,
  errors included.\<close>

theorem sdk_ring_parity:
  "sdk_ring_encode r = ring_encode r \<and> sdk_ring_decode data gen = ring_decode data gen"
  by (simp add: sdk_ring_encode_eq sdk_ring_decode_eq)

lemma fresh_ring:
  obtains m where "ring_owner 2 (Some 7) 0 = Inr (m, 7)"
proof -
  have "\<exists>h. pack HEADER_fmt [VI RING_MAGIC, VI RING_ABI_MAJOR, VI RING_ABI_MINOR, VI (int HEADER_SIZE),
         VI (int RECORD_SIZE), VI 2, VI 1, VI 7] = Inr h \<and> length h = 40"
    by (simp add: HEADER_fmt_def RING_MAGIC_def RING_ABI_MAJOR_def RING_ABI_MINOR_def HEADER_SIZE_def
        RECORD_SIZE_def fits_def)
  then show thesis
    using that by (fastforce simp: ring_owner_def pack_into_eq HEADER_SIZE_def RECORD_SIZE_def Let_def)
qed

text \<open>C7: A ring delivers in order, without loss or duplication: over any sequence of puts and gets,
  what was delivered followed by what is still in the ring is what was there at first followed by
  what was accepted, each decoded; and the ring stays well formed. The sequence may be as long as
  the 64-bit counters have room for (\<open>ring_headroom\<close>): at their wrap-around the code raises.\<close>

theorem ring_keeps_order:
  assumes "fifo_run (push_once (fst (peers cap gen))) (pop_once (snd (peers cap gen))) ops m
      = (accepted, delivered, m')"
    and "ring_inv cap m" "\<And>x. Put x \<in> set ops \<Longrightarrow> length x = RECORD_SIZE"
    and "length ops \<le> ring_headroom m"
  shows "ring_inv cap m' \<and>
    map Inr delivered @ ring_items cap gen m'
      = ring_items cap gen m @ map (\<lambda>payload. ring_decode payload gen) accepted"
  using ring_fifo.run_in_order[OF assms] .

theorem ring_keeps_order_witness:
  "\<exists>m a d m'. ring_owner 2 (Some 7) 0 = Inr (m, 7) \<and>
     fifo_run (push_once (fst (peers 2 7))) (pop_once (snd (peers 2 7)))
       [Put (replicate RECORD_SIZE 0), Get, Put (replicate RECORD_SIZE 1)] m = (a, d, m') \<and>
     ring_inv 2 m' \<and> map Inr d @ ring_items 2 7 m' = map (\<lambda>payload. ring_decode payload 7) a"
proof -
  obtain m where m: "ring_owner 2 (Some 7) 0 = Inr (m, 7)" by (rule fresh_ring)
  let ?ops = "[Put (replicate RECORD_SIZE 0), Get, Put (replicate RECORD_SIZE 1)]"
  obtain a d m' where r: "fifo_run (push_once (fst (peers 2 7))) (pop_once (snd (peers 2 7))) ?ops m = (a, d, m')"
    by (metis prod_cases3)
  have "ring_inv 2 m" "ring_items 2 7 m = []" "length ?ops \<le> ring_headroom m"
    using ring_owner_Inr(3-5)[OF m] by simp_all
  moreover have "Put x \<in> set ?ops \<Longrightarrow> length x = RECORD_SIZE" for x by auto
  ultimately show ?thesis using ring_keeps_order[OF r] m r by auto
qed

text \<open>A record pushed into an empty ring is the record the peer pops, whatever the waits
  would have brought, and the ring is empty again.\<close>

theorem pushed_record_arrives:
  assumes "ring_inv cap m" "ring_items cap gen m = []" "0 < ring_headroom m"
    and "ring_encode r = Inr data" "canonical_record r" "r_generation r = gen"
  shows "\<exists>m' m''. push (fst (peers cap gen)) r envs m = Some (Inr (), m') \<and>
    pop (snd (peers cap gen)) envs' m' = Some (Inr r, m'') \<and> ring_items cap gen m'' = []"
  using assms by (rule push_then_pop)

theorem pushed_record_arrives_witness:
  "\<exists>m m' m''. ring_owner 2 (Some 7) 0 = Inr (m, 7) \<and>
    push (fst (peers 2 7)) sample_record [] m = Some (Inr (), m') \<and>
    pop (snd (peers 2 7)) [] m' = Some (Inr sample_record, m'')"
proof -
  obtain m where m: "ring_owner 2 (Some 7) 0 = Inr (m, 7)" by (rule fresh_ring)
  obtain data where d: "ring_encode sample_record = Inr data" by (rule sample_record_encodes)
  have "ring_inv 2 m" "ring_items 2 7 m = []" "0 < ring_headroom m"
    using ring_owner_Inr(3-5)[OF m] by simp_all
  from pushed_record_arrives[OF this d sample_record_facts] m show ?thesis by blast
qed

text \<open>C8: After a close the consumer still receives what was published, then gets the error;
  nothing is delivered twice and the call always returns.\<close>

theorem closed_ring_drains:
  assumes "ring_inv cap m" "ring_closed m"
  shows "pop (snd (peers cap gen)) (env # envs) m =
    (case ring_items cap gen m of
       [] \<Rightarrow> Some (Inl (RingError ''ring is closed''), m)
     | Inl e # _ \<Rightarrow> Some (Inl e, m)
     | Inr r # _ \<Rightarrow> Some (Inr r, consumed m))"
  using assms by (rule pop_closed_drains)

theorem closed_ring_drains_witness:
  "\<exists>m. ring_owner 2 (Some 7) 0 = Inr (m, 7) \<and>
    (\<forall>env. pop (snd (peers 2 7)) [env] (ring_close m) = Some (Inl (RingError ''ring is closed''), ring_close m))"
proof -
  obtain m where m: "ring_owner 2 (Some 7) 0 = Inr (m, 7)" by (rule fresh_ring)
  have i: "ring_inv 2 m" "ring_items 2 7 m = []" using ring_owner_Inr(3,4)[OF m] by simp_all
  have "ring_inv 2 (ring_close m)" "ring_closed (ring_close m)" "ring_items 2 7 (ring_close m) = []"
    using ring_close_items[OF i(1)] i(2) by (simp_all add: ring_closed_def)
  with closed_ring_drains[of 2 "ring_close m" 7 _ "[]"] m show ?thesis by simp
qed

text \<open>A new ring is empty and open to endpoints of its generation; opening it under
  another generation fails and closes the ring for both sides.\<close>

theorem ring_opens_by_generation:
  assumes "ring_owner capacity gen random = Inr (m, g)"
  shows "g \<noteq> 0 \<and> ring_inv (nat capacity) m \<and> ring_items (nat capacity) g m = [] \<and>
    open_endpoint g' producer m =
      (if g' = g
       then (Inr \<lparr>ep_generation = g, ep_producer = producer, ep_capacity = nat capacity,
                  ep_interrupted = False, ep_closed = False\<rparr>, m)
       else (Inl (RingError ''invalid ring header''), ring_close m)) \<and>
    ring_closed (ring_close m)"
proof -
  note O = ring_owner_Inr[OF assms]
  have c: "ring_closed (ring_close m)" using ring_close_items(3)[OF O(3)] by (simp add: ring_closed_def)
  have "open_endpoint g' producer m = (Inl (RingError ''invalid ring header''), ring_close m)" if "g' \<noteq> g"
  proof -
    obtain header where h: "unpack_from HEADER_fmt (mapping m) 0 = Inr header"
      using O(6)[of producer] by (cases "unpack_from HEADER_fmt (mapping m) 0") (auto simp: open_endpoint_def st_run Let_def)
    moreover have "vint (header ! 7) = g"
      using O(6)[of producer] h by (auto simp: open_endpoint_def st_run Let_def split: if_splits)
    ultimately show ?thesis using open_endpoint_mismatch that by metis
  qed
  with O c show ?thesis by auto
qed

theorem ring_opens_by_generation_witness:
  "\<exists>m. open_endpoint 8 True m = (Inl (RingError ''invalid ring header''), ring_close m) \<and>
    ring_owner 2 (Some 7) 0 = Inr (m, 7)"
proof -
  obtain m where m: "ring_owner 2 (Some 7) 0 = Inr (m, 7)" by (rule fresh_ring)
  from ring_opens_by_generation[OF this, of 8 True] m show ?thesis by simp
qed

section \<open>Shared ring: two processes\<close>

text \<open>C9: In every interleaving of a producer, a consumer and a closer on the ring, what has been
  delivered is a prefix of what was published, at most the capacity is undelivered, and the
  producer never writes the slot the consumer is copying.\<close>

theorem interleaved_delivery:
  assumes "ring_reachable cap s"
  shows "got s = take (length (got s)) (sent s) \<and> length (sent s) \<le> length (got s) + cap \<and>
    \<not> (\<exists>x p c. ppc s = P_write x p \<and> cpc s = C_copy c \<and> p mod cap = c mod cap)"
  using delivered_prefix[OF assms] writer_reader_apart[OF assms] by blast

lemma ring_two_items:
  obtains s where "ring_reachable 2 s" "ppc s = P_write (5 :: int) 1" "cpc s = C_copy 0" "sent s = [4]"
proof -
  let ?s0 = "ring_start (\<lambda>_. 0 :: int)"
  note r0 = ring_reachable.start[of 2 "\<lambda>_. 0 :: int"]
  note r1 = ring_reachable.step[OF r0 push_call[of _ _ 4]]
  have a1: "ring_reachable 2 (?s0\<lparr>ppc := P_load_producer 4\<rparr>)" by (rule r1) (simp add: ring_start_def)
  have a2: "ring_reachable 2 (?s0\<lparr>ppc := P_load_consumer 4 0\<rparr>)"
    using ring_reachable.step[OF a1 push_load_producer[of _ 4]] by (simp add: ring_start_def)
  have a3: "ring_reachable 2 (?s0\<lparr>ppc := P_write 4 0\<rparr>)"
    using ring_reachable.step[OF a2 push_has_space[of _ 4 0]] by (simp add: ring_start_def)
  have a4: "ring_reachable 2 (?s0\<lparr>rslots := (\<lambda>_. 0)(0 := 4), ppc := P_store 4 0\<rparr>)"
    using ring_reachable.step[OF a3 push_write_done[of _ 4 0]] by (simp add: ring_start_def)
  let ?s5 = "?s0\<lparr>rslots := (\<lambda>_. 0)(0 := 4), produced := 1, sent := [4]\<rparr>"
  have a5: "ring_reachable 2 (?s5\<lparr>ppc := P_notify\<rparr>)"
    using ring_reachable.step[OF a4 push_store[of _ 4 0]] by (simp add: ring_start_def)
  have a6: "ring_reachable 2 (?s5\<lparr>data_ev := 1\<rparr>)"
    using ring_reachable.step[OF a5 push_notify] by (simp add: ring_start_def)
  let ?s6 = "?s5\<lparr>data_ev := 1\<rparr>"
  have b1: "ring_reachable 2 (?s6\<lparr>cpc := C_load_producer\<rparr>)"
    using ring_reachable.step[OF a6 pop_call] by (simp add: ring_start_def)
  have b2: "ring_reachable 2 (?s6\<lparr>cpc := C_load_consumer 1\<rparr>)"
    using ring_reachable.step[OF b1 pop_load_producer] by (simp add: ring_start_def)
  have b3: "ring_reachable 2 (?s6\<lparr>cpc := C_copy 0\<rparr>)"
    using ring_reachable.step[OF b2 pop_has_item[of _ 1]] by (simp add: ring_start_def)
  have c1: "ring_reachable 2 (?s6\<lparr>cpc := C_copy 0, ppc := P_load_producer 5\<rparr>)"
    using ring_reachable.step[OF b3 push_call[of _ _ 5]] by (simp add: ring_start_def)
  have c2: "ring_reachable 2 (?s6\<lparr>cpc := C_copy 0, ppc := P_load_consumer 5 1\<rparr>)"
    using ring_reachable.step[OF c1 push_load_producer[of _ 5]] by (simp add: ring_start_def)
  have c3: "ring_reachable 2 (?s6\<lparr>cpc := C_copy 0, ppc := P_write 5 1\<rparr>)"
    using ring_reachable.step[OF c2 push_has_space[of _ 5 1]] by (simp add: ring_start_def)
  from that[OF c3] show thesis by (simp add: ring_start_def)
qed

theorem interleaved_delivery_witness:
  "\<exists>s. ring_reachable 2 s \<and> ppc s = P_write (5 :: int) 1 \<and> cpc s = C_copy 0 \<and> sent s = [4] \<and>
     got s = take (length (got s)) [4] \<and> 1 \<le> length (got s) + 2"
proof -
  obtain s where s: "ring_reachable 2 s" "ppc s = P_write (5 :: int) 1" "cpc s = C_copy 0" "sent s = [4]"
    by (rule ring_two_items)
  from interleaved_delivery[OF s(1)] s show ?thesis by fastforce
qed

text \<open>C10: No wake-up is lost: a consumer blocked on an unset event faces an empty ring or a producer
  about to set it, a producer likewise a full ring or a consumer about to set it, a close in
  progress is about to wake them, and the two are never blocked together.\<close>

theorem no_lost_wakeup:
  assumes "ring_reachable cap s" "0 < cap"
  shows "\<not> (cpc s = C_poll \<and> data_ev s = 0 \<and> taken s \<noteq> produced s \<and> ppc s \<noteq> P_notify) \<and>
    \<not> ((\<exists>x. ppc s = P_poll x) \<and> space_ev s = 0 \<and> produced s \<noteq> taken s + cap \<and> cpc s \<noteq> C_notify) \<and>
    \<not> (cpc s = C_poll \<and> data_ev s = 0 \<and> closed_flag s \<and> kpc s \<noteq> K_wake_data) \<and>
    \<not> ((\<exists>x. ppc s = P_poll x) \<and> space_ev s = 0 \<and> closed_flag s \<and> kpc s \<notin> {K_wake_data, K_wake_space}) \<and>
    \<not> (cpc s = C_poll \<and> data_ev s = 0 \<and> (\<exists>x. ppc s = P_poll x) \<and> space_ev s = 0)"
  using blocked_consumer[OF assms(1)] blocked_producer[OF assms(1)] never_both_blocked[OF assms] by fastforce

theorem no_lost_wakeup_witness:
  "\<exists>s. ring_reachable 2 (s :: int ring) \<and> cpc s = C_poll \<and> data_ev s = 0 \<and>
     \<not> (taken s \<noteq> produced s \<and> ppc s \<noteq> P_notify) \<and> \<not> (\<exists>x. ppc s = P_poll x \<and> space_ev s = 0)"
proof -
  let ?s0 = "ring_start (\<lambda>_. 0 :: int)"
  have b1: "ring_reachable 2 (?s0\<lparr>cpc := C_load_producer\<rparr>)"
    using ring_reachable.step[OF ring_reachable.start pop_call] by (simp add: ring_start_def)
  have b2: "ring_reachable 2 (?s0\<lparr>cpc := C_load_consumer 0\<rparr>)"
    using ring_reachable.step[OF b1 pop_load_producer] by (simp add: ring_start_def)
  have b3: "ring_reachable 2 (?s0\<lparr>cpc := C_check_flag\<rparr>)"
    using ring_reachable.step[OF b2 pop_is_empty[of _ 0]] by (simp add: ring_start_def)
  have b4: "ring_reachable 2 (?s0\<lparr>cpc := C_poll\<rparr>)"
    using ring_reachable.step[OF b3 pop_open] by (simp add: ring_start_def)
  let ?s = "?s0\<lparr>cpc := C_poll\<rparr>"
  have s: "cpc ?s = C_poll" "data_ev ?s = 0" by (simp_all add: ring_start_def)
  have "0 < (2 :: nat)" by simp
  from no_lost_wakeup[OF b4 this] s show ?thesis
    by (intro exI[of _ ?s] conjI) (use b4 s in auto)
qed

section \<open>Shared memory: pooled buffers\<close>

text \<open>A manager of either mode with two live tensors, the first known to recipient 1; used by the
  instances below.\<close>

definition example_manager :: "string \<Rightarrow> Manager" where
  "example_manager mode =
     (let m0 = projr (new_manager mode (Some 256) 4 1000);
          m1 = snd (empty_tensor (\<lambda>_ _. True) (\<lambda>_. True) [5] [9] [4] ''float32'' m0);
          m2 = snd (empty_tensor (\<lambda>_ _. True) (\<lambda>_. True) [0, 5, 6] [9, 8] [2] ''int64'' m1)
      in snd (register_recipient 1 (al_buffer (the (active m1 5))) m2))"

lemmas manager_run = empty_tensor_def collect_def release_pooled_many_def allocate_pooled_def allocate_arena_def
  new_region_def bump_def ensure_current_def st_run Let_def free_pop_def set_region_def region_of_def
  ITEM_SIZES_def element_count_def contiguous_strides_def register_recipient_def new_manager_def
  ARENA_ALIGNMENT_def align_def example_manager_def

lemma example_pooled:
  "pool_reachable (example_manager ''pooled'')"
  "\<exists>a. active (example_manager ''pooled'') 5 = Some a \<and> al_buffer a =
    \<lparr>sb_region = 9, sb_generation = 1, sb_allocation_id = 5, sb_offset = 0, sb_byte_length = 16, sb_arena = False\<rparr>"
  "\<exists>b. active (example_manager ''pooled'') 6 = Some b \<and> al_buffer b =
    \<lparr>sb_region = 8, sb_generation = 1, sb_allocation_id = 6, sb_offset = 0, sb_byte_length = 16, sb_arena = False\<rparr>"
proof -
  let ?e = "empty_tensor (\<lambda>_ _. True) (\<lambda>_. True)"
  obtain m0 where n: "new_manager ''pooled'' (Some 256) 4 1000 = Inr m0"
    by (simp add: new_manager_def ARENA_ALIGNMENT_def)
  define m1 where "m1 = snd (?e [5] [9] [4] ''float32'' m0)"
  define m2 where "m2 = snd (?e [0, 5, 6] [9, 8] [2] ''int64'' m1)"
  have ex: "example_manager ''pooled'' = snd (register_recipient 1 (al_buffer (the (active m1 5))) m2)"
    by (simp add: example_manager_def n m1_def m2_def Let_def)
  have a: "\<exists>a. active m2 5 = Some a \<and> al_buffer a = al_buffer (the (active m1 5))"
    using n by (auto simp: m1_def m2_def manager_run)
  have "pool_reachable m0" by (rule p_start[OF n])
  then have "pool_reachable m1" unfolding m1_def by (rule p_step) (rule p_empty, rule prod.collapse[symmetric])
  then have r2: "pool_reachable m2" unfolding m2_def by (rule p_step) (rule p_empty, rule prod.collapse[symmetric])
  from a obtain x where "active m2 5 = Some x" "al_buffer x = al_buffer (the (active m1 5))" by blast
  then show "pool_reachable (example_manager ''pooled'')"
    unfolding ex using p_step[OF r2 p_register[of m2 5 x 1 _ "snd (register_recipient 1 (al_buffer x) m2)"]]
    by (metis prod.collapse)
qed (simp_all add: manager_run)

text \<open>C11: In a pooled manager two live allocations never share a region, no live region is cached,
  and every live handle is current.\<close>

theorem live_tensors_own_their_regions:
  assumes "pool_reachable m" "active m i = Some a" "active m j = Some b" "i \<noteq> j"
  shows "sb_region (al_buffer a) \<noteq> sb_region (al_buffer b) \<and>
    sb_region (al_buffer a) \<notin> set (concat (map snd (free_regions m))) \<and>
    ensure_current (al_buffer a) m = (Inr (), m)"
  using live_allocations_apart[OF assms] live_handle_current[OF assms(1,2)]
  by (simp add: cached_regions_def map_snd_flat)

theorem live_tensors_own_their_regions_witness:
  "\<exists>m a. pool_reachable m \<and> active m 5 = Some a \<and> active m 6 \<noteq> None \<and>
     sb_region (al_buffer a) \<noteq> sb_region (al_buffer (the (active m 6))) \<and>
     ensure_current (al_buffer a) m = (Inr (), m)"
proof -
  obtain m a b where m: "pool_reachable m" "active m 5 = Some a" "active m 6 = Some b"
    using example_pooled by blast
  from live_tensors_own_their_regions[OF this] m show ?thesis by auto
qed

text \<open>The cache of a pooled manager keeps to its limits, in buffers and in bytes, and its byte
  count is exact.\<close>

theorem cache_keeps_its_limits:
  assumes "pool_reachable m"
  shows "cached_count m \<le> max_cached_buffers m \<and> cached_bytes m \<le> max_cached_bytes m \<and>
    cached_bytes m = sum_list (map (\<lambda>(len, rids). int (length rids) * len) (free_regions m))"
  using cache_limits[OF assms] by (simp add: sum_fst_flat)

theorem cache_keeps_its_limits_witness:
  "\<exists>m. pool_reachable m \<and> active m 5 \<noteq> None \<and> cached_count m \<le> max_cached_buffers m"
proof -
  obtain m a b where m: "pool_reachable m" "active m 5 = Some a" "active m 6 = Some b"
    using example_pooled by blast
  from cache_keeps_its_limits[OF m(1)] m show ?thesis by auto
qed


lemma example_collect:
  assumes "retire = (\<lambda>r bs. ok_retire)"
  shows "\<exists>m'. collect retire (\<lambda>_. True) Explicit (storage_released 5 (example_manager ''pooled'')) = (Inr (), m')"
  by (cases ok_retire) (simp_all add: manager_run assms storage_released_def drop_active_def region_close_def
      reset_or_release_region_def region_reset_def cache_or_evict_def free_push_def cached_count_def)

lemma example_released:
  "pool_reachable (storage_released 5 (example_manager ''pooled''))"
  "5 \<in> set (released (storage_released 5 (example_manager ''pooled'')))"
  "active (storage_released 5 m) = active m" "regions (storage_released 5 m) = regions m"
  using p_step[OF example_pooled(1) p_released] by (auto simp: storage_released_def)


text \<open>C13: When a worker holding a buffer fails to retire it, the memory is closed and stays out of
  use: whatever happens later the region is neither cached nor allocated.\<close>

theorem failed_retirement_quarantines:
  assumes "pool_reachable m" "active m aid = Some a" "aid \<in> set (released m)"
    and "collect retire reset_ok src m = (Inr u, m')" "pool_step\<^sup>*\<^sup>* m' m''"
    and "r \<in> set (g_recipients (region_of (sb_region (al_buffer a)) m))" "\<And>bs. \<not> retire r bs"
  shows "sb_region (al_buffer a) \<notin> set (concat (map snd (free_regions m''))) \<and>
    \<not> (\<exists>i b. active m'' i = Some b \<and> sb_region (al_buffer b) = sb_region (al_buffer a))"
proof -
  let ?rid = "sb_region (al_buffer a)"
  have reach: "pool_reachable m''"
  proof -
    have "pool_reachable m'" using p_step[OF assms(1) p_collect[OF assms(4)]] .
    from assms(5) this show ?thesis by (induction rule: rtranclp_induct) (auto intro: p_step)
  qed
  obtain g where "regions m' ?rid = Some g" "g_closed g"
    using collect_kills(2)[OF pool_reachable_inv[OF assms(1)] assms(4,2,3,6,7)] by blast
  then have dead: "\<not> live_region m'' ?rid"
    using pool_steps_forward[OF assms(5)] by (fastforce simp: forward_def live_region_def)
  have inv: "pool_inv_with [] m''" using pool_reachable_inv[OF reach] by (simp add: pool_inv_def)
  then have "?rid \<notin> set (cached_regions m'')"
    using dead by (force simp: pool_inv_with_def cached_regions_def)
  moreover have "sb_region (al_buffer b) \<noteq> ?rid" if "active m'' i = Some b" for i b
    using inv_handle[OF inv that] dead by (auto simp: pooled_handle_def)
  ultimately show ?thesis by (auto simp: cached_regions_def map_snd_flat)
qed

theorem failed_retirement_quarantines_witness:
  "\<exists>a m'. active (example_manager ''pooled'') 5 = Some a \<and>
    collect (\<lambda>_ _. False) (\<lambda>_. True) Explicit (storage_released 5 (example_manager ''pooled'')) = (Inr (), m') \<and>
    sb_region (al_buffer a) \<notin> set (concat (map snd (free_regions m')))"
proof -
  let ?m = "storage_released 5 (example_manager ''pooled'')"
  obtain a where a: "active ?m 5 = Some a" using example_pooled(2) example_released(3) by metis
  obtain m' where c: "collect (\<lambda>_ _. False) (\<lambda>_. True) Explicit ?m = (Inr (), m')"
    using example_collect[OF refl, of False] by blast
  have "1 \<in> set (g_recipients (region_of (sb_region (al_buffer a)) ?m))"
    using a by (auto simp: manager_run storage_released_def)
  from failed_retirement_quarantines[OF example_released(1) a example_released(2) c rtranclp.rtrancl_refl this]
  show ?thesis using a c example_released(3) by metis
qed

section \<open>Shared memory: the arena\<close>

lemma example_arena:
  "arena_reachable (example_manager ''arena'')"
  "\<exists>a. active (example_manager ''arena'') 5 = Some a \<and> al_buffer a =
    \<lparr>sb_region = 9, sb_generation = 1, sb_allocation_id = 5, sb_offset = 0, sb_byte_length = 16, sb_arena = True\<rparr>"
  "\<exists>b. active (example_manager ''arena'') 6 = Some b \<and> al_buffer b =
    \<lparr>sb_region = 9, sb_generation = 1, sb_allocation_id = 6, sb_offset = 64, sb_byte_length = 16, sb_arena = True\<rparr>"
proof -
  let ?e = "empty_tensor (\<lambda>_ _. True) (\<lambda>_. True)"
  obtain m0 where n: "new_manager ''arena'' (Some 256) 4 1000 = Inr m0"
    by (simp add: new_manager_def ARENA_ALIGNMENT_def)
  define m1 where "m1 = snd (?e [5] [9] [4] ''float32'' m0)"
  define m2 where "m2 = snd (?e [0, 5, 6] [9, 8] [2] ''int64'' m1)"
  have ex: "example_manager ''arena'' = snd (register_recipient 1 (al_buffer (the (active m1 5))) m2)"
    by (simp add: example_manager_def n m1_def m2_def Let_def)
  obtain x where x: "active m2 5 = Some x" "al_buffer x = al_buffer (the (active m1 5))"
    using n by (auto simp: m1_def m2_def manager_run)
  have "arena_reachable m0" by (rule a_start[OF n])
  then have "arena_reachable m1" unfolding m1_def by (rule a_step) (rule p_empty, rule prod.collapse[symmetric])
  then have r2: "arena_reachable m2" unfolding m2_def by (rule a_step) (rule p_empty, rule prod.collapse[symmetric])
  show "arena_reachable (example_manager ''arena'')"
    unfolding ex using a_step[OF r2 p_register[of m2 5 x 1 _ "snd (register_recipient 1 (al_buffer x) m2)"]] x
    by (metis prod.collapse)
qed (simp_all add: manager_run)

text \<open>C14: In an arena the blocks of two live allocations are disjoint, none overlaps a free block,
  and every allocation lies inside the arena.\<close>

theorem arena_blocks_disjoint:
  assumes "arena_reachable m" "active m i = Some a" "active m j = Some b" "i \<noteq> j"
  shows "bytes_of (block_of (al_buffer a)) \<inter> bytes_of (block_of (al_buffer b)) = {} \<and>
    bytes_of (block_of (al_buffer a)) \<inter> covered (arena_free m) = {} \<and>
    0 \<le> sb_offset (al_buffer a) \<and> sb_offset (al_buffer a) + sb_byte_length (al_buffer a) \<le> arena_bytes m"
  using arena_allocations_disjoint[OF assms] by blast

theorem arena_blocks_disjoint_witness:
  "\<exists>a b. active (example_manager ''arena'') 5 = Some a \<and> active (example_manager ''arena'') 6 = Some b \<and>
     bytes_of (block_of (al_buffer a)) \<inter> bytes_of (block_of (al_buffer b)) = {}"
proof -
  obtain a b where "active (example_manager ''arena'') 5 = Some a" "active (example_manager ''arena'') 6 = Some b"
    using example_arena by blast
  with arena_blocks_disjoint[OF example_arena(1) this] show ?thesis by auto
qed

text \<open>An arena with nothing live is one free block again: freeing leaves no fragments.\<close>

theorem arena_coalesces:
  assumes "arena_reachable m" "active_ids m = []" "arena_region m = Some rid"
  shows "arena_free m = [(0, arena_bytes m)]"
  using assms by (rule arena_drained)

theorem arena_coalesces_witness:
  "\<exists>m. arena_reachable m \<and> arena_region m = Some 9 \<and> stats m \<noteq> no_stats \<and> arena_free m = [(0, 256)]"
proof -
  define m where "m = snd (collect (\<lambda>_ _. True) (\<lambda>_. True) Explicit
    (storage_released 5 (storage_released 6 (example_manager ''arena''))))"
  have "arena_reachable (storage_released 5 (storage_released 6 (example_manager ''arena'')))"
    by (intro a_step[OF _ p_released] example_arena(1))
  then have r: "arena_reachable m"
    unfolding m_def by (rule a_step) (rule p_collect, rule prod.collapse[symmetric])
  have "active_ids m = []" "arena_region m = Some 9" "arena_bytes m = 256" "stats m \<noteq> no_stats"
    by (simp_all add: m_def manager_run storage_released_def drop_active_def release_arena_def no_stats_def)
  with arena_coalesces[OF r this(1,2)] r show ?thesis by auto
qed

text \<open>An arena allocation is refused only when no free block holds the aligned request, and
  refusing changes nothing; otherwise the block handed out was free and is no longer.\<close>

theorem arena_refuses_only_when_full:
  assumes "arena_region m = Some rid"
  shows "allocate_arena random len aid m = (Inl (MemoryError ''Shared-memory arena exhausted''), m) \<longleftrightarrow>
    (\<forall>b \<in> set (arena_free m). snd b < align len ARENA_ALIGNMENT)"
  using assms by (rule arena_exhausted)

theorem arena_refuses_only_when_full_witness:
  "allocate_arena [] 200 7 (example_manager ''arena'')
     = (Inl (MemoryError ''Shared-memory arena exhausted''), example_manager ''arena'')"
proof -
  have m: "arena_region (example_manager ''arena'') = Some 9" "arena_free (example_manager ''arena'') = [(128, 128)]"
    by (simp_all add: manager_run)
  show ?thesis
    by (rule iffD2[OF arena_refuses_only_when_full[OF m(1)]]) (simp add: m(2) align_def ARENA_ALIGNMENT_def)
qed

text \<open>C15: The arena uses its memory: freeing leaves no fragments, so that with nothing live it is
  one free block again, and an allocation is refused only when no free block holds the aligned
  request, which changes nothing.\<close>

theorem arena_is_used_fully:
  assumes "arena_reachable m" "arena_region m = Some rid"
  shows "(active_ids m = [] \<longrightarrow> arena_free m = [(0, arena_bytes m)]) \<and>
    (allocate_arena random len aid m = (Inl (MemoryError ''Shared-memory arena exhausted''), m) \<longleftrightarrow>
      (\<forall>b \<in> set (arena_free m). snd b < align len ARENA_ALIGNMENT))"
  using arena_drained[OF assms(1) _ assms(2)] arena_exhausted[OF assms(2)] by blast

theorem arena_is_used_fully_witness:
  "\<exists>m. arena_free m = [(0, 256)] \<and>
     allocate_arena [] 300 7 m = (Inl (MemoryError ''Shared-memory arena exhausted''), m)"
proof -
  obtain m where m: "arena_reachable m" "arena_region m = Some 9" "arena_free m = [(0, 256)]"
    using arena_coalesces_witness by blast
  then have "\<forall>b \<in> set (arena_free m). snd b < align 300 ARENA_ALIGNMENT" by (simp add: align_def ARENA_ALIGNMENT_def)
  with arena_is_used_fully[OF m(1,2), THEN conjunct2, THEN iffD2] m(3) show ?thesis by blast
qed

section \<open>Shared memory: tensors and views\<close>

text \<open>C16: Every byte of every element of a view the manager describes lies inside the allocation the
  view was made from.\<close>

theorem view_stays_inside:
  assumes "managed v m = Inr (Some (d, b))" "0 < v_item_size v"
    and "length (v_strides v) = length (v_shape v)" "index_in (d_shape d) idx"
    and "0 \<le> k" "k < v_item_size v"
  shows "(sb_region b, d_offset d + element_offset (d_strides d) idx + k) \<in> extent b"
  using assms by (rule managed_element_inside)

theorem view_stays_inside_witness:
  "\<exists>d b. managed \<lparr>v_cpu_strided = True, v_lease = Some 5, v_dtype = ''float32'', v_item_size = 4,
        v_shape = [2], v_strides = [2], v_storage_offset = 1\<rparr> (example_manager ''arena'') = Inr (Some (d, b)) \<and>
     (sb_region b, d_offset d + element_offset (d_strides d) [1] + 3) \<in> extent b"
proof -
  let ?v = "\<lparr>v_cpu_strided = True, v_lease = Some 5, v_dtype = ''float32'', v_item_size = 4,
        v_shape = [2], v_strides = [2], v_storage_offset = 1\<rparr>"
  obtain a where a: "active (example_manager ''arena'') 5 = Some a" "al_buffer a =
    \<lparr>sb_region = 9, sb_generation = 1, sb_allocation_id = 5, sb_offset = 0, sb_byte_length = 16, sb_arena = True\<rparr>"
    using example_arena(2) by blast
  obtain d b where m: "managed ?v (example_manager ''arena'') = Inr (Some (d, b))" "d_shape d = [2]"
    by (simp add: managed_def a view_byte_length_def ITEM_SIZES_def Let_def)
  have "index_in (d_shape d) [1]" by (simp add: m index_in_def)
  from view_stays_inside[OF m(1) _ _ this, of 3] m(1) show ?thesis by auto
qed

section \<open>What a receive does not close\<close>

text \<open>A second ancillary message makes a receive fail before any descriptor is collected: in
  both copies the descriptor table is left as the kernel filled it.\<close>

theorem second_ancillary_message_leaks:
  assumes "1 < length anc"
  shows "recvmsg_strict (Inr (packet, anc, flags)) t
      = (Inl (ProtocolError ''multiple ancillary control messages are not supported''), t) \<and>
    sdk_recvmsg_strict (Inr (packet, anc, flags)) t
      = (Inl (ProtocolError ''multiple ancillary control messages are not supported''), t)"
  using assms by (simp add: recvmsg_strict_def sdk_recvmsg_strict_def extract_fds_def sdk_extract_fds_def st_run)

theorem second_ancillary_message_leaks_witness:
  "\<exists>e t'. recvmsg_strict (Inr ([], [(SOL_SOCKET, SCM_RIGHTS, [7, 0, 0, 0]), (SOL_SOCKET, SCM_RIGHTS, [9, 0, 0, 0])], 0))
     [7 \<mapsto> 0, 9 \<mapsto> 0] = (Inl e, t') \<and> t' 7 \<noteq> None \<and> t' 9 \<noteq> None"
proof -
  let ?anc = "[(SOL_SOCKET, SCM_RIGHTS, [7, 0, 0, 0]), (SOL_SOCKET, SCM_RIGHTS, [9, 0, 0, 0])]"
  have "1 < length ?anc" by simp
  from second_ancillary_message_leaks[OF this, of "[]" 0 "[7 \<mapsto> 0, 9 \<mapsto> 0]"] show ?thesis by simp
qed

section \<open>Shared memory: access reservations\<close>

text \<open>A tensor of the example manager as a caller holds it: its view and its descriptor.\<close>

definition example_handle :: "TorchView \<times> TensorDescriptor" where
  "example_handle =
     (\<lparr>v_cpu_strided = True, v_lease = Some 5, v_dtype = ''float32'', v_item_size = 4, v_shape = [4],
       v_strides = [1], v_storage_offset = 0\<rparr>,
      al_descriptor (the (active (example_manager ''arena'') 5)))"

lemma example_keys:
  "collect_accesses (example_manager ''arena'') [example_handle] [] = Inr [((9, 1, 5), False)]"
  "collect_accesses (example_manager ''arena'') [] [example_handle] = Inr [((9, 1, 5), True)]"
  by (simp_all add: collect_accesses_def access_key_def example_handle_def managed_def view_byte_length_def
      read_access_def manager_run)

lemma example_reserved:
  obtains s where "access_reachable orderly s" "leases s = [(0, [((9, 1, 5), False)]), (1, [((9, 1, 5), False)])]"
    "access_waiters s = [(2, [((9, 1, 5), True)]), (3, [((9, 1, 5), True)])]"
    "access_threads s = leases s @ access_waiters s" "\<not> access_closed s"
proof -
  let ?m = "example_manager ''arena''" and ?r = "(9, 1, 5) :: access_key"
  define rd where "rd i = reserve_access i (collect_accesses ?m [example_handle] [])" for i
  define wr where "wr i = reserve_access i (collect_accesses ?m [] [example_handle])" for i
  define s1 where "s1 = snd (rd 0 no_access)"
  define s2 where "s2 = snd (rd 1 s1)"
  define s3 where "s3 = snd (wr 2 s2)"
  define s4 where "s4 = snd (wr 3 s3)"
  note run = reserve_access_def example_keys st_run grant_access_waiters_def can_grant_access_def grant_one_def Let_def
    rd_def wr_def
  have e1: "s1 = \<lparr>access_states = [?r \<mapsto> \<lparr>readers = 1, writer = False\<rparr>], access_waiters = [],
      leases = [(0, [(?r, False)])], access_threads = [(0, [(?r, False)])], access_closed = False\<rparr>"
    by (simp add: s1_def run no_access_def)
  have e2: "s2 = \<lparr>access_states = [?r \<mapsto> \<lparr>readers = 2, writer = False\<rparr>], access_waiters = [],
      leases = [(0, [(?r, False)]), (1, [(?r, False)])],
      access_threads = [(0, [(?r, False)]), (1, [(?r, False)])], access_closed = False\<rparr>"
    by (simp add: s2_def run e1)
  have e3: "s3 = \<lparr>access_states = [?r \<mapsto> \<lparr>readers = 2, writer = False\<rparr>],
      access_waiters = [(2, [(?r, True)])], leases = [(0, [(?r, False)]), (1, [(?r, False)])],
      access_threads = [(0, [(?r, False)]), (1, [(?r, False)]), (2, [(?r, True)])], access_closed = False\<rparr>"
    by (simp add: s3_def run e2)
  have e4: "s4 = \<lparr>access_states = [?r \<mapsto> \<lparr>readers = 2, writer = False\<rparr>],
      access_waiters = [(2, [(?r, True)]), (3, [(?r, True)])], leases = [(0, [(?r, False)]), (1, [(?r, False)])],
      access_threads = [(0, [(?r, False)]), (1, [(?r, False)]), (2, [(?r, True)]), (3, [(?r, True)])],
      access_closed = False\<rparr>"
    by (simp add: s4_def run e3)
  have reads: "access_reachable orderly (snd (rd i s))"
    if "access_reachable orderly s" "i \<notin> fst ` set (access_threads s) \<union> fst ` set (access_waiters s) \<union> fst ` set (leases s)" for i s
    by (rule access_reachable.step[OF that(1) access_step.reserve[OF that(2), of ?m "[example_handle]" "[]" "fst (rd i s)"]])
       (simp add: rd_def)
  have writes: "access_reachable orderly (snd (wr i s))"
    if "access_reachable orderly s" "i \<notin> fst ` set (access_threads s) \<union> fst ` set (access_waiters s) \<union> fst ` set (leases s)" for i s
    by (rule access_reachable.step[OF that(1) access_step.reserve[OF that(2), of ?m "[]" "[example_handle]" "fst (wr i s)"]])
       (simp add: wr_def)
  have "access_reachable orderly s1" unfolding s1_def by (rule reads[OF access_reachable.init]) (simp add: no_access_def)
  then have "access_reachable orderly s2" unfolding s2_def by (rule reads) (simp add: e1)
  then have "access_reachable orderly s3" unfolding s3_def by (rule writes) (simp add: e2)
  then have "access_reachable orderly s4" unfolding s4_def by (rule writes) (simp add: e3)
  with that e4 show thesis by simp
qed

text \<open>C17: Two reservations held at the same time share an allocation only if both read it, however
  waiting threads are interrupted.\<close>

theorem reservations_are_exclusive:
  assumes "access_reachable orderly s" "l1 \<in> set (leases s)" "l2 \<in> set (leases s)" "l1 \<noteq> l2"
    and "map_of (snd l1) k = Some w1" "map_of (snd l2) k = Some w2"
  shows "w1 = False \<and> w2 = False"
  using leases_exclusive[OF assms] by simp

theorem reservations_are_exclusive_witness:
  "\<exists>s. access_reachable False s \<and> length (leases s) = 2 \<and> map_of (snd (leases s ! 0)) (9, 1, 5) = Some False \<and>
     map_of (snd (leases s ! 1)) (9, 1, 5) = Some False"
proof -
  obtain s where s: "access_reachable False s" "leases s = [(0, [((9, 1, 5), False)]), (1, [((9, 1, 5), False)])]"
    by (rule example_reserved)
  have "(False :: bool) = False \<and> False = False"
    using reservations_are_exclusive[OF s(1), of "(0, [((9, 1, 5), False)])" "(1, [((9, 1, 5), False)])" "(9, 1, 5)" False False]
    by (simp add: s(2))
  with s show ?thesis by (intro exI[of _ s]) simp
qed

text \<open>C18: Nothing stays in the queue without a reason: while the manager is open every entry of the
  queue is behind an earlier one that wants one of its allocations, or conflicts with a lease;
  so a queue with no lease is empty. If in addition every waiter that was interrupted was the
  first of its kind in the queue, then each thread has its own lease or its own entry and every
  lease and entry has its thread, so that no thread waits when nothing is leased. Without that
  condition threads can be lost (see the next property).\<close>

theorem waiting_has_a_reason:
  assumes "access_reachable orderly s" "\<not> access_closed s"
  shows "(\<forall>n < length (access_waiters s).
      (\<exists>j < n. fst ` set (snd (access_waiters s ! j)) \<inter> fst ` set (snd (access_waiters s ! n)) \<noteq> {}) \<or>
      (\<exists>k w l w'. (k, w) \<in> set (snd (access_waiters s ! n)) \<and> l \<in> set (leases s) \<and>
         map_of (snd l) k = Some w' \<and> (w \<or> w'))) \<and>
    (leases s = [] \<longrightarrow> access_waiters s = []) \<and>
    (orderly \<longrightarrow> set (access_threads s) = set (leases s) \<union> set (access_waiters s))"
proof (intro conjI impI)
  note reason = waiters_have_reason[OF assms]
  show "\<forall>n < length (access_waiters s).
      (\<exists>j < n. fst ` set (snd (access_waiters s ! j)) \<inter> fst ` set (snd (access_waiters s ! n)) \<noteq> {}) \<or>
      (\<exists>k w l w'. (k, w) \<in> set (snd (access_waiters s ! n)) \<and> l \<in> set (leases s) \<and>
         map_of (snd l) k = Some w' \<and> (w \<or> w'))"
    using reason by blast
  show "access_waiters s = []" if "leases s = []" using reason[of 0] that by fastforce
  show "set (access_threads s) = set (leases s) \<union> set (access_waiters s)" if orderly
    using access_reachable_attended[of s] assms that by (simp add: attended_def)
qed

theorem waiting_has_a_reason_witness:
  "\<exists>s. access_reachable True s \<and> access_waiters s = [(2, [((9, 1, 5), True)]), (3, [((9, 1, 5), True)])] \<and>
     (\<exists>l w'. l \<in> set (leases s) \<and> map_of (snd l) (9, 1, 5) = Some w') \<and> (2, [((9, 1, 5), True)]) \<in> set (access_threads s)"
proof -
  obtain s where s: "access_reachable True s" "\<not> access_closed s"
    "access_waiters s = [(2, [((9, 1, 5), True)]), (3, [((9, 1, 5), True)])]" by (rule example_reserved)
  note W = waiting_has_a_reason[OF s(1,2)]
  have "\<exists>l w'. l \<in> set (leases s) \<and> map_of (snd l) (9, 1, 5) = Some w'"
    using W[THEN conjunct1, rule_format, of 0] by (auto simp: s(3))
  moreover have "(2, [((9, 1, 5), True)]) \<in> set (access_threads s)"
    using W[THEN conjunct2, THEN conjunct2] by (simp add: s(3))
  ultimately show ?thesis using s by blast
qed

text \<open>C19: An interrupted waiter can take another thread's place from it: waiters are compared by
  their accesses, so when two threads wait for equal accesses and the second is interrupted, the
  first one's entry leaves the queue and the interrupted one's stays. From then on the first
  thread has neither a lease nor an entry, whatever the threads do, for as long as it waits; and
  if the entry that stayed is granted, that lease is never released.\<close>

theorem interrupted_twin_strands:
  assumes "access_reachable False s" "\<not> access_closed s"
    and "w1 \<in> set (access_threads s)" "w2 \<in> set (access_threads s)"
    and "access_waiters s = xs @ w1 # ys @ w2 # zs"
    and "set (snd w1) = set (snd w2)" "\<forall>v \<in> set xs. set (snd v) \<noteq> set (snd w2)"
  shows "\<exists>s'. abandon_access w2 s = (Inr (), s') \<and> access_step False s s' \<and> w1 \<in> set (access_threads s') \<and>
    w2 \<notin> set (access_threads s') \<and> w2 \<in> set (leases s') \<union> set (access_waiters s') \<and>
    (\<forall>t. (\<lambda>x y. access_step False x y \<and> w1 \<in> set (access_threads y))\<^sup>*\<^sup>* s' t \<longrightarrow>
       w1 \<in> set (access_threads t) \<and> w1 \<notin> set (leases t) \<union> set (access_waiters t)) \<and>
    (\<forall>t u. (access_step False)\<^sup>*\<^sup>* s' t \<and> w2 \<in> set (leases t) \<and> w2 \<notin> set (access_threads t) \<and>
       (access_step False)\<^sup>*\<^sup>* t u \<longrightarrow> w2 \<in> set (leases u))"
proof -
  have inv: "access_inv s" by (rule access_reachable_inv[OF assms(1)])
  from abandon_twin[OF inv assms(5,6,7,3)] obtain s' where a: "abandon_access w2 s = (Inr (), s')"
    and st: "stranded w1 s'" and gone: "w2 \<notin> set (access_threads s')" "w2 \<in> set (leases s') \<union> set (access_waiters s')"
    by blast
  have "w2 \<notin> set (leases s)" using inv_distinct(4)[OF inv] assms(5) by auto
  then have step: "access_step False s s'" using access_step.abandon[OF assms(4) _ _ a] by simp
  then have reach: "access_reachable False s'" by (rule access_reachable.step[OF assms(1)])
  have "stranded w1 t" if "(\<lambda>x y. access_step False x y \<and> w1 \<in> set (access_threads y))\<^sup>*\<^sup>* s' t" for t
    by (rule run_stranded[OF that access_reachable_inv[OF reach] st])
  moreover have "w2 \<in> set (leases u)" if "(access_step False)\<^sup>*\<^sup>* s' t" "w2 \<in> set (leases t)"
    "w2 \<notin> set (access_threads t)" "(access_step False)\<^sup>*\<^sup>* t u" for t u
    using run_orphaned[OF that(4) access_reachable_inv[OF run_reachable[OF that(1) reach]], of w2] that(2,3)
    by (simp add: orphaned_def)
  ultimately show ?thesis using a step st gone by (intro exI[of _ s']) (auto simp: stranded_def)
qed

theorem interrupted_twin_strands_witness:
  "\<exists>s s'. access_reachable False s \<and> (2, [((9, 1, 5), True)]) \<in> set (access_waiters s) \<and>
     access_step False s s' \<and> (2, [((9, 1, 5), True)]) \<in> set (access_threads s') \<and>
     (2, [((9, 1, 5), True)]) \<notin> set (leases s') \<union> set (access_waiters s')"
proof -
  obtain s where s: "access_reachable False s" "\<not> access_closed s"
    "access_waiters s = [(2, [((9, 1, 5), True)]), (3, [((9, 1, 5), True)])]"
    "access_threads s = leases s @ access_waiters s" by (rule example_reserved)
  have q: "access_waiters s = [] @ (2, [((9, 1, 5), True)]) # [] @ (3, [((9, 1, 5), True)]) # []" by (simp add: s(3))
  obtain s' where "access_step False s s'" "(2, [((9, 1, 5), True)]) \<in> set (access_threads s')"
    and run: "\<forall>t. (\<lambda>x y. access_step False x y \<and> (2, [((9, 1, 5), True)]) \<in> set (access_threads y))\<^sup>*\<^sup>* s' t \<longrightarrow>
       (2, [((9, 1, 5), True)]) \<in> set (access_threads t) \<and>
       (2, [((9, 1, 5), True)]) \<notin> set (leases t) \<union> set (access_waiters t)"
    using interrupted_twin_strands[OF s(1,2) _ _ q] by (auto simp: s(3,4))
  moreover have "(2, [((9, 1, 5), True)]) \<notin> set (leases s') \<union> set (access_waiters s')"
    using run[rule_format, of s'] by blast
  ultimately show ?thesis using s(1,3) by (intro exI[of _ s] exI[of _ s']) auto
qed

section \<open>Metadata and output planning\<close>

text \<open>An operation with a selected dimension, a shared dtype and a dynamic output, used below.\<close>

definition example_operation :: OperationMetadata where
  "example_operation =
     \<lparr>om_name = ''crop'',
      tensor_inputs = [\<lparr>tp_name = ''x'', tp_access = ''readOnly'', tp_dtype_variable = Some ''T'', tp_dtypes = []\<rparr>],
      tensor_outputs = [\<lparr>tp_name = ''y'', tp_access = ''readWrite'', tp_dtype_variable = None, tp_dtypes = []\<rparr>,
                        \<lparr>tp_name = ''z'', tp_access = ''readWrite'', tp_dtype_variable = None, tp_dtypes = []\<rparr>],
      scalar_parameters = [\<lparr>sp_name = ''keepDim'', sp_kind = ''boolean'', sp_required = False,
                            sp_default = Some (SBool True), sp_enum_name = None, sp_enum_values = []\<rparr>],
      om_operation_id = 7,
      output_plans = [\<lparr>pl_name = ''y'', pl_known = Some \<lparr>ko_shape = Dimensions [DSelect 0 (DInputAxis 0 0) (DMinimum [DConstant 2, DInputAxis 0 0])],
                        ko_dtype = TVariable ''T''\<rparr>\<rparr>,
                      \<lparr>pl_name = ''z'', pl_known = None\<rparr>],
      vjp = None, internal = False, dtype_variables = [\<lparr>dv_name = ''T'', dv_dtypes = [''float32'', ''float64'']\<rparr>]\<rparr>"

definition example_input :: TensorDescriptor where
  "example_input = \<lparr>d_buffer_id = 9, d_generation = 1, d_allocation_id = 5, d_offset = 0, d_byte_length = 16,
     d_dtype = ''float32'', d_shape = [4], d_strides = [4]\<rparr>"

lemma example_operation_valid: "validate_operation_metadata example_operation = Inr ()"
  by (simp add: validate_operation_metadata_def example_operation_def metadata_consts validate_scalar_def
      SCALAR_KINDS_def scalar_matches_kind_def validate_dtypes_def validate_tensor_input_def validate_plan_def
      validate_known_output_def validate_index_def)

text \<open>C20: Evaluating the outputs of a validated operation on bound arguments never meets an index,
  type or assertion error: it gives the planned outputs or one of three \<open>ValueError\<close>s.\<close>

theorem planning_is_safe:
  assumes "validate_operation_metadata op = Inr ()" "bound_arguments op inputs scalars"
  shows "ok (evaluate_outputs rt op inputs scalars) \<or>
    (\<exists>e \<in> {missing_axis, ValueError ''Operation produced an invalid shape'', ValueError ''Dtype variable is not bound''}.
       evaluate_outputs rt op inputs scalars = Inl e)"
  using evaluate_outputs_errors[OF assms, of rt]
  by (cases "evaluate_outputs rt op inputs scalars") (simp_all add: planning_errors_def)

theorem planning_is_safe_witness:
  "bound_arguments example_operation [example_input] [SBool False] \<and>
   ok (evaluate_outputs (\<lambda>_ _. ''float32'') example_operation [example_input] [SBool False])"
proof -
  have b: "bound_arguments example_operation [example_input] [SBool False]"
    by (simp add: bound_arguments_def example_operation_def positive_shapes_def example_input_def scalar_matches_kind_def)
  have "\<not> (\<exists>e \<in> {missing_axis, ValueError ''Operation produced an invalid shape'', ValueError ''Dtype variable is not bound''}.
       evaluate_outputs (\<lambda>_ _. ''float32'') example_operation [example_input] [SBool False] = Inl e)"
    by (simp add: evaluate_outputs_def evaluate_plan_def example_operation_def example_input_def py_index_def
        bad_shape_def MAX_RANK_def)
  with planning_is_safe[OF example_operation_valid b, of "\<lambda>_ _. ''float32''"] b show ?thesis by blast
qed

text \<open>A completed plan keeps every statically known output, takes every other one from the
  worker's answer and nothing else, and has only shapes that can be allocated.\<close>

theorem completed_plan_is_complete:
  assumes "evaluate_outputs rt op inputs scalars = Inr known" "complete_outputs known planned = Inr ss"
  shows "length ss = length (output_plans op) \<and>
    (\<forall>i < length ss. known ! i = Some (ss ! i) \<or>
       (pl_known (output_plans op ! i) = None \<and> (\<exists>j. (j, ss ! i) \<in> set planned \<and> position known j = i))) \<and>
    (\<forall>(j, s) \<in> set planned. ss ! position known j = s) \<and> (\<forall>s \<in> set ss. \<not> bad_shape (fst s))"
proof -
  note E = evaluate_outputs_Inr[OF assms(1)]
  note C = complete_outputs_Inr[OF assms(2) E(3)]
  have "known ! i = Some (ss ! i) \<or>
       (pl_known (output_plans op ! i) = None \<and> (\<exists>j. (j, ss ! i) \<in> set planned \<and> position known j = i))"
    if "i < length ss" for i
    using C(1-3) E(2)[of i] that by (cases "known ! i") auto
  then show ?thesis using C(1,4,5) E(1) by (auto simp: good_spec_def)
qed

theorem completed_plan_is_complete_witness:
  "\<exists>known. evaluate_outputs (\<lambda>_ _. ''float32'') example_operation [example_input] [SBool False] = Inr known \<and>
     complete_outputs known [(1, [5], ''int64'')] = Inr [([2], ''float32''), ([5], ''int64'')] \<and>
     \<not> bad_shape (fst ([5 :: int], ''int64''))"
proof -
  have k: "evaluate_outputs (\<lambda>_ _. ''float32'') example_operation [example_input] [SBool False]
      = Inr [Some ([2], ''float32''), None]"
    by (simp add: evaluate_outputs_def evaluate_plan_def example_operation_def example_input_def py_index_def
        bad_shape_def MAX_RANK_def)
  have c: "complete_outputs [Some ([2], ''float32''), None] [(1, [5], ''int64'')] = Inr [([2], ''float32''), ([5], ''int64'')]"
    by (simp add: complete_outputs_def complete_loop.simps py_index_def position_def good_spec_def bad_shape_def metadata_consts)
  from completed_plan_is_complete[OF k c] k c show ?thesis by auto
qed

text \<open>C21: Output tensors a caller supplies for reuse are accepted only with exactly the planned
  shapes and dtypes, and then no two of them, nor any of them and an input, share an allocation.\<close>

theorem reused_outputs_do_not_alias:
  assumes "bind_reusable_outputs m inference expected inputs out = Inr ms"
  shows "map (\<lambda>(d, b). (d_shape d, d_dtype d)) ms = expected \<and>
    distinct (map (\<lambda>(d, b). d_allocation_id d) ms) \<and>
    (\<lambda>(d, b). d_allocation_id d) ` set ms \<inter> d_allocation_id ` set inputs = {}"
  using bind_reusable_outputs_Inr[OF assms] by blast

theorem reused_outputs_do_not_alias_witness:
  "\<exists>ms. bind_reusable_outputs (example_manager ''arena'') False [([4], ''float32'')] [example_input\<lparr>d_allocation_id := 6\<rparr>]
       (OTensor (fst example_handle) False False) = Inr ms \<and>
     (\<lambda>(d, b). d_allocation_id d) ` set ms \<inter> {6} = {}"
proof -
  obtain ms where m: "bind_reusable_outputs (example_manager ''arena'') False [([4], ''float32'')]
      [example_input\<lparr>d_allocation_id := 6\<rparr>] (OTensor (fst example_handle) False False) = Inr ms"
    by (simp add: bind_reusable_outputs_def reuse_loop.simps example_handle_def managed_def view_byte_length_def manager_run)
  from reused_outputs_do_not_alias[OF m] m show ?thesis by (auto simp: example_input_def)
qed

section \<open>Binding an invocation\<close>

text \<open>C22: A bound invocation carries as many tensors as the operation has inputs and one scalar per
  parameter, each represented as its kind asks (an enum as an index of its members); positional
  scalars are taken in order.\<close>

theorem bound_invocation_is_typed:
  assumes "bind_invocation grad op args kwargs out = Inr bi" "validate_operation_metadata op = Inr ()"
  shows "length (bi_tensor_inputs bi) = length (tensor_inputs op) \<and>
    length (bi_scalars bi) = length (scalar_parameters op) \<and>
    (\<forall>i < length (bi_scalars bi). coerced (scalar_parameters op ! i) (bi_scalars bi ! i) \<and>
       scalar_matches_kind (bi_scalars bi ! i) (sp_kind (scalar_parameters op ! i))) \<and>
    (\<forall>i < length (filter (\<lambda>a. \<not> is_tensor a) args).
       coerce_scalar (scalar_parameters op ! i) (filter (\<lambda>a. \<not> is_tensor a) args ! i) = Inr (bi_scalars bi ! i))"
proof -
  note B = bind_invocation_Inr[OF assms(1)]
  note C = bind_scalars_coerced[OF B(5)]
  have "length (bi_tensor_inputs bi) = length (tensor_inputs op)" using B(3,4) by (metis length_map)
  moreover have "scalar_matches_kind (bi_scalars bi ! i) (sp_kind (scalar_parameters op ! i))"
    if "i < length (bi_scalars bi)" for i
    using coerced_matches[OF C(2)[OF that]] validated_operation(3)[OF assms(2)] C(1) that by simp
  ultimately show ?thesis using C bind_scalars_positional[OF B(5)] by blast
qed

definition example_tensor :: ArgTensor where
  "example_tensor = \<lparr>at_view = fst example_handle, at_requires_grad = False\<rparr>"

lemma example_keyword: "python_parameter_name ''keepDim'' = ''keep_dim''"
  by code_simp

theorem bound_invocation_is_typed_witness:
  "\<exists>bi. bind_invocation True example_operation [PTensor example_tensor] [(''keep_dim'', PValue (SBool False))] None = Inr bi \<and>
     coerced (scalar_parameters example_operation ! 0) (bi_scalars bi ! 0) \<and> bi_scalars bi = [SBool False]"
proof -
  obtain bi where b: "bind_invocation True example_operation [PTensor example_tensor] [(''keep_dim'', PValue (SBool False))] None = Inr bi"
    and s: "bi_scalars bi = [SBool False]"
    by (simp add: bind_invocation_def tensors_of_def bind_scalars_def is_tensor_def example_operation_def take_scalar_def
        example_keyword coerce_scalar_def validate_tensor_dtypes_def
        dtype_loop.simps example_tensor_def example_handle_def)
  from bound_invocation_is_typed[OF b example_operation_valid] b s show ?thesis by auto
qed

text \<open>C23: When the tensors of a call pass the dtype check, those declared with one dtype variable
  have one dtype, and the variable allows it.\<close>

theorem dtype_variables_agree:
  assumes "validate_tensor_dtypes op ts = Inr ()" "length ts = length (tensor_inputs op)"
    and "i < length ts" "j < length ts" "tp_dtype_variable (tensor_inputs op ! i) = Some name"
    and "tp_dtype_variable (tensor_inputs op ! j) = Some name"
  shows "v_dtype (at_view (ts ! i)) = v_dtype (at_view (ts ! j)) \<and>
    (\<exists>v \<in> set (dtype_variables op). dv_name v = name \<and> v_dtype (at_view (ts ! i)) \<in> set (dv_dtypes v))"
  using validate_tensor_dtypes_Inr[OF assms] by blast

theorem dtype_variables_agree_witness:
  "\<exists>v \<in> set (dtype_variables example_operation). dv_name v = ''T'' \<and> v_dtype (at_view example_tensor) \<in> set (dv_dtypes v)"
proof -
  have v: "validate_tensor_dtypes example_operation [example_tensor] = Inr ()"
    by (simp add: validate_tensor_dtypes_def example_operation_def dtype_loop.simps example_tensor_def example_handle_def)
  have t: "tp_dtype_variable (tensor_inputs example_operation ! 0) = Some ''T''" "length [example_tensor] = length (tensor_inputs example_operation)"
    by (simp_all add: example_operation_def)
  have "0 < length [example_tensor]" by simp
  from dtype_variables_agree[OF v t(2) this this t(1) t(1)] show ?thesis by simp
qed

section \<open>Autograd\<close>

text \<open>An operation with a VJP and the VJP operation, used below.\<close>

definition example_forward :: OperationMetadata where
  "example_forward = example_operation\<lparr>om_operation_id := 1, om_name := ''scale'',
     tensor_outputs := [\<lparr>tp_name = ''y'', tp_access = ''readWrite'', tp_dtype_variable = None, tp_dtypes = []\<rparr>],
     vjp := Some \<lparr>vjp_operation_id = 2, saved_inputs = [], saved_outputs = [0], output_cotangents = [0],
                  input_gradients = [0], vjp_scalar_parameters = [0]\<rparr>\<rparr>"

definition example_backward :: OperationMetadata where
  "example_backward = example_operation\<lparr>om_operation_id := 2, om_name := ''scale_vjp'', internal := True,
     tensor_inputs := replicate 2 \<lparr>tp_name = ''g'', tp_access = ''readOnly'', tp_dtype_variable = None, tp_dtypes = []\<rparr>,
     tensor_outputs := [\<lparr>tp_name = ''d'', tp_access = ''readWrite'', tp_dtype_variable = None, tp_dtypes = []\<rparr>]\<rparr>"

text \<open>C24: For a validated VJP the backward pass calls the VJP operation once, on the saved inputs and
  outputs of the forward call followed by the output gradients, each in the order of the metadata:
  as many tensors as the operation declares, and scalars that bind to its parameters (enum scalars
  apart). If the operation answers with one tensor per output it declares, the j-th tensor of the
  answer becomes the gradient of the input that the j-th entry of \<open>input_gradients\<close> names, when that
  input needs one, and every other position gets none.\<close>

theorem vjp_call_is_well_formed:
  assumes "validate_vjp ops op = Inr ()" "vjp op = Some v"
    and "target \<in> set ops" "om_operation_id target = vjp_operation_id v" "distinct (map om_operation_id ops)"
    and "vjp_forward op vals = Inr (saved, nondiff)"
    and "length vals = length (tensor_inputs op) + length (tensor_outputs op)"
    and "length scalars = length (scalar_parameters op)"
    and "\<And>i. i < length scalars \<Longrightarrow> coerced (scalar_parameters op ! i) (scalars ! i)"
    and "\<And>s. s \<in> set (scalar_parameters op) \<union> set (scalar_parameters target) \<Longrightarrow> sp_enum_name s = None"
    and "length gradients = length (tensor_outputs op)"
    and "\<And>ts vs. length ts = length (tensor_inputs target) \<Longrightarrow>
           bind_scalars target (map PTensor us @ map PValue vs) [] = Inr vs \<Longrightarrow>
           \<exists>gs. invoke (om_name target) ts vs = Inr gs \<and> length gs = length (tensor_outputs target)"
    and "length needs = length (tensor_inputs op)"
    and "vs = map (\<lambda>i. scalars ! nat i) (vjp_scalar_parameters v)"
    and "ts = map (\<lambda>i. take (length (tensor_inputs op)) vals ! nat i) (saved_inputs v) @
       map (\<lambda>i. drop (length (tensor_inputs op)) vals ! nat i) (saved_outputs v) @
       map (\<lambda>i. gradients ! nat i) (output_cotangents v)"
  shows "length ts = length (tensor_inputs target) \<and>
    bind_scalars target (map PTensor us @ map PValue vs) [] = Inr vs \<and>
    (\<exists>gs placed. invoke (om_name target) ts vs = Inr gs \<and> length gs = length (input_gradients v) \<and>
      vjp_backward False op target scalars needs saved invoke gradients
        = Inr (replicate 5 None @ placed @ replicate (length (tensor_outputs op)) None) \<and>
      length placed = length (tensor_inputs op) \<and>
      (\<forall>j < length gs. 0 \<le> input_gradients v ! j \<and> nat (input_gradients v ! j) < length placed \<and>
        placed ! nat (input_gradients v ! j) = (if needs ! nat (input_gradients v ! j) then Some (gs ! j) else None)) \<and>
      (\<forall>k < length placed. int k \<notin> set (input_gradients v) \<longrightarrow> placed ! k = None))"
proof -
  obtain t where t: "t \<in> set ops" "om_operation_id t = vjp_operation_id v"
    "length (tensor_outputs t) = length (input_gradients v)"
    "\<not> invalid_indices (input_gradients v) (length (tensor_inputs op))"
    using validate_vjp_Inr[OF assms(1,2)] by metis
  have tt: "t = target" using t(1,2) assms(3-5) by (metis distinct_map inj_onD)
  have "ts = vjp_tensors op v vals gradients" by (simp add: assms(15) vjp_tensors_def Let_def)
  note C = vjp_call_matches[OF assms(1-11) this assms(14), of needs invoke us]
  obtain gs where gs: "invoke (om_name target) ts vs = Inr gs" "length gs = length (input_gradients v)"
    using assms(12)[OF C[THEN conjunct2, THEN conjunct1] C[THEN conjunct2, THEN conjunct2]] t(3) tt by auto
  obtain p where p: "place_gradients needs (zip (input_gradients v) gs) (replicate (length (tensor_inputs op)) None) = Inr p"
    "length p = length (tensor_inputs op)"
    "\<forall>j < length gs. 0 \<le> input_gradients v ! j \<and> nat (input_gradients v ! j) < length p \<and>
       p ! nat (input_gradients v ! j) = (if needs ! nat (input_gradients v ! j) then Some (gs ! j) else None)"
    "\<forall>k < length p. int k \<notin> set (input_gradients v) \<longrightarrow> p ! k = None"
    using place_returned[OF t(4) gs(2) assms(13)] by blast
  have "vjp_backward False op target scalars needs saved invoke gradients
      = Inr (replicate 5 None @ p @ replicate (length (tensor_outputs op)) None)"
    using C[THEN conjunct1] gs p(1) by simp
  with C gs p(2-4) show ?thesis by blast
qed

theorem vjp_call_is_well_formed_witness:
  "\<exists>saved nondiff. vjp_forward example_forward [''x'', ''y''] = Inr (saved, nondiff) \<and>
     (\<exists>placed. vjp_backward False example_forward example_backward [SBool True] [True] saved
        (\<lambda>name ts vs. Inr [concat ts]) [''g''] = Inr placed \<and> placed ! 5 = Some ''yg'')"
proof -
  have v: "vjp example_forward = Some \<lparr>vjp_operation_id = 2, saved_inputs = [], saved_outputs = [0], output_cotangents = [0],
                  input_gradients = [0], vjp_scalar_parameters = [0]\<rparr>"
    by (simp add: example_forward_def)
  have val: "validate_vjp [example_forward, example_backward] example_forward = Inr ()"
    by (simp add: validate_vjp_def example_forward_def example_backward_def example_operation_def invalid_indices_def numeral_2_eq_2)
  obtain saved nondiff where f: "vjp_forward example_forward [''x'', ''y''] = Inr (saved, nondiff)"
    by (simp add: vjp_forward_def v) (simp add: example_forward_def example_operation_def py_index_def)
  have sp: "scalar_parameters example_forward = scalar_parameters example_operation"
    "scalar_parameters example_backward = scalar_parameters example_operation"
    "length (tensor_inputs example_forward) = 1"
    by (simp_all add: example_forward_def example_backward_def example_operation_def)
  have "\<exists>gs placed. Inr [''yg''] = (Inr gs :: string list result) \<and>
      vjp_backward False example_forward example_backward [SBool True] [True] saved (\<lambda>name ts vs. Inr [concat ts]) [''g'']
        = Inr (replicate 5 None @ placed @ replicate (length (tensor_outputs example_forward)) None) \<and>
      length placed = 1 \<and> (\<forall>j < length gs. placed ! 0 = Some (gs ! j))"
    using vjp_call_is_well_formed[OF val v, of example_backward "[''x'', ''y'']" saved nondiff "[SBool True]" "[''g'']" "[]"
        "\<lambda>name ts vs. Inr [concat ts]" "[True]" "[SBool True]" "[''y'', ''g'']"] f
    by (auto simp: sp example_forward_def example_backward_def example_operation_def coerced_def)
  then obtain placed where "vjp_backward False example_forward example_backward [SBool True] [True] saved
        (\<lambda>name ts vs. Inr [concat ts]) [''g'']
      = Inr (replicate 5 None @ placed @ replicate (length (tensor_outputs example_forward)) None)"
    "length placed = 1" "placed ! 0 = Some ''yg''" by auto
  with f show ?thesis by (auto simp: nth_append)
qed

section \<open>The catalog\<close>

definition example_plugin :: "string \<Rightarrow> PluginMetadata" where
  "example_plugin name = \<lparr>pm_name = name, pm_version = ''1'', pm_protocol_version = 1,
     pm_operations = [example_operation], pm_fingerprint = 0, pm_metadata_version = 2\<rparr>"

lemma example_registry:
  "\<exists>r. registry_of [example_plugin ''a'', example_plugin ''b''] r"
  "\<forall>p \<in> set [example_plugin ''a'', example_plugin ''b'']. well_named p"
proof -
  obtain r1 where r1: "register (example_plugin ''a'') new_registry = (Inr (), r1)"
    by (simp add: register_def st_run new_registry_def)
  then have "pm_name (example_plugin ''b'') \<notin> fst ` set (plugins r1)"
    by (auto simp: register_def st_run new_registry_def example_plugin_def)
  then obtain r2 where r2: "register (example_plugin ''b'') r1 = (Inr (), r2)"
    by (simp add: register_def st_run map_of_eq_None_iff)
  show "\<exists>r. registry_of [example_plugin ''a'', example_plugin ''b''] r"
    using add[OF add[OF empty r1] r2] by auto
  show "\<forall>p \<in> set [example_plugin ''a'', example_plugin ''b'']. well_named p"
    by (simp add: well_named_def example_plugin_def dot_free_def)
qed

text \<open>Every operation of every registered plugin is found under its qualified name and its ID,
  with its own plugin, whatever else was registered.\<close>

theorem qualified_names_resolve:
  assumes "registry_of ps r" "\<forall>p \<in> set ps. well_named p" "p \<in> set ps" "o' \<in> set (pm_operations p)"
  shows "operation r (qualified_name (pm_name p) (om_name o')) = Inr o' \<and>
    plugin_for_operation r (qualified_name (pm_name p) (om_name o')) = Inr (pm_name p) \<and>
    operation_by_id r (pm_name p) (om_operation_id o') = Inr o' \<and> plugin r (pm_name p) = Inr p"
  using lookup_qualified[OF assms] by blast

theorem qualified_names_resolve_witness:
  "\<exists>r. operation r (qualified_name ''b'' ''crop'') = Inr example_operation \<and>
     plugin_for_operation r (qualified_name ''b'' ''crop'') = Inr ''b''"
proof -
  obtain r where r: "registry_of [example_plugin ''a'', example_plugin ''b''] r" using example_registry(1) by blast
  have n: "pm_name (example_plugin ''b'') = ''b''" "om_name example_operation = ''crop''"
    by (simp_all add: example_plugin_def example_operation_def)
  have "example_plugin ''b'' \<in> set [example_plugin ''a'', example_plugin ''b'']"
    "example_operation \<in> set (pm_operations (example_plugin ''b''))" by (simp_all add: example_plugin_def)
  from qualified_names_resolve[OF r example_registry(2) this] show ?thesis unfolding n by blast
qed

text \<open>An unqualified name resolves exactly when one registered operation has it; it is unknown
  when none has and ambiguous when several have, in any order of registration.\<close>

theorem aliases_resolve_when_unique:
  assumes "registry_of ps r" "\<forall>p \<in> set ps. well_named p" "dot_free name"
  shows "operation r name =
    (if \<forall>x \<in> provided ps. om_name (snd x) \<noteq> name then Inl (KeyError ''Operation is not registered'')
     else if \<exists>x. {y \<in> provided ps. om_name (snd y) = name} = {x}
     then Inr (snd (THE x. {y \<in> provided ps. om_name (snd y) = name} = {x}))
     else Inl (KeyError ''Operation is ambiguous''))"
  using assms by (rule lookup_alias)

lemma provided_Nil: "provided [] = {}"
  by (simp add: provided_def)

lemma provided_Cons: "provided (p # ps) = {pm_name p} \<times> set (pm_operations p) \<union> provided ps"
  by (auto simp: provided_def)

theorem aliases_resolve_when_unique_witness:
  "\<exists>r. registry_of [example_plugin ''a'', example_plugin ''b''] r \<and>
     operation r ''crop'' = Inl (KeyError ''Operation is ambiguous'')"
proof -
  obtain r where r: "registry_of [example_plugin ''a'', example_plugin ''b''] r" using example_registry(1) by blast
  have p: "provided [example_plugin ''a'', example_plugin ''b''] = {(''a'', example_operation), (''b'', example_operation)}"
    by (auto simp: provided_Cons provided_Nil example_plugin_def)
  have n: "om_name example_operation = ''crop''" by (simp add: example_operation_def)
  have many: "{y \<in> provided [example_plugin ''a'', example_plugin ''b'']. om_name (snd y) = ''crop''}
      = {(''a'', example_operation), (''b'', example_operation)}"
    unfolding p using n by auto
  have nu: "\<not> (\<exists>x. {y \<in> provided [example_plugin ''a'', example_plugin ''b'']. om_name (snd y) = ''crop''} = {x})"
    unfolding many by auto
  have so: "\<not> (\<forall>x \<in> provided [example_plugin ''a'', example_plugin ''b'']. om_name (snd x) \<noteq> ''crop'')"
    unfolding p using n by force
  have d: "dot_free ''crop''" by (simp add: dot_free_def)
  have "operation r ''crop'' = Inl (KeyError ''Operation is ambiguous'')"
    using aliases_resolve_when_unique[OF r example_registry(2) d, unfolded if_not_P[OF so] if_not_P[OF nu]] .
  with r show ?thesis by blast
qed

text \<open>C25: Every operation of every registered plugin is found under its qualified name and its ID,
  with its own plugin; an unqualified name resolves exactly when one registered operation has it, is
  unknown when none has and ambiguous when several have, in any order of registration.\<close>

theorem registered_names_resolve:
  assumes "registry_of ps r" "\<forall>p \<in> set ps. well_named p"
  shows "(\<forall>p \<in> set ps. plugin r (pm_name p) = Inr p \<and> (\<forall>o' \<in> set (pm_operations p).
      operation r (qualified_name (pm_name p) (om_name o')) = Inr o' \<and>
      plugin_for_operation r (qualified_name (pm_name p) (om_name o')) = Inr (pm_name p) \<and>
      operation_by_id r (pm_name p) (om_operation_id o') = Inr o')) \<and>
    (\<forall>name. dot_free name \<longrightarrow> operation r name =
      (if \<forall>x \<in> provided ps. om_name (snd x) \<noteq> name then Inl (KeyError ''Operation is not registered'')
       else if \<exists>x. {y \<in> provided ps. om_name (snd y) = name} = {x}
       then Inr (snd (THE x. {y \<in> provided ps. om_name (snd y) = name} = {x}))
       else Inl (KeyError ''Operation is ambiguous'')))"
  using registry_of_provides[OF assms] lookup_qualified[OF assms] lookup_alias[OF assms] by (auto simp: plugin_def)

theorem registered_names_resolve_witness:
  "\<exists>r. operation r (qualified_name ''b'' ''crop'') = Inr example_operation \<and>
     operation r ''unknown'' = Inl (KeyError ''Operation is not registered'')"
proof -
  obtain r where r: "registry_of [example_plugin ''a'', example_plugin ''b''] r" using example_registry(1) by blast
  note both = registered_names_resolve[OF r example_registry(2)]
  have n: "pm_name (example_plugin ''b'') = ''b''" "om_name example_operation = ''crop''"
    by (simp_all add: example_plugin_def example_operation_def)
  have "operation r (qualified_name (pm_name (example_plugin ''b'')) (om_name example_operation)) = Inr example_operation"
    using both[THEN conjunct1] by (simp add: example_plugin_def)
  moreover have "operation r ''unknown'' = Inl (KeyError ''Operation is not registered'')"
    using both[THEN conjunct2] by (simp add: dot_free_def provided_Cons provided_Nil example_plugin_def example_operation_def)
  ultimately show ?thesis unfolding n by blast
qed

section \<open>Descriptors at the worker\<close>

text \<open>C26: A batch the worker acknowledges has been mapped and retired exactly as announced, any other
  answer leaves nothing mapped, and a batch of its session whose descriptors can be mapped is
  refused only if it remaps a buffer in use or retires a stale one or the arena. In every case all
  received descriptors are closed and no other.\<close>

theorem acknowledged_batch_is_mapped:
  assumes "sdk_recvmsg_strict (Inr (packet, anc, flags)) (fds s) = (Inr (p, received), t)"
    and "handle_batch host str_of gen p received (s\<lparr>fds := t\<rparr>) = ((rid, ack), s')"
  shows "fds s' = close_fds received (fds s) \<and>
    (if ack_status ack = OK
     then \<exists>b. sdk_decode_fd_batch p = Inr (rid, b) \<and> batch_generation b = gen \<and>
            ack_transfer_id ack = transfer_id b \<and> spec_entries (entries b) (mapped s) = Some (mapped s')
     else buffers s' = Map.empty \<and>
       (\<forall>r b. sdk_decode_fd_batch p = Inr (r, b) \<and> batch_generation b = gen \<and> distinct received \<and>
            list_all2 (mappable host) (maps_of (entries b)) received \<longrightarrow>
          spec_entries (entries b) (mapped s) = None))"
proof -
  have len: "\<And>r b. sdk_decode_fd_batch p = Inr (r, b) \<Longrightarrow> length received = fd_count b"
    using sdk_receive_batch[OF assms(1)] .
  have rec: "recvmsg_strict (Inr (packet, anc, flags)) (fds s) = (Inr (p, received), t)"
    using assms(1) unfolding agrees_Inr[OF sdk_recvmsg_agrees] .
  then have t: "t = with_cloexec received (fds s)" "set received \<subseteq> dom (fds s)" "received = received_fds anc"
    unfolding recvmsg_strict_Inr by blast+
  then have d: "set received \<subseteq> dom (fds (s\<lparr>fds := t\<rparr>))" by (auto simp: with_cloexec_def)
  have "close_fds received t = close_fds received (fds s)"
    unfolding t(1) by (auto simp: close_fds_eq with_cloexec_def fun_eq_iff)
  then have closed: "fds s' = close_fds received (fds s)"
    using handle_batch_closes[OF assms(2) len] by simp
  have refused: "spec_entries (entries b) (mapped s) = None"
    if "ack_status ack \<noteq> OK" "sdk_decode_fd_batch p = Inr (r, b)" "batch_generation b = gen" "distinct received"
      "list_all2 (mappable host) (maps_of (entries b)) received" for r b
  proof (rule ccontr)
    assume "spec_entries (entries b) (mapped s) \<noteq> None"
    then obtain m where "spec_entries (entries b) (mapped (s\<lparr>fds := t\<rparr>)) = Some m" by auto
    from handle_batch_accepts[OF that(2,3,5,4) d this, of str_of] assms(2) that(1) show False by auto
  qed
  show ?thesis using handle_batch_maps[OF assms(2) len] closed refused by (auto split: if_splits)
qed

definition example_host :: "(int, int) Host" where
  "example_host = \<lparr>fstat = (\<lambda>fd. Inr 4096), mmap = (\<lambda>fd n w. Inr (fd + 100)), frombuffer = (\<lambda>m t. Inr m),
     as_strided = (\<lambda>b sh st off. Inr (b * 10000 + off))\<rparr>"

definition example_batch :: FdBatch where
  "example_batch = \<lparr>transfer_id = 9, batch_generation = 3, entries = [\<lparr>entry_kind = MAP, buffer_id = 4,
      entry_generation = 1, allocation_id = 6, invocation_id = 0, byte_length = 4096, entry_flags = 1\<rparr>]\<rparr>"

lemma example_batch_packet:
  obtains packet where "encode_fd_batch 1 example_batch = Inr packet"
    "sdk_decode_fd_batch packet = Inr (1, example_batch)"
    "sdk_recvmsg_strict (Inr (packet, [(SOL_SOCKET, SCM_RIGHTS, [9, 0, 0, 0])], 0)) [9 \<mapsto> 0] = (Inr (packet, [9]), with_cloexec [9] [9 \<mapsto> 0])"
proof -
  obtain packet where p: "encode_fd_batch 1 example_batch = Inr packet"
    by (simp add: example_batch_def encode_fd_batch_def encode_fd_entry_def u64_def control_consts control_fmts
        fd_count_def encode_frame_def flag_defs fits_def err_simps)
  have "value_of (sdk_decode_fd_batch packet) = Some (1, example_batch)"
    using decode_encode_fd_batch[OF p] sdk_decode_fd_batch_parity[of packet] by simp
  then have d: "sdk_decode_fd_batch packet = Inr (1, example_batch)" by (simp add: value_of_eq_Some)
  obtain f where f: "decode_frame packet = Inr f" "expected_fd_count f packet = Inr 1"
    using batch_declares[OF p] by (auto simp: example_batch_def fd_count_def)
  have r: "received_fds [(SOL_SOCKET, SCM_RIGHTS, [9, 0, 0, 0])] = [9]" by (simp add: received_fds_def)
  have w: "well_formed_rights [(SOL_SOCKET, SCM_RIGHTS, [9, 0, 0, 0])]" by (simp add: well_formed_rights_def)
  have "recvmsg_strict (Inr (packet, [(SOL_SOCKET, SCM_RIGHTS, [9, 0, 0, 0])], 0)) [9 \<mapsto> 0]
     = (Inr (packet, [9]), with_cloexec [9] [9 \<mapsto> 0])"
    unfolding recvmsg_strict_Inr using f decode_frame_nonempty[OF f(1)] r w by (simp add: control_consts)
  then have "sdk_recvmsg_strict (Inr (packet, [(SOL_SOCKET, SCM_RIGHTS, [9, 0, 0, 0])], 0)) [9 \<mapsto> 0]
     = (Inr (packet, [9]), with_cloexec [9] [9 \<mapsto> 0])"
    unfolding agrees_Inr[OF sdk_recvmsg_agrees] .
  with p d show thesis by (rule that)
qed

theorem acknowledged_batch_is_mapped_witness:
  "\<exists>packet s'. encode_fd_batch 1 example_batch = Inr packet \<and>
     handle_batch example_host (\<lambda>e. []) 3 packet [9] \<lparr>fds = with_cloexec [9] [9 \<mapsto> 0], buffers = Map.empty\<rparr> =
       ((1, \<lparr>ack_transfer_id = 9, ack_generation = 3, ack_status = OK, ack_error = []\<rparr>), s') \<and>
     mapped s' = [4 \<mapsto> (1, 6, 4096, True, False, 0)] \<and> fds s' = close_fds [9] [9 \<mapsto> 0]"
proof -
  obtain packet where p: "encode_fd_batch 1 example_batch = Inr packet" "sdk_decode_fd_batch packet = Inr (1, example_batch)"
    and r: "sdk_recvmsg_strict (Inr (packet, [(SOL_SOCKET, SCM_RIGHTS, [9, 0, 0, 0])], 0)) [9 \<mapsto> 0] = (Inr (packet, [9]), with_cloexec [9] [9 \<mapsto> 0])"
    by (rule example_batch_packet)
  let ?s = "\<lparr>fds = [9 \<mapsto> 0], buffers = Map.empty\<rparr> :: (int, int) Receiver"
  let ?ack = "\<lparr>ack_transfer_id = 9, ack_generation = 3, ack_status = OK, ack_error = []\<rparr>"
  have m: "mapped ?s = Map.empty" by (simp add: mapped_def)
  have spec: "spec_entries (entries example_batch) Map.empty = Some [4 \<mapsto> (1, 6, 4096, True, False, 0)]"
    by (simp add: example_batch_def spec_entry_def announced_def flag_defs)
  have g: "batch_generation example_batch = 3" and i: "transfer_id example_batch = 9" by (simp_all add: example_batch_def)
  have l: "list_all2 (mappable example_host) (maps_of (entries example_batch)) [9]"
    by (simp add: example_batch_def example_host_def maps_of_def mappable_def)
  have d9: "set [9] \<subseteq> dom (fds (?s\<lparr>fds := with_cloexec [9] [9 \<mapsto> 0]\<rparr>))" by (auto simp: with_cloexec_def)
  have m9: "spec_entries (entries example_batch) (mapped (?s\<lparr>fds := with_cloexec [9] [9 \<mapsto> 0]\<rparr>)) = Some [4 \<mapsto> (1, 6, 4096, True, False, 0)]"
    unfolding mapped_simps(1) m by (rule spec)
  obtain s' where h: "handle_batch example_host (\<lambda>e. []) 3 packet [9] (?s\<lparr>fds := with_cloexec [9] [9 \<mapsto> 0]\<rparr>) = ((1, ?ack), s')"
    using handle_batch_accepts[OF p(2) g l _ d9 m9, of "\<lambda>e. []"] unfolding i by auto
  have "fds ?s = [9 \<mapsto> 0]" by simp
  note A = acknowledged_batch_is_mapped[of packet _ 0 ?s, unfolded this, OF r h]
  then have "fds s' = close_fds [9] [9 \<mapsto> 0]" "spec_entries (entries example_batch) (mapped ?s) = Some (mapped s')"
    using p(2) by auto
  with spec m have "mapped s' = [4 \<mapsto> (1, 6, 4096, True, False, 0)]" by simp
  with A h p(1) show ?thesis by auto
qed

text \<open>C27: A tensor the worker hands to an operation is the view its descriptor declares, over the
  mapping of the buffer it names, in that generation and allocation and writable as required;
  every element lies inside the declared byte range, and that inside the mapping.\<close>

theorem worker_tensor_is_as_declared:
  assumes "receiver_reachable host s" "cache_tensor host d iv require_writable s = (Inr v, s')"
  shows "\<exists>b item mapping storage. buffers s (d_buffer_id d) = Some b \<and> mb_generation b = d_generation d \<and>
    (mb_arena b \<or> mb_allocation_id b = d_allocation_id d) \<and>
    (require_writable \<longrightarrow> mb_writable b \<and> (mb_arena b \<or> mb_invocation_id b = iv)) \<and>
    mb_owner b = Some mapping \<and> frombuffer host mapping (d_dtype d) = Inr storage \<and>
    map_of ITEM_SIZES (d_dtype d) = Some item \<and>
    as_strided host storage (d_shape d) (map (\<lambda>s. s div item) (d_strides d)) (d_offset d div item) = Inr v \<and>
    0 \<le> d_offset d \<and> d_offset d + d_byte_length d \<le> mb_byte_length b \<and>
    (\<forall>idx. index_in (d_shape d) idx \<longrightarrow>
       (let at = item * (d_offset d div item + element_offset (map (\<lambda>s. s div item) (d_strides d)) idx)
        in d_offset d \<le> at \<and> at + item \<le> d_offset d + d_byte_length d))"
proof -
  from cache_tensor_run[OF receiver_reachable_ok[OF assms(1)] assms(2)] obtain b where
    b: "buffers s (d_buffer_id d) = Some b" "check_access b d iv require_writable = Inr ()"
    and v: "view_ok host b (view_key_of d) v" by blast
  have "mb_generation b = d_generation d \<and> (mb_arena b \<or> mb_allocation_id b = d_allocation_id d) \<and>
    (require_writable \<longrightarrow> mb_writable b \<and> (mb_arena b \<or> mb_invocation_id b = iv))"
    using b(2) by (auto simp: check_access_def err_simps split: if_splits)
  with b(1) view_ok_covers[OF v[unfolded view_key_of_def]] show ?thesis unfolding Let_def by metis
qed

definition example_descriptor :: TensorDescriptor where
  "example_descriptor = \<lparr>d_buffer_id = 4, d_generation = 1, d_allocation_id = 6, d_offset = 64, d_byte_length = 24,
     d_dtype = ''float32'', d_shape = [2, 3], d_strides = [12, 4]\<rparr>"

lemma example_added:
  "cache_add example_host (hd (entries example_batch)) 9 (\<lparr>fds = [9 \<mapsto> 1], buffers = Map.empty\<rparr> :: (int, int) Receiver) =
     (Inr (), \<lparr>fds = Map.empty, buffers = [4 \<mapsto> mapped_buffer (hd (entries example_batch)) 109]\<rparr>)"
proof -
  have "buffer_id (hd (entries example_batch)) = 4" "byte_length (hd (entries example_batch)) = 4096"
    "fstat example_host 9 = Inr 4096" "mmap example_host 9 4096 w = Inr 109" for w
    by (simp_all add: example_batch_def example_host_def)
  then show ?thesis
    by (simp add: cache_add_def map_descriptor_def os_close_def st_run Let_def)
qed

theorem worker_tensor_is_as_declared_witness:
  "\<exists>s s'. receiver_reachable example_host s \<and> cache_tensor example_host example_descriptor 0 True s = (Inr 1090016, s') \<and>
     (\<exists>b. buffers s 4 = Some b \<and> mb_writable b \<and> 64 + 24 \<le> mb_byte_length b)"
proof -
  let ?s = "\<lparr>fds = Map.empty, buffers = [4 \<mapsto> mapped_buffer (hd (entries example_batch)) 109]\<rparr> :: (int, int) Receiver"
  from receiver_reachable.more[OF receiver_reachable.start adds[OF example_added]] have r: "receiver_reachable example_host ?s" .
  obtain s' where t: "cache_tensor example_host example_descriptor 0 True ?s = (Inr 1090016, s')"
    by (simp add: cache_tensor_def st_run example_descriptor_def mapped_buffer_def example_batch_def check_access_def
        flag_defs ITEM_SIZES_def validate_view_def WORKER_MAX_RANK_def base_tensor_def example_host_def view_key_of_def)
  from worker_tensor_is_as_declared[OF r t] r t show ?thesis
    by (auto simp: example_descriptor_def)
qed

section \<open>Sessions and workers\<close>

definition example_sum :: OperationMetadata where
  "example_sum = example_operation\<lparr>om_name := ''sum'', om_operation_id := 3, tensor_outputs := [], output_plans := []\<rparr>"

definition example_call :: BoundInvocation where
  "example_call = \<lparr>bi_operation = example_sum, bi_tensor_inputs = [(example_tensor, False)], bi_scalars = [SBool True], bi_out = None\<rparr>"

definition example_shared :: SharedBuffer where
  "example_shared = \<lparr>sb_region = 4, sb_generation = 1, sb_allocation_id = 6, sb_offset = 0, sb_byte_length = 4096, sb_arena = False\<rparr>"

definition example_handler :: "int InvocationContext \<Rightarrow> unit result" where
  "example_handler cx = (if cx_scalars cx = [SBool True] \<and> cx_inputs cx = [1090016] then Inr () else Inl (ValueError ''unexpected''))"

definition example_torch :: "int Torch" where
  "example_torch = \<lparr>torch_dtype = (\<lambda>_. ''float32''), torch_result_type = (\<lambda>_ _. ''float32'')\<rparr>"

definition example_errors :: Errors where
  "example_errors = \<lparr>err_type_name = (\<lambda>_. []), err_str = (\<lambda>_. [])\<rparr>"

text \<open>C28: A worker that answers a session's command with success has run the handler registered for
  the operation the session bound, on the views declared by the descriptors sent and on exactly the
  scalars bound; every answer is of the command's kind, session and invocation, and whatever
  happens no mapping private to the invocation is left.\<close>

theorem worker_runs_what_was_bound:
  assumes "compile_operations ms handlers = Inr ops" "distinct (map om_operation_id ms)" "bi_operation bi \<in> set ms"
    and "invocation_record g iid (om_operation_id (bi_operation bi)) inputs outputs bi prof COMMAND_INVOKE = Inr command"
    and "receiver_reachable host s" "answer host torch errs ops planners clock command s = (c, s')"
  shows "r_kind c = COMPLETION_INVOKE \<and> r_generation c = g \<and> r_invocation_id c = iid \<and>
    (\<forall>k b. buffers s' k = Some b \<longrightarrow> \<not> expired iid b) \<and>
    (r_status c = STATUS_OK \<longrightarrow> (\<exists>h cx. map_of handlers (om_name (bi_operation bi)) = Some h \<and> h cx = Inr () \<and>
       cx_operation cx = bi_operation bi \<and> cx_invocation_id cx = iid \<and> cx_scalars cx = bi_scalars bi \<and>
       list_all2 (viewed host (bare_buffers s) iid) (map (\<lambda>(d, p). (d, tp_access p = ''readWrite''))
         (zip (map snd inputs) (tensor_inputs (bi_operation bi)))) (cx_inputs cx) \<and>
       list_all2 (viewed host (bare_buffers s) iid) (map (\<lambda>d. (d, True)) (map snd outputs)) (cx_outputs cx)))"
proof -
  obtain h where h: "map_of handlers (om_name (bi_operation bi)) = Some h"
    "map_of ops (om_operation_id (bi_operation bi)) = Some (compiled_operation (bi_operation bi) h)"
    by (rule compile_operations_Inr[OF assms(1-3)])
  note R = record_of_invocation[OF assms(4)] and A = answer_run[OF receiver_holds[OF assms(5)] assms(6)]
  have "\<not> expired iid b" if "buffers s' k = Some b" for k b
  proof -
    have "bare_buffers s' = without_expired iid (bare_buffers s)"
      using A(1) R(2,3) by (simp add: holds_buffers_def buffers_after_def)
    from fun_cong[OF this, of k] that have "without_expired iid (bare_buffers s) k = Some (bare b)"
      by (simp add: bare_buffers_def)
    then have "\<not> expired iid (bare b)" by (auto simp: without_expired_def split: option.splits if_splits)
    then show ?thesis by simp
  qed
  moreover have "\<exists>cx. h cx = Inr () \<and>
       cx_operation cx = bi_operation bi \<and> cx_invocation_id cx = iid \<and> cx_scalars cx = bi_scalars bi \<and>
       list_all2 (viewed host (bare_buffers s) iid) (map (\<lambda>(d, p). (d, tp_access p = ''readWrite''))
         (zip (map snd inputs) (tensor_inputs (bi_operation bi)))) (cx_inputs cx) \<and>
       list_all2 (viewed host (bare_buffers s) iid) (map (\<lambda>d. (d, True)) (map snd outputs)) (cx_outputs cx)"
    if "r_status c = STATUS_OK"
  proof -
    from A(4)[OF that R(2)] obtain op cx where
      c: "context_of host torch (bare_buffers s) ops (record_invocation True command) op cx" "wo_handler op cx = Inr ()" by blast
    from context_of_session[OF assms(4) h(2) c(1)] c(2) show ?thesis by blast
  qed
  ultimately show ?thesis using A(2) R(2-4) h(1)
    by (simp add: same_command_def completion_kind_def)
qed

theorem worker_runs_what_was_bound_witness:
  "\<exists>ops command s c s'. compile_operations [example_sum] [(''sum'', example_handler)] = Inr ops \<and>
     invocation_record 5 9 3 [(example_shared, example_descriptor)] [] example_call False COMMAND_INVOKE = Inr command \<and>
     answer example_host example_torch example_errors ops [] (\<lambda>_. 0) command s = (c, s') \<and>
     r_status c = STATUS_OK \<and> r_invocation_id c = 9 \<and> (\<exists>cx. example_handler cx = Inr () \<and> cx_scalars cx = [SBool True])"
proof -
  let ?s = "\<lparr>fds = Map.empty, buffers = [4 \<mapsto> mapped_buffer (hd (entries example_batch)) 109]\<rparr> :: (int, int) Receiver"
  from receiver_reachable.more[OF receiver_reachable.start adds[OF example_added]] have r: "receiver_reachable example_host ?s" .
  have n: "om_operation_id example_sum = 3" "om_name example_sum = ''sum''" "bi_operation example_call = example_sum"
    by (simp_all add: example_sum_def example_call_def)
  let ?ops = "[(3, compiled_operation example_sum example_handler)]"
  have ops: "compile_operations [example_sum] [(''sum'', example_handler)] = Inr ?ops"
    by (simp add: compile_operations_def n)
  obtain command where cmd: "invocation_record 5 9 3 [(example_shared, example_descriptor)] [] example_call False COMMAND_INVOKE = Inr command"
    by (simp add: invocation_record_def example_call_def example_sum_def example_operation_def)
  obtain c s' where a: "answer example_host example_torch example_errors ?ops [] (\<lambda>_. 0) command ?s = (c, s')" by (metis surj_pair)
  have cmd': "invocation_record 5 9 (om_operation_id (bi_operation example_call)) [(example_shared, example_descriptor)] []
      example_call False COMMAND_INVOKE = Inr command" using cmd n by simp
  note iv = record_of_invocation[OF cmd']
  have st: "r_status c = STATUS_OK"
  proof -
    have t: "\<exists>s1. cache_tensor example_host example_descriptor 9 False ?s = (Inr 1090016, s1)"
      by (simp add: cache_tensor_def st_run example_descriptor_def mapped_buffer_def example_batch_def check_access_def
        flag_defs ITEM_SIZES_def validate_view_def WORKER_MAX_RANK_def base_tensor_def example_host_def view_key_of_def)
    then obtain s1 where t: "cache_tensor example_host example_descriptor 9 False ?s = (Inr 1090016, s1)" ..
    have f: "r_flags command = 0" using cmd by (auto simp: invocation_record_def split: if_splits)
    have d: "decode_scalars [\<lparr>s_parameter = 0, s_kind = ''boolean'', s_value = SBool True\<rparr>] [''boolean''] = Inr [SBool True]"
      by (simp add: decode_scalars_def py_index_def position_def)
    have p: "fst (perform example_host example_torch ?ops [] (\<lambda>_. 0) command (fresh_completion (\<lambda>_. 0) command) ?s)
        = Inr (fresh_completion (\<lambda>_. 0) command)"
      using t d iv(2)
      by (simp add: perform_def st_run invoke_known_def profiled_def f invoke_known_direct_def always_def invoke_body_def iv(1)
          n compiled_operation_def scalar_records_def example_call_def make_context_def)
        (simp add: example_sum_def example_operation_def scalar_records_def d make_context_def example_torch_def example_handler_def
          context_scalar_def st_run)
    show ?thesis using answer_run(3)[OF receiver_holds[OF r] a] unfolding p by simp
  qed
  have "bi_operation example_call \<in> set [example_sum]" "distinct (map om_operation_id [example_sum])" by (simp_all add: n)
  note W = worker_runs_what_was_bound[OF ops this(2,1) cmd' r a]
  from W st obtain h cx where cx: "map_of [(''sum'', example_handler)] (om_name (bi_operation example_call)) = Some h"
    "h cx = Inr ()" "cx_scalars cx = bi_scalars example_call" by blast
  then have "example_handler cx = Inr ()" "cx_scalars cx = [SBool True]" by (simp_all add: n example_call_def)
  with W st ops cmd a show ?thesis by blast
qed

text \<open>C29: An invocation through a session ends in one of four ways: it is refused or fails to bind
  and nothing has been asked of the worker; it returns the prepared outputs after exactly one
  invoke command, built from the bound call, was answered with success; it raises and the session
  stays usable, nothing having run or the operation itself having raised; or it raises a transport
  error and the session is closed. In every case the access reservation is released.\<close>

theorem invocation_ends:
  assumes "submit_invocation w prof ops name args kwargs out s = (r, s')"
  shows "(\<exists>e. r = Inl e \<and> se_log s' = se_log s \<and> se_life s' = se_life s) \<or>
    (\<exists>outs op bi a d. r = Inr outs \<and> map_of ops name = Some op \<and>
       bind_invocation (w_grad_enabled w) op args kwargs out = Inr bi \<and>
       se_log s' = se_log s @ [Reserved a] @ d @ [Released a] \<and>
       ends_well w (se_next s) bi prof (se_log s @ [Reserved a]) d outs \<and> se_life s' = se_life s) \<or>
    (\<exists>e a d. r = Inl e \<and> se_log s' = se_log s @ [Reserved a] @ d @ [Released a] \<and>
       ends_usable (se_next s) d e \<and> se_life s' = se_life s) \<or>
    (\<exists>e a d. r = Inl (WorkerTransportError e) \<and> se_log s' = se_log s @ [Reserved a] @ d @ [Released a] \<and>
       lc_closed (se_life s') \<and> lc_invalidated (se_life s'))"
proof (cases rule: submit_invocation_outcome[OF assms, case_names refused unbound returned raised broken])
  case (refused e)
  then show ?thesis by (intro disjI1) simp
next
  case (unbound e)
  then show ?thesis by (intro disjI1) simp
next
  case (returned op bi outs a d)
  then show ?thesis by (intro disjI2 disjI1 exI[of _ outs] exI[of _ op] exI[of _ bi] exI[of _ a] exI[of _ d] conjI)
next
  case (raised e a d)
  then show ?thesis by (intro disjI2 disjI1 exI[of _ e] exI[of _ a] exI[of _ d] conjI)
next
  case (broken e a d)
  then show ?thesis by (intro disjI2 exI[of _ e] exI[of _ a] exI[of _ d] conjI)
qed

definition example_tick :: OperationMetadata where
  "example_tick = example_sum\<lparr>om_name := ''tick'', tensor_inputs := [], dtype_variables := []\<rparr>"

definition example_world :: "(int \<times> ustr \<times> ustr) result \<Rightarrow> World" where
  "example_world reply = \<lparr>w_generation = 5, w_recipient = 1, w_inference = False, w_grad_enabled = False,
     w_result_type = (\<lambda>_ _. ''float32''), w_retire = (\<lambda>_ _. True), w_reset = (\<lambda>_. True), w_numbers = (\<lambda>_ _. ([], [])),
     w_ensure = (\<lambda>_. Inr []), w_plan = (\<lambda>_. Inl AssertionError), w_invoke = (\<lambda>_. reply),
     w_profiled = (\<lambda>_. Inl AssertionError), w_abort = (\<lambda>_. Inr ())\<rparr>"

definition example_session :: Session where
  "example_session = \<lparr>se_manager = example_manager ''pooled'', se_life = started_session, se_next = 1, se_log = []\<rparr>"

lemma example_open: "\<not> m_closed (example_manager ''pooled'')"
  by (simp add: manager_run)

lemmas submit_run = submit_invocation_def begin_call_def started_session_def bind_and_invoke_def with_access_def
  always_def invocation_lists_def collect_accesses_def invoke_direct_def next_invocation_id_def take_invocation_id_def
  share_inputs_def input_mappings_def is_dynamic_def after_error_def prepare_outputs_def plan_dynamic_outputs_def
  on_some_error_def plan_outputs_def evaluate_outputs_def complete_outputs_def materialize_outputs_def
  ensure_mapped_many_def ask_def emit_def invocation_record_def end_call_def invalidated_def invalidate_def st_run

theorem invocation_ends_witness:
  "\<exists>d s' a. submit_invocation (example_world (Inr (STATUS_OK, [], []))) False [(''tick'', example_tick)] ''tick'' []
      [(''keep_dim'', PValue (SBool False))] None example_session = (Inr [], s') \<and>
    se_log s' = [Reserved a] @ d @ [Released a] \<and> (\<exists>command. last d = Submitted command)"
proof -
  have k: "scalar_parameters example_tick = scalar_parameters example_operation" "tensor_inputs example_tick = []"
    "output_plans example_tick = []" "tensor_outputs example_tick = []" "dtype_variables example_tick = []"
    by (simp_all add: example_tick_def example_sum_def)
  have b: "bind_invocation False example_tick [] [(''keep_dim'', PValue (SBool False))] None
      = Inr \<lparr>bi_operation = example_tick, bi_tensor_inputs = [], bi_scalars = [SBool False], bi_out = None\<rparr>"
    by (simp add: bind_invocation_def tensors_of_def bind_scalars_def is_tensor_def k take_scalar_def validate_tensor_dtypes_def
        dtype_loop.simps)
      (simp add: example_operation_def example_keyword coerce_scalar_def take_scalar_def)
  let ?w = "example_world (Inr (STATUS_OK, [], []))"
  have "\<exists>s'. submit_invocation ?w False [(''tick'', example_tick)] ''tick'' []
      [(''keep_dim'', PValue (SBool False))] None example_session = (Inr [], s')"
    using example_open b
    by (simp add: submit_run example_session_def example_world_def k output_values_def)
      (simp add: example_operation_def STATUS_OK_def STATUS_OPERATION_ERROR_def)
  then obtain s' where s: "submit_invocation ?w False [(''tick'', example_tick)] ''tick'' []
      [(''keep_dim'', PValue (SBool False))] None example_session = (Inr [], s')" ..
  from invocation_ends[OF this] obtain bi a d where
    "se_log s' = se_log example_session @ [Reserved a] @ d @ [Released a]"
    "ends_well ?w (se_next example_session) bi False (se_log example_session @ [Reserved a]) d []" by auto
  then have "se_log s' = [Reserved a] @ d @ [Released a]" "\<exists>command. last d = Submitted command"
    by (auto simp: example_session_def ends_well_def)
  with s show ?thesis by blast
qed

section \<open>The isolated backend\<close>

text \<open>C30: Once a backend is closed no worker session it ever made is left open, none is in use or
  being made, and its shared memory is closed; while its closer closes the sessions no call uses
  one. A discovery that fails has closed every session it opened.\<close>

theorem closed_backend_leaves_nothing:
  assumes "backend_reachable w"
  shows "(be_state (be w) = Backend_closed \<longrightarrow>
      alive w = {} \<and> phases w = {#} \<and> be_inflight (be w) = 0 \<and> be_creating (be w) = {} \<and> buffers_closed w) \<and>
    (\<forall>ss p s. Close_sessions ss \<in># phases w \<longrightarrow> Using p s \<notin># phases w \<and> Created p s \<notin># phases w) \<and>
    (\<forall>starts ms e w'. discover starts ms = (Inl e, w') \<longrightarrow> alive w' = {} \<and> buffers_closed w')"
proof -
  note I = backend_reachable_inv[OF assms]
  from closed_backend[OF I] closer_excludes_users[OF I] discover_fails show ?thesis by blast
qed

lemma example_discovered:
  obtains r w where "discover (\<lambda>_. Inr ()) [example_plugin ''a''] = (Inr r, w)" "be_sessions (be w) = [(''a'', 0)]"
    "be_state (be w) = Backend_open" "phases w = {#}" "be_inflight (be w) = 0" "be_creating (be w) = {}" "alive w = {0}"
proof -
  obtain r where "register (example_plugin ''a'') new_registry = (Inr (), r)"
    by (simp add: register_def st_run new_registry_def)
  then have "discover (\<lambda>_. Inr ()) [example_plugin ''a''] = (Inr r, fresh_world\<lparr>be := new_backend\<lparr>be_sessions := [(''a'', 0)]\<rparr>,
      alive := {0}, made := 1\<rparr>)"
    by (simp add: discover_def st_run example_plugin_def fresh_world_def new_backend_def)
  from that[OF this] show thesis by (simp add: fresh_world_def new_backend_def)
qed

lemma example_closing:
  obtains w where "backend_reachable w" "be_state (be w) = Backend_closing" "Close_sessions [0] \<in># phases w" "alive w = {0}"
    "Close_sessions [] \<in># phases (into {#Close_sessions [0]#} {#Close_sessions []#} (w\<lparr>alive := alive w - {0}\<rparr>))"
proof -
  obtain r w0 where d: "discover (\<lambda>_. Inr ()) [example_plugin ''a''] = (Inr r, w0)" "be_sessions (be w0) = [(''a'', 0)]"
    "be_state (be w0) = Backend_open" "phases w0 = {#}" "be_inflight (be w0) = 0" "be_creating (be w0) = {}" "alive w0 = {0}"
    by (rule example_discovered)
  let ?b1 = "(be w0)\<lparr>be_state := Backend_closing\<rparr>"
  let ?w1 = "into {#} {#Close_drains#} (w0\<lparr>be := ?b1\<rparr>)"
  have 1: "backend_step w0 ?w1" by (rule backend_step.close_begins) (simp add: acquire_cases d)
  let ?w2 = "into {#Close_drains#} {#Close_sessions [0]#} (?w1\<lparr>be := ?b1\<lparr>be_sessions := []\<rparr>\<rparr>)"
  have 2: "backend_step ?w1 ?w2"
    by (rule backend_step.close_takes) (simp_all add: into_def d backend_drained_def take_sessions_def)
  from goes_on[OF goes_on[OF discovered[OF d(1)] 1] 2] show thesis
    by (rule that) (simp_all add: into_def d)
qed

theorem closed_backend_leaves_nothing_witness:
  "\<exists>w. backend_reachable w \<and> be_state (be w) = Backend_closed \<and> alive w = {} \<and> buffers_closed w"
proof -
  obtain w where w: "backend_reachable w" "Close_sessions [0] \<in># phases w"
    "Close_sessions [] \<in># phases (into {#Close_sessions [0]#} {#Close_sessions []#} (w\<lparr>alive := alive w - {0}\<rparr>))"
    by (rule example_closing)
  from goes_on[OF goes_on[OF w(1) backend_step.close_one[OF w(2)]] backend_step.close_ends[OF w(3)]] obtain w' where
    r: "backend_reachable w'" "be_state (be w') = Backend_closed" by (simp add: backend_close_finish_def)
  from closed_backend_leaves_nothing[OF r(1)] r show ?thesis by blast
qed



section \<open>Configuration\<close>

text \<open>C35: Validation of a configuration against accepted metadata never fails but with a
  \<open>ValueError\<close>, whatever the value is, with one exception: a value in which some key of an object
  is not a string may instead raise the \<open>TypeError\<close> of sorting or joining the names of its unknown fields. No
  other type error, missing key or index error comes from the schema's interpreter.\<close>

theorem configuration_is_total:
  assumes "parse_configuration_metadata fr sha p document = Inr (Some m)"
  shows "(\<exists>data. validate_and_canonicalize fr config' (Some m) = Inr data \<and> length data \<le> MAX_CONFIGURATION_BYTES) \<or>
    (\<exists>s. validate_and_canonicalize fr config' (Some m) = Inl (ValueError s)) \<or>
    (\<not> string_keys config' \<and>
      validate_and_canonicalize fr config' (Some m) = Inl (TypeError ''sequence item: expected str instance''))"
proof -
  have "validate_schema (cf_schema m) True = Inr ()"
    using assms(1) by (rule parsed_schema)
  then have v: "refused_or (\<not> string_keys config') (validate_value config' (cf_schema m))"
    by (rule validate_value_total) blast
  show ?thesis
  proof (cases "\<exists>d. config' = JObject d")
    case False
    then show ?thesis by (cases config')
        (simp_all add: validate_and_canonicalize_def EMPTY_CONFIGURATION_BYTES_def MAX_CONFIGURATION_BYTES_def)
  next
    case True
    then obtain d where d: "config' = JObject d" by blast
    show ?thesis
    proof (cases "validate_value config' (cf_schema m) = Inr ()")
      case False
      then show ?thesis using v d by (auto simp: refused_or_def validate_and_canonicalize_def)
    next
      case True
      note ok = True d
      show ?thesis
      proof (cases "plain_json config'")
        case (Inl e)
        then show ?thesis using plain_json_refused[OF Inl] ok by (auto simp: validate_and_canonicalize_def)
      next
        case (Inr c)
        then show ?thesis using ok unfolding validate_and_canonicalize_def
          by (cases "ebind (dumps fr False c) utf8_encode")
            (auto simp: EMPTY_CONFIGURATION_BYTES_def MAX_CONFIGURATION_BYTES_def)
      qed
    qed
  qed
qed

definition sample_schema :: fields where
  "sample_schema = [(key ''type'', JStr (text_of ''object'')), (key ''properties'', JObject []), (key ''required'', JList []),
     (key ''additionalProperties'', JBool False)]"

definition sample_document :: jval where
  "sample_document = JObject [(key ''encoding'', JStr ENCODING), (key ''schemaVersion'', JInt 1),
     (key ''fingerprint'', JStr (text_of ''sha256:'' @ replicate 64 48)), (key ''schema'', JObject sample_schema),
     (key ''examples'', JObject [])]"

lemma sample_schema_ok: "validate_schema sample_schema True = Inr ()"
  by (subst validate_schema.simps)
    (simp add: sample_schema_def kind_of_def keys_optional_def allowed_fields_def object_of_def get_def required_field_def
      schema_enum_def schema_bounds_def schema_bound_def schema_default_def kind_sets)

lemma ascii_encodes: "list_all (\<lambda>c. c < 128) s \<Longrightarrow> \<exists>data. utf8_encode s = Inr data"
  by (induction s) (auto simp: utf8_char_def)

lemma sample_text: "\<exists>data. ebind (schema_text fr sample_schema) utf8_encode = Inr data"
proof -
  have "\<exists>s. schema_text fr sample_schema = Inr s \<and> list_all (\<lambda>c. c < 128) s"
    by (simp add: schema_text_def sample_schema_def key_def text_of_def ENCODING_def quote_def escape_char_def)
  then show ?thesis using ascii_encodes by fastforce
qed

lemma sample_metadata:
  "parse_configuration_metadata fr (\<lambda>_. replicate 64 48) ''p'' sample_document =
     Inr (Some \<lparr>cf_plugin = ''p'', cf_schema_version = 1, cf_fingerprint = text_of ''sha256:'' @ replicate 64 48,
       cf_schema = sample_schema, cf_examples = []\<rparr>)"
proof -
  obtain data where "ebind (schema_text fr sample_schema) utf8_encode = Inr data" using sample_text by blast
  then obtain s where s: "schema_text fr sample_schema = Inr s" "utf8_encode s = Inr data" by (auto simp: ebind_eq_Inr)
  have "fingerprint_syntax (text_of ''sha256:'' @ replicate 64 48)"
    by (simp add: fingerprint_syntax_def text_of_def list_all_iff)
  with s show ?thesis
    by (simp add: parse_configuration_metadata_def sample_document_def object_of_def keys_optional_def get_def sample_schema_ok)
qed

theorem configuration_is_total_witness:
  "\<exists>m. parse_configuration_metadata (\<lambda>_. []) (\<lambda>_. replicate 64 48) ''p'' sample_document = Inr (Some m) \<and>
    ((\<exists>data. validate_and_canonicalize (\<lambda>_. []) (JObject [(key ''x'', JInt 1)]) (Some m) = Inr data \<and> length data \<le> MAX_CONFIGURATION_BYTES) \<or>
     (\<exists>s. validate_and_canonicalize (\<lambda>_. []) (JObject [(key ''x'', JInt 1)]) (Some m) = Inl (ValueError s)))"
  using configuration_is_total[where fr = "\<lambda>_. []" and config' = "JObject [(key ''x'', JInt 1)]", OF sample_metadata]
    sample_metadata[of "\<lambda>_. []"]
  by (auto simp: key_def)

text \<open>C36: Two accepted configurations that are present (not \<open>None\<close>, which shares the bytes of the
  empty one) have the same canonical bytes exactly when they are the same
  value up to the order of keys, whichever metadata accepted them: the bytes are an identity, so
  comparing them (\<open>already initialized with different configuration\<close>) compares configurations.\<close>

theorem canonical_bytes_identify:
  assumes "float_repr_ok fr" "well False c" "well False c'" "c \<noteq> JNull" "c' \<noteq> JNull"
    and "validate_and_canonicalize fr c (Some m) = Inr data" "validate_and_canonicalize fr c' (Some m') = Inr data'"
  shows "data = data' \<longleftrightarrow> same_json c c'"
  using assms by (rule canonical_bytes)

definition two_integers :: "jval \<Rightarrow> ConfigurationMetadata" where
  "two_integers description = \<lparr>cf_plugin = ''p'', cf_schema_version = 1, cf_fingerprint = [],
     cf_schema = [(key ''type'', JStr (text_of ''object'')), (key ''description'', description), (key ''required'', JList []),
       (key ''additionalProperties'', JBool False),
       (key ''properties'', JObject [(key ''a'', JObject [(key ''type'', JStr (text_of ''integer''))]),
          (key ''b'', JObject [(key ''type'', JStr (text_of ''integer''))])])], cf_examples = []\<rparr>"

lemma bits_repr_ok: "float_repr_ok (\<lambda>w. decimal (unat w) @ [46])"
proof -
  have "list_all number_char (decimal n)" for n
  proof (induction n rule: decimal.induct)
    case (1 n)
    have "k < 10 \<Longrightarrow> number_char (48 + k)" for k by (simp add: number_char_def)
    with 1 show ?case by (subst decimal.simps) simp
  qed
  moreover have "decimal (unat x) = decimal (unat y) \<Longrightarrow> x = y" for x y :: "64 word"
    by (metis undecimal_decimal unsigned_word_eqI)
  ultimately show ?thesis by (auto simp: float_repr_ok_def number_char_def inj_on_def)
qed

lemma two_integers_bytes:
  "validate_and_canonicalize fr (JObject [(key ''b'', JInt 2), (key ''a'', JInt 1)]) (Some (two_integers d)) =
     Inr [123, 34, 97, 34, 58, 49, 44, 34, 98, 34, 58, 50, 125]"
  by (simp add: validate_and_canonicalize_def validate_value.simps two_integers_def item_of_def object_fields_def mapping_of_def
      required_names_def validate_scalar_value_def scalar_valid_def constraints_def enum_check_def bound_check_def get_def
      kind_sets key_def text_of_def int_text_def int_repr_def decimal.simps quote_def escape_char_def utf8_char_def byte_of_def
      MAX_CONFIGURATION_BYTES_def)

lemma two_integers_bytes':
  "validate_and_canonicalize fr (JObject [(key ''a'', JInt 1), (key ''b'', JInt 2)]) (Some (two_integers d)) =
     Inr [123, 34, 97, 34, 58, 49, 44, 34, 98, 34, 58, 50, 125]"
  by (simp add: validate_and_canonicalize_def validate_value.simps two_integers_def item_of_def object_fields_def mapping_of_def
      required_names_def validate_scalar_value_def scalar_valid_def constraints_def enum_check_def bound_check_def get_def
      kind_sets key_def text_of_def int_text_def int_repr_def decimal.simps quote_def escape_char_def utf8_char_def byte_of_def
      MAX_CONFIGURATION_BYTES_def)

theorem canonical_bytes_identify_witness:
  "validate_and_canonicalize (\<lambda>w. decimal (unat w) @ [46]) (JObject [(key ''b'', JInt 2), (key ''a'', JInt 1)]) (Some (two_integers JNull)) =
     validate_and_canonicalize (\<lambda>w. decimal (unat w) @ [46]) (JObject [(key ''a'', JInt 1), (key ''b'', JInt 2)]) (Some (two_integers (JStr [97]))) \<and>
   same_json (JObject [(key ''b'', JInt 2), (key ''a'', JInt 1)]) (JObject [(key ''a'', JInt 1), (key ''b'', JInt 2)])"
proof (rule conjI)
  show "validate_and_canonicalize (\<lambda>w. decimal (unat w) @ [46]) (JObject [(key ''b'', JInt 2), (key ''a'', JInt 1)]) (Some (two_integers JNull)) =
     validate_and_canonicalize (\<lambda>w. decimal (unat w) @ [46]) (JObject [(key ''a'', JInt 1), (key ''b'', JInt 2)]) (Some (two_integers (JStr [97])))"
    by (simp only: two_integers_bytes two_integers_bytes')
  have "well False (JObject [(key ''b'', JInt 2), (key ''a'', JInt 1)])" "well False (JObject [(key ''a'', JInt 1), (key ''b'', JInt 2)])"
    by (simp_all add: key_def text_of_def encodable_def)
  from iffD1[OF canonical_bytes_identify[OF bits_repr_ok this _ _ two_integers_bytes[of _ JNull] two_integers_bytes'[of _ "JStr [97]"]] refl]
  show "same_json (JObject [(key ''b'', JInt 2), (key ''a'', JInt 1)]) (JObject [(key ''a'', JInt 1), (key ''b'', JInt 2)])"
    by simp
qed

section \<open>Runtime\<close>

text \<open>A plugin with one operation and a Python provider, loaded and selected in process.\<close>

definition sample_plugin :: PluginMetadata where
  "sample_plugin = \<lparr>pm_name = ''p'', pm_version = ''1'', pm_protocol_version = 1,
     pm_operations = [\<lparr>om_name = ''go'', tensor_inputs = [], tensor_outputs = [], scalar_parameters = [], om_operation_id = 1,
        output_plans = [], vjp = None, internal = False, dtype_variables = []\<rparr>],
     pm_fingerprint = 0, pm_metadata_version = 2\<rparr>"

definition sample_manifest :: "unit Manifest" where
  "sample_manifest = \<lparr>mf_name = ''p'', mf_metadata = sample_plugin, mf_configuration = None,
     mf_configuration_bytes = EMPTY_CONFIGURATION_BYTES, mf_python_provider = Some ''m'', mf_bundled_namespace = None,
     mf_has_initialize = False, mf_has_shutdown = False, mf_logging = ()\<rparr>"

definition sample_providers :: "unit Providers" where
  "sample_providers = \<lparr>compiled = None, native_operation = (\<lambda>_ _. Inr ()), import_provider = (\<lambda>_. Inr (\<lambda>_. True)),
     make_logger = (\<lambda>_ _. Inr ()), native_initialize = (\<lambda>_ _. Inr ()), python_initialize = (\<lambda>_. None),
     native_shutdown = (\<lambda>_. Inr ()), python_shutdown = (\<lambda>_. None)\<rparr>"

definition sample_backends :: "(any_backend, unit) Backends" where
  "sample_backends = backends_of sample_providers ()"

definition sample_registry :: Registry where
  "sample_registry = snd (register_all [sample_plugin] new_registry)"

lemma sample_checked: "checked_registry [sample_manifest] = Inr sample_registry"
  by (simp add: checked_registry_def sample_registry_def sample_manifest_def sample_plugin_def register_def st_run new_registry_def
      register_operation_def Let_def validate_public_operations_def plugin_names_def qualified_operation_names_def
      qualified_name_def public_name_def is_identifier_def id_start_def id_continue_def KEYWORDS_def local_name_def
      RESERVED_OPERATION_NAMES_def operation_def resolve_name_def)

definition sample_runtime :: "(any_backend, unit) Runtime" where
  "sample_runtime = snd (use_backend sample_backends ''bundled''
     (snd (load_plugins sample_backends (Inr [sample_manifest]) (new_runtime sample_backends))))"

definition sample_world :: "(any_backend, unit) Runtime_World" where
  "sample_world = \<lparr>rt_state = sample_runtime, tasks = {#}, shut = []\<rparr>"

lemma call_step: "runtime_step k fr w (w\<lparr>rt_state := snd (perform_call k fr c (rt_state w))\<rparr>)"
  by (rule runtime_step.call) (rule prod.collapse[symmetric])

lemma sample_world_reachable: "runtime_reachable sample_backends fr sample_world"
proof -
  let ?s = "(runtime_start sample_backends)\<lparr>rt_state := snd (load_plugins sample_backends (Inr [sample_manifest]) (new_runtime sample_backends))\<rparr>"
  have "runtime_step sample_backends fr (runtime_start sample_backends) ?s"
    using call_step[of sample_backends fr "runtime_start sample_backends" "Load (Inr [sample_manifest])"]
    by (simp add: runtime_start_def)
  moreover have "runtime_step sample_backends fr ?s sample_world"
    using call_step[of sample_backends fr ?s "Use ''bundled''"]
    by (simp add: runtime_start_def sample_world_def sample_runtime_def)
  ultimately show ?thesis unfolding runtime_reachable_def
    by (intro runtime_steps_trans[OF runtime_steps_one runtime_steps_one])
qed

lemma sample_registry_names:
  "operation_names sample_registry = Inr [''go'']" "qualified_operation_names sample_registry = [''p.go'']"
  "plugin_for_operation sample_registry ''go'' = Inr ''p''"
  by (simp_all add: sample_registry_def sample_plugin_def register_def st_run new_registry_def register_operation_def Let_def
      qualified_operation_names_def operation_names_def qualified_name_def plugin_for_operation_def resolve_name_def)

lemma sample_runtime_eq:
  "\<exists>d. bundled_operation_names d = [''go''] \<and> sample_runtime = \<lparr>rt_open = True, rt_active_work = 0, rt_close_generation = 0,
     rt_backends = [(''bundled'', In_process d)], rt_backend_name = Some ''bundled'', rt_registry = sample_registry,
     rt_manifests = [(''p'', sample_manifest)], rt_plugin_configurations = [(''p'', EMPTY_CONFIGURATION_BYTES)],
     rt_plugin_logging = [(''p'', ())], rt_initialized_plugins = {''p''}, rt_operation_generation = 1,
     rt_memory_mode = ''pooled'', rt_arena_bytes = None, rt_bundled_implementation = ''auto'',
     rt_deadlines = DEFAULT_TRANSPORT_DEADLINES\<rparr>"
  by (simp add: sample_runtime_def load_plugins_def use_backend_def st_run ensure_open_def new_runtime_def sample_checked[unfolded sample_manifest_def sample_plugin_def]
      install_loaded_def by_name_def initial_backends_def sample_backends_def backends_of_def operation_names_locked_def
      sample_registry_names initialize_in_process_def initialize_backend_def configured_manifests_def found_or_def
      initialize_any_def bundled_initialize_def new_bundled_def resolve_provider_def load_native_module_def operations_of_def
      public_operations_def sample_providers_def  run_initialize_def started_def names_of_backend_def bundled_operation_names_def
      qualified_name_def dot_free_def sample_manifest_def sample_plugin_def)

lemma sample_resolves:
  "resolve_operation sample_backends ''p.go'' (rt_state sample_world) =
     Some (Inr (1, Some (hd (pm_operations sample_plugin))))"
  "\<exists>b s. begin_work sample_backends (Invoke_registered ''p.go'' 1) (rt_state sample_world) = (Inr b, s)"
proof -
  obtain d where d: "bundled_operation_names d = [''go'']" "sample_runtime = \<lparr>rt_open = True, rt_active_work = 0, rt_close_generation = 0,
     rt_backends = [(''bundled'', In_process d)], rt_backend_name = Some ''bundled'', rt_registry = sample_registry,
     rt_manifests = [(''p'', sample_manifest)], rt_plugin_configurations = [(''p'', EMPTY_CONFIGURATION_BYTES)],
     rt_plugin_logging = [(''p'', ())], rt_initialized_plugins = {''p''}, rt_operation_generation = 1,
     rt_memory_mode = ''pooled'', rt_arena_bytes = None, rt_bundled_implementation = ''auto'',
     rt_deadlines = DEFAULT_TRANSPORT_DEADLINES\<rparr>"
    using sample_runtime_eq by blast
  have names: "visible_operation_names_locked sample_backends sample_runtime = Inr [''go'', ''p.go'']"
    by (simp add: d(2) visible_operation_names_locked_def operation_names_locked_def sample_registry_names sample_backends_def
        backends_of_def names_of_backend_def d(1))
  have "operation sample_registry ''p.go'' = Inr (hd (pm_operations sample_plugin))"
    by (simp add: sample_registry_def sample_plugin_def register_def st_run new_registry_def register_operation_def Let_def
        qualified_name_def operation_def resolve_name_def)
  then show "resolve_operation sample_backends ''p.go'' (rt_state sample_world) = Some (Inr (1, Some (hd (pm_operations sample_plugin))))"
    using names by (simp add: resolve_operation_def when_open_def sample_world_def) (simp add: d(2))
  have "\<exists>b. selected_backend_locked sample_runtime = Inr b" by (simp add: d(2) selected_backend_locked_def)
  then show "\<exists>b s. begin_work sample_backends (Invoke_registered ''p.go'' 1) (rt_state sample_world) = (Inr b, s)"
    using names by (auto simp: begin_invoke_registered_def sbind_run accept_work_run sample_world_def st_simps choose_backend_run)
      (simp_all add: d(2))
qed

text \<open>C32: An operation handle that is accepted runs against the catalog it was made for: whatever was
  loaded, discovered, selected or closed in between, in any interleaving, the operation still
  resolves to the metadata and generation of the handle, and the backend that runs it is the one
  selected now. A handle of another generation is refused.\<close>

theorem handle_runs_its_catalog:
  assumes "runtime_reachable (backends_of env disabled) fr w" "runtime_steps (backends_of env disabled) fr w w'"
    and "resolve_operation (backends_of env disabled) name (rt_state w) = Some (Inr (g, m))"
    and "begin_work (backends_of env disabled) (Invoke_registered name g) (rt_state w') = (Inr b, s)"
  shows "resolve_operation (backends_of env disabled) name (rt_state w') = Some (Inr (g, m)) \<and>
    rt_registry (rt_state w') = rt_registry (rt_state w) \<and> selected_backend_locked (rt_state w') = Inr b \<and>
    g = rt_operation_generation (rt_state w')"
  using wmfs.accepted_handle[OF assms] by blast

theorem handle_runs_its_catalog_witness:
  "\<exists>b. selected_backend_locked (rt_state sample_world) = Inr b"
proof -
  obtain b s where "begin_work sample_backends (Invoke_registered ''p.go'' 1) (rt_state sample_world) = (Inr b, s)"
    using sample_resolves(2) by blast
  moreover have "runtime_steps sample_backends (\<lambda>_. []) sample_world sample_world" by (simp add: runtime_steps_def)
  ultimately show ?thesis
    using handle_runs_its_catalog[of sample_providers "()" "\<lambda>_. []" sample_world sample_world "''p.go''" 1]
      sample_world_reachable sample_resolves(1) unfolding sample_backends_def by blast
qed

definition closing_world :: "(any_backend, unit) Runtime_World" where
  "closing_world = \<lparr>rt_state = (new_runtime sample_backends)\<lparr>rt_open := False\<rparr>, tasks = {#Closing_waits#}, shut = []\<rparr>"

lemma closing_world_reachable: "runtime_reachable sample_backends fr closing_world"
proof -
  have "runtime_step sample_backends fr (runtime_start sample_backends)
      (trade {#} {#Closing_waits#} ((runtime_start sample_backends)\<lparr>rt_state := (new_runtime sample_backends)\<lparr>rt_open := False\<rparr>\<rparr>))"
    by (rule runtime_step.close_begins) (simp add: begin_close_def runtime_start_def new_runtime_def)
  then show ?thesis unfolding runtime_reachable_def
    by (intro runtime_steps_one) (simp add: trade_def runtime_start_def closing_world_def)
qed

lemma drained_world_reachable:
  "runtime_reachable sample_backends fr (trade {#Closing_waits#} {#Closing [In_process (new_bundled ''auto'')]#} closing_world)"
proof -
  have "map snd (rt_backends (rt_state closing_world)) = [In_process (new_bundled ''auto'')]"
    by (simp add: closing_world_def new_runtime_def initial_backends_def sample_backends_def backends_of_def)
  moreover have "runtime_step sample_backends fr closing_world
      (trade {#Closing_waits#} {#Closing (map snd (rt_backends (rt_state closing_world)))#} closing_world)"
    by (rule runtime_step.close_drained) (simp_all add: closing_world_def new_runtime_def)
  ultimately show ?thesis using runtime_reachable_steps[OF closing_world_reachable runtime_steps_one] by simp
qed

text \<open>C33: While the runtime's backends are closed no thread has work in a backend or discovers
  plugins, no work is accepted and no method changes the state; the backends are closed one
  after the other, none left out, and the state that is left is the constructor's, but for
  the generations.\<close>

theorem closing_runtime_is_quiet:
  assumes "runtime_reachable (backends_of env disabled) fr w" "Closing bs \<in># tasks w"
  shows "(\<forall>t. t \<in># tasks w \<longrightarrow> \<not> working t) \<and>
    begin_work (backends_of env disabled) how (rt_state w) = (Inl (RuntimeError ''Runtime is closing''), rt_state w) \<and>
    snd (perform_call (backends_of env disabled) fr c (rt_state w)) = rt_state w \<and>
    (\<exists>pre done'. shut w = pre @ done' \<and> done' @ bs = map snd (rt_backends (rt_state w))) \<and>
    finish_close (backends_of env disabled) (rt_state w) = (new_runtime (backends_of env disabled))
      \<lparr>rt_operation_generation := rt_operation_generation (rt_state w) + 1,
       rt_close_generation := rt_close_generation (rt_state w) + 1\<rparr>"
  using wmfs.closing_is_exclusive[OF assms] wmfs.closed_is_new[OF assms] by (metis prod.collapse)

theorem closing_runtime_is_quiet_witness:
  "begin_work sample_backends (Invoke ''go'') (rt_state closing_world) = (Inl (RuntimeError ''Runtime is closing''), rt_state closing_world) \<and>
   finish_close sample_backends (rt_state closing_world) = (new_runtime sample_backends)
     \<lparr>rt_operation_generation := 1, rt_close_generation := 1\<rparr>"
  using closing_runtime_is_quiet[of sample_providers "()" "\<lambda>_. []" _ "[In_process (new_bundled ''auto'')]" "Invoke ''go''",
      folded sample_backends_def, OF drained_world_reachable]
  by (simp add: closing_world_def) (simp add: new_runtime_def)

text \<open>C34: A close that is not interrupted ends: from every reachable state with a thread that closes
  there are steps, of the threads there are, to an open runtime of the next close generation.
  Interrupted while it waits, it leaves a runtime no step of which opens it again.\<close>

theorem close_can_finish:
  assumes "runtime_reachable (backends_of env disabled) fr w"
  shows "(t \<in># tasks w \<and> closes t \<longrightarrow> (\<exists>w'. runtime_steps (backends_of env disabled) fr w w' \<and> rt_open (rt_state w') \<and>
      rt_close_generation (rt_state w') = rt_close_generation (rt_state w) + 1)) \<and>
    (\<not> rt_open (rt_state w) \<and> closers (tasks w) = 0 \<and> runtime_step (backends_of env disabled) fr w w' \<longrightarrow>
      \<not> rt_open (rt_state w') \<and> closers (tasks w') = 0 \<and> rt_close_generation (rt_state w') = rt_close_generation (rt_state w))"
proof -
  note inv = wmfs.reachable_inv[OF assms]
  have "\<exists>w'. runtime_steps (backends_of env disabled) fr w w' \<and> rt_open (rt_state w') \<and>
      rt_close_generation (rt_state w') = rt_close_generation (rt_state w) + 1" if "t \<in># tasks w" "closes t"
    using that(2)
  proof (cases t rule: closes.cases)
    case 1
    then show ?thesis using waiting_ends[OF _ _ _ wmfs.runtime_backends_axioms, of w env disabled fr] inv that(1) by simp
  next
    case (2 bs)
    then show ?thesis using closing_ends_steps[of bs w "backends_of env disabled" fr] that(1) by simp
  qed simp_all
  with interrupted_close_is_final[of w "backends_of env disabled" fr w'] inv show ?thesis by blast
qed

theorem close_can_finish_witness:
  "\<exists>w'. runtime_steps sample_backends (\<lambda>_. []) closing_world w' \<and> rt_open (rt_state w')"
  using close_can_finish[of sample_providers "()" "\<lambda>_. []" closing_world Closing_waits, folded sample_backends_def,
      OF closing_world_reachable]
  by (auto simp: closing_world_def)

text \<open>C37: Starting the in-process providers is all or nothing: a failure leaves the operations as they
  were and, if no shutdown fails, shuts down exactly the providers it started, the last first. In
  every case the providers that run are the ones the backend has, and closing shuts them all down,
  whatever their hooks raise.\<close>

theorem providers_are_accounted_for:
  assumes "bundled_initialize env ms r d = (res, d')" "accounted d"
  shows "accounted d' \<and>
    (\<forall>e. res = Inl e \<longrightarrow> bd_operations d' = bd_operations d \<and>
       ((\<forall>n p. shutdown_provider env n p = Inr ()) \<longrightarrow>
          (\<exists>ns. d' = d\<lparr>bd_history := bd_history d @ map Started ns @ map Shut_down (rev ns)\<rparr>))) \<and>
    bd_initialized (snd (bundled_close env d')) = [] \<and> running (bd_history (snd (bundled_close env d'))) = {} \<and>
    bd_history (snd (bundled_close env d')) = bd_history d' @ map Shut_down (rev (map fst (bd_initialized d')))"
proof -
  note keeps = bundled_initialize_keeps[OF assms(1)]
  then have acc: "accounted d'" using assms(2) by blast
  show ?thesis
    using acc keeps failed_bundled_initialize[of env ms r d] assms(1)
      bundled_close_shuts_down(1,3,4)[OF acc prod.collapse[symmetric], of env] by blast
qed

theorem providers_are_accounted_for_witness:
  "\<exists>d'. bundled_initialize sample_providers [sample_manifest, sample_manifest\<lparr>mf_name := ''q'', mf_has_initialize := True\<rparr>]
       sample_registry (new_bundled ''auto'') = (Inl (RuntimeError ''Python provider has no initialize hook''), d') \<and>
     bd_history d' = [Started ''p'', Shut_down ''p''] \<and> accounted d'"
proof -
  have run: "bundled_initialize sample_providers [sample_manifest, sample_manifest\<lparr>mf_name := ''q'', mf_has_initialize := True\<rparr>]
       sample_registry (new_bundled ''auto'') = (Inl (RuntimeError ''Python provider has no initialize hook''),
         (new_bundled ''auto'')\<lparr>bd_history := [Started ''p'', Shut_down ''p'']\<rparr>)"
    by (simp add: bundled_initialize_def sample_registry_names new_bundled_def resolve_provider_def load_native_module_def
        operations_of_def public_operations_def sample_providers_def run_initialize_def started_def qualified_name_def
        sample_manifest_def sample_plugin_def shutdown_provider_def shut_down_def)
  from providers_are_accounted_for[OF this accounted_new] run show ?thesis by simp
qed

section \<open>Structured logging\<close>

definition example_record :: LogRecord where
  "example_record = \<lparr>lr_level = 30, lr_message = text_of ''hi'', lr_category = [], lr_fields = [(text_of ''n'', LInt 5)], lr_sequence = 1,
     lr_time_ns = 0, lr_context = \<lparr>lc_session = 1, lc_submission = 2, lc_invocation = 3, lc_operation = 4\<rparr>, lr_flags = 0,
     lr_dropped_before = 0\<rparr>"

text \<open>C38: A record that either copy of the encoder accepts fits the limit, and, if none of its field
  names is empty and no two of them agree once cut to 255 bytes, both copies of the decoder return
  the same record (the encoders accept the other records too, and the decoders refuse them): with the level, counters and context as they were, its
  texts cut to prefixes, some last fields missing, and as it was when the flag says nothing was cut.\<close>

theorem log_record_arrives:
  assumes "encode_log_record r limit = Inr packet \<or> sdk_encode_log_record r limit = Inr packet"
    and "names_survive (take MAX_LOG_FIELDS (lr_fields r))"
  shows "length packet \<le> limit \<and> (\<exists>r'. decode_log_record packet = Inr r' \<and> sdk_decode_log_record packet = Inr r' \<and> shortened r r')"
  using assms decode_encoded_log sdk_decode_log_parity unfolding encode_log_record_def sdk_encode_log_record_def by blast

lemma example_record_encodes: "\<exists>packet. encode_log_record example_record 200 = Inr packet"
  by (simp add: encode_log_record_def encode_log_def example_record_def log_consts utf8_prefix_def text_of_def utf8_char_def encode_field_def
      field_bits_def field_text_def LOG_LEVELS_def KNOWN_FLAGS_def FLAG_TRUNCATED_def FLAG_SYNTHETIC_def log_header_def LOG_HEADER_fmt_def
      LOG_FIELD_fmt_def LOG_MAGIC_def LOG_ABI_MAJOR_def LOG_ABI_MINOR_def fits_def sfits_def Let_def)

lemma example_record_names: "names_survive (take MAX_LOG_FIELDS (lr_fields example_record))"
  by (simp add: names_survive_def example_record_def text_of_def MAX_LOG_FIELDS_def)

theorem log_record_arrives_witness:
  "\<exists>packet r'. length packet \<le> 200 \<and> decode_log_record packet = Inr r' \<and> lr_level r' = 30 \<and> lr_sequence r' = 1"
proof -
  obtain packet where p: "encode_log_record example_record 200 = Inr packet" using example_record_encodes by blast
  from log_record_arrives[OF disjI1[OF p] example_record_names] show ?thesis
    by (auto simp: shortened_def example_record_def)
qed





section \<open>Generator and runtime\<close>

text \<open>C40: The runtime loads what the generator writes: when the generator returns a manifest for a
  well-formed interface, the runtime, reading it with its keys in any order, accepts it, with the
  metadata, deployment, lifecycle and capabilities of the interface. In particular the two programs,
  which hash documents built independently, compute the same fingerprints of the interface, of the
  metadata and of the configuration schema. What is assumed of the interface besides is that its
  metadata and its configuration schema are valid, fingerprints aside.\<close>

theorem generated_manifest_loads:
  assumes "generate fr sha g = Inr document" "same_json document (JObject d)"
    and "well True document" "well True (JObject d)"
    and "interface_ok g" "validate_plugin_metadata (\<lambda>_. 0) False (metadata_of g 0) = Inr ()"
    and "configuration_accepted (get d ''configuration'')"
    and "\<forall>b. length (sha b) = 32" "is_dir (ig_deployment_root g)"
  shows "\<exists>fingerprint digest configuration. load_manifest fr sha is_dir is_file disabled (JObject d) =
      Inr (manifest_of disabled g fingerprint digest configuration) \<and> (configuration = None \<longleftrightarrow> ig_configuration g = None) \<and>
    plugin_fingerprint fr sha (metadata_of g fingerprint) = Inr fingerprint"
  using assms by (rule generated_manifest)

definition example_interface :: IPlugin where
  "example_interface = \<lparr>ig_format_version = 2, ig_abi_version = 1, ig_protocol_version = 11, ig_name = ''demo'', ig_version = ''1.0'',
     ig_namespace = ''demo'', ig_python_module = ''demo'', ig_worker = text_of ''w'', ig_deployment_root = text_of ''.'',
     ig_python_provider = None, ig_bundled_namespace = Some ''demo'',
     ig_operations = [\<lparr>ip_operation_id = 1, ip_name = ''twice'', ip_internal = False,
       ip_inputs = [\<lparr>it_name = ''x'', it_access = ''read_only'', it_dtype_variable = None, it_dtypes = [''float32'']\<rparr>],
       ip_outputs = [\<lparr>io_name = ''y'', io_allocation = ''known'', io_dimensions = [], io_same_shape = Some 0,
         io_dtype = Some \<lparr>dt_kind = ''input'', dt_input = Some 0, dt_scalar = None, dt_value = None, dt_variable = None\<rparr>\<rparr>],
       ip_scalars = [\<lparr>is_name = ''n'', is_kind = ''int64'', is_required = False, is_default = Some (SInt 2), is_enum = None, is_enum_values = []\<rparr>],
       ip_vjp = None, ip_dtype_variables = []\<rparr>],
     ig_enums = [], ig_configuration = None, ig_lifecycle = \<lparr>il_initialize = True, il_shutdown = False\<rparr>\<rparr>"

lemma example_interface_ok: "interface_ok example_interface"
  by (simp add: interface_ok_def example_interface_def ABI_VERSION_def PROTOCOL_VERSION_def text_of_def operation_ok_def tensor_ok_def
      output_ok_def dtype_ok_def scalar_ok_def)

lemma example_interface_valid: "validate_plugin_metadata (\<lambda>_. 0) False (metadata_of example_interface 0) = Inr ()"
  by (simp add: validate_plugin_metadata_def metadata_of_def example_interface_def operation_of_def tensor_of_def output_of_def scalar_of_def
      dtype_of_def validate_operation_metadata_def validate_scalar_def SCALAR_KINDS_def scalar_matches_kind_def validate_tensor_input_def
      validate_dtypes_def SUPPORTED_OUTPUT_DTYPES_def validate_plan_def validate_known_output_def validate_index_def validate_vjp_def
      MAX_OUTPUTS_def reject_def)

lemmas interface_documents = interface_document_def interface_items_def operation_dict_def tensor_dict_def output_dict_def dtype_dict_def
  scalar_dict_def lifecycle_dict_def jlist_def jopt_def jstr_def

lemma example_operations:
  "\<exists>ops. emap tool_operation (ig_operations example_interface) = Inr ops \<and> dumpable (tool_envelope example_interface ops)"
  by (simp add: example_interface_def tool_operation_def tool_output_def tool_tensor_def metadata_access_def tool_dtype_def tool_scalar_def
      tool_output_tensor_def tool_envelope_def dumpable_obj jlist_def jopt_def jstr_def decimal.simps)

lemma example_documents:
  "dumpable (interface_document example_interface)"
  "dumpable (obj (interface_items example_interface @ manifest_items example_interface f n JNull))"
  "well True (obj (interface_items example_interface @ manifest_items example_interface (hex_of b) n JNull))"
  by (simp_all add: example_interface_def interface_documents dumpable_obj manifest_items_def deployment_document_def present_def
      startup_capabilities_def decimal.simps well_obj encodable_text ascii_encodable hex_ascii)

lemma example_generated:
  "\<exists>d. generate (\<lambda>_. []) (\<lambda>_. replicate 32 0) example_interface = Inr (JObject d) \<and> well True (JObject d) \<and> get d ''configuration'' = JNull"
proof -
  let ?sha = "\<lambda>_. replicate 32 0 :: bytes" and ?fr = "\<lambda>_. [] :: ustr"
  have ascii_fr: "\<forall>w. float_finite w \<longrightarrow> is_ascii (?fr w)" by simp
  obtain t data where t: "dumps ?fr True (interface_document example_interface) = Inr t" "utf8_encode t = Inr data"
    by (rule written[OF ascii_fr example_documents(1)])
  obtain ops where ops: "emap tool_operation (ig_operations example_interface) = Inr ops" "dumpable (tool_envelope example_interface ops)"
    using example_operations by blast
  obtain t' data' where t': "dumps ?fr True (tool_envelope example_interface ops) = Inr t'" "utf8_encode t' = Inr data'"
    by (rule written[OF ascii_fr ops(2)])
  define n where "n = from_big_endian (take 8 (?sha data'))"
  have n: "tool_metadata_fingerprint ?fr ?sha example_interface = Inr n" using ops(1) t' by (simp add: tool_metadata_fingerprint_def n_def)
  let ?items = "interface_items example_interface @ manifest_items example_interface (hex_of (?sha data)) n JNull"
  obtain t'' data'' where t'': "dumps ?fr True (obj ?items) = Inr t''" "utf8_encode t'' = Inr data''"
    by (rule written[OF ascii_fr example_documents(2)])
  have none: "ig_configuration example_interface = None" by (simp add: example_interface_def)
  have "generate ?fr ?sha example_interface = Inr (obj ?items)"
    using t n t'' none unfolding generate_def manifest_document_def manifest_items_def by (simp add: configuration_manifest_def)
  moreover have "well True (obj ?items)" by (rule example_documents(3))
  moreover have "get (map (\<lambda>(n, v). (key n, v)) ?items) ''configuration'' = JNull"
    by (simp add: get_def interface_items_def manifest_items_def)
  ultimately show ?thesis unfolding obj_def by blast
qed

theorem generated_manifest_loads_witness:
  "\<exists>d m. generate (\<lambda>_. []) (\<lambda>_. replicate 32 0) example_interface = Inr (JObject d) \<and>
     load_manifest (\<lambda>_. []) (\<lambda>_. replicate 32 0) (\<lambda>_. True) (\<lambda>_. True) () (JObject d) = Inr m \<and> mf_name m = ''demo'' \<and>
     mf_has_initialize m \<and> pf_startup_capabilities m = 119"
proof -
  obtain d where d: "generate (\<lambda>_. []) (\<lambda>_. replicate 32 0) example_interface = Inr (JObject d)" "well True (JObject d)"
    "get d ''configuration'' = JNull"
    using example_generated by blast
  have "configuration_accepted (get d ''configuration'')" by (simp add: d(3) configuration_accepted_def)
  from generated_manifest_loads[where is_dir = "\<lambda>_. True" and is_file = "\<lambda>_. True" and disabled = "()",
      OF d(1) same_json_refl[OF d(2)] d(2) d(2) example_interface_ok example_interface_valid this]
  obtain fingerprint digest configuration where "load_manifest (\<lambda>_. []) (\<lambda>_. replicate 32 0) (\<lambda>_. True) (\<lambda>_. True) () (JObject d) =
      Inr (manifest_of () example_interface fingerprint digest configuration)" by auto
  with d(1) show ?thesis
    by (intro exI[of _ d] exI[of _ "manifest_of () example_interface fingerprint digest configuration"])
      (simp add: manifest_of_def example_interface_def startup_capabilities_def)
qed

end
